(* ===== verification/TapePrelude.thy ===== *)
theory TapePrelude
  imports Main
begin

text \<open>
  The prelude of the development: JSON values and the Python operations on them
  that the code uses (truth value, \<open>or\<close>, \<open>str\<close>, f-string rendering of
  integers), the errors a service call can raise, the table primitives every
  ledger is written with (\<open>SELECT\<close> by predicate, \<open>one_or_none\<close>,
  \<open>UPDATE ... WHERE\<close> with its row count, \<open>ORDER BY\<close> with \<open>LIMIT\<close>), and the
  interfaces shared by the components: \<open>row_store\<close> (a table addressed by its
  primary key), \<open>lease\<close> (a claim that expires), \<open>guarded_system\<close> (a transition
  system with an invariant) and \<open>capped_backoff\<close>.
\<close>

named_theorems row_simps \<open>field-level facts about the row updates of the ledgers\<close>
named_theorems const_defs \<open>the string constants of the enum classes\<close>

section \<open>JSON values and Python operations on them\<close>

text \<open>
  A payload column holds a JSON value or \<open>NULL\<close>; Python reads both \<open>NULL\<close> and JSON
  \<open>null\<close> as \<open>None\<close>, which is \<open>JNull\<close>. Numbers of payloads are integers here: the
  code never computes with them.
\<close>

datatype json =
    JNull
  | JBool bool
  | JNum int
  | JStr string
  | JArr "json list"
  | JObj "(string \<times> json) list"

text \<open>Python's \<open>bool(v)\<close> on a JSON value and on an optional string.\<close>

fun truthy :: "json \<Rightarrow> bool" where
  "truthy JNull = False"
| "truthy (JBool b) = b"
| "truthy (JNum n) = (n \<noteq> 0)"
| "truthy (JStr s) = (s \<noteq> [])"
| "truthy (JArr xs) = (xs \<noteq> [])"
| "truthy (JObj kvs) = (kvs \<noteq> [])"

fun truthy_str :: "string option \<Rightarrow> bool" where
  "truthy_str None = False"
| "truthy_str (Some s) = (s \<noteq> [])"

text \<open>Python's \<open>a or b\<close> at the types the code uses it.\<close>

definition json_or :: "json \<Rightarrow> json \<Rightarrow> json" where
  "json_or a b = (if truthy a then a else b)"

definition int_or :: "int \<Rightarrow> int \<Rightarrow> int" where
  "int_or a b = (if a \<noteq> 0 then a else b)"

definition str_or_none :: "string option \<Rightarrow> string option" where
  "str_or_none s = (if truthy_str s then s else None)"

definition ref_or :: "string \<Rightarrow> string option \<Rightarrow> string option" where
  "ref_or s old = (if s \<noteq> [] then Some s else old)"

definition opt_json :: "string option \<Rightarrow> json" where
  "opt_json s = (case s of None \<Rightarrow> JNull | Some x \<Rightarrow> JStr x)"

subsection \<open>Rendering\<close>

definition digit :: "nat \<Rightarrow> char" where
  "digit n = char_of (48 + n)"

fun nat_str :: "nat \<Rightarrow> string" where
  "nat_str n = (if n < 10 then [digit n] else nat_str (n div 10) @ [digit (n mod 10)])"

declare nat_str.simps [simp del]

definition int_str :: "int \<Rightarrow> string" where
  "int_str i = (if i < 0 then CHR ''-'' # nat_str (nat (- i)) else nat_str (nat i))"

definition hex_digit :: "nat \<Rightarrow> char" where
  "hex_digit n = (if n < 10 then char_of (48 + n) else char_of (87 + n))"

text \<open>
  Python's \<open>repr\<close> of a string: single quotes unless the string has a single quote
  and no double quote; backslash, the quote, newline, carriage return and tab are
  escaped, other control characters become \<open>\xhh\<close>.
\<close>

definition repr_quote :: "string \<Rightarrow> char" where
  "repr_quote s = (if CHR 0x27 \<in> set s \<and> CHR 0x22 \<notin> set s then CHR 0x22 else CHR 0x27)"

definition repr_char :: "char \<Rightarrow> char \<Rightarrow> string" where
  "repr_char q c =
     (if c = CHR 0x5C \<or> c = q then [CHR 0x5C, c]
      else if c = CHR 0x0A then [CHR 0x5C, CHR ''n'']
      else if c = CHR 0x0D then [CHR 0x5C, CHR ''r'']
      else if c = CHR 0x09 then [CHR 0x5C, CHR ''t'']
      else if of_char c < (32::nat) \<or> of_char c = (127::nat) then
        [CHR 0x5C, CHR ''x'', hex_digit (of_char c div 16), hex_digit (of_char c mod 16)]
      else [c])"

definition repr_str :: "string \<Rightarrow> string" where
  "repr_str s = (let q = repr_quote s in q # concat (map (repr_char q) s) @ [q])"

definition repr_opt :: "string option \<Rightarrow> string" where
  "repr_opt s = (case s of None \<Rightarrow> ''None'' | Some x \<Rightarrow> repr_str x)"

fun join_with :: "string \<Rightarrow> string list \<Rightarrow> string" where
  "join_with sep [] = []"
| "join_with sep [x] = x"
| "join_with sep (x # xs) = x @ sep @ join_with sep xs"

fun py_repr :: "json \<Rightarrow> string"
  and py_repr_list :: "json list \<Rightarrow> string list"
  and py_repr_items :: "(string \<times> json) list \<Rightarrow> string list" where
  "py_repr JNull = ''None''"
| "py_repr (JBool b) = (if b then ''True'' else ''False'')"
| "py_repr (JNum n) = int_str n"
| "py_repr (JStr s) = repr_str s"
| "py_repr (JArr xs) = ''['' @ join_with '', '' (py_repr_list xs) @ '']''"
| "py_repr (JObj kvs) = ''{'' @ join_with '', '' (py_repr_items kvs) @ ''}''"
| "py_repr_list [] = []"
| "py_repr_list (x # xs) = py_repr x # py_repr_list xs"
| "py_repr_items [] = []"
| "py_repr_items ((k, v) # kvs) = (repr_str k @ '': '' @ py_repr v) # py_repr_items kvs"

text \<open>Python's \<open>str(v)\<close>: a string is itself, anything else is its \<open>repr\<close>.\<close>

definition py_str :: "json \<Rightarrow> string" where
  "py_str v = (case v of JStr s \<Rightarrow> s | _ \<Rightarrow> py_repr v)"

section \<open>Errors\<close>

text \<open>
  What a service call raises. \<open>IntegrityError\<close> carries the violated constraint;
  \<open>BusinessKeyExists\<close> is the \<open>ValueError\<close> that \<open>begin_effect\<close> makes out of an
  \<open>IntegrityError\<close> (its text quotes the connector and the driver's message).
\<close>

datatype violation = PrimaryKey | Unique string | ForeignKey

datatype tape_error =
    ValueError string
  | BusinessKeyExists "string option" violation
  | IntegrityError violation
  | MultipleResultsFound
  | KeyError "string option"

text \<open>An exception raised by a connector or a callback: its type name and its text.\<close>

datatype py_exn = PyExn string string

text \<open>\<open>f"{type(ex).__name__}: {ex}"\<close> and \<open>str(ex)\<close>.\<close>

definition exn_text :: "py_exn \<Rightarrow> string" where
  "exn_text ex = (case ex of PyExn tn msg \<Rightarrow> tn @ '': '' @ msg)"

definition exn_msg :: "py_exn \<Rightarrow> string" where
  "exn_msg ex = (case ex of PyExn tn msg \<Rightarrow> msg)"

text \<open>\<open>str.partition\<close> on a one-character separator.\<close>

definition py_partition :: "char \<Rightarrow> string \<Rightarrow> string \<times> string \<times> string" where
  "py_partition c s =
     (case dropWhile (\<lambda>x. x \<noteq> c) s of
        [] \<Rightarrow> (s, [], [])
      | x # rest \<Rightarrow> (takeWhile (\<lambda>x. x \<noteq> c) s, [c], rest))"

definition is_digit :: "char \<Rightarrow> bool" where
  "is_digit c \<longleftrightarrow> 48 \<le> (of_char c :: nat) \<and> (of_char c :: nat) \<le> 57"

text \<open>The name of the Python type of a decoded value.\<close>

definition py_type_name :: "json \<Rightarrow> string" where
  "py_type_name v = (case v of JNull \<Rightarrow> ''NoneType'' | JBool _ \<Rightarrow> ''bool'' | JNum _ \<Rightarrow> ''int''
     | JStr _ \<Rightarrow> ''str'' | JArr _ \<Rightarrow> ''list'' | JObj _ \<Rightarrow> ''dict'')"

text \<open>
  \<open>payload.get(k, dflt)\<close>, which raises an \<open>AttributeError\<close> on a payload that is not a dict.
\<close>

definition payload_get :: "json \<Rightarrow> string \<Rightarrow> json \<Rightarrow> py_exn + json" where
  "payload_get p k dflt = (case p of
     JObj kvs \<Rightarrow> Inr (case map_of kvs k of Some v \<Rightarrow> v | None \<Rightarrow> dflt)
   | _ \<Rightarrow> Inl (PyExn ''AttributeError'' (repr_str (py_type_name p) @ '' object has no attribute '' @ repr_str ''get'')))"

definition is_value_error :: "tape_error \<Rightarrow> bool" where
  "is_value_error e = (case e of ValueError _ \<Rightarrow> True | BusinessKeyExists _ _ \<Rightarrow> True | _ \<Rightarrow> False)"

section \<open>Table primitives\<close>

text \<open>
  A table is the list of its rows in insertion order. \<open>one_or_none\<close> raises on a
  second row. \<open>update_where\<close> is one \<open>UPDATE\<close> statement and returns the number of
  rows it matched with the table; \<open>order_limit\<close> is \<open>ORDER BY k LIMIT n\<close>, rows of
  equal key staying in table order.
\<close>

definition one_or_none :: "'r list \<Rightarrow> tape_error + 'r option" where
  "one_or_none rs =
     (case rs of [] \<Rightarrow> Inr None | [r] \<Rightarrow> Inr (Some r) | _ \<Rightarrow> Inl MultipleResultsFound)"

definition update_where :: "('r \<Rightarrow> bool) \<Rightarrow> ('r \<Rightarrow> 'r) \<Rightarrow> 'r list \<Rightarrow> nat \<times> 'r list" where
  "update_where p f rs = (length (filter p rs), map (\<lambda>r. if p r then f r else r) rs)"

definition delete_where :: "('r \<Rightarrow> bool) \<Rightarrow> 'r list \<Rightarrow> nat \<times> 'r list" where
  "delete_where p rs = (length (filter p rs), filter (\<lambda>r. \<not> p r) rs)"

definition order_limit :: "('r \<Rightarrow> int) \<Rightarrow> nat \<Rightarrow> 'r list \<Rightarrow> 'r list" where
  "order_limit k n rs = take n (sort_key k rs)"

definition tbl_lookup :: "('r \<Rightarrow> 'k) \<Rightarrow> 'r list \<Rightarrow> 'k \<Rightarrow> 'r option" where
  "tbl_lookup pk rs k = find (\<lambda>r. pk r = k) rs"

definition tbl_insert :: "'r \<Rightarrow> 'r list \<Rightarrow> 'r list" where
  "tbl_insert r rs = rs @ [r]"

definition tbl_modify :: "('r \<Rightarrow> 'k) \<Rightarrow> 'k \<Rightarrow> ('r \<Rightarrow> 'r) \<Rightarrow> 'r list \<Rightarrow> 'r list" where
  "tbl_modify pk k f rs = map (\<lambda>r. if pk r = k then f r else r) rs"

definition tbl_prune :: "('r \<Rightarrow> bool) \<Rightarrow> 'r list \<Rightarrow> 'r list" where
  "tbl_prune p rs = filter (\<lambda>r. \<not> p r) rs"

definition tbl_ok :: "('r \<Rightarrow> 'k) \<Rightarrow> 'r list \<Rightarrow> bool" where
  "tbl_ok pk rs = distinct (map pk rs)"

section \<open>Facts about the primitives\<close>

lemma map_sum_InrD: "map_sum id f m = Inr v \<Longrightarrow> \<exists>u. m = Inr u \<and> v = f u"
  by (cases m) auto

lemma int_or_simps [simp]: "int_or 0 b = b" "a \<noteq> 0 \<Longrightarrow> int_or a b = a"
  by (simp_all add: int_or_def)

lemma str_or_none_Some [simp]: "s \<noteq> [] \<Longrightarrow> str_or_none (Some s) = Some s"
  and str_or_none_empty [simp]: "str_or_none (Some []) = None"
  and str_or_none_None [simp]: "str_or_none None = None"
  by (simp_all add: str_or_none_def)

lemma str_or_none_eq_Some: "str_or_none x = Some s \<longleftrightarrow> x = Some s \<and> s \<noteq> []"
  by (cases x) (auto simp: str_or_none_def)

lemma truthy_str_iff: "truthy_str x \<longleftrightarrow> (\<exists>s. x = Some s \<and> s \<noteq> [])"
  by (cases x) auto

lemma opt_json_inject [simp]: "opt_json a = opt_json b \<longleftrightarrow> a = b"
  by (cases a; cases b) (auto simp: opt_json_def)

subsection \<open>Rendered integers\<close>

lemma of_char_digit: "n < 10 \<Longrightarrow> of_char (digit n) = (48 + n :: nat)"
  unfolding digit_def of_char_of by (simp add: take_bit_nat_eq_self)

lemma digit_inj: "m < 10 \<Longrightarrow> n < 10 \<Longrightarrow> digit m = digit n \<Longrightarrow> m = n"
  by (metis add_left_cancel of_char_digit)

lemma nat_str_nonempty: "nat_str n \<noteq> []"
  by (subst nat_str.simps) simp

lemma nat_str_digits: "c \<in> set (nat_str n) \<Longrightarrow> \<exists>m < 10. c = digit m"
proof (induction n rule: nat_str.induct)
  case (1 n)
  show ?case
  proof (cases "n < 10")
    case True
    with "1.prems" have "c = digit n" by (simp add: nat_str.simps [of n])
    with True show ?thesis by blast
  next
    case False
    with "1.prems" have "c \<in> set (nat_str (n div 10)) \<or> c = digit (n mod 10)"
      by (auto simp: nat_str.simps [of n])
    then show ?thesis
    proof
      assume "c \<in> set (nat_str (n div 10))"
      with "1.IH" False show ?thesis by blast
    next
      assume "c = digit (n mod 10)"
      moreover have "n mod 10 < 10" by simp
      ultimately show ?thesis by blast
    qed
  qed
qed

lemma nat_str_char_bounds: "c \<in> set (nat_str n) \<Longrightarrow> 48 \<le> (of_char c :: nat) \<and> (of_char c :: nat) \<le> 57"
  using nat_str_digits [of c n] of_char_digit by fastforce

lemma nat_str_length_1: "length (nat_str n) = 1 \<longleftrightarrow> n < 10"
proof (cases "n < 10")
  case True
  then show ?thesis by (simp add: nat_str.simps [of n])
next
  case False
  then have "length (nat_str n) = Suc (length (nat_str (n div 10)))"
    by (simp add: nat_str.simps [of n])
  with False show ?thesis by (simp add: nat_str_nonempty)
qed

lemma nat_str_inj: "nat_str m = nat_str n \<Longrightarrow> m = n"
proof (induction m arbitrary: n rule: nat_str.induct)
  case (1 m)
  have same: "m < 10 \<longleftrightarrow> n < 10"
    using "1.prems" nat_str_length_1 [of m] nat_str_length_1 [of n] by simp
  show ?case
  proof (cases "m < 10")
    case True
    with same "1.prems" have "digit m = digit n"
      by (simp add: nat_str.simps [of m] nat_str.simps [of n])
    with True same show ?thesis by (blast intro: digit_inj)
  next
    case False
    with same "1.prems" have eq: "nat_str (m div 10) = nat_str (n div 10)"
      and d: "digit (m mod 10) = digit (n mod 10)"
      by (simp_all add: nat_str.simps [of m] nat_str.simps [of n])
    from "1.IH" [OF False eq] have "m div 10 = n div 10" .
    moreover from d have "m mod 10 = n mod 10" by (rule digit_inj [rotated 2]) simp_all
    ultimately show ?thesis by (metis div_mult_mod_eq)
  qed
qed

lemma int_str_chars: "c \<in> set (int_str i) \<Longrightarrow> (of_char c :: nat) \<noteq> 47"
  by (auto simp: int_str_def dest!: nat_str_char_bounds split: if_splits)

lemma slash_not_in_int_str [simp]: "CHR ''/'' \<notin> set (int_str i)"
  using int_str_chars [of "CHR ''/''" i] by auto

lemma minus_not_in_nat_str: "CHR ''-'' \<notin> set (nat_str n)"
  using nat_str_char_bounds [of "CHR ''-''" n] by auto

lemma int_str_inj: "int_str i = int_str j \<Longrightarrow> i = j"
proof -
  assume eq: "int_str i = int_str j"
  have head: "hd (nat_str n) \<noteq> CHR ''-''" for n
    using minus_not_in_nat_str [of n] nat_str_nonempty [of n] by (metis hd_in_set)
  show "i = j"
  proof (cases "i < 0"; cases "j < 0")
    assume "i < 0" "\<not> j < 0"
    with eq have "nat_str (nat j) = CHR ''-'' # nat_str (nat (- i))" by (simp add: int_str_def)
    with head [of "nat j"] show ?thesis by simp
  next
    assume "\<not> i < 0" "j < 0"
    with eq have "nat_str (nat i) = CHR ''-'' # nat_str (nat (- j))" by (simp add: int_str_def)
    with head [of "nat i"] show ?thesis by simp
  qed (use eq in \<open>auto simp: int_str_def dest!: nat_str_inj\<close>)
qed

lemma split_at_first:
  "xs @ c # ys = us @ c # vs \<Longrightarrow> c \<notin> set xs \<Longrightarrow> c \<notin> set us \<Longrightarrow> xs = us \<and> ys = vs"
proof (induction xs arbitrary: us)
  case Nil
  then show ?case by (cases us) auto
next
  case (Cons x xs)
  then show ?case by (cases us) auto
qed

lemma split_at_last:
  assumes "xs @ c # ys = us @ c # vs" and "c \<notin> set ys" and "c \<notin> set vs"
  shows "xs = us \<and> ys = vs"
proof -
  from assms(1) have "rev ys @ c # rev xs = rev vs @ c # rev us"
    by (metis append.assoc append_Cons append_Nil rev.simps(2) rev_append)
  moreover have "c \<notin> set (rev ys)" "c \<notin> set (rev vs)" using assms(2,3) by simp_all
  ultimately have "rev ys = rev vs \<and> rev xs = rev us"
    by (rule split_at_first)
  then show ?thesis by simp
qed

subsection \<open>Table facts\<close>

lemma one_or_none_simps [simp]:
  "one_or_none [] = Inr None" "one_or_none [r] = Inr (Some r)"
  "one_or_none (r # r' # rs) = Inl MultipleResultsFound"
  by (simp_all add: one_or_none_def)

lemma tbl_lookup_Nil [simp]: "tbl_lookup pk [] k = None"
  by (simp add: tbl_lookup_def)

lemma tbl_lookup_Cons [simp]:
  "tbl_lookup pk (r # rs) k = (if pk r = k then Some r else tbl_lookup pk rs k)"
  by (simp add: tbl_lookup_def)

lemma tbl_lookup_append: "tbl_lookup pk (rs @ rs') k =
    (case tbl_lookup pk rs k of None \<Rightarrow> tbl_lookup pk rs' k | Some r \<Rightarrow> Some r)"
  by (induction rs) auto

lemma tbl_lookup_None_iff: "tbl_lookup pk rs k = None \<longleftrightarrow> k \<notin> pk ` set rs"
  by (induction rs) auto

lemma tbl_lookup_SomeD: "tbl_lookup pk rs k = Some r \<Longrightarrow> r \<in> set rs \<and> pk r = k"
  by (induction rs) (auto split: if_splits)

lemma tbl_ok_Cons [simp]: "tbl_ok pk (r # rs) \<longleftrightarrow> pk r \<notin> pk ` set rs \<and> tbl_ok pk rs"
  by (simp add: tbl_ok_def)

lemma tbl_ok_ConsD: "tbl_ok pk (r # rs) \<Longrightarrow> x \<in> set rs \<Longrightarrow> pk x \<noteq> pk r"
  by (metis image_eqI tbl_ok_Cons)

lemma tbl_ok_Nil [simp]: "tbl_ok pk []"
  by (simp add: tbl_ok_def)

lemma tbl_lookup_mem: "tbl_ok pk rs \<Longrightarrow> r \<in> set rs \<Longrightarrow> tbl_lookup pk rs (pk r) = Some r"
  by (induction rs) (auto simp: image_iff)

lemma one_or_none_by_key: "tbl_ok pk rs \<Longrightarrow>
    one_or_none (filter (\<lambda>r. pk r = k) rs) = Inr (tbl_lookup pk rs k)"
proof (induction rs)
  case (Cons r rs)
  show ?case
  proof (cases "pk r = k")
    case True
    from Cons.prems True tbl_ok_ConsD [of pk r rs] have "filter (\<lambda>r. pk r = k) rs = []"
      by (auto simp: filter_empty_conv dest: tbl_ok_ConsD)
    with True show ?thesis by simp
  next
    case False
    with Cons show ?thesis by simp
  qed
qed simp

lemma tbl_ok_filter: "tbl_ok pk rs \<Longrightarrow> tbl_ok pk (filter p rs)"
  by (simp add: tbl_ok_def distinct_map_filter)

lemma tbl_ok_snoc: "tbl_ok pk (rs @ [r]) \<longleftrightarrow> tbl_ok pk rs \<and> tbl_lookup pk rs (pk r) = None"
  by (auto simp: tbl_ok_def tbl_lookup_None_iff)

lemma tbl_ok_map: "(\<And>r. pk (f r) = pk r) \<Longrightarrow> tbl_ok pk (map f rs) = tbl_ok pk rs"
  by (simp add: tbl_ok_def comp_def)

lemma tbl_lookup_map:
  "(\<And>r. pk (f r) = pk r) \<Longrightarrow> tbl_lookup pk (map f rs) k = map_option f (tbl_lookup pk rs k)"
  by (induction rs) auto

lemma tbl_lookup_filter: "tbl_ok pk rs \<Longrightarrow>
    tbl_lookup pk (filter p rs) k =
      (case tbl_lookup pk rs k of None \<Rightarrow> None | Some r \<Rightarrow> if p r then Some r else None)"
proof (induction rs)
  case (Cons r rs)
  have "tbl_lookup pk rs (pk r) = None" using Cons.prems by (simp add: tbl_lookup_None_iff)
  with Cons show ?case by (cases "pk r = k") auto
qed simp

lemma filter_key_le_1: "tbl_ok pk rs \<Longrightarrow> length (filter (\<lambda>r. pk r = k \<and> q r) rs) \<le> 1"
proof (induction rs)
  case (Cons r rs)
  show ?case
  proof (cases "pk r = k")
    case True
    from Cons.prems True tbl_ok_ConsD [of pk r rs] have "filter (\<lambda>r. pk r = k \<and> q r) rs = []"
      by (auto simp: filter_empty_conv dest: tbl_ok_ConsD)
    then show ?thesis by simp
  next
    case False
    with Cons show ?thesis by simp
  qed
qed simp

lemma filter_key_count: "tbl_ok pk rs \<Longrightarrow>
    length (filter (\<lambda>r. pk r = k \<and> q r) rs) =
      (case tbl_lookup pk rs k of None \<Rightarrow> 0 | Some r \<Rightarrow> if q r then 1 else 0)"
proof (induction rs)
  case (Cons r rs)
  show ?case
  proof (cases "pk r = k")
    case True
    from Cons.prems True tbl_ok_ConsD [of pk r rs] have "filter (\<lambda>r. pk r = k \<and> q r) rs = []"
      by (auto simp: filter_empty_conv dest: tbl_ok_ConsD)
    with True show ?thesis by simp
  next
    case False
    with Cons show ?thesis by (simp split: option.splits)
  qed
qed simp

lemma set_order_limit: "r \<in> set (order_limit k n rs) \<Longrightarrow> r \<in> set rs"
  by (auto simp: order_limit_def dest: in_set_takeD)

lemma sorted_order_limit: "sorted (map k (order_limit k n rs))"
  by (simp add: order_limit_def take_map [symmetric] sorted_wrt_take)

lemma length_order_limit: "length (order_limit k n rs) = min n (length rs)"
  by (simp add: order_limit_def min.commute)

lemma distinct_order_limit: "distinct (map f rs) \<Longrightarrow> distinct (map f (order_limit k n rs))"
proof -
  assume "distinct (map f rs)"
  then have "distinct (map f (sort_key k rs))"
    by (simp add: distinct_map)
  then show ?thesis
    by (simp add: order_limit_def take_map [symmetric])
qed

lemma tbl_modify_cong:
  assumes "tbl_ok pk rs" and "tbl_lookup pk rs k = Some r" and "f r = g r"
  shows "tbl_modify pk k f rs = tbl_modify pk k g rs"
proof -
  have "x = r" if "x \<in> set rs" "pk x = k" for x
    using tbl_lookup_mem [OF assms(1) that(1)] that(2) assms(2) by simp
  with assms(3) show ?thesis by (auto simp: tbl_modify_def)
qed

lemma tbl_modify_twice: "(\<And>r. pk (f r) = pk r) \<Longrightarrow>
    tbl_modify pk k g (tbl_modify pk k f rs) = tbl_modify pk k (g \<circ> f) rs"
  by (simp add: tbl_modify_def comp_def)

lemma tbl_modify_id:
  assumes "tbl_ok pk rs" and "tbl_lookup pk rs k = Some r"
  shows "tbl_modify pk k (\<lambda>_. r) rs = rs"
proof -
  have "x = r" if "x \<in> set rs" "pk x = k" for x
    using tbl_lookup_mem [OF assms(1) that(1)] that(2) assms(2) by simp
  then show ?thesis by (auto simp: tbl_modify_def intro!: map_idI)
qed

end
