(* ===== verification/TapeInterfaces.thy ===== *)
theory TapeInterfaces
  imports TapePrelude
begin

text \<open>
  The interfaces between the components, as locales: what a table promises to the
  ledgers that read and write it by primary key (\<open>row_store\<close>), what a claim with an
  expiry promises to the reactors that race for it (\<open>lease\<close>), what every operation of
  a service owes its state (\<open>guarded_system\<close>), and the shape of a retry delay
  (\<open>capped_backoff\<close>). Each is interpreted on the model's own definitions in the
  theory that provides them.
\<close>

section \<open>Tables addressed by primary key\<close>

locale row_store =
  fixes lookup :: "'t \<Rightarrow> 'k \<Rightarrow> 'r option"
    and insert_row :: "'r \<Rightarrow> 't \<Rightarrow> 't"
    and modify :: "'k \<Rightarrow> ('r \<Rightarrow> 'r) \<Rightarrow> 't \<Rightarrow> 't"
    and prune :: "('r \<Rightarrow> bool) \<Rightarrow> 't \<Rightarrow> 't"
    and pk :: "'r \<Rightarrow> 'k"
    and invar :: "'t \<Rightarrow> bool"
  assumes lookup_pk: "invar t \<Longrightarrow> lookup t k = Some r \<Longrightarrow> pk r = k"
    and lookup_insert: "invar t \<Longrightarrow> lookup t (pk r) = None \<Longrightarrow>
          lookup (insert_row r t) k = (if k = pk r then Some r else lookup t k)"
    and lookup_modify: "invar t \<Longrightarrow> (\<And>r. pk (f r) = pk r) \<Longrightarrow>
          lookup (modify k f t) k' = (if k' = k then map_option f (lookup t k) else lookup t k')"
    and lookup_prune: "invar t \<Longrightarrow>
          lookup (prune p t) k = (case lookup t k of None \<Rightarrow> None
             | Some r \<Rightarrow> if p r then None else Some r)"
    and invar_insert: "invar t \<Longrightarrow> lookup t (pk r) = None \<Longrightarrow> invar (insert_row r t)"
    and invar_modify: "invar t \<Longrightarrow> (\<And>r. pk (f r) = pk r) \<Longrightarrow> invar (modify k f t)"
    and invar_prune: "invar t \<Longrightarrow> invar (prune p t)"
begin

lemma modify_other: "invar t \<Longrightarrow> (\<And>r. pk (f r) = pk r) \<Longrightarrow> k' \<noteq> k \<Longrightarrow>
    lookup (modify k f t) k' = lookup t k'"
  by (simp add: lookup_modify)

lemma modify_same: "invar t \<Longrightarrow> (\<And>r. pk (f r) = pk r) \<Longrightarrow> lookup t k = Some r \<Longrightarrow>
    lookup (modify k f t) k = Some (f r)"
  by (simp add: lookup_modify)

lemma prune_keeps: "invar t \<Longrightarrow> lookup t k = Some r \<Longrightarrow> \<not> p r \<Longrightarrow> lookup (prune p t) k = Some r"
  by (simp add: lookup_prune)

lemma prune_removes: "invar t \<Longrightarrow> lookup t k = Some r \<Longrightarrow> p r \<Longrightarrow> lookup (prune p t) k = None"
  by (simp add: lookup_prune)

lemma prune_only_old: "invar t \<Longrightarrow> lookup (prune p t) k = Some r \<Longrightarrow> lookup t k = Some r \<and> \<not> p r"
  by (auto simp: lookup_prune split: option.splits if_splits)

lemma insert_then_get: "invar t \<Longrightarrow> lookup t (pk r) = None \<Longrightarrow> lookup (insert_row r t) (pk r) = Some r"
  by (simp add: lookup_insert)

lemma insert_keeps: "invar t \<Longrightarrow> lookup t (pk r) = None \<Longrightarrow> lookup t k = Some r' \<Longrightarrow>
    lookup (insert_row r t) k = Some r'"
  by (auto simp: lookup_insert)

end

text \<open>A list of rows with distinct keys is such a table, whatever the key.\<close>

lemma list_row_store:
  "row_store (tbl_lookup pk) tbl_insert (tbl_modify pk) tbl_prune pk (tbl_ok pk)"
proof
  fix t k r assume "tbl_lookup pk t k = Some r"
  then show "pk r = k" by (blast dest: tbl_lookup_SomeD)
next
  fix t r k assume "tbl_ok pk t" and none: "tbl_lookup pk t (pk r) = None"
  show "tbl_lookup pk (tbl_insert r t) k = (if k = pk r then Some r else tbl_lookup pk t k)"
    using none by (simp add: tbl_insert_def tbl_lookup_append split: option.split)
next
  fix t f k k' assume "\<And>r. pk (f r) = pk r"
  then show "tbl_lookup pk (tbl_modify pk k f t) k' =
      (if k' = k then map_option f (tbl_lookup pk t k) else tbl_lookup pk t k')"
    by (induction t) (auto simp: tbl_modify_def)
next
  fix t p k assume "tbl_ok pk t"
  then show "tbl_lookup pk (tbl_prune p t) k = (case tbl_lookup pk t k of None \<Rightarrow> None
      | Some r \<Rightarrow> if p r then None else Some r)"
    by (auto simp: tbl_prune_def tbl_lookup_filter split: option.splits)
next
  fix t r assume "tbl_ok pk t" "tbl_lookup pk t (pk r) = None"
  then show "tbl_ok pk (tbl_insert r t)" by (simp add: tbl_insert_def tbl_ok_snoc)
next
  fix t f k assume "tbl_ok pk t" "\<And>r. pk (f r) = pk r"
  then show "tbl_ok pk (tbl_modify pk k f t)"
    by (simp add: tbl_modify_def tbl_ok_map)
next
  fix t p assume "tbl_ok pk t"
  then show "tbl_ok pk (tbl_prune p t)" by (simp add: tbl_prune_def tbl_ok_filter)
qed

section \<open>Leases\<close>

text \<open>
  A claim on a row: \<open>try_claim c now ttl r\<close> is \<open>None\<close> when the caller lost. The one
  law a racing reactor relies on is \<open>claim_excludes\<close>: while the lease of a named
  claimer runs, nobody else can claim the row.
\<close>

locale lease =
  fixes try_claim :: "string \<Rightarrow> int \<Rightarrow> int \<Rightarrow> 'r \<Rightarrow> 'r option"
    and claimable :: "int \<Rightarrow> 'r \<Rightarrow> bool"
    and holder :: "'r \<Rightarrow> string option"
    and held_until :: "'r \<Rightarrow> int"
  assumes claim_iff: "try_claim c now ttl r \<noteq> None \<longleftrightarrow> claimable now r"
    and claim_holder: "try_claim c now ttl r = Some r' \<Longrightarrow> holder r' = Some c"
    and claim_until: "try_claim c now ttl r = Some r' \<Longrightarrow> held_until r' = now + ttl"
    and claim_excludes: "try_claim c now ttl r = Some r' \<Longrightarrow> c \<noteq> [] \<Longrightarrow> claimable now' r' \<Longrightarrow>
          now + ttl \<le> now'"
begin

text \<open>
  A sequence of attempts on one row with no release between them; the winners, each
  with its time and lease, in order.
\<close>

fun claim_run :: "(string \<times> int \<times> int) list \<Rightarrow> 'r \<Rightarrow> (string \<times> int \<times> int) list" where
  "claim_run [] r = []"
| "claim_run ((c, now, ttl) # as) r =
     (case try_claim c now ttl r of None \<Rightarrow> claim_run as r
      | Some r' \<Rightarrow> (c, now, ttl) # claim_run as r')"

lemma second_claim_loses:
  "try_claim c now ttl r = Some r' \<Longrightarrow> c \<noteq> [] \<Longrightarrow> now' < now + ttl \<Longrightarrow> try_claim c' now' ttl' r' = None"
  using claim_excludes [of c now ttl r r' now'] claim_iff [of c' now' ttl' r'] by fastforce

lemma claim_run_next:
  assumes "try_claim c now ttl r = Some r'" and "c \<noteq> []"
    and "claim_run as r' = (c', now', ttl') # ws"
  shows "now + ttl \<le> now'"
  using assms
proof (induction as)
  case (Cons a as)
  obtain d m l where a: "a = (d, m, l)" by (cases a)
  show ?case
  proof (cases "try_claim d m l r'")
    case None
    with Cons a show ?thesis by simp
  next
    case (Some r'')
    with Cons.prems a have "m = now'" by simp
    moreover from Some have "claimable m r'" using claim_iff [of d m l r'] by simp
    ultimately show ?thesis using claim_excludes Cons.prems(1,2) by blast
  qed
qed simp

lemma claim_run_disjoint:
  assumes "\<forall>(c, now, ttl) \<in> set as. c \<noteq> []"
  shows "successively (\<lambda>(c, now, ttl) (c', now', ttl'). now + ttl \<le> now') (claim_run as r)"
  using assms
proof (induction as arbitrary: r)
  case (Cons a as)
  obtain c now ttl where a: "a = (c, now, ttl)" by (cases a)
  show ?case
  proof (cases "try_claim c now ttl r")
    case None
    with Cons a show ?thesis by simp
  next
    case (Some r')
    from Cons have IH: "successively (\<lambda>(c, now, ttl) (c', now', ttl'). now + ttl \<le> now')
        (claim_run as r')" by auto
    have "successively (\<lambda>(c, now, ttl) (c', now', ttl'). now + ttl \<le> now')
        ((c, now, ttl) # claim_run as r')"
    proof (cases "claim_run as r'")
      case (Cons w ws)
      obtain c' now' ttl' where w: "w = (c', now', ttl')" by (cases w)
      have "now + ttl \<le> now'"
        using claim_run_next [OF Some _ Cons [unfolded w]] Cons.prems a by auto
      with IH Cons w show ?thesis by simp
    qed simp
    with Some a show ?thesis by simp
  qed
qed simp

end

section \<open>Systems with an invariant\<close>

locale guarded_system =
  fixes initial :: "'s \<Rightarrow> bool"
    and step :: "'s \<Rightarrow> 's \<Rightarrow> bool"
    and inv :: "'s \<Rightarrow> bool"
  assumes inv_initial: "initial s \<Longrightarrow> inv s"
    and inv_step: "inv s \<Longrightarrow> step s s' \<Longrightarrow> inv s'"
begin

lemma inv_steps: "step\<^sup>*\<^sup>* s s' \<Longrightarrow> inv s \<Longrightarrow> inv s'"
  by (induction rule: rtranclp_induct) (auto intro: inv_step)

lemma inv_reachable: "initial s \<Longrightarrow> step\<^sup>*\<^sup>* s s' \<Longrightarrow> inv s'"
  by (blast intro: inv_initial inv_steps)

end

section \<open>Retry delays\<close>

locale capped_backoff =
  fixes delay :: "nat \<Rightarrow> int"
    and base cap :: int
  assumes base_pos: "0 < base"
    and base_le_cap: "base \<le> cap"
    and delay_0: "delay 0 = base"
    and delay_Suc: "delay (Suc n) = min (2 * delay n) cap"
begin

lemma delay_bounds: "base \<le> delay n \<and> delay n \<le> cap"
  using base_pos base_le_cap by (induction n) (auto simp: delay_0 delay_Suc)

lemma delay_pos: "0 < delay n"
  using delay_bounds [of n] base_pos by linarith

lemma delay_mono: "delay n \<le> delay (Suc n)"
  using delay_bounds [of n] base_pos by (simp add: delay_Suc)

lemma delay_grows: "min (base + int n) cap \<le> delay n"
proof (induction n)
  case 0
  then show ?case by (simp add: delay_0)
next
  case (Suc n)
  with delay_pos [of n] show ?case by (simp add: delay_Suc)
qed

lemma delay_reaches_cap: "\<exists>n. delay n = cap"
proof -
  have "cap \<le> delay (nat cap)"
    using delay_grows [of "nat cap"] base_pos base_le_cap by simp
  with delay_bounds [of "nat cap"] show ?thesis by (metis order_antisym)
qed

end

end
