(* ===== verification/TapeSchemas.thy ===== *)
theory TapeSchemas
  imports TapeInterfaces
begin

text \<open>
  The data of the embedded tier: the string constants of \<open>service.py\<close>'s enum classes,
  the rows of the five \<open>tape_*\<close> tables of \<open>schemas.py\<close> and the record classes of
  \<open>service.py\<close> that mirror them column by column, the database as one record of
  tables, and the table constraints (primary keys, the unique constraints on
  \<open>(connector, business_key)\<close> and on \<open>(session, effect_key, kind)\<close>, the foreign key
  into ADK's \<open>sessions\<close>), with the invariant \<open>db_ok\<close> every operation keeps.

  Statuses, semantics, modes and resolutions are strings in the code and stay strings
  here: a caller or a connector may pass any string and the code's fall-through
  branches are part of the model.
\<close>

section \<open>Enum classes\<close>

definition EffectStatus_PENDING :: string where
  "EffectStatus_PENDING = ''pending''"

definition EffectStatus_CONFIRMED :: string where
  "EffectStatus_CONFIRMED = ''confirmed''"

definition EffectStatus_FAILED :: string where
  "EffectStatus_FAILED = ''failed''"

definition EffectStatus_UNKNOWN :: string where
  "EffectStatus_UNKNOWN = ''unknown''"

definition EffectSemantics_IDEMPOTENT :: string where
  "EffectSemantics_IDEMPOTENT = ''idempotent''"

definition EffectSemantics_NON_IDEMPOTENT :: string where
  "EffectSemantics_NON_IDEMPOTENT = ''non_idempotent''"

definition EffectSemantics_OBSERVE_ONLY :: string where
  "EffectSemantics_OBSERVE_ONLY = ''observe_only''"

definition EffectDispatchMode_INLINE :: string where
  "EffectDispatchMode_INLINE = ''inline''"

definition EffectDispatchMode_OUTBOX :: string where
  "EffectDispatchMode_OUTBOX = ''outbox''"

definition EffectResolution_CONFIRMED :: string where
  "EffectResolution_CONFIRMED = ''confirmed''"

definition EffectResolution_FAILED :: string where
  "EffectResolution_FAILED = ''failed''"

definition EffectResolution_ABSENT :: string where
  "EffectResolution_ABSENT = ''absent''"

definition EffectResolution_DUPLICATE :: string where
  "EffectResolution_DUPLICATE = ''duplicate''"

definition EffectResolution_STUCK :: string where
  "EffectResolution_STUCK = ''stuck''"

definition ObligationStatus_PENDING :: string where
  "ObligationStatus_PENDING = ''pending''"

definition ObligationStatus_COMMITTED :: string where
  "ObligationStatus_COMMITTED = ''committed''"

definition ObligationStatus_COMPENSATED :: string where
  "ObligationStatus_COMPENSATED = ''compensated''"

definition ObligationStatus_STUCK :: string where
  "ObligationStatus_STUCK = ''stuck''"

section \<open>Rows\<close>

text \<open>
  \<open>StorageEffect\<close> and \<open>EffectRecord\<close> have the same fields, so one record type serves
  both; \<open>EffectRecord_from_row\<close> copies the columns one by one as the code does.
\<close>

record EffectRecord =
  e_app_name :: string
  e_user_id :: string
  e_session_id :: string
  e_idempotency_key :: string
  e_invocation_id :: string
  e_decision_index :: int
  e_tool_name :: string
  e_call_index :: int
  e_status :: string
  e_semantics :: string
  e_dispatch_mode :: string
  e_business_key :: "string option"
  e_connector :: "string option"
  e_external_ref :: "string option"
  e_dispatch_attempts :: int
  e_next_dispatch_at_ms :: int
  e_dispatch_claimed_by :: "string option"
  e_dispatch_claim_expires_at_ms :: int
  e_last_dispatch_error :: "string option"
  e_request_json :: json
  e_response_json :: json
  e_error_json :: json
  e_ts_ms :: int

type_synonym StorageEffect = EffectRecord

definition EffectRecord_from_row :: "StorageEffect \<Rightarrow> EffectRecord" where
  "EffectRecord_from_row r = \<lparr>
     e_app_name = e_app_name r, e_user_id = e_user_id r, e_session_id = e_session_id r,
     e_idempotency_key = e_idempotency_key r, e_invocation_id = e_invocation_id r,
     e_decision_index = e_decision_index r, e_tool_name = e_tool_name r,
     e_call_index = e_call_index r, e_status = e_status r,
     e_semantics = e_semantics r, e_dispatch_mode = e_dispatch_mode r,
     e_business_key = e_business_key r, e_connector = e_connector r,
     e_external_ref = e_external_ref r,
     e_dispatch_attempts = e_dispatch_attempts r,
     e_next_dispatch_at_ms = e_next_dispatch_at_ms r,
     e_dispatch_claimed_by = e_dispatch_claimed_by r,
     e_dispatch_claim_expires_at_ms = e_dispatch_claim_expires_at_ms r,
     e_last_dispatch_error = e_last_dispatch_error r,
     e_request_json = e_request_json r, e_response_json = e_response_json r,
     e_error_json = e_error_json r, e_ts_ms = e_ts_ms r\<rparr>"

record ObligationRecord =
  o_seq :: int
  o_app_name :: string
  o_user_id :: string
  o_session_id :: string
  o_invocation_id :: string
  o_effect_key :: string
  o_kind :: string
  o_payload_json :: json
  o_status :: string
  o_attempts :: int
  o_max_attempts :: int
  o_next_attempt_at_ms :: int
  o_last_error :: "string option"
  o_claimed_by :: "string option"
  o_claim_expires_at_ms :: int
  o_compensator_ref :: "string option"
  o_result_json :: json
  o_ts_ms :: int

type_synonym StorageObligation = ObligationRecord

definition ObligationRecord_from_row :: "StorageObligation \<Rightarrow> ObligationRecord" where
  "ObligationRecord_from_row r = \<lparr>
     o_seq = o_seq r, o_app_name = o_app_name r, o_user_id = o_user_id r,
     o_session_id = o_session_id r, o_invocation_id = o_invocation_id r,
     o_effect_key = o_effect_key r, o_kind = o_kind r,
     o_payload_json = o_payload_json r, o_status = o_status r,
     o_attempts = o_attempts r, o_max_attempts = o_max_attempts r,
     o_next_attempt_at_ms = o_next_attempt_at_ms r,
     o_last_error = o_last_error r, o_claimed_by = o_claimed_by r,
     o_claim_expires_at_ms = o_claim_expires_at_ms r,
     o_compensator_ref = o_compensator_ref r,
     o_result_json = o_result_json r, o_ts_ms = o_ts_ms r\<rparr>"

record TimerRecord =
  t_app_name :: string
  t_user_id :: string
  t_session_id :: string
  t_timer_id :: string
  t_fire_at_ms :: int
  t_kind :: string
  t_payload_json :: json
  t_fired :: bool
  t_created_at_ms :: int

type_synonym StorageTimer = TimerRecord

definition TimerRecord_from_row :: "StorageTimer \<Rightarrow> TimerRecord" where
  "TimerRecord_from_row r = \<lparr>
     t_app_name = t_app_name r, t_user_id = t_user_id r, t_session_id = t_session_id r,
     t_timer_id = t_timer_id r, t_fire_at_ms = t_fire_at_ms r, t_kind = t_kind r,
     t_payload_json = t_payload_json r, t_fired = t_fired r,
     t_created_at_ms = t_created_at_ms r\<rparr>"

text \<open>
  One captured effect of a snapshot is a JSON object (a dict of 14 keys), the
  \<open>effects_json\<close> column a dict from idempotency keys to captured effects.
\<close>

type_synonym captured = "(string \<times> json) list"

record StorageEffectSnapshot =
  s_app_name :: string
  s_user_id :: string
  s_session_id :: string
  s_effects_json :: "(string \<times> captured) list"
  s_up_to_ts_ms :: int
  s_effects_count :: int
  s_created_at_ms :: int
  s_updated_at_ms :: int

record StorageValue =
  v_namespace :: string
  v_key :: string
  v_value_json :: json
  v_version :: int
  v_ts_ms :: int
  v_writer :: "string option"
  v_deleted :: bool

section \<open>The database\<close>

text \<open>
  \<open>db_sessions\<close> holds the keys of ADK's \<open>sessions\<close> table, which the other tables
  reference; \<open>db_fk_on\<close> says whether the engine enforces foreign keys (Postgres always
  does, SQLite as its connection is configured). \<open>db_next_seq\<close> is the sequence the
  obligation table draws \<open>seq\<close> from.
\<close>

type_synonym session_key = "string \<times> string \<times> string"
type_synonym effect_id = "string \<times> string \<times> string \<times> string"

record db =
  db_effects :: "StorageEffect list"
  db_obligations :: "StorageObligation list"
  db_timers :: "StorageTimer list"
  db_snapshots :: "StorageEffectSnapshot list"
  db_values :: "StorageValue list"
  db_next_seq :: int
  db_sessions :: "session_key list"
  db_fk_on :: bool

type_synonym 'a outcome = "tape_error + ('a \<times> db)"

definition empty_db :: "session_key list \<Rightarrow> bool \<Rightarrow> db" where
  "empty_db ss fk = \<lparr>db_effects = [], db_obligations = [], db_timers = [], db_snapshots = [],
     db_values = [], db_next_seq = 1, db_sessions = ss, db_fk_on = fk\<rparr>"

definition effect_pk :: "StorageEffect \<Rightarrow> effect_id" where
  "effect_pk r = (e_app_name r, e_user_id r, e_session_id r, e_idempotency_key r)"

definition effect_session :: "StorageEffect \<Rightarrow> session_key" where
  "effect_session r = (e_app_name r, e_user_id r, e_session_id r)"

definition obligation_session :: "StorageObligation \<Rightarrow> session_key" where
  "obligation_session r = (o_app_name r, o_user_id r, o_session_id r)"

definition obligation_uq :: "StorageObligation \<Rightarrow> session_key \<times> string \<times> string" where
  "obligation_uq r = (obligation_session r, o_effect_key r, o_kind r)"

definition timer_pk :: "StorageTimer \<Rightarrow> effect_id" where
  "timer_pk r = (t_app_name r, t_user_id r, t_session_id r, t_timer_id r)"

definition timer_session :: "StorageTimer \<Rightarrow> session_key" where
  "timer_session r = (t_app_name r, t_user_id r, t_session_id r)"

definition snapshot_pk :: "StorageEffectSnapshot \<Rightarrow> session_key" where
  "snapshot_pk r = (s_app_name r, s_user_id r, s_session_id r)"

definition value_pk :: "StorageValue \<Rightarrow> string \<times> string" where
  "value_pk r = (v_namespace r, v_key r)"

section \<open>Constraints\<close>

text \<open>
  \<open>UNIQUE(connector, business_key)\<close>: rows clash only when both columns are non-NULL in
  both (NULLs are distinct in SQL).
\<close>

definition business_clash :: "StorageEffect \<Rightarrow> StorageEffect \<Rightarrow> bool" where
  "business_clash r r' \<longleftrightarrow>
     e_connector r \<noteq> None \<and> e_business_key r \<noteq> None \<and>
     e_connector r = e_connector r' \<and> e_business_key r = e_business_key r'"

definition fk_violated :: "db \<Rightarrow> session_key \<Rightarrow> bool" where
  "fk_violated d s \<longleftrightarrow> db_fk_on d \<and> \<not> List.member (db_sessions d) s"

definition effect_insert_violation :: "db \<Rightarrow> StorageEffect \<Rightarrow> violation option" where
  "effect_insert_violation d r =
     (if list_ex (\<lambda>r'. effect_pk r' = effect_pk r) (db_effects d) then Some PrimaryKey
      else if list_ex (business_clash r) (db_effects d) then
        Some (Unique ''uq_tape_effects_connector_business_key'')
      else if fk_violated d (effect_session r) then Some ForeignKey
      else None)"

definition obligation_insert_violation :: "db \<Rightarrow> StorageObligation \<Rightarrow> violation option" where
  "obligation_insert_violation d r =
     (if list_ex (\<lambda>r'. obligation_uq r' = obligation_uq r) (db_obligations d) then
        Some (Unique ''uq_tape_obligations_effect_kind_per_session'')
      else if fk_violated d (obligation_session r) then Some ForeignKey
      else None)"

definition timer_insert_violation :: "db \<Rightarrow> StorageTimer \<Rightarrow> violation option" where
  "timer_insert_violation d r =
     (if list_ex (\<lambda>r'. timer_pk r' = timer_pk r) (db_timers d) then Some PrimaryKey
      else if fk_violated d (timer_session r) then Some ForeignKey
      else None)"

definition snapshot_insert_violation :: "db \<Rightarrow> StorageEffectSnapshot \<Rightarrow> violation option" where
  "snapshot_insert_violation d r =
     (if list_ex (\<lambda>r'. snapshot_pk r' = snapshot_pk r) (db_snapshots d) then Some PrimaryKey
      else if fk_violated d (snapshot_pk r) then Some ForeignKey
      else None)"

text \<open>
  The invariant. Beyond the constraints the schema declares it has the contract of
  \<open>begin_effect\<close> (no \<open>NON_IDEMPOTENT\<close> effect is \<open>INLINE\<close>, an \<open>OUTBOX\<close> effect names its
  connector) and the range of the obligation sequence.
\<close>

definition effect_ok :: "StorageEffect \<Rightarrow> bool" where
  "effect_ok r \<longleftrightarrow>
     \<not> (e_semantics r = EffectSemantics_NON_IDEMPOTENT \<and>
        e_dispatch_mode r = EffectDispatchMode_INLINE) \<and>
     (e_dispatch_mode r = EffectDispatchMode_OUTBOX \<longrightarrow> truthy_str (e_connector r)) \<and>
     e_connector r \<noteq> Some [] \<and> e_business_key r \<noteq> Some [] \<and>
     0 \<le> e_dispatch_attempts r"

definition business_unique :: "StorageEffect list \<Rightarrow> bool" where
  "business_unique rs = sorted_wrt (\<lambda>r r'. \<not> business_clash r r') rs"

definition db_ok :: "db \<Rightarrow> bool" where
  "db_ok d \<longleftrightarrow>
     tbl_ok effect_pk (db_effects d) \<and>
     business_unique (db_effects d) \<and>
     list_all effect_ok (db_effects d) \<and>
     tbl_ok o_seq (db_obligations d) \<and>
     tbl_ok obligation_uq (db_obligations d) \<and>
     list_all (\<lambda>r. o_seq r < db_next_seq d \<and> 0 \<le> o_attempts r) (db_obligations d) \<and>
     tbl_ok timer_pk (db_timers d) \<and>
     tbl_ok snapshot_pk (db_snapshots d) \<and>
     tbl_ok value_pk (db_values d) \<and>
     list_all (\<lambda>r. 1 \<le> v_version r) (db_values d)"

text \<open>
  Row updates that leave keys alone: \<open>effect_frame\<close> and \<open>obligation_frame\<close> say that an
  update of a row keeps its identity and its part of the invariant.
\<close>

definition effect_frame :: "(StorageEffect \<Rightarrow> StorageEffect) \<Rightarrow> bool" where
  "effect_frame f \<longleftrightarrow> (\<forall>r. effect_pk (f r) = effect_pk r \<and> e_connector (f r) = e_connector r \<and>
     e_business_key (f r) = e_business_key r \<and> (effect_ok r \<longrightarrow> effect_ok (f r)))"

definition obligation_frame :: "(StorageObligation \<Rightarrow> StorageObligation) \<Rightarrow> bool" where
  "obligation_frame f \<longleftrightarrow> (\<forall>r. o_seq (f r) = o_seq r \<and> obligation_uq (f r) = obligation_uq r \<and>
     (0 \<le> o_attempts r \<longrightarrow> 0 \<le> o_attempts (f r)))"

section \<open>Facts\<close>

lemma EffectStatus_distinct [simp]:
  "EffectStatus_PENDING \<noteq> EffectStatus_CONFIRMED"
  "EffectStatus_PENDING \<noteq> EffectStatus_FAILED"
  "EffectStatus_PENDING \<noteq> EffectStatus_UNKNOWN"
  "EffectStatus_CONFIRMED \<noteq> EffectStatus_PENDING"
  "EffectStatus_CONFIRMED \<noteq> EffectStatus_FAILED"
  "EffectStatus_CONFIRMED \<noteq> EffectStatus_UNKNOWN"
  "EffectStatus_FAILED \<noteq> EffectStatus_PENDING"
  "EffectStatus_FAILED \<noteq> EffectStatus_CONFIRMED"
  "EffectStatus_FAILED \<noteq> EffectStatus_UNKNOWN"
  "EffectStatus_UNKNOWN \<noteq> EffectStatus_PENDING"
  "EffectStatus_UNKNOWN \<noteq> EffectStatus_CONFIRMED"
  "EffectStatus_UNKNOWN \<noteq> EffectStatus_FAILED"
  by (simp_all add: EffectStatus_PENDING_def EffectStatus_CONFIRMED_def EffectStatus_FAILED_def EffectStatus_UNKNOWN_def)

lemma EffectSemantics_distinct [simp]:
  "EffectSemantics_IDEMPOTENT \<noteq> EffectSemantics_NON_IDEMPOTENT"
  "EffectSemantics_IDEMPOTENT \<noteq> EffectSemantics_OBSERVE_ONLY"
  "EffectSemantics_NON_IDEMPOTENT \<noteq> EffectSemantics_IDEMPOTENT"
  "EffectSemantics_NON_IDEMPOTENT \<noteq> EffectSemantics_OBSERVE_ONLY"
  "EffectSemantics_OBSERVE_ONLY \<noteq> EffectSemantics_IDEMPOTENT"
  "EffectSemantics_OBSERVE_ONLY \<noteq> EffectSemantics_NON_IDEMPOTENT"
  by (simp_all add: EffectSemantics_IDEMPOTENT_def EffectSemantics_NON_IDEMPOTENT_def EffectSemantics_OBSERVE_ONLY_def)

lemma EffectDispatchMode_distinct [simp]:
  "EffectDispatchMode_INLINE \<noteq> EffectDispatchMode_OUTBOX"
  "EffectDispatchMode_OUTBOX \<noteq> EffectDispatchMode_INLINE"
  by (simp_all add: EffectDispatchMode_INLINE_def EffectDispatchMode_OUTBOX_def)

lemma EffectResolution_distinct [simp]:
  "EffectResolution_CONFIRMED \<noteq> EffectResolution_FAILED"
  "EffectResolution_CONFIRMED \<noteq> EffectResolution_ABSENT"
  "EffectResolution_CONFIRMED \<noteq> EffectResolution_DUPLICATE"
  "EffectResolution_CONFIRMED \<noteq> EffectResolution_STUCK"
  "EffectResolution_FAILED \<noteq> EffectResolution_CONFIRMED"
  "EffectResolution_FAILED \<noteq> EffectResolution_ABSENT"
  "EffectResolution_FAILED \<noteq> EffectResolution_DUPLICATE"
  "EffectResolution_FAILED \<noteq> EffectResolution_STUCK"
  "EffectResolution_ABSENT \<noteq> EffectResolution_CONFIRMED"
  "EffectResolution_ABSENT \<noteq> EffectResolution_FAILED"
  "EffectResolution_ABSENT \<noteq> EffectResolution_DUPLICATE"
  "EffectResolution_ABSENT \<noteq> EffectResolution_STUCK"
  "EffectResolution_DUPLICATE \<noteq> EffectResolution_CONFIRMED"
  "EffectResolution_DUPLICATE \<noteq> EffectResolution_FAILED"
  "EffectResolution_DUPLICATE \<noteq> EffectResolution_ABSENT"
  "EffectResolution_DUPLICATE \<noteq> EffectResolution_STUCK"
  "EffectResolution_STUCK \<noteq> EffectResolution_CONFIRMED"
  "EffectResolution_STUCK \<noteq> EffectResolution_FAILED"
  "EffectResolution_STUCK \<noteq> EffectResolution_ABSENT"
  "EffectResolution_STUCK \<noteq> EffectResolution_DUPLICATE"
  by (simp_all add: EffectResolution_CONFIRMED_def EffectResolution_FAILED_def EffectResolution_ABSENT_def EffectResolution_DUPLICATE_def EffectResolution_STUCK_def)

lemma ObligationStatus_distinct [simp]:
  "ObligationStatus_PENDING \<noteq> ObligationStatus_COMMITTED"
  "ObligationStatus_PENDING \<noteq> ObligationStatus_COMPENSATED"
  "ObligationStatus_PENDING \<noteq> ObligationStatus_STUCK"
  "ObligationStatus_COMMITTED \<noteq> ObligationStatus_PENDING"
  "ObligationStatus_COMMITTED \<noteq> ObligationStatus_COMPENSATED"
  "ObligationStatus_COMMITTED \<noteq> ObligationStatus_STUCK"
  "ObligationStatus_COMPENSATED \<noteq> ObligationStatus_PENDING"
  "ObligationStatus_COMPENSATED \<noteq> ObligationStatus_COMMITTED"
  "ObligationStatus_COMPENSATED \<noteq> ObligationStatus_STUCK"
  "ObligationStatus_STUCK \<noteq> ObligationStatus_PENDING"
  "ObligationStatus_STUCK \<noteq> ObligationStatus_COMMITTED"
  "ObligationStatus_STUCK \<noteq> ObligationStatus_COMPENSATED"
  by (simp_all add: ObligationStatus_PENDING_def ObligationStatus_COMMITTED_def ObligationStatus_COMPENSATED_def ObligationStatus_STUCK_def)

lemmas enum_defs [const_defs] =
  EffectStatus_PENDING_def EffectStatus_CONFIRMED_def EffectStatus_FAILED_def EffectStatus_UNKNOWN_def
  EffectSemantics_IDEMPOTENT_def EffectSemantics_NON_IDEMPOTENT_def EffectSemantics_OBSERVE_ONLY_def
  EffectDispatchMode_INLINE_def EffectDispatchMode_OUTBOX_def
  EffectResolution_CONFIRMED_def EffectResolution_FAILED_def EffectResolution_ABSENT_def EffectResolution_DUPLICATE_def EffectResolution_STUCK_def
  ObligationStatus_PENDING_def ObligationStatus_COMMITTED_def ObligationStatus_COMPENSATED_def ObligationStatus_STUCK_def

lemma from_row_simps [simp]:
  "EffectRecord_from_row r = r" "ObligationRecord_from_row q = q" "TimerRecord_from_row t = t"
  by (simp_all add: EffectRecord_from_row_def ObligationRecord_from_row_def
      TimerRecord_from_row_def)

lemma from_row_map [simp]:
  "map_option EffectRecord_from_row x = x" "map EffectRecord_from_row xs = xs"
  "map_option ObligationRecord_from_row y = y" "map ObligationRecord_from_row ys = ys"
  "map_option TimerRecord_from_row z = z" "map TimerRecord_from_row zs = zs"
  by (simp_all add: option.map_ident_strong map_idI)

interpretation effects: row_store "tbl_lookup effect_pk" tbl_insert "tbl_modify effect_pk"
  tbl_prune effect_pk "tbl_ok effect_pk"
  by (rule list_row_store)

interpretation obligations: row_store "tbl_lookup o_seq" tbl_insert "tbl_modify o_seq"
  tbl_prune o_seq "tbl_ok o_seq"
  by (rule list_row_store)

interpretation timers: row_store "tbl_lookup timer_pk" tbl_insert "tbl_modify timer_pk"
  tbl_prune timer_pk "tbl_ok timer_pk"
  by (rule list_row_store)

interpretation snapshots: row_store "tbl_lookup snapshot_pk" tbl_insert "tbl_modify snapshot_pk"
  tbl_prune snapshot_pk "tbl_ok snapshot_pk"
  by (rule list_row_store)

interpretation kv: row_store "tbl_lookup value_pk" tbl_insert "tbl_modify value_pk"
  tbl_prune value_pk "tbl_ok value_pk"
  by (rule list_row_store)

lemma list_ex_pk: "list_ex (\<lambda>r'. pk r' = pk r) rs \<longleftrightarrow> tbl_lookup pk rs (pk r) \<noteq> None"
  by (simp add: list_ex_iff tbl_lookup_None_iff image_iff) metis

lemma business_clash_sym: "business_clash r r' \<longleftrightarrow> business_clash r' r"
  by (auto simp: business_clash_def)

lemma business_unique_snoc: "business_unique (rs @ [r]) \<longleftrightarrow>
    business_unique rs \<and> \<not> list_ex (business_clash r) rs"
  by (auto simp: business_unique_def sorted_wrt_append list_ex_iff business_clash_sym)

lemma business_unique_filter: "business_unique rs \<Longrightarrow> business_unique (filter p rs)"
  by (simp add: business_unique_def sorted_wrt_filter)

lemma business_unique_map:
  assumes "\<And>r. e_connector (f r) = e_connector r" "\<And>r. e_business_key (f r) = e_business_key r"
  shows "business_unique (map f rs) = business_unique rs"
  using assms by (simp add: business_unique_def sorted_wrt_map business_clash_def)

lemma business_unique_D:
  assumes "business_unique rs" "r \<in> set rs" "r' \<in> set rs" "business_clash r r'"
  shows "r = r'"
  using assms
proof (induction rs)
  case (Cons x rs)
  then show ?case by (auto simp: business_unique_def business_clash_sym)
qed simp

lemma effect_insert_violation_None: "effect_insert_violation d r = None \<longleftrightarrow>
    tbl_lookup effect_pk (db_effects d) (effect_pk r) = None \<and>
    \<not> list_ex (business_clash r) (db_effects d) \<and> \<not> fk_violated d (effect_session r)"
  by (simp add: effect_insert_violation_def list_ex_pk)

lemma db_ok_empty: "db_ok (empty_db ss fk)"
  by (simp add: db_ok_def empty_db_def business_unique_def)

text \<open>One write per table keeps the invariant when it respects that table's part.\<close>

lemma db_ok_effects: "db_ok d \<Longrightarrow> tbl_ok effect_pk es \<Longrightarrow> business_unique es \<Longrightarrow>
    list_all effect_ok es \<Longrightarrow> db_ok (d\<lparr>db_effects := es\<rparr>)"
  by (simp add: db_ok_def)

lemma db_ok_insert_effect: "db_ok d \<Longrightarrow> effect_insert_violation d r = None \<Longrightarrow> effect_ok r \<Longrightarrow>
    db_ok (d\<lparr>db_effects := tbl_insert r (db_effects d)\<rparr>)"
  by (rule db_ok_effects)
     (auto simp: effect_insert_violation_None db_ok_def tbl_insert_def tbl_ok_snoc
        business_unique_snoc)

lemma db_ok_map_effects:
  assumes "db_ok d" and "effect_frame f"
  shows "db_ok (d\<lparr>db_effects := map (\<lambda>r. if p r then f r else r) (db_effects d)\<rparr>)"
proof (rule db_ok_effects [OF assms(1)])
  show "tbl_ok effect_pk (map (\<lambda>r. if p r then f r else r) (db_effects d))"
    using assms by (subst tbl_ok_map) (auto simp: effect_frame_def db_ok_def)
  show "business_unique (map (\<lambda>r. if p r then f r else r) (db_effects d))"
    using assms by (subst business_unique_map) (auto simp: effect_frame_def db_ok_def)
  show "list_all effect_ok (map (\<lambda>r. if p r then f r else r) (db_effects d))"
    using assms by (auto simp: list_all_iff effect_frame_def db_ok_def)
qed

lemma db_ok_filter_effects: "db_ok d \<Longrightarrow> db_ok (d\<lparr>db_effects := filter p (db_effects d)\<rparr>)"
  by (rule db_ok_effects)
     (auto simp: db_ok_def tbl_ok_filter business_unique_filter list_all_iff)

lemma db_ok_obligations: "db_ok d \<Longrightarrow> tbl_ok o_seq qs \<Longrightarrow> tbl_ok obligation_uq qs \<Longrightarrow>
    list_all (\<lambda>r. o_seq r < n \<and> 0 \<le> o_attempts r) qs \<Longrightarrow>
    db_ok (d\<lparr>db_obligations := qs, db_next_seq := n\<rparr>)"
  by (simp add: db_ok_def)

lemma db_ok_filter_obligations:
  "db_ok d \<Longrightarrow> db_ok (d\<lparr>db_obligations := filter p (db_obligations d)\<rparr>)"
  by (simp add: db_ok_def tbl_ok_filter list_all_iff)

lemma db_ok_filter_timers: "db_ok d \<Longrightarrow> db_ok (d\<lparr>db_timers := filter p (db_timers d)\<rparr>)"
  by (simp add: db_ok_def tbl_ok_filter)

lemma db_ok_map_obligations:
  assumes "db_ok d" and "obligation_frame f"
  shows "db_ok (d\<lparr>db_obligations := map (\<lambda>r. if p r then f r else r) (db_obligations d)\<rparr>)"
proof -
  let ?g = "\<lambda>r. if p r then f r else r"
  have "tbl_ok o_seq (map ?g (db_obligations d))"
    using assms by (subst tbl_ok_map) (auto simp: obligation_frame_def db_ok_def)
  moreover have "tbl_ok obligation_uq (map ?g (db_obligations d))"
    using assms by (subst tbl_ok_map) (auto simp: obligation_frame_def db_ok_def)
  ultimately show ?thesis
    using assms by (auto simp: list_all_iff obligation_frame_def db_ok_def)
qed

lemma db_ok_insert_obligation:
  assumes "db_ok d" and "obligation_insert_violation d r = None"
    and "o_seq r = db_next_seq d" and "0 \<le> o_attempts r"
  shows "db_ok (d\<lparr>db_obligations := tbl_insert r (db_obligations d),
                  db_next_seq := db_next_seq d + 1\<rparr>)"
proof -
  have "tbl_lookup o_seq (db_obligations d) (o_seq r) = None"
    using assms(1,3) by (auto simp: tbl_lookup_None_iff db_ok_def list_all_iff)
  moreover have "tbl_lookup obligation_uq (db_obligations d) (obligation_uq r) = None"
    using assms(2) list_ex_pk [of obligation_uq r "db_obligations d"]
    by (auto simp: obligation_insert_violation_def split: if_splits)
  ultimately show ?thesis
    using assms by (auto simp: db_ok_def tbl_insert_def tbl_ok_snoc list_all_iff)
qed

end
