(* ===== verification/EffectLedger.thy ===== *)
theory EffectLedger
  imports TapeSchemas
begin

text \<open>
  The effect ledger of \<open>TapeSessionService\<close> (\<open>service.py\<close>): \<open>begin_effect\<close> with its
  refusals, its replay short-circuit and its snapshot fallback, \<open>complete_effect\<close>,
  \<open>get_effect\<close>, the dispatch claim (one conditional \<open>UPDATE\<close>), the recording of dispatch
  attempts and of external observations, and the two queues the reactors read.

  An operation takes its keyword arguments, the clock reading \<open>_now_ms()\<close> returns where
  it reads the clock, and the database; it returns an error, after which the transaction
  is rolled back, or a result with the committed database. The lemmas give each
  operation's effect on every branch, that it keeps \<open>db_ok\<close>, and the facts of the
  dispatch lease.
\<close>

section \<open>Starting an effect\<close>

record begin_args =
  b_app_name :: string
  b_user_id :: string
  b_session_id :: string
  b_invocation_id :: string
  b_decision_index :: int
  b_tool_name :: string
  b_call_index :: int
  b_request_json :: json
  b_custom_key :: string
  b_semantics :: string
  b_dispatch_mode :: string
  b_business_key :: "string option"
  b_connector :: "string option"

text \<open>
  A call that gives only the required arguments: the others are the signature's defaults.
\<close>

definition begin_defaults :: "string \<Rightarrow> string \<Rightarrow> string \<Rightarrow> string \<Rightarrow> int \<Rightarrow> string \<Rightarrow> begin_args" where
  "begin_defaults app user sid ivk didx tool = \<lparr>
     b_app_name = app, b_user_id = user, b_session_id = sid, b_invocation_id = ivk,
     b_decision_index = didx, b_tool_name = tool, b_call_index = 0,
     b_request_json = JNull, b_custom_key = [],
     b_semantics = EffectSemantics_IDEMPOTENT,
     b_dispatch_mode = EffectDispatchMode_INLINE,
     b_business_key = None, b_connector = None\<rparr>"

definition derived_key :: "string \<Rightarrow> int \<Rightarrow> string \<Rightarrow> int \<Rightarrow> string" where
  "derived_key ivk didx tool cidx =
     ivk @ ''/decision-'' @ int_str didx @ ''/'' @ tool @ ''/'' @ int_str cidx"

definition begin_key :: "begin_args \<Rightarrow> string" where
  "begin_key a = (if b_custom_key a \<noteq> [] then b_custom_key a
     else derived_key (b_invocation_id a) (b_decision_index a) (b_tool_name a) (b_call_index a))"

definition begin_session :: "begin_args \<Rightarrow> session_key" where
  "begin_session a = (b_app_name a, b_user_id a, b_session_id a)"

definition begin_id :: "begin_args \<Rightarrow> effect_id" where
  "begin_id a = (b_app_name a, b_user_id a, b_session_id a, begin_key a)"

text \<open>
  \<open>captured.get(k, default)\<close> at the types of the fields. A captured effect is written by
  \<open>take_snapshot\<close> only, so a value always has its field's type; another type reads as the
  default.
\<close>

definition get_str :: "captured \<Rightarrow> string \<Rightarrow> string \<Rightarrow> string" where
  "get_str c k dflt = (case map_of c k of Some (JStr s) \<Rightarrow> s | _ \<Rightarrow> dflt)"

definition get_opt_str :: "captured \<Rightarrow> string \<Rightarrow> string option" where
  "get_opt_str c k = (case map_of c k of Some (JStr s) \<Rightarrow> Some s | _ \<Rightarrow> None)"

definition get_int :: "captured \<Rightarrow> string \<Rightarrow> int \<Rightarrow> int" where
  "get_int c k dflt = (case map_of c k of Some (JNum n) \<Rightarrow> n | _ \<Rightarrow> dflt)"

definition get_json :: "captured \<Rightarrow> string \<Rightarrow> json" where
  "get_json c k = (case map_of c k of Some v \<Rightarrow> v | None \<Rightarrow> JNull)"

definition snapshot_record :: "begin_args \<Rightarrow> captured \<Rightarrow> EffectRecord" where
  "snapshot_record a c = \<lparr>
     e_app_name = b_app_name a, e_user_id = b_user_id a, e_session_id = b_session_id a,
     e_idempotency_key = begin_key a,
     e_invocation_id = get_str c ''invocation_id'' [],
     e_decision_index = get_int c ''decision_index'' (-1),
     e_tool_name = get_str c ''tool_name'' (b_tool_name a),
     e_call_index = get_int c ''call_index'' (b_call_index a),
     e_status = get_str c ''status'' EffectStatus_CONFIRMED,
     e_semantics = get_str c ''semantics'' (b_semantics a),
     e_dispatch_mode = get_str c ''dispatch_mode'' (b_dispatch_mode a),
     e_business_key = get_opt_str c ''business_key'',
     e_connector = get_opt_str c ''connector'',
     e_external_ref = get_opt_str c ''external_ref'',
     e_dispatch_attempts = 0, e_next_dispatch_at_ms = 0,
     e_dispatch_claimed_by = None, e_dispatch_claim_expires_at_ms = 0,
     e_last_dispatch_error = None,
     e_request_json = get_json c ''request_json'',
     e_response_json = get_json c ''response_json'',
     e_error_json = get_json c ''error_json'',
     e_ts_ms = get_int c ''ts_ms'' 0\<rparr>"

definition captured_effect :: "StorageEffectSnapshot option \<Rightarrow> string \<Rightarrow> captured option" where
  "captured_effect snap k = (case snap of None \<Rightarrow> None | Some s \<Rightarrow> map_of (s_effects_json s) k)"

definition pending_row :: "begin_args \<Rightarrow> int \<Rightarrow> StorageEffect" where
  "pending_row a now = \<lparr>
     e_app_name = b_app_name a, e_user_id = b_user_id a, e_session_id = b_session_id a,
     e_idempotency_key = begin_key a, e_invocation_id = b_invocation_id a,
     e_decision_index = b_decision_index a, e_tool_name = b_tool_name a,
     e_call_index = b_call_index a, e_status = EffectStatus_PENDING,
     e_semantics = b_semantics a, e_dispatch_mode = b_dispatch_mode a,
     e_business_key = str_or_none (b_business_key a),
     e_connector = str_or_none (b_connector a), e_external_ref = None,
     e_dispatch_attempts = 0, e_next_dispatch_at_ms = 0,
     e_dispatch_claimed_by = None, e_dispatch_claim_expires_at_ms = 0,
     e_last_dispatch_error = None,
     e_request_json = b_request_json a, e_response_json = JNull, e_error_json = JNull,
     e_ts_ms = now\<rparr>"

definition begin_effect :: "begin_args \<Rightarrow> int \<Rightarrow> db \<Rightarrow> EffectRecord outcome" where
  "begin_effect a clk d =
     (if b_semantics a = EffectSemantics_NON_IDEMPOTENT \<and>
         b_dispatch_mode a = EffectDispatchMode_INLINE then
        Inl (ValueError ''begin_effect: NON_IDEMPOTENT effects must use OUTBOX dispatch'')
      else if b_dispatch_mode a = EffectDispatchMode_OUTBOX \<and> \<not> truthy_str (b_connector a) then
        Inl (ValueError ''begin_effect: OUTBOX dispatch requires a `connector` name'')
      else
        (case one_or_none (filter (\<lambda>r. effect_pk r = begin_id a) (db_effects d)) of
           Inl e \<Rightarrow> Inl e
         | Inr (Some existing) \<Rightarrow> Inr (EffectRecord_from_row existing, d)
         | Inr None \<Rightarrow>
             (case one_or_none (filter (\<lambda>s. snapshot_pk s = begin_session a) (db_snapshots d)) of
                Inl e \<Rightarrow> Inl e
              | Inr snap \<Rightarrow>
                  (case captured_effect snap (begin_key a) of
                     Some c \<Rightarrow> Inr (snapshot_record a c, d)
                   | None \<Rightarrow>
                       (let row = pending_row a clk in
                        case effect_insert_violation d row of
                          Some v \<Rightarrow> Inl (BusinessKeyExists (b_connector a) v)
                        | None \<Rightarrow> Inr (EffectRecord_from_row row,
                                       d\<lparr>db_effects := tbl_insert row (db_effects d)\<rparr>))))))"

section \<open>Completing and reading\<close>

definition complete_row :: "string \<Rightarrow> json \<Rightarrow> json \<Rightarrow> int \<Rightarrow> StorageEffect \<Rightarrow> StorageEffect" where
  "complete_row st resp err now r = r\<lparr>e_status := st, e_response_json := resp,
     e_error_json := err, e_ts_ms := now,
     e_dispatch_claimed_by := None, e_dispatch_claim_expires_at_ms := 0\<rparr>"

definition complete_effect ::
    "effect_id \<Rightarrow> string \<Rightarrow> json \<Rightarrow> json \<Rightarrow> int \<Rightarrow> db \<Rightarrow> EffectRecord option outcome" where
  "complete_effect k st resp err clk d =
     (if \<not> List.member [EffectStatus_CONFIRMED, EffectStatus_FAILED, EffectStatus_UNKNOWN] st then
        Inl (ValueError (''complete_effect: invalid status '' @ repr_str st))
      else
        (case one_or_none (filter (\<lambda>r. effect_pk r = k) (db_effects d)) of
           Inl e \<Rightarrow> Inl e
         | Inr None \<Rightarrow> Inr (None, d)
         | Inr (Some row) \<Rightarrow>
             if e_status row \<noteq> EffectStatus_PENDING then Inr (Some (EffectRecord_from_row row), d)
             else Inr (Some (EffectRecord_from_row (complete_row st resp err clk row)),
                       d\<lparr>db_effects := tbl_modify effect_pk k (complete_row st resp err clk)
                                          (db_effects d)\<rparr>)))"

definition get_effect :: "effect_id \<Rightarrow> db \<Rightarrow> tape_error + EffectRecord option" where
  "get_effect k d =
     (case one_or_none (filter (\<lambda>r. effect_pk r = k) (db_effects d)) of
        Inl e \<Rightarrow> Inl e
      | Inr row \<Rightarrow> Inr (map_option EffectRecord_from_row row))"

section \<open>The dispatch claim\<close>

text \<open>
  The predicate of the conditional \<open>UPDATE\<close>, which \<open>list_effects_to_dispatch\<close> selects
  with as well: pending, outbox, due, and the lease free or expired.
\<close>

definition dispatch_ready :: "int \<Rightarrow> StorageEffect \<Rightarrow> bool" where
  "dispatch_ready now r \<longleftrightarrow>
     e_status r = EffectStatus_PENDING \<and>
     e_dispatch_mode r = EffectDispatchMode_OUTBOX \<and>
     e_next_dispatch_at_ms r \<le> now \<and>
     (e_dispatch_claimed_by r = None \<or> e_dispatch_claimed_by r = Some [] \<or>
      e_dispatch_claim_expires_at_ms r \<le> now)"

definition claim_row :: "string \<Rightarrow> int \<Rightarrow> StorageEffect \<Rightarrow> StorageEffect" where
  "claim_row claimer expires r = r\<lparr>e_dispatch_claimed_by := Some claimer,
     e_dispatch_claim_expires_at_ms := expires\<rparr>"

definition claim_effect_dispatch ::
    "effect_id \<Rightarrow> string \<Rightarrow> int \<Rightarrow> int \<Rightarrow> int \<Rightarrow> db \<Rightarrow> (bool \<times> EffectRecord option) outcome" where
  "claim_effect_dispatch k claimer lease_ttl_ms now_ms clk d =
     (let now = int_or now_ms clk;
          expires = now + lease_ttl_ms;
          (rowcount, es) = update_where (\<lambda>r. effect_pk r = k \<and> dispatch_ready now r)
                             (claim_row claimer expires) (db_effects d);
          acquired = (rowcount = 1)
      in (case one_or_none (filter (\<lambda>r. effect_pk r = k) es) of
            Inl e \<Rightarrow> Inl e
          | Inr row \<Rightarrow> Inr ((acquired, map_option EffectRecord_from_row row), d\<lparr>db_effects := es\<rparr>)))"

definition attempt_row :: "string \<Rightarrow> int \<Rightarrow> int \<Rightarrow> StorageEffect \<Rightarrow> StorageEffect" where
  "attempt_row err next_at now r =
     (let r1 = r\<lparr>e_dispatch_attempts := int_or (e_dispatch_attempts r) 0 + 1,
                 e_last_dispatch_error := Some err,
                 e_dispatch_claimed_by := None, e_dispatch_claim_expires_at_ms := 0\<rparr>;
          r2 = (if next_at \<le> 0 then r1\<lparr>e_status := EffectStatus_UNKNOWN, e_next_dispatch_at_ms := 0\<rparr>
                else r1\<lparr>e_next_dispatch_at_ms := next_at\<rparr>)
      in r2\<lparr>e_ts_ms := now\<rparr>)"

definition record_dispatch_attempt ::
    "effect_id \<Rightarrow> string \<Rightarrow> int \<Rightarrow> int \<Rightarrow> db \<Rightarrow> EffectRecord option outcome" where
  "record_dispatch_attempt k err next_at clk d =
     (case one_or_none (filter (\<lambda>r. effect_pk r = k) (db_effects d)) of
        Inl e \<Rightarrow> Inl e
      | Inr None \<Rightarrow> Inr (None, d)
      | Inr (Some row) \<Rightarrow>
          Inr (Some (EffectRecord_from_row (attempt_row err next_at clk row)),
               d\<lparr>db_effects := tbl_modify effect_pk k (attempt_row err next_at clk) (db_effects d)\<rparr>))"

section \<open>External observations\<close>

definition stuck_detail :: json where
  "stuck_detail = JObj [(''resolution'', JStr ''stuck''),
     (''detail'', JStr ''reconciler couldn't resolve'')]"

text \<open>What an observation does to the row; \<open>None\<close> for an unknown resolution.\<close>

definition observe_row ::
    "string \<Rightarrow> string \<Rightarrow> json \<Rightarrow> json \<Rightarrow> int \<Rightarrow> StorageEffect \<Rightarrow> StorageEffect option" where
  "observe_row res ext resp err now r =
     map_option (\<lambda>r'. r'\<lparr>e_ts_ms := now\<rparr>)
      (if res = EffectResolution_CONFIRMED then
         Some (r\<lparr>e_status := EffectStatus_CONFIRMED, e_external_ref := ref_or ext (e_external_ref r),
                 e_response_json := resp\<rparr>)
       else if res = EffectResolution_FAILED then
         Some (r\<lparr>e_status := EffectStatus_FAILED, e_error_json := err\<rparr>)
       else if res = EffectResolution_ABSENT then
         (let r1 = (if e_semantics r = EffectSemantics_NON_IDEMPOTENT
                    then r\<lparr>e_status := EffectStatus_UNKNOWN\<rparr> else r)
          in Some (if err \<noteq> JNull then r1\<lparr>e_error_json := err\<rparr> else r1))
       else if res = EffectResolution_DUPLICATE then
         Some (r\<lparr>e_status := EffectStatus_CONFIRMED, e_external_ref := ref_or ext (e_external_ref r),
                 e_response_json := resp\<rparr>)
       else if res = EffectResolution_STUCK then
         Some (r\<lparr>e_status := EffectStatus_FAILED, e_error_json := json_or err stuck_detail\<rparr>)
       else None)"

definition duplicate_obligation ::
    "int \<Rightarrow> effect_id \<Rightarrow> string \<Rightarrow> int \<Rightarrow> StorageEffect \<Rightarrow> StorageObligation" where
  "duplicate_obligation seq k kind now r =
     (case k of (app, user, sid, _) \<Rightarrow> \<lparr>
        o_seq = seq, o_app_name = app, o_user_id = user, o_session_id = sid,
        o_invocation_id = e_invocation_id r, o_effect_key = e_idempotency_key r,
        o_kind = kind,
        o_payload_json = JObj [(''external_ref'', opt_json (e_external_ref r)),
          (''reason'', JStr ''duplicate observed by reconciler'')],
        o_status = ObligationStatus_PENDING,
        o_attempts = 0, o_max_attempts = 5, o_next_attempt_at_ms = now,
        o_last_error = None, o_claimed_by = None, o_claim_expires_at_ms = 0,
        o_compensator_ref = None, o_result_json = JNull, o_ts_ms = now\<rparr>)"

definition record_external_observation ::
    "effect_id \<Rightarrow> string \<Rightarrow> string \<Rightarrow> json \<Rightarrow> json \<Rightarrow> string \<Rightarrow> int \<Rightarrow> db \<Rightarrow> EffectRecord option outcome"
  where
  "record_external_observation k res ext resp err comp_kind clk d =
     (case one_or_none (filter (\<lambda>r. effect_pk r = k) (db_effects d)) of
        Inl e \<Rightarrow> Inl e
      | Inr None \<Rightarrow> Inr (None, d)
      | Inr (Some row) \<Rightarrow>
          (case observe_row res ext resp err clk row of
             None \<Rightarrow> Inl (ValueError (''unknown resolution: '' @ repr_str res))
           | Some row' \<Rightarrow>
               let d1 = d\<lparr>db_effects := tbl_modify effect_pk k
                              (\<lambda>r. case observe_row res ext resp err clk r of None \<Rightarrow> r | Some r' \<Rightarrow> r')
                              (db_effects d)\<rparr> in
               if res = EffectResolution_DUPLICATE \<and> comp_kind \<noteq> [] then
                 (let ob = duplicate_obligation (db_next_seq d) k comp_kind clk row' in
                  case obligation_insert_violation d1 ob of
                    Some v \<Rightarrow> Inl (IntegrityError v)
                  | None \<Rightarrow> Inr (Some (EffectRecord_from_row row'),
                                 d1\<lparr>db_obligations := tbl_insert ob (db_obligations d1),
                                    db_next_seq := db_next_seq d + 1\<rparr>))
               else Inr (Some (EffectRecord_from_row row'), d1)))"

section \<open>The reactors' queues\<close>

definition pending_filter :: "int \<Rightarrow> bool \<Rightarrow> bool \<Rightarrow> StorageEffect \<Rightarrow> bool" where
  "pending_filter older_than_ms include_pending include_unknown r \<longleftrightarrow>
     List.member ((if include_pending then [EffectStatus_PENDING] else []) @
                  (if include_unknown then [EffectStatus_UNKNOWN] else [])) (e_status r) \<and>
     (if older_than_ms > 0 \<and> include_pending \<and> \<not> include_unknown then e_ts_ms r < older_than_ms
      else if older_than_ms > 0 \<and> include_pending then
        e_status r = EffectStatus_UNKNOWN \<or>
        (e_status r = EffectStatus_PENDING \<and> e_ts_ms r < older_than_ms)
      else True)"

definition list_pending_effects :: "int \<Rightarrow> bool \<Rightarrow> bool \<Rightarrow> nat \<Rightarrow> db \<Rightarrow> EffectRecord list" where
  "list_pending_effects older_than_ms include_pending include_unknown limit d =
     (if \<not> include_pending \<and> \<not> include_unknown then []
      else map EffectRecord_from_row
             (order_limit e_ts_ms limit
               (filter (pending_filter older_than_ms include_pending include_unknown)
                  (db_effects d))))"

definition list_effects_to_dispatch :: "int \<Rightarrow> string \<Rightarrow> nat \<Rightarrow> int \<Rightarrow> db \<Rightarrow> EffectRecord list" where
  "list_effects_to_dispatch now_ms connector limit clk d =
     (let now = int_or now_ms clk in
      map EffectRecord_from_row
        (order_limit e_ts_ms limit
          (filter (\<lambda>r. dispatch_ready now r \<and>
                       (connector \<noteq> [] \<longrightarrow> e_connector r = Some connector)) (db_effects d))))"

section \<open>The lease on one row\<close>

definition dispatch_try_claim :: "string \<Rightarrow> int \<Rightarrow> int \<Rightarrow> StorageEffect \<Rightarrow> StorageEffect option" where
  "dispatch_try_claim c now ttl r =
     (if dispatch_ready now r then Some (claim_row c (now + ttl) r) else None)"

text \<open>What \<open>begin_effect\<close> refuses before it looks at the journal.\<close>

definition begin_refused :: "begin_args \<Rightarrow> bool" where
  "begin_refused a \<longleftrightarrow>
     (b_semantics a = EffectSemantics_NON_IDEMPOTENT \<and> b_dispatch_mode a = EffectDispatchMode_INLINE) \<or>
     (b_dispatch_mode a = EffectDispatchMode_OUTBOX \<and> \<not> truthy_str (b_connector a))"

text \<open>The row update of an observation as a total function.\<close>

definition observe_upd :: "string \<Rightarrow> string \<Rightarrow> json \<Rightarrow> json \<Rightarrow> int \<Rightarrow> StorageEffect \<Rightarrow> StorageEffect" where
  "observe_upd res ext resp err now r =
     (case observe_row res ext resp err now r of None \<Rightarrow> r | Some r' \<Rightarrow> r')"

section \<open>Rows keep their identity\<close>

lemma complete_row_simps [row_simps, simp]:
  "e_status (complete_row st resp err now r) = st"
  "e_response_json (complete_row st resp err now r) = resp"
  "e_error_json (complete_row st resp err now r) = err"
  "e_dispatch_claimed_by (complete_row st resp err now r) = None"
  "effect_pk (complete_row st resp err now r) = effect_pk r"
  by (simp_all add: complete_row_def effect_pk_def)

lemma claim_row_simps [row_simps, simp]:
  "e_status (claim_row c ex r) = e_status r"
  "e_dispatch_claimed_by (claim_row c ex r) = Some c"
  "e_dispatch_claim_expires_at_ms (claim_row c ex r) = ex"
  "e_connector (claim_row c ex r) = e_connector r"
  "e_dispatch_attempts (claim_row c ex r) = e_dispatch_attempts r"
  "e_semantics (claim_row c ex r) = e_semantics r"
  "effect_pk (claim_row c ex r) = effect_pk r"
  by (simp_all add: claim_row_def effect_pk_def)

lemma attempt_row_simps [row_simps, simp]:
  "e_status (attempt_row err nx now r) = (if nx \<le> 0 then EffectStatus_UNKNOWN else e_status r)"
  "e_next_dispatch_at_ms (attempt_row err nx now r) = (if nx \<le> 0 then 0 else nx)"
  "e_dispatch_attempts (attempt_row err nx now r) = e_dispatch_attempts r + 1"
  "e_dispatch_claimed_by (attempt_row err nx now r) = None"
  "e_last_dispatch_error (attempt_row err nx now r) = Some err"
  "e_semantics (attempt_row err nx now r) = e_semantics r"
  "effect_pk (attempt_row err nx now r) = effect_pk r"
  by (simp_all add: attempt_row_def effect_pk_def Let_def int_or_def)

lemma observe_upd_frame: "effect_frame (observe_upd res ext resp err now)"
  by (auto simp: effect_frame_def observe_upd_def observe_row_def effect_ok_def effect_pk_def Let_def)

lemma complete_row_frame: "effect_frame (complete_row st resp err now)"
  by (simp add: effect_frame_def complete_row_def effect_ok_def effect_pk_def)

lemma claim_row_frame: "effect_frame (claim_row c ex)"
  by (simp add: effect_frame_def claim_row_def effect_ok_def effect_pk_def)

lemma attempt_row_frame: "effect_frame (attempt_row err nx now)"
  by (simp add: effect_frame_def attempt_row_def effect_ok_def effect_pk_def Let_def int_or_def)

lemma effect_frame_pk: "effect_frame f \<Longrightarrow> effect_pk (f r) = effect_pk r"
  by (simp add: effect_frame_def)

lemma db_ok_modify_effect: "db_ok d \<Longrightarrow> effect_frame f \<Longrightarrow>
    db_ok (d\<lparr>db_effects := tbl_modify effect_pk k f (db_effects d)\<rparr>)"
  unfolding tbl_modify_def by (rule db_ok_map_effects)

section \<open>Operations through the key\<close>

lemma effect_by_key: "db_ok d \<Longrightarrow>
    one_or_none (filter (\<lambda>r. effect_pk r = k) (db_effects d)) = Inr (tbl_lookup effect_pk (db_effects d) k)"
  by (simp add: one_or_none_by_key db_ok_def)

lemma snapshot_by_key: "db_ok d \<Longrightarrow>
    one_or_none (filter (\<lambda>r. snapshot_pk r = k) (db_snapshots d)) =
      Inr (tbl_lookup snapshot_pk (db_snapshots d) k)"
  by (simp add: one_or_none_by_key db_ok_def)

lemma get_effect_eq: "db_ok d \<Longrightarrow> get_effect k d = Inr (tbl_lookup effect_pk (db_effects d) k)"
  by (simp add: get_effect_def effect_by_key)

lemma modify_lookup: "db_ok d \<Longrightarrow> effect_frame f \<Longrightarrow>
    tbl_lookup effect_pk (tbl_modify effect_pk k f (db_effects d)) k' =
      (if k' = k then map_option f (tbl_lookup effect_pk (db_effects d) k)
       else tbl_lookup effect_pk (db_effects d) k')"
  by (rule effects.lookup_modify) (simp_all add: db_ok_def effect_frame_pk)

lemma pending_row_pk: "effect_pk (pending_row a now) = begin_id a"
  by (simp add: pending_row_def effect_pk_def begin_id_def)

lemma snapshot_record_pk: "effect_pk (snapshot_record a c) = begin_id a"
  by (simp add: snapshot_record_def effect_pk_def begin_id_def)

lemma begin_effect_refuses: "begin_refused a \<Longrightarrow> \<exists>msg. begin_effect a clk d = Inl (ValueError msg)"
  by (auto simp: begin_refused_def begin_effect_def)

lemma begin_effect_cases: "db_ok d \<Longrightarrow> \<not> begin_refused a \<Longrightarrow>
    begin_effect a clk d =
      (case tbl_lookup effect_pk (db_effects d) (begin_id a) of
         Some r \<Rightarrow> Inr (r, d)
       | None \<Rightarrow>
           (case captured_effect (tbl_lookup snapshot_pk (db_snapshots d) (begin_session a)) (begin_key a) of
              Some c \<Rightarrow> Inr (snapshot_record a c, d)
            | None \<Rightarrow>
                (case effect_insert_violation d (pending_row a clk) of
                   Some v \<Rightarrow> Inl (BusinessKeyExists (b_connector a) v)
                 | None \<Rightarrow> Inr (pending_row a clk,
                     d\<lparr>db_effects := tbl_insert (pending_row a clk) (db_effects d)\<rparr>))))"
  unfolding begin_effect_def
  by (auto simp: begin_refused_def effect_by_key snapshot_by_key Let_def split: option.split)

lemma pending_row_ok: "\<not> begin_refused a \<Longrightarrow> effect_ok (pending_row a clk)"
  by (auto simp: begin_refused_def effect_ok_def pending_row_def str_or_none_def truthy_str_iff)

lemma begin_effect_ok:
  assumes "db_ok d" and "begin_effect a clk d = Inr (r, d')"
  shows "db_ok d'"
proof -
  have nr: "\<not> begin_refused a" using begin_effect_refuses [of a clk d] assms(2) by auto
  show ?thesis
    using assms nr pending_row_ok [OF nr, of clk]
    by (auto simp: begin_effect_cases intro: db_ok_insert_effect split: option.splits)
qed

lemma begin_effect_pk:
  assumes "db_ok d" and "begin_effect a clk d = Inr (r, d')"
  shows "effect_pk r = begin_id a"
proof -
  have "\<not> begin_refused a" using begin_effect_refuses [of a clk d] assms(2) by auto
  with assms show ?thesis
    by (auto simp: begin_effect_cases pending_row_pk snapshot_record_pk
        dest: tbl_lookup_SomeD split: option.splits)
qed

lemma complete_effect_cases: "db_ok d \<Longrightarrow>
    complete_effect k st resp err clk d =
      (if \<not> List.member [EffectStatus_CONFIRMED, EffectStatus_FAILED, EffectStatus_UNKNOWN] st
       then Inl (ValueError (''complete_effect: invalid status '' @ repr_str st))
       else case tbl_lookup effect_pk (db_effects d) k of
              None \<Rightarrow> Inr (None, d)
            | Some r \<Rightarrow> if e_status r \<noteq> EffectStatus_PENDING then Inr (Some r, d)
                else Inr (Some (complete_row st resp err clk r),
                  d\<lparr>db_effects := tbl_modify effect_pk k (complete_row st resp err clk) (db_effects d)\<rparr>))"
  by (simp add: complete_effect_def effect_by_key split: option.split)

lemma complete_effect_ok:
  "db_ok d \<Longrightarrow> complete_effect k st resp err clk d = Inr (r, d') \<Longrightarrow> db_ok d'"
  by (auto simp: complete_effect_cases intro: db_ok_modify_effect complete_row_frame
      split: if_splits option.splits)

lemma record_dispatch_attempt_cases: "db_ok d \<Longrightarrow>
    record_dispatch_attempt k err nx clk d =
      (case tbl_lookup effect_pk (db_effects d) k of
         None \<Rightarrow> Inr (None, d)
       | Some r \<Rightarrow> Inr (Some (attempt_row err nx clk r),
           d\<lparr>db_effects := tbl_modify effect_pk k (attempt_row err nx clk) (db_effects d)\<rparr>))"
  by (simp add: record_dispatch_attempt_def effect_by_key split: option.split)

lemma record_dispatch_attempt_ok:
  "db_ok d \<Longrightarrow> record_dispatch_attempt k err nx clk d = Inr (r, d') \<Longrightarrow> db_ok d'"
  by (auto simp: record_dispatch_attempt_cases intro: db_ok_modify_effect attempt_row_frame
      split: option.splits)

lemma claim_effect_dispatch_cases:
  assumes "db_ok d"
  shows "claim_effect_dispatch k c ttl now_ms clk d =
     (let now = int_or now_ms clk; old = tbl_lookup effect_pk (db_effects d) k;
          won = (case old of None \<Rightarrow> False | Some r \<Rightarrow> dispatch_ready now r);
          f = (\<lambda>r. if dispatch_ready now r then claim_row c (now + ttl) r else r)
      in Inr ((won, map_option f old), d\<lparr>db_effects := tbl_modify effect_pk k f (db_effects d)\<rparr>))"
proof -
  let ?now = "int_or now_ms clk"
  let ?f = "\<lambda>r. if dispatch_ready ?now r then claim_row c (?now + ttl) r else r"
  let ?es = "tbl_modify effect_pk k ?f (db_effects d)"
  have ok: "tbl_ok effect_pk (db_effects d)" using assms by (simp add: db_ok_def)
  have es: "map (\<lambda>r. if effect_pk r = k \<and> dispatch_ready ?now r then claim_row c (?now + ttl) r else r)
      (db_effects d) = ?es"
    by (auto simp: tbl_modify_def)
  have fr: "effect_pk (?f r) = effect_pk r" for r by simp
  have "one_or_none (filter (\<lambda>r. effect_pk r = k) ?es) = Inr (tbl_lookup effect_pk ?es k)"
    by (rule one_or_none_by_key) (rule effects.invar_modify [OF ok fr])
  moreover have "tbl_lookup effect_pk ?es k = map_option ?f (tbl_lookup effect_pk (db_effects d) k)"
    by (simp add: effects.lookup_modify [OF ok fr])
  moreover have "(length (filter (\<lambda>r. effect_pk r = k \<and> dispatch_ready ?now r) (db_effects d)) = 1) =
      (case tbl_lookup effect_pk (db_effects d) k of None \<Rightarrow> False | Some r \<Rightarrow> dispatch_ready ?now r)"
    by (simp add: filter_key_count [OF ok] split: option.split)
  ultimately show ?thesis
    by (simp add: claim_effect_dispatch_def update_where_def Let_def es)
qed

lemma claim_effect_dispatch_ok:
  assumes "db_ok d" and "claim_effect_dispatch k c ttl now_ms clk d = Inr (r, d')"
  shows "db_ok d'"
proof -
  let ?f = "\<lambda>r. if dispatch_ready (int_or now_ms clk) r
                then claim_row c (int_or now_ms clk + ttl) r else r"
  have "effect_frame ?f"
    using claim_row_frame by (simp add: effect_frame_def)
  with assms show ?thesis
    by (auto simp: claim_effect_dispatch_cases Let_def intro: db_ok_modify_effect)
qed

lemma record_external_observation_cases: "db_ok d \<Longrightarrow>
    record_external_observation k res ext resp err kind clk d =
      (case tbl_lookup effect_pk (db_effects d) k of
         None \<Rightarrow> Inr (None, d)
       | Some r \<Rightarrow>
           (case observe_row res ext resp err clk r of
              None \<Rightarrow> Inl (ValueError (''unknown resolution: '' @ repr_str res))
            | Some r' \<Rightarrow>
                let d1 = d\<lparr>db_effects := tbl_modify effect_pk k (observe_upd res ext resp err clk)
                               (db_effects d)\<rparr>;
                    ob = duplicate_obligation (db_next_seq d) k kind clk r'
                in if res = EffectResolution_DUPLICATE \<and> kind \<noteq> [] then
                     (case obligation_insert_violation d1 ob of
                        Some v \<Rightarrow> Inl (IntegrityError v)
                      | None \<Rightarrow> Inr (Some r', d1\<lparr>db_obligations := tbl_insert ob (db_obligations d),
                                    db_next_seq := db_next_seq d + 1\<rparr>))
                   else Inr (Some r', d1)))"
  by (simp add: record_external_observation_def effect_by_key Let_def observe_upd_def [abs_def]
      split: option.split)

lemma duplicate_obligation_simps:
  "o_seq (duplicate_obligation n k kind now r) = n"
  "o_attempts (duplicate_obligation n k kind now r) = 0"
  "o_status (duplicate_obligation n k kind now r) = ObligationStatus_PENDING"
  "o_kind (duplicate_obligation n k kind now r) = kind"
  "o_effect_key (duplicate_obligation n k kind now r) = e_idempotency_key r"
  by (simp_all add: duplicate_obligation_def split: prod.split)

lemma record_external_observation_ok:
  assumes ok: "db_ok d"
    and res: "record_external_observation k res ext resp err kind clk d = Inr (x, d')"
  shows "db_ok d'"
proof -
  let ?d1 = "d\<lparr>db_effects := tbl_modify effect_pk k (observe_upd res ext resp err clk) (db_effects d)\<rparr>"
  have d1: "db_ok ?d1" by (rule db_ok_modify_effect [OF ok observe_upd_frame])
  have ins: "db_ok (?d1\<lparr>db_obligations := tbl_insert ob (db_obligations d),
      db_next_seq := db_next_seq d + 1\<rparr>)"
    if "obligation_insert_violation ?d1 ob = None" "o_seq ob = db_next_seq d" "0 \<le> o_attempts ob" for ob
    using db_ok_insert_obligation [OF d1 that(1)] that by simp
  show ?thesis
    using res ok d1 ins
    by (auto simp: record_external_observation_cases Let_def duplicate_obligation_simps
        split: option.splits if_splits)
qed

section \<open>The dispatch lease\<close>

interpretation dispatch: lease dispatch_try_claim dispatch_ready e_dispatch_claimed_by
  e_dispatch_claim_expires_at_ms
  by unfold_locales
     (auto simp: dispatch_try_claim_def dispatch_ready_def claim_row_def split: if_splits)

section \<open>Properties\<close>

lemma begin_then_begin:
  assumes ok: "db_ok d" and first: "begin_effect a clk d = Inr (r, d')"
  shows "begin_effect a clk' d' = Inr (r, d')"
proof -
  have nr: "\<not> begin_refused a" using begin_effect_refuses [of a clk d] first by auto
  have ok': "db_ok d'" using begin_effect_ok [OF ok first] .
  have tbl: "tbl_ok effect_pk (db_effects d)" using ok by (simp add: db_ok_def)
  have "effect_insert_violation d (pending_row a clk) = None \<Longrightarrow>
      tbl_lookup effect_pk (tbl_insert (pending_row a clk) (db_effects d)) (begin_id a) = Some (pending_row a clk)"
    using effects.insert_then_get [OF tbl, of "pending_row a clk"]
    by (simp add: effect_insert_violation_None pending_row_pk)
  with first nr ok ok' show ?thesis
    by (auto simp: begin_effect_cases split: option.splits)
qed

lemma complete_stores:
  assumes ok: "db_ok d" and row: "tbl_lookup effect_pk (db_effects d) k = Some r"
    and pend: "e_status r = EffectStatus_PENDING"
    and st: "st \<in> {EffectStatus_CONFIRMED, EffectStatus_FAILED, EffectStatus_UNKNOWN}"
  shows "\<exists>d'. complete_effect k st resp err clk d = Inr (Some (complete_row st resp err clk r), d') \<and>
    db_ok d' \<and> tbl_lookup effect_pk (db_effects d') k = Some (complete_row st resp err clk r)"
proof -
  let ?d' = "d\<lparr>db_effects := tbl_modify effect_pk k (complete_row st resp err clk) (db_effects d)\<rparr>"
  have run: "complete_effect k st resp err clk d = Inr (Some (complete_row st resp err clk r), ?d')"
    using assms by (auto simp: complete_effect_cases)
  with complete_effect_ok [OF ok run] modify_lookup [OF ok complete_row_frame] row show ?thesis by simp
qed

text \<open>
  A repeated \<open>begin_effect\<close> is free: whatever it returned the first time, a call with
  the same arguments at any later clock returns the same record and writes nothing.
\<close>

lemma begin_effect_idempotent:
  assumes "db_ok d" and "begin_effect a clk d = Inr (r, d')"
  shows "begin_effect a clk' d' = Inr (r, d')"
  using assms by (rule begin_then_begin)

text \<open>
  C13. Replay short-circuit: once a begun effect has been completed, re-executing the same
  tool call's \<open>begin_effect\<close> (with any arguments that give the same key and are accepted)
  returns the recorded status, response and error, and changes nothing.
\<close>

theorem replay_returns_recorded_result:
  assumes ok: "db_ok d" and begun: "get_effect (begin_id a) d = Inr (Some r)"
    and pend: "e_status r = EffectStatus_PENDING"
    and st: "st \<in> {EffectStatus_CONFIRMED, EffectStatus_FAILED, EffectStatus_UNKNOWN}"
    and same: "begin_id a' = begin_id a" and acc: "\<not> begin_refused a'"
  shows "\<exists>d'. complete_effect (begin_id a) st resp err clk d = Inr (Some (complete_row st resp err clk r), d') \<and>
    begin_effect a' clk' d' = Inr (complete_row st resp err clk r, d')"
proof -
  have row: "tbl_lookup effect_pk (db_effects d) (begin_id a) = Some r"
    using begun by (simp add: get_effect_eq [OF ok])
  from complete_stores [OF ok row pend st, of resp err clk] obtain d' where
    "complete_effect (begin_id a) st resp err clk d = Inr (Some (complete_row st resp err clk r), d')"
    "db_ok d'" "tbl_lookup effect_pk (db_effects d') (begin_id a) = Some (complete_row st resp err clk r)"
    by blast
  with acc same show ?thesis by (simp add: begin_effect_cases)
qed

theorem replay_returns_recorded_result_witness:
  "let a = begin_defaults ''app'' ''u'' ''s'' ''inv'' 0 ''pay'';
       d = (empty_db [] False)\<lparr>db_effects := [pending_row a 7]\<rparr>;
       r = complete_row EffectStatus_CONFIRMED (JStr ''ok'') JNull 8 (pending_row a 7)
   in \<exists>d'. complete_effect (begin_id a) EffectStatus_CONFIRMED (JStr ''ok'') JNull 8 d = Inr (Some r, d') \<and>
        begin_effect a 9 d' = Inr (r, d')"
proof -
  let ?a = "begin_defaults ''app'' ''u'' ''s'' ''inv'' 0 ''pay''"
  let ?d = "(empty_db [] False)\<lparr>db_effects := [pending_row ?a 7]\<rparr>"
  have nr: "\<not> begin_refused ?a" by (simp add: begin_refused_def begin_defaults_def)
  have ok: "db_ok ?d"
    using pending_row_ok [OF nr, of 7] by (simp add: db_ok_def empty_db_def business_unique_def tbl_ok_def)
  have "get_effect (begin_id ?a) ?d = Inr (Some (pending_row ?a 7))"
    by (simp add: get_effect_eq [OF ok] pending_row_pk)
  from replay_returns_recorded_result [OF ok this _ _ refl nr, of EffectStatus_CONFIRMED "JStr ''ok''" JNull 8 9]
  show ?thesis by (simp add: pending_row_def Let_def)
qed

text \<open>
  \<open>begin_effect\<close> raises \<open>ValueError\<close> exactly for a \<open>NON_IDEMPOTENT\<close> effect that asks to
  run inline and for an outbox effect without a connector name.
\<close>

lemma begin_effect_refuses_iff:
  "(\<exists>msg. begin_effect a clk d = Inl (ValueError msg)) \<longleftrightarrow> begin_refused a"
proof
  assume "\<exists>msg. begin_effect a clk d = Inl (ValueError msg)"
  then show "begin_refused a"
    by (auto simp: begin_effect_def begin_refused_def Let_def one_or_none_def
        split: if_splits option.splits sum.splits list.splits)
qed (rule begin_effect_refuses)

text \<open>
  First completion wins: after a terminal status has been recorded, any further
  completion with a legal status returns the recorded row and leaves the database as it
  is; an illegal status is refused without looking at the row.
\<close>

lemma complete_effect_first_wins:
  assumes ok: "db_ok d" and row: "get_effect k d = Inr (Some r)"
    and settled: "e_status r \<noteq> EffectStatus_PENDING"
  shows "complete_effect k st resp err clk d =
    (if st \<in> {EffectStatus_CONFIRMED, EffectStatus_FAILED, EffectStatus_UNKNOWN} then Inr (Some r, d)
     else Inl (ValueError (''complete_effect: invalid status '' @ repr_str st)))"
  using assms by (auto simp: complete_effect_cases get_effect_eq)

text \<open>
  Derived idempotency keys do not collide: within one session two calls with the same
  derived key are the same call (invocation, decision, tool, call index), as long as tool
  names contain no slash; invocation ids may be arbitrary.
\<close>

lemma derived_key_injective:
  assumes "derived_key i n t c = derived_key i' n' t' c'"
    and "CHR ''/'' \<notin> set t" and "CHR ''/'' \<notin> set t'"
  shows "i = i' \<and> n = n' \<and> t = t' \<and> c = c'"
proof -
  have "(i @ ''/decision-'' @ int_str n @ ''/'' @ t) @ CHR ''/'' # int_str c =
      (i' @ ''/decision-'' @ int_str n' @ ''/'' @ t') @ CHR ''/'' # int_str c'"
    using assms(1) by (simp add: derived_key_def)
  from split_at_last [OF this] have c: "int_str c = int_str c'"
    and "(i @ ''/decision-'' @ int_str n) @ CHR ''/'' # t = (i' @ ''/decision-'' @ int_str n') @ CHR ''/'' # t'"
    by simp_all
  from split_at_last [OF this(2) assms(2,3)] have t: "t = t'"
    and "i @ CHR ''/'' # (''decision-'' @ int_str n) = i' @ CHR ''/'' # (''decision-'' @ int_str n')"
    by simp_all
  from split_at_last [OF this(2)] have "i = i'" "int_str n = int_str n'" by simp_all
  with t c show ?thesis by (blast dest: int_str_inj)
qed

end
