(* ===== verification/Samples.thy ===== *)
theory Samples
  imports TapeSchemas
begin

text \<open>
  Concrete rows and databases, the inputs at which the properties are instantiated: one
  session of one application with an outbox effect waiting to be dispatched, an inline
  effect that is done, an obligation and a timer.
\<close>

definition sample_session :: session_key where
  "sample_session = (''app'', ''user'', ''s1'')"

definition sample_pending :: EffectRecord where
  "sample_pending = \<lparr>
     e_app_name = ''app'', e_user_id = ''user'', e_session_id = ''s1'',
     e_idempotency_key = ''inv/decision-0/pay/0'', e_invocation_id = ''inv'',
     e_decision_index = 0, e_tool_name = ''pay'', e_call_index = 0,
     e_status = EffectStatus_PENDING, e_semantics = EffectSemantics_NON_IDEMPOTENT,
     e_dispatch_mode = EffectDispatchMode_OUTBOX, e_business_key = Some ''invoice-7'',
     e_connector = Some ''bank'', e_external_ref = None, e_dispatch_attempts = 0,
     e_next_dispatch_at_ms = 0, e_dispatch_claimed_by = None,
     e_dispatch_claim_expires_at_ms = 0, e_last_dispatch_error = None,
     e_request_json = JNull, e_response_json = JNull, e_error_json = JNull, e_ts_ms = 100\<rparr>"

definition sample_done :: EffectRecord where
  "sample_done = \<lparr>
     e_app_name = ''app'', e_user_id = ''user'', e_session_id = ''s1'',
     e_idempotency_key = ''inv/decision-1/mail/0'', e_invocation_id = ''inv'',
     e_decision_index = 1, e_tool_name = ''mail'', e_call_index = 0,
     e_status = EffectStatus_CONFIRMED, e_semantics = EffectSemantics_IDEMPOTENT,
     e_dispatch_mode = EffectDispatchMode_INLINE, e_business_key = None,
     e_connector = None, e_external_ref = None, e_dispatch_attempts = 0,
     e_next_dispatch_at_ms = 0, e_dispatch_claimed_by = None,
     e_dispatch_claim_expires_at_ms = 0, e_last_dispatch_error = None,
     e_request_json = JNull, e_response_json = JStr ''sent'', e_error_json = JNull, e_ts_ms = 200\<rparr>"

definition sample_obligation :: ObligationRecord where
  "sample_obligation = \<lparr>
     o_seq = 1, o_app_name = ''app'', o_user_id = ''user'', o_session_id = ''s1'',
     o_invocation_id = ''inv'', o_effect_key = ''inv/decision-1/mail/0'', o_kind = ''refund'',
     o_payload_json = JNull, o_status = ObligationStatus_PENDING, o_attempts = 0,
     o_max_attempts = 3, o_next_attempt_at_ms = 0, o_last_error = None, o_claimed_by = None,
     o_claim_expires_at_ms = 0, o_compensator_ref = None, o_result_json = JNull, o_ts_ms = 300\<rparr>"

definition sample_timer :: TimerRecord where
  "sample_timer = \<lparr>
     t_app_name = ''app'', t_user_id = ''user'', t_session_id = ''s1'', t_timer_id = ''t1'',
     t_fire_at_ms = 500, t_kind = ''wake'', t_payload_json = JNull, t_fired = False,
     t_created_at_ms = 50\<rparr>"

definition sample_db :: db where
  "sample_db = \<lparr>db_effects = [sample_pending, sample_done], db_obligations = [sample_obligation],
     db_timers = [sample_timer], db_snapshots = [], db_values = [], db_next_seq = 2,
     db_sessions = [sample_session], db_fk_on = True\<rparr>"

lemma sample_db_ok: "db_ok sample_db"
  by (simp add: db_ok_def sample_db_def sample_pending_def sample_done_def sample_obligation_def
      sample_timer_def tbl_ok_def effect_pk_def business_unique_def business_clash_def effect_ok_def
      truthy_str_iff)

lemma sample_db_simps [simp]:
  "db_effects sample_db = [sample_pending, sample_done]"
  "db_obligations sample_db = [sample_obligation]"
  "db_timers sample_db = [sample_timer]"
  "db_snapshots sample_db = []" "db_values sample_db = []"
  by (simp_all add: sample_db_def)

lemma sample_pk_simps [simp]:
  "effect_pk sample_pending = (''app'', ''user'', ''s1'', ''inv/decision-0/pay/0'')"
  "effect_pk sample_done = (''app'', ''user'', ''s1'', ''inv/decision-1/mail/0'')"
  "effect_session sample_pending = sample_session" "effect_session sample_done = sample_session"
  "o_seq sample_obligation = 1" "obligation_session sample_obligation = sample_session"
  "timer_session sample_timer = sample_session"
  by (simp_all add: sample_pending_def sample_done_def sample_obligation_def sample_timer_def
      effect_pk_def effect_session_def sample_session_def obligation_session_def timer_session_def)

end
