(* ===== verification/TimersValues.thy ===== *)
theory TimersValues
  imports Samples
begin

text \<open>
  The timer registry and the reactive key/value store of \<open>TapeSessionService\<close>: setting,
  listing with and without claiming, and cancelling timers; optimistic writes with
  \<open>if_version\<close> and reads of values. The lemmas give each operation through its key, that
  it keeps \<open>db_ok\<close>, and that versions only grow.
\<close>

section \<open>Timers\<close>

definition new_timer :: "effect_id \<Rightarrow> int \<Rightarrow> string \<Rightarrow> json \<Rightarrow> int \<Rightarrow> StorageTimer" where
  "new_timer k fire_at kind payload now =
     (case k of (app, user, sid, tid) \<Rightarrow> \<lparr>
        t_app_name = app, t_user_id = user, t_session_id = sid, t_timer_id = tid,
        t_fire_at_ms = fire_at, t_kind = kind, t_payload_json = payload,
        t_fired = False, t_created_at_ms = now\<rparr>)"

definition set_timer :: "effect_id \<Rightarrow> int \<Rightarrow> string \<Rightarrow> json \<Rightarrow> int \<Rightarrow> db \<Rightarrow> TimerRecord outcome" where
  "set_timer k fire_at kind payload clk d =
     (case one_or_none (filter (\<lambda>r. timer_pk r = k) (db_timers d)) of
        Inl e \<Rightarrow> Inl e
      | Inr (Some existing) \<Rightarrow> Inr (TimerRecord_from_row existing, d)
      | Inr None \<Rightarrow>
          (let row = new_timer k fire_at kind payload clk in
           case timer_insert_violation d row of
             Some v \<Rightarrow> Inl (IntegrityError v)
           | None \<Rightarrow> Inr (TimerRecord_from_row row, d\<lparr>db_timers := tbl_insert row (db_timers d)\<rparr>)))"

definition timer_due :: "int \<Rightarrow> StorageTimer \<Rightarrow> bool" where
  "timer_due now r \<longleftrightarrow> \<not> t_fired r \<and> t_fire_at_ms r \<le> now"

text \<open>
  The records returned are copies taken before the claim sets \<open>fired\<close>, so they still
  read \<open>fired = False\<close>.
\<close>

definition list_due_timers :: "int \<Rightarrow> nat \<Rightarrow> bool \<Rightarrow> int \<Rightarrow> db \<Rightarrow> TimerRecord list \<times> db" where
  "list_due_timers now_ms limit claim clk d =
     (let now = int_or now_ms clk;
          rows = order_limit t_fire_at_ms limit (filter (timer_due now) (db_timers d));
          results = map TimerRecord_from_row rows
      in if claim \<and> rows \<noteq> [] then
           (results,
            d\<lparr>db_timers := map (\<lambda>r. if List.member (map timer_pk rows) (timer_pk r)
                                    then r\<lparr>t_fired := True\<rparr> else r) (db_timers d)\<rparr>)
         else (results, d))"

definition cancel_timer :: "effect_id \<Rightarrow> db \<Rightarrow> bool \<times> db" where
  "cancel_timer k d =
     (let (rowcount, ts) = delete_where (\<lambda>r. timer_pk r = k) (db_timers d)
      in (rowcount > 0, d\<lparr>db_timers := ts\<rparr>))"

section \<open>Values\<close>

definition write_row :: "json \<Rightarrow> string \<Rightarrow> int \<Rightarrow> StorageValue \<Rightarrow> StorageValue" where
  "write_row value writer now r = r\<lparr>v_value_json := value,
     v_version := int_or (v_version r) 0 + 1, v_ts_ms := now,
     v_writer := ref_or writer (v_writer r), v_deleted := False\<rparr>"

definition write_value ::
    "string \<Rightarrow> string \<Rightarrow> json \<Rightarrow> int \<Rightarrow> string \<Rightarrow> int \<Rightarrow> db \<Rightarrow> StorageValue outcome" where
  "write_value ns key value if_version writer clk d =
     (case one_or_none (filter (\<lambda>r. value_pk r = (ns, key)) (db_values d)) of
        Inl e \<Rightarrow> Inl e
      | Inr None \<Rightarrow>
          if if_version \<ge> 0 \<and> if_version \<noteq> 0 then
            Inl (ValueError (''write_value: if_version='' @ int_str if_version @
                   '' but no prior row exists (version 0)''))
          else
            (let row = \<lparr>v_namespace = ns, v_key = key, v_value_json = value, v_version = 1,
                        v_ts_ms = clk, v_writer = ref_or writer None, v_deleted = False\<rparr>
             in Inr (row, d\<lparr>db_values := tbl_insert row (db_values d)\<rparr>))
      | Inr (Some existing) \<Rightarrow>
          if if_version \<ge> 0 \<and> if_version \<noteq> v_version existing then
            Inl (ValueError (''write_value: stale CAS '' @ [CHR 0xE2, CHR 0x80, CHR 0x94] @
                   '' if_version='' @ int_str if_version @
                   '', current='' @ int_str (v_version existing)))
          else
            Inr (write_row value writer clk existing,
                 d\<lparr>db_values := tbl_modify value_pk (ns, key) (write_row value writer clk)
                                  (db_values d)\<rparr>))"

definition get_value :: "string \<Rightarrow> string \<Rightarrow> db \<Rightarrow> tape_error + StorageValue option" where
  "get_value ns key d = one_or_none (filter (\<lambda>r. value_pk r = (ns, key)) (db_values d))"

text \<open>The version a writer has to expect: 0 where there is no row.\<close>

definition stored_version :: "db \<Rightarrow> string \<Rightarrow> string \<Rightarrow> int" where
  "stored_version d ns key =
     (case tbl_lookup value_pk (db_values d) (ns, key) of None \<Rightarrow> 0 | Some r \<Rightarrow> v_version r)"

section \<open>Timers through their key\<close>

lemma timer_by_key: "db_ok d \<Longrightarrow>
    one_or_none (filter (\<lambda>r. timer_pk r = k) (db_timers d)) = Inr (tbl_lookup timer_pk (db_timers d) k)"
  by (simp add: one_or_none_by_key db_ok_def)

lemma new_timer_pk: "timer_pk (new_timer k f kd p now) = k"
  by (cases k) (simp add: new_timer_def timer_pk_def)

lemma set_timer_cases: "db_ok d \<Longrightarrow>
    set_timer k f kd p clk d =
      (case tbl_lookup timer_pk (db_timers d) k of
         Some r \<Rightarrow> Inr (r, d)
       | None \<Rightarrow> if fk_violated d (timer_session (new_timer k f kd p clk))
                 then Inl (IntegrityError ForeignKey)
                 else Inr (new_timer k f kd p clk,
                        d\<lparr>db_timers := tbl_insert (new_timer k f kd p clk) (db_timers d)\<rparr>))"
  using list_ex_pk [of timer_pk "new_timer k f kd p clk" "db_timers d"]
  by (simp add: set_timer_def timer_by_key timer_insert_violation_def Let_def new_timer_pk
      split: option.split)

lemma set_timer_ok: "db_ok d \<Longrightarrow> set_timer k f kd p clk d = Inr (r, d') \<Longrightarrow> db_ok d'"
  by (auto simp: set_timer_cases db_ok_def tbl_insert_def tbl_ok_snoc new_timer_pk
      split: option.splits if_splits)

lemma fire_keeps_pk: "timer_pk (r\<lparr>t_fired := b\<rparr>) = timer_pk r"
  by (simp add: timer_pk_def)

lemma list_due_timers_ok: "db_ok d \<Longrightarrow> db_ok (snd (list_due_timers now_ms n claim clk d))"
  by (auto simp: list_due_timers_def Let_def db_ok_def fire_keeps_pk intro!: tbl_ok_map [THEN iffD2])

lemma cancel_timer_ok: "db_ok d \<Longrightarrow> db_ok (snd (cancel_timer k d))"
  by (simp add: cancel_timer_def delete_where_def db_ok_def tbl_ok_filter)

lemma list_due_timers_result: "set (fst (list_due_timers now_ms n claim clk d)) \<subseteq>
    {r \<in> set (db_timers d). timer_due (int_or now_ms clk) r}"
  by (auto simp: list_due_timers_def Let_def dest: set_order_limit)

lemma claimed_timer_fired:
  assumes ok: "db_ok d" and mem: "r \<in> set (fst (list_due_timers now_ms n True clk d))"
  shows "tbl_lookup timer_pk (db_timers (snd (list_due_timers now_ms n True clk d))) (timer_pk r) =
    Some (r\<lparr>t_fired := True\<rparr>)"
proof -
  let ?rows = "order_limit t_fire_at_ms n (filter (timer_due (int_or now_ms clk)) (db_timers d))"
  let ?f = "\<lambda>x. if List.member (map timer_pk ?rows) (timer_pk x) then x\<lparr>t_fired := True\<rparr> else x"
  have r: "r \<in> set ?rows" using mem by (simp add: list_due_timers_def Let_def split: if_splits)
  then have "r \<in> set (db_timers d)" by (auto dest: set_order_limit)
  then have "tbl_lookup timer_pk (db_timers d) (timer_pk r) = Some r"
    using ok by (intro tbl_lookup_mem) (simp_all add: db_ok_def)
  moreover have "timer_pk (?f x) = timer_pk x" for x by (simp add: fire_keeps_pk)
  ultimately have "tbl_lookup timer_pk (map ?f (db_timers d)) (timer_pk r) = Some (?f r)"
    by (simp add: tbl_lookup_map)
  moreover have "?rows \<noteq> []" using r by auto
  moreover have "?f r = r\<lparr>t_fired := True\<rparr>" using r by auto
  ultimately show ?thesis by (simp add: list_due_timers_def Let_def)
qed

section \<open>Values through their key\<close>

lemma get_value_eq: "db_ok d \<Longrightarrow> get_value ns key d = Inr (tbl_lookup value_pk (db_values d) (ns, key))"
  by (simp add: get_value_def one_or_none_by_key db_ok_def)

lemma write_row_simps [row_simps, simp]:
  "value_pk (write_row v w now r) = value_pk r"
  "v_version (write_row v w now r) = v_version r + 1"
  "v_value_json (write_row v w now r) = v"
  by (simp_all add: write_row_def value_pk_def int_or_def)

lemma write_value_refuses: "db_ok d \<Longrightarrow> if_version \<ge> 0 \<Longrightarrow> if_version \<noteq> stored_version d ns key \<Longrightarrow>
    \<exists>m. write_value ns key v if_version w clk d = Inl (ValueError m)"
  using get_value_eq [of d ns key]
  by (auto simp: write_value_def get_value_def stored_version_def split: option.splits)

lemma write_value_accepts:
  assumes ok: "db_ok d" and ver: "if_version < 0 \<or> if_version = stored_version d ns key"
  shows "\<exists>r d'. write_value ns key v if_version w clk d = Inr (r, d') \<and>
    get_value ns key d' = Inr (Some r) \<and> v_value_json r = v \<and>
    v_version r = stored_version d ns key + 1 \<and> db_ok d'"
proof (cases "tbl_lookup value_pk (db_values d) (ns, key)")
  case None
  let ?row = "\<lparr>v_namespace = ns, v_key = key, v_value_json = v, v_version = 1,
      v_ts_ms = clk, v_writer = ref_or w None, v_deleted = False\<rparr>"
  let ?d' = "d\<lparr>db_values := tbl_insert ?row (db_values d)\<rparr>"
  have pk: "value_pk ?row = (ns, key)" by (simp add: value_pk_def)
  have res: "write_value ns key v if_version w clk d = Inr (?row, ?d')"
    using ok None ver get_value_eq [OF ok, of ns key]
    by (auto simp: write_value_def get_value_def stored_version_def Let_def)
  have ok': "db_ok ?d'"
    using ok None by (auto simp: db_ok_def tbl_insert_def tbl_ok_snoc value_pk_def)
  have "tbl_lookup value_pk (db_values ?d') (ns, key) = Some ?row"
    using kv.insert_then_get [of "db_values d" ?row] ok None by (simp add: pk db_ok_def)
  with ok' have "get_value ns key ?d' = Inr (Some ?row)" by (simp add: get_value_eq)
  with res ok' None show ?thesis by (auto simp: stored_version_def)
next
  case (Some r)
  let ?d' = "d\<lparr>db_values := tbl_modify value_pk (ns, key) (write_row v w clk) (db_values d)\<rparr>"
  have res: "write_value ns key v if_version w clk d = Inr (write_row v w clk r, ?d')"
    using ok Some ver get_value_eq [OF ok, of ns key]
    by (auto simp: write_value_def get_value_def stored_version_def)
  have ok': "db_ok ?d'"
    using ok by (auto simp: db_ok_def tbl_modify_def list_all_iff intro!: tbl_ok_map [THEN iffD2])
  have "tbl_lookup value_pk (db_values ?d') (ns, key) = Some (write_row v w clk r)"
    using kv.modify_same [of "db_values d" "write_row v w clk"] ok Some by (simp add: db_ok_def)
  with ok' have "get_value ns key ?d' = Inr (Some (write_row v w clk r))" by (simp add: get_value_eq)
  with res ok' Some show ?thesis by (auto simp: stored_version_def)
qed

lemma write_value_ok:
  assumes "db_ok d" and "write_value ns key v if_version w clk d = Inr (r, d')"
  shows "db_ok d'"
proof (cases "if_version < 0 \<or> if_version = stored_version d ns key")
  case True
  with write_value_accepts [OF assms(1) True, of v w clk] assms(2) show ?thesis by fastforce
next
  case False
  with write_value_refuses [OF assms(1), of if_version ns key v w clk] assms(2) show ?thesis by fastforce
qed

section \<open>Properties\<close>

lemma fired_stays_out:
  assumes ok: "db_ok d" and t: "t \<in> set (fst (list_due_timers now n True clk d))"
    and t': "t' \<in> set (fst (list_due_timers now' n' claim clk' (snd (list_due_timers now n True clk d))))"
  shows "timer_pk t' \<noteq> timer_pk t"
proof
  let ?d' = "snd (list_due_timers now n True clk d)"
  assume eq: "timer_pk t' = timer_pk t"
  from t' list_due_timers_result [of now' n' claim clk' ?d']
  have mem: "t' \<in> set (db_timers ?d')" and due: "timer_due (int_or now' clk') t'" by auto
  have "tbl_ok timer_pk (db_timers ?d')" using list_due_timers_ok [OF ok] by (simp add: db_ok_def)
  from tbl_lookup_mem [OF this mem] eq claimed_timer_fired [OF ok t] have "t' = t\<lparr>t_fired := True\<rparr>" by simp
  with due show False by (simp add: timer_due_def)
qed

text \<open>
  Compare-and-set: a write with \<open>if_version \<ge> 0\<close> different from the stored version
  (0 where there is no row) is refused; every other write succeeds, is what the next read
  returns, and raises the version by exactly one.
\<close>

lemma write_value_compare_and_set:
  assumes "db_ok d"
  shows "if 0 \<le> iv \<and> iv \<noteq> stored_version d ns key
     then \<exists>msg. write_value ns key v iv w clk d = Inl (ValueError msg)
     else \<exists>r d'. write_value ns key v iv w clk d = Inr (r, d') \<and> get_value ns key d' = Inr (Some r) \<and>
            v_value_json r = v \<and> v_version r = stored_version d ns key + 1"
proof (cases "0 \<le> iv \<and> iv \<noteq> stored_version d ns key")
  case True
  with write_value_refuses [OF assms, of iv ns key v w clk] show ?thesis by simp
next
  case False
  then have "iv < 0 \<or> iv = stored_version d ns key" by linarith
  from write_value_accepts [OF assms this, of v w clk] False show ?thesis by auto
qed

text \<open>
  No lost update: of two writers that read the same version, the second is refused
  once the first has written.
\<close>

lemma write_value_no_lost_update:
  assumes ok: "db_ok d" and iv: "0 \<le> iv" and first: "write_value ns key v iv w clk d = Inr (r, d')"
  shows "\<exists>msg. write_value ns key v' iv w' clk' d' = Inl (ValueError msg)"
proof -
  have "iv = stored_version d ns key"
    using write_value_refuses [OF ok iv, of ns key v w clk] first by fastforce
  with write_value_accepts [OF ok, of iv ns key v w clk] first
  have "get_value ns key d' = Inr (Some r)" "v_version r = iv + 1" "db_ok d'" by auto
  then have "stored_version d' ns key = iv + 1" by (simp add: get_value_eq stored_version_def)
  with write_value_refuses [OF \<open>db_ok d'\<close> iv] show ?thesis by simp
qed

text \<open>
  A timer is handed out once: a listing with \<open>claim\<close> returns only due timers, and no
  later listing, at any time, returns a timer it handed out.
\<close>

lemma timer_claimed_once:
  assumes "db_ok d" and "t \<in> set (fst (list_due_timers now n True clk d))"
  shows "timer_due (int_or now clk) t \<and>
    timer_pk t \<notin> timer_pk ` set (fst (list_due_timers now' n' claim clk' (snd (list_due_timers now n True clk d))))"
  using list_due_timers_result [of now n True clk d] fired_stays_out [OF assms] assms(2) by fastforce

end
