(* ===== verification/Snapshots.thy ===== *)
theory Snapshots
  imports EffectLedger TimersValues "HOL-Library.AList"
begin

text \<open>
  Continue-as-new: the per-session snapshot of terminal effects (\<open>take_snapshot\<close>,
  \<open>get_snapshot\<close>) that \<open>begin_effect\<close> falls back to when the live row is gone, and
  \<open>continue_as_new\<close>, which prunes an invocation's terminal effects that no active
  obligation pins and carries state forward as a value. A Python dict is an association
  list in insertion order; \<open>AList.update\<close> is \<open>d[k] = v\<close>.
\<close>

section \<open>Snapshots\<close>

definition captured_of :: "StorageEffect \<Rightarrow> captured" where
  "captured_of r = [
     (''status'', JStr (e_status r)),
     (''semantics'', JStr (e_semantics r)),
     (''dispatch_mode'', JStr (e_dispatch_mode r)),
     (''business_key'', opt_json (e_business_key r)),
     (''connector'', opt_json (e_connector r)),
     (''external_ref'', opt_json (e_external_ref r)),
     (''request_json'', e_request_json r),
     (''response_json'', e_response_json r),
     (''error_json'', e_error_json r),
     (''invocation_id'', JStr (e_invocation_id r)),
     (''decision_index'', JNum (e_decision_index r)),
     (''tool_name'', JStr (e_tool_name r)),
     (''call_index'', JNum (e_call_index r)),
     (''ts_ms'', JNum (e_ts_ms r))]"

text \<open>\<open>captured[r.idempotency_key] = {...}\<close> over the selected rows, and \<open>merged.update(captured)\<close>.\<close>

definition capture_rows :: "StorageEffect list \<Rightarrow> (string \<times> captured) list" where
  "capture_rows rows = fold (\<lambda>r. AList.update (e_idempotency_key r) (captured_of r)) rows []"

definition dict_update :: "(string \<times> 'v) list \<Rightarrow> (string \<times> 'v) list \<Rightarrow> (string \<times> 'v) list" where
  "dict_update new old = fold (\<lambda>kv. AList.update (fst kv) (snd kv)) new old"

record snapshot_result =
  sr_captured :: int
  sr_merged_total :: int
  sr_up_to_ts_ms :: int

definition snapshot_selects :: "session_key \<Rightarrow> int \<Rightarrow> StorageEffect \<Rightarrow> bool" where
  "snapshot_selects s watermark r \<longleftrightarrow> effect_session r = s \<and>
     List.member [EffectStatus_CONFIRMED, EffectStatus_FAILED] (e_status r) \<and> e_ts_ms r \<le> watermark"

definition merge_snapshot ::
    "(string \<times> captured) list \<Rightarrow> int \<Rightarrow> int \<Rightarrow> StorageEffectSnapshot \<Rightarrow> StorageEffectSnapshot" where
  "merge_snapshot merged watermark now s = s\<lparr>s_effects_json := merged,
     s_up_to_ts_ms := max (int_or (s_up_to_ts_ms s) 0) watermark,
     s_effects_count := int (length merged), s_updated_at_ms := now\<rparr>"

text \<open>The method reads the clock twice: for the default watermark and for the row.\<close>

definition take_snapshot :: "session_key \<Rightarrow> int \<Rightarrow> int \<Rightarrow> int \<Rightarrow> db \<Rightarrow> snapshot_result outcome" where
  "take_snapshot s up_to_ts_ms clk1 clk2 d =
     (let watermark = int_or up_to_ts_ms clk1;
          captured = capture_rows (filter (snapshot_selects s watermark) (db_effects d))
      in case one_or_none (filter (\<lambda>x. snapshot_pk x = s) (db_snapshots d)) of
           Inl e \<Rightarrow> Inl e
         | Inr None \<Rightarrow>
             (let merged = captured;
                  row = (case s of (app, user, sid) \<Rightarrow> \<lparr>
                    s_app_name = app, s_user_id = user, s_session_id = sid,
                    s_effects_json = merged, s_up_to_ts_ms = watermark,
                    s_effects_count = int (length merged),
                    s_created_at_ms = clk2, s_updated_at_ms = clk2\<rparr>)
              in case snapshot_insert_violation d row of
                   Some v \<Rightarrow> Inl (IntegrityError v)
                 | None \<Rightarrow> Inr (\<lparr>sr_captured = int (length captured),
                                 sr_merged_total = int (length merged), sr_up_to_ts_ms = watermark\<rparr>,
                                d\<lparr>db_snapshots := tbl_insert row (db_snapshots d)\<rparr>))
         | Inr (Some snap) \<Rightarrow>
             (let merged = dict_update captured (s_effects_json snap)
              in Inr (\<lparr>sr_captured = int (length captured),
                       sr_merged_total = int (length merged), sr_up_to_ts_ms = watermark\<rparr>,
                      d\<lparr>db_snapshots := tbl_modify snapshot_pk s
                           (merge_snapshot merged watermark clk2) (db_snapshots d)\<rparr>)))"

definition get_snapshot :: "session_key \<Rightarrow> db \<Rightarrow> tape_error + StorageEffectSnapshot option" where
  "get_snapshot s d = one_or_none (filter (\<lambda>x. snapshot_pk x = s) (db_snapshots d))"

section \<open>Continue as new\<close>

definition active_obligation :: "StorageObligation \<Rightarrow> bool" where
  "active_obligation r \<longleftrightarrow>
     List.member [ObligationStatus_PENDING, ObligationStatus_COMMITTED] (o_status r)"

text \<open>
  The correlated \<open>NOT EXISTS\<close> guard: the subquery joins on \<open>session_id\<close> and the key, not
  on \<open>app_name\<close> and \<open>user_id\<close>.
\<close>

definition pinned :: "db \<Rightarrow> StorageEffect \<Rightarrow> bool" where
  "pinned d r \<longleftrightarrow> list_ex (\<lambda>q. o_session_id q = e_session_id r \<and>
     o_effect_key q = e_idempotency_key r \<and> active_obligation q) (db_obligations d)"

definition terminal_effect :: "StorageEffect \<Rightarrow> bool" where
  "terminal_effect r \<longleftrightarrow> List.member [EffectStatus_CONFIRMED, EffectStatus_FAILED] (e_status r)"

record continue_result =
  cr_effects_pruned :: int
  cr_state_written :: bool
  cr_obligations_kept :: int

definition retire_selects :: "session_key \<Rightarrow> string \<Rightarrow> db \<Rightarrow> StorageEffect \<Rightarrow> bool" where
  "retire_selects s old_invocation d r \<longleftrightarrow> effect_session r = s \<and>
     e_invocation_id r = old_invocation \<and> terminal_effect r \<and> \<not> pinned d r"

definition kept_obligations :: "session_key \<Rightarrow> string \<Rightarrow> db \<Rightarrow> StorageObligation list" where
  "kept_obligations s old_invocation d =
     filter (\<lambda>q. obligation_session q = s \<and> active_obligation q \<and>
        List.member (map e_idempotency_key
          (filter (\<lambda>r. effect_session r = s \<and> e_invocation_id r = old_invocation) (db_effects d)))
          (o_effect_key q)) (db_obligations d)"

definition carry_row :: "json \<Rightarrow> int \<Rightarrow> StorageValue \<Rightarrow> StorageValue" where
  "carry_row st now r = r\<lparr>v_value_json := st, v_version := int_or (v_version r) 0 + 1,
     v_ts_ms := now, v_writer := Some ''continue_as_new'', v_deleted := False\<rparr>"

definition carry_state :: "string \<Rightarrow> string \<Rightarrow> json \<Rightarrow> int \<Rightarrow> db \<Rightarrow> tape_error + db" where
  "carry_state ns key st now d =
     (case one_or_none (filter (\<lambda>r. value_pk r = (ns, key)) (db_values d)) of
        Inl e \<Rightarrow> Inl e
      | Inr None \<Rightarrow> Inr (d\<lparr>db_values := tbl_insert
           \<lparr>v_namespace = ns, v_key = key, v_value_json = st, v_version = 1, v_ts_ms = now,
            v_writer = Some ''continue_as_new'', v_deleted = False\<rparr> (db_values d)\<rparr>)
      | Inr (Some _) \<Rightarrow> Inr (d\<lparr>db_values := tbl_modify value_pk (ns, key) (carry_row st now)
                                            (db_values d)\<rparr>))"

definition carry_namespace :: "session_key \<Rightarrow> string" where
  "carry_namespace s = (case s of (app, user, sid) \<Rightarrow> ''tape:continue-as-new:'' @ sid)"

definition continue_as_new ::
    "session_key \<Rightarrow> string \<Rightarrow> string \<Rightarrow> json \<Rightarrow> bool \<Rightarrow> int \<Rightarrow> db \<Rightarrow> continue_result outcome" where
  "continue_as_new s old_invocation new_invocation carried prune_old clk d =
     (let (pruned, d1) = (if prune_old then
            (let (n, es) = delete_where (retire_selects s old_invocation d) (db_effects d)
             in (int n, d\<lparr>db_effects := es\<rparr>)) else (0, d));
          kept = (if prune_old then int (length (kept_obligations s old_invocation d1)) else 0)
      in if carried \<noteq> JNull then
           (case carry_state (carry_namespace s) new_invocation carried clk d1 of
              Inl e \<Rightarrow> Inl e
            | Inr d2 \<Rightarrow> Inr (\<lparr>cr_effects_pruned = pruned, cr_state_written = True,
                             cr_obligations_kept = kept\<rparr>, d2))
         else Inr (\<lparr>cr_effects_pruned = pruned, cr_state_written = False,
                    cr_obligations_kept = kept\<rparr>, d1))"

text \<open>What the fallback forgets of a row: the fields of the dispatch protocol.\<close>

definition forget_dispatch :: "StorageEffect \<Rightarrow> EffectRecord" where
  "forget_dispatch r = r\<lparr>e_dispatch_attempts := 0, e_next_dispatch_at_ms := 0,
     e_dispatch_claimed_by := None, e_dispatch_claim_expires_at_ms := 0, e_last_dispatch_error := None\<rparr>"

section \<open>Dictionaries\<close>

lemma fold_update_other:
  "k \<notin> kf ` set xs \<Longrightarrow> map_of (fold (\<lambda>x. AList.update (kf x) (vf x)) xs al) k = map_of al k"
  by (induction xs arbitrary: al) (auto simp: update_conv')

lemma fold_update_mem:
  assumes "distinct (map kf xs)" and "x \<in> set xs"
  shows "map_of (fold (\<lambda>x. AList.update (kf x) (vf x)) xs al) (kf x) = Some (vf x)"
  using assms
proof (induction xs arbitrary: al)
  case (Cons y ys)
  show ?case
  proof (cases "x = y")
    case True
    with Cons.prems(1) show ?thesis by (simp add: fold_update_other update_conv')
  next
    case False
    with Cons show ?thesis by simp
  qed
qed simp

lemma distinct_fold_update:
  "distinct (map fst al) \<Longrightarrow> distinct (map fst (fold (\<lambda>x. AList.update (kf x) (vf x)) xs al))"
  by (induction xs arbitrary: al) (auto simp: distinct_update)

lemma capture_rows_distinct: "distinct (map fst (capture_rows rows))"
  by (simp add: capture_rows_def distinct_fold_update)

lemma dict_update_lookup:
  assumes "distinct (map fst new)"
  shows "map_of (dict_update new old) k = (case map_of new k of None \<Rightarrow> map_of old k | Some v \<Rightarrow> Some v)"
proof (cases "map_of new k")
  case None
  then have "k \<notin> fst ` set new" by (simp add: map_of_eq_None_iff)
  with None show ?thesis by (simp add: dict_update_def fold_update_other)
next
  case (Some v)
  then have "(k, v) \<in> set new" by (rule map_of_SomeD)
  from fold_update_mem [OF assms this, of snd old] Some show ?thesis
    by (simp add: dict_update_def)
qed

lemma capture_rows_mem: "distinct (map e_idempotency_key rows) \<Longrightarrow> r \<in> set rows \<Longrightarrow>
    map_of (capture_rows rows) (e_idempotency_key r) = Some (captured_of r)"
  unfolding capture_rows_def by (rule fold_update_mem)

lemma distinct_keys_of_session:
  assumes "tbl_ok effect_pk rs" and "\<forall>r \<in> set rs. effect_session r = s"
  shows "distinct (map e_idempotency_key rs)"
  using assms
proof (induction rs)
  case (Cons r rs)
  have "e_idempotency_key x \<noteq> e_idempotency_key r" if "x \<in> set rs" for x
  proof
    assume eq: "e_idempotency_key x = e_idempotency_key r"
    from Cons.prems(2) that have "effect_session x = effect_session r" by simp
    with eq have "effect_pk x = effect_pk r" by (simp add: effect_pk_def effect_session_def)
    with tbl_ok_ConsD [OF Cons.prems(1) that] show False by simp
  qed
  then have "e_idempotency_key r \<notin> e_idempotency_key ` set rs" by force
  moreover have "distinct (map e_idempotency_key rs)" using Cons by simp
  ultimately show ?case by simp
qed simp

section \<open>The snapshot remembers terminal effects\<close>

lemma snapshot_record_captured: "effect_pk r = begin_id a \<Longrightarrow>
    snapshot_record a (captured_of r) = forget_dispatch r"
  by (simp add: snapshot_record_def captured_of_def forget_dispatch_def get_str_def get_opt_str_def
      get_int_def get_json_def opt_json_def effect_pk_def begin_id_def split: option.splits)

lemma snapshot_dict:
  assumes ok: "db_ok d" and res: "take_snapshot s up clk1 clk2 d = Inr (x, d')"
  shows "\<exists>snap' ss. d' = d\<lparr>db_snapshots := ss\<rparr> \<and> tbl_ok snapshot_pk ss \<and>
    tbl_lookup snapshot_pk ss s = Some snap' \<and>
    s_effects_json snap' = dict_update
      (capture_rows (filter (snapshot_selects s (int_or up clk1)) (db_effects d)))
      (case tbl_lookup snapshot_pk (db_snapshots d) s of None \<Rightarrow> [] | Some sn \<Rightarrow> s_effects_json sn)"
proof -
  let ?cap = "capture_rows (filter (snapshot_selects s (int_or up clk1)) (db_effects d))"
  have tbl: "tbl_ok snapshot_pk (db_snapshots d)" using ok by (simp add: db_ok_def)
  have upd: "dict_update ?cap [] = ?cap"
  proof -
    have "fold (\<lambda>kv. AList.update (fst kv) (snd kv)) xs al = al @ xs"
      if "distinct (map fst (al @ xs))" for xs al :: "(string \<times> captured) list"
      using that
    proof (induction xs arbitrary: al)
      case (Cons y ys)
      then have "AList.update (fst y) (snd y) al = al @ [y]"
        by (induction al) auto
      with Cons show ?case by simp
    qed simp
    from this [of "[]" ?cap] show ?thesis
      by (simp add: dict_update_def capture_rows_distinct)
  qed
  show ?thesis
  proof (cases "tbl_lookup snapshot_pk (db_snapshots d) s")
    case None
    obtain app user sid where s: "s = (app, user, sid)" by (cases s)
    let ?row = "\<lparr>s_app_name = app, s_user_id = user, s_session_id = sid, s_effects_json = ?cap,
        s_up_to_ts_ms = int_or up clk1, s_effects_count = int (length ?cap),
        s_created_at_ms = clk2, s_updated_at_ms = clk2\<rparr>"
    have pk: "snapshot_pk ?row = s" by (simp add: snapshot_pk_def s)
    have d': "d' = d\<lparr>db_snapshots := tbl_insert ?row (db_snapshots d)\<rparr>"
      using res None ok by (auto simp: take_snapshot_def snapshot_by_key Let_def s split: option.splits)
    have "tbl_lookup snapshot_pk (tbl_insert ?row (db_snapshots d)) s = Some ?row"
      using snapshots.insert_then_get [OF tbl, of ?row] None by (simp add: pk)
    moreover have "tbl_ok snapshot_pk (tbl_insert ?row (db_snapshots d))"
      using snapshots.invar_insert [OF tbl, of ?row] None by (simp add: pk)
    moreover have "s_effects_json ?row = dict_update ?cap []" by (simp add: upd)
    ultimately show ?thesis unfolding d' None option.case by blast
  next
    case (Some snap)
    let ?m = "dict_update ?cap (s_effects_json snap)"
    have fr: "snapshot_pk (merge_snapshot ?m (int_or up clk1) clk2 r) = snapshot_pk r" for r
      by (simp add: merge_snapshot_def snapshot_pk_def)
    have d': "d' = d\<lparr>db_snapshots := tbl_modify snapshot_pk s (merge_snapshot ?m (int_or up clk1) clk2)
        (db_snapshots d)\<rparr>"
      using res Some ok by (auto simp: take_snapshot_def snapshot_by_key Let_def)
    have "s_effects_json (merge_snapshot ?m (int_or up clk1) clk2 snap) = ?m"
      by (simp add: merge_snapshot_def)
    then show ?thesis
      unfolding d' Some option.case
      using snapshots.modify_same [OF tbl fr Some] snapshots.invar_modify [OF tbl fr] by blast
  qed
qed

lemma take_snapshot_ok: "db_ok d \<Longrightarrow> take_snapshot s up clk1 clk2 d = Inr (x, d') \<Longrightarrow> db_ok d'"
  by (frule (1) snapshot_dict) (auto simp: db_ok_def)

lemma snapshot_captures:
  assumes ok: "db_ok d" and res: "take_snapshot s up clk1 clk2 d = Inr (x, d')"
    and mem: "r \<in> set (db_effects d)" and sel: "snapshot_selects s (int_or up clk1) r"
  shows "captured_effect (tbl_lookup snapshot_pk (db_snapshots d') s) (e_idempotency_key r) =
    Some (captured_of r)"
proof -
  let ?rows = "filter (snapshot_selects s (int_or up clk1)) (db_effects d)"
  have "tbl_ok effect_pk ?rows" using ok by (simp add: db_ok_def tbl_ok_filter)
  then have "distinct (map e_idempotency_key ?rows)"
    by (rule distinct_keys_of_session [where s = s]) (simp add: snapshot_selects_def)
  then have "map_of (capture_rows ?rows) (e_idempotency_key r) = Some (captured_of r)"
    by (rule capture_rows_mem) (use mem sel in simp)
  with snapshot_dict [OF ok res] show ?thesis
    by (auto simp: captured_effect_def dict_update_lookup capture_rows_distinct)
qed

lemma snapshot_grows:
  assumes ok: "db_ok d" and res: "take_snapshot s up clk1 clk2 d = Inr (x, d')"
    and old: "captured_effect (tbl_lookup snapshot_pk (db_snapshots d) s) k \<noteq> None"
  shows "captured_effect (tbl_lookup snapshot_pk (db_snapshots d') s) k \<noteq> None"
  using snapshot_dict [OF ok res] old
  by (auto simp: captured_effect_def dict_update_lookup capture_rows_distinct split: option.splits)

section \<open>What continue-as-new keeps\<close>

lemma carry_row_pk [simp]: "value_pk (carry_row st now r) = value_pk r"
  by (simp add: carry_row_def value_pk_def)

lemma carry_state_spec:
  assumes ok: "db_ok d"
  shows "\<exists>d' r. carry_state ns key st now d = Inr d' \<and> db_ok d' \<and>
    get_value ns key d' = Inr (Some r) \<and> v_value_json r = st \<and>
    v_version r = stored_version d ns key + 1 \<and> (\<exists>vs. d' = d\<lparr>db_values := vs\<rparr>)"
proof (cases "tbl_lookup value_pk (db_values d) (ns, key)")
  case None
  let ?row = "\<lparr>v_namespace = ns, v_key = key, v_value_json = st, v_version = 1, v_ts_ms = now,
      v_writer = Some ''continue_as_new'', v_deleted = False\<rparr>"
  let ?d' = "d\<lparr>db_values := tbl_insert ?row (db_values d)\<rparr>"
  have pk: "value_pk ?row = (ns, key)" by (simp add: value_pk_def)
  have "carry_state ns key st now d = Inr ?d'"
    using None get_value_eq [OF ok, of ns key] by (simp add: carry_state_def get_value_def)
  moreover have ok': "db_ok ?d'"
    using ok None by (auto simp: db_ok_def tbl_insert_def tbl_ok_snoc value_pk_def)
  moreover have "tbl_lookup value_pk (db_values ?d') (ns, key) = Some ?row"
    using kv.insert_then_get [of "db_values d" ?row] ok None by (simp add: pk db_ok_def)
  ultimately show ?thesis using None by (auto simp: get_value_eq stored_version_def)
next
  case (Some r)
  let ?d' = "d\<lparr>db_values := tbl_modify value_pk (ns, key) (carry_row st now) (db_values d)\<rparr>"
  have "carry_state ns key st now d = Inr ?d'"
    using Some get_value_eq [OF ok, of ns key] by (simp add: carry_state_def get_value_def)
  moreover have ok': "db_ok ?d'"
    using ok by (auto simp: db_ok_def tbl_modify_def list_all_iff carry_row_def int_or_def
        intro!: tbl_ok_map [THEN iffD2] simp: value_pk_def)
  moreover have "tbl_lookup value_pk (db_values ?d') (ns, key) = Some (carry_row st now r)"
    using kv.modify_same [of "db_values d" "carry_row st now"] ok Some by (simp add: db_ok_def)
  ultimately show ?thesis
    using Some by (auto simp: get_value_eq stored_version_def carry_row_def int_or_def)
qed

text \<open>The transaction in closed form: the effect prune, then the carried value.\<close>

lemma continue_as_new_cases:
  assumes ok: "db_ok d"
    and res: "continue_as_new s old new carried prune clk d = Inr (x, d')"
  shows "db_ok d' \<and> db_obligations d' = db_obligations d \<and> db_timers d' = db_timers d \<and>
    db_snapshots d' = db_snapshots d \<and>
    db_effects d' = (if prune then filter (\<lambda>r. \<not> retire_selects s old d r) (db_effects d)
                     else db_effects d) \<and>
    (carried \<noteq> JNull \<longrightarrow> (\<exists>r. get_value (carry_namespace s) new d' = Inr (Some r) \<and>
       v_value_json r = carried \<and> v_version r = stored_version d (carry_namespace s) new + 1)) \<and>
    (carried = JNull \<longrightarrow> db_values d' = db_values d)"
proof -
  let ?d1 = "if prune then d\<lparr>db_effects := filter (\<lambda>r. \<not> retire_selects s old d r) (db_effects d)\<rparr> else d"
  have ok1: "db_ok ?d1" using db_ok_filter_effects [OF ok] ok by simp
  have v1: "stored_version ?d1 ns k = stored_version d ns k" for ns k
    by (simp add: stored_version_def)
  show ?thesis
  proof (cases "carried = JNull")
    case True
    with res have "d' = ?d1"
      by (auto simp: continue_as_new_def delete_where_def Let_def split: if_splits)
    with True ok1 show ?thesis by simp
  next
    case False
    from carry_state_spec [OF ok1, of "carry_namespace s" new carried clk] obtain d2 r vs where
      d2: "carry_state (carry_namespace s) new carried clk ?d1 = Inr d2" "db_ok d2"
        "get_value (carry_namespace s) new d2 = Inr (Some r)" "v_value_json r = carried"
        "v_version r = stored_version d (carry_namespace s) new + 1" "d2 = ?d1\<lparr>db_values := vs\<rparr>"
      unfolding v1 by blast
    with res False have "d' = d2"
      by (auto simp: continue_as_new_def delete_where_def Let_def split: if_splits)
    with d2 False show ?thesis by auto
  qed
qed

lemma continue_as_new_total:
  assumes "db_ok d"
  shows "\<exists>x d'. continue_as_new s old new carried prune clk d = Inr (x, d')"
proof -
  have "db_ok (if prune then d\<lparr>db_effects := filter (\<lambda>r. \<not> retire_selects s old d r) (db_effects d)\<rparr> else d)"
    using db_ok_filter_effects [OF assms] assms by simp
  from carry_state_spec [OF this, of "carry_namespace s" new carried clk] show ?thesis
    by (auto simp: continue_as_new_def delete_where_def Let_def split: if_splits)
qed

text \<open>
  The fallback in general: whatever happened to the live row since, as long as the
  snapshots are those \<open>take_snapshot\<close> left.
\<close>

lemma snapshot_answers:
  assumes ok: "db_ok d" and snap: "take_snapshot s up clk1 clk2 d = Inr (x, d1)"
    and mem: "r \<in> set (db_effects d)" and sel: "snapshot_selects s (int_or up clk1) r"
    and id: "begin_id a = effect_pk r" and acc: "\<not> begin_refused a"
    and ok2: "db_ok d2" and snaps: "db_snapshots d2 = db_snapshots d1"
    and gone: "tbl_lookup effect_pk (db_effects d2) (begin_id a) = None"
  shows "begin_effect a clk d2 = Inr (forget_dispatch r, d2)"
proof -
  have s: "begin_session a = s" and key: "begin_key a = e_idempotency_key r"
    using id sel by (auto simp: begin_id_def begin_session_def effect_pk_def snapshot_selects_def
        effect_session_def)
  with snapshot_captures [OF ok snap mem sel] snaps
  have "captured_effect (tbl_lookup snapshot_pk (db_snapshots d2) (begin_session a)) (begin_key a) =
      Some (captured_of r)" by simp
  with ok2 acc gone id show ?thesis by (simp add: begin_effect_cases snapshot_record_captured)
qed

section \<open>Properties\<close>

text \<open>
  C23. A snapshot shields replay: after \<open>take_snapshot\<close>, with the live row of a captured
  effect gone and the snapshots untouched, \<open>begin_effect\<close> on its key writes nothing and
  returns the row as it was, status, request, response and error included, less the
  bookkeeping of the dispatch protocol.
\<close>

theorem snapshot_shields_replay:
  assumes "db_ok d" and "take_snapshot s up clk1 clk2 d = Inr (x, d1)"
    and "r \<in> set (db_effects d)" and "snapshot_selects s (int_or up clk1) r"
    and "begin_id a = effect_pk r" and "\<not> begin_refused a"
    and "db_ok d2" and "db_snapshots d2 = db_snapshots d1"
    and "get_effect (begin_id a) d2 = Inr None"
  shows "begin_effect a clk d2 = Inr (forget_dispatch r, d2)"
  using assms by (intro snapshot_answers) (simp_all add: get_effect_eq)

theorem snapshot_shields_replay_witness:
  "let d1 = snd (projr (take_snapshot sample_session 250 0 260 sample_db));
       d2 = d1\<lparr>db_effects := []\<rparr>
   in begin_effect (begin_defaults ''app'' ''user'' ''s1'' ''inv'' 1 ''mail'') 300 d2 =
        Inr (forget_dispatch sample_done, d2)"
proof -
  let ?a = "begin_defaults ''app'' ''user'' ''s1'' ''inv'' 1 ''mail''"
  obtain x d1 where snap: "take_snapshot sample_session 250 0 260 sample_db = Inr (x, d1)"
    by (simp add: take_snapshot_def snapshot_insert_violation_def fk_violated_def Let_def
        sample_session_def snapshot_pk_def) (simp add: sample_db_def sample_session_def)
  have ok2: "db_ok (d1\<lparr>db_effects := []\<rparr>)"
    using take_snapshot_ok [OF sample_db_ok snap] by (simp add: db_ok_def business_unique_def)
  have sel: "snapshot_selects sample_session (int_or 250 0) sample_done"
    by (simp add: snapshot_selects_def int_or_def) (simp add: sample_done_def)
  have id: "begin_id ?a = effect_pk sample_done" by code_simp
  have "begin_effect ?a 300 (d1\<lparr>db_effects := []\<rparr>) = Inr (forget_dispatch sample_done, d1\<lparr>db_effects := []\<rparr>)"
    by (rule snapshot_shields_replay [OF sample_db_ok snap _ sel id _ ok2])
       (simp_all add: get_effect_def begin_refused_def begin_defaults_def)
  with snap show ?thesis by (simp add: Let_def)
qed

text \<open>
  Snapshots are cumulative: a key captured once stays captured through every later
  snapshot of the session.
\<close>

lemma snapshot_cumulative:
  assumes "db_ok d" and "take_snapshot s up clk1 clk2 d = Inr (x, d')"
    and "captured_effect (tbl_lookup snapshot_pk (db_snapshots d) s) k \<noteq> None"
  shows "captured_effect (tbl_lookup snapshot_pk (db_snapshots d') s) k \<noteq> None"
  using assms by (rule snapshot_grows)

text \<open>
  Continue-as-new always succeeds, and its transaction deletes exactly the terminal,
  unpinned effects of the retired invocation: all other effects, and all obligations,
  timers and snapshots, stay. State that was carried is the value the new invocation
  reads, at the next version.
\<close>

lemma continue_as_new_retires_exactly:
  assumes "db_ok d"
  shows "\<exists>x d'. continue_as_new s old new carried True clk d = Inr (x, d') \<and> db_ok d' \<and>
    db_effects d' = filter (\<lambda>r. \<not> (effect_session r = s \<and> e_invocation_id r = old \<and>
                                   terminal_effect r \<and> \<not> pinned d r)) (db_effects d) \<and>
    db_obligations d' = db_obligations d \<and> db_timers d' = db_timers d \<and> db_snapshots d' = db_snapshots d \<and>
    (if carried = JNull then db_values d' = db_values d
     else \<exists>v. get_value (carry_namespace s) new d' = Inr (Some v) \<and> v_value_json v = carried \<and>
            v_version v = stored_version d (carry_namespace s) new + 1)"
proof -
  obtain x d' where run: "continue_as_new s old new carried True clk d = Inr (x, d')"
    using continue_as_new_total [OF assms] by blast
  from continue_as_new_cases [OF assms run] run show ?thesis
    by (auto simp: retire_selects_def [abs_def])
qed

end
