(* ===== verification/Compaction.thy ===== *)
theory Compaction
  imports Snapshots
begin

text \<open>
  The compactor (\<open>compact.py\<close>): the policy and result records, the search for sessions
  that can be archived whole, and \<open>compact_once\<close> with its four steps in the order of the
  code (session archival, terminal obligations, fired timers, terminal effects that no
  active obligation pins), in one transaction. The lemmas say what a tick can never
  delete, that the counters add up, and that \<open>db_ok\<close> is kept.
\<close>

section \<open>Policy and result\<close>

record CompactionPolicy =
  effect_ttl_ms :: int
  session_ttl_ms :: int
  archive_terminal_obligations :: bool
  archive_fired_timers :: bool
  max_per_tick :: nat

definition default_policy :: CompactionPolicy where
  "default_policy = \<lparr>effect_ttl_ms = 7 * 24 * 60 * 60 * 1000,
     session_ttl_ms = 30 * 24 * 60 * 60 * 1000, archive_terminal_obligations = True,
     archive_fired_timers = True, max_per_tick = 1000\<rparr>"

record CompactionResult =
  effects_pruned :: int
  obligations_pruned :: int
  timers_pruned :: int
  sessions_archived :: int

definition no_result :: CompactionResult where
  "no_result = \<lparr>effects_pruned = 0, obligations_pruned = 0, timers_pruned = 0, sessions_archived = 0\<rparr>"

definition total :: "CompactionResult \<Rightarrow> int" where
  "total r = effects_pruned r + obligations_pruned r + timers_pruned r + sessions_archived r"

section \<open>Sessions that can be archived\<close>

text \<open>
  The grouped subquery: the sessions that have an effect, each with the latest \<open>ts_ms\<close> of
  its effects. The query has no \<open>ORDER BY\<close>, so which groups its \<open>LIMIT\<close> keeps is the
  engine's choice; here they come in the order of each session's last effect, and no
  property depends on it.
\<close>

fun max_of :: "int list \<Rightarrow> int" where
  "max_of [] = 0"
| "max_of [x] = x"
| "max_of (x # xs) = max x (max_of xs)"

definition latest_effects :: "db \<Rightarrow> (session_key \<times> int) list" where
  "latest_effects d =
     map (\<lambda>s. (s, max_of (map e_ts_ms (filter (\<lambda>r. effect_session r = s) (db_effects d)))))
       (remdups (map effect_session (db_effects d)))"

definition active_count :: "session_key \<Rightarrow> db \<Rightarrow> nat" where
  "active_count s d = length (filter (\<lambda>q. obligation_session q = s \<and> active_obligation q) (db_obligations d))"

definition stuck_count :: "session_key \<Rightarrow> db \<Rightarrow> nat" where
  "stuck_count s d = length (filter (\<lambda>q. obligation_session q = s \<and>
     o_status q = ObligationStatus_STUCK) (db_obligations d))"

definition live_timer_count :: "session_key \<Rightarrow> db \<Rightarrow> nat" where
  "live_timer_count s d = length (filter (\<lambda>t. timer_session t = s \<and> \<not> t_fired t) (db_timers d))"

definition find_archivable_sessions :: "int \<Rightarrow> nat \<Rightarrow> db \<Rightarrow> session_key list" where
  "find_archivable_sessions session_cutoff limit d =
     filter (\<lambda>s. \<not> active_count s d > 0 \<and> \<not> stuck_count s d > 0 \<and> \<not> live_timer_count s d > 0)
       (take limit (map fst (filter (\<lambda>(s, max_ts). max_ts < session_cutoff) (latest_effects d))))"

section \<open>One tick\<close>

definition archive_session :: "session_key \<Rightarrow> CompactionResult \<times> db \<Rightarrow> CompactionResult \<times> db" where
  "archive_session s st =
     (case st of (res, d) \<Rightarrow>
        (let (ne, es) = delete_where (\<lambda>r. effect_session r = s) (db_effects d);
             (no, qs) = delete_where (\<lambda>r. obligation_session r = s) (db_obligations d);
             (nt, ts) = delete_where (\<lambda>r. timer_session r = s) (db_timers d)
         in (res\<lparr>effects_pruned := effects_pruned res + int ne,
                 obligations_pruned := obligations_pruned res + int no,
                 timers_pruned := timers_pruned res + int nt,
                 sessions_archived := sessions_archived res + 1\<rparr>,
             d\<lparr>db_effects := es, db_obligations := qs, db_timers := ts\<rparr>)))"

definition prune_obligations :: "bool \<Rightarrow> int \<Rightarrow> CompactionResult \<times> db \<Rightarrow> CompactionResult \<times> db" where
  "prune_obligations on cutoff st =
     (case st of (res, d) \<Rightarrow>
        if on then
          (let (n, qs) = delete_where (\<lambda>r. o_status r = ObligationStatus_COMPENSATED \<and>
                           o_ts_ms r < cutoff) (db_obligations d)
           in (res\<lparr>obligations_pruned := obligations_pruned res + int n\<rparr>, d\<lparr>db_obligations := qs\<rparr>))
        else (res, d))"

definition prune_timers :: "bool \<Rightarrow> int \<Rightarrow> CompactionResult \<times> db \<Rightarrow> CompactionResult \<times> db" where
  "prune_timers on cutoff st =
     (case st of (res, d) \<Rightarrow>
        if on then
          (let (n, ts) = delete_where (\<lambda>r. t_fired r \<and> t_created_at_ms r < cutoff) (db_timers d)
           in (res\<lparr>timers_pruned := timers_pruned res + int n\<rparr>, d\<lparr>db_timers := ts\<rparr>))
        else (res, d))"

definition effect_prunable :: "int \<Rightarrow> db \<Rightarrow> StorageEffect \<Rightarrow> bool" where
  "effect_prunable cutoff d r \<longleftrightarrow> terminal_effect r \<and> e_ts_ms r < cutoff \<and> \<not> pinned d r"

definition prune_effects :: "int \<Rightarrow> CompactionResult \<times> db \<Rightarrow> CompactionResult \<times> db" where
  "prune_effects cutoff st =
     (case st of (res, d) \<Rightarrow>
        (let (n, es) = delete_where (effect_prunable cutoff d) (db_effects d)
         in (res\<lparr>effects_pruned := effects_pruned res + int n\<rparr>, d\<lparr>db_effects := es\<rparr>)))"

definition compact_once :: "CompactionPolicy \<Rightarrow> int \<Rightarrow> int \<Rightarrow> db \<Rightarrow> CompactionResult \<times> db" where
  "compact_once policy now_ms clk d =
     (let now = int_or now_ms clk;
          effect_cutoff = now - effect_ttl_ms policy;
          session_cutoff = now - session_ttl_ms policy;
          sessions = find_archivable_sessions session_cutoff (max_per_tick policy) d
      in prune_effects effect_cutoff
           (prune_timers (archive_fired_timers policy) effect_cutoff
             (prune_obligations (archive_terminal_obligations policy) effect_cutoff
               (fold archive_session sessions (no_result, d)))))"

text \<open>
  What a tick has reported pruned so far is what the tables lost since its start.
\<close>

definition balanced :: "db \<Rightarrow> CompactionResult \<times> db \<Rightarrow> bool" where
  "balanced d0 st \<longleftrightarrow> (case st of (res, d) \<Rightarrow>
     int (length (db_effects d0)) = int (length (db_effects d)) + effects_pruned res \<and>
     int (length (db_obligations d0)) = int (length (db_obligations d)) + obligations_pruned res \<and>
     int (length (db_timers d0)) = int (length (db_timers d)) + timers_pruned res)"

section \<open>What the steps delete\<close>

lemma archive_db:
  "snd (fold archive_session ss (res, d)) =
     d\<lparr>db_effects := filter (\<lambda>r. effect_session r \<notin> set ss) (db_effects d),
       db_obligations := filter (\<lambda>r. obligation_session r \<notin> set ss) (db_obligations d),
       db_timers := filter (\<lambda>r. timer_session r \<notin> set ss) (db_timers d)\<rparr>"
proof (induction ss arbitrary: res d)
  case (Cons s ss)
  obtain res' where "archive_session s (res, d) = (res',
      d\<lparr>db_effects := filter (\<lambda>r. effect_session r \<noteq> s) (db_effects d),
        db_obligations := filter (\<lambda>r. obligation_session r \<noteq> s) (db_obligations d),
        db_timers := filter (\<lambda>r. timer_session r \<noteq> s) (db_timers d)\<rparr>)"
    by (simp add: archive_session_def delete_where_def Let_def)
  then show ?case by (simp add: Cons.IH conj_commute)
qed simp

lemma find_archivable_iff: "s \<in> set (find_archivable_sessions cutoff n d) \<Longrightarrow>
    active_count s d = 0 \<and> stuck_count s d = 0 \<and> live_timer_count s d = 0"
  by (simp add: find_archivable_sessions_def)

text \<open>The database a tick leaves, table by table.\<close>

lemma compact_once_db:
  fixes policy :: CompactionPolicy and now_ms clk :: int and d :: db
  defines "now \<equiv> int_or now_ms clk"
  defines "ss \<equiv> find_archivable_sessions (now - session_ttl_ms policy) (max_per_tick policy) d"
  defines "qs \<equiv> filter (\<lambda>q. obligation_session q \<notin> set ss \<and>
      \<not> (archive_terminal_obligations policy \<and> o_status q = ObligationStatus_COMPENSATED \<and>
         o_ts_ms q < now - effect_ttl_ms policy)) (db_obligations d)"
  defines "ts \<equiv> filter (\<lambda>t. timer_session t \<notin> set ss \<and>
      \<not> (archive_fired_timers policy \<and> t_fired t \<and> t_created_at_ms t < now - effect_ttl_ms policy))
      (db_timers d)"
  shows "snd (compact_once policy now_ms clk d) = d\<lparr>
      db_effects := filter (\<lambda>r. effect_session r \<notin> set ss \<and>
         \<not> effect_prunable (now - effect_ttl_ms policy) (d\<lparr>db_obligations := qs\<rparr>) r) (db_effects d),
      db_obligations := qs, db_timers := ts\<rparr>"
proof -
  obtain res1 where a: "fold archive_session ss (no_result, d) = (res1, d\<lparr>
       db_effects := filter (\<lambda>r. effect_session r \<notin> set ss) (db_effects d),
       db_obligations := filter (\<lambda>r. obligation_session r \<notin> set ss) (db_obligations d),
       db_timers := filter (\<lambda>r. timer_session r \<notin> set ss) (db_timers d)\<rparr>)"
    using archive_db [of ss no_result d] by (metis prod.collapse)
  show ?thesis
    unfolding compact_once_def Let_def now_def [symmetric] ss_def [symmetric] a
    by (simp add: prune_obligations_def prune_timers_def prune_effects_def delete_where_def Let_def
        qs_def ts_def effect_prunable_def pinned_def conj_ac cong: filter_cong)
qed

section \<open>The counters add up\<close>

lemma delete_where_count: "delete_where p rs = (n, rs') \<Longrightarrow> length rs = n + length rs'"
  using sum_length_filter_compl [of p rs] by (auto simp: delete_where_def)

lemma archive_balanced: "balanced d0 st \<Longrightarrow> balanced d0 (archive_session s st)"
  by (auto simp: balanced_def archive_session_def Let_def split: prod.splits
      dest!: delete_where_count)

lemma archives_balanced: "balanced d0 st \<Longrightarrow> balanced d0 (fold archive_session ss st)"
  by (induction ss arbitrary: st) (simp_all add: archive_balanced)

lemma prunes_balanced: "balanced d0 st \<Longrightarrow> balanced d0 (prune_obligations b c st)"
  "balanced d0 st \<Longrightarrow> balanced d0 (prune_timers b c st)"
  "balanced d0 st \<Longrightarrow> balanced d0 (prune_effects c st)"
  by (auto simp: balanced_def prune_obligations_def prune_timers_def prune_effects_def Let_def
      split: prod.splits dest!: delete_where_count)

lemma compact_once_balanced: "balanced d (compact_once policy now_ms clk d)"
proof -
  have "balanced d (no_result, d)" by (simp add: balanced_def no_result_def)
  then show ?thesis
    unfolding compact_once_def Let_def by (intro prunes_balanced archives_balanced)
qed

section \<open>What a tick keeps\<close>

lemma compact_once_ok: "db_ok d \<Longrightarrow> db_ok (snd (compact_once policy now_ms clk d))"
  unfolding compact_once_db
  by (auto simp: db_ok_def tbl_ok_filter business_unique_filter list_all_iff)

lemma compact_keeps_snapshots:
  "db_snapshots (snd (compact_once policy now_ms clk d)) = db_snapshots d"
  "db_values (snd (compact_once policy now_ms clk d)) = db_values d"
  by (simp_all add: compact_once_db)

lemma count_zero: "length (filter p xs) = 0 \<Longrightarrow> x \<in> set xs \<Longrightarrow> \<not> p x"
  by (auto simp: filter_empty_conv)

lemma archived_session_idle:
  assumes "s \<in> set (find_archivable_sessions cutoff n d)"
  shows "q \<in> set (db_obligations d) \<Longrightarrow> obligation_session q = s \<Longrightarrow>
      \<not> active_obligation q \<and> o_status q \<noteq> ObligationStatus_STUCK"
    and "t \<in> set (db_timers d) \<Longrightarrow> timer_session t = s \<Longrightarrow> t_fired t"
  using find_archivable_iff [OF assms]
  by (auto simp: active_count_def stuck_count_def live_timer_count_def filter_empty_conv)

lemma compact_keeps_obligation:
  assumes mem: "q \<in> set (db_obligations d)"
    and live: "active_obligation q \<or> o_status q = ObligationStatus_STUCK"
  shows "q \<in> set (db_obligations (snd (compact_once policy now_ms clk d)))"
proof -
  let ?ss = "find_archivable_sessions (int_or now_ms clk - session_ttl_ms policy) (max_per_tick policy) d"
  have "obligation_session q \<notin> set ?ss"
    using archived_session_idle(1) [of "obligation_session q", OF _ mem] live by blast
  moreover have "o_status q \<noteq> ObligationStatus_COMPENSATED"
    using live by (auto simp: active_obligation_def)
  ultimately show ?thesis using mem by (simp add: compact_once_db)
qed

lemma compact_keeps_timer:
  assumes "t \<in> set (db_timers d)" and "\<not> t_fired t"
  shows "t \<in> set (db_timers (snd (compact_once policy now_ms clk d)))"
proof -
  let ?ss = "find_archivable_sessions (int_or now_ms clk - session_ttl_ms policy) (max_per_tick policy) d"
  have "timer_session t \<notin> set ?ss"
    using archived_session_idle(2) [of "timer_session t", OF _ assms(1)] assms(2) by blast
  with assms show ?thesis by (simp add: compact_once_db)
qed

lemma compact_keeps_pinned:
  assumes mem: "r \<in> set (db_effects d)" and q: "q \<in> set (db_obligations d)"
    and act: "active_obligation q" and s: "obligation_session q = effect_session r"
    and key: "o_effect_key q = e_idempotency_key r"
  shows "r \<in> set (db_effects (snd (compact_once policy now_ms clk d)))"
proof -
  let ?d' = "snd (compact_once policy now_ms clk d)"
  let ?ss = "find_archivable_sessions (int_or now_ms clk - session_ttl_ms policy) (max_per_tick policy) d"
  have "q \<in> set (db_obligations ?d')" using compact_keeps_obligation [OF q] act by blast
  moreover have "o_session_id q = e_session_id r"
    using s by (simp add: obligation_session_def effect_session_def)
  ultimately have "pinned (d\<lparr>db_obligations := db_obligations ?d'\<rparr>) r"
    using act key by (auto simp: pinned_def list_ex_iff)
  moreover have "effect_session r \<notin> set ?ss"
    using archived_session_idle(1) [of "effect_session r", OF _ q s] act by blast
  ultimately show ?thesis using mem by (simp add: compact_once_db effect_prunable_def)
qed

lemma compact_only_deletes:
  "set (db_effects (snd (compact_once policy now_ms clk d))) \<subseteq> set (db_effects d)"
  "set (db_obligations (snd (compact_once policy now_ms clk d))) \<subseteq> set (db_obligations d)"
  "set (db_timers (snd (compact_once policy now_ms clk d))) \<subseteq> set (db_timers d)"
  by (auto simp: compact_once_db)

section \<open>What a tick may delete\<close>

lemma max_of_upper: "x \<in> set xs \<Longrightarrow> x \<le> max_of xs"
  by (induction xs rule: max_of.induct) auto

lemma archivable_old:
  assumes s: "s \<in> set (find_archivable_sessions cutoff n d)" and r: "r \<in> set (db_effects d)"
    and eq: "effect_session r = s"
  shows "e_ts_ms r < cutoff"
proof -
  let ?ts = "map e_ts_ms (filter (\<lambda>r. effect_session r = s) (db_effects d))"
  from s have "max_of ?ts < cutoff"
    by (auto simp: find_archivable_sessions_def latest_effects_def dest!: in_set_takeD)
  moreover have "e_ts_ms r \<in> set ?ts" using r eq by auto
  ultimately show ?thesis using max_of_upper by fastforce
qed

section \<open>Properties\<close>

text \<open>
  C24. What a human or a compensator still needs survives any tick, under any policy: every
  obligation that is pending, committed or stuck, every timer that has not fired, every
  effect an active obligation of its session refers to, and every snapshot and value.
\<close>

theorem compaction_keeps_live_work:
  "let d' = snd (compact_once policy now clk d) in
     {q \<in> set (db_obligations d). active_obligation q \<or> o_status q = ObligationStatus_STUCK}
       \<subseteq> set (db_obligations d')
     \<and> {t \<in> set (db_timers d). \<not> t_fired t} \<subseteq> set (db_timers d')
     \<and> {r \<in> set (db_effects d). \<exists>q. q \<in> set (db_obligations d) \<and> active_obligation q \<and>
          obligation_session q = effect_session r \<and> o_effect_key q = e_idempotency_key r}
       \<subseteq> set (db_effects d')
     \<and> db_snapshots d' = db_snapshots d \<and> db_values d' = db_values d"
  unfolding Let_def
  by (auto intro: compact_keeps_obligation compact_keeps_timer compact_keeps_pinned
      simp: compact_keeps_snapshots)

text \<open>
  What a tick deletes of the effect journal: an effect goes only if it is terminal,
  older than the effect TTL and unpinned, or if its whole session is idle: every effect
  of it older than the session TTL, no obligation active or stuck, no timer waiting.
\<close>

lemma compaction_deletes_only_expired:
  assumes "r \<in> set (db_effects d)" and "r \<notin> set (db_effects (snd (compact_once policy now clk d)))"
  shows "terminal_effect r \<and> e_ts_ms r < int_or now clk - effect_ttl_ms policy \<or>
    (\<forall>r'. r' \<in> set (db_effects d) \<and> effect_session r' = effect_session r \<longrightarrow>
       e_ts_ms r' < int_or now clk - session_ttl_ms policy) \<and>
    (\<forall>q. q \<in> set (db_obligations d) \<and> obligation_session q = effect_session r \<longrightarrow>
       \<not> active_obligation q \<and> o_status q \<noteq> ObligationStatus_STUCK) \<and>
    (\<forall>t. t \<in> set (db_timers d) \<and> timer_session t = effect_session r \<longrightarrow> t_fired t)"
proof -
  let ?ss = "find_archivable_sessions (int_or now clk - session_ttl_ms policy) (max_per_tick policy) d"
  from assms consider "effect_session r \<in> set ?ss" |
    "terminal_effect r" "e_ts_ms r < int_or now clk - effect_ttl_ms policy"
    by (auto simp: compact_once_db effect_prunable_def)
  then show ?thesis
  proof cases
    case 1
    then show ?thesis using archivable_old [OF 1] archived_session_idle [OF 1] by blast
  qed blast
qed

text \<open>
  The counters of a tick add up: what it reports as pruned of effects, obligations and
  timers, archival included, is what the tables lost.
\<close>

lemma compaction_counters_add_up:
  "case compact_once policy now clk d of (res, d') \<Rightarrow>
     effects_pruned res = int (length (db_effects d)) - int (length (db_effects d')) \<and>
     obligations_pruned res = int (length (db_obligations d)) - int (length (db_obligations d')) \<and>
     timers_pruned res = int (length (db_timers d)) - int (length (db_timers d'))"
  using compact_once_balanced [of d policy now clk] by (auto simp: balanced_def split: prod.splits)

text \<open>
  A tick is not idempotent at a fixed time: when it prunes a session's newest, terminal
  effect, the session can become archivable, and the next tick at the same time deletes the
  older effect, here one in status \<open>unknown\<close>, that the first one had kept.
\<close>

lemma compaction_second_tick_deletes_more:
  "let policy = \<lparr>effect_ttl_ms = 10, session_ttl_ms = 500, archive_terminal_obligations = True,
                 archive_fired_timers = True, max_per_tick = 1000\<rparr>;
       old = sample_pending\<lparr>e_status := EffectStatus_UNKNOWN\<rparr>;
       d0 = sample_db\<lparr>db_effects := [old, sample_done], db_obligations := [], db_timers := []\<rparr>;
       d1 = snd (compact_once policy 650 0 d0);
       d2 = snd (compact_once policy 650 0 d1)
   in db_effects d1 = [old] \<and> db_effects d2 = []"
  by code_simp

end
