(* ===== verification/ObligationLedger.thy ===== *)
theory ObligationLedger
  imports Samples
begin

text \<open>
  The obligation ledger of \<open>TapeSessionService\<close>: registering a compensation, the
  per-session and cross-session feeds, the claim (one conditional \<open>UPDATE\<close> that also
  reclaims an expired one), the recording of failed attempts up to \<open>max_attempts\<close>, and
  the terminal transition. The lemmas give each operation through the row's \<open>seq\<close>, that
  it keeps \<open>db_ok\<close>, and the facts of the obligation lease.
\<close>

section \<open>Registering\<close>

record register_args =
  r_app_name :: string
  r_user_id :: string
  r_session_id :: string
  r_invocation_id :: string
  r_effect_key :: string
  r_kind :: string
  r_payload_json :: json
  r_compensator_ref :: "string option"
  r_max_attempts :: int

definition register_uq :: "register_args \<Rightarrow> session_key \<times> string \<times> string" where
  "register_uq a = ((r_app_name a, r_user_id a, r_session_id a), r_effect_key a, r_kind a)"

definition registered_row :: "register_args \<Rightarrow> int \<Rightarrow> int \<Rightarrow> StorageObligation" where
  "registered_row a seq now = \<lparr>
     o_seq = seq, o_app_name = r_app_name a, o_user_id = r_user_id a,
     o_session_id = r_session_id a, o_invocation_id = r_invocation_id a,
     o_effect_key = r_effect_key a, o_kind = r_kind a,
     o_payload_json = r_payload_json a, o_status = ObligationStatus_PENDING,
     o_attempts = 0, o_max_attempts = int_or (r_max_attempts a) 5,
     o_next_attempt_at_ms = now, o_last_error = None, o_claimed_by = None,
     o_claim_expires_at_ms = 0, o_compensator_ref = r_compensator_ref a,
     o_result_json = JNull, o_ts_ms = now\<rparr>"

definition register_compensation :: "register_args \<Rightarrow> int \<Rightarrow> db \<Rightarrow> ObligationRecord outcome" where
  "register_compensation a clk d =
     (case one_or_none (filter (\<lambda>r. obligation_uq r = register_uq a) (db_obligations d)) of
        Inl e \<Rightarrow> Inl e
      | Inr (Some existing) \<Rightarrow> Inr (ObligationRecord_from_row existing, d)
      | Inr None \<Rightarrow>
          (let row = registered_row a (db_next_seq d) clk in
           case obligation_insert_violation d row of
             Some v \<Rightarrow> Inl (IntegrityError v)
           | None \<Rightarrow> Inr (ObligationRecord_from_row row,
                          d\<lparr>db_obligations := tbl_insert row (db_obligations d),
                            db_next_seq := db_next_seq d + 1\<rparr>)))"

section \<open>Feeds\<close>

definition list_obligations :: "session_key \<Rightarrow> bool \<Rightarrow> string \<Rightarrow> db \<Rightarrow> ObligationRecord list" where
  "list_obligations s only_unresolved status_filter d =
     map ObligationRecord_from_row
       (sort_key (\<lambda>r. - o_seq r)
         (filter (\<lambda>r. obligation_session r = s \<and>
            (if status_filter \<noteq> [] then o_status r = status_filter
             else if only_unresolved then
               List.member [ObligationStatus_PENDING, ObligationStatus_COMMITTED] (o_status r)
             else True)) (db_obligations d)))"

definition obligation_ready :: "int \<Rightarrow> StorageObligation \<Rightarrow> bool" where
  "obligation_ready now r \<longleftrightarrow>
     o_status r = ObligationStatus_PENDING \<and> o_next_attempt_at_ms r \<le> now"

definition obligation_expired :: "int \<Rightarrow> StorageObligation \<Rightarrow> bool" where
  "obligation_expired now r \<longleftrightarrow>
     o_status r = ObligationStatus_COMMITTED \<and> o_claim_expires_at_ms r \<le> now"

definition list_unresolved_obligations ::
    "int \<Rightarrow> nat \<Rightarrow> bool \<Rightarrow> bool \<Rightarrow> bool \<Rightarrow> int \<Rightarrow> db \<Rightarrow> ObligationRecord list" where
  "list_unresolved_obligations now_ms limit include_pending include_stuck
       include_committed_expired clk d =
     (let now = int_or now_ms clk;
          conds = (if include_pending then [obligation_ready now] else []) @
                  (if include_committed_expired then [obligation_expired now] else []) @
                  (if include_stuck then [\<lambda>r. o_status r = ObligationStatus_STUCK] else [])
      in if conds = [] then []
         else map ObligationRecord_from_row
                (order_limit (\<lambda>r. - o_seq r) limit
                  (filter (\<lambda>r. list_ex (\<lambda>c. c r) conds) (db_obligations d))))"

section \<open>Claiming and resolving\<close>

definition obligation_claimable :: "int \<Rightarrow> StorageObligation \<Rightarrow> bool" where
  "obligation_claimable now r \<longleftrightarrow> obligation_ready now r \<or> obligation_expired now r"

definition obligation_claim_row :: "string \<Rightarrow> int \<Rightarrow> StorageObligation \<Rightarrow> StorageObligation" where
  "obligation_claim_row claimer expires r = r\<lparr>o_status := ObligationStatus_COMMITTED,
     o_claimed_by := Some claimer, o_claim_expires_at_ms := expires\<rparr>"

definition claim_obligation ::
    "int \<Rightarrow> string \<Rightarrow> int \<Rightarrow> int \<Rightarrow> int \<Rightarrow> db \<Rightarrow> (bool \<times> ObligationRecord option) outcome" where
  "claim_obligation seq claimer lease_ttl_ms now_ms clk d =
     (let now = int_or now_ms clk;
          expires = now + lease_ttl_ms;
          (rowcount, qs) = update_where (\<lambda>r. o_seq r = seq \<and> obligation_claimable now r)
                             (obligation_claim_row claimer expires) (db_obligations d);
          acquired = (rowcount = 1)
      in (case one_or_none (filter (\<lambda>r. o_seq r = seq) qs) of
            Inl e \<Rightarrow> Inl e
          | Inr row \<Rightarrow> Inr ((acquired, map_option ObligationRecord_from_row row),
                           d\<lparr>db_obligations := qs\<rparr>)))"

definition obligation_attempt_row :: "string \<Rightarrow> int \<Rightarrow> int \<Rightarrow> StorageObligation \<Rightarrow> StorageObligation" where
  "obligation_attempt_row err next_at now r =
     (let r1 = r\<lparr>o_attempts := int_or (o_attempts r) 0 + 1, o_last_error := Some err,
                 o_claimed_by := None, o_claim_expires_at_ms := 0, o_ts_ms := now\<rparr>
      in if next_at \<le> 0 \<or> o_attempts r1 \<ge> o_max_attempts r1
         then r1\<lparr>o_status := ObligationStatus_STUCK, o_next_attempt_at_ms := 0\<rparr>
         else r1\<lparr>o_status := ObligationStatus_PENDING, o_next_attempt_at_ms := next_at\<rparr>)"

definition record_obligation_attempt ::
    "int \<Rightarrow> string \<Rightarrow> int \<Rightarrow> int \<Rightarrow> db \<Rightarrow> ObligationRecord option outcome" where
  "record_obligation_attempt seq err next_at clk d =
     (case one_or_none (filter (\<lambda>r. o_seq r = seq) (db_obligations d)) of
        Inl e \<Rightarrow> Inl e
      | Inr None \<Rightarrow> Inr (None, d)
      | Inr (Some row) \<Rightarrow>
          Inr (Some (ObligationRecord_from_row (obligation_attempt_row err next_at clk row)),
               d\<lparr>db_obligations := tbl_modify o_seq seq (obligation_attempt_row err next_at clk)
                                    (db_obligations d)\<rparr>))"

definition resolve_row :: "string \<Rightarrow> json \<Rightarrow> int \<Rightarrow> StorageObligation \<Rightarrow> StorageObligation" where
  "resolve_row st res now r = r\<lparr>o_status := st, o_result_json := res, o_claimed_by := None,
     o_claim_expires_at_ms := 0, o_ts_ms := now\<rparr>"

definition resolve_obligation ::
    "int \<Rightarrow> string \<Rightarrow> json \<Rightarrow> int \<Rightarrow> db \<Rightarrow> ObligationRecord option outcome" where
  "resolve_obligation seq st res clk d =
     (if \<not> List.member [ObligationStatus_COMPENSATED, ObligationStatus_STUCK] st then
        Inl (ValueError (''resolve_obligation: status must be COMPENSATED or STUCK, got '' @ repr_str st))
      else
        (case one_or_none (filter (\<lambda>r. o_seq r = seq) (db_obligations d)) of
           Inl e \<Rightarrow> Inl e
         | Inr None \<Rightarrow> Inr (None, d)
         | Inr (Some row) \<Rightarrow>
             Inr (Some (ObligationRecord_from_row (resolve_row st res clk row)),
                  d\<lparr>db_obligations := tbl_modify o_seq seq (resolve_row st res clk)
                                       (db_obligations d)\<rparr>)))"

definition obligation_try_claim :: "string \<Rightarrow> int \<Rightarrow> int \<Rightarrow> StorageObligation \<Rightarrow> StorageObligation option" where
  "obligation_try_claim c now ttl r =
     (if obligation_claimable now r then Some (obligation_claim_row c (now + ttl) r) else None)"

section \<open>Rows keep their identity\<close>

lemma obligation_claim_row_simps [row_simps, simp]:
  "o_seq (obligation_claim_row c ex r) = o_seq r"
  "o_status (obligation_claim_row c ex r) = ObligationStatus_COMMITTED"
  "o_claimed_by (obligation_claim_row c ex r) = Some c"
  "o_claim_expires_at_ms (obligation_claim_row c ex r) = ex"
  "o_attempts (obligation_claim_row c ex r) = o_attempts r"
  "o_max_attempts (obligation_claim_row c ex r) = o_max_attempts r"
  by (simp_all add: obligation_claim_row_def)

lemma obligation_attempt_row_simps [row_simps, simp]:
  "o_seq (obligation_attempt_row err nx now r) = o_seq r"
  "o_attempts (obligation_attempt_row err nx now r) = o_attempts r + 1"
  "o_max_attempts (obligation_attempt_row err nx now r) = o_max_attempts r"
  "o_claimed_by (obligation_attempt_row err nx now r) = None"
  "o_status (obligation_attempt_row err nx now r) =
     (if nx \<le> 0 \<or> o_attempts r + 1 \<ge> o_max_attempts r then ObligationStatus_STUCK
      else ObligationStatus_PENDING)"
  "o_next_attempt_at_ms (obligation_attempt_row err nx now r) =
     (if nx \<le> 0 \<or> o_attempts r + 1 \<ge> o_max_attempts r then 0 else nx)"
  by (simp_all add: obligation_attempt_row_def Let_def int_or_def)

lemma resolve_row_simps [row_simps, simp]:
  "o_seq (resolve_row st res now r) = o_seq r"
  "o_status (resolve_row st res now r) = st"
  "o_claimed_by (resolve_row st res now r) = None"
  "o_result_json (resolve_row st res now r) = res"
  by (simp_all add: resolve_row_def)

lemma obligation_claim_row_frame: "obligation_frame (obligation_claim_row c ex)"
  by (simp add: obligation_frame_def obligation_claim_row_def obligation_uq_def obligation_session_def)

lemma obligation_attempt_row_frame: "obligation_frame (obligation_attempt_row err nx now)"
  by (simp add: obligation_frame_def obligation_attempt_row_def obligation_uq_def
      obligation_session_def Let_def int_or_def)

lemma resolve_row_frame: "obligation_frame (resolve_row st res now)"
  by (simp add: obligation_frame_def resolve_row_def obligation_uq_def obligation_session_def)

lemma obligation_frame_seq: "obligation_frame f \<Longrightarrow> o_seq (f r) = o_seq r"
  by (simp add: obligation_frame_def)

lemma db_ok_modify_obligation: "db_ok d \<Longrightarrow> obligation_frame f \<Longrightarrow>
    db_ok (d\<lparr>db_obligations := tbl_modify o_seq k f (db_obligations d)\<rparr>)"
  unfolding tbl_modify_def by (rule db_ok_map_obligations)

section \<open>Operations through the sequence number\<close>

lemma obligation_by_seq: "db_ok d \<Longrightarrow>
    one_or_none (filter (\<lambda>r. o_seq r = k) (db_obligations d)) = Inr (tbl_lookup o_seq (db_obligations d) k)"
  by (simp add: one_or_none_by_key db_ok_def)

lemma obligation_by_uq: "db_ok d \<Longrightarrow>
    one_or_none (filter (\<lambda>r. obligation_uq r = u) (db_obligations d)) =
      Inr (tbl_lookup obligation_uq (db_obligations d) u)"
  by (simp add: one_or_none_by_key db_ok_def)

lemma registered_row_simps:
  "obligation_uq (registered_row a n now) = register_uq a"
  "o_seq (registered_row a n now) = n" "o_attempts (registered_row a n now) = 0"
  by (simp_all add: registered_row_def obligation_uq_def register_uq_def obligation_session_def)

lemma register_compensation_cases: "db_ok d \<Longrightarrow>
    register_compensation a clk d =
      (case tbl_lookup obligation_uq (db_obligations d) (register_uq a) of
         Some r \<Rightarrow> Inr (r, d)
       | None \<Rightarrow>
           (if fk_violated d (r_app_name a, r_user_id a, r_session_id a)
            then Inl (IntegrityError ForeignKey)
            else Inr (registered_row a (db_next_seq d) clk,
                   d\<lparr>db_obligations := tbl_insert (registered_row a (db_next_seq d) clk) (db_obligations d),
                     db_next_seq := db_next_seq d + 1\<rparr>)))"
proof -
  have uq: "obligation_uq (registered_row a n now) = register_uq a"
    and s: "obligation_session (registered_row a n now) = (r_app_name a, r_user_id a, r_session_id a)"
    for n now
    by (simp_all add: registered_row_simps) (simp add: registered_row_def obligation_session_def)
  assume "db_ok d"
  then show ?thesis
    using list_ex_pk [of obligation_uq "registered_row a (db_next_seq d) clk" "db_obligations d"]
    by (simp add: register_compensation_def obligation_by_uq obligation_insert_violation_def Let_def
        uq s split: option.split)
qed

lemma register_compensation_ok:
  assumes ok: "db_ok d" and res: "register_compensation a clk d = Inr (r, d')"
  shows "db_ok d'"
proof (cases "tbl_lookup obligation_uq (db_obligations d) (register_uq a)")
  case None
  let ?row = "registered_row a (db_next_seq d) clk"
  have "obligation_insert_violation d ?row = None"
    using res ok None
    by (auto simp: register_compensation_def obligation_by_uq Let_def split: option.splits)
  from db_ok_insert_obligation [OF ok this] have
    "db_ok (d\<lparr>db_obligations := tbl_insert ?row (db_obligations d), db_next_seq := db_next_seq d + 1\<rparr>)"
    by (simp add: registered_row_simps)
  with res ok None show ?thesis
    by (auto simp: register_compensation_cases split: if_splits)
next
  case (Some r)
  with assms show ?thesis by (simp add: register_compensation_cases)
qed

lemma record_obligation_attempt_cases: "db_ok d \<Longrightarrow>
    record_obligation_attempt q err nx clk d =
      (case tbl_lookup o_seq (db_obligations d) q of
         None \<Rightarrow> Inr (None, d)
       | Some r \<Rightarrow> Inr (Some (obligation_attempt_row err nx clk r),
           d\<lparr>db_obligations := tbl_modify o_seq q (obligation_attempt_row err nx clk) (db_obligations d)\<rparr>))"
  by (simp add: record_obligation_attempt_def obligation_by_seq split: option.split)

lemma record_obligation_attempt_ok:
  "db_ok d \<Longrightarrow> record_obligation_attempt q err nx clk d = Inr (r, d') \<Longrightarrow> db_ok d'"
  by (auto simp: record_obligation_attempt_cases intro: db_ok_modify_obligation
      obligation_attempt_row_frame split: option.splits)

lemma resolve_obligation_cases: "db_ok d \<Longrightarrow>
    resolve_obligation q st res clk d =
      (if \<not> List.member [ObligationStatus_COMPENSATED, ObligationStatus_STUCK] st then
         Inl (ValueError (''resolve_obligation: status must be COMPENSATED or STUCK, got '' @ repr_str st))
       else case tbl_lookup o_seq (db_obligations d) q of
              None \<Rightarrow> Inr (None, d)
            | Some r \<Rightarrow> Inr (Some (resolve_row st res clk r),
                d\<lparr>db_obligations := tbl_modify o_seq q (resolve_row st res clk) (db_obligations d)\<rparr>))"
  by (simp add: resolve_obligation_def obligation_by_seq split: option.split)

lemma resolve_obligation_ok:
  "db_ok d \<Longrightarrow> resolve_obligation q st res clk d = Inr (r, d') \<Longrightarrow> db_ok d'"
  by (auto simp: resolve_obligation_cases intro: db_ok_modify_obligation resolve_row_frame
      split: option.splits if_splits)

lemma claim_obligation_cases:
  assumes "db_ok d"
  shows "claim_obligation q c ttl now_ms clk d =
     (let now = int_or now_ms clk; old = tbl_lookup o_seq (db_obligations d) q;
          won = (case old of None \<Rightarrow> False | Some r \<Rightarrow> obligation_claimable now r);
          f = (\<lambda>r. if obligation_claimable now r then obligation_claim_row c (now + ttl) r else r)
      in Inr ((won, map_option f old), d\<lparr>db_obligations := tbl_modify o_seq q f (db_obligations d)\<rparr>))"
proof -
  let ?now = "int_or now_ms clk"
  let ?f = "\<lambda>r. if obligation_claimable ?now r then obligation_claim_row c (?now + ttl) r else r"
  let ?qs = "tbl_modify o_seq q ?f (db_obligations d)"
  have ok: "tbl_ok o_seq (db_obligations d)" using assms by (simp add: db_ok_def)
  have qs: "map (\<lambda>r. if o_seq r = q \<and> obligation_claimable ?now r then obligation_claim_row c (?now + ttl) r else r)
      (db_obligations d) = ?qs"
    by (auto simp: tbl_modify_def)
  have fr: "o_seq (?f r) = o_seq r" for r by simp
  have "one_or_none (filter (\<lambda>r. o_seq r = q) ?qs) = Inr (tbl_lookup o_seq ?qs q)"
    by (rule one_or_none_by_key) (rule obligations.invar_modify [OF ok fr])
  moreover have "tbl_lookup o_seq ?qs q = map_option ?f (tbl_lookup o_seq (db_obligations d) q)"
    by (simp add: obligations.lookup_modify [OF ok fr])
  moreover have "(length (filter (\<lambda>r. o_seq r = q \<and> obligation_claimable ?now r) (db_obligations d)) = 1) =
      (case tbl_lookup o_seq (db_obligations d) q of None \<Rightarrow> False | Some r \<Rightarrow> obligation_claimable ?now r)"
    by (simp add: filter_key_count [OF ok] split: option.split)
  ultimately show ?thesis
    by (simp add: claim_obligation_def update_where_def Let_def qs)
qed

lemma claim_obligation_ok:
  assumes "db_ok d" and "claim_obligation q c ttl now_ms clk d = Inr (r, d')"
  shows "db_ok d'"
proof -
  let ?f = "\<lambda>r. if obligation_claimable (int_or now_ms clk) r
                then obligation_claim_row c (int_or now_ms clk + ttl) r else r"
  have "obligation_frame ?f"
    using obligation_claim_row_frame by (simp add: obligation_frame_def)
  with assms show ?thesis
    by (auto simp: claim_obligation_cases Let_def intro: db_ok_modify_obligation)
qed

lemma list_obligations_lifo: "sorted_wrt (\<lambda>a b. o_seq a \<ge> o_seq b) (list_obligations s u f d)"
proof -
  have "sorted (map (\<lambda>r. - o_seq r) (list_obligations s u f d))"
    by (simp add: list_obligations_def)
  then show ?thesis by (simp add: sorted_wrt_map)
qed

section \<open>The obligation lease\<close>

interpretation compensation: lease obligation_try_claim obligation_claimable o_claimed_by
  o_claim_expires_at_ms
  by unfold_locales
     (auto simp: obligation_try_claim_def obligation_claimable_def obligation_ready_def
        obligation_expired_def obligation_claim_row_def split: if_splits)

section \<open>Bounded retries of a compensation\<close>

lemma attempts_run:
  "o_attempts (fold (\<lambda>(err, nx, now). obligation_attempt_row err nx now) as r) = o_attempts r + int (length as)"
  "o_max_attempts (fold (\<lambda>(err, nx, now). obligation_attempt_row err nx now) as r) = o_max_attempts r"
  by (induction as arbitrary: r) auto

lemma attempts_status:
  assumes "as \<noteq> []" and "\<forall>(err, nx, now) \<in> set as. 0 < nx"
  shows "o_status (fold (\<lambda>(err, nx, now). obligation_attempt_row err nx now) as r) =
    (if o_max_attempts r \<le> o_attempts r + int (length as) then ObligationStatus_STUCK
     else ObligationStatus_PENDING)"
proof -
  obtain bs b where "as = bs @ [b]" using assms(1) by (metis append_butlast_last_id)
  with assms(2) show ?thesis by (auto simp: attempts_run split: prod.split)
qed

section \<open>Properties\<close>

lemma register_again:
  assumes ok: "db_ok d" and first: "register_compensation a clk d = Inr (r, d')"
    and same: "register_uq a' = register_uq a"
  shows "register_compensation a' clk' d' = Inr (r, d')"
proof (cases "tbl_lookup obligation_uq (db_obligations d) (register_uq a)")
  case None
  let ?row = "registered_row a (db_next_seq d) clk"
  from first None ok have r: "r = ?row" and d': "db_obligations d' = tbl_insert ?row (db_obligations d)"
    by (auto simp: register_compensation_cases split: if_splits)
  have "tbl_lookup obligation_uq (db_obligations d') (register_uq a) = Some r"
    using None by (simp add: d' r tbl_insert_def tbl_lookup_append registered_row_simps)
  with register_compensation_ok [OF ok first] same show ?thesis by (simp add: register_compensation_cases)
next
  case (Some x)
  with assms show ?thesis by (simp add: register_compensation_cases)
qed

text \<open>
  Registering a compensation is idempotent on (session, effect key, kind): a second
  registration returns the first row, sequence number included, whatever its payload,
  compensator or attempt limit, and writes nothing.
\<close>

lemma register_compensation_idempotent:
  assumes "db_ok d" and "register_compensation a clk d = Inr (r, d')" and "register_uq a' = register_uq a"
  shows "register_compensation a' clk' d' = Inr (r, d')"
  using assms by (rule register_again)

text \<open>
  Retries of a compensation are bounded: after a run of failed attempts, each with a
  next time, the obligation is \<open>STUCK\<close> exactly when its attempts have reached
  \<open>max_attempts\<close>, and otherwise waits as \<open>PENDING\<close>; the counter counts every attempt.
\<close>

lemma obligation_retries_bounded:
  assumes "as \<noteq> []" and "\<forall>(err, nx, now) \<in> set as. 0 < nx"
  shows "let r' = fold (\<lambda>(err, nx, now). obligation_attempt_row err nx now) as r in
    o_attempts r' = o_attempts r + int (length as) \<and>
    o_status r' = (if o_max_attempts r \<le> o_attempts r + int (length as) then ObligationStatus_STUCK
                   else ObligationStatus_PENDING)"
  using attempts_run(1) attempts_status [OF assms] by (simp add: Let_def)

text \<open>
  The cross-session feed returns, within its limit, only obligations that can be
  claimed at its time (pending and due, or with an expired claim), newest first.
\<close>

lemma unresolved_feed_claimable_lifo:
  "length (list_unresolved_obligations now n True False True clk d) \<le> n \<and>
   set (list_unresolved_obligations now n True False True clk d) \<subseteq>
     {r \<in> set (db_obligations d). obligation_claimable (int_or now clk) r} \<and>
   sorted_wrt (\<lambda>a b. o_seq a \<ge> o_seq b) (list_unresolved_obligations now n True False True clk d)"
proof -
  let ?l = "list_unresolved_obligations now n True False True clk d"
  let ?rs = "filter (\<lambda>r. obligation_ready (int_or now clk) r \<or> obligation_expired (int_or now clk) r)
      (db_obligations d)"
  have eq: "?l = order_limit (\<lambda>r. - o_seq r) n ?rs"
    by (simp add: list_unresolved_obligations_def Let_def)
  have "sorted (map (\<lambda>r. - o_seq r) ?l)" unfolding eq by (rule sorted_order_limit)
  then have "sorted_wrt (\<lambda>a b. o_seq a \<ge> o_seq b) ?l" by (simp add: sorted_wrt_map)
  moreover have "length ?l \<le> n" by (simp add: eq length_order_limit)
  ultimately show ?thesis
    unfolding eq by (auto simp: obligation_claimable_def dest!: set_order_limit)
qed

end
