(* ===== verification/Reactors.thy ===== *)
theory Reactors
  imports EffectLedger ObligationLedger TimersValues
begin

text \<open>
  The reactors of the embedded tier (\<open>reactors.py\<close>) over the connector protocol of
  \<open>connectors.py\<close>: \<open>dispatch_outbox_once\<close>, \<open>reconcile_once\<close>, \<open>drain_obligations_once\<close>
  and \<open>fire_due_timers_once\<close>, each one tick over the ledgers.

  A connector is code of the application, so it is a parameter: three functions over an
  arbitrary world \<open>'w\<close> (the counterparty, the network), each returning a result or the
  exception it raised, with the world it left. A tick returns its audit list, or the error
  that ended it, together with the database and the world at that moment: every service
  call commits by itself, so what was done before an error stays done. The audit entries
  are the code's dicts as JSON objects. The clock is read once at the start of a tick and
  once per item by the service; \<open>clk i\<close> is the reading of item \<open>i\<close>.
\<close>

section \<open>The connector protocol\<close>

record DispatchResult =
  dr_status :: string
  dr_external_ref :: string
  dr_response :: json
  dr_error :: json
  dr_retry_after_ms :: int

record ObservationResult =
  or_status :: string
  or_external_ref :: string
  or_response :: json
  or_error :: json
  or_compensate_kind :: string

record CompensationResult =
  cp_status :: string
  cp_response :: json
  cp_error :: json
  cp_retry_after_ms :: int

record 'w connector =
  c_name :: string
  c_dispatch :: "EffectRecord \<Rightarrow> 'w \<Rightarrow> (py_exn + DispatchResult) \<times> 'w"
  c_observe :: "EffectRecord \<Rightarrow> 'w \<Rightarrow> (py_exn + ObservationResult) \<times> 'w"
  c_compensate :: "ObligationRecord \<Rightarrow> 'w \<Rightarrow> (py_exn + CompensationResult) \<times> 'w"

type_synonym 'w connectors = "(string \<times> 'w connector) list"
type_synonym 'w tick = "(tape_error + json list) \<times> db \<times> 'w"

text \<open>
  \<open>LogConnector\<close>: its world is its three call lists.
\<close>

type_synonym log_world = "EffectRecord list \<times> EffectRecord list \<times> ObligationRecord list"

definition LogConnector :: "log_world connector" where
  "LogConnector = \<lparr>c_name = ''log'',
     c_dispatch = (\<lambda>e (ds, os, cs).
       (Inr \<lparr>dr_status = ''confirmed'', dr_external_ref = ''log-'' @ take 8 (e_idempotency_key e),
             dr_response = JNull, dr_error = JNull, dr_retry_after_ms = 0\<rparr>, (ds @ [e], os, cs))),
     c_observe = (\<lambda>e (ds, os, cs).
       (Inr \<lparr>or_status = ''absent'', or_external_ref = [], or_response = JNull, or_error = JNull,
             or_compensate_kind = []\<rparr>, (ds, os @ [e], cs))),
     c_compensate = (\<lambda>q (ds, os, cs).
       (Inr \<lparr>cp_status = ''compensated'', cp_response = JNull, cp_error = JNull,
             cp_retry_after_ms = 0\<rparr>, (ds, os, cs @ [q])))\<rparr>"

definition conn_of :: "'w connectors \<Rightarrow> string option \<Rightarrow> 'w connector option" where
  "conn_of cs n = (case n of None \<Rightarrow> None | Some s \<Rightarrow> map_of cs s)"

section \<open>The outbox dispatcher\<close>

record dispatch_cfg =
  dc_claimer :: string
  dc_limit :: nat
  dc_lease_ttl_ms :: int
  dc_default_backoff_ms :: int
  dc_max_backoff_ms :: int

definition dispatch_defaults :: "string \<Rightarrow> dispatch_cfg" where
  "dispatch_defaults claimer = \<lparr>dc_claimer = claimer, dc_limit = 50, dc_lease_ttl_ms = 60000,
     dc_default_backoff_ms = 5000, dc_max_backoff_ms = 300000\<rparr>"

definition drain_defaults :: dispatch_cfg where
  "drain_defaults = \<lparr>dc_claimer = ''drainer'', dc_limit = 50, dc_lease_ttl_ms = 60000,
     dc_default_backoff_ms = 5000, dc_max_backoff_ms = 300000\<rparr>"

text \<open>\<open>min(default_backoff_ms * (2 ** max(0, n)), max_backoff_ms)\<close>\<close>

definition backoff :: "int \<Rightarrow> int \<Rightarrow> int \<Rightarrow> int" where
  "backoff base cap n = min (base * 2 ^ nat (max 0 n)) cap"

text \<open>
  A service call whose result the reactor ignores: the database it committed, or the error
  it raised.
\<close>

definition commit :: "'a outcome \<Rightarrow> db \<Rightarrow> (db \<Rightarrow> (tape_error + json list) \<times> db \<times> 'w) \<Rightarrow> 'w \<Rightarrow> 'w tick" where
  "commit res d k w = (case res of Inl e \<Rightarrow> (Inl e, d, w) | Inr (_, d') \<Rightarrow> k d')"

definition attach_external_ref :: "effect_id \<Rightarrow> string \<Rightarrow> db \<Rightarrow> db" where
  "attach_external_ref k ext d =
     d\<lparr>db_effects := snd (update_where (\<lambda>r. effect_pk r = k)
          (\<lambda>r. r\<lparr>e_external_ref := Some ext\<rparr>) (db_effects d))\<rparr>"

definition settle_dispatch ::
    "dispatch_cfg \<Rightarrow> int \<Rightarrow> int \<Rightarrow> EffectRecord \<Rightarrow> DispatchResult \<Rightarrow> db \<Rightarrow> 'w \<Rightarrow> 'w tick" where
  "settle_dispatch cfg now clk fresh outcome d w =
     (let k = effect_pk fresh; key = JStr (e_idempotency_key fresh) in
      if dr_status outcome = ''confirmed'' then
        commit (complete_effect k EffectStatus_CONFIRMED (dr_response outcome) JNull clk d) d
          (\<lambda>d'. (Inr [JObj [(''key'', key), (''outcome'', JStr ''confirmed''),
                           (''external_ref'', JStr (dr_external_ref outcome))]],
                 if dr_external_ref outcome \<noteq> []
                 then attach_external_ref k (dr_external_ref outcome) d' else d', w)) w
      else if dr_status outcome = ''unknown'' then
        commit (record_dispatch_attempt k (py_str (json_or (dr_error outcome) (JStr ''ack lost''))) 0 clk d) d
          (\<lambda>d'. (Inr [JObj [(''key'', key), (''outcome'', JStr ''unknown'')]], d', w)) w
      else if dr_status outcome = ''failed'' then
        (if dr_retry_after_ms outcome < 0 then
           commit (complete_effect k EffectStatus_FAILED JNull (dr_error outcome) clk d) d
             (\<lambda>d'. (Inr [JObj [(''key'', key), (''outcome'', JStr ''failed-terminal'')]], d', w)) w
         else
           (let attempts = e_dispatch_attempts fresh + 1;
                bo = int_or (dr_retry_after_ms outcome)
                       (backoff (dc_default_backoff_ms cfg) (dc_max_backoff_ms cfg) (attempts - 1))
            in commit (record_dispatch_attempt k
                         (py_str (json_or (dr_error outcome) (JStr ''dispatch failed''))) (now + bo) clk d) d
                 (\<lambda>d'. (Inr [JObj [(''key'', key), (''outcome'', JStr ''failed-retry''),
                                  (''backoff_ms'', JNum bo)]], d', w)) w))
      else (Inr [], d, w))"

definition dispatch_item ::
    "'w connectors \<Rightarrow> dispatch_cfg \<Rightarrow> int \<Rightarrow> int \<Rightarrow> EffectRecord \<Rightarrow> db \<Rightarrow> 'w \<Rightarrow> 'w tick" where
  "dispatch_item cs cfg now clk eff d w =
     (let key = JStr (e_idempotency_key eff) in
      if conn_of cs (e_connector eff) = None then
        (Inr [JObj [(''key'', key), (''skip'', JStr (''no connector for '' @ repr_opt (e_connector eff)))]], d, w)
      else
        (case claim_effect_dispatch (effect_pk eff) (dc_claimer cfg) (dc_lease_ttl_ms cfg) now clk d of
           Inl e \<Rightarrow> (Inl e, d, w)
         | Inr ((acquired, _), d1) \<Rightarrow>
             if \<not> acquired then
               (Inr [JObj [(''key'', key), (''skip'', JStr ''lost the claim'')]], d1, w)
             else
               (case get_effect (effect_pk eff) d1 of
                  Inl e \<Rightarrow> (Inl e, d1, w)
                | Inr fresh_opt \<Rightarrow>
                    (case fresh_opt of
                       None \<Rightarrow> (Inr [JObj [(''key'', key), (''skip'', JStr ''not PENDING after claim'')]], d1, w)
                     | Some fresh \<Rightarrow>
                         if e_status fresh \<noteq> EffectStatus_PENDING then
                           (Inr [JObj [(''key'', key), (''skip'', JStr ''not PENDING after claim'')]], d1, w)
                         else
                           (case conn_of cs (e_connector fresh) of
                              None \<Rightarrow> (Inl (KeyError (e_connector fresh)), d1, w)
                            | Some connector \<Rightarrow>
                                (case c_dispatch connector fresh w of
                                   (Inl ex, w1) \<Rightarrow>
                                     (let attempts = e_dispatch_attempts fresh + 1;
                                          bo = backoff (dc_default_backoff_ms cfg)
                                                 (dc_max_backoff_ms cfg) (attempts - 1)
                                      in commit (record_dispatch_attempt (effect_pk fresh)
                                                   (exn_text ex) (now + bo) clk d1) d1
                                           (\<lambda>d'. (Inr [JObj [(''key'', JStr (e_idempotency_key fresh)),
                                                            (''outcome'', JStr ''exception''),
                                                            (''backoff_ms'', JNum bo)]], d', w1)) w1)
                                 | (Inr outcome, w1) \<Rightarrow>
                                     settle_dispatch cfg now clk fresh outcome d1 w1))))))"

text \<open>A loop over the listed items: the audit grows, an error ends the tick.\<close>

fun tick_loop :: "(int \<Rightarrow> 'i \<Rightarrow> db \<Rightarrow> 'w \<Rightarrow> 'w tick) \<Rightarrow> (nat \<Rightarrow> int) \<Rightarrow> nat \<Rightarrow> 'i list \<Rightarrow>
    json list \<Rightarrow> db \<Rightarrow> 'w \<Rightarrow> 'w tick" where
  "tick_loop f clk i [] acc d w = (Inr acc, d, w)"
| "tick_loop f clk i (x # xs) acc d w =
     (case f (clk i) x d w of
        (Inl e, d', w') \<Rightarrow> (Inl e, d', w')
      | (Inr es, d', w') \<Rightarrow> tick_loop f clk (Suc i) xs (acc @ es) d' w')"

definition dispatch_outbox_once ::
    "'w connectors \<Rightarrow> dispatch_cfg \<Rightarrow> (nat \<Rightarrow> int) \<Rightarrow> db \<Rightarrow> 'w \<Rightarrow> 'w tick" where
  "dispatch_outbox_once cs cfg clk d w =
     (let now = clk 0;
          effects = list_effects_to_dispatch now [] (dc_limit cfg) (clk 0) d
      in tick_loop (dispatch_item cs cfg now) clk 1 effects [] d w)"

section \<open>The reconciler\<close>

definition reconcile_item :: "'w connectors \<Rightarrow> int \<Rightarrow> EffectRecord \<Rightarrow> db \<Rightarrow> 'w \<Rightarrow> 'w tick" where
  "reconcile_item cs clk eff d w =
     (let key = JStr (e_idempotency_key eff) in
      case map_of cs (case e_connector eff of None \<Rightarrow> [] | Some n \<Rightarrow> n) of
        None \<Rightarrow> (Inr [JObj [(''key'', key),
                  (''skip'', JStr (''no connector for '' @ repr_opt (e_connector eff)))]], d, w)
      | Some connector \<Rightarrow>
          (case c_observe connector eff w of
             (Inl ex, w1) \<Rightarrow> (Inr [JObj [(''key'', key), (''skip'', JStr (''observe raised: '' @ exn_msg ex))]], d, w1)
           | (Inr obs, w1) \<Rightarrow>
               commit (record_external_observation (effect_pk eff) (or_status obs) (or_external_ref obs)
                         (or_response obs) (or_error obs) (or_compensate_kind obs) clk d) d
                 (\<lambda>d'. (Inr [JObj [(''key'', key), (''outcome'', JStr (or_status obs)),
                                  (''external_ref'', JStr (or_external_ref obs))]], d', w1)) w1))"

definition reconcile_once ::
    "'w connectors \<Rightarrow> int \<Rightarrow> nat \<Rightarrow> (nat \<Rightarrow> int) \<Rightarrow> db \<Rightarrow> 'w \<Rightarrow> 'w tick" where
  "reconcile_once cs stale_pending_ms limit clk d w =
     (let cutoff = (if stale_pending_ms > 0 then clk 0 - stale_pending_ms else 0);
          effects = list_pending_effects cutoff (stale_pending_ms > 0) True limit d
      in tick_loop (reconcile_item cs) clk 1 effects [] d w)"

section \<open>The compensation drainer\<close>

definition drain_connector_name :: "EffectRecord option \<Rightarrow> ObligationRecord \<Rightarrow> string" where
  "drain_connector_name eff ob =
     (case eff of None \<Rightarrow> o_kind ob
      | Some e \<Rightarrow> (case str_or_none (e_connector e) of Some n \<Rightarrow> n | None \<Rightarrow> o_kind ob))"

definition settle_drain ::
    "dispatch_cfg \<Rightarrow> int \<Rightarrow> int \<Rightarrow> ObligationRecord \<Rightarrow> CompensationResult \<Rightarrow> db \<Rightarrow> 'w \<Rightarrow> 'w tick" where
  "settle_drain cfg now clk ob outcome d w =
     (let sq = JNum (o_seq ob) in
      if cp_status outcome = ''compensated'' then
        commit (resolve_obligation (o_seq ob) ObligationStatus_COMPENSATED (cp_response outcome) clk d) d
          (\<lambda>d'. (Inr [JObj [(''seq'', sq), (''outcome'', JStr ''compensated'')]], d', w)) w
      else if cp_status outcome = ''failed'' then
        (let bo = int_or (cp_retry_after_ms outcome)
                    (backoff (dc_default_backoff_ms cfg) (dc_max_backoff_ms cfg) (o_attempts ob))
         in commit (record_obligation_attempt (o_seq ob)
                      (py_str (json_or (cp_error outcome) (JStr ''compensate failed''))) (now + bo) clk d) d
              (\<lambda>d'. (Inr [JObj [(''seq'', sq), (''outcome'', JStr ''failed-retry''),
                               (''backoff_ms'', JNum bo)]], d', w)) w)
      else (Inr [], d, w))"

definition drain_item ::
    "'w connectors \<Rightarrow> dispatch_cfg \<Rightarrow> int \<Rightarrow> int \<Rightarrow> ObligationRecord \<Rightarrow> db \<Rightarrow> 'w \<Rightarrow> 'w tick" where
  "drain_item cs cfg now clk ob d w =
     (let sq = JNum (o_seq ob) in
      case (if o_effect_key ob \<noteq> []
            then get_effect (o_app_name ob, o_user_id ob, o_session_id ob, o_effect_key ob) d
            else Inr None) of
        Inl e \<Rightarrow> (Inl e, d, w)
      | Inr eff \<Rightarrow>
          (let connector_name = drain_connector_name eff ob in
           case map_of cs connector_name of
             None \<Rightarrow> (Inr [JObj [(''seq'', sq),
                       (''skip'', JStr (''no connector for '' @ repr_str connector_name))]], d, w)
           | Some connector \<Rightarrow>
               (case claim_obligation (o_seq ob) (dc_claimer cfg) (dc_lease_ttl_ms cfg) now clk d of
                  Inl e \<Rightarrow> (Inl e, d, w)
                | Inr ((acquired, _), d1) \<Rightarrow>
                    if \<not> acquired then
                      (Inr [JObj [(''seq'', sq), (''skip'', JStr ''lost the claim'')]], d1, w)
                    else
                      (case c_compensate connector ob w of
                         (Inl ex, w1) \<Rightarrow>
                           (let attempts = o_attempts ob + 1;
                                bo = backoff (dc_default_backoff_ms cfg) (dc_max_backoff_ms cfg) (attempts - 1)
                            in commit (record_obligation_attempt (o_seq ob) (exn_text ex) (now + bo) clk d1) d1
                                 (\<lambda>d'. (Inr [JObj [(''seq'', sq), (''outcome'', JStr ''exception''),
                                                  (''backoff_ms'', JNum bo)]], d', w1)) w1)
                       | (Inr outcome, w1) \<Rightarrow> settle_drain cfg now clk ob outcome d1 w1))))"

definition drain_obligations_once ::
    "'w connectors \<Rightarrow> dispatch_cfg \<Rightarrow> (nat \<Rightarrow> int) \<Rightarrow> db \<Rightarrow> 'w \<Rightarrow> 'w tick" where
  "drain_obligations_once cs cfg clk d w =
     (let now = clk 0;
          obligations = list_unresolved_obligations now (dc_limit cfg) True False True (clk 0) d
      in tick_loop (drain_item cs cfg now) clk 1 obligations [] d w)"

section \<open>The timer firer\<close>

fun fire_loop :: "(TimerRecord \<Rightarrow> 'w \<Rightarrow> (py_exn + unit) \<times> 'w) option \<Rightarrow> TimerRecord list \<Rightarrow> 'w \<Rightarrow>
    json list \<times> 'w" where
  "fire_loop disp [] w = ([], w)"
| "fire_loop disp (t # ts) w =
     (let tid = JStr (t_timer_id t) in
      case disp of
        None \<Rightarrow>
          (let (out, w') = fire_loop disp ts w
           in (JObj [(''timer_id'', tid), (''outcome'', JStr ''marked-fired'')] # out, w'))
      | Some f \<Rightarrow>
          (case f t w of (res, w1) \<Rightarrow>
             (let entry = (case res of
                    Inr _ \<Rightarrow> JObj [(''timer_id'', tid), (''outcome'', JStr ''fired'')]
                  | Inl ex \<Rightarrow> JObj [(''timer_id'', tid),
                                   (''outcome'', JStr (''dispatcher raised: '' @ exn_msg ex))]);
                  (out, w') = fire_loop disp ts w1
              in (entry # out, w'))))"

definition fire_due_timers_once ::
    "(TimerRecord \<Rightarrow> 'w \<Rightarrow> (py_exn + unit) \<times> 'w) option \<Rightarrow> nat \<Rightarrow> int \<Rightarrow> db \<Rightarrow> 'w \<Rightarrow>
     json list \<times> db \<times> 'w" where
  "fire_due_timers_once disp limit clk d w =
     (let (timers, d') = list_due_timers clk limit True clk d;
          (out, w') = fire_loop disp timers w
      in (out, d', w'))"

section \<open>Watching the calls\<close>

text \<open>
  The same connectors over a world that also records every call, in order, with the record
  it was given.
\<close>

datatype call = Dispatched EffectRecord | Observed EffectRecord | Compensated ObligationRecord

definition watch :: "'w connector \<Rightarrow> ('w \<times> call list) connector" where
  "watch c = \<lparr>c_name = c_name c,
     c_dispatch = (\<lambda>e (w, l). let (r, w') = c_dispatch c e w in (r, (w', l @ [Dispatched e]))),
     c_observe = (\<lambda>e (w, l). let (r, w') = c_observe c e w in (r, (w', l @ [Observed e]))),
     c_compensate = (\<lambda>q (w, l). let (r, w') = c_compensate c q w in (r, (w', l @ [Compensated q])))\<rparr>"

definition watch_all :: "'w connectors \<Rightarrow> ('w \<times> call list) connectors" where
  "watch_all cs = map (\<lambda>(n, c). (n, watch c)) cs"

definition unwatch :: "('w \<times> 'l) tick \<Rightarrow> 'w tick" where
  "unwatch t = (case t of (x, d, w, l) \<Rightarrow> (x, d, w))"

definition watch_timer ::
    "(TimerRecord \<Rightarrow> 'w \<Rightarrow> (py_exn + unit) \<times> 'w) \<Rightarrow>
     TimerRecord \<Rightarrow> 'w \<times> TimerRecord list \<Rightarrow> (py_exn + unit) \<times> 'w \<times> TimerRecord list" where
  "watch_timer f t wl = (case wl of (w, l) \<Rightarrow> let (r, w') = f t w in (r, (w', l @ [t])))"

section \<open>What one item should become\<close>

text \<open>
  The abstract outbox: what the row a dispatcher holds becomes, from what the connector
  said. \<open>retry_delay\<close> is the wait before the next attempt.
\<close>

definition retry_delay :: "dispatch_cfg \<Rightarrow> int \<Rightarrow> int \<Rightarrow> int" where
  "retry_delay cfg asked attempts_before =
     int_or asked (backoff (dc_default_backoff_ms cfg) (dc_max_backoff_ms cfg) attempts_before)"

definition after_dispatch ::
    "dispatch_cfg \<Rightarrow> int \<Rightarrow> int \<Rightarrow> py_exn + DispatchResult \<Rightarrow> EffectRecord \<Rightarrow> EffectRecord" where
  "after_dispatch cfg now clk res held =
     (case res of
        Inl ex \<Rightarrow> attempt_row (exn_text ex) (now + retry_delay cfg 0 (e_dispatch_attempts held)) clk held
      | Inr out \<Rightarrow>
          if dr_status out = ''confirmed'' then
            (let done = complete_row EffectStatus_CONFIRMED (dr_response out) JNull clk held
             in if dr_external_ref out \<noteq> [] then done\<lparr>e_external_ref := Some (dr_external_ref out)\<rparr>
                else done)
          else if dr_status out = ''unknown'' then
            attempt_row (py_str (json_or (dr_error out) (JStr ''ack lost''))) 0 clk held
          else if dr_status out = ''failed'' \<and> dr_retry_after_ms out < 0 then
            complete_row EffectStatus_FAILED JNull (dr_error out) clk held
          else if dr_status out = ''failed'' then
            attempt_row (py_str (json_or (dr_error out) (JStr ''dispatch failed'')))
              (now + retry_delay cfg (dr_retry_after_ms out) (e_dispatch_attempts held)) clk held
          else held)"

definition held_by :: "dispatch_cfg \<Rightarrow> int \<Rightarrow> EffectRecord \<Rightarrow> EffectRecord" where
  "held_by cfg now r = claim_row (dc_claimer cfg) (now + dc_lease_ttl_ms cfg) r"

definition after_drain ::
    "dispatch_cfg \<Rightarrow> int \<Rightarrow> int \<Rightarrow> py_exn + CompensationResult \<Rightarrow> ObligationRecord \<Rightarrow> ObligationRecord" where
  "after_drain cfg now clk res held =
     (case res of
        Inl ex \<Rightarrow> obligation_attempt_row (exn_text ex) (now + retry_delay cfg 0 (o_attempts held)) clk held
      | Inr out \<Rightarrow>
          if cp_status out = ''compensated'' then
            resolve_row ObligationStatus_COMPENSATED (cp_response out) clk held
          else if cp_status out = ''failed'' then
            obligation_attempt_row (py_str (json_or (cp_error out) (JStr ''compensate failed'')))
              (now + retry_delay cfg (cp_retry_after_ms out) (o_attempts held)) clk held
          else held)"

definition owed_by :: "dispatch_cfg \<Rightarrow> int \<Rightarrow> ObligationRecord \<Rightarrow> ObligationRecord" where
  "owed_by cfg now r = obligation_claim_row (dc_claimer cfg) (now + dc_lease_ttl_ms cfg) r"

text \<open>
  The state of a tick over a keyed table with \<open>xs\<close> of the listed items still to come:
  rows that were not handled are as they were at the start, a handled one is what it
  should become.
\<close>

definition progress :: "('i \<Rightarrow> 'k) \<Rightarrow> ('i \<Rightarrow> bool) \<Rightarrow> ('i \<Rightarrow> 'i \<Rightarrow> bool) \<Rightarrow> ('k \<Rightarrow> 'i option) \<Rightarrow>
    'i list \<Rightarrow> 'i list \<Rightarrow> ('k \<Rightarrow> 'i option) \<Rightarrow> bool" where
  "progress key handled becomes look0 listed xs look \<longleftrightarrow>
     (\<exists>ys. listed = ys @ xs \<and>
       (\<forall>k. k \<notin> key ` {y \<in> set ys. handled y} \<longrightarrow> look k = look0 k) \<and>
       (\<forall>y \<in> set ys. handled y \<longrightarrow> (\<exists>r. look (key y) = Some r \<and> becomes y r)))"

definition dispatch_becomes :: "dispatch_cfg \<Rightarrow> int \<Rightarrow> EffectRecord \<Rightarrow> EffectRecord \<Rightarrow> bool" where
  "dispatch_becomes cfg now y r \<longleftrightarrow> (\<exists>res c. r = after_dispatch cfg now c res (held_by cfg now y))"

definition dispatch_progress ::
    "'w connectors \<Rightarrow> dispatch_cfg \<Rightarrow> int \<Rightarrow> db \<Rightarrow> EffectRecord list \<Rightarrow> EffectRecord list \<Rightarrow> db \<Rightarrow> bool" where
  "dispatch_progress cs cfg now d0 listed xs d \<longleftrightarrow>
     db_ok d \<and> d = d0\<lparr>db_effects := db_effects d\<rparr> \<and>
     progress effect_pk (\<lambda>y. conn_of cs (e_connector y) \<noteq> None) (dispatch_becomes cfg now)
       (tbl_lookup effect_pk (db_effects d0)) listed xs (tbl_lookup effect_pk (db_effects d))"

definition effect_of :: "db \<Rightarrow> ObligationRecord \<Rightarrow> EffectRecord option" where
  "effect_of d ob = (if o_effect_key ob \<noteq> []
     then tbl_lookup effect_pk (db_effects d) (o_app_name ob, o_user_id ob, o_session_id ob, o_effect_key ob)
     else None)"

definition drain_has_connector :: "'w connectors \<Rightarrow> db \<Rightarrow> ObligationRecord \<Rightarrow> bool" where
  "drain_has_connector cs d ob \<longleftrightarrow> map_of cs (drain_connector_name (effect_of d ob) ob) \<noteq> None"

definition drain_becomes :: "dispatch_cfg \<Rightarrow> int \<Rightarrow> ObligationRecord \<Rightarrow> ObligationRecord \<Rightarrow> bool" where
  "drain_becomes cfg now y r \<longleftrightarrow> (\<exists>res c. r = after_drain cfg now c res (owed_by cfg now y))"

definition drain_progress ::
    "'w connectors \<Rightarrow> dispatch_cfg \<Rightarrow> int \<Rightarrow> db \<Rightarrow> ObligationRecord list \<Rightarrow> ObligationRecord list \<Rightarrow> db \<Rightarrow> bool" where
  "drain_progress cs cfg now d0 listed xs d \<longleftrightarrow>
     db_ok d \<and> d = d0\<lparr>db_obligations := db_obligations d\<rparr> \<and>
     progress o_seq (drain_has_connector cs d0) (drain_becomes cfg now)
       (tbl_lookup o_seq (db_obligations d0)) listed xs (tbl_lookup o_seq (db_obligations d))"

text \<open>One row replaced, everything else as it was.\<close>

definition put_effect :: "EffectRecord \<Rightarrow> db \<Rightarrow> db" where
  "put_effect r d = d\<lparr>db_effects := tbl_modify effect_pk (effect_pk r) (\<lambda>_. r) (db_effects d)\<rparr>"

definition put_obligation :: "ObligationRecord \<Rightarrow> db \<Rightarrow> db" where
  "put_obligation r d = d\<lparr>db_obligations := tbl_modify o_seq (o_seq r) (\<lambda>_. r) (db_obligations d)\<rparr>"

text \<open>\<open>settled\<close> effects, those past \<open>PENDING\<close>, stay past it from \<open>d0\<close> to \<open>d\<close>.\<close>

definition keeps_settled :: "db \<Rightarrow> db \<Rightarrow> bool" where
  "keeps_settled d0 d \<longleftrightarrow> (\<forall>k r. tbl_lookup effect_pk (db_effects d0) k = Some r \<longrightarrow>
     e_status r \<noteq> EffectStatus_PENDING \<longrightarrow>
     (\<exists>r'. tbl_lookup effect_pk (db_effects d) k = Some r' \<and> e_status r' \<noteq> EffectStatus_PENDING))"

section \<open>Loops\<close>

lemma tick_loop_inv:
  assumes "\<And>c x d w r d' w'. P d \<Longrightarrow> f c x d w = (r, d', w') \<Longrightarrow> P d'"
    and "tick_loop f clk i xs acc d w = (r, d', w')" and "P d"
  shows "P d'"
  using assms(2,3)
proof (induction xs arbitrary: i acc d w)
  case (Cons x xs)
  obtain r1 d1 w1 where f: "f (clk i) x d w = (r1, d1, w1)" by (cases "f (clk i) x d w")
  with assms(1) Cons.prems(2) have "P d1" by blast
  with Cons f show ?case by (auto split: sum.splits)
qed simp

lemma tick_loop_run:
  assumes step: "\<And>c x xs d w l. Q (x # xs) d \<Longrightarrow>
      \<exists>es d' w'. f c x d (w, l) = (Inr es, d', w', l @ g x) \<and> Q xs d'"
    and "Q xs d"
  shows "\<exists>es d' w'. tick_loop f clk i xs acc d (w, l) = (Inr es, d', w', l @ concat (map g xs)) \<and> Q [] d'"
  using assms(2)
proof (induction xs arbitrary: i acc d w l)
  case (Cons x xs)
  from step [OF Cons.prems, of "clk i" w l] obtain es d1 w1 where
    f: "f (clk i) x d (w, l) = (Inr es, d1, w1, l @ g x)" and q: "Q xs d1" by blast
  from Cons.IH [OF q, of "Suc i" "acc @ es" w1 "l @ g x"] f show ?case by auto
qed simp

lemma progress_start: "progress key handled becomes look0 listed listed look0"
  by (simp add: progress_def)

lemma progress_row:
  assumes "progress key handled becomes look0 listed (x # xs) look" and "distinct (map key listed)"
  shows "look (key x) = look0 (key x)"
proof -
  from assms(1) obtain ys where l: "listed = ys @ x # xs"
    and old: "\<And>k. k \<notin> key ` {y \<in> set ys. handled y} \<Longrightarrow> look k = look0 k"
    unfolding progress_def by blast
  have "key x \<notin> key ` set ys" using assms(2) l by auto
  then show ?thesis by (intro old) blast
qed

lemma progress_skip:
  assumes "progress key handled becomes look0 listed (x # xs) look" and "\<not> handled x"
  shows "progress key handled becomes look0 listed xs look"
proof -
  from assms(1) obtain ys where l: "listed = ys @ x # xs"
    and old: "\<forall>k. k \<notin> key ` {y \<in> set ys. handled y} \<longrightarrow> look k = look0 k"
    and new: "\<forall>y \<in> set ys. handled y \<longrightarrow> (\<exists>r. look (key y) = Some r \<and> becomes y r)"
    unfolding progress_def by blast
  have "{y \<in> set (ys @ [x]). handled y} = {y \<in> set ys. handled y}" using assms(2) by auto
  with l old new assms(2) show ?thesis
    unfolding progress_def by (intro exI [of _ "ys @ [x]"]) auto
qed

lemma progress_handle:
  assumes "progress key handled becomes look0 listed (x # xs) look" and "distinct (map key listed)"
    and "handled x" and "becomes x r"
  shows "progress key handled becomes look0 listed xs (\<lambda>k. if k = key x then Some r else look k)"
proof -
  from assms(1) obtain ys where l: "listed = ys @ x # xs"
    and old: "\<And>k. k \<notin> key ` {y \<in> set ys. handled y} \<Longrightarrow> look k = look0 k"
    and new: "\<And>y. y \<in> set ys \<Longrightarrow> handled y \<Longrightarrow> \<exists>r. look (key y) = Some r \<and> becomes y r"
    unfolding progress_def by blast
  have "key x \<notin> key ` set ys" using assms(2) l by auto
  then have fresh: "key y \<noteq> key x" if "y \<in> set ys" for y using that by (metis image_eqI)
  have "{y \<in> set (ys @ [x]). handled y} = insert x {y \<in> set ys. handled y}" using assms(3) by auto
  with l old new fresh assms(3,4) show ?thesis
    unfolding progress_def by (intro exI [of _ "ys @ [x]"]) auto
qed

lemma conn_of_watch_all: "conn_of (watch_all cs) n = map_option watch (conn_of cs n)"
proof -
  have "map_of (watch_all cs) s = map_option watch (map_of cs s)" for s
    by (induction cs) (auto simp: watch_all_def)
  then show ?thesis by (simp add: conn_of_def split: option.split)
qed

lemma commit_simps [simp]:
  "commit (Inr (x, d')) d k w = k d'" "commit (Inl e) d k w = (Inl e, d, w)"
  by (simp_all add: commit_def)

section \<open>The dispatcher refines the abstract outbox\<close>

lemma modify_as_put:
  assumes "db_ok d" and "tbl_lookup effect_pk (db_effects d) k = Some r" and "effect_frame f"
  shows "d\<lparr>db_effects := tbl_modify effect_pk k f (db_effects d)\<rparr> = put_effect (f r) d"
proof -
  have "effect_pk (f r) = k" using assms(2,3) by (auto simp: effect_frame_pk dest: tbl_lookup_SomeD)
  moreover have "tbl_modify effect_pk k f (db_effects d) = tbl_modify effect_pk k (\<lambda>_. f r) (db_effects d)"
    by (rule tbl_modify_cong) (use assms in \<open>auto simp: db_ok_def\<close>)
  ultimately show ?thesis by (simp add: put_effect_def)
qed

lemma put_put: "effect_pk r = effect_pk r' \<Longrightarrow> put_effect r' (put_effect r d) = put_effect r' d"
  by (auto simp: put_effect_def tbl_modify_def)

lemma put_same: "db_ok d \<Longrightarrow> tbl_lookup effect_pk (db_effects d) (effect_pk r) = Some r \<Longrightarrow>
    put_effect r d = d"
  by (simp add: put_effect_def tbl_modify_id db_ok_def)

lemma lookup_put:
  "tbl_lookup effect_pk (db_effects (put_effect r d)) k =
     (if k = effect_pk r then map_option (\<lambda>_. r) (tbl_lookup effect_pk (db_effects d) k)
      else tbl_lookup effect_pk (db_effects d) k)"
proof -
  have "tbl_lookup effect_pk (tbl_modify effect_pk (effect_pk r) (\<lambda>_. r) rs) k =
     (if k = effect_pk r then map_option (\<lambda>_. r) (tbl_lookup effect_pk rs k)
      else tbl_lookup effect_pk rs k)" for rs
    by (induction rs) (auto simp: tbl_modify_def)
  then show ?thesis by (simp add: put_effect_def)
qed

lemma put_effect_frame: "put_effect r d = d\<lparr>db_effects := db_effects (put_effect r d)\<rparr>"
  by (simp add: put_effect_def)

lemma attach_put: "attach_external_ref (effect_pk r) ext (put_effect r d) =
    put_effect (r\<lparr>e_external_ref := Some ext\<rparr>) d"
  by (auto simp: attach_external_ref_def put_effect_def tbl_modify_def update_where_def effect_pk_def)

lemma attach_ref_frame: "effect_frame (\<lambda>r. r\<lparr>e_external_ref := Some ext\<rparr>)"
  by (simp add: effect_frame_def effect_ok_def effect_pk_def)

lemma attach_external_ref_ok: "db_ok d \<Longrightarrow> db_ok (attach_external_ref k ext d)"
  unfolding attach_external_ref_def update_where_def
  by (simp add: db_ok_map_effects attach_ref_frame)

lemma after_dispatch_pk [simp]: "effect_pk (after_dispatch cfg now clk res r) = effect_pk r"
  by (simp add: after_dispatch_def Let_def effect_pk_def complete_row_def attempt_row_def
      split: sum.split)

lemma held_by_simps [simp]:
  "effect_pk (held_by cfg now r) = effect_pk r"
  "e_status (held_by cfg now r) = e_status r"
  "e_connector (held_by cfg now r) = e_connector r"
  "e_semantics (held_by cfg now r) = e_semantics r"
  "e_dispatch_attempts (held_by cfg now r) = e_dispatch_attempts r"
  "e_idempotency_key (held_by cfg now r) = e_idempotency_key r"
  "e_dispatch_claimed_by (held_by cfg now r) = Some (dc_claimer cfg)"
  "e_dispatch_claim_expires_at_ms (held_by cfg now r) = now + dc_lease_ttl_ms cfg"
  by (simp_all add: held_by_def) (simp add: claim_row_def)

lemma attempt_as_put: "db_ok d \<Longrightarrow> tbl_lookup effect_pk (db_effects d) (effect_pk r) = Some r \<Longrightarrow>
    record_dispatch_attempt (effect_pk r) err nx clk d =
      Inr (Some (attempt_row err nx clk r), put_effect (attempt_row err nx clk r) d)"
  by (simp add: record_dispatch_attempt_cases modify_as_put attempt_row_frame)

lemma complete_as_put: "db_ok d \<Longrightarrow> tbl_lookup effect_pk (db_effects d) (effect_pk r) = Some r \<Longrightarrow>
    e_status r = EffectStatus_PENDING \<Longrightarrow> st \<in> {EffectStatus_CONFIRMED, EffectStatus_FAILED} \<Longrightarrow>
    complete_effect (effect_pk r) st resp err clk d =
      Inr (Some (complete_row st resp err clk r), put_effect (complete_row st resp err clk r) d)"
  by (auto simp: complete_effect_cases modify_as_put complete_row_frame)

lemma settle_dispatch_eq:
  assumes "db_ok d" and "tbl_lookup effect_pk (db_effects d) (effect_pk r) = Some r"
    and "e_status r = EffectStatus_PENDING"
  shows "\<exists>es. settle_dispatch cfg now clk r out d w =
     (Inr es, put_effect (after_dispatch cfg now clk (Inr out) r) d, w)"
  using assms attach_put [of "complete_row EffectStatus_CONFIRMED (dr_response out) JNull clk r"]
  by (auto simp: settle_dispatch_def after_dispatch_def Let_def attempt_as_put complete_as_put
      put_same retry_delay_def)

lemma dispatch_item_refines:
  assumes ok: "db_ok d" and row: "tbl_lookup effect_pk (db_effects d) (effect_pk eff) = Some eff"
    and ready: "dispatch_ready now eff" and now: "now \<noteq> 0"
    and conn: "conn_of cs (e_connector eff) = Some conn"
    and call: "c_dispatch conn (held_by cfg now eff) w = (res, w1)"
  shows "\<exists>es. dispatch_item cs cfg now clk eff d w =
     (Inr es, put_effect (after_dispatch cfg now clk res (held_by cfg now eff)) d, w1)"
proof -
  let ?f = "\<lambda>r. if dispatch_ready now r then claim_row (dc_claimer cfg) (now + dc_lease_ttl_ms cfg) r else r"
  let ?h = "held_by cfg now eff" and ?d1 = "put_effect (held_by cfg now eff) d"
  have fr: "effect_frame ?f" using claim_row_frame by (simp add: effect_frame_def)
  have f: "?f eff = ?h" using ready by (simp add: held_by_def)
  have claim: "claim_effect_dispatch (effect_pk eff) (dc_claimer cfg) (dc_lease_ttl_ms cfg) now clk d =
      Inr ((True, Some ?h), ?d1)"
    using modify_as_put [OF ok row fr] ready row f now
    by (simp add: claim_effect_dispatch_cases [OF ok] Let_def int_or_def)
  have ok1: "db_ok ?d1"
    using claim_effect_dispatch_ok [OF ok claim] .
  have row1: "tbl_lookup effect_pk (db_effects ?d1) (effect_pk ?h) = Some ?h"
    using row by (simp add: lookup_put)
  have pend: "e_status ?h = EffectStatus_PENDING" using ready by (simp add: dispatch_ready_def)
  have got: "get_effect (effect_pk eff) ?d1 = Inr (Some ?h)"
    using row1 by (simp add: get_effect_eq [OF ok1])
  show ?thesis
  proof (cases res)
    case (Inl ex)
    with call show ?thesis
      using attempt_as_put [OF ok1 row1] pend
      by (simp add: dispatch_item_def claim conn got Let_def put_put after_dispatch_def retry_delay_def
          int_or_def)
  next
    case (Inr out)
    with call show ?thesis
      using settle_dispatch_eq [OF ok1 row1 pend, of cfg now clk out w1] pend
      by (auto simp: dispatch_item_def claim conn got put_put)
  qed
qed

lemma dispatch_item_skips:
  assumes "conn_of cs (e_connector eff) = None"
  shows "\<exists>es. dispatch_item cs cfg now clk eff d w = (Inr es, d, w)"
  using assms by (simp add: dispatch_item_def)

text \<open>Whatever the connectors do, and however stale the item, an item keeps the invariant.\<close>

lemma settle_dispatch_ok: "db_ok d \<Longrightarrow> settle_dispatch cfg now clk r out d w = (x, d', w') \<Longrightarrow> db_ok d'"
  by (auto simp: settle_dispatch_def Let_def commit_def attach_external_ref_ok
      split: if_splits sum.splits
      dest: complete_effect_ok record_dispatch_attempt_ok)

lemma dispatch_item_ok:
  assumes ok: "db_ok d" and res: "dispatch_item cs cfg now clk eff d w = (x, d', w')"
  shows "db_ok d'"
proof -
  obtain acq r d1 where c: "claim_effect_dispatch (effect_pk eff) (dc_claimer cfg) (dc_lease_ttl_ms cfg)
      now clk d = Inr ((acq, r), d1)"
    by (simp add: claim_effect_dispatch_cases [OF ok] Let_def)
  from claim_effect_dispatch_ok [OF ok c] have ok1: "db_ok d1" .
  show ?thesis
    using res ok ok1
    by (auto simp: dispatch_item_def c get_effect_eq [OF ok1] Let_def commit_def
        split: if_splits option.splits sum.splits prod.splits
        dest: settle_dispatch_ok record_dispatch_attempt_ok)
qed

lemma dispatch_outbox_ok: "db_ok d \<Longrightarrow> dispatch_outbox_once cs cfg clk d w = (x, d', w') \<Longrightarrow> db_ok d'"
  unfolding dispatch_outbox_once_def Let_def
  by (rule tick_loop_inv [where P = db_ok]) (blast intro: dispatch_item_ok)+

section \<open>A whole dispatch tick\<close>

lemma dispatch_listing:
  assumes "db_ok d" and "now \<noteq> 0"
  shows "distinct (map effect_pk (list_effects_to_dispatch now [] n now d))"
    and "x \<in> set (list_effects_to_dispatch now [] n now d) \<Longrightarrow>
      tbl_lookup effect_pk (db_effects d) (effect_pk x) = Some x \<and> dispatch_ready now x"
proof -
  have ok: "tbl_ok effect_pk (db_effects d)" using assms by (simp add: db_ok_def)
  let ?rs = "filter (dispatch_ready now) (db_effects d)"
  have eq: "list_effects_to_dispatch now [] n now d = order_limit e_ts_ms n ?rs"
    by (simp add: list_effects_to_dispatch_def Let_def int_or_def)
  have "tbl_ok effect_pk ?rs" using ok by (rule tbl_ok_filter)
  then show "distinct (map effect_pk (list_effects_to_dispatch now [] n now d))"
    unfolding eq by (intro distinct_order_limit) (simp add: tbl_ok_def)
  assume "x \<in> set (list_effects_to_dispatch now [] n now d)"
  then have "x \<in> set ?rs" unfolding eq by (auto dest: set_order_limit)
  then show "tbl_lookup effect_pk (db_effects d) (effect_pk x) = Some x \<and> dispatch_ready now x"
    using tbl_lookup_mem [OF ok] by auto
qed

lemma dispatch_progress_step:
  fixes cs :: "'w connectors"
  assumes prog: "dispatch_progress cs cfg now d0 listed (x # xs) d"
    and dist: "distinct (map effect_pk listed)"
    and rows: "\<forall>y \<in> set listed. tbl_lookup effect_pk (db_effects d0) (effect_pk y) = Some y \<and>
      dispatch_ready now y"
    and now: "now \<noteq> 0"
  shows "\<exists>es d' w'. dispatch_item (watch_all cs) cfg now c x d (w, l) =
      (Inr es, d', w', l @ (if conn_of cs (e_connector x) \<noteq> None
                            then [Dispatched (held_by cfg now x)] else [])) \<and>
      dispatch_progress cs cfg now d0 listed xs d'"
proof -
  from prog have ok: "db_ok d" and d: "d = d0\<lparr>db_effects := db_effects d\<rparr>"
    and pr: "progress effect_pk (\<lambda>y. conn_of cs (e_connector y) \<noteq> None) (dispatch_becomes cfg now)
      (tbl_lookup effect_pk (db_effects d0)) listed (x # xs) (tbl_lookup effect_pk (db_effects d))"
    by (simp_all add: dispatch_progress_def)
  from pr have mem: "x \<in> set listed" by (auto simp: progress_def)
  show ?thesis
  proof (cases "conn_of cs (e_connector x)")
    case None
    then have "conn_of (watch_all cs) (e_connector x) = None" by (simp add: conn_of_watch_all)
    from dispatch_item_skips [OF this, of cfg now c d "(w, l)"] obtain es where
      run: "dispatch_item (watch_all cs) cfg now c x d (w, l) = (Inr es, d, w, l)" by auto
    from progress_skip [OF pr] None ok d have "dispatch_progress cs cfg now d0 listed xs d"
      by (simp add: dispatch_progress_def)
    with run None show ?thesis by simp
  next
    case (Some conn)
    let ?h = "held_by cfg now x"
    obtain res w1 where call: "c_dispatch conn ?h w = (res, w1)" by (cases "c_dispatch conn ?h w")
    have row: "tbl_lookup effect_pk (db_effects d) (effect_pk x) = Some x"
      and ready: "dispatch_ready now x" using progress_row [OF pr dist] rows mem by simp_all
    let ?r = "after_dispatch cfg now c res ?h"
    from dispatch_item_refines [OF ok row ready now, of "watch_all cs" "watch conn" cfg "(w, l)" res
        "(w1, l @ [Dispatched ?h])" c] obtain es where
      run: "dispatch_item (watch_all cs) cfg now c x d (w, l) =
        (Inr es, put_effect ?r d, w1, l @ [Dispatched ?h])"
      using Some call by (auto simp: conn_of_watch_all watch_def)
    have look: "tbl_lookup effect_pk (db_effects (put_effect ?r d)) =
        (\<lambda>k. if k = effect_pk x then Some ?r else tbl_lookup effect_pk (db_effects d) k)"
      using row by (auto simp: lookup_put fun_eq_iff)
    have "dispatch_progress cs cfg now d0 listed xs (put_effect ?r d)"
      unfolding dispatch_progress_def look
    proof (intro conjI progress_handle [OF pr dist])
      show "put_effect ?r d = d0\<lparr>db_effects := db_effects (put_effect ?r d)\<rparr>"
        by (subst d) (simp add: put_effect_def)
    qed (use dispatch_item_ok [OF ok run] Some in \<open>auto simp: dispatch_becomes_def\<close>)
    with run Some show ?thesis by auto
  qed
qed

lemma concat_if: "concat (map (\<lambda>x. if p x then [f x] else []) xs) = map f (filter p xs)"
  by (induction xs) auto

lemma dispatch_tick:
  fixes cs :: "'w connectors" and cfg :: dispatch_cfg and clk :: "nat \<Rightarrow> int" and d :: db
  assumes ok: "db_ok d" and now: "clk 0 \<noteq> 0"
  defines "listed \<equiv> list_effects_to_dispatch (clk 0) [] (dc_limit cfg) (clk 0) d"
  shows "\<exists>es d' w'. dispatch_outbox_once (watch_all cs) cfg clk d (w, []) =
      (Inr es, d', w', map (\<lambda>x. Dispatched (held_by cfg (clk 0) x))
                         (filter (\<lambda>x. conn_of cs (e_connector x) \<noteq> None) listed)) \<and>
      dispatch_progress cs cfg (clk 0) d listed [] d'"
proof -
  let ?g = "\<lambda>x. if conn_of cs (e_connector x) \<noteq> None
                 then [Dispatched (held_by cfg (clk 0) x)] else []"
  have start: "dispatch_progress cs cfg (clk 0) d listed listed d"
    using ok by (simp add: dispatch_progress_def progress_start)
  have "\<forall>y \<in> set listed. tbl_lookup effect_pk (db_effects d) (effect_pk y) = Some y \<and>
      dispatch_ready (clk 0) y"
    and dist: "distinct (map effect_pk listed)"
    using dispatch_listing [OF ok now] by (auto simp: listed_def)
  note step = dispatch_progress_step [OF _ this(2,1) now]
  have "\<exists>es d' w'. tick_loop (dispatch_item (watch_all cs) cfg (clk 0)) clk 1 listed [] d (w, []) =
      (Inr es, d', w', [] @ concat (map ?g listed)) \<and> dispatch_progress cs cfg (clk 0) d listed [] d'"
    by (rule tick_loop_run [where Q = "dispatch_progress cs cfg (clk 0) d listed", OF step start])
  then show ?thesis by (simp add: dispatch_outbox_once_def Let_def concat_if flip: listed_def)
qed

section \<open>The drainer refines the abstract compensation\<close>

lemma modify_as_put_obligation:
  assumes "db_ok d" and "tbl_lookup o_seq (db_obligations d) k = Some r" and "obligation_frame f"
  shows "d\<lparr>db_obligations := tbl_modify o_seq k f (db_obligations d)\<rparr> = put_obligation (f r) d"
proof -
  have "o_seq (f r) = k" using assms(2,3) by (auto simp: obligation_frame_seq dest: tbl_lookup_SomeD)
  moreover have "tbl_modify o_seq k f (db_obligations d) = tbl_modify o_seq k (\<lambda>_. f r) (db_obligations d)"
    by (rule tbl_modify_cong) (use assms in \<open>auto simp: db_ok_def\<close>)
  ultimately show ?thesis by (simp add: put_obligation_def)
qed

lemma put_put_obligation:
  "o_seq r = o_seq r' \<Longrightarrow> put_obligation r' (put_obligation r d) = put_obligation r' d"
  by (auto simp: put_obligation_def tbl_modify_def)

lemma put_obligation_same: "db_ok d \<Longrightarrow> tbl_lookup o_seq (db_obligations d) (o_seq r) = Some r \<Longrightarrow>
    put_obligation r d = d"
  by (simp add: put_obligation_def tbl_modify_id db_ok_def)

lemma lookup_put_obligation:
  "tbl_lookup o_seq (db_obligations (put_obligation r d)) k =
     (if k = o_seq r then map_option (\<lambda>_. r) (tbl_lookup o_seq (db_obligations d) k)
      else tbl_lookup o_seq (db_obligations d) k)"
proof -
  have "tbl_lookup o_seq (tbl_modify o_seq (o_seq r) (\<lambda>_. r) rs) k =
     (if k = o_seq r then map_option (\<lambda>_. r) (tbl_lookup o_seq rs k)
      else tbl_lookup o_seq rs k)" for rs
    by (induction rs) (auto simp: tbl_modify_def)
  then show ?thesis by (simp add: put_obligation_def)
qed

lemma after_drain_seq [simp]: "o_seq (after_drain cfg now clk res r) = o_seq r"
  by (simp add: after_drain_def split: sum.split)

lemma owed_by_simps [simp]:
  "o_seq (owed_by cfg now r) = o_seq r" "o_attempts (owed_by cfg now r) = o_attempts r"
  "o_max_attempts (owed_by cfg now r) = o_max_attempts r"
  by (simp_all add: owed_by_def)

lemma obligation_attempt_as_put: "db_ok d \<Longrightarrow> tbl_lookup o_seq (db_obligations d) (o_seq r) = Some r \<Longrightarrow>
    record_obligation_attempt (o_seq r) err nx clk d =
      Inr (Some (obligation_attempt_row err nx clk r), put_obligation (obligation_attempt_row err nx clk r) d)"
  by (simp add: record_obligation_attempt_cases modify_as_put_obligation obligation_attempt_row_frame)

lemma resolve_as_put: "db_ok d \<Longrightarrow> tbl_lookup o_seq (db_obligations d) (o_seq r) = Some r \<Longrightarrow>
    resolve_obligation (o_seq r) ObligationStatus_COMPENSATED res clk d =
      Inr (Some (resolve_row ObligationStatus_COMPENSATED res clk r),
           put_obligation (resolve_row ObligationStatus_COMPENSATED res clk r) d)"
  by (simp add: resolve_obligation_cases modify_as_put_obligation resolve_row_frame)

text \<open>
  The drainer works from the row it listed; the row it holds has the same number and the
  same attempts, which is all it reads of it.
\<close>

lemma settle_drain_eq:
  assumes "db_ok d" and "tbl_lookup o_seq (db_obligations d) (o_seq r) = Some r"
    and "o_seq ob = o_seq r" and "o_attempts ob = o_attempts r"
  shows "\<exists>es. settle_drain cfg now clk ob out d w =
     (Inr es, put_obligation (after_drain cfg now clk (Inr out) r) d, w)"
  using assms
  by (auto simp: settle_drain_def after_drain_def Let_def obligation_attempt_as_put resolve_as_put
      put_obligation_same retry_delay_def)

lemma drain_item_refines:
  assumes ok: "db_ok d" and row: "tbl_lookup o_seq (db_obligations d) (o_seq ob) = Some ob"
    and ready: "obligation_claimable now ob" and now: "now \<noteq> 0"
    and conn: "map_of cs (drain_connector_name (effect_of d ob) ob) = Some conn"
    and call: "c_compensate conn ob w = (res, w1)"
  shows "\<exists>es. drain_item cs cfg now clk ob d w =
     (Inr es, put_obligation (after_drain cfg now clk res (owed_by cfg now ob)) d, w1)"
proof -
  let ?f = "\<lambda>r. if obligation_claimable now r
     then obligation_claim_row (dc_claimer cfg) (now + dc_lease_ttl_ms cfg) r else r"
  let ?h = "owed_by cfg now ob" and ?d1 = "put_obligation (owed_by cfg now ob) d"
  have fr: "obligation_frame ?f" using obligation_claim_row_frame by (simp add: obligation_frame_def)
  have f: "?f ob = ?h" using ready by (simp add: owed_by_def)
  have claim: "claim_obligation (o_seq ob) (dc_claimer cfg) (dc_lease_ttl_ms cfg) now clk d =
      Inr ((True, Some ?h), ?d1)"
    using modify_as_put_obligation [OF ok row fr] ready row f now
    by (simp add: claim_obligation_cases [OF ok] Let_def int_or_def)
  have ok1: "db_ok ?d1" using claim_obligation_ok [OF ok claim] .
  have row1: "tbl_lookup o_seq (db_obligations ?d1) (o_seq ?h) = Some ?h"
    using row by (simp add: lookup_put_obligation)
  have eff: "(if o_effect_key ob \<noteq> []
      then get_effect (o_app_name ob, o_user_id ob, o_session_id ob, o_effect_key ob) d
      else Inr None) = Inr (effect_of d ob)"
    by (simp add: effect_of_def get_effect_eq [OF ok])
  show ?thesis
  proof (cases res)
    case (Inl ex)
    with call show ?thesis
      using obligation_attempt_as_put [OF ok1 row1]
      by (simp add: drain_item_def eff claim conn Let_def put_put_obligation after_drain_def
          retry_delay_def int_or_def)
  next
    case (Inr out)
    with call show ?thesis
      using settle_drain_eq [OF ok1 row1, of ob cfg now clk out w1]
      by (auto simp: drain_item_def eff claim conn Let_def put_put_obligation)
  qed
qed

lemma drain_item_skips:
  assumes "db_ok d" and "map_of cs (drain_connector_name (effect_of d ob) ob) = None"
  shows "\<exists>es. drain_item cs cfg now clk ob d w = (Inr es, d, w)"
  using assms by (auto simp: drain_item_def effect_of_def get_effect_eq Let_def)

lemma settle_drain_ok: "db_ok d \<Longrightarrow> settle_drain cfg now clk ob out d w = (x, d', w') \<Longrightarrow> db_ok d'"
  by (auto simp: settle_drain_def Let_def commit_def split: if_splits sum.splits
      dest: resolve_obligation_ok record_obligation_attempt_ok)

lemma drain_item_ok:
  assumes ok: "db_ok d" and res: "drain_item cs cfg now clk ob d w = (x, d', w')"
  shows "db_ok d'"
proof -
  obtain acq r d1 where c: "claim_obligation (o_seq ob) (dc_claimer cfg) (dc_lease_ttl_ms cfg)
      now clk d = Inr ((acq, r), d1)"
    by (simp add: claim_obligation_cases [OF ok] Let_def)
  from claim_obligation_ok [OF ok c] have ok1: "db_ok d1" .
  show ?thesis
    using res ok ok1
    by (auto simp: drain_item_def c get_effect_eq [OF ok] Let_def commit_def
        split: if_splits option.splits sum.splits prod.splits
        dest: settle_drain_ok record_obligation_attempt_ok)
qed

lemma drain_obligations_ok:
  "db_ok d \<Longrightarrow> drain_obligations_once cs cfg clk d w = (x, d', w') \<Longrightarrow> db_ok d'"
  unfolding drain_obligations_once_def Let_def
  by (rule tick_loop_inv [where P = db_ok]) (blast intro: drain_item_ok)+

section \<open>A whole drain tick\<close>

lemma map_of_watch_all: "map_of (watch_all cs) s = map_option watch (map_of cs s)"
  by (induction cs) (auto simp: watch_all_def)

lemma drain_listing:
  assumes "db_ok d" and "now \<noteq> 0"
  shows "distinct (map o_seq (list_unresolved_obligations now n True False True now d))"
    and "sorted_wrt (\<lambda>a b. o_seq a \<ge> o_seq b) (list_unresolved_obligations now n True False True now d)"
    and "x \<in> set (list_unresolved_obligations now n True False True now d) \<Longrightarrow>
      tbl_lookup o_seq (db_obligations d) (o_seq x) = Some x \<and> obligation_claimable now x"
proof -
  have ok: "tbl_ok o_seq (db_obligations d)" using assms by (simp add: db_ok_def)
  let ?rs = "filter (\<lambda>r. obligation_ready now r \<or> obligation_expired now r) (db_obligations d)"
  let ?l = "list_unresolved_obligations now n True False True now d"
  have eq: "?l = order_limit (\<lambda>r. - o_seq r) n ?rs"
    by (simp add: list_unresolved_obligations_def Let_def int_or_def)
  have "tbl_ok o_seq ?rs" using ok by (rule tbl_ok_filter)
  then show "distinct (map o_seq ?l)"
    unfolding eq by (intro distinct_order_limit) (simp add: tbl_ok_def)
  have "sorted (map (\<lambda>r. - o_seq r) ?l)" unfolding eq by (rule sorted_order_limit)
  then show "sorted_wrt (\<lambda>a b. o_seq a \<ge> o_seq b) ?l" by (simp add: sorted_wrt_map)
  assume "x \<in> set ?l"
  then have "x \<in> set ?rs" unfolding eq by (auto dest: set_order_limit)
  then show "tbl_lookup o_seq (db_obligations d) (o_seq x) = Some x \<and> obligation_claimable now x"
    using tbl_lookup_mem [OF ok] by (auto simp: obligation_claimable_def)
qed

lemma drain_progress_step:
  fixes cs :: "'w connectors"
  assumes prog: "drain_progress cs cfg now d0 listed (x # xs) d"
    and dist: "distinct (map o_seq listed)"
    and rows: "\<forall>y \<in> set listed. tbl_lookup o_seq (db_obligations d0) (o_seq y) = Some y \<and>
      obligation_claimable now y"
    and now: "now \<noteq> 0"
  shows "\<exists>es d' w'. drain_item (watch_all cs) cfg now c x d (w, l) =
      (Inr es, d', w', l @ (if drain_has_connector cs d0 x then [Compensated x] else [])) \<and>
      drain_progress cs cfg now d0 listed xs d'"
proof -
  from prog have ok: "db_ok d" and d: "d = d0\<lparr>db_obligations := db_obligations d\<rparr>"
    and pr: "progress o_seq (drain_has_connector cs d0) (drain_becomes cfg now)
      (tbl_lookup o_seq (db_obligations d0)) listed (x # xs) (tbl_lookup o_seq (db_obligations d))"
    by (simp_all add: drain_progress_def)
  from pr have mem: "x \<in> set listed" by (auto simp: progress_def)
  have "db_effects d = db_effects d0" by (subst d) simp
  then have eff: "effect_of d x = effect_of d0 x" by (simp add: effect_of_def)
  show ?thesis
  proof (cases "map_of cs (drain_connector_name (effect_of d x) x)")
    case None
    then have "map_of (watch_all cs) (drain_connector_name (effect_of d x) x) = None"
      by (simp add: map_of_watch_all)
    from drain_item_skips [OF ok this, of cfg now c "(w, l)"] obtain es where
      run: "drain_item (watch_all cs) cfg now c x d (w, l) = (Inr es, d, w, l)" by auto
    from progress_skip [OF pr] None ok d eff have "drain_progress cs cfg now d0 listed xs d"
      by (simp add: drain_progress_def drain_has_connector_def)
    with run None eff show ?thesis by (simp add: drain_has_connector_def)
  next
    case (Some conn)
    obtain res w1 where call: "c_compensate conn x w = (res, w1)" by (cases "c_compensate conn x w")
    have row: "tbl_lookup o_seq (db_obligations d) (o_seq x) = Some x"
      and ready: "obligation_claimable now x" using progress_row [OF pr dist] rows mem by simp_all
    have has: "drain_has_connector cs d0 x" using Some eff by (simp add: drain_has_connector_def)
    let ?r = "after_drain cfg now c res (owed_by cfg now x)"
    from drain_item_refines [OF ok row ready now, of "watch_all cs" "watch conn" "(w, l)" res
        "(w1, l @ [Compensated x])" cfg c] obtain es where
      run: "drain_item (watch_all cs) cfg now c x d (w, l) =
        (Inr es, put_obligation ?r d, w1, l @ [Compensated x])"
      using Some call by (auto simp: map_of_watch_all watch_def)
    have look: "tbl_lookup o_seq (db_obligations (put_obligation ?r d)) =
        (\<lambda>k. if k = o_seq x then Some ?r else tbl_lookup o_seq (db_obligations d) k)"
      using row by (auto simp: lookup_put_obligation fun_eq_iff)
    have "drain_progress cs cfg now d0 listed xs (put_obligation ?r d)"
      unfolding drain_progress_def look
    proof (intro conjI progress_handle [OF pr dist])
      show "put_obligation ?r d = d0\<lparr>db_obligations := db_obligations (put_obligation ?r d)\<rparr>"
        by (subst d) (simp add: put_obligation_def)
    qed (use drain_item_ok [OF ok run] has in \<open>auto simp: drain_becomes_def\<close>)
    with run has show ?thesis by auto
  qed
qed

lemma drain_tick:
  fixes cs :: "'w connectors" and cfg :: dispatch_cfg and clk :: "nat \<Rightarrow> int" and d :: db
  assumes ok: "db_ok d" and now: "clk 0 \<noteq> 0"
  defines "listed \<equiv> list_unresolved_obligations (clk 0) (dc_limit cfg) True False True (clk 0) d"
  shows "\<exists>es d' w'. drain_obligations_once (watch_all cs) cfg clk d (w, []) =
      (Inr es, d', w', map Compensated (filter (drain_has_connector cs d) listed)) \<and>
      drain_progress cs cfg (clk 0) d listed [] d'"
proof -
  let ?g = "\<lambda>x. if drain_has_connector cs d x then [Compensated x] else []"
  have start: "drain_progress cs cfg (clk 0) d listed listed d"
    using ok by (simp add: drain_progress_def progress_start)
  have "\<forall>y \<in> set listed. tbl_lookup o_seq (db_obligations d) (o_seq y) = Some y \<and>
      obligation_claimable (clk 0) y"
    and dist: "distinct (map o_seq listed)"
    using drain_listing [OF ok now] by (auto simp: listed_def)
  note step = drain_progress_step [OF _ this(2,1) now]
  have "\<exists>es d' w'. tick_loop (drain_item (watch_all cs) cfg (clk 0)) clk 1 listed [] d (w, []) =
      (Inr es, d', w', [] @ concat (map ?g listed)) \<and> drain_progress cs cfg (clk 0) d listed [] d'"
    by (rule tick_loop_run [where Q = "drain_progress cs cfg (clk 0) d listed", OF step start])
  then show ?thesis by (simp add: drain_obligations_once_def Let_def concat_if flip: listed_def)
qed

section \<open>Delays\<close>

lemma backoff_Suc: "0 \<le> base \<Longrightarrow> 0 \<le> cap \<Longrightarrow>
    backoff base cap (int (Suc n)) = min (2 * backoff base cap (int n)) cap"
  by (simp add: backoff_def nat_add_distrib)

interpretation retry: capped_backoff "\<lambda>n. backoff 5000 300000 (int n)" 5000 300000
  by unfold_locales (simp_all only: backoff_Suc, simp_all add: backoff_def)

lemma backoff_pos: "0 < base \<Longrightarrow> 0 < cap \<Longrightarrow> 0 < backoff base cap n"
  by (simp add: backoff_def)

lemma retry_delay_pos: "0 < dc_default_backoff_ms cfg \<Longrightarrow> 0 < dc_max_backoff_ms cfg \<Longrightarrow> 0 \<le> asked \<Longrightarrow>
    0 < retry_delay cfg asked n"
  by (simp add: retry_delay_def int_or_def backoff_pos)

text \<open>After its dispatch a row is out of the queue at the tick's time, whatever happened.\<close>

lemma after_dispatch_not_ready:
  assumes pos: "0 < dc_default_backoff_ms cfg" "0 < dc_max_backoff_ms cfg"
    and ttl: "0 < dc_lease_ttl_ms cfg" and claimer: "dc_claimer cfg \<noteq> []" and now: "0 < now"
  shows "\<not> dispatch_ready now (after_dispatch cfg now clk res (held_by cfg now r))"
  using retry_delay_pos [OF pos, of 0 "e_dispatch_attempts r"]
    retry_delay_pos [OF pos, of "dr_retry_after_ms (projr res)" "e_dispatch_attempts r"] ttl claimer now
  by (auto simp: after_dispatch_def dispatch_ready_def Let_def split: sum.split)

section \<open>The reconciler only observes\<close>

lemma observe_upd_settled: "e_status r \<noteq> EffectStatus_PENDING \<Longrightarrow>
    e_status (observe_upd res ext resp err now r) \<noteq> EffectStatus_PENDING"
  by (auto simp: observe_upd_def observe_row_def Let_def)

lemma observation_keeps_settled:
  assumes ok: "db_ok d" and run: "record_external_observation k res ext resp err kind clk d = Inr (x, d')"
  shows "keeps_settled d d'"
proof (cases "tbl_lookup effect_pk (db_effects d) k")
  case None
  with ok run have "d' = d" by (simp add: record_external_observation_cases)
  then show ?thesis by (simp add: keeps_settled_def)
next
  case (Some r)
  with ok run have es: "db_effects d' =
      tbl_modify effect_pk k (observe_upd res ext resp err clk) (db_effects d)"
    by (auto simp: record_external_observation_cases Let_def split: option.splits if_splits)
  show ?thesis
    unfolding keeps_settled_def es modify_lookup [OF ok observe_upd_frame]
    by (auto simp: observe_upd_settled)
qed

lemma reconcile_item_ok:
  "db_ok d \<Longrightarrow> reconcile_item cs clk eff d w = (x, d', w') \<Longrightarrow> db_ok d' \<and> keeps_settled d d'"
  by (auto simp: reconcile_item_def Let_def commit_def keeps_settled_def
      split: option.splits sum.splits prod.splits
      dest: record_external_observation_ok observation_keeps_settled [unfolded keeps_settled_def])

lemma keeps_settled_trans: "keeps_settled d d1 \<Longrightarrow> keeps_settled d1 d2 \<Longrightarrow> keeps_settled d d2"
  unfolding keeps_settled_def by blast

lemma reconcile_once_ok:
  assumes "db_ok d" and "reconcile_once cs stale n clk d w = (x, d', w')"
  shows "db_ok d' \<and> keeps_settled d d'"
  using assms(2) unfolding reconcile_once_def Let_def
  by (rule tick_loop_inv [where P = "\<lambda>e. db_ok e \<and> keeps_settled d e", rotated])
     (use assms(1) in \<open>auto simp: keeps_settled_def [of d d] dest: reconcile_item_ok keeps_settled_trans\<close>)

lemma reconcile_item_calls:
  assumes "reconcile_item (watch_all cs) c eff d (w, l) = (x, d', w', l')"
  shows "l' = l \<or> l' = l @ [Observed eff]"
  using assms
  by (auto simp: reconcile_item_def Let_def commit_def map_of_watch_all watch_def
      split: option.splits sum.splits prod.splits)

lemma reconcile_calls:
  assumes "tick_loop (reconcile_item (watch_all cs)) clk i xs acc d (w, l) = (x, d', w', l')"
  shows "\<exists>es. l' = l @ map Observed es \<and> set es \<subseteq> set xs"
  using assms
proof (induction xs arbitrary: i acc d w l)
  case (Cons y ys)
  obtain x1 d1 w1 l1 where it: "reconcile_item (watch_all cs) (clk i) y d (w, l) = (x1, d1, w1, l1)"
    by (cases "reconcile_item (watch_all cs) (clk i) y d (w, l)") auto
  from reconcile_item_calls [OF it] obtain e1 where l1: "l1 = l @ map Observed e1" "set e1 \<subseteq> {y}"
    by (metis append.right_neutral list.simps(8,9) empty_set list.set(2) empty_subsetI subset_refl)
  show ?case
  proof (cases x1)
    case (Inl e)
    with Cons.prems it l1 show ?thesis by auto
  next
    case (Inr a)
    with Cons.prems it have "tick_loop (reconcile_item (watch_all cs)) clk (Suc i) ys (acc @ a) d1 (w1, l1) =
        (x, d', w', l')" by simp
    from Cons.IH [OF this] obtain es where "l' = l1 @ map Observed es" "set es \<subseteq> set ys" by blast
    with l1 show ?thesis by (intro exI [of _ "e1 @ es"]) auto
  qed
qed simp

section \<open>Timers fire once\<close>

lemma fire_loop_calls: "\<exists>w' out. fire_loop (Some (watch_timer f)) ts (w, l) = (out, w', l @ ts) \<and>
    length out = length ts"
proof (induction ts arbitrary: w l)
  case (Cons t ts)
  obtain r w1 where "f t w = (r, w1)" by (cases "f t w")
  then have "watch_timer f t (w, l) = (r, w1, l @ [t])" by (simp add: watch_timer_def)
  moreover obtain w2 out where "fire_loop (Some (watch_timer f)) ts (w1, l @ [t]) = (out, w2, l @ t # ts)"
    "length out = length ts" using Cons.IH [of w1 "l @ [t]"] by auto
  ultimately show ?case by (simp add: Let_def)
qed simp

lemma fire_due_ok: "db_ok d \<Longrightarrow> fire_due_timers_once f n clk d w = (out, d', w') \<Longrightarrow> db_ok d'"
  using list_due_timers_ok [of d clk n True clk]
  by (auto simp: fire_due_timers_once_def Let_def split: prod.splits)

section \<open>Watching changes nothing\<close>

lemma unwatch_commit: "unwatch (commit res d k (w, l)) = commit res d (\<lambda>d'. unwatch (k d')) w"
  by (auto simp: unwatch_def commit_def split: sum.split)

lemma unwatch_settle: "unwatch (settle_dispatch cfg now clk r out d (w, l)) = settle_dispatch cfg now clk r out d w"
  by (simp add: settle_dispatch_def Let_def unwatch_commit) (simp add: unwatch_def)

lemma unwatch_item:
  "unwatch (dispatch_item (watch_all cs) cfg now clk eff d (w, l)) = dispatch_item cs cfg now clk eff d w"
  by (auto simp: dispatch_item_def Let_def conn_of_watch_all watch_def unwatch_commit unwatch_settle
      split: option.split sum.split prod.split) (simp_all add: unwatch_def)

lemma unwatch_loop:
  "unwatch (tick_loop (dispatch_item (watch_all cs) cfg now) clk i xs acc d (w, l)) =
   tick_loop (dispatch_item cs cfg now) clk i xs acc d w"
proof (induction xs arbitrary: i acc d w l)
  case (Cons x xs)
  obtain r d1 w1 l1 where it: "dispatch_item (watch_all cs) cfg now (clk i) x d (w, l) = (r, d1, w1, l1)"
    by (cases "dispatch_item (watch_all cs) cfg now (clk i) x d (w, l)") auto
  have "dispatch_item cs cfg now (clk i) x d w = (r, d1, w1)"
    using unwatch_item [of cs cfg now "clk i" x d w l] it by (simp add: unwatch_def)
  with it Cons.IH show ?case by (cases r) (simp_all, simp add: unwatch_def)
qed (simp add: unwatch_def)

lemma unwatch_tick:
  "unwatch (dispatch_outbox_once (watch_all cs) cfg clk d (w, l)) = dispatch_outbox_once cs cfg clk d w"
  by (simp add: dispatch_outbox_once_def Let_def unwatch_loop)

section \<open>Properties\<close>

lemma dispatch_tick_rows:
  assumes "db_ok d" and "clk 0 \<noteq> 0" and "dispatch_outbox_once cs cfg clk d w = (x, d', w')"
  shows "dispatch_progress cs cfg (clk 0) d
    (list_effects_to_dispatch (clk 0) [] (dc_limit cfg) (clk 0) d) [] d'"
proof -
  from dispatch_tick [where clk = clk, OF assms(1,2), of cs cfg w] obtain es d2 w2 log where
    t: "dispatch_outbox_once (watch_all cs) cfg clk d (w, []) = (Inr es, d2, w2, log)"
    and pr: "dispatch_progress cs cfg (clk 0) d
      (list_effects_to_dispatch (clk 0) [] (dc_limit cfg) (clk 0) d) [] d2" by blast
  have "d2 = d'" using unwatch_tick [of cs cfg clk d w "[]"] t assms(3) by (simp add: unwatch_def)
  with pr show ?thesis by simp
qed

lemma progress_end:
  assumes "progress key handled becomes look0 listed [] look"
  shows "handled y \<Longrightarrow> y \<in> set listed \<Longrightarrow> \<exists>r. look (key y) = Some r \<and> becomes y r"
    and "k \<notin> key ` {y \<in> set listed. handled y} \<Longrightarrow> look k = look0 k"
  using assms unfolding progress_def by auto

text \<open>
  C4. One outbox tick, whatever the connectors answer or raise: it runs to its end, and the
  connectors' \<open>dispatch\<close> is called exactly for the listed effects that have a registered
  connector, in list order, once per effect, each time with the row as freshly claimed by
  this reactor (pending, outbox, lease running from the tick's time).
\<close>

theorem outbox_tick_calls:
  assumes "db_ok d" and "clk 0 \<noteq> 0"
  shows "\<exists>es d' w' claimed. dispatch_outbox_once (watch_all cs) cfg clk d (w, []) =
      (Inr es, d', w', map (\<lambda>x. Dispatched (held_by cfg (clk 0) x)) claimed) \<and>
    claimed = filter (\<lambda>x. conn_of cs (e_connector x) \<noteq> None)
                (list_effects_to_dispatch (clk 0) [] (dc_limit cfg) (clk 0) d) \<and>
    distinct (map effect_pk claimed) \<and> length claimed \<le> dc_limit cfg \<and>
    set claimed \<subseteq> {r \<in> set (db_effects d). dispatch_ready (clk 0) r}"
proof -
  let ?l = "list_effects_to_dispatch (clk 0) [] (dc_limit cfg) (clk 0) d"
  let ?c = "filter (\<lambda>x. conn_of cs (e_connector x) \<noteq> None) ?l"
  have "length ?l \<le> dc_limit cfg"
    by (simp add: list_effects_to_dispatch_def Let_def length_order_limit)
  then have "length ?c \<le> dc_limit cfg" using length_filter_le order_trans by blast
  moreover have "distinct (map effect_pk ?c)"
    using dispatch_listing(1) [OF assms] by (simp add: distinct_map_filter)
  moreover have "set ?c \<subseteq> {r \<in> set (db_effects d). dispatch_ready (clk 0) r}"
    using dispatch_listing(2) [OF assms] tbl_lookup_SomeD by fastforce
  ultimately show ?thesis using dispatch_tick [where clk = clk, OF assms, of cs cfg w] by blast
qed

theorem outbox_tick_calls_witness:
  "\<exists>es d' w'. dispatch_outbox_once (watch_all [(''bank'', LogConnector)]) (dispatch_defaults ''w1'')
       (\<lambda>_. 1000) sample_db (([], [], []), []) =
     (Inr es, d', w', [Dispatched (held_by (dispatch_defaults ''w1'') 1000 sample_pending)])"
proof -
  have "filter (\<lambda>x. conn_of [(''bank'', LogConnector)] (e_connector x) \<noteq> None)
      (list_effects_to_dispatch 1000 [] 50 1000 sample_db) = [sample_pending]"
    by code_simp
  with outbox_tick_calls [OF sample_db_ok, of "\<lambda>_. 1000" "[(''bank'', LogConnector)]"
      "dispatch_defaults ''w1''" "([], [], [])"]
  show ?thesis by (auto simp: dispatch_defaults_def)
qed

text \<open>
  The abstract outbox: the listed effects in order, each as its connector answers at that moment.
  It has no claims, no re-reading and no errors of the service.
\<close>

fun abstract_outbox ::
    "'w connectors \<Rightarrow> dispatch_cfg \<Rightarrow> int \<Rightarrow> (nat \<Rightarrow> int) \<Rightarrow> nat \<Rightarrow> EffectRecord list \<Rightarrow> db \<Rightarrow> 'w \<Rightarrow> db \<times> 'w" where
  "abstract_outbox cs cfg now clk i [] d w = (d, w)"
| "abstract_outbox cs cfg now clk i (x # xs) d w =
     (case conn_of cs (e_connector x) of
        None \<Rightarrow> abstract_outbox cs cfg now clk (Suc i) xs d w
      | Some conn \<Rightarrow>
          (case c_dispatch conn (held_by cfg now x) w of (res, w1) \<Rightarrow>
             abstract_outbox cs cfg now clk (Suc i) xs
               (put_effect (after_dispatch cfg now (clk i) res (held_by cfg now x)) d) w1))"

lemma tick_loop_abstract:
  assumes "db_ok d" and "now \<noteq> 0" and "distinct (map effect_pk xs)"
    and "\<forall>y \<in> set xs. tbl_lookup effect_pk (db_effects d) (effect_pk y) = Some y \<and> dispatch_ready now y"
    and "abstract_outbox cs cfg now clk i xs d w = (d', w')"
  shows "\<exists>es. tick_loop (dispatch_item cs cfg now) clk i xs acc d w = (Inr es, d', w')"
  using assms
proof (induction xs arbitrary: i acc d w)
  case (Cons x xs)
  show ?case
  proof (cases "conn_of cs (e_connector x)")
    case None
    obtain es where "dispatch_item cs cfg now (clk i) x d w = (Inr es, d, w)" using dispatch_item_skips [OF None] by blast
    with Cons None show ?thesis by simp
  next
    case (Some conn)
    obtain res w1 where call: "c_dispatch conn (held_by cfg now x) w = (res, w1)" by fastforce
    let ?r = "after_dispatch cfg now (clk i) res (held_by cfg now x)"
    have row: "tbl_lookup effect_pk (db_effects d) (effect_pk x) = Some x" "dispatch_ready now x" using Cons.prems(4) by auto
    obtain es where item: "dispatch_item cs cfg now (clk i) x d w = (Inr es, put_effect ?r d, w1)"
      using dispatch_item_refines [OF Cons.prems(1) row Cons.prems(2) Some call] by blast
    have "\<forall>y \<in> set xs. tbl_lookup effect_pk (db_effects (put_effect ?r d)) (effect_pk y) = Some y \<and> dispatch_ready now y"
    proof
      fix y assume y: "y \<in> set xs"
      then have "effect_pk y \<noteq> effect_pk x" using Cons.prems(3) by (metis distinct.simps(2) image_eqI list.simps(9) set_map)
      with y Cons.prems(4) show "tbl_lookup effect_pk (db_effects (put_effect ?r d)) (effect_pk y) = Some y \<and> dispatch_ready now y"
        by (simp add: lookup_put)
    qed
    then have "\<exists>es'. tick_loop (dispatch_item cs cfg now) clk (Suc i) xs (acc @ es) (put_effect ?r d) w1 = (Inr es', d', w')"
      using Cons.prems(2,3,5) Some call by (intro Cons.IH dispatch_item_ok [OF Cons.prems(1) item]) auto
    with item show ?thesis by simp
  qed
qed simp

text \<open>
  C15. The concrete tick implements the abstract outbox: it runs to its end, and the database and
  the world it leaves are those of the abstract outbox over the listed effects, in which every
  effect becomes what \<open>after_dispatch\<close> makes of the claimed row and the answer its connector gave to
  this call. Every effect without a connector or not listed, and every other table, is untouched.
\<close>

theorem outbox_tick_refines:
  assumes "db_ok d" and "clk 0 \<noteq> 0"
  shows "let listed = list_effects_to_dispatch (clk 0) [] (dc_limit cfg) (clk 0) d in
    \<exists>es d' w'. dispatch_outbox_once cs cfg clk d w = (Inr es, d', w') \<and>
      abstract_outbox cs cfg (clk 0) clk 1 listed d w = (d', w') \<and>
      d' = d\<lparr>db_effects := db_effects d'\<rparr> \<and>
      (\<forall>k. k \<notin> effect_pk ` {y \<in> set listed. conn_of cs (e_connector y) \<noteq> None} \<longrightarrow> get_effect k d' = get_effect k d)"
proof -
  let ?l = "list_effects_to_dispatch (clk 0) [] (dc_limit cfg) (clk 0) d"
  obtain d' w' where abs: "abstract_outbox cs cfg (clk 0) clk 1 ?l d w = (d', w')" by fastforce
  obtain es where run: "dispatch_outbox_once cs cfg clk d w = (Inr es, d', w')"
    using tick_loop_abstract [OF assms dispatch_listing(1) [OF assms] _ abs, of "[]"] dispatch_listing(2) [OF assms]
    by (auto simp: dispatch_outbox_once_def Let_def)
  from dispatch_tick_rows [OF assms run] have ok': "db_ok d'" and d': "d' = d\<lparr>db_effects := db_effects d'\<rparr>"
    and p: "progress effect_pk (\<lambda>y. conn_of cs (e_connector y) \<noteq> None) (dispatch_becomes cfg (clk 0))
        (tbl_lookup effect_pk (db_effects d)) ?l [] (tbl_lookup effect_pk (db_effects d'))"
    by (auto simp: dispatch_progress_def)
  have "get_effect k d' = get_effect k d" if "k \<notin> effect_pk ` {y \<in> set ?l. conn_of cs (e_connector y) \<noteq> None}" for k
    using progress_end(2) [OF p that] by (simp add: get_effect_eq [OF ok'] get_effect_eq [OF assms(1)])
  with run abs d' show ?thesis unfolding Let_def by blast
qed

theorem outbox_tick_refines_witness:
  "\<exists>es d' w'. dispatch_outbox_once [(''bank'', LogConnector)] (dispatch_defaults ''w1'') (\<lambda>_. 1000) sample_db ([], [], []) = (Inr es, d', w') \<and>
     abstract_outbox [(''bank'', LogConnector)] (dispatch_defaults ''w1'') 1000 (\<lambda>_. 1000) 1 [sample_pending] sample_db ([], [], []) = (d', w') \<and>
     get_effect (effect_pk sample_done) d' = get_effect (effect_pk sample_done) sample_db"
proof -
  let ?cs = "[(''bank'', LogConnector)]" and ?cfg = "dispatch_defaults ''w1''"
  have l: "list_effects_to_dispatch 1000 [] 50 1000 sample_db = [sample_pending]" by code_simp
  have lim: "dc_limit ?cfg = 50" by (simp add: dispatch_defaults_def)
  obtain es d' w' where run: "dispatch_outbox_once ?cs ?cfg (\<lambda>_. 1000) sample_db ([], [], []) = (Inr es, d', w')"
      "abstract_outbox ?cs ?cfg 1000 (\<lambda>_. 1000) 1 [sample_pending] sample_db ([], [], []) = (d', w')"
    and frame: "\<And>k. k \<notin> effect_pk ` {y \<in> set [sample_pending]. conn_of ?cs (e_connector y) \<noteq> None} \<Longrightarrow> get_effect k d' = get_effect k sample_db"
    using outbox_tick_refines [OF sample_db_ok, of "\<lambda>_. 1000" ?cfg ?cs "([], [], [])"] unfolding Let_def lim l by auto
  have "effect_pk sample_done \<notin> effect_pk ` {y \<in> set [sample_pending]. conn_of ?cs (e_connector y) \<noteq> None}" by auto
  with run frame show ?thesis by blast
qed

text \<open>
  Progress of the queue: with positive delays and lease and a named claimer, no effect
  an outbox tick dispatched is ready again at the tick's time, whatever its connector did.
\<close>

lemma outbox_tick_leaves_queue:
  assumes "db_ok d" and "0 < clk 0" and "dispatch_outbox_once cs cfg clk d w = (x, d', w')"
    and "0 < dc_default_backoff_ms cfg" and "0 < dc_max_backoff_ms cfg" and "0 < dc_lease_ttl_ms cfg"
    and "dc_claimer cfg \<noteq> []"
    and "y \<in> set (list_effects_to_dispatch (clk 0) [] (dc_limit cfg) (clk 0) d)"
    and "conn_of cs (e_connector y) \<noteq> None"
  shows "\<exists>r. get_effect (effect_pk y) d' = Inr (Some r) \<and> \<not> dispatch_ready (clk 0) r"
proof -
  have "clk 0 \<noteq> 0" using assms(2) by simp
  note rows = dispatch_tick_rows [OF assms(1) this assms(3), unfolded dispatch_progress_def]
  then have "db_ok d'" by blast
  moreover obtain res c where "tbl_lookup effect_pk (db_effects d') (effect_pk y) =
       Some (after_dispatch cfg (clk 0) c res (held_by cfg (clk 0) y))"
    using progress_end(1) [OF rows [THEN conjunct2, THEN conjunct2] assms(9,8)]
    unfolding dispatch_becomes_def by auto
  ultimately show ?thesis using after_dispatch_not_ready [OF assms(4,5,6,7,2)] by (simp add: get_effect_eq)
qed

text \<open>
  The reconciler never dispatches: in one tick, whatever the observers answer and even
  if the tick ends in an error, only \<open>observe\<close> is called, only on effects it listed; no
  effect that had left \<open>PENDING\<close> returns to it, and the invariant holds at the end.
\<close>

lemma reconciler_only_observes:
  assumes "db_ok d" and "reconcile_once (watch_all cs) stale n clk d (w, []) = (x, d', w', l)"
  shows "(\<exists>es. l = map Observed es \<and> set es \<subseteq>
       set (list_pending_effects (if stale > 0 then clk 0 - stale else 0) (stale > 0) True n d)) \<and>
    db_ok d' \<and> keeps_settled d d'"
  using reconcile_once_ok [OF assms] reconcile_calls assms(2)
  unfolding reconcile_once_def Let_def by fastforce

text \<open>
  C18. Last in, first out: one drain tick calls \<open>compensate\<close> exactly for the claimable
  obligations it listed whose connector is registered, once each, with strictly decreasing
  sequence numbers, and then each is what \<open>after_drain\<close> makes of the claimed row, every
  other obligation and every other table untouched.
\<close>

theorem drain_tick_lifo:
  assumes "db_ok d" and "clk 0 \<noteq> 0"
  shows "\<exists>es d' w' obs. drain_obligations_once (watch_all cs) cfg clk d (w, []) =
      (Inr es, d', w', map Compensated obs) \<and>
    obs = filter (drain_has_connector cs d)
            (list_unresolved_obligations (clk 0) (dc_limit cfg) True False True (clk 0) d) \<and>
    sorted_wrt (\<lambda>a b. o_seq a > o_seq b) obs \<and>
    drain_progress cs cfg (clk 0) d
      (list_unresolved_obligations (clk 0) (dc_limit cfg) True False True (clk 0) d) [] d'"
proof -
  let ?l = "list_unresolved_obligations (clk 0) (dc_limit cfg) True False True (clk 0) d"
  let ?o = "filter (drain_has_connector cs d) ?l"
  have "sorted_wrt (\<lambda>a b. o_seq a \<ge> o_seq b \<and> o_seq a \<noteq> o_seq b) ?l"
    using drain_listing(1,2) [OF assms, of "dc_limit cfg"]
    by (simp add: distinct_conv_nth sorted_wrt_iff_nth_less)
  then have "sorted_wrt (\<lambda>a b. o_seq a > o_seq b) ?l"
    by (rule sorted_wrt_mono_rel [rotated]) auto
  then have "sorted_wrt (\<lambda>a b. o_seq a > o_seq b) ?o" by (rule sorted_wrt_filter)
  then show ?thesis using drain_tick [where clk = clk, OF assms, of cs cfg w] by blast
qed

theorem drain_tick_lifo_witness:
  "\<exists>es d' w'. drain_obligations_once (watch_all [(''refund'', LogConnector)]) drain_defaults
      (\<lambda>_. 1000) sample_db (([], [], []), []) = (Inr es, d', w', [Compensated sample_obligation])"
proof -
  have "filter (drain_has_connector [(''refund'', LogConnector)] sample_db)
      (list_unresolved_obligations 1000 50 True False True 1000 sample_db) = [sample_obligation]"
    by code_simp
  with drain_tick_lifo [OF sample_db_ok, of "\<lambda>_. 1000" "[(''refund'', LogConnector)]" drain_defaults
      "([], [], [])"]
  show ?thesis by (auto simp: drain_defaults_def)
qed

text \<open>
  Timers reach their dispatcher once: a tick hands the dispatcher exactly the due timers
  it listed, in order, also when the dispatcher raises for some of them, reports one entry
  per timer, and no later tick at any time is given any of them again.
\<close>

lemma timers_dispatched_once:
  assumes ok: "db_ok d"
  shows "\<exists>out d' w'. fire_due_timers_once (Some (watch_timer f)) n clk d (w, []) =
      (out, d', w', fst (list_due_timers clk n True clk d)) \<and>
    length out = length (fst (list_due_timers clk n True clk d)) \<and> db_ok d' \<and>
    timer_pk ` set (fst (list_due_timers clk n True clk d)) \<inter>
      timer_pk ` set (fst (list_due_timers clk' n' True clk' d')) = {}"
proof -
  let ?ts = "fst (list_due_timers clk n True clk d)" and ?d' = "snd (list_due_timers clk n True clk d)"
  from fire_loop_calls [of f ?ts w "[]"] obtain w' out where
    "fire_loop (Some (watch_timer f)) ?ts (w, []) = (out, w', ?ts)" "length out = length ?ts" by auto
  then have "fire_due_timers_once (Some (watch_timer f)) n clk d (w, []) = (out, ?d', w', ?ts)"
    by (cases "list_due_timers clk n True clk d") (simp add: fire_due_timers_once_def)
  moreover have "timer_pk ` set ?ts \<inter> timer_pk ` set (fst (list_due_timers clk' n' True clk' ?d')) = {}"
    using fired_stays_out [OF ok] by fastforce
  ultimately show ?thesis using list_due_timers_ok [OF ok] \<open>length out = length ?ts\<close> by blast
qed

text \<open>
  The retry delay of the default configuration: it starts at 5 s, never falls as the
  attempts grow, stays between 5 s and 5 min, and reaches the cap of 5 min.
\<close>

lemma default_backoff_bounds:
  "backoff 5000 300000 0 = 5000 \<and>
   5000 \<le> backoff 5000 300000 (int n) \<and> backoff 5000 300000 (int n) \<le> 300000 \<and>
   backoff 5000 300000 (int n) \<le> backoff 5000 300000 (int (Suc n)) \<and>
   (\<exists>m. backoff 5000 300000 (int m) = 300000)"
  using retry.delay_0 retry.delay_bounds [of n] retry.delay_mono [of n] retry.delay_reaches_cap by simp

end
