(* ===== verification/ServiceSteps.thy ===== *)
theory ServiceSteps
  imports Compaction Reactors
begin

text \<open>
  The embedded tier as a transition system. Every process of a deployment (agents, the
  reactors, the compactor, ADK itself) acts on the shared database through one committed
  transaction at a time, so a run of the system is a sequence of operations; an operation
  that raises is rolled back and leaves the database as it was. The sequences are arbitrary:
  they include every interleaving of concurrent agents and reactors and a crash at any
  point between two transactions.

  Shown here: every reachable database satisfies \<open>db_ok\<close>; each reactor tick is such a
  sequence, whatever its connectors do; and the leases exclude across interleavings.
\<close>

section \<open>Operations\<close>

datatype service_op =
    CreateSession session_key
  | DeleteSession session_key
  | BeginEffect begin_args int
  | CompleteEffect effect_id string json json int
  | ClaimDispatch effect_id string int int int
  | RecordAttempt effect_id string int int
  | AttachRef effect_id string
  | Observe effect_id string string json json string int
  | RegisterCompensation register_args int
  | ClaimObligation int string int int int
  | RecordObligationAttempt int string int int
  | ResolveObligation int string json int
  | SetTimer effect_id int string json int
  | ListDueTimers int nat bool int
  | CancelTimer effect_id
  | WriteValue string string json int string int
  | TakeSnapshot session_key int int int
  | ContinueAsNew session_key string string json bool int
  | Compact CompactionPolicy int int

text \<open>
  Deleting a row of \<open>sessions\<close>: the four foreign keys are declared \<open>ON DELETE CASCADE\<close>, so
  where the engine enforces them the session's rows go with it. \<open>tape_values\<close> has no
  foreign key.
\<close>

definition cascade_delete :: "session_key \<Rightarrow> db \<Rightarrow> db" where
  "cascade_delete s d =
     (if db_fk_on d then
        d\<lparr>db_sessions := filter (\<lambda>x. x \<noteq> s) (db_sessions d),
          db_effects := filter (\<lambda>r. effect_session r \<noteq> s) (db_effects d),
          db_obligations := filter (\<lambda>r. obligation_session r \<noteq> s) (db_obligations d),
          db_timers := filter (\<lambda>r. timer_session r \<noteq> s) (db_timers d),
          db_snapshots := filter (\<lambda>r. snapshot_pk r \<noteq> s) (db_snapshots d)\<rparr>
      else d\<lparr>db_sessions := filter (\<lambda>x. x \<noteq> s) (db_sessions d)\<rparr>)"

definition committed :: "'a outcome \<Rightarrow> db \<Rightarrow> db" where
  "committed res d = (case res of Inl _ \<Rightarrow> d | Inr (_, d') \<Rightarrow> d')"

fun apply_op :: "service_op \<Rightarrow> db \<Rightarrow> db" where
  "apply_op (CreateSession s) d = d\<lparr>db_sessions := List.insert s (db_sessions d)\<rparr>"
| "apply_op (DeleteSession s) d = cascade_delete s d"
| "apply_op (BeginEffect a clk) d = committed (begin_effect a clk d) d"
| "apply_op (CompleteEffect k st resp err clk) d = committed (complete_effect k st resp err clk d) d"
| "apply_op (ClaimDispatch k c ttl now clk) d = committed (claim_effect_dispatch k c ttl now clk d) d"
| "apply_op (RecordAttempt k err nx clk) d = committed (record_dispatch_attempt k err nx clk d) d"
| "apply_op (AttachRef k ext) d = attach_external_ref k ext d"
| "apply_op (Observe k res ext resp err kind clk) d =
     committed (record_external_observation k res ext resp err kind clk d) d"
| "apply_op (RegisterCompensation a clk) d = committed (register_compensation a clk d) d"
| "apply_op (ClaimObligation q c ttl now clk) d = committed (claim_obligation q c ttl now clk d) d"
| "apply_op (RecordObligationAttempt q err nx clk) d = committed (record_obligation_attempt q err nx clk d) d"
| "apply_op (ResolveObligation q st res clk) d = committed (resolve_obligation q st res clk d) d"
| "apply_op (SetTimer k f kd p clk) d = committed (set_timer k f kd p clk d) d"
| "apply_op (ListDueTimers now n claim clk) d = snd (list_due_timers now n claim clk d)"
| "apply_op (CancelTimer k) d = snd (cancel_timer k d)"
| "apply_op (WriteValue ns key v iv w clk) d = committed (write_value ns key v iv w clk d) d"
| "apply_op (TakeSnapshot s up clk1 clk2) d = committed (take_snapshot s up clk1 clk2 d) d"
| "apply_op (ContinueAsNew s old new st prune clk) d = committed (continue_as_new s old new st prune clk d) d"
| "apply_op (Compact policy now clk) d = snd (compact_once policy now clk d)"

inductive service_step :: "db \<Rightarrow> db \<Rightarrow> bool" where
  op: "service_step d (apply_op a d)"

definition run_ops :: "service_op list \<Rightarrow> db \<Rightarrow> db" where
  "run_ops as d = fold apply_op as d"

definition initial_db :: "db \<Rightarrow> bool" where
  "initial_db d \<longleftrightarrow> db_effects d = [] \<and> db_obligations d = [] \<and> db_timers d = [] \<and>
     db_snapshots d = [] \<and> db_values d = []"

text \<open>
  \<open>no_claim_before k E d\<close>: effect \<open>k\<close> exists and cannot be claimed at a time before \<open>E\<close>.
  An operation is \<open>lease_safe\<close> for \<open>k\<close> when it is not the release of \<open>k\<close>'s lease
  (\<open>record_dispatch_attempt\<close>), does not delete the row, and, as a claim of \<open>k\<close>, is by a
  named claimer for a lease of non-negative length.
\<close>

definition no_claim_before :: "effect_id \<Rightarrow> int \<Rightarrow> db \<Rightarrow> bool" where
  "no_claim_before k E d \<longleftrightarrow> (case tbl_lookup effect_pk (db_effects d) k of
     None \<Rightarrow> False | Some r \<Rightarrow> (\<forall>t < E. \<not> dispatch_ready t r))"

fun lease_safe :: "effect_id \<Rightarrow> service_op \<Rightarrow> bool" where
  "lease_safe k (RecordAttempt k' err nx clk) = (k' \<noteq> k)"
| "lease_safe k (ClaimDispatch k' c ttl now clk) = (k' = k \<longrightarrow> c \<noteq> [] \<and> 0 \<le> ttl)"
| "lease_safe k (DeleteSession s) = False"
| "lease_safe k (ContinueAsNew s old new st prune clk) = False"
| "lease_safe k (Compact policy now clk) = False"
| "lease_safe k a = True"

definition no_drain_before :: "int \<Rightarrow> int \<Rightarrow> db \<Rightarrow> bool" where
  "no_drain_before q E d \<longleftrightarrow> (case tbl_lookup o_seq (db_obligations d) q of
     None \<Rightarrow> False | Some r \<Rightarrow> (\<forall>t < E. \<not> obligation_claimable t r))"

fun drain_safe :: "int \<Rightarrow> service_op \<Rightarrow> bool" where
  "drain_safe q (RecordObligationAttempt q' err nx clk) = (q' \<noteq> q)"
| "drain_safe q (ClaimObligation q' c ttl now clk) = (q' = q \<longrightarrow> 0 \<le> ttl)"
| "drain_safe q (DeleteSession s) = False"
| "drain_safe q (Compact policy now clk) = False"
| "drain_safe q a = True"

section \<open>Every operation keeps the invariant\<close>

lemma committed_ok: "db_ok d \<Longrightarrow> (\<And>x d'. res = Inr (x, d') \<Longrightarrow> db_ok d') \<Longrightarrow> db_ok (committed res d)"
  by (auto simp: committed_def split: sum.split)

lemma cascade_delete_ok: "db_ok d \<Longrightarrow> db_ok (cascade_delete s d)"
  by (auto simp: cascade_delete_def db_ok_def tbl_ok_filter business_unique_filter list_all_iff)

lemma continue_as_new_ok:
  assumes "db_ok d" and "continue_as_new s old new st prune clk d = Inr (x, d')"
  shows "db_ok d'"
  using continue_as_new_cases [OF assms] by simp

lemma apply_op_ok: "db_ok d \<Longrightarrow> db_ok (apply_op a d)"
proof (cases a)
  case (CreateSession s)
  assume "db_ok d"
  with CreateSession show ?thesis by (simp add: db_ok_def)
qed (auto intro: committed_ok cascade_delete_ok attach_external_ref_ok list_due_timers_ok cancel_timer_ok
      compact_once_ok begin_effect_ok complete_effect_ok claim_effect_dispatch_ok
      record_dispatch_attempt_ok record_external_observation_ok register_compensation_ok
      claim_obligation_ok record_obligation_attempt_ok resolve_obligation_ok set_timer_ok
      write_value_ok take_snapshot_ok continue_as_new_ok)

lemma initial_db_ok: "initial_db d \<Longrightarrow> db_ok d"
  by (simp add: initial_db_def db_ok_def business_unique_def)

inductive_cases service_stepE: "service_step d d'"

interpretation service: guarded_system initial_db service_step db_ok
  by unfold_locales (auto elim!: service_stepE intro: apply_op_ok initial_db_ok)

section \<open>A reactor tick is a sequence of operations\<close>

lemma op_steps: "service_step\<^sup>*\<^sup>* d (apply_op a d)"
  by (rule r_into_rtranclp) (rule service_step.op)

lemma committed_steps:
  assumes "res = Inr (x, d')" and "committed res d = apply_op a d"
  shows "service_step\<^sup>*\<^sup>* d d'"
  using op_steps [of d a] assms by (simp add: committed_def)

lemma claim_steps: "claim_effect_dispatch k c ttl now clk d = Inr (x, d') \<Longrightarrow> service_step\<^sup>*\<^sup>* d d'"
  by (rule committed_steps [where a = "ClaimDispatch k c ttl now clk"]) simp_all

lemma complete_steps: "complete_effect k st resp err clk d = Inr (x, d') \<Longrightarrow> service_step\<^sup>*\<^sup>* d d'"
  by (rule committed_steps [where a = "CompleteEffect k st resp err clk"]) simp_all

lemma attempt_steps: "record_dispatch_attempt k err nx clk d = Inr (x, d') \<Longrightarrow> service_step\<^sup>*\<^sup>* d d'"
  by (rule committed_steps [where a = "RecordAttempt k err nx clk"]) simp_all

lemma attach_steps: "service_step\<^sup>*\<^sup>* d d' \<Longrightarrow> service_step\<^sup>*\<^sup>* d (attach_external_ref k ext d')"
  using op_steps [of d' "AttachRef k ext"] by simp

lemma observe_steps:
  "record_external_observation k res ext resp err kind clk d = Inr (x, d') \<Longrightarrow> service_step\<^sup>*\<^sup>* d d'"
  by (rule committed_steps [where a = "Observe k res ext resp err kind clk"]) simp_all

lemma claim_obligation_steps: "claim_obligation q c ttl now clk d = Inr (x, d') \<Longrightarrow> service_step\<^sup>*\<^sup>* d d'"
  by (rule committed_steps [where a = "ClaimObligation q c ttl now clk"]) simp_all

lemma obligation_attempt_steps:
  "record_obligation_attempt q err nx clk d = Inr (x, d') \<Longrightarrow> service_step\<^sup>*\<^sup>* d d'"
  by (rule committed_steps [where a = "RecordObligationAttempt q err nx clk"]) simp_all

lemma resolve_steps: "resolve_obligation q st res clk d = Inr (x, d') \<Longrightarrow> service_step\<^sup>*\<^sup>* d d'"
  by (rule committed_steps [where a = "ResolveObligation q st res clk"]) simp_all

lemma settle_dispatch_steps:
  "settle_dispatch cfg now clk r out d w = (x, d', w') \<Longrightarrow> service_step\<^sup>*\<^sup>* d d'"
  by (auto simp: settle_dispatch_def Let_def commit_def split: if_splits sum.splits
      dest!: complete_steps attempt_steps intro!: attach_steps)

lemma dispatch_item_steps:
  assumes "dispatch_item cs cfg now clk eff d w = (x, d', w')"
  shows "service_step\<^sup>*\<^sup>* d d'"
  using assms
  by (auto simp: dispatch_item_def Let_def commit_def
      split: if_splits option.splits sum.splits prod.splits
      dest!: claim_steps settle_dispatch_steps attempt_steps)

lemma settle_drain_steps:
  "settle_drain cfg now clk ob out d w = (x, d', w') \<Longrightarrow> service_step\<^sup>*\<^sup>* d d'"
  by (auto simp: settle_drain_def Let_def commit_def split: if_splits sum.splits
      dest: resolve_steps obligation_attempt_steps)

lemma drain_item_steps:
  assumes "drain_item cs cfg now clk ob d w = (x, d', w')"
  shows "service_step\<^sup>*\<^sup>* d d'"
  using assms
  by (auto simp: drain_item_def Let_def commit_def
      split: if_splits option.splits sum.splits prod.splits
      dest!: claim_obligation_steps settle_drain_steps obligation_attempt_steps)

lemma reconcile_item_steps:
  "reconcile_item cs clk eff d w = (x, d', w') \<Longrightarrow> service_step\<^sup>*\<^sup>* d d'"
  by (auto simp: reconcile_item_def Let_def commit_def split: option.splits sum.splits prod.splits
      dest: observe_steps)

lemma tick_steps:
  assumes "\<And>c x d w r d' w'. f c x d w = (r, d', w') \<Longrightarrow> service_step\<^sup>*\<^sup>* d d'"
    and "tick_loop f clk i xs acc d w = (r, d', w')"
  shows "service_step\<^sup>*\<^sup>* d d'"
  using assms(2)
  by (rule tick_loop_inv [where P = "service_step\<^sup>*\<^sup>* d", rotated])
     (use assms(1) in \<open>blast intro: rtranclp_trans rtranclp.rtrancl_refl\<close>)+

lemma dispatch_outbox_steps: "dispatch_outbox_once cs cfg clk d w = (x, d', w') \<Longrightarrow> service_step\<^sup>*\<^sup>* d d'"
  unfolding dispatch_outbox_once_def Let_def
  by (rule tick_steps [where f = "dispatch_item cs cfg (clk 0)", OF dispatch_item_steps])

lemma reconcile_steps: "reconcile_once cs stale n clk d w = (x, d', w') \<Longrightarrow> service_step\<^sup>*\<^sup>* d d'"
  unfolding reconcile_once_def Let_def
  by (rule tick_steps [where f = "reconcile_item cs", OF reconcile_item_steps])

lemma drain_steps: "drain_obligations_once cs cfg clk d w = (x, d', w') \<Longrightarrow> service_step\<^sup>*\<^sup>* d d'"
  unfolding drain_obligations_once_def Let_def
  by (rule tick_steps [where f = "drain_item cs cfg (clk 0)", OF drain_item_steps])

lemma fire_due_steps: "fire_due_timers_once f n clk d w = (out, d', w') \<Longrightarrow> service_step\<^sup>*\<^sup>* d d'"
  using op_steps [of d "ListDueTimers clk n True clk"]
  by (auto simp: fire_due_timers_once_def Let_def split: prod.splits)

section \<open>Leases across interleavings\<close>

lemma no_claim_modify:
  assumes "db_ok d" and "effect_frame f" and "no_claim_before k E d"
    and "\<And>r. k' = k \<Longrightarrow> \<forall>t < E. \<not> dispatch_ready t r \<Longrightarrow> \<forall>t < E. \<not> dispatch_ready t (f r)"
  shows "no_claim_before k E (d\<lparr>db_effects := tbl_modify effect_pk k' f (db_effects d)\<rparr>)"
  using assms by (auto simp: no_claim_before_def modify_lookup split: option.splits)

lemma no_claim_effects: "db_effects d' = db_effects d \<Longrightarrow> no_claim_before k E d' = no_claim_before k E d"
  by (simp add: no_claim_before_def)

lemma effects_untouched:
  assumes "db_ok d"
  shows "db_effects (apply_op (CreateSession s) d) = db_effects d"
    "db_effects (apply_op (RegisterCompensation a clk) d) = db_effects d"
    "db_effects (apply_op (ClaimObligation q c ttl now clk) d) = db_effects d"
    "db_effects (apply_op (RecordObligationAttempt q err nx clk) d) = db_effects d"
    "db_effects (apply_op (ResolveObligation q st res clk) d) = db_effects d"
    "db_effects (apply_op (SetTimer tk f kd p clk) d) = db_effects d"
    "db_effects (apply_op (ListDueTimers now n claim clk) d) = db_effects d"
    "db_effects (apply_op (CancelTimer tk) d) = db_effects d"
    "db_effects (apply_op (WriteValue ns key v iv wr clk) d) = db_effects d"
    "db_effects (apply_op (TakeSnapshot s up clk1 clk2) d) = db_effects d"
  using assms
  by (auto simp: committed_def register_compensation_cases claim_obligation_cases Let_def
      record_obligation_attempt_cases resolve_obligation_cases set_timer_cases list_due_timers_def
      cancel_timer_def write_value_def take_snapshot_def
      split: option.splits sum.splits prod.splits if_splits)

lemma begin_keeps_row:
  assumes "db_ok d" and "tbl_lookup effect_pk (db_effects d) k = Some r"
  shows "tbl_lookup effect_pk (db_effects (committed (begin_effect a clk d) d)) k = Some r"
proof (cases "begin_refused a")
  case True
  with assms begin_effect_refuses [OF True, of clk d] show ?thesis by (auto simp: committed_def)
next
  case False
  have "tbl_ok effect_pk (db_effects d)" using assms by (simp add: db_ok_def)
  from effects.insert_keeps [OF this _ assms(2), of "pending_row a clk"] show ?thesis
    using assms False
    by (auto simp: committed_def begin_effect_cases effect_insert_violation_None split: option.splits)
qed

lemma not_ready_if_settled: "e_status r \<noteq> EffectStatus_PENDING \<Longrightarrow> \<not> dispatch_ready t r"
  by (simp add: dispatch_ready_def)

lemma observe_not_ready: "\<not> dispatch_ready t r \<Longrightarrow> \<not> dispatch_ready t (observe_upd res ext resp err now r)"
  by (auto simp: dispatch_ready_def observe_upd_def observe_row_def Let_def)

lemma claim_not_ready:
  assumes "\<forall>t < E. \<not> dispatch_ready t r" and "c \<noteq> []" and "0 \<le> ttl"
  shows "\<forall>t < E. \<not> dispatch_ready t (if dispatch_ready now r then claim_row c (now + ttl) r else r)"
proof (cases "dispatch_ready now r")
  case True
  with assms(1) have "E \<le> now" by (meson not_le)
  with True assms(2,3) show ?thesis by (auto simp: dispatch_ready_def)
qed (use assms(1) in simp)

lemma lease_kept:
  assumes ok: "db_ok d" and held: "no_claim_before k E d" and safe: "lease_safe k a"
  shows "no_claim_before k E (apply_op a d)"
proof (cases a)
  case (BeginEffect b clk)
  with held begin_keeps_row [OF ok, of k _ b clk] show ?thesis
    by (auto simp: no_claim_before_def split: option.splits)
next
  case (CompleteEffect k' st resp err clk)
  have "no_claim_before k E (d\<lparr>db_effects := tbl_modify effect_pk k' (complete_row st resp err clk) (db_effects d)\<rparr>)"
    if "st \<noteq> EffectStatus_PENDING"
    using that by (intro no_claim_modify [OF ok complete_row_frame held]) (simp add: not_ready_if_settled)
  with CompleteEffect ok held show ?thesis
    by (auto simp: committed_def complete_effect_cases split: option.splits)
next
  case (ClaimDispatch k' c ttl now clk)
  let ?f = "\<lambda>r. if dispatch_ready (int_or now clk) r then claim_row c (int_or now clk + ttl) r else r"
  have "effect_frame ?f" using claim_row_frame by (simp add: effect_frame_def)
  from no_claim_modify [OF ok this held, of k'] safe ClaimDispatch
  have "no_claim_before k E (d\<lparr>db_effects := tbl_modify effect_pk k' ?f (db_effects d)\<rparr>)"
    using claim_not_ready by simp
  with ClaimDispatch ok show ?thesis by (simp add: committed_def claim_effect_dispatch_cases Let_def)
next
  case (RecordAttempt k' err nx clk)
  with safe have "no_claim_before k E (d\<lparr>db_effects := tbl_modify effect_pk k' (attempt_row err nx clk) (db_effects d)\<rparr>)"
    by (intro no_claim_modify [OF ok attempt_row_frame held]) simp
  with RecordAttempt ok held show ?thesis
    by (simp add: committed_def record_dispatch_attempt_cases split: option.split)
next
  case (AttachRef k' ext)
  have "no_claim_before k E (d\<lparr>db_effects := tbl_modify effect_pk k' (\<lambda>r. r\<lparr>e_external_ref := Some ext\<rparr>) (db_effects d)\<rparr>)"
    by (intro no_claim_modify [OF ok attach_ref_frame held]) (simp add: dispatch_ready_def)
  with AttachRef show ?thesis by (simp add: attach_external_ref_def update_where_def tbl_modify_def)
next
  case (Observe k' res ext resp err kind clk)
  have "no_claim_before k E (d\<lparr>db_effects := tbl_modify effect_pk k' (observe_upd res ext resp err clk) (db_effects d)\<rparr>)"
    by (intro no_claim_modify [OF ok observe_upd_frame held]) (simp add: observe_not_ready)
  with Observe ok held show ?thesis
    by (auto simp: committed_def record_external_observation_cases Let_def no_claim_before_def
        split: option.splits)
qed (use safe held effects_untouched [OF ok] in \<open>simp_all only: lease_safe.simps no_claim_before_def\<close>)

lemma lease_kept_run:
  "db_ok d \<Longrightarrow> no_claim_before k E d \<Longrightarrow> list_all (lease_safe k) as \<Longrightarrow>
   db_ok (run_ops as d) \<and> no_claim_before k E (run_ops as d)"
  unfolding run_ops_def
  by (induction as arbitrary: d) (auto simp: apply_op_ok lease_kept)

lemma claim_starts_lease:
  assumes ok: "db_ok d" and win: "claim_effect_dispatch k c ttl now clk d = Inr ((True, r), d')"
    and c: "c \<noteq> []"
  shows "no_claim_before k (int_or now clk + ttl) d'"
proof -
  let ?now = "int_or now clk"
  let ?f = "\<lambda>r. if dispatch_ready ?now r then claim_row c (?now + ttl) r else r"
  have fr: "effect_frame ?f" using claim_row_frame by (simp add: effect_frame_def)
  from win obtain row where row: "tbl_lookup effect_pk (db_effects d) k = Some row" "dispatch_ready ?now row"
    and d': "d' = d\<lparr>db_effects := tbl_modify effect_pk k ?f (db_effects d)\<rparr>"
    by (auto simp: claim_effect_dispatch_cases [OF ok] Let_def split: option.splits)
  have "dispatch_try_claim c ?now ttl row = Some (claim_row c (?now + ttl) row)"
    using row(2) by (simp add: dispatch_try_claim_def)
  from dispatch.claim_excludes [OF this c]
  have "\<not> dispatch_ready t (claim_row c (?now + ttl) row)" if "t < ?now + ttl" for t
    using that by (meson not_le)
  with row d' show ?thesis
    by (auto simp: no_claim_before_def modify_lookup [OF ok fr])
qed

lemma claim_needs_ready:
  assumes "db_ok d" and "claim_effect_dispatch k c ttl now clk d = Inr ((True, r), d')"
    and "no_claim_before k E d"
  shows "E \<le> int_or now clk"
  using assms
  by (auto simp: claim_effect_dispatch_cases no_claim_before_def Let_def not_le split: option.splits)
     (meson not_le)

text \<open>The same for the leases on obligations.\<close>

lemma no_drain_modify:
  assumes "db_ok d" and "obligation_frame f" and "no_drain_before q E d"
    and "\<And>r. q' = q \<Longrightarrow> \<forall>t < E. \<not> obligation_claimable t r \<Longrightarrow> \<forall>t < E. \<not> obligation_claimable t (f r)"
  shows "no_drain_before q E (d\<lparr>db_obligations := tbl_modify o_seq q' f (db_obligations d)\<rparr>)"
proof -
  have "tbl_ok o_seq (db_obligations d)" using assms(1) by (simp add: db_ok_def)
  with assms show ?thesis
    by (auto simp: no_drain_before_def obligations.lookup_modify obligation_frame_seq split: option.splits)
qed

lemma no_drain_insert:
  assumes "db_ok d" and "no_drain_before q E d" and "o_seq r = db_next_seq d"
    and "db_obligations d' = tbl_insert r (db_obligations d)"
  shows "no_drain_before q E d'"
proof -
  have tbl: "tbl_ok o_seq (db_obligations d)" using assms(1) by (simp add: db_ok_def)
  have "tbl_lookup o_seq (db_obligations d) (o_seq r) = None"
    using assms(1,3) by (auto simp: tbl_lookup_None_iff db_ok_def list_all_iff)
  with assms(2,4) show ?thesis
    by (auto simp: no_drain_before_def obligations.insert_keeps [OF tbl] split: option.splits)
qed

lemma obligations_untouched:
  assumes "db_ok d"
  shows "db_obligations (apply_op (CreateSession s) d) = db_obligations d"
    "db_obligations (apply_op (BeginEffect b clk) d) = db_obligations d"
    "db_obligations (apply_op (CompleteEffect k st resp er clk) d) = db_obligations d"
    "db_obligations (apply_op (ClaimDispatch k c ttl now clk) d) = db_obligations d"
    "db_obligations (apply_op (RecordAttempt k err nx clk) d) = db_obligations d"
    "db_obligations (apply_op (AttachRef k ext) d) = db_obligations d"
    "db_obligations (apply_op (SetTimer tk f kd p clk) d) = db_obligations d"
    "db_obligations (apply_op (ListDueTimers now n claim clk) d) = db_obligations d"
    "db_obligations (apply_op (CancelTimer tk) d) = db_obligations d"
    "db_obligations (apply_op (WriteValue ns key v iv wr clk) d) = db_obligations d"
    "db_obligations (apply_op (TakeSnapshot s up clk1 clk2) d) = db_obligations d"
  using assms
  by (auto simp: committed_def begin_effect_def complete_effect_cases claim_effect_dispatch_cases Let_def
      record_dispatch_attempt_cases attach_external_ref_def set_timer_cases list_due_timers_def
      cancel_timer_def write_value_def take_snapshot_def
      split: option.splits sum.splits prod.splits if_splits)

lemma drain_claim_not_ready:
  assumes "\<forall>t < E. \<not> obligation_claimable t r" and "0 \<le> ttl"
  shows "\<forall>t < E. \<not> obligation_claimable t
    (if obligation_claimable now r then obligation_claim_row c (now + ttl) r else r)"
proof (cases "obligation_claimable now r")
  case True
  with assms(1) have "E \<le> now" by (meson not_le)
  with True assms(2) show ?thesis
    by (auto simp: obligation_claimable_def obligation_ready_def obligation_expired_def)
qed (use assms(1) in simp)

lemma resolved_not_claimable: "st \<in> {ObligationStatus_COMPENSATED, ObligationStatus_STUCK} \<Longrightarrow>
    \<not> obligation_claimable t (resolve_row st res now r)"
  by (auto simp: obligation_claimable_def obligation_ready_def obligation_expired_def)

lemma drain_lease_kept:
  assumes ok: "db_ok d" and held: "no_drain_before q E d" and safe: "drain_safe q a"
  shows "no_drain_before q E (apply_op a d)"
proof (cases a)
  case (RegisterCompensation b clk)
  with ok held no_drain_insert [OF ok held, of "registered_row b (db_next_seq d) clk"] show ?thesis
    by (auto simp: committed_def register_compensation_cases registered_row_simps split: option.splits)
next
  case (ClaimObligation q' c ttl now clk)
  let ?f = "\<lambda>r. if obligation_claimable (int_or now clk) r
    then obligation_claim_row c (int_or now clk + ttl) r else r"
  have "obligation_frame ?f" using obligation_claim_row_frame by (simp add: obligation_frame_def)
  from no_drain_modify [OF ok this held, of q'] safe ClaimObligation
  have "no_drain_before q E (d\<lparr>db_obligations := tbl_modify o_seq q' ?f (db_obligations d)\<rparr>)"
    using drain_claim_not_ready by simp
  with ClaimObligation ok show ?thesis by (simp add: committed_def claim_obligation_cases Let_def)
next
  case (RecordObligationAttempt q' err nx clk)
  with safe have "no_drain_before q E
      (d\<lparr>db_obligations := tbl_modify o_seq q' (obligation_attempt_row err nx clk) (db_obligations d)\<rparr>)"
    by (intro no_drain_modify [OF ok obligation_attempt_row_frame held]) simp
  with RecordObligationAttempt ok held show ?thesis
    by (simp add: committed_def record_obligation_attempt_cases split: option.split)
next
  case (ResolveObligation q' st res clk)
  have "no_drain_before q E (d\<lparr>db_obligations := tbl_modify o_seq q' (resolve_row st res clk) (db_obligations d)\<rparr>)"
    if "st \<in> {ObligationStatus_COMPENSATED, ObligationStatus_STUCK}"
    using that by (intro no_drain_modify [OF ok resolve_row_frame held]) (simp add: resolved_not_claimable)
  with ResolveObligation ok held show ?thesis
    by (auto simp: committed_def resolve_obligation_cases split: option.splits)
next
  case (Observe k res ext resp err kind clk)
  let ?d1 = "d\<lparr>db_effects := tbl_modify effect_pk k (observe_upd res ext resp err clk) (db_effects d)\<rparr>"
  have h: "no_drain_before q E ?d1" using held by (simp add: no_drain_before_def)
  have ok1: "db_ok ?d1" by (rule db_ok_modify_effect [OF ok observe_upd_frame])
  have "no_drain_before q E (?d1\<lparr>db_obligations := tbl_insert (duplicate_obligation (db_next_seq d) k kind clk r)
      (db_obligations d), db_next_seq := n\<rparr>)" for r n
    by (rule no_drain_insert [OF ok1 h]) (simp_all add: duplicate_obligation_simps)
  with Observe ok held h show ?thesis
    by (auto simp: committed_def record_external_observation_cases Let_def split: option.splits)
next
  case (ContinueAsNew s old new st prune clk)
  show ?thesis
  proof (cases "continue_as_new s old new st prune clk d")
    case (Inr y)
    obtain x d' where y: "y = (x, d')" by (cases y)
    from continue_as_new_cases [OF ok Inr [unfolded y]] ContinueAsNew Inr y held show ?thesis
      by (simp add: committed_def no_drain_before_def)
  qed (use ContinueAsNew held in \<open>simp add: committed_def\<close>)
qed (use safe held obligations_untouched [OF ok] in \<open>simp_all only: drain_safe.simps no_drain_before_def\<close>)

lemma drain_lease_kept_run:
  "db_ok d \<Longrightarrow> no_drain_before q E d \<Longrightarrow> list_all (drain_safe q) as \<Longrightarrow>
   db_ok (run_ops as d) \<and> no_drain_before q E (run_ops as d)"
  unfolding run_ops_def
  by (induction as arbitrary: d) (auto simp: apply_op_ok drain_lease_kept)

lemma drain_claim_starts_lease:
  assumes ok: "db_ok d" and win: "claim_obligation q c ttl now clk d = Inr ((True, r), d')"
  shows "no_drain_before q (int_or now clk + ttl) d'"
proof -
  let ?now = "int_or now clk"
  let ?f = "\<lambda>r. if obligation_claimable ?now r then obligation_claim_row c (?now + ttl) r else r"
  have fr: "o_seq (?f r) = o_seq r" for r by simp
  have tbl: "tbl_ok o_seq (db_obligations d)" using ok by (simp add: db_ok_def)
  from win obtain row where row: "tbl_lookup o_seq (db_obligations d) q = Some row" "obligation_claimable ?now row"
    and d': "d' = d\<lparr>db_obligations := tbl_modify o_seq q ?f (db_obligations d)\<rparr>"
    by (auto simp: claim_obligation_cases [OF ok] Let_def split: option.splits)
  have "\<not> obligation_claimable t (obligation_claim_row c (?now + ttl) row)" if "t < ?now + ttl" for t
    using that by (simp add: obligation_claimable_def obligation_ready_def obligation_expired_def)
  with row d' show ?thesis
    by (auto simp: no_drain_before_def obligations.lookup_modify [OF tbl fr])
qed

lemma drain_claim_needs_ready:
  assumes "db_ok d" and "claim_obligation q c ttl now clk d = Inr ((True, r), d')"
    and "no_drain_before q E d"
  shows "E \<le> int_or now clk"
  using assms
  by (auto simp: claim_obligation_cases no_drain_before_def Let_def not_le split: option.splits)
     (meson not_le)

section \<open>Properties\<close>

text \<open>
  C1. Every database reachable from empty tables, through any interleaving of operations
  of any number of processes with crashes between transactions, satisfies the invariant:
  the constraints of the schema, the contract of \<open>begin_effect\<close> on stored rows, and the
  ranges of counters, versions and sequence numbers.
\<close>

theorem reachable_db_ok:
  assumes "initial_db d0" and "service_step\<^sup>*\<^sup>* d0 d"
  shows "db_ok d"
  using assms by (rule service.inv_reachable)

theorem reachable_db_ok_witness:
  "db_ok (apply_op (BeginEffect (begin_defaults ''app'' ''u'' ''s'' ''inv'' 0 ''pay'') 7) (empty_db [] False))"
  by (rule reachable_db_ok [of "empty_db [] False", OF _ op_steps]) (simp add: initial_db_def empty_db_def)

text \<open>
  In every reachable database a \<open>NON_IDEMPOTENT\<close> effect is never inline, and an outbox
  effect names its connector, so every row the dispatcher can select can be routed.
\<close>

lemma reachable_effect_contract:
  assumes "initial_db d0" and "service_step\<^sup>*\<^sup>* d0 d" and "r \<in> set (db_effects d)"
  shows "(e_semantics r = EffectSemantics_NON_IDEMPOTENT \<longrightarrow> e_dispatch_mode r \<noteq> EffectDispatchMode_INLINE) \<and>
    (e_dispatch_mode r = EffectDispatchMode_OUTBOX \<longrightarrow> (\<exists>c. e_connector r = Some c \<and> c \<noteq> []))"
  using service.inv_reachable [OF assms(1,2)] assms(3)
  by (auto simp: db_ok_def list_all_iff effect_ok_def truthy_str_iff)

text \<open>
  C2. A dispatch lease excludes across interleavings: between two successful claims of one
  effect, with any operations of any processes in between other than the first holder's
  release (\<open>record_dispatch_attempt\<close>) and the deletion of rows, the second claim comes no
  earlier than the first lease's expiry.
\<close>

theorem dispatch_lease_exclusive:
  assumes ok: "db_ok d" and c: "c \<noteq> []"
    and first: "claim_effect_dispatch k c ttl now clk d = Inr ((True, r), d1)"
    and between: "list_all (lease_safe k) as"
    and second: "claim_effect_dispatch k c' ttl' now' clk' (run_ops as d1) = Inr ((True, r'), d2)"
  shows "int_or now clk + ttl \<le> int_or now' clk'"
proof -
  from lease_kept_run [OF claim_effect_dispatch_ok [OF ok first] claim_starts_lease [OF ok first c] between]
  show ?thesis using claim_needs_ready [OF _ second] by blast
qed

theorem dispatch_lease_exclusive_witness:
  "let k = effect_pk sample_pending;
       d1 = snd (projr (claim_effect_dispatch k ''w1'' 100 1000 0 sample_db));
       d2 = run_ops [CreateSession sample_session, ClaimDispatch k ''w2'' 100 1050 0] d1
   in fst (fst (projr (claim_effect_dispatch k ''w2'' 100 1100 0 d2))) \<and> (1000 + 100 \<le> (1100 :: int))"
proof -
  let ?k = "effect_pk sample_pending"
  let ?t1 = "claim_effect_dispatch ?k ''w1'' 100 1000 0 sample_db"
  let ?as = "[CreateSession sample_session, ClaimDispatch ?k ''w2'' 100 1050 0]"
  let ?t2 = "claim_effect_dispatch ?k ''w2'' 100 1100 0 (run_ops ?as (snd (projr ?t1)))"
  have one: "?t1 = Inr ((True, snd (fst (projr ?t1))), snd (projr ?t1))" by code_simp
  have two: "?t2 = Inr ((True, snd (fst (projr ?t2))), snd (projr ?t2))" by code_simp
  from dispatch_lease_exclusive [OF sample_db_ok _ one _ two] have "(1000 :: int) + 100 \<le> 1100"
    by (simp add: int_or_def)
  with two show ?thesis unfolding Let_def by (metis fst_conv sum.sel(2))
qed

text \<open>
  A compensation lease excludes across interleavings in the same way; here even an
  unnamed claimer holds its lease.
\<close>

lemma drain_lease_exclusive:
  assumes ok: "db_ok d" and first: "claim_obligation q c ttl now clk d = Inr ((True, r), d1)"
    and between: "list_all (drain_safe q) as"
    and second: "claim_obligation q c' ttl' now' clk' (run_ops as d1) = Inr ((True, r'), d2)"
  shows "int_or now clk + ttl \<le> int_or now' clk'"
proof -
  from drain_lease_kept_run [OF claim_obligation_ok [OF ok first] drain_claim_starts_lease [OF ok first] between]
  show ?thesis using drain_claim_needs_ready [OF _ second] by blast
qed

text \<open>
  The reactors add nothing to the service: whatever its connectors do, the database a
  tick of the dispatcher, the reconciler, the drainer or the timer firer leaves, also when
  it ends in an error, is one the service's operations reach.
\<close>

lemma reactor_ticks_are_service_runs:
  "service_step\<^sup>*\<^sup>* d (fst (snd (dispatch_outbox_once cs cfg clk d w))) \<and>
   service_step\<^sup>*\<^sup>* d (fst (snd (reconcile_once cs stale n clk d w))) \<and>
   service_step\<^sup>*\<^sup>* d (fst (snd (drain_obligations_once cs cfg clk d w))) \<and>
   service_step\<^sup>*\<^sup>* d (fst (snd (fire_due_timers_once f n now d w)))"
  by (intro conjI)
     (rule dispatch_outbox_steps reconcile_steps drain_steps fire_due_steps, simp add: prod_eq_iff)+

end
