(* ===== verification/EmbeddedDaemon.thy ===== *)
theory EmbeddedDaemon
  imports ServiceSteps Complex_Main
begin

text \<open>
  The reactor process of the embedded tier (\<open>tape_adk/__main__.py\<close>): loading the connectors named on
  the command line, one tick through all enabled reactors, and the loop.

  A tick gives its log. What raises in a reactor is logged and the next reactor runs; the timer
  firer and the compactor have no error path in the model. Every reactor reads the clock on its own,
  so the clock is a function of the reactor and the reading. Other processes work on the database
  while the loop waits: the history of the waits says which operations they committed and whether a
  stop signal came.
\<close>

section \<open>Connectors\<close>

text \<open>What a module attribute can be: a mapping, a callable, or something else with its type name.\<close>

datatype 'w loaded = LoadedDict "'w connectors" | LoadedCall "py_exn + 'w loaded" | LoadedOther string

definition merge_dict :: "('k \<times> 'v) list \<Rightarrow> ('k \<times> 'v) list \<Rightarrow> ('k \<times> 'v) list" where
  "merge_dict out thing = fold (\<lambda>(k, v). AList.update k v) thing out"

definition type_name_of :: "'w loaded \<Rightarrow> string" where
  "type_name_of t = (case t of LoadedDict _ \<Rightarrow> ''dict'' | LoadedCall _ \<Rightarrow> ''function'' | LoadedOther n \<Rightarrow> n)"

definition load_one :: "(string \<Rightarrow> string \<Rightarrow> py_exn + 'w loaded) \<Rightarrow> string \<Rightarrow> py_exn + 'w connectors" where
  "load_one imp spec =
     (case py_partition (CHR '':'') spec of (mod_path, _, attr) \<Rightarrow>
        if attr = [] then Inl (PyExn ''ValueError'' (''--connectors '' @ repr_str spec @ '': expected `module.path:attr_name`''))
        else (case imp mod_path attr of
                Inl ex \<Rightarrow> Inl ex
              | Inr thing \<Rightarrow>
                  (case (case thing of LoadedCall r \<Rightarrow> r | _ \<Rightarrow> Inr thing) of
                     Inl ex \<Rightarrow> Inl ex
                   | Inr (LoadedDict cs) \<Rightarrow> Inr cs
                   | Inr other \<Rightarrow> Inl (PyExn ''ValueError'' (''--connectors '' @ repr_str spec @
                       '': expected a dict (or a callable returning one), got '' @ type_name_of other)))))"

fun load_specs :: "(string \<Rightarrow> string \<Rightarrow> py_exn + 'w loaded) \<Rightarrow> string list \<Rightarrow> 'w connectors \<Rightarrow> py_exn + 'w connectors" where
  "load_specs imp [] out = Inr out"
| "load_specs imp (spec # specs) out =
     (case load_one imp spec of Inl ex \<Rightarrow> Inl ex | Inr thing \<Rightarrow> load_specs imp specs (merge_dict out thing))"

definition load_connectors :: "(string \<Rightarrow> string \<Rightarrow> py_exn + 'w loaded) \<Rightarrow> string list \<Rightarrow> py_exn + 'w connectors" where
  "load_connectors imp specs = load_specs imp specs []"

section \<open>A tick\<close>

record daemon_args =
  da_connectors :: "string list"
  da_claimer :: string
  da_tick_ms :: int
  da_once :: bool
  da_no_outbox :: bool
  da_no_reconcile :: bool
  da_no_drain :: bool
  da_no_timers :: bool
  da_compact :: bool
  da_compact_effect_ttl_ms :: int
  da_compact_session_ttl_ms :: int
  da_compact_max_per_tick :: nat

definition daemon_args_defaults :: daemon_args where
  "daemon_args_defaults = \<lparr>da_connectors = [], da_claimer = [], da_tick_ms = 1000, da_once = False, da_no_outbox = False,
     da_no_reconcile = False, da_no_drain = False, da_no_timers = False, da_compact = False,
     da_compact_effect_ttl_ms = 7 * 24 * 60 * 60 * 1000, da_compact_session_ttl_ms = 30 * 24 * 60 * 60 * 1000,
     da_compact_max_per_tick = 1000\<rparr>"

definition daemon_claimer :: "daemon_args \<Rightarrow> string \<Rightarrow> int \<Rightarrow> string" where
  "daemon_claimer a host pid = (if da_claimer a \<noteq> [] then da_claimer a else host @ ''-'' @ int_str pid)"

definition daemon_policy :: "daemon_args \<Rightarrow> CompactionPolicy" where
  "daemon_policy a = default_policy\<lparr>effect_ttl_ms := da_compact_effect_ttl_ms a, session_ttl_ms := da_compact_session_ttl_ms a,
     max_per_tick := da_compact_max_per_tick a\<rparr>"

definition tick_s :: "daemon_args \<Rightarrow> rat" where
  "tick_s a = max (of_int (da_tick_ms a) / 1000) (1 / 20)"

datatype log_line = Actions string nat | Pruned CompactionResult | TickCrashed string tape_error

definition log_actions :: "string \<Rightarrow> 'r list \<Rightarrow> log_line list" where
  "log_actions name r = (if r \<noteq> [] then [Actions name (length r)] else [])"

definition guarded :: "string \<Rightarrow> bool \<Rightarrow> (db \<Rightarrow> 'w \<Rightarrow> 'w tick) \<Rightarrow> db \<Rightarrow> 'w \<Rightarrow> log_line list \<times> db \<times> 'w" where
  "guarded name enabled f d w =
     (if \<not> enabled then ([], d, w)
      else (case f d w of
              (Inl e, d', w') \<Rightarrow> ([TickCrashed name e], d', w')
            | (Inr r, d', w') \<Rightarrow> (log_actions name r, d', w')))"

definition timers_reactor :: "int \<Rightarrow> db \<Rightarrow> 'w \<Rightarrow> 'w tick" where
  "timers_reactor clk d w = (case fire_due_timers_once None 100 clk d w of (out, d', w') \<Rightarrow> (Inr out, d', w'))"

definition compact_reactor :: "daemon_args \<Rightarrow> int \<Rightarrow> db \<Rightarrow> log_line list \<times> db" where
  "compact_reactor a clk d =
     (if \<not> da_compact a then ([], d)
      else (case compact_once (daemon_policy a) 0 clk d of (r, d') \<Rightarrow> (if total r \<noteq> 0 then [Pruned r] else [], d')))"

definition daemon_tick ::
    "daemon_args \<Rightarrow> 'w connectors \<Rightarrow> string \<Rightarrow> (nat \<Rightarrow> nat \<Rightarrow> int) \<Rightarrow> db \<Rightarrow> 'w \<Rightarrow> log_line list \<times> db \<times> 'w" where
  "daemon_tick a cs claimer clk d w =
     (case guarded ''outbox'' (\<not> da_no_outbox a) (dispatch_outbox_once cs (dispatch_defaults claimer) (clk 0)) d w of (l0, d0, w0) \<Rightarrow>
      case guarded ''reconcile'' (\<not> da_no_reconcile a) (reconcile_once cs 0 50 (clk 1)) d0 w0 of (l1, d1, w1) \<Rightarrow>
      case guarded ''drain'' (\<not> da_no_drain a) (drain_obligations_once cs (drain_defaults\<lparr>dc_claimer := claimer\<rparr>) (clk 2)) d1 w1 of (l2, d2, w2) \<Rightarrow>
      case guarded ''timers'' (\<not> da_no_timers a) (timers_reactor (clk 3 0)) d2 w2 of (l3, d3, w3) \<Rightarrow>
      case compact_reactor a (clk 4 0) d3 of (l4, d4) \<Rightarrow> (l0 @ l1 @ l2 @ l3 @ l4, d4, w3))"

text \<open>
  The loop, along the history of its waits. It ends after the first tick when \<open>--once\<close> is given, and
  after a wait in which the stop signal came; with the history used up it is still waiting.
\<close>

type_synonym wait = "bool \<times> service_op list"

fun daemon_loop ::
    "daemon_args \<Rightarrow> 'w connectors \<Rightarrow> string \<Rightarrow> (nat \<Rightarrow> nat \<Rightarrow> nat \<Rightarrow> int) \<Rightarrow> nat \<Rightarrow> wait list \<Rightarrow> db \<Rightarrow> 'w \<Rightarrow>
     (bool \<times> log_line list list) \<times> db \<times> 'w" where
  "daemon_loop a cs claimer clk i hs d w =
     (case daemon_tick a cs claimer (clk i) d w of (l, d1, w1) \<Rightarrow>
        if da_once a then ((True, [l]), d1, w1)
        else (case hs of
                [] \<Rightarrow> ((False, [l]), d1, w1)
              | (stop, ops) # hs' \<Rightarrow>
                  (let d2 = run_ops ops d1 in
                   if stop then ((True, [l]), d2, w1)
                   else (case daemon_loop a cs claimer clk (Suc i) hs' d2 w1 of
                           ((ended, ls), d3, w3) \<Rightarrow> ((ended, l # ls), d3, w3)))))"

declare daemon_loop.simps [simp del]

definition daemon_run ::
    "daemon_args \<Rightarrow> (string \<Rightarrow> string \<Rightarrow> py_exn + 'w loaded) \<Rightarrow> string \<Rightarrow> int \<Rightarrow> (nat \<Rightarrow> nat \<Rightarrow> nat \<Rightarrow> int) \<Rightarrow> wait list \<Rightarrow>
     db \<Rightarrow> 'w \<Rightarrow> (py_exn + bool \<times> log_line list list) \<times> db \<times> 'w" where
  "daemon_run a imp host pid clk hs d w =
     (case load_connectors imp (da_connectors a) of
        Inl ex \<Rightarrow> (Inl ex, d, w)
      | Inr cs \<Rightarrow> (case daemon_loop a cs (daemon_claimer a host pid) clk 0 hs d w of (r, d', w') \<Rightarrow> (Inr r, d', w')))"

section \<open>Loading\<close>

lemma merge_dict_lookup: "map_of (merge_dict out thing) k = (map_of out ++ map_of (rev thing)) k"
proof (induction thing arbitrary: out)
  case (Cons kv thing)
  then show ?case by (cases kv) (simp add: merge_dict_def update_conv' map_add_def split: option.split)
qed (simp add: merge_dict_def)

text \<open>Later specs override earlier ones, name by name.\<close>

lemma load_specs_lookup:
  assumes "list_all2 (\<lambda>spec cs. load_one imp spec = Inr cs) specs dicts"
  shows "\<exists>cs. load_specs imp specs out = Inr cs \<and> map_of cs = fold (\<lambda>d m. m ++ map_of (rev d)) dicts (map_of out)"
  using assms
proof (induction specs dicts arbitrary: out rule: list_all2_induct)
  case (Cons spec specs dict dicts)
  have "map_of (merge_dict out dict) = map_of out ++ map_of (rev dict)" by (rule ext) (simp add: merge_dict_lookup)
  with Cons.IH [of "merge_dict out dict"] Cons.hyps show ?case by simp
qed simp

lemma spec_without_attr:
  "CHR '':'' \<notin> set spec \<Longrightarrow> \<exists>m. load_one imp spec = Inl (PyExn ''ValueError'' m)"
proof -
  assume "CHR '':'' \<notin> set spec"
  then have "py_partition (CHR '':'') spec = (spec, [], [])" by (auto simp: py_partition_def dropWhile_eq_Nil_conv split: list.split dest!: arg_cong [where f = "\<lambda>ys. ys = []"])
  then show ?thesis by (simp add: load_one_def)
qed

section \<open>A tick keeps the ledger\<close>

lemma guarded_keeps:
  assumes "guarded name on f d w = (l, d', w')" and "P d" and "\<And>x d1 w1. f d w = (x, d1, w1) \<Longrightarrow> P d1"
  shows "P d'"
  using assms by (cases "f d w") (auto simp: guarded_def split: if_splits sum.splits)

lemma timers_reactor_steps: "timers_reactor clk d w = (x, d', w') \<Longrightarrow> service_step\<^sup>*\<^sup>* d d'"
  by (auto simp: timers_reactor_def split: prod.splits intro: fire_due_steps)

lemma compact_reactor_steps: "compact_reactor a clk d = (l, d') \<Longrightarrow> service_step\<^sup>*\<^sup>* d d'"
  using op_steps [of d "Compact (daemon_policy a) 0 clk"]
  by (auto simp: compact_reactor_def split: if_splits prod.splits)

text \<open>What the outbox establishes, the three reactors after it keep and the compactor finishes, holds after a tick.\<close>

lemma daemon_tick_chain:
  fixes w :: 'w
  assumes "daemon_tick a cs claimer clk d w = (l, d', w')"
    and outbox: "\<And>l0 d0 w0. guarded ''outbox'' (\<not> da_no_outbox a) (dispatch_outbox_once cs (dispatch_defaults claimer) (clk 0)) d w = (l0, d0, w0) \<Longrightarrow> P d0"
    and rest: "\<And>x d1 d2 w1 w2. P d1 \<Longrightarrow> reconcile_once cs 0 50 (clk 1) d1 w1 = (x, d2, w2) \<Longrightarrow> P d2"
      "\<And>x d1 d2 w1 w2. P d1 \<Longrightarrow> drain_obligations_once cs (drain_defaults\<lparr>dc_claimer := claimer\<rparr>) (clk 2) d1 w1 = (x, d2, w2) \<Longrightarrow> P d2"
      "\<And>x d1 d2 w1 (w2 :: 'w). P d1 \<Longrightarrow> timers_reactor (clk 3 0) d1 w1 = (x, d2, w2) \<Longrightarrow> P d2"
    and compact: "\<And>d3 l4. P d3 \<Longrightarrow> compact_reactor a (clk 4 0) d3 = (l4, d') \<Longrightarrow> Q"
  shows Q
proof -
  obtain l0 d0 w0 where 0: "guarded ''outbox'' (\<not> da_no_outbox a) (dispatch_outbox_once cs (dispatch_defaults claimer) (clk 0)) d w = (l0, d0, w0)"
    by (metis surj_pair)
  obtain l1 d1 w1 where 1: "guarded ''reconcile'' (\<not> da_no_reconcile a) (reconcile_once cs 0 50 (clk 1)) d0 w0 = (l1, d1, w1)"
    by (metis surj_pair)
  obtain l2 d2 w2 where 2: "guarded ''drain'' (\<not> da_no_drain a) (drain_obligations_once cs (drain_defaults\<lparr>dc_claimer := claimer\<rparr>) (clk 2)) d1 w1 = (l2, d2, w2)"
    by (metis surj_pair)
  obtain l3 d3 w3 where 3: "guarded ''timers'' (\<not> da_no_timers a) (timers_reactor (clk 3 0)) d2 w2 = (l3, d3, w3)"
    by (metis surj_pair)
  obtain l4 where 4: "compact_reactor a (clk 4 0) d3 = (l4, d')"
    using assms(1) 0 1 2 3 by (auto simp: daemon_tick_def split: prod.splits)
  have p1: "P d1" by (rule guarded_keeps [where P = P, OF 1 outbox [OF 0]]) (rule rest(1) [OF outbox [OF 0]])
  have p2: "P d2" by (rule guarded_keeps [where P = P, OF 2 p1]) (rule rest(2) [OF p1])
  have "P d3" by (rule guarded_keeps [where P = P, OF 3 p2]) (rule rest(3) [OF p2])
  then show Q using 4 by (rule compact)
qed

lemma daemon_tick_steps:
  assumes "daemon_tick a cs claimer clk d w = (l, d', w')"
  shows "service_step\<^sup>*\<^sup>* d d'"
proof (rule daemon_tick_chain [OF assms, where P = "service_step\<^sup>*\<^sup>* d"])
  show "service_step\<^sup>*\<^sup>* d d0"
    if "guarded ''outbox'' (\<not> da_no_outbox a) (dispatch_outbox_once cs (dispatch_defaults claimer) (clk 0)) d w = (l0, d0, w0)" for l0 d0 w0
    by (rule guarded_keeps [where P = "service_step\<^sup>*\<^sup>* d", OF that rtranclp.rtrancl_refl dispatch_outbox_steps])
qed (erule rtranclp_trans, erule reconcile_steps drain_steps timers_reactor_steps compact_reactor_steps)+

lemma run_ops_steps: "service_step\<^sup>*\<^sup>* d (run_ops ops d)"
  unfolding run_ops_def
proof (induction ops arbitrary: d)
  case (Cons op ops)
  then show ?case using op_steps [of d op] by (auto intro: rtranclp_trans)
qed simp

lemma daemon_loop_steps: "daemon_loop a cs claimer clk i hs d w = (r, d', w') \<Longrightarrow> service_step\<^sup>*\<^sup>* d d'"
proof (induction hs arbitrary: i d w r)
  case Nil
  then show ?case using daemon_tick_steps by (fastforce simp: daemon_loop.simps [where hs = "[]"] split: prod.splits if_splits)
next
  case (Cons h hs)
  obtain stop ops where h: "h = (stop, ops)" by fastforce
  obtain l d1 w1 where t: "daemon_tick a cs claimer (clk i) d w = (l, d1, w1)" by (metis surj_pair)
  note tick = daemon_tick_steps [OF t]
  note wait = rtranclp_trans [OF tick run_ops_steps [of d1 ops]]
  obtain r2 d2 w2 where rest: "daemon_loop a cs claimer clk (Suc i) hs (run_ops ops d1) w1 = (r2, d2, w2)" by (metis surj_pair)
  have more: "service_step\<^sup>*\<^sup>* d d2" if "d2 = d'" "w2 = w'" using Cons.IH rest wait that by (metis rtranclp_trans)
  show ?case using Cons.prems tick wait more rest
    by (auto simp: h daemon_loop.simps [of a cs claimer clk i "(stop, ops) # hs"] t Let_def split: if_splits prod.splits)
qed

section \<open>The queue after a tick\<close>

lemma ready_later: "dispatch_ready t r \<Longrightarrow> t \<le> t' \<Longrightarrow> dispatch_ready t' r"
  by (auto simp: dispatch_ready_def)

text \<open>What the reactors after the outbox keep: an effect that cannot be claimed before a time stays so.\<close>

definition stays_claimed :: "effect_id \<Rightarrow> int \<Rightarrow> db \<Rightarrow> bool" where
  "stays_claimed k E d \<longleftrightarrow> db_ok d \<and> no_claim_before k E d"

lemma op_keeps_claimed:
  assumes "stays_claimed k E d" and "lease_safe k a" and "committed res d = apply_op a d" and "res = Inr (x, d')"
  shows "stays_claimed k E d'"
  using assms lease_kept [of d k E a] apply_op_ok [of d a] by (simp add: stays_claimed_def committed_def)

lemma reconcile_keeps_claimed:
  assumes "stays_claimed k E d" and "reconcile_once cs stale n clk d w = (x, d', w')"
  shows "stays_claimed k E d'"
proof -
  have item: "stays_claimed k E d1" if "stays_claimed k E d" "reconcile_item cs c eff d w = (r, d1, w1)" for c eff d w r d1 w1
    using that op_keeps_claimed [where a = "Observe (effect_pk eff) st ext resp err kind c" for st ext resp err kind]
    by (fastforce simp: reconcile_item_def commit_def Let_def split: option.splits sum.splits prod.splits)
  show ?thesis
    using assms(2) unfolding reconcile_once_def Let_def by (rule tick_loop_inv [where P = "stays_claimed k E", rotated]) (use item assms(1) in blast)+
qed

lemma settle_drain_keeps_claimed:
  "stays_claimed k E d \<Longrightarrow> settle_drain cfg now c ob out d w = (x, d', w') \<Longrightarrow> stays_claimed k E d'"
proof -
  assume c: "stays_claimed k E d" and run: "settle_drain cfg now c ob out d w = (x, d', w')"
  have "stays_claimed k E d1" if "resolve_obligation (o_seq ob) st res c d = Inr (r, d1)" for st res r d1
    using op_keeps_claimed [OF c _ _ that, of "ResolveObligation (o_seq ob) st res c"] that by simp
  moreover have "stays_claimed k E d1" if "record_obligation_attempt (o_seq ob) err nx c d = Inr (r, d1)" for err nx r d1
    using op_keeps_claimed [OF c _ _ that, of "RecordObligationAttempt (o_seq ob) err nx c"] that by simp
  ultimately show ?thesis using c run
    by (auto simp: settle_drain_def commit_def Let_def split: if_splits sum.splits prod.splits)
qed

lemma drain_item_keeps_claimed:
  assumes "stays_claimed k E d" and "drain_item cs cfg now c ob d w = (x, d', w')"
  shows "stays_claimed k E d'"
proof -
  have claim: "stays_claimed k E d1" if "claim_obligation (o_seq ob) (dc_claimer cfg) (dc_lease_ttl_ms cfg) now c d = Inr (r, d1)" for r d1
    using op_keeps_claimed [OF assms(1) _ _ that, of "ClaimObligation (o_seq ob) (dc_claimer cfg) (dc_lease_ttl_ms cfg) now c"] that by simp
  have attempt: "stays_claimed k E d2" if "stays_claimed k E d1" "record_obligation_attempt (o_seq ob) err nx c d1 = Inr (r, d2)" for err nx d1 r d2
    using op_keeps_claimed [OF that(1) _ _ that(2), of "RecordObligationAttempt (o_seq ob) err nx c"] that by simp
  show ?thesis using assms
    by (auto simp: drain_item_def commit_def Let_def split: if_splits option.splits sum.splits prod.splits
        dest!: claim dest: attempt settle_drain_keeps_claimed)
qed

lemma drain_keeps_claimed:
  assumes "stays_claimed k E d" and "drain_obligations_once cs cfg clk d w = (x, d', w')"
  shows "stays_claimed k E d'"
  using assms(2) unfolding drain_obligations_once_def Let_def
  by (rule tick_loop_inv [where P = "stays_claimed k E", rotated]) (rule assms(1), erule (1) drain_item_keeps_claimed)

lemma timers_keep_claimed:
  assumes "stays_claimed k E d" and "timers_reactor clk d w = (x, d', w')"
  shows "stays_claimed k E d'"
proof -
  have "d' = apply_op (ListDueTimers clk 100 True clk) d"
    using assms(2) by (auto simp: timers_reactor_def fire_due_timers_once_def Let_def split: prod.splits)
  with assms(1) show ?thesis
    using lease_kept [of d k E "ListDueTimers clk 100 True clk"] apply_op_ok [of d "ListDueTimers clk 100 True clk"] by (simp add: stays_claimed_def)
qed

lemma compact_keeps_unready:
  assumes "stays_claimed k E d" and "compact_reactor a clk d = (l, d')" and "get_effect k d' = Inr (Some r)" and "t < E"
  shows "\<not> dispatch_ready t r"
proof -
  have sub: "set (db_effects d') \<subseteq> set (db_effects d)" and ok': "db_ok d'"
    using assms(1,2) compact_only_deletes(1) [of "daemon_policy a" 0 clk d] compact_once_ok [of d "daemon_policy a" 0 clk]
    by (auto simp: compact_reactor_def stays_claimed_def split: if_splits prod.splits)
  have "r \<in> set (db_effects d')" "effect_pk r = k"
    using assms(3) ok' by (auto simp: get_effect_eq dest: tbl_lookup_SomeD)
  then have "tbl_lookup effect_pk (db_effects d) k = Some r"
    using sub assms(1) by (auto simp: stays_claimed_def db_ok_def intro!: tbl_lookup_mem)
  then show ?thesis using assms(1,4) by (simp add: stays_claimed_def no_claim_before_def)
qed

section \<open>Properties\<close>

lemma daemon_claimer_named: "daemon_claimer a host pid \<noteq> []"
  by (simp add: daemon_claimer_def)

lemma daemon_loop_ticks:
  assumes "daemon_loop a cs claimer clk i hs d w = ((ended, ls), d', w')"
  shows "if da_once a then ended \<and> length ls = 1
    else ended = list_ex fst hs \<and> length ls = Suc (length (takeWhile (\<lambda>h. \<not> fst h) hs))"
  using assms
proof (induction hs arbitrary: i d w ls)
  case Nil
  then show ?case by (auto simp: daemon_loop.simps [where hs = "[]"] split: prod.splits if_splits)
next
  case (Cons h hs)
  obtain stop ops where h: "h = (stop, ops)" by fastforce
  obtain l d1 w1 where t: "daemon_tick a cs claimer (clk i) d w = (l, d1, w1)" by (metis surj_pair)
  obtain e2 ls2 d2 w2 where rest: "daemon_loop a cs claimer clk (Suc i) hs (run_ops ops d1) w1 = ((e2, ls2), d2, w2)" by (metis surj_pair)
  show ?case using Cons.prems Cons.IH [of "Suc i" "run_ops ops d1" w1 ls2] rest
    by (auto simp: h daemon_loop.simps [of a cs claimer clk i "(stop, ops) # hs"] t Let_def split: if_splits)
qed

text \<open>
  The reactor process adds nothing to the service: whatever is on its command line, whatever the
  connectors do, whichever reactors crash and whatever other processes do while it waits, the
  database is one the service's operations reach, so the invariant is kept. A tick that crashes
  never ends the loop: with \<open>--once\<close> there is exactly one tick, otherwise one for every wait until
  the stop signal.
\<close>

lemma daemon_keeps_journal:
  assumes "daemon_run a imp host pid clk hs d w = (r, d', w')"
  shows "service_step\<^sup>*\<^sup>* d d' \<and> (db_ok d \<longrightarrow> db_ok d') \<and>
    (case r of Inl ex \<Rightarrow> load_connectors imp (da_connectors a) = Inl ex \<and> d' = d
     | Inr (ended, ls) \<Rightarrow> (if da_once a then ended \<and> length ls = 1
         else ended = list_ex fst hs \<and> length ls = Suc (length (takeWhile (\<lambda>h. \<not> fst h) hs))))"
proof -
  have steps: "service_step\<^sup>*\<^sup>* d d'"
    using assms daemon_loop_steps by (auto simp: daemon_run_def split: sum.splits prod.splits)
  then have "db_ok d \<longrightarrow> db_ok d'" using service.inv_steps by blast
  moreover have "case r of Inl ex \<Rightarrow> load_connectors imp (da_connectors a) = Inl ex \<and> d' = d
     | Inr (ended, ls) \<Rightarrow> (if da_once a then ended \<and> length ls = 1
         else ended = list_ex fst hs \<and> length ls = Suc (length (takeWhile (\<lambda>h. \<not> fst h) hs)))"
    using assms by (cases "load_connectors imp (da_connectors a)") (auto simp: daemon_run_def dest: daemon_loop_ticks split: prod.splits)
  ultimately show ?thesis using steps by blast
qed

text \<open>
  C19. The queue moves on: an outbox effect that is listed when a tick begins and whose connector is
  known is not ready again at that time when the whole tick is over, although reconciler, drainer,
  timers and compactor ran after the dispatcher and any of them may have crashed; without
  compaction it is still in the journal. The process always claims under a name, as the leases need.
\<close>

theorem daemon_tick_leaves_queue:
  assumes "db_ok d" and "0 < clk 0 0" and "\<not> da_no_outbox a"
    and "daemon_tick a cs (daemon_claimer a host pid) clk d w = (l, d', w')"
    and "y \<in> set (list_effects_to_dispatch (clk 0 0) [] 50 (clk 0 0) d)" and "conn_of cs (e_connector y) \<noteq> None"
  shows "(\<forall>r. get_effect (effect_pk y) d' = Inr (Some r) \<longrightarrow> \<not> dispatch_ready (clk 0 0) r) \<and>
    (\<not> da_compact a \<longrightarrow> (\<exists>r. get_effect (effect_pk y) d' = Inr (Some r)))"
proof (rule daemon_tick_chain [OF assms(4), where P = "stays_claimed (effect_pk y) (clk 0 0 + 1)"])
  fix l0 d0 w0
  assume "guarded ''outbox'' (\<not> da_no_outbox a) (dispatch_outbox_once cs (dispatch_defaults (daemon_claimer a host pid)) (clk 0)) d w = (l0, d0, w0)"
  then obtain x where run: "dispatch_outbox_once cs (dispatch_defaults (daemon_claimer a host pid)) (clk 0) d w = (x, d0, w0)"
    using assms(3) by (auto simp: guarded_def split: sum.splits prod.splits)
  have ok: "db_ok d0" by (rule dispatch_outbox_ok [OF assms(1) run])
  obtain r where "get_effect (effect_pk y) d0 = Inr (Some r)" "\<not> dispatch_ready (clk 0 0) r"
    using outbox_tick_leaves_queue [OF assms(1,2) run, of y] assms(5,6) daemon_claimer_named by (auto simp: dispatch_defaults_def)
  then show "stays_claimed (effect_pk y) (clk 0 0 + 1) d0"
    using ok ready_later by (auto simp: stays_claimed_def no_claim_before_def get_effect_eq)
next
  fix d3 l4
  assume c: "stays_claimed (effect_pk y) (clk 0 0 + 1) d3" and run: "compact_reactor a (clk 4 0) d3 = (l4, d')"
  have "\<exists>r. get_effect (effect_pk y) d' = Inr (Some r)" if "\<not> da_compact a"
    using c run that by (auto simp: compact_reactor_def stays_claimed_def no_claim_before_def get_effect_eq split: option.splits)
  with compact_keeps_unready [OF c run] show ?thesis by force
qed (fact reconcile_keeps_claimed drain_keeps_claimed timers_keep_claimed)+

theorem daemon_tick_leaves_queue_witness:
  "let (l, d', w') = daemon_tick daemon_args_defaults [(''bank'', LogConnector)] (daemon_claimer daemon_args_defaults ''host'' 7)
                       (\<lambda>_ _. 1000) sample_db ([], [], [])
   in \<exists>r. get_effect (effect_pk sample_pending) d' = Inr (Some r) \<and> \<not> dispatch_ready 1000 r"
proof -
  let ?a = daemon_args_defaults and ?cs = "[(''bank'', LogConnector)]"
  obtain l d' w' where run: "daemon_tick ?a ?cs (daemon_claimer ?a ''host'' 7) (\<lambda>_ _. 1000) sample_db ([], [], []) = (l, d', w')"
    by (metis surj_pair)
  have "list_effects_to_dispatch 1000 [] 50 1000 sample_db = [sample_pending]" by code_simp
  moreover have "conn_of ?cs (e_connector sample_pending) \<noteq> None" by (simp add: conn_of_def sample_pending_def)
  ultimately show ?thesis
    using daemon_tick_leaves_queue [OF sample_db_ok _ _ run, of sample_pending] run by (auto simp: daemon_args_defaults_def)
qed

end
