(* ===== verification/Plugin.thy ===== *)
theory Plugin
  imports EffectLedger ObligationLedger
begin

text \<open>
  The ADK plugin (\<open>plugin.py\<close>) and the tool decorators (\<open>decorators.py\<close>): the metadata a
  tool carries and its refusals at decoration time, the plugin's per-invocation counters,
  and its six callbacks over the ledgers.

  ADK's objects enter as what the code reads of them: a tool as its name and the metadata
  found on it or on the function it wraps, a tool context as its ids and its state dict, a
  session's events as their invocation id and what \<open>get_function_calls\<close> gives. Key
  functions are code of the application, so they are functions that return a value or the
  exception they raise. A callback returns its response (\<open>None\<close> lets the tool run) or the
  exception that left it, and the state it left behind.
\<close>

section \<open>Decorators\<close>

text \<open>
  A key function called with keyword arguments, and with positional ones. An exception of
  the first comes with whether it is a \<open>TypeError\<close>.
\<close>

record key_fn =
  kf_kwargs :: "(string \<times> json) list \<Rightarrow> (bool \<times> py_exn) + string option"
  kf_positional :: "json list \<Rightarrow> py_exn + string option"

record EffectMeta =
  m_semantics :: string
  m_dispatch_mode :: string
  m_business_key_fn :: "key_fn option"
  m_business_key_static :: "string option"
  m_connector :: "string option"
  m_compensate :: "string option"
  m_custom_key_fn :: "key_fn option"

definition resolve_business_key :: "EffectMeta \<Rightarrow> (string \<times> json) list \<Rightarrow> py_exn + string option" where
  "resolve_business_key m args =
     (case m_business_key_static m of
        Some s \<Rightarrow> Inr (Some s)
      | None \<Rightarrow>
          (case m_business_key_fn m of
             None \<Rightarrow> Inr None
           | Some f \<Rightarrow>
               (case kf_kwargs f args of
                  Inl (is_type_error, ex) \<Rightarrow>
                    if is_type_error then kf_positional f (map snd args) else Inl ex
                | Inr k \<Rightarrow> Inr k)))"

text \<open>
  A tool object: its name, the metadata stamped on it, and the metadata of the function in
  its \<open>func\<close> attribute if it has one.
\<close>

record tool =
  tool_name :: string
  tool_direct :: "EffectMeta option"
  tool_func :: "EffectMeta option option"

definition meta_of :: "tool \<Rightarrow> EffectMeta option" where
  "meta_of t = (case tool_direct t of Some m \<Rightarrow> Some m
     | None \<Rightarrow> (case tool_func t of Some m \<Rightarrow> m | None \<Rightarrow> None))"

definition effect :: "key_fn option \<Rightarrow> EffectMeta" where
  "effect custom_key = \<lparr>m_semantics = EffectSemantics_IDEMPOTENT,
     m_dispatch_mode = EffectDispatchMode_INLINE, m_business_key_fn = None,
     m_business_key_static = None, m_connector = None, m_compensate = None,
     m_custom_key_fn = custom_key\<rparr>"

datatype business_key_arg = BkStatic string | BkFn key_fn

definition outbox_tool ::
    "business_key_arg option \<Rightarrow> string \<Rightarrow> string option \<Rightarrow> key_fn option \<Rightarrow> tape_error + EffectMeta" where
  "outbox_tool business_key connector compensate custom_key =
     (if connector = [] then
        Inl (ValueError (''@outbox_tool: `connector` is required '' @ [CHR 0xE2, CHR 0x80, CHR 0x94] @
               '' the outbox dispatcher needs to know which connector to dispatch through.''))
      else
        (case business_key of
           None \<Rightarrow> Inl (ValueError (''@outbox_tool: `business_key` is required '' @
               [CHR 0xE2, CHR 0x80, CHR 0x94] @
               '' non-idempotent operations must declare the key the upstream uses to dedupe. '' @
               ''Pass a string OR a callable that derives it from the tool args.''))
         | Some bk \<Rightarrow> Inr \<lparr>
             m_semantics = EffectSemantics_NON_IDEMPOTENT,
             m_dispatch_mode = EffectDispatchMode_OUTBOX,
             m_business_key_fn = (case bk of BkStatic _ \<Rightarrow> None | BkFn f \<Rightarrow> Some f),
             m_business_key_static = (case bk of BkStatic s \<Rightarrow> Some s | BkFn _ \<Rightarrow> None),
             m_connector = Some connector, m_compensate = compensate,
             m_custom_key_fn = custom_key\<rparr>))"

section \<open>Invocation counters\<close>

record plugin =
  p_dnext :: "string \<rightharpoonup> int"
  p_dlast :: "string \<rightharpoonup> int"
  p_tcount :: "string \<times> int \<times> string \<rightharpoonup> int"

definition new_plugin :: plugin where
  "new_plugin = \<lparr>p_dnext = Map.empty, p_dlast = Map.empty, p_tcount = Map.empty\<rparr>"

text \<open>
  An event: \<open>ev_calls\<close> is \<open>None\<close> where the event has no \<open>get_function_calls\<close>, and else what
  calling it gives: an exception, or whether the list is non-empty.
\<close>

record event =
  ev_invocation_id :: string
  ev_calls :: "(py_exn + bool) option"

text \<open>The loop of \<open>before_run_callback\<close>: it stops at the first match and at an exception.\<close>

fun prior_decisions :: "string \<Rightarrow> event list \<Rightarrow> int" where
  "prior_decisions ivk [] = 0"
| "prior_decisions ivk (ev # evs) =
     (if ev_invocation_id ev = ivk then
        (case ev_calls ev of
           None \<Rightarrow> prior_decisions ivk evs
         | Some (Inl _) \<Rightarrow> 0
         | Some (Inr has) \<Rightarrow> if has then max 0 1 else prior_decisions ivk evs)
      else prior_decisions ivk evs)"

definition before_run_callback :: "string \<Rightarrow> event list \<Rightarrow> plugin \<Rightarrow> plugin" where
  "before_run_callback ivk events p =
     (let prior = prior_decisions ivk events
      in p\<lparr>p_dnext := (p_dnext p)(ivk \<mapsto> prior), p_dlast := (p_dlast p)(ivk \<mapsto> max (prior - 1) (-1))\<rparr>)"

definition after_run_callback :: "string \<Rightarrow> plugin \<Rightarrow> plugin" where
  "after_run_callback ivk p = p\<lparr>
     p_dnext := (p_dnext p)(ivk := None), p_dlast := (p_dlast p)(ivk := None),
     p_tcount := (\<lambda>k. if fst k = ivk then None else p_tcount p k)\<rparr>"

definition after_model_callback :: "string \<Rightarrow> bool \<Rightarrow> plugin \<Rightarrow> plugin" where
  "after_model_callback ivk has_calls p =
     (if \<not> has_calls then p
      else (let idx = (case p_dnext p ivk of Some n \<Rightarrow> n | None \<Rightarrow> 0)
            in p\<lparr>p_dnext := (p_dnext p)(ivk \<mapsto> idx + 1), p_dlast := (p_dlast p)(ivk \<mapsto> idx)\<rparr>))"

section \<open>Tool callbacks\<close>

record tool_context =
  tc_invocation_id :: string
  tc_app_name :: string
  tc_user_id :: string
  tc_session_id :: string

type_synonym turn_state = "string \<rightharpoonup> json"

datatype plugin_error = Raised py_exn | Service tape_error

text \<open>
  The text of an exception of the service; \<open>orig\<close> renders the driver's message for a
  violated constraint.
\<close>

definition error_text :: "(violation \<Rightarrow> string) \<Rightarrow> tape_error \<Rightarrow> string" where
  "error_text orig e = (case e of
     ValueError m \<Rightarrow> m
   | BusinessKeyExists c v \<Rightarrow> ''begin_effect: business_key already exists for connector='' @
       repr_opt c @ '': '' @ orig v
   | IntegrityError v \<Rightarrow> orig v
   | MultipleResultsFound \<Rightarrow> ''Multiple rows were found when one or none was required''
   | KeyError k \<Rightarrow> repr_opt k)"

definition effect_key_slot :: "string \<Rightarrow> int \<Rightarrow> string" where
  "effect_key_slot name call_index = ''temp:tape_effect_key:'' @ name @ '':'' @ int_str call_index"

definition call_index_slot :: "string \<Rightarrow> string" where
  "call_index_slot name = ''temp:tape_call_index:'' @ name"

definition tool_begin_args ::
    "EffectMeta \<Rightarrow> tool_context \<Rightarrow> string \<Rightarrow> int \<Rightarrow> int \<Rightarrow> json \<Rightarrow> string option \<Rightarrow> begin_args" where
  "tool_begin_args m ctx name decision_idx call_index request business_key = \<lparr>
     b_app_name = tc_app_name ctx, b_user_id = tc_user_id ctx, b_session_id = tc_session_id ctx,
     b_invocation_id = tc_invocation_id ctx, b_decision_index = decision_idx,
     b_tool_name = name, b_call_index = call_index, b_request_json = request, b_custom_key = [],
     b_semantics = m_semantics m, b_dispatch_mode = m_dispatch_mode m,
     b_business_key = business_key, b_connector = m_connector m\<rparr>"

definition is_dict :: "json \<Rightarrow> bool" where
  "is_dict v = (case v of JObj _ \<Rightarrow> True | _ \<Rightarrow> False)"

definition pending_note :: string where
  "pending_note = ''the outbox dispatcher will execute this call; the result will land via a separate function_response event''"

text \<open>What the plugin answers for a journaled effect.\<close>

definition tool_answer :: "EffectRecord \<Rightarrow> string option \<Rightarrow> json option" where
  "tool_answer eff business_key =
     (if e_status eff = EffectStatus_CONFIRMED then
        Some (if is_dict (e_response_json eff) then e_response_json eff
              else JObj [(''tape_replay'', e_response_json eff)])
      else if e_status eff = EffectStatus_FAILED then
        Some (JObj [(''status'', JStr ''failed''), (''error'', e_error_json eff), (''tape_replay'', JBool True)])
      else if e_status eff = EffectStatus_UNKNOWN then
        Some (JObj [(''status'', JStr ''unknown''), (''tape_replay'', JBool True),
                    (''idempotency_key'', JStr (e_idempotency_key eff))])
      else if e_dispatch_mode eff = EffectDispatchMode_OUTBOX then
        Some (JObj [(''status'', JStr ''pending''), (''idempotency_key'', JStr (e_idempotency_key eff)),
                    (''business_key'', opt_json business_key), (''note'', JStr pending_note)])
      else None)"

type_synonym callback_result = "(plugin_error + json option) \<times> plugin \<times> turn_state \<times> db"

definition decision_of :: "plugin \<Rightarrow> string \<Rightarrow> int" where
  "decision_of p ivk = (case p_dlast p ivk of Some n \<Rightarrow> n | None \<Rightarrow> 0)"

definition call_index_of :: "plugin \<Rightarrow> string \<Rightarrow> string \<Rightarrow> int" where
  "call_index_of p ivk name = (case p_tcount p (ivk, decision_of p ivk, name) of Some n \<Rightarrow> n | None \<Rightarrow> 0)"

definition before_tool_callback ::
    "(violation \<Rightarrow> string) \<Rightarrow> tool \<Rightarrow> (string \<times> json) list option \<Rightarrow> tool_context \<Rightarrow> int \<Rightarrow>
     plugin \<Rightarrow> turn_state \<Rightarrow> db \<Rightarrow> callback_result" where
  "before_tool_callback orig t args ctx clk p st d =
     (case meta_of t of
        None \<Rightarrow> (Inr None, p, st, d)
      | Some m \<Rightarrow>
          (let ivk = tc_invocation_id ctx;
               decision_idx = decision_of p ivk;
               call_key = (ivk, decision_idx, tool_name t);
               call_index = call_index_of p ivk (tool_name t);
               p' = p\<lparr>p_tcount := (p_tcount p)(call_key \<mapsto> call_index + 1)\<rparr>;
               args_or = (case args of Some kvs \<Rightarrow> kvs | None \<Rightarrow> []);
               request = (case args of Some kvs \<Rightarrow> JObj kvs | None \<Rightarrow> JNull)
           in case (if m_business_key_fn m \<noteq> None \<or> truthy_str (m_business_key_static m)
                    then resolve_business_key m args_or else Inr None) of
                Inl ex \<Rightarrow> (Inl (Raised ex), p', st, d)
              | Inr business_key \<Rightarrow>
                  (case begin_effect (tool_begin_args m ctx (tool_name t) decision_idx call_index
                                        request business_key) clk d of
                     Inl e \<Rightarrow>
                       if is_value_error e then
                         (Inr (Some (JObj [(''status'', JStr ''failed''),
                            (''error'', JStr (''tape refused effect: '' @ error_text orig e))])), p', st, d)
                       else (Inl (Service e), p', st, d)
                   | Inr (eff, d') \<Rightarrow>
                       (let st' = st(effect_key_slot (tool_name t) call_index \<mapsto> JStr (e_idempotency_key eff),
                                     call_index_slot (tool_name t) \<mapsto> JNum call_index)
                        in (Inr (tool_answer eff business_key), p', st', d')))))"

text \<open>
  The key of the effect to complete: the last call index stashed for the tool, then the
  key stashed under it.
\<close>

definition stashed_key :: "tool \<Rightarrow> turn_state \<Rightarrow> string option" where
  "stashed_key t st =
     (case st (call_index_slot (tool_name t)) of
        Some (JNum i) \<Rightarrow>
          (case st (effect_key_slot (tool_name t) i) of Some (JStr k) \<Rightarrow> Some k | _ \<Rightarrow> None)
      | _ \<Rightarrow> None)"

definition context_id :: "tool_context \<Rightarrow> string \<Rightarrow> effect_id" where
  "context_id ctx k = (tc_app_name ctx, tc_user_id ctx, tc_session_id ctx, k)"

definition after_tool_callback ::
    "tool \<Rightarrow> (string \<times> json) list option \<Rightarrow> tool_context \<Rightarrow> json \<Rightarrow> int \<Rightarrow> int \<Rightarrow> turn_state \<Rightarrow> db \<Rightarrow>
     (plugin_error + json option) \<times> db" where
  "after_tool_callback t args ctx result clk1 clk2 st d =
     (case meta_of t of
        None \<Rightarrow> (Inr None, d)
      | Some m \<Rightarrow>
          if m_dispatch_mode m = EffectDispatchMode_OUTBOX then (Inr None, d)
          else
            (case stashed_key t st of
               None \<Rightarrow> (Inr None, d)
             | Some k \<Rightarrow>
                 (case complete_effect (context_id ctx k) EffectStatus_CONFIRMED result JNull clk1 d of
                    Inl e \<Rightarrow> (Inl (Service e), d)
                  | Inr (_, d1) \<Rightarrow>
                      if truthy_str (m_compensate m) then
                        (case register_compensation \<lparr>
                             r_app_name = tc_app_name ctx, r_user_id = tc_user_id ctx,
                             r_session_id = tc_session_id ctx, r_invocation_id = tc_invocation_id ctx,
                             r_effect_key = k, r_kind = the (m_compensate m),
                             r_payload_json = JObj [(''args'', case args of Some kvs \<Rightarrow> JObj kvs | None \<Rightarrow> JNull),
                                                    (''result'', result)],
                             r_compensator_ref = None, r_max_attempts = 5\<rparr> clk2 d1 of
                           Inl e \<Rightarrow> (Inl (Service e), d1)
                         | Inr (_, d2) \<Rightarrow> (Inr None, d2))
                      else (Inr None, d1))))"

text \<open>\<open>ack_lost\<close> is \<open>isinstance(error, AckLost)\<close>.\<close>

definition on_tool_error_callback ::
    "tool \<Rightarrow> tool_context \<Rightarrow> bool \<Rightarrow> py_exn \<Rightarrow> int \<Rightarrow> turn_state \<Rightarrow> db \<Rightarrow> (plugin_error + json option) \<times> db" where
  "on_tool_error_callback t ctx ack_lost error clk st d =
     (case meta_of t of
        None \<Rightarrow> (Inr None, d)
      | Some m \<Rightarrow>
          if m_dispatch_mode m = EffectDispatchMode_OUTBOX then (Inr None, d)
          else
            (case stashed_key t st of
               None \<Rightarrow> (Inr None, d)
             | Some k \<Rightarrow>
                 (case error of PyExn tn msg \<Rightarrow>
                    (case complete_effect (context_id ctx k)
                            (if ack_lost then EffectStatus_UNKNOWN else EffectStatus_FAILED) JNull
                            (JObj [(''type'', JStr (if ack_lost then ''AckLost'' else tn)),
                                   (''message'', JStr msg)]) clk d of
                       Inl e \<Rightarrow> (Inl (Service e), d)
                     | Inr (_, d') \<Rightarrow> (Inr None, d')))))"

text \<open>The identity of the effect the next call of a tool is journaled under.\<close>

definition call_key_of :: "plugin \<Rightarrow> tool_context \<Rightarrow> tool \<Rightarrow> string" where
  "call_key_of p ctx t = derived_key (tc_invocation_id ctx) (decision_of p (tc_invocation_id ctx))
     (tool_name t) (call_index_of p (tc_invocation_id ctx) (tool_name t))"

text \<open>A call that was never made: no row and no captured effect under its key.\<close>

definition new_call :: "plugin \<Rightarrow> tool_context \<Rightarrow> tool \<Rightarrow> db \<Rightarrow> bool" where
  "new_call p ctx t d \<longleftrightarrow>
     tbl_lookup effect_pk (db_effects d) (context_id ctx (call_key_of p ctx t)) = None \<and>
     captured_effect (tbl_lookup snapshot_pk (db_snapshots d)
       (tc_app_name ctx, tc_user_id ctx, tc_session_id ctx)) (call_key_of p ctx t) = None \<and>
     \<not> fk_violated d (tc_app_name ctx, tc_user_id ctx, tc_session_id ctx)"

definition sample_context :: tool_context where
  "sample_context = \<lparr>tc_invocation_id = ''inv'', tc_app_name = ''app'', tc_user_id = ''user'', tc_session_id = ''s1''\<rparr>"

section \<open>Slots and keys\<close>

lemma slots_differ [simp]: "effect_key_slot n i \<noteq> call_index_slot m" "call_index_slot m \<noteq> effect_key_slot n i"
  by (simp_all add: effect_key_slot_def call_index_slot_def)

lemma stashed_after_begin: "stashed_key t (st(effect_key_slot (tool_name t) i \<mapsto> JStr k,
    call_index_slot (tool_name t) \<mapsto> JNum i)) = Some k"
  by (simp add: stashed_key_def)

lemma tool_begin_id: "begin_id (tool_begin_args m ctx name n i req bk) =
    context_id ctx (derived_key (tc_invocation_id ctx) n name i)"
  by (simp add: begin_id_def tool_begin_args_def context_id_def begin_key_def)

lemma tool_begin_session: "begin_session (tool_begin_args m ctx name n i req bk) =
    (tc_app_name ctx, tc_user_id ctx, tc_session_id ctx)"
  by (simp add: begin_session_def tool_begin_args_def)

lemma tool_begin_key: "begin_key (tool_begin_args m ctx name n i req bk) =
    derived_key (tc_invocation_id ctx) n name i"
  by (simp add: begin_key_def tool_begin_args_def)

lemmas tool_begin = tool_begin_id tool_begin_session tool_begin_key

text \<open>An inline tool's decorator never makes a refused call.\<close>

lemma effect_simps [simp]:
  "m_semantics (effect ck) = EffectSemantics_IDEMPOTENT"
  "m_dispatch_mode (effect ck) = EffectDispatchMode_INLINE"
  "m_business_key_fn (effect ck) = None" "m_business_key_static (effect ck) = None"
  "m_connector (effect ck) = None" "m_compensate (effect ck) = None"
  by (simp_all add: effect_def)

lemma effect_not_refused: "\<not> begin_refused (tool_begin_args (effect ck) ctx name n i req bk)"
  by (simp add: begin_refused_def tool_begin_args_def)

lemma outbox_tool_simps:
  assumes "outbox_tool bk conn cmp ck = Inr m"
  shows "m_semantics m = EffectSemantics_NON_IDEMPOTENT" "m_dispatch_mode m = EffectDispatchMode_OUTBOX"
    "m_connector m = Some conn" "conn \<noteq> []" "m_compensate m = cmp"
  using assms by (auto simp: outbox_tool_def split: if_splits option.splits)

lemma outbox_not_refused:
  "outbox_tool bk conn cmp ck = Inr m \<Longrightarrow> \<not> begin_refused (tool_begin_args m ctx name n i req key)"
  by (auto simp: begin_refused_def tool_begin_args_def outbox_tool_simps truthy_str_iff)

lemma pending_row_args:
  "e_status (pending_row a clk) = EffectStatus_PENDING"
  "e_dispatch_mode (pending_row a clk) = b_dispatch_mode a"
  "e_semantics (pending_row a clk) = b_semantics a"
  "e_idempotency_key (pending_row a clk) = begin_key a"
  "effect_session (pending_row a clk) = begin_session a"
  by (simp_all add: pending_row_def effect_session_def begin_session_def)

lemma begin_new:
  assumes ok: "db_ok d" and nr: "\<not> begin_refused a"
    and row: "tbl_lookup effect_pk (db_effects d) (begin_id a) = None"
    and cap: "captured_effect (tbl_lookup snapshot_pk (db_snapshots d) (begin_session a)) (begin_key a) = None"
    and viol: "effect_insert_violation d (pending_row a clk) = None"
  shows "\<exists>d'. begin_effect a clk d = Inr (pending_row a clk, d') \<and> db_ok d' \<and>
    tbl_lookup effect_pk (db_effects d') (begin_id a) = Some (pending_row a clk)"
proof -
  let ?d' = "d\<lparr>db_effects := tbl_insert (pending_row a clk) (db_effects d)\<rparr>"
  have run: "begin_effect a clk d = Inr (pending_row a clk, ?d')"
    using assms by (simp add: begin_effect_cases)
  have "tbl_ok effect_pk (db_effects d)" using ok by (simp add: db_ok_def)
  from effects.insert_then_get [OF this, of "pending_row a clk"] row
  show ?thesis using run begin_effect_ok [OF ok run] by (simp add: pending_row_pk)
qed

section \<open>The callbacks on one call\<close>

lemma before_tool_effect:
  assumes "meta_of t = Some m"
    and "(if m_business_key_fn m \<noteq> None \<or> truthy_str (m_business_key_static m)
          then resolve_business_key m (case args of Some kvs \<Rightarrow> kvs | None \<Rightarrow> []) else Inr None) = Inr bk"
    and "begin_effect (tool_begin_args m ctx (tool_name t) (decision_of p (tc_invocation_id ctx))
          (call_index_of p (tc_invocation_id ctx) (tool_name t))
          (case args of Some kvs \<Rightarrow> JObj kvs | None \<Rightarrow> JNull) bk) clk d = Inr (eff, d')"
  shows "\<exists>p' st'. before_tool_callback orig t args ctx clk p st d = (Inr (tool_answer eff bk), p', st', d') \<and>
    stashed_key t st' = Some (e_idempotency_key eff)"
  using assms by (simp add: before_tool_callback_def Let_def stashed_after_begin)

lemma inline_insert_ok:
  assumes "new_call p ctx t d"
  shows "effect_insert_violation d (pending_row (tool_begin_args (effect ck) ctx (tool_name t)
     (decision_of p (tc_invocation_id ctx)) (call_index_of p (tc_invocation_id ctx) (tool_name t)) req None) clk) = None"
  using assms
  by (auto simp: effect_insert_violation_None new_call_def call_key_of_def pending_row_pk tool_begin
      pending_row_args list_ex_iff business_clash_def)
     (simp add: pending_row_def tool_begin_args_def str_or_none_def)

lemma inline_begin_new:
  assumes ok: "db_ok d" and meta: "meta_of t = Some (effect ck)" and new: "new_call p ctx t d"
  shows "\<exists>r p' st' d'. before_tool_callback orig t args ctx clk p st d = (Inr None, p', st', d') \<and>
    stashed_key t st' = Some (call_key_of p ctx t) \<and> db_ok d' \<and> e_status r = EffectStatus_PENDING \<and>
    tbl_lookup effect_pk (db_effects d') (context_id ctx (call_key_of p ctx t)) = Some r"
proof -
  let ?a = "tool_begin_args (effect ck) ctx (tool_name t) (decision_of p (tc_invocation_id ctx))
     (call_index_of p (tc_invocation_id ctx) (tool_name t)) (case args of Some kvs \<Rightarrow> JObj kvs | None \<Rightarrow> JNull) None"
  have id: "begin_id ?a = context_id ctx (call_key_of p ctx t)" and key: "begin_key ?a = call_key_of p ctx t"
    by (simp_all add: tool_begin call_key_of_def)
  from new have "tbl_lookup effect_pk (db_effects d) (begin_id ?a) = None"
    and "captured_effect (tbl_lookup snapshot_pk (db_snapshots d) (begin_session ?a)) (begin_key ?a) = None"
    by (simp_all add: new_call_def id key tool_begin_session)
  from begin_new [OF ok effect_not_refused this inline_insert_ok [OF new], of clk] obtain d' where
    run: "begin_effect ?a clk d = Inr (pending_row ?a clk, d')" and ok': "db_ok d'"
    and row: "tbl_lookup effect_pk (db_effects d') (begin_id ?a) = Some (pending_row ?a clk)" by blast
  have "tool_answer (pending_row ?a clk) None = None"
    by (simp add: tool_answer_def pending_row_args) (simp add: tool_begin_args_def)
  with before_tool_effect [OF meta _ run, of orig st] ok' row show ?thesis
    by (auto simp: id key pending_row_args)
qed

lemma after_tool_completes:
  assumes ok: "db_ok d" and meta: "meta_of t = Some (effect ck)" and st: "stashed_key t st = Some k"
    and row: "tbl_lookup effect_pk (db_effects d) (context_id ctx k) = Some r"
    and pend: "e_status r = EffectStatus_PENDING"
  shows "\<exists>d'. after_tool_callback t args ctx res clk1 clk2 st d = (Inr None, d') \<and> db_ok d' \<and>
    tbl_lookup effect_pk (db_effects d') (context_id ctx k) =
      Some (complete_row EffectStatus_CONFIRMED res JNull clk1 r)"
proof -
  from complete_stores [OF ok row pend, of EffectStatus_CONFIRMED res JNull clk1] obtain d' where
    "complete_effect (context_id ctx k) EffectStatus_CONFIRMED res JNull clk1 d =
       Inr (Some (complete_row EffectStatus_CONFIRMED res JNull clk1 r), d')" and "db_ok d'"
    and "tbl_lookup effect_pk (db_effects d') (context_id ctx k) =
       Some (complete_row EffectStatus_CONFIRMED res JNull clk1 r)" by auto
  with meta st show ?thesis by (simp add: after_tool_callback_def)
qed

lemma before_tool_replays:
  assumes ok: "db_ok d" and meta: "meta_of t = Some (effect ck)"
    and row: "tbl_lookup effect_pk (db_effects d) (context_id ctx (call_key_of p ctx t)) = Some r"
  shows "\<exists>p' st'. before_tool_callback orig t args ctx clk p st d = (Inr (tool_answer r None), p', st', d)"
proof -
  let ?a = "tool_begin_args (effect ck) ctx (tool_name t) (decision_of p (tc_invocation_id ctx))
     (call_index_of p (tc_invocation_id ctx) (tool_name t)) (case args of Some kvs \<Rightarrow> JObj kvs | None \<Rightarrow> JNull) None"
  have "begin_effect ?a clk d = Inr (r, d)"
    using row by (simp add: begin_effect_cases [OF ok effect_not_refused] tool_begin call_key_of_def)
  from before_tool_effect [OF meta _ this, of orig st] show ?thesis by auto
qed

lemma outbox_begin_mode:
  assumes ok: "db_ok d" and tool: "outbox_tool bk conn cmp ck = Inr m"
    and row: "\<And>r. tbl_lookup effect_pk (db_effects d) (begin_id a) = Some r \<Longrightarrow>
        e_dispatch_mode r = EffectDispatchMode_OUTBOX"
    and cap: "captured_effect (tbl_lookup snapshot_pk (db_snapshots d) (begin_session a)) (begin_key a) = None"
    and a: "a = tool_begin_args m ctx name n i req key"
    and run: "begin_effect a clk d = Inr (eff, d')"
  shows "e_dispatch_mode eff = EffectDispatchMode_OUTBOX \<and>
    tbl_lookup effect_pk (db_effects d') (begin_id a) = Some eff"
proof -
  have nr: "\<not> begin_refused a" unfolding a by (rule outbox_not_refused [OF tool])
  have tbl: "tbl_ok effect_pk (db_effects d)" using ok by (simp add: db_ok_def)
  have "b_dispatch_mode a = EffectDispatchMode_OUTBOX"
    using outbox_tool_simps [OF tool] by (simp add: a tool_begin_args_def)
  with run row cap effects.insert_then_get [OF tbl, of "pending_row a clk"] show ?thesis
    by (auto simp: begin_effect_cases [OF ok nr] pending_row_args pending_row_pk
        effect_insert_violation_None split: option.splits)
qed

lemma outbox_answer: "e_dispatch_mode r = EffectDispatchMode_OUTBOX \<Longrightarrow> tool_answer r bk \<noteq> None"
  by (simp add: tool_answer_def)

text \<open>Counters after a run start and a first decision.\<close>

lemma prior_decisions_le: "prior_decisions ivk evs \<in> {0, 1}"
  by (induction evs) (auto split: option.split sum.split)

lemma next_decision: "decision_of (after_model_callback ivk True (before_run_callback ivk evs p)) ivk =
    prior_decisions ivk evs"
  by (simp add: decision_of_def after_model_callback_def before_run_callback_def Let_def)

text \<open>
  A tool's compensation is never registered by the plugin: only \<open>@outbox_tool\<close> sets it, and
  outbox tools return before the registration.
\<close>

lemma after_tool_registers_nothing:
  assumes "meta_of t = Some m" and "m = effect ck \<or> outbox_tool bk conn cmp ck' = Inr m"
  shows "db_obligations (snd (after_tool_callback t args ctx res clk1 clk2 st d)) = db_obligations d"
proof -
  have "db_obligations d' = db_obligations d" if "complete_effect k st' r e c d = Inr (x, d')" for k st' r e c x d'
    using that by (auto simp: complete_effect_def split: if_splits sum.splits option.splits)
  with assms show ?thesis
    by (auto simp: after_tool_callback_def outbox_tool_simps split: option.split sum.split)
qed

section \<open>Properties\<close>

text \<open>
  C5. An \<open>@effect\<close> tool's body runs once: for a call never made before, \<open>before_tool\<close> journals
  a pending effect and lets the body run; once \<open>after_tool\<close> has recorded its
  result, a re-driven invocation that reaches the same call (same decision and call
  index, whatever its arguments) is answered with that result, the body does not run and
  the database does not change.
\<close>

theorem inline_tool_runs_once:
  assumes ok: "db_ok d" and meta: "meta_of t = Some (effect ck)" and new: "new_call p ctx t d"
    and same: "call_key_of p2 ctx t = call_key_of p ctx t"
  shows "\<exists>p1 st1 d1 d2 p3 st3.
    before_tool_callback orig t args ctx clk p st d = (Inr None, p1, st1, d1) \<and>
    after_tool_callback t args ctx (JObj res) clk1 clk2 st1 d1 = (Inr None, d2) \<and>
    before_tool_callback orig t args2 ctx clk3 p2 st2 d2 = (Inr (Some (JObj res)), p3, st3, d2)"
proof -
  from inline_begin_new [OF ok meta new, of orig args clk st] obtain r p1 st1 d1 where
    b: "before_tool_callback orig t args ctx clk p st d = (Inr None, p1, st1, d1)"
    and k: "stashed_key t st1 = Some (call_key_of p ctx t)" and ok1: "db_ok d1"
    and pend: "e_status r = EffectStatus_PENDING"
    and row: "tbl_lookup effect_pk (db_effects d1) (context_id ctx (call_key_of p ctx t)) = Some r" by blast
  let ?r = "complete_row EffectStatus_CONFIRMED (JObj res) JNull clk1 r"
  from after_tool_completes [OF ok1 meta k row pend, of args "JObj res" clk1 clk2] obtain d2 where
    a: "after_tool_callback t args ctx (JObj res) clk1 clk2 st1 d1 = (Inr None, d2)" and ok2: "db_ok d2"
    and row2: "tbl_lookup effect_pk (db_effects d2) (context_id ctx (call_key_of p2 ctx t)) = Some ?r"
    unfolding same by blast
  have "tool_answer ?r None = Some (JObj res)" by (simp add: tool_answer_def is_dict_def)
  with before_tool_replays [OF ok2 meta row2, of orig args2 clk3 st2] a b show ?thesis by auto
qed

theorem inline_tool_runs_once_witness:
  "let t = \<lparr>tool_name = ''ship'', tool_direct = Some (effect None), tool_func = None\<rparr>
   in \<exists>p1 st1 d1 d2 p3 st3.
    before_tool_callback (\<lambda>_. []) t None sample_context 400 new_plugin Map.empty sample_db = (Inr None, p1, st1, d1) \<and>
    after_tool_callback t None sample_context (JObj []) 410 420 st1 d1 = (Inr None, d2) \<and>
    before_tool_callback (\<lambda>_. []) t None sample_context 500 new_plugin Map.empty d2 = (Inr (Some (JObj [])), p3, st3, d2)"
proof -
  let ?t = "\<lparr>tool_name = ''ship'', tool_direct = Some (effect None), tool_func = None\<rparr>"
  have "meta_of ?t = Some (effect None)" by (simp add: meta_of_def)
  moreover have "new_call new_plugin sample_context ?t sample_db" by code_simp
  ultimately show ?thesis
    using inline_tool_runs_once [OF sample_db_ok _ _ refl, of ?t None new_plugin sample_context] by (simp add: Let_def)
qed

text \<open>
  C6. An \<open>@outbox_tool\<close> body never runs inline: on a key that holds no inline effect,
  \<open>before_tool\<close> never lets the tool run, whatever the arguments, the key function and the
  journal say (it answers with the recorded outcome, with a pending answer, with a refusal,
  or raises), and the row it leaves under the key is again an outbox effect.
\<close>

theorem outbox_tool_never_runs_inline:
  assumes ok: "db_ok d" and meta: "meta_of t = Some m" and tool: "outbox_tool bk conn cmp ck = Inr m"
    and row: "\<And>r. tbl_lookup effect_pk (db_effects d) (context_id ctx (call_key_of p ctx t)) = Some r \<Longrightarrow>
        e_dispatch_mode r = EffectDispatchMode_OUTBOX"
    and cap: "captured_effect (tbl_lookup snapshot_pk (db_snapshots d)
        (tc_app_name ctx, tc_user_id ctx, tc_session_id ctx)) (call_key_of p ctx t) = None"
    and run: "before_tool_callback orig t args ctx clk p st d = (answer, p', st', d')"
  shows "answer \<noteq> Inr None \<and>
    (\<forall>r. tbl_lookup effect_pk (db_effects d') (context_id ctx (call_key_of p ctx t)) = Some r \<longrightarrow>
       e_dispatch_mode r = EffectDispatchMode_OUTBOX)"
proof -
  let ?key = "if m_business_key_fn m \<noteq> None \<or> truthy_str (m_business_key_static m)
    then resolve_business_key m (case args of Some kvs \<Rightarrow> kvs | None \<Rightarrow> []) else Inr None"
  let ?a = "\<lambda>key. tool_begin_args m ctx (tool_name t) (decision_of p (tc_invocation_id ctx))
    (call_index_of p (tc_invocation_id ctx) (tool_name t)) (case args of Some kvs \<Rightarrow> JObj kvs | None \<Rightarrow> JNull) key"
  show ?thesis
  proof (cases ?key)
    case (Inl ex)
    with run meta row show ?thesis by (auto simp: before_tool_callback_def Let_def split: if_splits)
  next
    case (Inr key)
    show ?thesis
    proof (cases "begin_effect (?a key) clk d")
      case (Inl e)
      with Inr run meta row show ?thesis by (auto simp: before_tool_callback_def Let_def split: if_splits)
    next
      case b: (Inr y)
      obtain eff d1 where y: "y = (eff, d1)" by (cases y)
      have id: "begin_id (?a key) = context_id ctx (call_key_of p ctx t)" for key
        by (simp add: tool_begin call_key_of_def)
      have "e_dispatch_mode eff = EffectDispatchMode_OUTBOX \<and>
          tbl_lookup effect_pk (db_effects d1) (begin_id (?a key)) = Some eff"
        by (rule outbox_begin_mode [OF ok tool _ _ refl b [unfolded y]])
           (use row cap in \<open>simp_all add: id\<close>, simp_all add: tool_begin call_key_of_def)
      with before_tool_effect [OF meta Inr b [unfolded y], of orig st] run show ?thesis
        by (auto simp: id outbox_answer)
    qed
  qed
qed

theorem outbox_tool_never_runs_inline_witness:
  "let m = projr (outbox_tool (Some (BkStatic ''invoice-9'')) ''bank'' None None);
       t = \<lparr>tool_name = ''pay'', tool_direct = None, tool_func = Some (Some m)\<rparr>
   in fst (before_tool_callback (\<lambda>_. []) t None sample_context 400 new_plugin Map.empty sample_db) \<noteq> Inr None"
proof -
  let ?m = "projr (outbox_tool (Some (BkStatic ''invoice-9'')) ''bank'' None None)"
  let ?t = "\<lparr>tool_name = ''pay'', tool_direct = None, tool_func = Some (Some ?m)\<rparr>"
  have tool: "outbox_tool (Some (BkStatic ''invoice-9'')) ''bank'' None None = Inr ?m"
    by (simp add: outbox_tool_def)
  have meta: "meta_of ?t = Some ?m" by (simp add: meta_of_def)
  obtain answer p' st' d' where run: "before_tool_callback (\<lambda>_. []) ?t None sample_context 400 new_plugin
      Map.empty sample_db = (answer, p', st', d')" by (metis prod_cases4)
  have key: "call_key_of new_plugin sample_context ?t = ''inv/decision-0/pay/0''" by code_simp
  have row: "tbl_lookup effect_pk (db_effects sample_db)
      (context_id sample_context (call_key_of new_plugin sample_context ?t)) = Some sample_pending"
    unfolding key by (simp add: context_id_def sample_context_def)
  have "answer \<noteq> Inr None \<and> (\<forall>r. tbl_lookup effect_pk (db_effects d')
      (context_id sample_context (call_key_of new_plugin sample_context ?t)) = Some r \<longrightarrow>
      e_dispatch_mode r = EffectDispatchMode_OUTBOX)"
  proof (rule outbox_tool_never_runs_inline [OF sample_db_ok meta tool _ _ run])
    fix r
    assume "tbl_lookup effect_pk (db_effects sample_db)
      (context_id sample_context (call_key_of new_plugin sample_context ?t)) = Some r"
    then show "e_dispatch_mode r = EffectDispatchMode_OUTBOX"
      unfolding row by (auto simp: sample_pending_def)
  qed (simp add: captured_effect_def)
  with run show ?thesis by (simp add: Let_def)
qed

text \<open>
  Resuming miscounts decisions: \<open>before_run\<close> counts at most one earlier decision, so
  after two decisions of an invocation, each of which called \<open>mail\<close>, the third decision of
  the resumed run is numbered 1 again, and its call of \<open>mail\<close> with new arguments is answered
  with the result recorded for the second decision instead of being executed.
\<close>

lemma resume_replays_wrong_decision:
  "let t = \<lparr>tool_name = ''mail'', tool_direct = Some (effect None), tool_func = None\<rparr>;
       call = \<lparr>ev_invocation_id = ''inv'', ev_calls = Some (Inr True)\<rparr>;
       p = after_model_callback ''inv'' True (before_run_callback ''inv'' [call, call] new_plugin);
       (answer, p', st', d') = before_tool_callback (\<lambda>_. []) t (Some [(''to'', JStr ''someone else'')])
                                 sample_context 900 p Map.empty sample_db
   in decision_of p ''inv'' = 1 \<and> answer = Inr (Some (JObj [(''tape_replay'', JStr ''sent'')]))"
  by code_simp

end
