(* ===== verification/EmbeddedChaos.thy ===== *)
theory EmbeddedChaos
  imports Reactors
begin

text \<open>
  The fault injection of the embedded tier (\<open>chaos.py\<close>): faults and their constructors, the
  \<open>ChaosConnector\<close> that decorates a connector, the invariants over the tables, and the
  scenario session that wraps connectors, runs a body and reports.

  The shared \<open>random.Random\<close> is a sequence of draws and a position in it, which is part of
  the world every wrapped connector sees. \<open>random()\<close> returns a multiple of \<open>2^-53\<close> below 1,
  so a draw is the integer multiple and a probability \<open>p\<close> is \<open>\<lceil>p * 2^53\<rceil>\<close>, for which the
  comparisons of the code are exact. The sleep of a delay fault changes nothing but time;
  only the draw its jitter takes is kept.
\<close>

section \<open>Faults\<close>

definition prob_one :: int where
  "prob_one = 2 ^ 53"

record Fault =
  f_layer :: string
  f_target :: string
  f_tool :: string
  f_action :: string
  f_probability :: int
  f_ms :: int
  f_jitter :: int

definition LAYER_CONNECTOR :: string where
  "LAYER_CONNECTOR = ''connector''"

definition new_fault :: "string \<Rightarrow> string \<Rightarrow> string \<Rightarrow> int \<Rightarrow> Fault" where
  "new_fault target tool action probability = \<lparr>f_layer = LAYER_CONNECTOR, f_target = target,
     f_tool = tool, f_action = action, f_probability = probability, f_ms = 0, f_jitter = 0\<rparr>"

definition lose_ack :: "string \<Rightarrow> string \<Rightarrow> int \<Rightarrow> tape_error + Fault" where
  "lose_ack connector tool probability =
     (if connector \<noteq> [] \<and> tool \<noteq> [] then
        Inl (ValueError ''lose_ack: pass connector= or tool=, not both'')
      else if \<not> (connector \<noteq> [] \<or> tool \<noteq> []) then
        Inl (ValueError ''lose_ack requires connector= or tool='')
      else Inr (new_fault connector tool ''lose_ack'' probability))"

text \<open>The default probabilities 0.3 and 0.05.\<close>

definition lose_ack_default :: int where
  "lose_ack_default = 2702159776422298"

definition duplicate_default :: int where
  "duplicate_default = 450359962737050"

definition duplicate :: "string \<Rightarrow> string \<Rightarrow> int \<Rightarrow> tape_error + Fault" where
  "duplicate connector tool probability =
     (if connector \<noteq> [] \<and> tool \<noteq> [] then
        Inl (ValueError ''duplicate: pass connector= or tool=, not both'')
      else if \<not> (connector \<noteq> [] \<or> tool \<noteq> []) then
        Inl (ValueError ''duplicate requires connector= or tool='')
      else Inr (new_fault connector tool ''duplicate'' probability))"

definition delay_connector :: "string \<Rightarrow> int \<Rightarrow> int \<Rightarrow> Fault" where
  "delay_connector connector ms jitter =
     (new_fault connector [] ''delay'' prob_one)\<lparr>f_ms := ms, f_jitter := jitter\<rparr>"

section \<open>The decorating connector\<close>

type_synonym draws = "nat \<Rightarrow> int"

fun matching :: "draws \<Rightarrow> string \<Rightarrow> EffectRecord \<Rightarrow> Fault list \<Rightarrow> nat \<Rightarrow> Fault option \<times> nat" where
  "matching rng kind e [] i = (None, i)"
| "matching rng kind e (f # fs) i =
     (if f_action f \<noteq> kind then matching rng kind e fs i
      else if f_tool f \<noteq> [] \<and> e_tool_name e \<noteq> f_tool f then matching rng kind e fs i
      else if f_probability f \<ge> prob_one then (Some f, i)
      else if rng i < f_probability f then (Some f, Suc i)
      else matching rng kind e fs (Suc i))"

definition chaos_dispatch ::
    "draws \<Rightarrow> Fault list \<Rightarrow> 'w connector \<Rightarrow> EffectRecord \<Rightarrow> 'w \<times> nat \<Rightarrow> (py_exn + DispatchResult) \<times> 'w \<times> nat" where
  "chaos_dispatch rng faults inner e wi =
     (case wi of (w, i) \<Rightarrow>
       (let (delay, i1) = matching rng ''delay'' e faults i;
            i2 = (case delay of Some f \<Rightarrow> if f_ms f > 0 \<and> f_jitter f > 0 then Suc i1 else i1 | None \<Rightarrow> i1)
        in case c_dispatch inner e w of
             (Inl ex, w') \<Rightarrow> (Inl ex, w', i2)
           | (Inr result, w') \<Rightarrow>
               if dr_status result = ''confirmed'' then
                 (case matching rng ''lose_ack'' e faults i2 of
                    (Some _, i3) \<Rightarrow>
                      (Inr \<lparr>dr_status = ''unknown'', dr_external_ref = dr_external_ref result,
                            dr_response = dr_response result,
                            dr_error = JObj [(''reason'', JStr ''tape_adk.chaos: simulated lost ack'')],
                            dr_retry_after_ms = 0\<rparr>, w', i3)
                  | (None, i3) \<Rightarrow> (Inr result, w', i3))
               else (Inr result, w', i2)))"

definition chaos_observe ::
    "draws \<Rightarrow> Fault list \<Rightarrow> 'w connector \<Rightarrow> EffectRecord \<Rightarrow> 'w \<times> nat \<Rightarrow> (py_exn + ObservationResult) \<times> 'w \<times> nat" where
  "chaos_observe rng faults inner e wi =
     (case wi of (w, i) \<Rightarrow>
        (case c_observe inner e w of
           (Inl ex, w') \<Rightarrow> (Inl ex, w', i)
         | (Inr result, w') \<Rightarrow>
             if or_status result = ''confirmed'' then
               (case matching rng ''duplicate'' e faults i of
                  (Some _, i') \<Rightarrow>
                    (Inr \<lparr>or_status = ''duplicate'', or_external_ref = or_external_ref result,
                          or_response = or_response result, or_error = JNull,
                          or_compensate_kind = or_compensate_kind result\<rparr>, w', i')
                | (None, i') \<Rightarrow> (Inr result, w', i'))
             else (Inr result, w', i)))"

definition chaos_compensate ::
    "'w connector \<Rightarrow> ObligationRecord \<Rightarrow> 'w \<times> nat \<Rightarrow> (py_exn + CompensationResult) \<times> 'w \<times> nat" where
  "chaos_compensate inner q wi =
     (case wi of (w, i) \<Rightarrow> (case c_compensate inner q w of (r, w') \<Rightarrow> (r, w', i)))"

definition ChaosConnector :: "draws \<Rightarrow> Fault list \<Rightarrow> 'w connector \<Rightarrow> ('w \<times> nat) connector" where
  "ChaosConnector rng faults inner = \<lparr>c_name = c_name inner,
     c_dispatch = chaos_dispatch rng faults inner, c_observe = chaos_observe rng faults inner,
     c_compensate = chaos_compensate inner\<rparr>"

text \<open>A connector left as it is, over the world with the draws.\<close>

definition raw_connector :: "'w connector \<Rightarrow> ('w \<times> nat) connector" where
  "raw_connector inner = \<lparr>c_name = c_name inner,
     c_dispatch = (\<lambda>e (w, i). case c_dispatch inner e w of (r, w') \<Rightarrow> (r, w', i)),
     c_observe = (\<lambda>e (w, i). case c_observe inner e w of (r, w') \<Rightarrow> (r, w', i)),
     c_compensate = chaos_compensate inner\<rparr>"

section \<open>Invariants\<close>

record InvariantResult =
  ir_name :: string
  ir_passed :: bool
  ir_detail :: string

text \<open>
  The invariants of the module, and one of the application, which may raise. The rows of
  a query without \<open>ORDER BY\<close> come in table order.
\<close>

datatype invariant =
    NoStuckObligations
  | NoBlindNonIdempotentRetry
  | ExactlyOne string string
  | AppInvariant string "db \<Rightarrow> py_exn + InvariantResult"

definition invariant_name :: "invariant \<Rightarrow> string" where
  "invariant_name v = (case v of
     NoStuckObligations \<Rightarrow> ''no_stuck_obligations''
   | NoBlindNonIdempotentRetry \<Rightarrow> ''no_blind_non_idempotent_retry''
   | ExactlyOne connector tool \<Rightarrow> ''exactly_one'' @
       (if connector \<noteq> [] then ''(connector='' @ repr_str connector @ '')''
        else if tool \<noteq> [] then ''(tool='' @ repr_str tool @ '')'' else [])
   | AppInvariant n f \<Rightarrow> n)"

definition check_no_stuck :: "db \<Rightarrow> InvariantResult" where
  "check_no_stuck d =
     (let rows = filter (\<lambda>q. o_status q = ObligationStatus_STUCK) (db_obligations d);
          n = invariant_name NoStuckObligations
      in if rows = [] then \<lparr>ir_name = n, ir_passed = True, ir_detail = ''0 stuck''\<rparr>
         else \<lparr>ir_name = n, ir_passed = False,
           ir_detail = int_str (int (length rows)) @ '' stuck: '' @
             join_with '', '' (map (\<lambda>q. ''seq='' @ int_str (o_seq q) @ '' kind='' @ o_kind q) (take 5 rows))\<rparr>)"

definition check_no_blind_retry :: "db \<Rightarrow> InvariantResult" where
  "check_no_blind_retry d =
     (let rows = filter (\<lambda>r. e_semantics r = EffectSemantics_NON_IDEMPOTENT \<and>
                    e_status r = EffectStatus_PENDING \<and> e_dispatch_attempts r > 1) (db_effects d);
          n = invariant_name NoBlindNonIdempotentRetry
      in if rows = [] then \<lparr>ir_name = n, ir_passed = True, ir_detail = ''0 violators''\<rparr>
         else \<lparr>ir_name = n, ir_passed = False,
           ir_detail = int_str (int (length rows)) @ '' NON_IDEMPOTENT effects retried while PENDING''\<rparr>)"

definition check_exactly_one :: "string \<Rightarrow> string \<Rightarrow> db \<Rightarrow> InvariantResult" where
  "check_exactly_one connector tool d =
     (let rows = filter (\<lambda>r. e_status r = EffectStatus_CONFIRMED \<and>
                    (connector \<noteq> [] \<longrightarrow> e_connector r = Some connector) \<and>
                    (tool \<noteq> [] \<longrightarrow> e_tool_name r = tool)) (db_effects d);
          n = invariant_name (ExactlyOne connector tool)
      in if length rows = 1 then \<lparr>ir_name = n, ir_passed = True, ir_detail = ''1 confirmed''\<rparr>
         else \<lparr>ir_name = n, ir_passed = False,
           ir_detail = int_str (int (length rows)) @ '' confirmed (expected 1)''\<rparr>)"

definition exactly_one :: "string \<Rightarrow> string \<Rightarrow> tape_error + invariant" where
  "exactly_one connector tool =
     (if connector \<noteq> [] \<and> tool \<noteq> [] then
        Inl (ValueError ''exactly_one: pass connector= or tool=, not both'')
      else if \<not> (connector \<noteq> [] \<or> tool \<noteq> []) then
        Inl (ValueError ''exactly_one requires connector= or tool='')
      else Inr (ExactlyOne connector tool))"

definition check :: "invariant \<Rightarrow> db \<Rightarrow> py_exn + InvariantResult" where
  "check v d = (case v of
     NoStuckObligations \<Rightarrow> Inr (check_no_stuck d)
   | NoBlindNonIdempotentRetry \<Rightarrow> Inr (check_no_blind_retry d)
   | ExactlyOne connector tool \<Rightarrow> Inr (check_exactly_one connector tool d)
   | AppInvariant n f \<Rightarrow> f d)"

section \<open>Scenarios\<close>

record Scenario =
  sc_name :: string
  sc_faults :: "Fault list"
  sc_invariants :: "invariant list"
  sc_seed :: int
  sc_strict_faults :: bool

record ChaosReport =
  cr_scenario_name :: string
  cr_seed :: int
  cr_passed :: bool
  cr_invariant_results :: "InvariantResult list"
  cr_notes :: "string list"

definition skip_fault :: "Scenario \<Rightarrow> string \<Rightarrow> ChaosReport \<Rightarrow> ChaosReport" where
  "skip_fault scen message report =
     (let r1 = report\<lparr>cr_notes := cr_notes report @ [message]\<rparr>
      in if sc_strict_faults scen then
           r1\<lparr>cr_invariant_results := cr_invariant_results r1 @
                [\<lparr>ir_name = ''strict_faults'', ir_passed = False, ir_detail = message\<rparr>],
              cr_passed := False\<rparr>
         else r1)"

text \<open>\<open>by_connector.setdefault(target, []).append(f)\<close> on a dict in insertion order.\<close>

fun add_fault :: "string \<Rightarrow> Fault \<Rightarrow> (string \<times> Fault list) list \<Rightarrow> (string \<times> Fault list) list" where
  "add_fault n f [] = [(n, [f])]"
| "add_fault n f ((m, fs) # rest) = (if m = n then (m, fs @ [f]) # rest else (m, fs) # add_fault n f rest)"

definition sort_fault :: "Scenario \<Rightarrow> Fault \<Rightarrow>
    ChaosReport \<times> (string \<times> Fault list) list \<times> Fault list \<Rightarrow>
    ChaosReport \<times> (string \<times> Fault list) list \<times> Fault list" where
  "sort_fault scen f st = (case st of (report, by_connector, tool_scoped) \<Rightarrow>
     if f_layer f \<noteq> LAYER_CONNECTOR then
       (skip_fault scen (''fault layer '' @ repr_str (f_layer f) @
          '' not supported in embedded tier (server failpoints require the gRPC tier)'') report,
        by_connector, tool_scoped)
     else if f_target f \<noteq> [] then (report, add_fault (f_target f) f by_connector, tool_scoped)
     else if f_tool f \<noteq> [] then (report, by_connector, tool_scoped @ [f])
     else (skip_fault scen ''connector fault skipped: neither target nor tool set'' report,
           by_connector, tool_scoped))"

definition skip_missing :: "Scenario \<Rightarrow> 'w connectors \<Rightarrow> string \<times> Fault list \<Rightarrow> ChaosReport \<Rightarrow> ChaosReport" where
  "skip_missing scen cs nf report =
     (if map_of cs (fst nf) = None then
        skip_fault scen (''connector fault for '' @ repr_str (fst nf) @
          '' skipped: connector not in `connectors` dict'') report
      else report)"

definition wrap_connector ::
    "draws \<Rightarrow> (string \<times> Fault list) list \<Rightarrow> Fault list \<Rightarrow> string \<Rightarrow> 'w connector \<Rightarrow> ('w \<times> nat) connector" where
  "wrap_connector rng by_connector tool_scoped n c =
     (case map_of by_connector n of
        Some fs \<Rightarrow> ChaosConnector rng (fs @ tool_scoped) c
      | None \<Rightarrow> if tool_scoped \<noteq> [] then ChaosConnector rng tool_scoped c else raw_connector c)"

definition new_report :: "Scenario \<Rightarrow> ChaosReport" where
  "new_report scen = \<lparr>cr_scenario_name = sc_name scen, cr_seed = sc_seed scen, cr_passed = True,
     cr_invariant_results = [], cr_notes = []\<rparr>"

definition session_enter ::
    "draws \<Rightarrow> Scenario \<Rightarrow> 'w connectors \<Rightarrow> bool \<Rightarrow> bool \<Rightarrow> tape_error + ('w \<times> nat) connectors \<times> ChaosReport" where
  "session_enter rng scen cs has_svc has_db_url =
     (let (report1, by_connector, tool_scoped) =
            fold (sort_fault scen) (sc_faults scen) (new_report scen, [], []);
          report2 = fold (skip_missing scen cs) by_connector report1;
          report3 = (if tool_scoped \<noteq> [] \<and> cs = [] then
            skip_fault scen ''tool-scoped fault(s) skipped: empty `connectors` dict'' report2 else report2)
      in if \<not> has_svc \<and> \<not> has_db_url then Inl (ValueError ''session: pass either svc= or db_url='')
         else if has_svc \<and> has_db_url then Inl (ValueError ''session: pass svc= OR db_url=, not both'')
         else Inr (map (\<lambda>(n, c). (n, wrap_connector rng by_connector tool_scoped n c)) cs, report3))"

definition check_one :: "db \<Rightarrow> invariant \<Rightarrow> ChaosReport \<Rightarrow> ChaosReport" where
  "check_one d v report =
     (let ir = (case check v d of
          Inr r \<Rightarrow> r
        | Inl ex \<Rightarrow> \<lparr>ir_name = invariant_name v, ir_passed = False, ir_detail = ''raised '' @ exn_text ex\<rparr>);
          r1 = report\<lparr>cr_invariant_results := cr_invariant_results report @ [ir]\<rparr>
      in if \<not> ir_passed ir then r1\<lparr>cr_passed := False\<rparr> else r1)"

definition session_exit :: "Scenario \<Rightarrow> db \<Rightarrow> ChaosReport \<Rightarrow> ChaosReport" where
  "session_exit scen d report = fold (check_one d) (sc_invariants scen) report"

text \<open>
  \<open>run\<close>: the body gets the wrapped connectors; the report is built in any case and
  returned when the body did not raise.
\<close>

definition chaos_run ::
    "draws \<Rightarrow> Scenario \<Rightarrow> (('w \<times> nat) connectors \<Rightarrow> db \<Rightarrow> 'w \<times> nat \<Rightarrow> (py_exn + unit) \<times> db \<times> 'w \<times> nat) option \<Rightarrow>
     'w connectors \<Rightarrow> bool \<Rightarrow> bool \<Rightarrow> db \<Rightarrow> 'w \<Rightarrow>
     ((tape_error + py_exn) + ChaosReport) \<times> db \<times> 'w \<times> nat" where
  "chaos_run rng scen body cs has_svc has_db_url d w =
     (case session_enter rng scen cs has_svc has_db_url of
        Inl e \<Rightarrow> (Inl (Inl e), d, w, 0)
      | Inr (wrapped, report) \<Rightarrow>
          (case body of
             None \<Rightarrow> (Inr (session_exit scen d report), d, w, 0)
           | Some f \<Rightarrow>
               (case f wrapped d (w, 0) of
                  (Inl ex, d', w') \<Rightarrow> (Inl (Inr ex), d', w')
                | (Inr _, d', w') \<Rightarrow> (Inr (session_exit scen d' report), d', w'))))"

section \<open>What can be applied\<close>

definition sortable :: "Fault \<Rightarrow> bool" where
  "sortable f \<longleftrightarrow> f_layer f = LAYER_CONNECTOR \<and> (f_target f \<noteq> [] \<or> f_tool f \<noteq> [])"

definition applicable :: "'w connectors \<Rightarrow> Fault \<Rightarrow> bool" where
  "applicable cs f \<longleftrightarrow> sortable f \<and>
     (if f_target f \<noteq> [] then map_of cs (f_target f) \<noteq> None else cs \<noteq> [])"

definition holds :: "invariant \<Rightarrow> db \<Rightarrow> bool" where
  "holds v d \<longleftrightarrow> (case check v d of Inl _ \<Rightarrow> False | Inr r \<Rightarrow> ir_passed r)"

section \<open>The report\<close>

lemma skip_fault_passed [simp]: "cr_passed (skip_fault scen m r) \<longleftrightarrow> cr_passed r \<and> \<not> sc_strict_faults scen"
  by (simp add: skip_fault_def Let_def)

lemma add_fault_keys [simp]: "fst ` set (add_fault n f bc) = insert n (fst ` set bc)"
  by (induction n f bc rule: add_fault.induct) auto

lemma sort_faults:
  assumes "fold (sort_fault scen) fs (r, bc, ts) = (r', bc', ts')"
  shows "(cr_passed r' \<longleftrightarrow> cr_passed r \<and> (sc_strict_faults scen \<longrightarrow> (\<forall>f \<in> set fs. sortable f))) \<and>
    fst ` set bc' = fst ` set bc \<union>
      f_target ` {f \<in> set fs. f_layer f = LAYER_CONNECTOR \<and> f_target f \<noteq> []} \<and>
    set ts' = set ts \<union> {f \<in> set fs. f_layer f = LAYER_CONNECTOR \<and> f_target f = [] \<and> f_tool f \<noteq> []}"
  using assms
proof (induction fs arbitrary: r bc ts)
  case (Cons f fs)
  obtain r1 bc1 ts1 where st: "sort_fault scen f (r, bc, ts) = (r1, bc1, ts1)"
    by (cases "sort_fault scen f (r, bc, ts)")
  with Cons.prems have run: "fold (sort_fault scen) fs (r1, bc1, ts1) = (r', bc', ts')" by simp
  have "cr_passed r1 \<longleftrightarrow> cr_passed r \<and> (sc_strict_faults scen \<longrightarrow> sortable f)"
    and "fst ` set bc1 = fst ` set bc \<union> (if f_layer f = LAYER_CONNECTOR \<and> f_target f \<noteq> [] then {f_target f} else {})"
    and "set ts1 = set ts \<union> (if f_layer f = LAYER_CONNECTOR \<and> f_target f = [] \<and> f_tool f \<noteq> [] then {f} else {})"
    using st [symmetric] by (simp_all add: sort_fault_def sortable_def split: if_splits)
  with Cons.IH [OF run] show ?case by (intro conjI) (auto split: if_splits)
qed simp

lemma skip_missing_passed: "cr_passed (fold (skip_missing scen cs) bc r) \<longleftrightarrow>
    cr_passed r \<and> (sc_strict_faults scen \<longrightarrow> (\<forall>n \<in> fst ` set bc. map_of cs n \<noteq> None))"
  by (induction bc arbitrary: r) (auto simp: skip_missing_def)

lemma session_enter_passed:
  assumes "session_enter rng scen cs a b = Inr (wrapped, report)"
  shows "cr_passed report \<longleftrightarrow> (sc_strict_faults scen \<longrightarrow> (\<forall>f \<in> set (sc_faults scen). applicable cs f))"
proof -
  obtain r1 bc ts where st: "fold (sort_fault scen) (sc_faults scen) (new_report scen, [], []) = (r1, bc, ts)"
    by (cases "fold (sort_fault scen) (sc_faults scen) (new_report scen, [], [])")
  let ?r2 = "fold (skip_missing scen cs) bc r1"
  have rep: "report = (if ts \<noteq> [] \<and> cs = [] then
      skip_fault scen ''tool-scoped fault(s) skipped: empty `connectors` dict'' ?r2 else ?r2)"
    using assms by (auto simp: session_enter_def st Let_def split: if_splits)
  have "cr_passed (new_report scen)" by (simp add: new_report_def)
  have ts: "ts = [] \<longleftrightarrow> (\<forall>f \<in> set (sc_faults scen).
      \<not> (f_layer f = LAYER_CONNECTOR \<and> f_target f = [] \<and> f_tool f \<noteq> []))"
    using sort_faults [OF st] by (auto simp flip: set_empty2)
  show ?thesis
    unfolding rep using sort_faults [OF st] ts \<open>cr_passed (new_report scen)\<close>
    by (auto simp: skip_missing_passed applicable_def sortable_def split: if_splits)
qed

lemma check_one_passed: "cr_passed (check_one d v r) \<longleftrightarrow> cr_passed r \<and> holds v d"
  by (simp add: check_one_def holds_def Let_def split: sum.split)

lemma session_exit_passed: "cr_passed (session_exit scen d r) \<longleftrightarrow>
    cr_passed r \<and> (\<forall>v \<in> set (sc_invariants scen). holds v d)"
proof -
  have "cr_passed (fold (check_one d) vs r) \<longleftrightarrow> cr_passed r \<and> (\<forall>v \<in> set vs. holds v d)" for vs
    by (induction vs arbitrary: r) (auto simp: check_one_passed)
  then show ?thesis by (simp add: session_exit_def)
qed

section \<open>Lost acknowledgements\<close>

lemma lose_ack_certain:
  assumes "\<exists>f \<in> set fs. f_action f = kind \<and> f_tool f = [] \<and> prob_one \<le> f_probability f"
  shows "fst (matching rng kind e fs i) \<noteq> None"
  using assms by (induction rng kind e fs i rule: matching.induct) auto

lemma chaos_dispatch_unknown:
  assumes fault: "\<exists>f \<in> set faults. f_action f = ''lose_ack'' \<and> f_tool f = [] \<and> prob_one \<le> f_probability f"
    and inner: "c_dispatch inner e w = (Inr out, w')" and conf: "dr_status out = ''confirmed''"
  shows "\<exists>out' i'. chaos_dispatch rng faults inner e (w, i) = (Inr out', w', i') \<and> dr_status out' = ''unknown''"
proof -
  obtain f i1 where d: "matching rng ''delay'' e faults i = (f, i1)" by (cases "matching rng ''delay'' e faults i")
  let ?i2 = "case f of Some f \<Rightarrow> if f_ms f > 0 \<and> f_jitter f > 0 then Suc i1 else i1 | None \<Rightarrow> i1"
  obtain g i3 where "matching rng ''lose_ack'' e faults ?i2 = (Some g, i3)"
    using lose_ack_certain [OF fault, of rng e ?i2]
    by (cases "matching rng ''lose_ack'' e faults ?i2") auto
  with d inner conf show ?thesis by (simp add: chaos_dispatch_def Let_def)
qed

text \<open>The row of an effect whose acknowledgement was lost.\<close>

lemma unknown_row_not_ready:
  assumes "dr_status out = ''unknown''"
  shows "e_status (after_dispatch cfg now clk (Inr out) r) = EffectStatus_UNKNOWN"
  using assms by (simp add: after_dispatch_def)

section \<open>Properties\<close>

text \<open>
  Chaos only hides acknowledgements: a wrapped dispatch calls the inner connector exactly
  once on the same effect and leaves the inner world as the call left it; the answer is the
  inner one, or, for a confirmed dispatch, \<open>unknown\<close> with the same reference and response.
\<close>

lemma chaos_hides_only_acks:
  "case chaos_dispatch rng faults inner e (w, i) of (r, w', i') \<Rightarrow>
     w' = snd (c_dispatch inner e w) \<and>
     (r = fst (c_dispatch inner e w) \<or>
      (\<exists>out out'. fst (c_dispatch inner e w) = Inr out \<and> dr_status out = ''confirmed'' \<and> r = Inr out' \<and>
         dr_status out' = ''unknown'' \<and> dr_external_ref out' = dr_external_ref out \<and>
         dr_response out' = dr_response out))"
  by (auto simp: chaos_dispatch_def Let_def split: prod.split sum.split option.split)

text \<open>
  No silent skip: the report of a session passes exactly when every invariant of the
  scenario holds on the final database and, for a strict scenario, every declared fault
  could be applied to the connectors given.
\<close>

lemma chaos_report_sound:
  assumes "session_enter rng scen cs a b = Inr (wrapped, report)"
  shows "cr_passed (session_exit scen d report) \<longleftrightarrow>
    (\<forall>v \<in> set (sc_invariants scen). holds v d) \<and>
    (sc_strict_faults scen \<longrightarrow> (\<forall>f \<in> set (sc_faults scen). applicable cs f))"
  using session_enter_passed [OF assms] by (auto simp: session_exit_passed)

text \<open>
  A lost acknowledgement is never re-dispatched blindly: when the inner connector has
  confirmed and the wrapper hides it, the dispatcher leaves the effect in status \<open>unknown\<close>,
  which no dispatcher selects or can claim at any later time; the inner connector was called
  once.
\<close>

lemma lost_ack_not_redispatched:
  assumes ok: "db_ok d" and row: "get_effect (effect_pk eff) d = Inr (Some eff)"
    and ready: "dispatch_ready now eff" and now: "now \<noteq> 0"
    and conn: "conn_of cs (e_connector eff) = Some (ChaosConnector rng faults inner)"
    and fault: "\<exists>f \<in> set faults. f_action f = ''lose_ack'' \<and> f_tool f = [] \<and> prob_one \<le> f_probability f"
    and inner: "c_dispatch inner (held_by cfg now eff) w = (Inr out, w')" and conf: "dr_status out = ''confirmed''"
  shows "\<exists>es d' i' r. dispatch_item cs cfg now clk eff d (w, i) = (Inr es, d', w', i') \<and>
    get_effect (effect_pk eff) d' = Inr (Some r) \<and> e_status r = EffectStatus_UNKNOWN \<and>
    (\<forall>t. \<not> dispatch_ready t r)"
proof -
  let ?h = "held_by cfg now eff"
  have look: "tbl_lookup effect_pk (db_effects d) (effect_pk eff) = Some eff"
    using row by (simp add: get_effect_eq [OF ok])
  obtain out' i' where call: "c_dispatch (ChaosConnector rng faults inner) ?h (w, i) = (Inr out', w', i')"
    and unk: "dr_status out' = ''unknown''"
    using chaos_dispatch_unknown [OF fault inner conf, of rng i] by (auto simp: ChaosConnector_def)
  let ?r = "after_dispatch cfg now clk (Inr out') ?h"
  from dispatch_item_refines [OF ok look ready now conn call, of clk] obtain es where
    run: "dispatch_item cs cfg now clk eff d (w, i) = (Inr es, put_effect ?r d, w', i')" by blast
  have "get_effect (effect_pk eff) (put_effect ?r d) = Inr (Some ?r)"
    using look by (simp add: get_effect_eq [OF dispatch_item_ok [OF ok run]] lookup_put)
  moreover have "e_status ?r = EffectStatus_UNKNOWN" using unk by (rule unknown_row_not_ready)
  ultimately show ?thesis using run by (auto simp: dispatch_ready_def)
qed

text \<open>
  The dispatcher of this tier violates the harness's own invariant: a connector that
  raises on a \<open>NON_IDEMPOTENT\<close> effect is called again after the backoff, and after the second
  exception \<open>no_blind_non_idempotent_retry\<close> fails.
\<close>

lemma dispatcher_retries_non_idempotent_blindly:
  "let flaky = LogConnector\<lparr>c_dispatch := \<lambda>e w. (Inl (PyExn ''TimeoutError'' ''ack lost''), w)\<rparr>;
       cs = watch_all [(''bank'', flaky)];
       (x1, d1, w1, l1) = dispatch_outbox_once cs (dispatch_defaults ''w1'') (\<lambda>_. 1000) sample_db (([], [], []), []);
       (x2, d2, w2, l2) = dispatch_outbox_once cs (dispatch_defaults ''w1'') (\<lambda>_. 6000) d1 (w1, l1)
   in e_semantics sample_pending = EffectSemantics_NON_IDEMPOTENT \<and>
      map (\<lambda>c. case c of Dispatched e \<Rightarrow> (e_idempotency_key e, e_dispatch_attempts e) | _ \<Rightarrow> ([], 0)) l2 =
        [(e_idempotency_key sample_pending, 0), (e_idempotency_key sample_pending, 1)] \<and>
      holds NoBlindNonIdempotentRetry d1 \<and> \<not> holds NoBlindNonIdempotentRetry d2"
  by code_simp

end
