(* ===== verification/SdkEffect.thy ===== *)
theory SdkEffect
  imports Complex_Main TapePrelude
begin

text \<open>
  The tool surface of the gRPC SDK (\<open>sdk/python/tape\<close>): \<open>retry.py\<close>'s \<open>RetryPolicy\<close> and the
  retry wrapper, and \<open>effect.py\<close>: the process registries of compensators and status checks,
  the contract \<open>@tape.effect\<close> and \<open>@tape.outbox_tool\<close> enforce when a tool is decorated, and
  the helpers that read a tool's metadata.

  Callables are code of the application. A compensator enters as the names the code reads of
  it; a tool body, a status check and a payload function as functions that return a value or
  raise, where bodies and checks also change the world. An exception carries the names of
  the classes it is an instance of, for \<open>isinstance\<close>. Times in seconds are rationals: the
  rounding of floating-point numbers is not modelled. \<open>random.uniform\<close> is a parameter.
\<close>

section \<open>Retry policies\<close>

record py_raise =
  rx_classes :: "string list"
  rx_msg :: string

record RetryPolicy =
  rp_max_attempts :: int
  rp_initial_interval_s :: rat
  rp_backoff_coefficient :: rat
  rp_max_interval_s :: rat
  rp_jitter :: rat
  rp_retry_on :: "string list"
  rp_non_retryable :: "string list"

definition default_retry :: RetryPolicy where
  "default_retry = \<lparr>rp_max_attempts = 3, rp_initial_interval_s = 1, rp_backoff_coefficient = 2,
     rp_max_interval_s = 60, rp_jitter = 1/10, rp_retry_on = [''Exception''], rp_non_retryable = []\<rparr>"

definition is_instance :: "py_raise \<Rightarrow> string list \<Rightarrow> bool" where
  "is_instance ex classes = list_ex (\<lambda>c. c \<in> set (rx_classes ex)) classes"

definition should_retry :: "RetryPolicy \<Rightarrow> py_raise \<Rightarrow> int \<Rightarrow> bool" where
  "should_retry p ex attempt =
     (if attempt \<ge> rp_max_attempts p then False
      else if rp_non_retryable p \<noteq> [] \<and> is_instance ex (rp_non_retryable p) then False
      else is_instance ex (rp_retry_on p))"

text \<open>\<open>u\<close> is what \<open>random.uniform(-jitter, jitter)\<close> returns.\<close>

definition delay :: "RetryPolicy \<Rightarrow> rat \<Rightarrow> int \<Rightarrow> rat" where
  "delay p u attempt =
     (let d = min (rp_initial_interval_s p * rp_backoff_coefficient p ^ nat (max 0 (attempt - 1)))
                  (rp_max_interval_s p);
          d' = (if rp_jitter p > 0 then d * (1 + u) else d)
      in max d' 0)"

text \<open>
  The wrapper's loop from a given attempt count: what the last call gave, with the sleeps
  between the calls. \<open>u i\<close> is the draw after attempt \<open>i\<close>.
\<close>

function retry_loop ::
    "RetryPolicy \<Rightarrow> (nat \<Rightarrow> rat) \<Rightarrow> ('w \<Rightarrow> (py_raise + 'a) \<times> 'w) \<Rightarrow> int \<Rightarrow> 'w \<Rightarrow> (py_raise + 'a) \<times> rat list \<times> 'w" where
  "retry_loop p u body attempt w =
     (case body w of
        (Inr v, w') \<Rightarrow> (Inr v, [], w')
      | (Inl ex, w') \<Rightarrow>
          if \<not> should_retry p ex (attempt + 1) then (Inl ex, [], w')
          else (case retry_loop p u body (attempt + 1) w' of
                  (r, sleeps, w'') \<Rightarrow> (r, delay p (u (nat (attempt + 1))) (attempt + 1) # sleeps, w'')))"
  by pat_completeness auto

termination retry_loop
  by (relation "measure (\<lambda>(p, u, body, attempt, w). nat (rp_max_attempts p - attempt))")
     (auto simp: should_retry_def split: if_splits)

declare retry_loop.simps [simp del]

definition retry_wrapper ::
    "RetryPolicy \<Rightarrow> (nat \<Rightarrow> rat) \<Rightarrow> ('w \<Rightarrow> (py_raise + 'a) \<times> 'w) \<Rightarrow> 'w \<Rightarrow> (py_raise + 'a) \<times> rat list \<times> 'w" where
  "retry_wrapper p u body w = retry_loop p u body 0 w"

text \<open>Calling a body a number of times: what each call gave, and the world after them.\<close>

fun body_calls :: "('w \<Rightarrow> (py_raise + 'a) \<times> 'w) \<Rightarrow> nat \<Rightarrow> 'w \<Rightarrow> (py_raise + 'a) list \<times> 'w" where
  "body_calls body 0 w = ([], w)"
| "body_calls body (Suc n) w =
     (case body w of (r, w') \<Rightarrow> (case body_calls body n w' of (rs, w'') \<Rightarrow> (r # rs, w'')))"

section \<open>Registries\<close>

text \<open>
  A compensator: the attributes the code reads of the callable, each of which may be missing.
\<close>

record fn_ref =
  fn_module :: "string option"
  fn_qualname :: "string option"
  fn_name :: "string option"

type_synonym payload_fn = "json \<Rightarrow> json \<Rightarrow> py_exn + json"

type_synonym 'w status_check = "string \<Rightarrow> 'w \<Rightarrow> (py_exn + json) \<times> 'w"

record comp_spec =
  cs_kind :: string
  cs_fn :: fn_ref
  cs_compensator_ref :: string
  cs_max_attempts :: int
  cs_payload :: "payload_fn option"

record 'w sdk_registry =
  rg_compensators :: "string \<rightharpoonup> fn_ref"
  rg_status_checks :: "string \<rightharpoonup> 'w status_check"
  rg_tool_compensators :: "string \<rightharpoonup> comp_spec"

definition no_registry :: "'w sdk_registry" where
  "no_registry = \<lparr>rg_compensators = Map.empty, rg_status_checks = Map.empty, rg_tool_compensators = Map.empty\<rparr>"

definition str_default :: "string option \<Rightarrow> string \<Rightarrow> string" where
  "str_default x dflt = (case x of None \<Rightarrow> dflt | Some s \<Rightarrow> s)"

definition str_or :: "string \<Rightarrow> string \<Rightarrow> string" where
  "str_or a b = (if a \<noteq> [] then a else b)"

definition register_compensator :: "string \<Rightarrow> fn_ref \<Rightarrow> 'w sdk_registry \<Rightarrow> 'w sdk_registry" where
  "register_compensator name fn g = g\<lparr>rg_compensators := (rg_compensators g)(name \<mapsto> fn)\<rparr>"

definition get_compensator :: "string \<Rightarrow> 'w sdk_registry \<Rightarrow> fn_ref option" where
  "get_compensator name g = rg_compensators g name"

definition register_tool_compensator ::
    "string \<Rightarrow> fn_ref option \<Rightarrow> string \<Rightarrow> int \<Rightarrow> payload_fn option \<Rightarrow> 'w sdk_registry \<Rightarrow> 'w sdk_registry" where
  "register_tool_compensator tool fn ref max_attempts payload g =
     (case fn of
        None \<Rightarrow> g
      | Some f \<Rightarrow>
          if tool = [] then g
          else g\<lparr>rg_tool_compensators := (rg_tool_compensators g)(tool \<mapsto>
                 \<lparr>cs_kind = str_default (fn_name f) ''compensate'', cs_fn = f,
                  cs_compensator_ref = str_or ref [], cs_max_attempts = int_or max_attempts 0,
                  cs_payload = payload\<rparr>)\<rparr>)"

definition get_tool_compensator :: "string \<Rightarrow> 'w sdk_registry \<Rightarrow> comp_spec option" where
  "get_tool_compensator tool g = rg_tool_compensators g tool"

definition register_status_check :: "string \<Rightarrow> 'w status_check \<Rightarrow> 'w sdk_registry \<Rightarrow> 'w sdk_registry" where
  "register_status_check tool fn g = g\<lparr>rg_status_checks := (rg_status_checks g)(tool \<mapsto> fn)\<rparr>"

definition get_status_check :: "string \<Rightarrow> 'w sdk_registry \<Rightarrow> 'w status_check option" where
  "get_status_check tool g = rg_status_checks g tool"

definition compensator_ref_of :: "fn_ref \<Rightarrow> string" where
  "compensator_ref_of fn =
     (let md = str_or (str_default (fn_module fn) []) [];
          name = str_or (str_default (fn_qualname fn) []) (str_or (str_default (fn_name fn) []) [])
      in if md = [] \<or> name = [] \<or> CHR ''<'' \<in> set name then [] else md @ '':'' @ name)"

section \<open>The decoration contract\<close>

text \<open>
  How the business-key function answers a call. The four shapes the code tries are
  keyword arguments with and without the tool context, and the argument dict as one
  positional argument with and without it.
\<close>

datatype call_shape = KwargsCtx | Kwargs | DictCtx | DictOnly

datatype call_outcome = RaisesTypeError | RaisesOther | Returns json

type_synonym bk_callable = "call_shape \<Rightarrow> (string \<times> json) list \<Rightarrow> call_outcome"

datatype bk_value = BkNone | BkStr string | BkCallable bk_callable | BkOther

record 'w effect_args =
  a_compensate :: "fn_ref option"
  a_status_check :: "'w status_check option"
  a_key_from :: "(json \<Rightarrow> py_exn + json) option"
  a_compensation_payload :: "payload_fn option"
  a_retry :: "RetryPolicy option"
  a_max_attempts :: int
  a_semantics :: string
  a_dispatch :: string
  a_connector :: string
  a_business_key :: bk_value
  a_scope :: string
  a_allow_unsafe :: bool

definition effect_defaults :: "'w effect_args" where
  "effect_defaults = \<lparr>a_compensate = None, a_status_check = None, a_key_from = None,
     a_compensation_payload = None, a_retry = None, a_max_attempts = 0,
     a_semantics = ''idempotent'', a_dispatch = ''inline'', a_connector = [],
     a_business_key = BkNone, a_scope = [], a_allow_unsafe = False\<rparr>"

definition SEMANTICS :: "string list" where
  "SEMANTICS = [''idempotent'', ''non_idempotent'', ''observe_only'']"

definition DISPATCH :: "string list" where
  "DISPATCH = [''inline'', ''outbox'']"

definition repr_tuple :: "string list \<Rightarrow> string" where
  "repr_tuple xs = ''('' @ join_with '', '' (map repr_str xs) @ '')''"

text \<open>\<open>str.strip\<close> leaves nothing exactly of a string of white space (ASCII here).\<close>

definition py_space :: "char \<Rightarrow> bool" where
  "py_space c \<longleftrightarrow> (of_char c :: nat) \<in> {9, 10, 11, 12, 13, 28, 29, 30, 31, 32}"

definition blank :: "string \<Rightarrow> bool" where
  "blank s = list_all py_space s"

definition unsafe_inline_warning :: string where
  "unsafe_inline_warning = ''@tape.effect: semantics='' @ repr_str ''non_idempotent'' @ '' + dispatch='' @
     repr_str ''inline'' @ '' is unsafe '' @ [CHR 0xE2, CHR 0x80, CHR 0x94] @
     '' a crash mid-call leaves an ambiguity the runtime cannot blindly retry. Use dispatch='' @
     repr_str ''outbox'' @ '' (intent-only tool body) + a connector. '' @
     ''The server will refuse this at begin_effect time.''"

text \<open>\<open>Inr\<close>: the warnings issued.\<close>

definition validate_semantics :: "'w effect_args \<Rightarrow> tape_error + string list" where
  "validate_semantics a =
     (if a_semantics a \<notin> set SEMANTICS then
        Inl (ValueError (''@tape.effect: semantics must be one of '' @ repr_tuple SEMANTICS @ ''; got '' @ repr_str (a_semantics a)))
      else if a_dispatch a \<notin> set DISPATCH then
        Inl (ValueError (''@tape.effect: dispatch must be one of '' @ repr_tuple DISPATCH @ ''; got '' @ repr_str (a_dispatch a)))
      else if a_semantics a = ''non_idempotent'' then
        (let warned = (if a_dispatch a = ''inline'' then [unsafe_inline_warning] else [])
         in if \<not> a_allow_unsafe a \<and> a_status_check a = None \<and> a_compensate a = None \<and> a_business_key a = BkNone then
              Inl (ValueError (''@tape.effect: semantics='' @ repr_str ''non_idempotent'' @
                '' requires at least one of status_check= (so the reconciler can resolve UNKNOWN), '' @
                ''compensate= (so a duplicate or wrong outcome can be unwound), or business_key= (so the '' @
                ''counterparty can be queried by business identity). Pass allow_unsafe=True '' @
                ''to override after explicit review.''))
            else if \<not> a_allow_unsafe a \<and> blank (a_scope a) then
              Inl (ValueError (''@tape.effect: semantics='' @ repr_str ''non_idempotent'' @
                '' requires scope=<authorization scope> (e.g. '' @ repr_str ''mcp:tools:bank_wire'' @
                ''). The server verifies the scope is granted to the run before any side effect runs. '' @
                ''Pass allow_unsafe=True to override after explicit review.''))
            else Inr warned)
      else Inr [])"

definition effect_check :: "'w effect_args \<Rightarrow> tape_error + string list" where
  "effect_check a =
     (case validate_semantics a of
        Inl e \<Rightarrow> Inl e
      | Inr warned \<Rightarrow>
          if a_dispatch a = ''outbox'' \<and> a_connector a = [] then
            Inl (ValueError (''@tape.effect: dispatch='' @ repr_str ''outbox'' @ '' requires connector=<routing key>''))
          else if (case a_business_key a of BkStr s \<Rightarrow> s \<noteq> [] | _ \<Rightarrow> False) \<and> a_connector a = [] then
            Inl (ValueError (''@tape.effect: business_key=<str> requires connector=<routing key>; '' @
              ''cross-run dedupe is per-(connector, business_key)''))
          else Inr warned)"

record 'w effect_meta =
  em_compensate :: "fn_ref option"
  em_status_check :: "'w status_check option"
  em_key_from :: "(json \<Rightarrow> py_exn + json) option"
  em_compensation_payload :: "payload_fn option"
  em_retry :: "RetryPolicy option"
  em_max_attempts :: int
  em_compensator_ref :: string
  em_semantics :: string
  em_dispatch :: string
  em_connector :: string
  em_business_key :: bk_value
  em_scope :: string

definition meta_of_args :: "'w effect_args \<Rightarrow> 'w effect_meta" where
  "meta_of_args a = \<lparr>em_compensate = a_compensate a, em_status_check = a_status_check a,
     em_key_from = a_key_from a, em_compensation_payload = a_compensation_payload a,
     em_retry = a_retry a, em_max_attempts = a_max_attempts a,
     em_compensator_ref = (case a_compensate a of Some f \<Rightarrow> compensator_ref_of f | None \<Rightarrow> []),
     em_semantics = a_semantics a, em_dispatch = a_dispatch a, em_connector = a_connector a,
     em_business_key = a_business_key a, em_scope = a_scope a\<rparr>"

text \<open>The decorator applied to a function of the given \<open>__name__\<close>: what it registers.\<close>

definition deco_registers :: "'w effect_args \<Rightarrow> string option \<Rightarrow> 'w sdk_registry \<Rightarrow> 'w sdk_registry" where
  "deco_registers a name g =
     (let tool = str_default name [];
          g1 = (case a_compensate a of
                  None \<Rightarrow> g
                | Some f \<Rightarrow>
                    register_tool_compensator tool (Some f) (compensator_ref_of f) (a_max_attempts a)
                      (a_compensation_payload a)
                      (register_compensator (str_default (fn_name f) ''compensate'') f g))
      in case a_status_check a of None \<Rightarrow> g1 | Some chk \<Rightarrow> register_status_check tool chk g1)"

definition sdk_effect ::
    "'w effect_args \<Rightarrow> string option \<Rightarrow> 'w sdk_registry \<Rightarrow> tape_error + 'w effect_meta \<times> 'w sdk_registry" where
  "sdk_effect a name g =
     (case effect_check a of
        Inl e \<Rightarrow> Inl e
      | Inr warned \<Rightarrow> Inr (meta_of_args a, deco_registers a name g))"

text \<open>A call of the decorated function: the body, or the retry wrapper around it.\<close>

definition sdk_call ::
    "'w effect_meta \<Rightarrow> (nat \<Rightarrow> rat) \<Rightarrow> ('w \<Rightarrow> (py_raise + 'a) \<times> 'w) \<Rightarrow> 'w \<Rightarrow> (py_raise + 'a) \<times> rat list \<times> 'w" where
  "sdk_call m u body w =
     (case em_retry m of
        None \<Rightarrow> (case body w of (r, w') \<Rightarrow> (r, [], w'))
      | Some p \<Rightarrow> retry_wrapper p u body w)"

definition sdk_outbox_tool ::
    "string \<Rightarrow> string \<Rightarrow> bk_value \<Rightarrow> fn_ref option \<Rightarrow> 'w status_check option \<Rightarrow> int \<Rightarrow> bool \<Rightarrow> string \<Rightarrow>
     string option \<Rightarrow> 'w sdk_registry \<Rightarrow> tape_error + 'w effect_meta \<times> 'w sdk_registry" where
  "sdk_outbox_tool connector semantics business_key compensate status_check max_attempts allow_unsafe scope name g =
     sdk_effect (effect_defaults\<lparr>a_semantics := semantics, a_dispatch := ''outbox'', a_connector := connector,
       a_business_key := business_key, a_compensate := compensate, a_status_check := status_check,
       a_max_attempts := max_attempts, a_allow_unsafe := allow_unsafe, a_scope := scope\<rparr>) name g"

section \<open>Reading a tool\<close>

text \<open>
  The attributes of an ADK tool: the functions it may hold, each with its metadata and name,
  the metadata on the tool itself, its name and its class.
\<close>

record 'w fn_obj =
  fo_meta :: "'w effect_meta option"
  fo_name :: "string option"

record 'w adk_tool =
  at_func :: "'w fn_obj option"
  at_fn :: "'w fn_obj option"
  at_under_func :: "'w fn_obj option"
  at_wrapped :: "'w fn_obj option"
  at_meta :: "'w effect_meta option"
  at_name :: "string option"
  at_class :: string

definition effect_meta_of :: "'w adk_tool \<Rightarrow> 'w effect_meta option" where
  "effect_meta_of t =
     (case find (\<lambda>f. case f of Some x \<Rightarrow> fo_meta x \<noteq> None | None \<Rightarrow> False)
             [at_func t, at_fn t, at_under_func t, at_wrapped t] of
        Some (Some x) \<Rightarrow> fo_meta x
      | _ \<Rightarrow> at_meta t)"

definition tool_name_of :: "'w adk_tool \<Rightarrow> string" where
  "tool_name_of t =
     (if truthy_str (at_name t) then the (at_name t)
      else (case (case at_func t of Some f \<Rightarrow> Some f | None \<Rightarrow> at_fn t) of
              Some f \<Rightarrow> str_default (fo_name f) (at_class t)
            | None \<Rightarrow> at_class t))"

text \<open>\<open>tool_context.state.get(slot, "")\<close>, with \<open>None\<close> for a context whose state raises.\<close>

definition context_get :: "string \<Rightarrow> (string \<rightharpoonup> json) option \<Rightarrow> json" where
  "context_get slot st = (case st of None \<Rightarrow> JStr []
     | Some m \<Rightarrow> (case m slot of Some v \<Rightarrow> v | None \<Rightarrow> JStr []))"

definition idempotency_key :: "(string \<rightharpoonup> json) option \<Rightarrow> json" where
  "idempotency_key = context_get ''temp:_tape_idempotency_key''"

definition run_id_of :: "(string \<rightharpoonup> json) option \<Rightarrow> json" where
  "run_id_of = context_get ''temp:_tape_run_id''"

definition business_key_of :: "(string \<rightharpoonup> json) option \<Rightarrow> json" where
  "business_key_of = context_get ''temp:_tape_business_key''"

definition external_ref_of :: "(string \<rightharpoonup> json) option \<Rightarrow> json" where
  "external_ref_of = context_get ''temp:_tape_external_ref''"

definition effect_semantics_of :: "(string \<rightharpoonup> json) option \<Rightarrow> json" where
  "effect_semantics_of = context_get ''temp:_tape_effect_semantics''"

definition semantics_to_pb :: "string \<Rightarrow> int" where
  "semantics_to_pb s = (if s = ''idempotent'' then 1 else if s = ''non_idempotent'' then 2
     else if s = ''observe_only'' then 3 else 0)"

definition dispatch_to_pb :: "string \<Rightarrow> int" where
  "dispatch_to_pb s = (if s = ''inline'' then 1 else if s = ''outbox'' then 2 else 0)"

text \<open>
  The ladder of call shapes. Passing \<open>tool_context=\<close> beside \<open>**args\<close> that already has that
  key is a \<open>TypeError\<close> of the call itself.
\<close>

definition bk_attempt :: "bk_callable \<Rightarrow> (string \<times> json) list \<Rightarrow> call_shape \<Rightarrow> call_outcome" where
  "bk_attempt f args shape =
     (if shape = KwargsCtx \<and> ''tool_context'' \<in> fst ` set args then RaisesTypeError else f shape args)"

fun bk_ladder :: "bk_callable \<Rightarrow> (string \<times> json) list \<Rightarrow> call_shape list \<Rightarrow> string" where
  "bk_ladder f args [] = []"
| "bk_ladder f args (s # ss) =
     (case bk_attempt f args s of
        RaisesTypeError \<Rightarrow> bk_ladder f args ss
      | RaisesOther \<Rightarrow> []
      | Returns v \<Rightarrow> py_str (json_or v (JStr [])))"

definition sdk_resolve_business_key :: "bk_value \<Rightarrow> (string \<times> json) list option \<Rightarrow> string" where
  "sdk_resolve_business_key value args =
     (case value of
        BkNone \<Rightarrow> []
      | BkStr s \<Rightarrow> s
      | BkOther \<Rightarrow> []
      | BkCallable f \<Rightarrow> bk_ladder f (case args of Some kvs \<Rightarrow> kvs | None \<Rightarrow> [])
                       [KwargsCtx, Kwargs, DictCtx, DictOnly])"

section \<open>The retry wrapper\<close>

text \<open>A policy whose intervals are not negative, and draws within the jitter.\<close>

definition sane_policy :: "RetryPolicy \<Rightarrow> bool" where
  "sane_policy p \<longleftrightarrow> 0 \<le> rp_initial_interval_s p \<and> 0 \<le> rp_backoff_coefficient p \<and> 0 \<le> rp_max_interval_s p"

lemma delay_range:
  assumes "\<bar>u\<bar> \<le> rp_jitter p" and "sane_policy p"
  shows "0 \<le> delay p u n \<and> delay p u n \<le> rp_max_interval_s p * (1 + rp_jitter p)"
proof -
  let ?d = "min (rp_initial_interval_s p * rp_backoff_coefficient p ^ nat (max 0 (n - 1))) (rp_max_interval_s p)"
  have j: "0 \<le> rp_jitter p" "u \<le> rp_jitter p" using assms(1) by auto
  have d: "0 \<le> ?d" "?d \<le> rp_max_interval_s p" using assms(2) by (auto simp: sane_policy_def)
  have m: "rp_max_interval_s p \<le> rp_max_interval_s p * (1 + rp_jitter p)"
    using mult_left_mono [of 1 "1 + rp_jitter p" "rp_max_interval_s p"] j d by simp
  have "?d * (1 + u) \<le> ?d * (1 + rp_jitter p)" using j d by (intro mult_left_mono) auto
  also have "\<dots> \<le> rp_max_interval_s p * (1 + rp_jitter p)" using j d by (intro mult_right_mono) auto
  finally show ?thesis using m d by (auto simp: delay_def Let_def)
qed

lemma should_retry_lt: "should_retry p ex n \<Longrightarrow> n < rp_max_attempts p"
  by (simp add: should_retry_def split: if_splits)

text \<open>The loop from attempt \<open>k\<close>: the calls it made, the failures it retried and the sleeps.\<close>

lemma retry_loop_calls:
  "retry_loop p u body (int k) w = (r, sleeps, w') \<Longrightarrow>
   \<exists>fails. length fails = length sleeps \<and>
     body_calls body (Suc (length sleeps)) w = (map Inl fails @ [r], w') \<and>
     (\<forall>i < length sleeps. should_retry p (fails ! i) (int (k + i) + 1) \<and>
        sleeps ! i = delay p (u (Suc (k + i))) (int (k + i) + 1)) \<and>
     (\<forall>ex. r = Inl ex \<longrightarrow> \<not> should_retry p ex (int (k + length sleeps) + 1))"
proof (induction sleeps arbitrary: k w)
  case Nil
  then show ?case
    by (subst (asm) retry_loop.simps) (auto split: prod.splits sum.splits if_splits)
next
  case (Cons s sleeps)
  from Cons.prems obtain ex w1 where b: "body w = (Inl ex, w1)" and sr: "should_retry p ex (int k + 1)"
    and rec: "retry_loop p u body (int k + 1) w1 = (r, sleeps, w')"
    and s: "s = delay p (u (nat (int k + 1))) (int k + 1)"
    by (subst (asm) retry_loop.simps) (auto split: prod.splits sum.splits if_splits)
  have "retry_loop p u body (int (Suc k)) w1 = (r, sleeps, w')" using rec by (simp add: add.commute)
  from Cons.IH [OF this] obtain fails where
    len: "length fails = length sleeps" and
    calls: "body_calls body (Suc (length sleeps)) w1 = (map Inl fails @ [r], w')" and
    each: "\<forall>i < length sleeps. should_retry p (fails ! i) (int (Suc k + i) + 1) \<and>
        sleeps ! i = delay p (u (Suc (Suc k + i))) (int (Suc k + i) + 1)" and
    final: "\<forall>ex. r = Inl ex \<longrightarrow> \<not> should_retry p ex (int (Suc k + length sleeps) + 1)" by blast
  have nk: "nat (int k + 1) = Suc k" by simp
  have "should_retry p ((ex # fails) ! i) (int (k + i) + 1) \<and>
      (s # sleeps) ! i = delay p (u (Suc (k + i))) (int (k + i) + 1)" if "i < length (s # sleeps)" for i
    using that sr s each by (cases i) (auto simp: nk)
  moreover have "body_calls body (Suc (length (s # sleeps))) w = (map Inl (ex # fails) @ [r], w')"
    using b calls by (simp del: body_calls.simps add: body_calls.simps(2) [of body "Suc _"])
  ultimately show ?case using len final by (intro exI [of _ "ex # fails"]) auto
qed

text \<open>
  C34. The retry wrapper always returns. It calls the body at most \<open>max_attempts\<close> times (and
  at least once), retries exactly the failures the policy accepts, sleeps the policy's
  delay after each, and returns or raises what the last call gave. With sane intervals and
  draws within the jitter, every sleep lies between 0 and the jittered maximum interval.
\<close>

theorem retry_wrapper_bounded:
  "case retry_wrapper p u body w of (r, sleeps, w') \<Rightarrow>
     int (length sleeps) < max 1 (rp_max_attempts p) \<and>
     (\<exists>fails. length fails = length sleeps \<and>
        body_calls body (Suc (length sleeps)) w = (map Inl fails @ [r], w') \<and>
        (\<forall>i < length sleeps. should_retry p (fails ! i) (int i + 1) \<and>
           sleeps ! i = delay p (u (Suc i)) (int i + 1))) \<and>
     (\<forall>ex. r = Inl ex \<longrightarrow> \<not> should_retry p ex (int (length sleeps) + 1)) \<and>
     (sane_policy p \<and> (\<forall>i. \<bar>u i\<bar> \<le> rp_jitter p) \<longrightarrow>
        (\<forall>s \<in> set sleeps. 0 \<le> s \<and> s \<le> rp_max_interval_s p * (1 + rp_jitter p)))"
proof -
  obtain r sleeps w' where run: "retry_wrapper p u body w = (r, sleeps, w')"
    by (metis prod_cases3)
  then have "retry_loop p u body (int 0) w = (r, sleeps, w')" by (simp add: retry_wrapper_def)
  from retry_loop_calls [OF this] obtain fails where
    len: "length fails = length sleeps" and
    calls: "body_calls body (Suc (length sleeps)) w = (map Inl fails @ [r], w')" and
    each: "\<forall>i < length sleeps. should_retry p (fails ! i) (int i + 1) \<and>
        sleeps ! i = delay p (u (Suc i)) (int i + 1)" and
    final: "\<forall>ex. r = Inl ex \<longrightarrow> \<not> should_retry p ex (int (length sleeps) + 1)" by auto
  have "int (length sleeps) < max 1 (rp_max_attempts p)"
  proof (cases "length sleeps")
    case (Suc n)
    with each have "should_retry p (fails ! n) (int n + 1)" by auto
    then show ?thesis using Suc should_retry_lt by fastforce
  qed simp
  moreover have "\<forall>s \<in> set sleeps. 0 \<le> s \<and> s \<le> rp_max_interval_s p * (1 + rp_jitter p)"
    if "sane_policy p" "\<forall>i. \<bar>u i\<bar> \<le> rp_jitter p"
    using each delay_range that by (auto simp: in_set_conv_nth)
  ultimately show ?thesis using run len calls each final by auto
qed

theorem retry_wrapper_bounded_witness:
  "let body = (\<lambda>n. if n < (2::nat) then (Inl \<lparr>rx_classes = [''IOError'', ''Exception''], rx_msg = ''down''\<rparr>, Suc n)
               else (Inr n, Suc n))
   in retry_wrapper default_retry (\<lambda>i. 0) body 0 = (Inr 2, [1, 2], 3) \<and>
      (\<forall>s \<in> set [1, 2]. 0 \<le> s \<and> s \<le> rp_max_interval_s default_retry * (1 + rp_jitter default_retry))"
proof -
  let ?body = "\<lambda>n. if n < (2::nat) then (Inl \<lparr>rx_classes = [''IOError'', ''Exception''], rx_msg = ''down''\<rparr>, Suc n)
               else (Inr n, Suc n)"
  have "retry_wrapper default_retry (\<lambda>i. 0) ?body 0 = (Inr 2, [1, 2], 3)"
    by (simp add: retry_wrapper_def retry_loop.simps should_retry_def is_instance_def default_retry_def delay_def)
  moreover have "sane_policy default_retry" "0 \<le> rp_jitter default_retry"
    by (simp_all add: sane_policy_def default_retry_def)
  ultimately show ?thesis
    using retry_wrapper_bounded [where p = default_retry and u = "\<lambda>i. 0" and body = ?body and w = 0] by (simp add: Let_def)
qed

section \<open>What decoration accepts and registers\<close>

lemma validate_ok_iff: "(\<exists>ws. validate_semantics a = Inr ws) \<longleftrightarrow>
    a_semantics a \<in> set SEMANTICS \<and> a_dispatch a \<in> set DISPATCH \<and>
    (a_semantics a = ''non_idempotent'' \<and> \<not> a_allow_unsafe a \<longrightarrow>
       (a_status_check a \<noteq> None \<or> a_compensate a \<noteq> None \<or> a_business_key a \<noteq> BkNone) \<and> \<not> blank (a_scope a))"
  by (auto simp: validate_semantics_def Let_def)

lemma effect_check_ok_iff: "(\<exists>ws. effect_check a = Inr ws) \<longleftrightarrow>
    (\<exists>ws. validate_semantics a = Inr ws) \<and> (a_dispatch a = ''outbox'' \<longrightarrow> a_connector a \<noteq> []) \<and>
    (\<forall>s. a_business_key a = BkStr s \<and> s \<noteq> [] \<longrightarrow> a_connector a \<noteq> [])"
  by (auto simp: effect_check_def split: sum.splits bk_value.splits)

lemma known_to_pb: "s \<in> set SEMANTICS \<Longrightarrow> semantics_to_pb s \<noteq> 0" "m \<in> set DISPATCH \<Longrightarrow> dispatch_to_pb m \<noteq> 0"
  by (auto simp: SEMANTICS_def DISPATCH_def semantics_to_pb_def dispatch_to_pb_def)

lemma deco_registers_compensator:
  "a_compensate a = Some f \<Longrightarrow> n \<noteq> [] \<Longrightarrow>
   get_tool_compensator n (deco_registers a (Some n) g) =
     Some \<lparr>cs_kind = str_default (fn_name f) ''compensate'', cs_fn = f,
           cs_compensator_ref = compensator_ref_of f, cs_max_attempts = a_max_attempts a,
           cs_payload = a_compensation_payload a\<rparr>"
  by (auto simp: deco_registers_def Let_def register_tool_compensator_def register_compensator_def
      register_status_check_def get_tool_compensator_def str_default_def str_or_def int_or_def split: option.splits)

text \<open>
  C33. Decoration accepts a tool exactly when its contract is complete: known semantics and
  dispatch mode, a connector wherever the outbox or a static business key needs one, and for
  a non-idempotent tool without the override a way to resolve an unknown outcome and a
  non-blank authorization scope. What is accepted never reaches the wire as UNSPECIFIED,
  and an accepted compensator is found again under the tool's name with its own kind.
\<close>

theorem effect_contract:
  "((\<exists>r. sdk_effect a name g = Inr r) \<longleftrightarrow>
      a_semantics a \<in> set SEMANTICS \<and> a_dispatch a \<in> set DISPATCH \<and>
      (a_dispatch a = ''outbox'' \<longrightarrow> a_connector a \<noteq> []) \<and>
      (\<forall>s. a_business_key a = BkStr s \<and> s \<noteq> [] \<longrightarrow> a_connector a \<noteq> []) \<and>
      (a_semantics a = ''non_idempotent'' \<and> \<not> a_allow_unsafe a \<longrightarrow>
         (a_status_check a \<noteq> None \<or> a_compensate a \<noteq> None \<or> a_business_key a \<noteq> BkNone) \<and> \<not> blank (a_scope a))) \<and>
   (\<forall>m g'. sdk_effect a name g = Inr (m, g') \<longrightarrow>
      semantics_to_pb (em_semantics m) \<noteq> 0 \<and> dispatch_to_pb (em_dispatch m) \<noteq> 0 \<and>
      (\<forall>f n. a_compensate a = Some f \<and> name = Some n \<and> n \<noteq> [] \<longrightarrow>
         map_option cs_kind (get_tool_compensator n g') = Some (str_default (fn_name f) ''compensate'')))"
proof -
  have iff: "(\<exists>r. sdk_effect a name g = Inr r) \<longleftrightarrow> (\<exists>ws. effect_check a = Inr ws)"
    by (auto simp: sdk_effect_def split: sum.splits)
  have "semantics_to_pb (em_semantics m) \<noteq> 0 \<and> dispatch_to_pb (em_dispatch m) \<noteq> 0 \<and>
      (\<forall>f n. a_compensate a = Some f \<and> name = Some n \<and> n \<noteq> [] \<longrightarrow>
         map_option cs_kind (get_tool_compensator n g') = Some (str_default (fn_name f) ''compensate''))"
    if run: "sdk_effect a name g = Inr (m, g')" for m g'
  proof -
    from run iff have "a_semantics a \<in> set SEMANTICS" "a_dispatch a \<in> set DISPATCH"
      by (auto simp: effect_check_ok_iff validate_ok_iff)
    moreover from run have "m = meta_of_args a" "g' = deco_registers a name g"
      by (auto simp: sdk_effect_def split: sum.splits)
    ultimately show ?thesis
      by (auto simp: known_to_pb meta_of_args_def deco_registers_compensator)
  qed
  then show ?thesis unfolding iff effect_check_ok_iff validate_ok_iff by blast
qed

theorem effect_contract_witness:
  "let wire = effect_defaults\<lparr>a_semantics := ''non_idempotent'', a_dispatch := ''outbox'', a_connector := ''bank.wire'',
         a_compensate := Some \<lparr>fn_module = Some ''pay'', fn_qualname = Some ''undo'', fn_name = Some ''undo''\<rparr>,
         a_scope := ''mcp:tools:bank_wire''\<rparr> :: unit effect_args
   in \<exists>m g. sdk_effect wire (Some ''wire_money'') no_registry = Inr (m, g) \<and>
        semantics_to_pb (em_semantics m) \<noteq> 0 \<and>
        map_option cs_kind (get_tool_compensator ''wire_money'' g) = Some ''undo''"
proof -
  let ?f = "\<lparr>fn_module = Some ''pay'', fn_qualname = Some ''undo'', fn_name = Some ''undo''\<rparr>"
  let ?wire = "effect_defaults\<lparr>a_semantics := ''non_idempotent'', a_dispatch := ''outbox'', a_connector := ''bank.wire'',
         a_compensate := Some ?f, a_scope := ''mcp:tools:bank_wire''\<rparr> :: unit effect_args"
  have "\<exists>r. sdk_effect ?wire (Some ''wire_money'') no_registry = Inr r"
    unfolding effect_contract [THEN conjunct1]
    by (simp add: SEMANTICS_def DISPATCH_def effect_defaults_def blank_def py_space_def)
  then obtain m g where run: "sdk_effect ?wire (Some ''wire_money'') no_registry = Inr (m, g)" by auto
  with effect_contract [THEN conjunct2, rule_format, OF run] show ?thesis
    by (auto simp: Let_def str_default_def)
qed

end
