(* ===== verification/SdkIdentity.thy ===== *)
theory SdkIdentity
  imports SdkEffect "HOL-Library.AList"
begin

text \<open>
  The identity a run carries (\<open>adk/identity.py\<close>), how it is read from the \<open>AIPLEX_*\<close> variables
  of the environment, and the checks \<open>durable_app\<close> makes before it builds an application
  (\<open>adk/durable.py\<close>); the spend cap of \<open>budget.py\<close> and the tenancy of \<open>tenancy.py\<close>.

  An environment is a map of strings. Text is ASCII: white space is \<open>py_space\<close>.
\<close>

section \<open>Splitting text\<close>

text \<open>\<open>str.strip\<close>, \<open>str.split\<close> on one separator and on white space, and \<open>str.partition\<close>.\<close>

definition py_lstrip :: "string \<Rightarrow> string" where
  "py_lstrip s = dropWhile py_space s"

definition py_strip :: "string \<Rightarrow> string" where
  "py_strip s = rev (py_lstrip (rev (py_lstrip s)))"

fun split_on :: "char \<Rightarrow> string \<Rightarrow> string list" where
  "split_on c [] = [[]]"
| "split_on c (x # xs) =
     (if x = c then [] # split_on c xs
      else (case split_on c xs of [] \<Rightarrow> [[x]] | w # ws \<Rightarrow> (x # w) # ws))"

fun split_space :: "string \<Rightarrow> string list" where
  "split_space [] = []"
| "split_space (x # xs) =
     (if py_space x then split_space xs
      else (case xs of
              [] \<Rightarrow> [[x]]
            | y # ys \<Rightarrow> if py_space y then [x] # split_space xs
                      else (case split_space xs of [] \<Rightarrow> [[x]] | w # ws \<Rightarrow> (x # w) # ws)))"

definition replace_char :: "char \<Rightarrow> char \<Rightarrow> string \<Rightarrow> string" where
  "replace_char a b s = map (\<lambda>x. if x = a then b else x) s"

definition ascii_upper :: "string \<Rightarrow> string" where
  "ascii_upper s = map (\<lambda>c. if (97::nat) \<le> of_char c \<and> of_char c \<le> (122::nat) then char_of ((of_char c :: nat) - 32) else c) s"

definition ascii_lower :: "string \<Rightarrow> string" where
  "ascii_lower s = map (\<lambda>c. if (65::nat) \<le> of_char c \<and> of_char c \<le> (90::nat) then char_of ((of_char c :: nat) + 32) else c) s"

text \<open>
  \<open>int(s)\<close> on text: white space around, a sign, digits with single underscores between
  them; \<open>None\<close> where it raises. \<open>digits_value\<close> takes the value so far and whether the
  character before was a digit.
\<close>

fun digits_value :: "nat \<Rightarrow> bool \<Rightarrow> string \<Rightarrow> nat option" where
  "digits_value acc after_digit [] = (if after_digit then Some acc else None)"
| "digits_value acc after_digit (c # cs) =
     (if is_digit c then digits_value (10 * acc + (of_char c - 48)) True cs
      else if c = CHR ''_'' \<and> after_digit then digits_value acc False cs
      else None)"

definition py_int :: "string \<Rightarrow> int option" where
  "py_int s =
     (case py_strip s of
        [] \<Rightarrow> None
      | c # cs \<Rightarrow>
          if c = CHR ''-'' then map_option (\<lambda>n. - int n) (digits_value 0 False cs)
          else if c = CHR ''+'' then map_option int (digits_value 0 False cs)
          else map_option int (digits_value 0 False (c # cs)))"

section \<open>Identities\<close>

record RunIdentity =
  ri_tenant_id :: string
  ri_actor :: string
  ri_subject :: string
  ri_agent_id :: string
  ri_aiplex_instance_id :: string
  ri_gateway_route :: string
  ri_scopes :: "string list"
  ri_labels :: "(string \<times> string) list"
  ri_required :: "string list"

definition REQUIRED_FOR_AIPLEX :: "string list" where
  "REQUIRED_FOR_AIPLEX = [''tenant_id'', ''actor'', ''agent_id'']"

definition empty_identity :: RunIdentity where
  "empty_identity = \<lparr>ri_tenant_id = [], ri_actor = [], ri_subject = [], ri_agent_id = [],
     ri_aiplex_instance_id = [], ri_gateway_route = [], ri_scopes = [], ri_labels = [],
     ri_required = REQUIRED_FOR_AIPLEX\<rparr>"

definition parse_scopes :: "string \<Rightarrow> string list" where
  "parse_scopes s = (if s = [] then [] else filter (\<lambda>tok. tok \<noteq> []) (split_space (replace_char (CHR '','') (CHR '' '') s)))"

text \<open>One iteration of the loop over the pairs.\<close>

definition add_label :: "string \<Rightarrow> (string \<times> string) list \<Rightarrow> (string \<times> string) list" where
  "add_label raw out =
     (let pair = py_strip raw
      in if pair = [] \<or> CHR ''='' \<notin> set pair then out
         else (case py_partition (CHR ''='') pair of (k, _, v) \<Rightarrow>
                (let k' = py_strip k in if k' \<noteq> [] then AList.update k' (py_strip v) out else out)))"

definition parse_labels :: "string \<Rightarrow> (string \<times> string) list" where
  "parse_labels s = (if s = [] then [] else fold add_label (split_on (CHR '','') s) [])"

text \<open>Whether \<open>getattr(self, f, "")\<close> is set, for the names of the fields.\<close>

definition field_set :: "RunIdentity \<Rightarrow> string \<Rightarrow> bool" where
  "field_set i f =
     (if f = ''tenant_id'' then ri_tenant_id i \<noteq> []
      else if f = ''actor'' then ri_actor i \<noteq> []
      else if f = ''subject'' then ri_subject i \<noteq> []
      else if f = ''agent_id'' then ri_agent_id i \<noteq> []
      else if f = ''aiplex_instance_id'' then ri_aiplex_instance_id i \<noteq> []
      else if f = ''gateway_route'' then ri_gateway_route i \<noteq> []
      else if f = ''scopes'' then ri_scopes i \<noteq> []
      else if f = ''labels'' then ri_labels i \<noteq> []
      else if f = ''REQUIRED_FOR_AIPLEX'' then ri_required i \<noteq> []
      else False)"

definition missing_identity :: "string list \<Rightarrow> tape_error" where
  "missing_identity missing = ValueError (''required RunIdentity fields missing: [''
     @ join_with '', '' (map repr_str missing) @ '']. Set the AIPLEX_'' @ join_with ''/AIPLEX_'' (map ascii_upper missing)
     @ '' env vars (or pass identity=... explicitly) before calling durable_app().'')"

definition validate_identity :: "RunIdentity \<Rightarrow> string list \<Rightarrow> tape_error + unit" where
  "validate_identity i required =
     (let required' = (if required = [] then ri_required i else required);
          missing = filter (\<lambda>f. \<not> field_set i f) required'
      in if missing \<noteq> [] then Inl (missing_identity missing) else Inr ())"

definition env_get :: "(string \<rightharpoonup> string) \<Rightarrow> string \<Rightarrow> string" where
  "env_get e k = (case e k of Some v \<Rightarrow> v | None \<Rightarrow> [])"

definition from_env :: "(string \<rightharpoonup> string) \<Rightarrow> bool option \<Rightarrow> tape_error + RunIdentity" where
  "from_env e strict =
     (let strict' = (case strict of None \<Rightarrow> env_get e ''AIPLEX_REQUIRE_IDENTITY'' = ''1'' | Some b \<Rightarrow> b);
          ident = \<lparr>ri_tenant_id = env_get e ''AIPLEX_TENANT_ID'', ri_actor = env_get e ''AIPLEX_ACTOR'',
            ri_subject = env_get e ''AIPLEX_SUBJECT'', ri_agent_id = env_get e ''AIPLEX_AGENT_ID'',
            ri_aiplex_instance_id = env_get e ''AIPLEX_INSTANCE_ID'', ri_gateway_route = env_get e ''AIPLEX_ROUTE'',
            ri_scopes = parse_scopes (env_get e ''AIPLEX_SCOPES''),
            ri_labels = parse_labels (env_get e ''AIPLEX_LABELS''), ri_required = REQUIRED_FOR_AIPLEX\<rparr>
      in if strict' then map_sum id (\<lambda>_. ident) (validate_identity ident REQUIRED_FOR_AIPLEX) else Inr ident)"

definition is_empty_identity :: "RunIdentity \<Rightarrow> bool" where
  "is_empty_identity i \<longleftrightarrow> ri_tenant_id i = [] \<and> ri_actor i = [] \<and> ri_subject i = [] \<and> ri_agent_id i = [] \<and>
     ri_aiplex_instance_id i = [] \<and> ri_gateway_route i = [] \<and> ri_scopes i = [] \<and> ri_labels i = []"

definition subject_or :: "RunIdentity \<Rightarrow> string \<Rightarrow> string" where
  "subject_or i fallback_user_id = str_or (ri_subject i) fallback_user_id"

section \<open>Building an application\<close>

definition DEFAULT_TAPE_URL :: string where
  "DEFAULT_TAPE_URL = ''tape://localhost:7878''"

definition resolve_url :: "(string \<rightharpoonup> string) \<Rightarrow> string option \<Rightarrow> string" where
  "resolve_url e explicit =
     (if truthy_str explicit then the explicit else str_or (env_get e ''TAPE_URL'') DEFAULT_TAPE_URL)"

text \<open>The identity the plugin of \<open>durable_app\<close> is built with, or the error that stops it.\<close>

definition app_identity ::
    "(string \<rightharpoonup> string) \<Rightarrow> RunIdentity option \<Rightarrow> bool option \<Rightarrow> tape_error + RunIdentity" where
  "app_identity e identity require_identity =
     (case identity of
        None \<Rightarrow> from_env e require_identity
      | Some i \<Rightarrow>
          if require_identity = Some True \<or> (require_identity = None \<and> env_get e ''AIPLEX_REQUIRE_IDENTITY'' = ''1'') then
            map_sum id (\<lambda>_. i) (validate_identity i [])
          else Inr i)"

section \<open>Budgets and tenancy\<close>

text \<open>Caps are numbers; a cap that is not positive is no cap.\<close>

record Budget =
  bg_usd_cap :: rat
  bg_token_cap :: int

text \<open>
  The \<open>tape_budget\<close> entry of a run configuration: absent, or the caps it names. A null or
  empty entry names none.
\<close>

datatype budget_entry = NoEntry | BudgetEntry "rat option" "int option"

definition with_budget :: "rat \<Rightarrow> int \<Rightarrow> budget_entry" where
  "with_budget usd tok = BudgetEntry (Some usd) (Some tok)"

definition budget_from_run_config :: "budget_entry \<Rightarrow> Budget option" where
  "budget_from_run_config md = (case md of
     NoEntry \<Rightarrow> None
   | BudgetEntry usd tok \<Rightarrow> Some \<lparr>bg_usd_cap = (case usd of Some u \<Rightarrow> u | None \<Rightarrow> 0),
                                 bg_token_cap = (case tok of Some t \<Rightarrow> t | None \<Rightarrow> 0)\<rparr>)"

datatype TenancyMode = SINGLE | TRUSTED_MULTI_APP | HARD_MULTI_TENANT

record TenancyConfig =
  tn_mode :: TenancyMode
  tn_tenant_id :: string

definition tenancy_mode :: "json \<Rightarrow> tape_error + TenancyMode" where
  "tenancy_mode v =
     (if v = JStr ''single'' then Inr SINGLE
      else if v = JStr ''trusted_multi_app'' then Inr TRUSTED_MULTI_APP
      else if v = JStr ''hard_multi_tenant'' then Inr HARD_MULTI_TENANT
      else Inl (ValueError (py_repr v @ '' is not a valid TenancyMode'')))"

definition tenancy_from_dict :: "(string \<times> json) list \<Rightarrow> tape_error + TenancyConfig" where
  "tenancy_from_dict raw =
     (if raw = [] then Inr \<lparr>tn_mode = SINGLE, tn_tenant_id = ''default''\<rparr>
      else map_sum id (\<lambda>m. \<lparr>tn_mode = m,
             tn_tenant_id = py_str (case map_of raw ''tenant_id'' of Some v \<Rightarrow> v | None \<Rightarrow> JStr ''default'')\<rparr>)
             (tenancy_mode (case map_of raw ''mode'' of Some v \<Rightarrow> v | None \<Rightarrow> JStr ''single'')))"

definition tenancy_from_env :: "(string \<rightharpoonup> string) \<Rightarrow> tape_error + TenancyConfig" where
  "tenancy_from_env e =
     map_sum id (\<lambda>m. \<lparr>tn_mode = m, tn_tenant_id = (case e ''TAPE_TENANT_ID'' of Some v \<Rightarrow> v | None \<Rightarrow> ''default'')\<rparr>)
       (tenancy_mode (JStr (case e ''TAPE_TENANCY'' of Some v \<Rightarrow> v | None \<Rightarrow> ''single'')))"

definition is_hard :: "TenancyConfig \<Rightarrow> bool" where
  "is_hard c = (tn_mode c = HARD_MULTI_TENANT)"

definition warn_if_hard_but_unenforced :: "TenancyConfig \<Rightarrow> string list" where
  "warn_if_hard_but_unenforced c =
     (if \<not> is_hard c then []
      else [''tenancy.mode=hard_multi_tenant requested but the Tape proto and '' @
            ''stores do not yet carry a first-class tenant_id. Cross-tenant data '' @
            ''isolation cannot be enforced at the runtime; this mode is '' @
            ''DESIGN-ONLY today. Track the proto change before enabling.''])"

section \<open>Facts about splitting\<close>

text \<open>A word: text without white space at either end.\<close>

definition trimmed :: "string \<Rightarrow> bool" where
  "trimmed s \<longleftrightarrow> s = [] \<or> \<not> py_space (hd s) \<and> \<not> py_space (last s)"

lemma py_lstrip_trimmed: "s = [] \<or> \<not> py_space (hd s) \<Longrightarrow> py_lstrip s = s"
  by (cases s) (auto simp: py_lstrip_def)

lemma py_strip_trimmed [simp]: "trimmed s \<Longrightarrow> py_strip s = s"
  by (auto simp: py_strip_def trimmed_def py_lstrip_trimmed hd_rev)

lemma split_on_nonempty [simp]: "split_on c s \<noteq> []"
  by (induction c s rule: split_on.induct) (auto split: list.splits)

lemma split_on_clean: "c \<notin> set s \<Longrightarrow> split_on c s = [s]"
  by (induction s) auto

lemma split_on_append: "c \<notin> set s \<Longrightarrow> split_on c (s @ c # rest) = s # split_on c rest"
  by (induction s) auto

lemma split_on_join:
  "xs \<noteq> [] \<Longrightarrow> (\<And>x. x \<in> set xs \<Longrightarrow> c \<notin> set x) \<Longrightarrow> split_on c (join_with [c] xs) = xs"
proof (induction "[c]" xs rule: join_with.induct)
  case (3 x y ys)
  then show ?case using split_on_append [of c x "join_with [c] (y # ys)"] by simp
qed (auto simp: split_on_clean)

lemma py_partition_key: "c \<notin> set k \<Longrightarrow> py_partition c (k @ c # v) = (k, [c], v)"
  by (induction k) (auto simp: py_partition_def split: list.splits)

lemma split_space_word:
  "w \<noteq> [] \<Longrightarrow> list_all (\<lambda>c. \<not> py_space c) w \<Longrightarrow> rest = [] \<or> py_space (hd rest) \<Longrightarrow>
   split_space (w @ rest) = w # split_space rest"
proof (induction w)
  case (Cons x w)
  show ?case
  proof (cases w)
    case Nil
    with Cons.prems show ?thesis by (cases rest) auto
  next
    case (Cons y ys)
    with Cons.prems Cons.IH show ?thesis by auto
  qed
qed simp

lemma split_space_words:
  "(\<And>w. w \<in> set ws \<Longrightarrow> w \<noteq> [] \<and> list_all (\<lambda>c. \<not> py_space c) w) \<Longrightarrow> split_space (join_with '' '' ws) = ws"
proof (induction "'' ''" ws rule: join_with.induct)
  case (2 x)
  then show ?case using split_space_word [of x "[]"] by simp
next
  case (3 x y ys)
  have "py_space (CHR '' '')" by (simp add: py_space_def)
  with 3 show ?case using split_space_word [of x "CHR '' '' # join_with '' '' (y # ys)"] by simp
qed simp

lemma replace_join:
  "(\<And>x. x \<in> set xs \<Longrightarrow> a \<notin> set x) \<Longrightarrow> replace_char a b (join_with [a] xs) = join_with [b] xs"
proof -
  have one: "a \<notin> set x \<Longrightarrow> replace_char a b x = x" for x
    by (auto simp: replace_char_def intro: map_idI)
  show "(\<And>x. x \<in> set xs \<Longrightarrow> a \<notin> set x) \<Longrightarrow> ?thesis"
  proof (induction "[a]" xs rule: join_with.induct)
    case (3 x y ys)
    then show ?case using one [of x] by (simp add: replace_char_def)
  next
    case (2 x)
    then show ?case using one [of x] by simp
  qed (simp add: replace_char_def)
qed

lemma digits_value_append:
  "list_all is_digit xs \<Longrightarrow> xs \<noteq> [] \<Longrightarrow> digits_value acc b (xs @ ys) = digits_value (fold (\<lambda>c n. 10 * n + (of_char c - 48)) xs acc) True ys"
proof (induction xs arbitrary: acc b)
  case (Cons x xs)
  show ?case
  proof (cases xs)
    case Nil
    with Cons.prems show ?thesis by simp
  next
    case (Cons y zs)
    with Cons.prems Cons.IH [of "10 * acc + (of_char x - 48)" True] show ?thesis by simp
  qed
qed simp

lemma nat_str_all_digits: "list_all is_digit (nat_str n)"
  using nat_str_char_bounds by (auto simp: list_all_iff is_digit_def)

lemma nat_str_value: "fold (\<lambda>c m. 10 * m + (of_char c - 48)) (nat_str n) 0 = (n :: nat)"
proof (induction n rule: nat_str.induct)
  case (1 n)
  show ?case
  proof (cases "n < 10")
    case True
    then show ?thesis by (simp add: nat_str.simps [of n] of_char_digit)
  next
    case False
    then have "fold (\<lambda>c m. 10 * m + (of_char c - 48)) (nat_str n) (0 :: nat) = 10 * (n div 10) + n mod 10"
      using "1.IH" by (simp add: nat_str.simps [of n] of_char_digit)
    then show ?thesis by simp
  qed
qed

lemma digits_value_nat_str: "digits_value 0 False (nat_str n) = Some n"
  using digits_value_append [of "nat_str n" 0 False "[]"] by (simp add: nat_str_value nat_str_all_digits nat_str_nonempty)

lemma digit_not_space: "is_digit c \<Longrightarrow> \<not> py_space c"
  by (auto simp: is_digit_def py_space_def)

lemma nat_str_trimmed: "trimmed (nat_str n)"
  using nat_str_all_digits [of n] nat_str_nonempty [of n] digit_not_space
  by (auto simp: trimmed_def list_all_iff)

lemma int_str_trimmed: "trimmed (int_str i)"
  using nat_str_trimmed [of "nat (- i)"] nat_str_trimmed [of "nat i"] nat_str_nonempty [of "nat (- i)"]
  by (auto simp: int_str_def trimmed_def py_space_def)

lemma py_int_nat_str: "py_int (nat_str n) = Some (int n)"
proof -
  obtain c cs where c: "nat_str n = c # cs" using nat_str_nonempty [of n] by (cases "nat_str n") auto
  with nat_str_all_digits [of n] have "is_digit c" by simp
  then have "c \<noteq> CHR ''-''" "c \<noteq> CHR ''+''" by (auto simp: is_digit_def)
  with c nat_str_trimmed [of n] digits_value_nat_str [of n] show ?thesis by (simp add: py_int_def)
qed

text \<open>Text written by \<open>str\<close> is read back by \<open>int\<close>.\<close>

lemma py_int_int_str: "py_int (int_str i) = Some i"
proof (cases "i < 0")
  case True
  then show ?thesis using int_str_trimmed [of i] digits_value_nat_str [of "nat (- i)"]
    by (simp add: int_str_def py_int_def)
next
  case False
  then show ?thesis using py_int_nat_str [of "nat i"] by (simp add: int_str_def)
qed

section \<open>Facts about labels and identities\<close>

definition render_label :: "string \<times> string \<Rightarrow> string" where
  "render_label kv = fst kv @ ''='' @ snd kv"

definition clean_label :: "string \<times> string \<Rightarrow> bool" where
  "clean_label kv \<longleftrightarrow> fst kv \<noteq> [] \<and> trimmed (fst kv) \<and> trimmed (snd kv) \<and> CHR ''='' \<notin> set (fst kv) \<and>
     CHR '','' \<notin> set (fst kv) \<and> CHR '','' \<notin> set (snd kv)"

definition clean_scope :: "string \<Rightarrow> bool" where
  "clean_scope s \<longleftrightarrow> s \<noteq> [] \<and> list_all (\<lambda>c. \<not> py_space c) s \<and> CHR '','' \<notin> set s"

lemma render_label_trimmed: "clean_label kv \<Longrightarrow> trimmed (render_label kv)"
  by (cases kv) (auto simp: clean_label_def trimmed_def render_label_def py_space_def)

lemma add_label_clean: "clean_label (k, v) \<Longrightarrow> add_label (render_label (k, v)) out = AList.update k v out"
  using render_label_trimmed [of "(k, v)"] py_partition_key [of "CHR ''=''" k v]
  by (auto simp: add_label_def Let_def clean_label_def render_label_def)

lemma alist_update_new: "k \<notin> fst ` set out \<Longrightarrow> AList.update k v out = out @ [(k, v)]"
  by (induction out) auto

lemma fold_labels:
  "list_all clean_label kvs \<Longrightarrow> distinct (map fst (out @ kvs)) \<Longrightarrow> fold add_label (map render_label kvs) out = out @ kvs"
proof (induction kvs arbitrary: out)
  case (Cons kv kvs)
  obtain k v where kv: "kv = (k, v)" by fastforce
  from Cons.prems kv have "add_label (render_label (k, v)) out = out @ [(k, v)]"
    by (auto simp: add_label_clean alist_update_new)
  with Cons.IH [of "out @ [(k, v)]"] Cons.prems kv show ?case by simp
qed simp

lemma validate_identity_ok:
  "validate_identity i required = Inr () \<longleftrightarrow>
     list_all (field_set i) (if required = [] then ri_required i else required)"
  by (auto simp: validate_identity_def Let_def filter_empty_conv list_all_iff)

lemma validate_identity_cases: "validate_identity i required = Inr () \<or>
    (\<exists>f fs. validate_identity i required = Inl (missing_identity (f # fs)))"
  by (cases "filter (\<lambda>f. \<not> field_set i f) (if required = [] then ri_required i else required)")
     (auto simp: validate_identity_def Let_def)

definition anchored :: "RunIdentity \<Rightarrow> bool" where
  "anchored i \<longleftrightarrow> ri_tenant_id i \<noteq> [] \<and> ri_actor i \<noteq> [] \<and> ri_agent_id i \<noteq> []"

lemma required_anchored: "list_all (field_set i) REQUIRED_FOR_AIPLEX \<longleftrightarrow> anchored i"
  by (simp add: REQUIRED_FOR_AIPLEX_def field_set_def anchored_def)

definition strict_mode :: "(string \<rightharpoonup> string) \<Rightarrow> bool option \<Rightarrow> bool" where
  "strict_mode e req = (case req of Some b \<Rightarrow> b | None \<Rightarrow> env_get e ''AIPLEX_REQUIRE_IDENTITY'' = ''1'')"

lemma from_env_strict: "strict_mode e req \<Longrightarrow> from_env e req = Inr i \<Longrightarrow> anchored i"
  using validate_identity_ok required_anchored
  by (auto simp: from_env_def strict_mode_def Let_def REQUIRED_FOR_AIPLEX_def map_sum_def
      split: option.splits sum.splits if_splits)

section \<open>Properties\<close>

text \<open>
  The identity of an environment survives the round trip through its text: labels
  written as comma-separated pairs and scopes written with commas are read back exactly,
  whatever the other variables hold.
\<close>

lemma identity_text_roundtrip:
  assumes "list_all clean_label labels" and "distinct (map fst labels)" and "list_all clean_scope scopes"
    and "env_get e ''AIPLEX_LABELS'' = join_with '','' (map render_label labels)"
    and "env_get e ''AIPLEX_SCOPES'' = join_with '','' scopes"
  shows "\<exists>i. from_env e (Some False) = Inr i \<and> ri_labels i = labels \<and> ri_scopes i = scopes"
proof -
  have "parse_labels (join_with '','' (map render_label labels)) = labels"
  proof (cases "labels = []")
    case False
    then have ne: "join_with '','' (map render_label labels) \<noteq> []"
      by (cases labels; cases "tl labels") (auto simp: render_label_def)
    have "split_on (CHR '','') (join_with '','' (map render_label labels)) = map render_label labels"
      using False assms(1) by (intro split_on_join) (auto simp: list_all_iff render_label_def clean_label_def)
    with ne fold_labels [OF assms(1), of "[]"] assms(2) show ?thesis by (simp add: parse_labels_def)
  qed (simp add: parse_labels_def)
  moreover have "parse_scopes (join_with '','' scopes) = scopes"
  proof -
    have "split_space (replace_char (CHR '','') (CHR '' '') (join_with '','' scopes)) = scopes"
      using assms(3) by (subst replace_join) (auto simp: list_all_iff clean_scope_def intro!: split_space_words)
    moreover have "filter (\<lambda>tok. tok \<noteq> []) scopes = scopes"
      using assms(3) by (auto simp: list_all_iff clean_scope_def filter_id_conv)
    moreover have "join_with '','' scopes = [] \<Longrightarrow> scopes = []"
      using assms(3) by (cases scopes; cases "tl scopes") (auto simp: clean_scope_def)
    ultimately show ?thesis by (auto simp: parse_scopes_def)
  qed
  ultimately show ?thesis using assms(4,5) by (simp add: from_env_def)
qed

text \<open>
  In strict mode (\<open>require_identity\<close>, or \<open>AIPLEX_REQUIRE_IDENTITY=1\<close>) \<open>durable_app\<close> never builds
  an application whose runs lack the tenant, the actor or the agent, whether the identity
  comes from the environment or from the caller; it refuses exactly the others, and the error
  names a missing field.
\<close>

lemma strict_identity_anchored:
  assumes "strict_mode e req" and "\<forall>j. identity = Some j \<longrightarrow> ri_required j = REQUIRED_FOR_AIPLEX"
  shows "(\<forall>i. app_identity e identity req = Inr i \<longrightarrow> anchored i) \<and>
    (\<forall>j. identity = Some j \<longrightarrow> (anchored j \<longleftrightarrow> app_identity e identity req = Inr j)) \<and>
    (\<forall>err. app_identity e identity req = Inl err \<longrightarrow> (\<exists>f fs. err = missing_identity (f # fs)))"
proof (cases identity)
  case None
  then show ?thesis using from_env_strict [OF assms(1)] validate_identity_cases assms(1)
    by (auto simp: app_identity_def from_env_def strict_mode_def Let_def map_sum_def split: option.splits sum.splits if_splits)
       (metis sum.distinct(1) sum.sel(1))+
next
  case (Some j)
  have st: "(req = Some True \<or> req = None \<and> env_get e ''AIPLEX_REQUIRE_IDENTITY'' = ''1'')"
    using assms(1) by (auto simp: strict_mode_def split: option.splits)
  have ok: "validate_identity j [] = Inr () \<longleftrightarrow> anchored j"
    using validate_identity_ok [of j "[]"] required_anchored [of j] assms(2) Some by simp
  have run: "app_identity e identity req = map_sum id (\<lambda>_. j) (validate_identity j [])"
    using Some st by (auto simp: app_identity_def)
  from validate_identity_cases [of j "[]"] show ?thesis
  proof
    assume "validate_identity j [] = Inr ()"
    with ok run Some show ?thesis by simp
  next
    assume "\<exists>f fs. validate_identity j [] = Inl (missing_identity (f # fs))"
    with ok run Some show ?thesis by auto blast
  qed
qed

end
