(* ===== verification/SdkCalls.thy ===== *)
theory SdkCalls
  imports TapePrelude
begin

text \<open>
  How the reactors of the gRPC SDK call other code. A call acts on a world and returns its
  reply or raises; \<open>and_then\<close> is the next statement after a call, \<open>each\<close> a loop that stops at
  the first exception. \<open>logged\<close> lifts a call to worlds with a log, which is how the theories
  observe the order of calls, and \<open>logged_reply\<close> logs the reply with the call. The interface \<open>traced_step\<close> is a loop body whose calls are
  known, and what follows for the loop.
\<close>

definition and_then ::
    "(py_exn + 'a) \<times> 'w \<Rightarrow> ('a \<Rightarrow> 'w \<Rightarrow> (py_exn + 'b) \<times> 'w) \<Rightarrow> (py_exn + 'b) \<times> 'w" where
  "and_then m k = (case m of (Inl ex, w) \<Rightarrow> (Inl ex, w) | (Inr v, w) \<Rightarrow> k v w)"

fun each :: "('x \<Rightarrow> 'w \<Rightarrow> (py_exn + 'r) \<times> 'w) \<Rightarrow> 'x list \<Rightarrow> 'w \<Rightarrow> (py_exn + 'r list) \<times> 'w" where
  "each one [] w = (Inr [], w)"
| "each one (x # xs) w =
     and_then (one x w) (\<lambda>r w1. and_then (each one xs w1) (\<lambda>rs w2. (Inr (r # rs), w2)))"

definition logged :: "'a \<Rightarrow> ('w \<Rightarrow> 'r \<times> 'w) \<Rightarrow> 'w \<times> 'a list \<Rightarrow> 'r \<times> 'w \<times> 'a list" where
  "logged a f wl = (case wl of (w, l) \<Rightarrow> (case f w of (r, w') \<Rightarrow> (r, w', l @ [a])))"

definition unlogged :: "('w \<Rightarrow> 'r \<times> 'w) \<Rightarrow> 'w \<times> 'a list \<Rightarrow> 'r \<times> 'w \<times> 'a list" where
  "unlogged f wl = (case wl of (w, l) \<Rightarrow> (case f w of (r, w') \<Rightarrow> (r, w', l)))"

definition logged_reply :: "('r \<Rightarrow> 'a) \<Rightarrow> ('w \<Rightarrow> 'r \<times> 'w) \<Rightarrow> 'w \<times> 'a list \<Rightarrow> 'r \<times> 'w \<times> 'a list" where
  "logged_reply a f wl = (case wl of (w, l) \<Rightarrow> (case f w of (r, w') \<Rightarrow> (r, w', l @ [a r])))"

lemma and_then_run: "and_then m k = (case fst m of Inl ex \<Rightarrow> (Inl ex, snd m) | Inr v \<Rightarrow> k v (snd m))"
  by (cases m) (auto simp: and_then_def split: sum.splits)

lemma logged_run: "logged a f (w, l) = (fst (f w), snd (f w), l @ [a])"
  by (simp add: logged_def split: prod.splits)

lemma unlogged_run: "unlogged f (w, l) = (fst (f w), snd (f w), l)"
  by (simp add: unlogged_def split: prod.splits)

lemma logged_reply_run: "logged_reply a f (w, l) = (fst (f w), snd (f w), l @ [a (fst (f w))])"
  by (simp add: logged_reply_def split: prod.splits)

lemmas call_run = and_then_run logged_run unlogged_run logged_reply_run

locale traced_step =
  fixes one :: "'x \<Rightarrow> 'w \<times> 'a list \<Rightarrow> (py_exn + 'r) \<times> 'w \<times> 'a list"
    and spec :: "'x \<Rightarrow> 'a list \<Rightarrow> bool"
  assumes one_traced: "\<exists>res w' acts. one x (w, l) = (res, w', l @ acts) \<and> spec x acts"
begin

lemma each_traced:
  "\<exists>res w' accs. each one xs (w, l) = (res, w', l @ concat accs) \<and>
     list_all2 spec (take (length accs) xs) accs \<and> (length accs = length xs \<or> (\<exists>ex. res = Inl ex))"
proof (induction xs arbitrary: w l)
  case (Cons x xs)
  obtain r w1 a1 where step: "one x (w, l) = (r, w1, l @ a1)" and sp: "spec x a1"
    using one_traced [of x w l] by (elim exE conjE)
  show ?case
  proof (cases r)
    case (Inl ex)
    with step sp show ?thesis by (intro exI [of _ "Inl ex"] exI [of _ w1] exI [of _ "[a1]"]) (simp add: and_then_run)
  next
    case (Inr v)
    obtain res w2 accs where rest: "each one xs (w1, l @ a1) = (res, w2, (l @ a1) @ concat accs)"
      and acc: "list_all2 spec (take (length accs) xs) accs" "length accs = length xs \<or> (\<exists>ex. res = Inl ex)"
      using Cons.IH [of w1 "l @ a1"] by (elim exE conjE)
    from step Inr rest acc sp show ?thesis
      by (cases res; intro exI [of _ "map_sum id (\<lambda>rs. v # rs) res"] exI [of _ w2] exI [of _ "a1 # accs"])
         (auto simp: and_then_run)
  qed
qed simp

text \<open>Whatever is called at all is called for one of the elements.\<close>

lemma each_member:
  assumes "list_all2 spec (take (length accs) xs) accs" and "a \<in> set (concat accs)"
  shows "\<exists>x \<in> set xs. \<exists>acts. spec x acts \<and> a \<in> set acts"
proof -
  obtain acts where acts: "acts \<in> set accs" "a \<in> set acts" using assms(2) by auto
  then obtain i where "i < length accs" "accs ! i = acts" by (auto simp: in_set_conv_nth)
  then have "spec (take (length accs) xs ! i) acts" "take (length accs) xs ! i \<in> set xs"
    using assms(1) list_all2_nthD2 list_all2_lengthD in_set_takeD nth_mem by metis+
  with acts(2) show ?thesis by blast
qed

text \<open>A bound per element adds up.\<close>

lemma each_count:
  assumes "list_all2 spec (take (length accs) xs) accs" and "\<And>x acts. spec x acts \<Longrightarrow> length (filter p acts) \<le> n"
  shows "length (filter p (concat accs)) \<le> n * length xs"
proof -
  have "length (filter p (concat as)) \<le> n * length ys" if "list_all2 spec ys as" for ys as
    using that
  proof (induction rule: list_all2_induct)
    case (Cons x xs y ys)
    with assms(2) [of x y] show ?case by simp
  qed simp
  from this [OF assms(1)] have "length (filter p (concat accs)) \<le> n * length (take (length accs) xs)" .
  also have "\<dots> \<le> n * length xs" by simp
  finally show ?thesis .
qed

end

end
