(* ===== verification/SdkOutbox.thy ===== *)
theory SdkOutbox
  imports SdkEffect SdkCalls Snapshots
begin

text \<open>
  The outbox reactor of the gRPC SDK (\<open>reactors/outbox.py\<close>) with the connector registry it
  looks connectors up in (\<open>connectors/base.py\<close>).

  The server is another process: the client's calls are the fields of a record, each of which
  returns its reply or raises and changes the world, and so are the calls of a connector.
  No law of the server is assumed. A field that carries JSON text is \<open>JsonText v\<close> for the
  text of the value \<open>v\<close> and \<open>PlainText s\<close> for any text that is not JSON, so
  \<open>json.dumps\<close> is \<open>JsonText\<close> and \<open>json.loads\<close> succeeds exactly on \<open>JsonText\<close>. The reading
  of \<open>time.time()\<close> in milliseconds is a parameter.
\<close>

section \<open>Wire data\<close>

datatype wire_text = JsonText json | PlainText string

definition EFFECT_STATUS_PENDING :: int where
  "EFFECT_STATUS_PENDING = 1"

definition EFFECT_STATUS_CONFIRMED :: int where
  "EFFECT_STATUS_CONFIRMED = 2"

definition EFFECT_STATUS_FAILED :: int where
  "EFFECT_STATUS_FAILED = 3"

definition EFFECT_STATUS_UNKNOWN :: int where
  "EFFECT_STATUS_UNKNOWN = 4"

definition EFFECT_SEMANTICS_NON_IDEMPOTENT :: int where
  "EFFECT_SEMANTICS_NON_IDEMPOTENT = 2"

definition EFFECT_RESOLUTION_FAILED :: int where
  "EFFECT_RESOLUTION_FAILED = 2"

text \<open>The fields of the effect message the reactor reads.\<close>

record PbEffect =
  pe_run_id :: string
  pe_idempotency_key :: string
  pe_connector :: string
  pe_tool_name :: string
  pe_semantics :: int
  pe_status :: int
  pe_dispatch_attempts :: int
  pe_request_json :: wire_text
  pe_business_key :: string

record SdkDispatchResult =
  sr_status :: string
  sr_external_ref :: string
  sr_response :: "(string \<times> json) list"
  sr_error :: "(string \<times> json) list"
  sr_retry_at_ms :: int

record SdkObservationResult =
  so_status :: string
  so_external_ref :: string
  so_response :: "(string \<times> json) list"

record 'w sdk_connector =
  sk_name :: string
  sk_dispatch :: "PbEffect \<Rightarrow> 'w \<Rightarrow> (py_exn + SdkDispatchResult) \<times> 'w"
  sk_observe :: "PbEffect \<Rightarrow> 'w \<Rightarrow> (py_exn + SdkObservationResult) \<times> 'w"

text \<open>The connector registry of the process, in registration order of its names.\<close>

definition register_connector ::
    "'w sdk_connector \<Rightarrow> string \<Rightarrow> (string \<times> 'w sdk_connector) list \<Rightarrow> tape_error + (string \<times> 'w sdk_connector) list" where
  "register_connector c name g =
     (let n = str_or name (sk_name c)
      in if n = [] then Inl (ValueError ''connector.name is required (or pass name=)'')
         else Inr (AList.update n c g))"

definition get_connector :: "string \<Rightarrow> (string \<times> 'w sdk_connector) list \<Rightarrow> 'w sdk_connector option" where
  "get_connector name g = map_of g name"

definition call_dispatch :: "'w sdk_connector \<Rightarrow> PbEffect \<Rightarrow> 'w \<Rightarrow> (py_exn + SdkDispatchResult) \<times> 'w" where
  "call_dispatch c e w = sk_dispatch c e w"

definition call_observe :: "'w sdk_connector \<Rightarrow> PbEffect \<Rightarrow> 'w \<Rightarrow> (py_exn + SdkObservationResult) \<times> 'w" where
  "call_observe c e w = sk_observe c e w"

record 'w client =
  cl_list_effects_to_dispatch :: "string \<Rightarrow> int \<Rightarrow> 'w \<Rightarrow> (py_exn + PbEffect list) \<times> 'w"
  cl_claim_effect_dispatch :: "string \<Rightarrow> string \<Rightarrow> string \<Rightarrow> 'w \<Rightarrow> (py_exn + bool \<times> PbEffect) \<times> 'w"
  cl_record_dispatch_attempt :: "string \<Rightarrow> string \<Rightarrow> wire_text \<Rightarrow> int \<Rightarrow> 'w \<Rightarrow> (py_exn + unit) \<times> 'w"
  cl_complete_effect :: "string \<Rightarrow> string \<Rightarrow> int \<Rightarrow> wire_text \<Rightarrow> 'w \<Rightarrow> (py_exn + unit) \<times> 'w"
  cl_record_external_observation :: "string \<Rightarrow> string \<Rightarrow> int \<Rightarrow> wire_text \<Rightarrow> 'w \<Rightarrow> (py_exn + unit) \<times> 'w"
  cl_register_compensation :: "string \<Rightarrow> string \<Rightarrow> string \<Rightarrow> wire_text \<Rightarrow> string \<Rightarrow> int \<Rightarrow> 'w \<Rightarrow> (py_exn + unit) \<times> 'w"

section \<open>Dispatching one effect\<close>

text \<open>
  \<open>min(base_s * 2**max(attempt-1, 0), max_s)\<close> at the defaults 1.0 and 60.0, in
  milliseconds. The power is an integer that is multiplied with a float, which raises once
  the power does not fit a double.
\<close>

definition backoff_curve :: "nat \<Rightarrow> int" where
  "backoff_curve n = min (2 ^ n) 60 * 1000"

definition backoff_ms :: "int \<Rightarrow> py_exn + int" where
  "backoff_ms attempt =
     (let n = nat (max (attempt - 1) 0)
      in if n \<ge> 1024 then Inl (PyExn ''OverflowError'' ''int too large to convert to float'')
         else Inr (backoff_curve n))"

definition dispatch_out :: "PbEffect \<Rightarrow> (string \<times> json) list" where
  "dispatch_out eff = [(''run_id'', JStr (pe_run_id eff)), (''idempotency_key'', JStr (pe_idempotency_key eff)),
     (''connector'', JStr (pe_connector eff)), (''tool'', JStr (pe_tool_name eff)),
     (''semantics'', JNum (pe_semantics eff))]"

definition raised_error :: "py_exn \<Rightarrow> wire_text" where
  "raised_error ex = PlainText (''connector raised: '' @ exn_text ex)"

definition on_raise ::
    "'w client \<Rightarrow> int \<Rightarrow> PbEffect \<Rightarrow> py_exn \<Rightarrow> (string \<times> json) list \<Rightarrow> 'w \<Rightarrow> (py_exn + json) \<times> 'w" where
  "on_raise cl now cur ex out w =
     (if pe_semantics cur = EFFECT_SEMANTICS_NON_IDEMPOTENT then
        and_then (cl_record_dispatch_attempt cl (pe_run_id cur) (pe_idempotency_key cur) (raised_error ex) 0 w)
          (\<lambda>_ w'. (Inr (JObj (out @ [(''status'', JStr ''unknown''), (''error'', JStr (exn_msg ex))])), w'))
      else
        (case backoff_ms (pe_dispatch_attempts cur + 1) of
           Inl over \<Rightarrow> (Inl over, w)
         | Inr bo \<Rightarrow>
             and_then (cl_record_dispatch_attempt cl (pe_run_id cur) (pe_idempotency_key cur) (raised_error ex) (now + bo) w)
               (\<lambda>_ w'. (Inr (JObj (out @ [(''status'', JStr ''retry-scheduled''), (''error'', JStr (exn_msg ex))])), w'))))"

text \<open>\<open>{"external_ref": ref, **response}\<close>\<close>

definition result_payload :: "SdkDispatchResult \<Rightarrow> json" where
  "result_payload r = JObj (dict_update (sr_response r) [(''external_ref'', JStr (sr_external_ref r))])"

definition request_args :: "wire_text \<Rightarrow> json" where
  "request_args t = (case t of JsonText v \<Rightarrow> v | PlainText _ \<Rightarrow> JObj [])"

definition compensation_payload_for :: "comp_spec \<Rightarrow> PbEffect \<Rightarrow> SdkDispatchResult \<Rightarrow> json" where
  "compensation_payload_for spec cur r =
     (let payload = result_payload r
      in case cs_payload spec of
           None \<Rightarrow> payload
         | Some f \<Rightarrow>
             (case f (request_args (pe_request_json cur)) payload of
                Inl _ \<Rightarrow> payload
              | Inr custom \<Rightarrow> if truthy custom then custom else payload))"

definition on_confirmed ::
    "'v sdk_registry \<Rightarrow> 'w client \<Rightarrow> PbEffect \<Rightarrow> SdkDispatchResult \<Rightarrow> (string \<times> json) list \<Rightarrow> 'w \<Rightarrow> (py_exn + json) \<times> 'w" where
  "on_confirmed g cl cur r out w =
     and_then (cl_complete_effect cl (pe_run_id cur) (pe_idempotency_key cur) EFFECT_STATUS_CONFIRMED
                 (JsonText (result_payload r)) w)
       (\<lambda>_ w'.
          (let w'' = (case get_tool_compensator (pe_tool_name cur) g of
                        None \<Rightarrow> w'
                      | Some spec \<Rightarrow>
                          snd (cl_register_compensation cl (pe_run_id cur) (pe_idempotency_key cur) (cs_kind spec)
                                 (JsonText (compensation_payload_for spec cur r)) (cs_compensator_ref spec)
                                 (int_or (cs_max_attempts spec) 0) w'))
           in (Inr (JObj (out @ [(''status'', JStr ''confirmed''), (''external_ref'', JStr (sr_external_ref r))])), w'')))"

definition on_unknown ::
    "'w client \<Rightarrow> PbEffect \<Rightarrow> SdkDispatchResult \<Rightarrow> (string \<times> json) list \<Rightarrow> 'w \<Rightarrow> (py_exn + json) \<times> 'w" where
  "on_unknown cl cur r out w =
     and_then (cl_record_dispatch_attempt cl (pe_run_id cur) (pe_idempotency_key cur)
                 (JsonText (json_or (JObj (sr_error r)) (JObj [(''reason'', JStr ''ack lost'')]))) 0 w)
       (\<lambda>_ w'. (Inr (JObj (out @ [(''status'', JStr ''unknown'')])), w'))"

definition on_failed ::
    "'w client \<Rightarrow> int \<Rightarrow> int \<Rightarrow> PbEffect \<Rightarrow> SdkDispatchResult \<Rightarrow> (string \<times> json) list \<Rightarrow> 'w \<Rightarrow> (py_exn + json) \<times> 'w" where
  "on_failed cl max_attempts now cur r out w =
     (let attempts = pe_dispatch_attempts cur + 1
      in if attempts \<ge> max_attempts then
           and_then (cl_record_external_observation cl (pe_run_id cur) (pe_idempotency_key cur) EFFECT_RESOLUTION_FAILED
                       (JsonText (JObj [(''final'', JBool True), (''attempts'', JNum attempts), (''last'', JObj (sr_error r))])) w)
             (\<lambda>_ w'. (Inr (JObj (out @ [(''status'', JStr ''failed''), (''attempts'', JNum attempts)])), w'))
         else
           (case (if sr_retry_at_ms r \<noteq> 0 then Inr (sr_retry_at_ms r)
                  else map_sum id (\<lambda>bo. now + bo) (backoff_ms attempts)) of
              Inl over \<Rightarrow> (Inl over, w)
            | Inr next_at \<Rightarrow>
                and_then (cl_record_dispatch_attempt cl (pe_run_id cur) (pe_idempotency_key cur)
                            (JsonText (JObj (sr_error r))) next_at w)
                  (\<lambda>_ w'. (Inr (JObj (out @ [(''status'', JStr ''retry-scheduled''), (''next_at_ms'', JNum next_at),
                                           (''attempts'', JNum attempts)])), w'))))"

definition dispatch_one ::
    "(string \<times> 'w sdk_connector) list \<Rightarrow> 'v sdk_registry \<Rightarrow> 'w client \<Rightarrow> string \<Rightarrow> int \<Rightarrow> int \<Rightarrow> PbEffect \<Rightarrow> 'w \<Rightarrow>
     (py_exn + json) \<times> 'w" where
  "dispatch_one cs g cl claimer max_attempts now eff w =
     (let out = dispatch_out eff in
      case get_connector (pe_connector eff) cs of
        None \<Rightarrow> (Inr (JObj (out @ [(''status'', JStr ''skipped''),
                  (''reason'', JStr (''no connector registered: '' @ repr_str (pe_connector eff)))])), w)
      | Some connector \<Rightarrow>
          and_then (cl_claim_effect_dispatch cl (pe_run_id eff) (pe_idempotency_key eff) claimer w)
            (\<lambda>(acquired, cur) w1.
               if \<not> acquired then
                 (Inr (JObj (out @ [(''status'', JStr ''skipped''), (''reason'', JStr ''lease contended'')])), w1)
               else if pe_status cur \<noteq> EFFECT_STATUS_PENDING then
                 (Inr (JObj (out @ [(''status'', JStr ''skipped''),
                    (''reason'', JStr (''unexpected status after claim: '' @ int_str (pe_status cur)))])), w1)
               else
                 (case call_dispatch connector cur w1 of
                    (Inl ex, w2) \<Rightarrow> on_raise cl now cur ex out w2
                  | (Inr result, w2) \<Rightarrow>
                      if sr_status result = ''confirmed'' then on_confirmed g cl cur result out w2
                      else if sr_status result = ''unknown'' then on_unknown cl cur result out w2
                      else on_failed cl max_attempts now cur result out w2)))"

section \<open>One pass\<close>

definition pass_item ::
    "(string \<times> 'w sdk_connector) list \<Rightarrow> 'v sdk_registry \<Rightarrow> 'w client \<Rightarrow> string \<Rightarrow> int \<Rightarrow> int \<Rightarrow> PbEffect \<Rightarrow> 'w \<Rightarrow> json \<times> 'w" where
  "pass_item cs g cl claimer max_attempts now eff w =
     (case dispatch_one cs g cl claimer max_attempts now eff w of
        (Inr out, w') \<Rightarrow> (out, w')
      | (Inl ex, w') \<Rightarrow>
          (JObj [(''run_id'', JStr (pe_run_id eff)), (''idempotency_key'', JStr (pe_idempotency_key eff)),
                 (''status'', JStr ''error''), (''error'', JStr (exn_msg ex))], w'))"

fun pass_loop ::
    "(string \<times> 'w sdk_connector) list \<Rightarrow> 'v sdk_registry \<Rightarrow> 'w client \<Rightarrow> string \<Rightarrow> int \<Rightarrow> (nat \<Rightarrow> int) \<Rightarrow> nat \<Rightarrow>
     PbEffect list \<Rightarrow> 'w \<Rightarrow> json list \<times> 'w" where
  "pass_loop cs g cl claimer mx now i [] w = ([], w)"
| "pass_loop cs g cl claimer mx now i (e # es) w =
     (case pass_item cs g cl claimer mx (now i) e w of (out, w') \<Rightarrow>
        (case pass_loop cs g cl claimer mx now (Suc i) es w' of (outs, w'') \<Rightarrow> (out # outs, w'')))"

definition outbox_dispatch_once ::
    "(string \<times> 'w sdk_connector) list \<Rightarrow> 'v sdk_registry \<Rightarrow> 'w client \<Rightarrow> string \<Rightarrow> int \<Rightarrow> string \<Rightarrow> string \<Rightarrow> int \<Rightarrow>
     (nat \<Rightarrow> int) \<Rightarrow> 'w \<Rightarrow> (py_exn + json list) \<times> 'w" where
  "outbox_dispatch_once cs g cl connector limit claimer claimer_id mx now w =
     and_then (cl_list_effects_to_dispatch cl connector limit w)
       (\<lambda>effects w1. case pass_loop cs g cl (str_or claimer claimer_id) mx now 0 effects w1 of
          (outs, w2) \<Rightarrow> (Inr outs, w2))"

section \<open>Watching the calls\<close>

text \<open>Every call of the reactor, in order, with its arguments.\<close>

datatype act =
    ActList string int
  | ActClaim string string string
  | ActDispatch PbEffect
  | ActAttempt string string wire_text int
  | ActComplete string string int wire_text
  | ActObserve string string int wire_text
  | ActRegister string string string wire_text string int

definition watch_client :: "'w client \<Rightarrow> ('w \<times> act list) client" where
  "watch_client cl = \<lparr>
     cl_list_effects_to_dispatch = (\<lambda>c n. logged (ActList c n) (cl_list_effects_to_dispatch cl c n)),
     cl_claim_effect_dispatch = (\<lambda>r k c. logged (ActClaim r k c) (cl_claim_effect_dispatch cl r k c)),
     cl_record_dispatch_attempt = (\<lambda>r k e t. logged (ActAttempt r k e t) (cl_record_dispatch_attempt cl r k e t)),
     cl_complete_effect = (\<lambda>r k s t. logged (ActComplete r k s t) (cl_complete_effect cl r k s t)),
     cl_record_external_observation = (\<lambda>r k s t. logged (ActObserve r k s t) (cl_record_external_observation cl r k s t)),
     cl_register_compensation = (\<lambda>r k d t c m. logged (ActRegister r k d t c m) (cl_register_compensation cl r k d t c m))\<rparr>"

definition watch_connector :: "'w sdk_connector \<Rightarrow> ('w \<times> act list) sdk_connector" where
  "watch_connector c = \<lparr>sk_name = sk_name c, sk_dispatch = (\<lambda>e. logged (ActDispatch e) (sk_dispatch c e)),
     sk_observe = (\<lambda>e (w, l). case sk_observe c e w of (r, w') \<Rightarrow> (r, w', l))\<rparr>"

definition watch_connectors ::
    "(string \<times> 'w sdk_connector) list \<Rightarrow> (string \<times> ('w \<times> act list) sdk_connector) list" where
  "watch_connectors cs = map (\<lambda>(n, c). (n, watch_connector c)) cs"

definition is_dispatch :: "act \<Rightarrow> bool" where
  "is_dispatch a = (case a of ActDispatch _ \<Rightarrow> True | _ \<Rightarrow> False)"

text \<open>An outcome dict of an effect.\<close>

definition names_effect :: "PbEffect \<Rightarrow> json \<Rightarrow> bool" where
  "names_effect eff out = (case out of
     JObj ((k1, v1) # (k2, v2) # rest) \<Rightarrow> k1 = ''run_id'' \<and> v1 = JStr (pe_run_id eff) \<and>
       k2 = ''idempotency_key'' \<and> v2 = JStr (pe_idempotency_key eff)
   | _ \<Rightarrow> False)"

text \<open>
  What the reactor is meant to tell the server about an outcome of the counterparty call.
\<close>

definition settle_acts :: "'v sdk_registry \<Rightarrow> int \<Rightarrow> int \<Rightarrow> PbEffect \<Rightarrow> py_exn + SdkDispatchResult \<Rightarrow> act list" where
  "settle_acts g max_attempts now cur outcome =
     (let run = pe_run_id cur; key = pe_idempotency_key cur; n = pe_dispatch_attempts cur in
      case outcome of
        Inl ex \<Rightarrow>
          if pe_semantics cur = EFFECT_SEMANTICS_NON_IDEMPOTENT then [ActAttempt run key (raised_error ex) 0]
          else if n \<ge> 1024 then []
          else [ActAttempt run key (raised_error ex) (now + backoff_curve (nat n))]
      | Inr r \<Rightarrow>
          if sr_status r = ''confirmed'' then
            ActComplete run key EFFECT_STATUS_CONFIRMED (JsonText (result_payload r)) #
            (case get_tool_compensator (pe_tool_name cur) g of
               None \<Rightarrow> []
             | Some spec \<Rightarrow> [ActRegister run key (cs_kind spec) (JsonText (compensation_payload_for spec cur r))
                              (cs_compensator_ref spec) (cs_max_attempts spec)])
          else if sr_status r = ''unknown'' then
            [ActAttempt run key (JsonText (json_or (JObj (sr_error r)) (JObj [(''reason'', JStr ''ack lost'')]))) 0]
          else if n + 1 \<ge> max_attempts then
            [ActObserve run key EFFECT_RESOLUTION_FAILED
               (JsonText (JObj [(''final'', JBool True), (''attempts'', JNum (n + 1)), (''last'', JObj (sr_error r))]))]
          else if sr_retry_at_ms r = 0 \<and> n \<ge> 1024 then []
          else [ActAttempt run key (JsonText (JObj (sr_error r)))
                  (int_or (sr_retry_at_ms r) (now + backoff_curve (nat n)))])"

text \<open>The three shapes of a trace: no connector, no lease, or one call of the counterparty.\<close>

definition dispatch_trace ::
    "(string \<times> 'w sdk_connector) list \<Rightarrow> 'v sdk_registry \<Rightarrow> 'w client \<Rightarrow> string \<Rightarrow> int \<Rightarrow> int \<Rightarrow> PbEffect \<Rightarrow> 'w \<Rightarrow> act list \<Rightarrow> bool" where
  "dispatch_trace cs g cl claimer mx now eff w acts \<longleftrightarrow>
     (let claim = ActClaim (pe_run_id eff) (pe_idempotency_key eff) claimer in
      acts = [] \<and> get_connector (pe_connector eff) cs = None \<or>
      acts = [claim] \<or>
      (\<exists>c cur w1 outcome w2 rest.
         get_connector (pe_connector eff) cs = Some c \<and>
         cl_claim_effect_dispatch cl (pe_run_id eff) (pe_idempotency_key eff) claimer w = (Inr (True, cur), w1) \<and>
         pe_status cur = EFFECT_STATUS_PENDING \<and>
         sk_dispatch c cur w1 = (outcome, w2) \<and>
         acts = claim # ActDispatch cur # rest \<and>
         (rest = settle_acts g mx now cur outcome \<or> rest = take 1 (settle_acts g mx now cur outcome))))"

text \<open>A server that grants every call, over a queue of one effect, and two counterparties.\<close>

definition sample_wire :: PbEffect where
  "sample_wire = \<lparr>pe_run_id = ''run1'', pe_idempotency_key = ''key1'', pe_connector = ''bank'', pe_tool_name = ''pay'',
     pe_semantics = EFFECT_SEMANTICS_NON_IDEMPOTENT, pe_status = EFFECT_STATUS_PENDING, pe_dispatch_attempts = 0,
     pe_request_json = JsonText (JObj []), pe_business_key = ''invoice-7''\<rparr>"

definition granting_client :: "unit client" where
  "granting_client = \<lparr>cl_list_effects_to_dispatch = (\<lambda>c n w. (Inr [sample_wire], w)),
     cl_claim_effect_dispatch = (\<lambda>r k c w. (Inr (True, sample_wire), w)),
     cl_record_dispatch_attempt = (\<lambda>r k e t w. (Inr (), w)),
     cl_complete_effect = (\<lambda>r k s t w. (Inr (), w)),
     cl_record_external_observation = (\<lambda>r k s t w. (Inr (), w)),
     cl_register_compensation = (\<lambda>r k d t c m w. (Inr (), w))\<rparr>"

definition raising_bank :: "unit sdk_connector" where
  "raising_bank = \<lparr>sk_name = ''bank'', sk_dispatch = (\<lambda>e w. (Inl (PyExn ''Timeout'' ''no answer''), w)),
     sk_observe = (\<lambda>e w. (Inl (PyExn ''Timeout'' ''no answer''), w))\<rparr>"

definition paid :: SdkDispatchResult where
  "paid = \<lparr>sr_status = ''confirmed'', sr_external_ref = ''w-1'', sr_response = [], sr_error = [], sr_retry_at_ms = 0\<rparr>"

definition paying_bank :: "unit sdk_connector" where
  "paying_bank = \<lparr>sk_name = ''bank'', sk_dispatch = (\<lambda>e w. (Inr paid, w)),
     sk_observe = (\<lambda>e w. (Inr \<lparr>so_status = ''confirmed'', so_external_ref = ''w-1'', so_response = []\<rparr>, w))\<rparr>"

section \<open>The calls of one dispatch\<close>

lemma get_connector_watch [simp]:
  "get_connector n (watch_connectors cs) = map_option watch_connector (get_connector n cs)"
  by (induction cs) (auto simp: get_connector_def watch_connectors_def)

lemma backoff_ms_cases: "backoff_ms (n + 1) = (if n \<ge> 1024 then
    Inl (PyExn ''OverflowError'' ''int too large to convert to float'') else Inr (backoff_curve (nat n)))"
proof (cases "n \<ge> 0")
  case True
  then have "nat n \<ge> 1024 \<longleftrightarrow> n \<ge> 1024" by auto
  with True show ?thesis by (simp add: backoff_ms_def Let_def)
next
  case False
  then show ?thesis by (simp add: backoff_ms_def Let_def)
qed

lemmas watch_defs = watch_client_def watch_connector_def logged_run and_then_run

lemma on_raise_trace:
  "\<exists>res w'. on_raise (watch_client cl) now cur ex out (w, l) = (res, w', l @ settle_acts g mx now cur (Inl ex))"
  by (auto simp: on_raise_def settle_acts_def backoff_ms_cases watch_defs Let_def split: sum.splits)

lemma on_unknown_trace:
  "sr_status r = ''unknown'' \<Longrightarrow>
   \<exists>res w'. on_unknown (watch_client cl) cur r out (w, l) = (res, w', l @ settle_acts g mx now cur (Inr r))"
  by (auto simp: on_unknown_def settle_acts_def watch_defs Let_def split: sum.splits)

lemma on_failed_trace:
  "sr_status r \<noteq> ''confirmed'' \<Longrightarrow> sr_status r \<noteq> ''unknown'' \<Longrightarrow>
   \<exists>res w'. on_failed (watch_client cl) mx now cur r out (w, l) = (res, w', l @ settle_acts g mx now cur (Inr r))"
  by (auto simp: on_failed_def settle_acts_def backoff_ms_cases watch_defs Let_def int_or_def split: sum.splits)

lemma on_confirmed_trace:
  "sr_status r = ''confirmed'' \<Longrightarrow>
   \<exists>res w' rest. on_confirmed g (watch_client cl) cur r out (w, l) = (res, w', l @ rest) \<and>
     (rest = settle_acts g mx now cur (Inr r) \<or>
      (\<exists>ex. res = Inl ex) \<and> rest = take 1 (settle_acts g mx now cur (Inr r)))"
  by (auto simp: on_confirmed_def settle_acts_def watch_defs Let_def int_or_def split: sum.splits option.splits)

lemma on_confirmed_complete:
  "cl_complete_effect cl (pe_run_id cur) (pe_idempotency_key cur) EFFECT_STATUS_CONFIRMED
     (JsonText (result_payload r)) w = (Inr (), w3) \<Longrightarrow> sr_status r = ''confirmed'' \<Longrightarrow>
   \<exists>w'. on_confirmed g (watch_client cl) cur r out (w, l) =
     (Inr (JObj (out @ [(''status'', JStr ''confirmed''), (''external_ref'', JStr (sr_external_ref r))])), w',
      l @ settle_acts g mx now cur (Inr r))"
  by (auto simp: on_confirmed_def settle_acts_def watch_defs Let_def int_or_def split: option.splits)

lemma watch_claim [simp]: "cl_claim_effect_dispatch (watch_client cl) r k c =
    logged (ActClaim r k c) (cl_claim_effect_dispatch cl r k c)"
  by (simp add: watch_client_def)

lemma watch_dispatch [simp]: "call_dispatch (watch_connector c) e = logged (ActDispatch e) (sk_dispatch c e)"
  by (simp add: call_dispatch_def watch_connector_def fun_eq_iff)

lemma dispatch_claimed_run:
  assumes "get_connector (pe_connector eff) cs = Some c"
    and "cl_claim_effect_dispatch cl (pe_run_id eff) (pe_idempotency_key eff) claimer w = (Inr (True, cur), w1)"
    and "pe_status cur = EFFECT_STATUS_PENDING" and "sk_dispatch c cur w1 = (outcome, w2)"
  shows "dispatch_one (watch_connectors cs) g (watch_client cl) claimer mx now eff (w, l) =
    (let wl = (w2, l @ [ActClaim (pe_run_id eff) (pe_idempotency_key eff) claimer, ActDispatch cur]);
         out = dispatch_out eff
     in case outcome of
          Inl ex \<Rightarrow> on_raise (watch_client cl) now cur ex out wl
        | Inr r \<Rightarrow> if sr_status r = ''confirmed'' then on_confirmed g (watch_client cl) cur r out wl
                 else if sr_status r = ''unknown'' then on_unknown (watch_client cl) cur r out wl
                 else on_failed (watch_client cl) mx now cur r out wl)"
  using assms by (simp add: dispatch_one_def logged_def and_then_def Let_def split: sum.splits)

lemma dispatch_claimed_trace:
  assumes "get_connector (pe_connector eff) cs = Some c"
    and "cl_claim_effect_dispatch cl (pe_run_id eff) (pe_idempotency_key eff) claimer w = (Inr (True, cur), w1)"
    and "pe_status cur = EFFECT_STATUS_PENDING" and "sk_dispatch c cur w1 = (outcome, w2)"
  shows "\<exists>res w' rest. dispatch_one (watch_connectors cs) g (watch_client cl) claimer mx now eff (w, l) =
      (res, w', l @ ActClaim (pe_run_id eff) (pe_idempotency_key eff) claimer # ActDispatch cur # rest) \<and>
    (rest = settle_acts g mx now cur outcome \<or>
     (\<exists>ex. res = Inl ex) \<and> (\<exists>r. outcome = Inr r \<and> sr_status r = ''confirmed'') \<and>
       rest = take 1 (settle_acts g mx now cur outcome))"
proof -
  let ?l = "l @ [ActClaim (pe_run_id eff) (pe_idempotency_key eff) claimer, ActDispatch cur]"
  let ?out = "dispatch_out eff"
  note run = dispatch_claimed_run [OF assms, of g mx now l, unfolded Let_def]
  show ?thesis
  proof (cases outcome)
    case (Inl ex)
    with run on_raise_trace [of cl now cur ex ?out w2 ?l g mx] show ?thesis by auto
  next
    case (Inr r)
    consider "sr_status r = ''confirmed''" | "sr_status r = ''unknown''"
      | "sr_status r \<noteq> ''confirmed''" "sr_status r \<noteq> ''unknown''" by blast
    then show ?thesis
    proof cases
      case 1
      with run Inr on_confirmed_trace [OF 1, of g cl cur ?out w2 ?l mx now] show ?thesis by auto
    next
      case 2
      with run Inr on_unknown_trace [OF 2, of cl cur ?out w2 ?l g mx now] show ?thesis by auto
    next
      case 3
      with run Inr on_failed_trace [OF 3, of cl mx now cur ?out w2 ?l g] show ?thesis by auto
    qed
  qed
qed

lemma dispatch_unclaimed_trace:
  assumes "get_connector (pe_connector eff) cs = Some c"
    and "cl_claim_effect_dispatch cl (pe_run_id eff) (pe_idempotency_key eff) claimer w = (rep, w1)"
    and "\<forall>cur. rep = Inr (True, cur) \<longrightarrow> pe_status cur \<noteq> EFFECT_STATUS_PENDING"
  shows "\<exists>res w'. dispatch_one (watch_connectors cs) g (watch_client cl) claimer mx now eff (w, l) =
      (res, w', l @ [ActClaim (pe_run_id eff) (pe_idempotency_key eff) claimer])"
  using assms by (cases rep) (auto simp: dispatch_one_def logged_def and_then_def Let_def)

lemma dispatch_one_traced:
  "\<exists>res w' acts. dispatch_one (watch_connectors cs) g (watch_client cl) claimer mx now eff (w, l) = (res, w', l @ acts) \<and>
     dispatch_trace cs g cl claimer mx now eff w acts"
proof (cases "get_connector (pe_connector eff) cs")
  case None
  then show ?thesis by (auto simp: dispatch_one_def dispatch_trace_def Let_def)
next
  case (Some c)
  obtain rep w1 where claim: "cl_claim_effect_dispatch cl (pe_run_id eff) (pe_idempotency_key eff) claimer w = (rep, w1)"
    by fastforce
  show ?thesis
  proof (cases "\<exists>cur. rep = Inr (True, cur) \<and> pe_status cur = EFFECT_STATUS_PENDING")
    case True
    then obtain cur where cur: "rep = Inr (True, cur)" "pe_status cur = EFFECT_STATUS_PENDING" by blast
    obtain outcome w2 where out: "sk_dispatch c cur w1 = (outcome, w2)" by fastforce
    from dispatch_claimed_trace [OF Some claim [unfolded cur(1)] cur(2) out, of g mx now l] claim cur out Some
    show ?thesis unfolding dispatch_trace_def Let_def by (elim exE conjE) blast
  next
    case False
    with dispatch_unclaimed_trace [OF Some claim, of g mx now l] show ?thesis
      by (auto simp: dispatch_trace_def Let_def)
  qed
qed

lemma settle_no_dispatch: "filter is_dispatch (settle_acts g mx now cur outcome) = []"
  "filter is_dispatch (take (Suc 0) (settle_acts g mx now cur outcome)) = []"
  by (auto simp: settle_acts_def is_dispatch_def Let_def filter_empty_conv split: sum.splits option.splits act.splits)

lemma dispatch_trace_once: "dispatch_trace cs g cl claimer mx now eff w acts \<Longrightarrow> length (filter is_dispatch acts) \<le> 1"
  by (auto simp: dispatch_trace_def Let_def settle_no_dispatch) (auto simp: is_dispatch_def)

lemma names_out [simp]: "names_effect eff (JObj (dispatch_out eff @ rest))"
  by (simp add: names_effect_def dispatch_out_def)

lemma on_names:
  "on_raise cl now cur ex (dispatch_out eff) w = (Inr out, w') \<Longrightarrow> names_effect eff out"
  "on_confirmed g cl cur r (dispatch_out eff) w = (Inr out, w') \<Longrightarrow> names_effect eff out"
  "on_unknown cl cur r (dispatch_out eff) w = (Inr out, w') \<Longrightarrow> names_effect eff out"
  "on_failed cl mx now cur r (dispatch_out eff) w = (Inr out, w') \<Longrightarrow> names_effect eff out"
  by (auto simp: on_raise_def on_confirmed_def on_unknown_def on_failed_def and_then_run Let_def
      split: sum.splits if_splits)

lemma dispatch_one_names: "dispatch_one cs g cl claimer mx now eff w = (Inr out, w') \<Longrightarrow> names_effect eff out"
  by (auto simp: dispatch_one_def and_then_run Let_def dest: on_names split: option.splits sum.splits prod.splits if_splits)

lemma pass_item_names: "names_effect eff (fst (pass_item cs g cl claimer mx now eff w))"
  by (auto simp: pass_item_def names_effect_def [of _ "JObj (_ # _ # _)"] dest: dispatch_one_names split: prod.splits sum.splits)

lemma pass_loop_traced:
  "\<exists>outs w' acts. pass_loop (watch_connectors cs) g (watch_client cl) claimer mx now i es (w, l) = (outs, w', l @ acts) \<and>
     list_all2 names_effect es outs \<and> length (filter is_dispatch acts) \<le> length es"
proof (induction es arbitrary: i w l)
  case (Cons e es)
  obtain res w1 a1 where one: "dispatch_one (watch_connectors cs) g (watch_client cl) claimer mx (now i) e (w, l) =
      (res, w1, l @ a1)" and tr: "dispatch_trace cs g cl claimer mx (now i) e w a1"
    using dispatch_one_traced [of cs g cl claimer mx "now i" e w l] by auto
  obtain outs w2 a2 where rest: "pass_loop (watch_connectors cs) g (watch_client cl) claimer mx now (Suc i) es (w1, l @ a1) =
      (outs, w2, (l @ a1) @ a2)" and len: "list_all2 names_effect es outs" and cnt: "length (filter is_dispatch a2) \<le> length es"
    using Cons.IH by blast
  obtain out where "pass_item (watch_connectors cs) g (watch_client cl) claimer mx (now i) e (w, l) = (out, w1, l @ a1)"
    using one by (cases res) (auto simp: pass_item_def)
  moreover from this have "names_effect e out"
    using pass_item_names [of e "watch_connectors cs" g "watch_client cl" claimer mx "now i" "(w, l)"] by simp
  ultimately have "pass_loop (watch_connectors cs) g (watch_client cl) claimer mx now i (e # es) (w, l) =
      (out # outs, w2, l @ a1 @ a2) \<and> list_all2 names_effect (e # es) (out # outs)"
    using rest len by simp
  with cnt dispatch_trace_once [OF tr] show ?case
    by (intro exI [of _ "out # outs"] exI [of _ w2] exI [of _ "a1 @ a2"]) auto
qed simp

subsection \<open>Backoff\<close>

interpretation outbox_retry: capped_backoff backoff_curve 1000 60000
  by unfold_locales (auto simp: backoff_curve_def min_def)

section \<open>Properties\<close>


text \<open>
  C9. No blind retry: when the call of a non-idempotent effect raises or its outcome is
  unknown, the reactor reports one attempt with no retry time, which hands the effect to
  the reconciler, and calls the counterparty no further.
\<close>

theorem outbox_no_blind_retry:
  assumes "get_connector (pe_connector eff) cs = Some c"
    and "cl_claim_effect_dispatch cl (pe_run_id eff) (pe_idempotency_key eff) claimer w = (Inr (True, cur), w1)"
    and "pe_status cur = EFFECT_STATUS_PENDING" and "sk_dispatch c cur w1 = (outcome, w2)"
    and "pe_semantics cur = EFFECT_SEMANTICS_NON_IDEMPOTENT"
    and "(\<exists>ex. outcome = Inl ex) \<or> (\<exists>r. outcome = Inr r \<and> sr_status r = ''unknown'')"
  shows "\<exists>res w' err. dispatch_one (watch_connectors cs) g (watch_client cl) claimer mx now eff (w, []) =
     (res, w', [ActClaim (pe_run_id eff) (pe_idempotency_key eff) claimer, ActDispatch cur,
                ActAttempt (pe_run_id cur) (pe_idempotency_key cur) err 0])"
proof -
  have "\<exists>err. settle_acts g mx now cur outcome = [ActAttempt (pe_run_id cur) (pe_idempotency_key cur) err 0]"
    using assms(5,6) by (auto simp: settle_acts_def Let_def)
  moreover have "\<nexists>r. outcome = Inr r \<and> sr_status r = ''confirmed''" using assms(6) by auto
  ultimately show ?thesis using dispatch_claimed_trace [OF assms(1-4), of g mx now "[]"] by auto
qed

theorem outbox_no_blind_retry_witness:
  "\<exists>res w' err. dispatch_one (watch_connectors [(''bank'', raising_bank)]) (no_registry :: unit sdk_registry)
      (watch_client granting_client) ''me'' 5 1000 sample_wire ((), []) =
    (res, w', [ActClaim ''run1'' ''key1'' ''me'', ActDispatch sample_wire, ActAttempt ''run1'' ''key1'' err 0])"
proof -
  have "get_connector (pe_connector sample_wire) [(''bank'', raising_bank)] = Some raising_bank"
    by (simp add: get_connector_def sample_wire_def)
  from outbox_no_blind_retry [OF this, of granting_client "''me''" "()" sample_wire "()"
      "Inl (PyExn ''Timeout'' ''no answer'')" "()" "no_registry :: unit sdk_registry" 5 1000]
  show ?thesis by (simp add: granting_client_def raising_bank_def) (simp add: sample_wire_def)
qed

text \<open>
  A pass over the queue never fails on an effect: it yields one outcome per listed
  effect, in the order of the list, and calls the counterparties at most once per effect.
\<close>

lemma outbox_pass_total:
  assumes "cl_list_effects_to_dispatch cl connector limit w = (Inr effects, w1)"
  shows "\<exists>outs w' acts. outbox_dispatch_once (watch_connectors cs) g (watch_client cl) connector limit claimer cid mx now (w, []) =
      (Inr outs, w', ActList connector limit # acts) \<and>
    list_all2 names_effect effects outs \<and> length (filter is_dispatch acts) \<le> length effects"
  using assms pass_loop_traced [of cs g cl "str_or claimer cid" mx now 0 effects w1 "[ActList connector limit]"]
  by (auto simp: outbox_dispatch_once_def watch_client_def and_then_def logged_def)

text \<open>
  C25. The rollback of a confirmed outbox effect is always registered: for a tool decorated
  with a compensator, a confirmed call whose completion the server accepted is followed by
  the registration of an obligation of the compensator's kind, with the reference and the
  attempt limit of the decoration.
\<close>

theorem confirmed_outbox_registers_compensation:
  assumes "sdk_effect a (Some n) g0 = Inr (m, g)" and "a_compensate a = Some f" and "n \<noteq> []"
    and claim: "get_connector (pe_connector eff) cs = Some c"
      "cl_claim_effect_dispatch cl (pe_run_id eff) (pe_idempotency_key eff) claimer w = (Inr (True, cur), w1)"
      "pe_status cur = EFFECT_STATUS_PENDING" "sk_dispatch c cur w1 = (Inr r, w2)"
    and "pe_tool_name cur = n" and "sr_status r = ''confirmed''"
    and "cl_complete_effect cl (pe_run_id cur) (pe_idempotency_key cur) EFFECT_STATUS_CONFIRMED
           (JsonText (result_payload r)) w2 = (Inr (), w3)"
  shows "\<exists>out w' payload. dispatch_one (watch_connectors cs) g (watch_client cl) claimer mx now eff (w, []) =
    (Inr out, w', [ActClaim (pe_run_id eff) (pe_idempotency_key eff) claimer, ActDispatch cur,
       ActComplete (pe_run_id cur) (pe_idempotency_key cur) EFFECT_STATUS_CONFIRMED (JsonText (result_payload r)),
       ActRegister (pe_run_id cur) (pe_idempotency_key cur) (str_default (fn_name f) ''compensate'') payload
         (compensator_ref_of f) (a_max_attempts a)])"
proof -
  have "g = deco_registers a (Some n) g0" using assms(1) by (auto simp: sdk_effect_def split: sum.splits)
  then have "get_tool_compensator (pe_tool_name cur) g = Some \<lparr>cs_kind = str_default (fn_name f) ''compensate'',
      cs_fn = f, cs_compensator_ref = compensator_ref_of f, cs_max_attempts = a_max_attempts a,
      cs_payload = a_compensation_payload a\<rparr>"
    using assms(2,3,8) by (simp add: deco_registers_compensator)
  then have "\<exists>payload. settle_acts g mx now cur (Inr r) =
      [ActComplete (pe_run_id cur) (pe_idempotency_key cur) EFFECT_STATUS_CONFIRMED (JsonText (result_payload r)),
       ActRegister (pe_run_id cur) (pe_idempotency_key cur) (str_default (fn_name f) ''compensate'') payload
         (compensator_ref_of f) (a_max_attempts a)]"
    using assms(9) by (auto simp: settle_acts_def Let_def)
  then show ?thesis
    using on_confirmed_complete [OF assms(10,9), of g "dispatch_out eff"
        "[ActClaim (pe_run_id eff) (pe_idempotency_key eff) claimer, ActDispatch cur]" mx now] assms(9)
    by (auto simp: dispatch_claimed_run [OF claim] Let_def)
qed

theorem confirmed_outbox_registers_compensation_witness:
  "let undo = \<lparr>fn_module = Some ''bank'', fn_qualname = Some ''undo'', fn_name = Some ''undo''\<rparr>;
       a = effect_defaults\<lparr>a_dispatch := ''outbox'', a_connector := ''bank'', a_compensate := Some undo\<rparr> :: unit effect_args
   in \<exists>m g out w' payload. sdk_effect a (Some ''pay'') no_registry = Inr (m, g) \<and>
        dispatch_one (watch_connectors [(''bank'', paying_bank)]) g (watch_client granting_client) ''me'' 5 1000 sample_wire ((), []) =
          (Inr out, w', [ActClaim ''run1'' ''key1'' ''me'', ActDispatch sample_wire,
             ActComplete ''run1'' ''key1'' EFFECT_STATUS_CONFIRMED (JsonText (result_payload paid)),
             ActRegister ''run1'' ''key1'' ''undo'' payload ''bank:undo'' 0])"
proof -
  let ?undo = "\<lparr>fn_module = Some ''bank'', fn_qualname = Some ''undo'', fn_name = Some ''undo''\<rparr>"
  let ?a = "effect_defaults\<lparr>a_dispatch := ''outbox'', a_connector := ''bank'', a_compensate := Some ?undo\<rparr> :: unit effect_args"
  obtain m g where deco: "sdk_effect ?a (Some ''pay'') no_registry = Inr (m, g)"
    by (simp add: sdk_effect_def effect_check_def validate_semantics_def SEMANTICS_def DISPATCH_def effect_defaults_def)
  have conn: "get_connector (pe_connector sample_wire) [(''bank'', paying_bank)] = Some paying_bank"
    by (simp add: get_connector_def sample_wire_def)
  have "compensator_ref_of ?undo = ''bank:undo''" by code_simp
  then show ?thesis
    using deco confirmed_outbox_registers_compensation [OF deco _ _ conn, of ?undo granting_client "''me''" "()" sample_wire
        "()" paid "()" "()" 5 1000]
    by (simp add: granting_client_def paying_bank_def str_default_def Let_def)
       (simp add: sample_wire_def paid_def effect_defaults_def)
qed

text \<open>
  The retries of a raising connector are not bounded by \<open>dispatch_max_attempts\<close>, and from
  the 1024th recorded attempt on the delay cannot be computed any more: the attempt is then
  no longer recorded either.
\<close>

lemma raising_connector_never_exhausts:
  assumes "get_connector (pe_connector eff) cs = Some c"
    and "cl_claim_effect_dispatch cl (pe_run_id eff) (pe_idempotency_key eff) claimer w = (Inr (True, cur), w1)"
    and "pe_status cur = EFFECT_STATUS_PENDING" and "sk_dispatch c cur w1 = (Inl ex, w2)"
    and "pe_semantics cur \<noteq> EFFECT_SEMANTICS_NON_IDEMPOTENT"
  shows "\<exists>res w'. dispatch_one (watch_connectors cs) g (watch_client cl) claimer mx now eff (w, []) =
     (res, w', [ActClaim (pe_run_id eff) (pe_idempotency_key eff) claimer, ActDispatch cur] @
        (if pe_dispatch_attempts cur \<ge> 1024 then []
         else [ActAttempt (pe_run_id cur) (pe_idempotency_key cur) (raised_error ex)
                 (now + backoff_curve (nat (pe_dispatch_attempts cur)))]))"
  using dispatch_claimed_trace [OF assms(1-4), of g mx now "[]"] assms(5)
  by (auto simp: settle_acts_def Let_def)

end
