(* ===== verification/SdkPlugin.thy ===== *)
theory SdkPlugin
  imports SdkIdentity SdkOutbox "HOL-Library.List_Lexorder" "HOL-Library.Char_ord"
begin

text \<open>
  The ADK adapter of the gRPC SDK (\<open>adk/plugin.py\<close>): the callbacks that turn a runner's model
  and tool calls into a journal.

  The server is another process; its calls are the fields of \<open>plugin_client\<close>, each of which
  returns its reply or raises and changes the world. \<open>begin_effect\<close> is the one call whose
  exceptions the code tells apart: an \<open>RpcError\<close> carries a status code and its details. ADK's
  model responses are of a type \<open>'r\<close>, parsed and printed by parameters. The session state a
  tool context writes to is a map of slots, or \<open>None\<close> where accessing it raises; it outlives
  a call. A callback returns \<open>None\<close> to let the framework go on with the model or the tool
  and a value to replace it, so a JSON \<open>null\<close> is \<open>None\<close> here, as it is in Python.
\<close>

section \<open>Data\<close>

definition RUN_STATUS_RUNNABLE :: int where
  "RUN_STATUS_RUNNABLE = 1"

definition RUN_STATUS_RUNNING :: int where
  "RUN_STATUS_RUNNING = 2"

definition RUN_STATUS_TERMINAL :: int where
  "RUN_STATUS_TERMINAL = 4"

definition RUN_STATUS_CANCELLED :: int where
  "RUN_STATUS_CANCELLED = 8"

datatype begin_exn = RpcError "string option" string string | OtherError string

text \<open>\<open>str(ex)\<close>\<close>

definition begin_exn_str :: "begin_exn \<Rightarrow> string" where
  "begin_exn_str ex = (case ex of RpcError code details s \<Rightarrow> s | OtherError s \<Rightarrow> s)"

record begin_run_request =
  brq_app_name :: string
  brq_user_id :: string
  brq_session_id :: string
  brq_invocation_id :: string
  brq_lease_owner :: string
  brq_lease_ttl_ms :: int
  brq_identity :: RunIdentity

record begin_effect_request =
  beq_run_id :: string
  beq_decision_index :: int
  beq_tool_name :: string
  beq_call_index :: int
  beq_request_json :: wire_text
  beq_custom_key :: string
  beq_semantics :: int
  beq_dispatch_mode :: int
  beq_business_key :: string
  beq_connector :: string
  beq_scope :: string

record begin_effect_reply =
  ber_idempotency_key :: string
  ber_status :: int
  ber_response_json :: wire_text

record 'w plugin_client =
  pc_begin_run :: "begin_run_request \<Rightarrow> 'w \<Rightarrow> (py_exn + string \<times> bool) \<times> 'w"
  pc_get_run :: "string \<Rightarrow> 'w \<Rightarrow> (py_exn + int \<times> string list) \<times> 'w"
  pc_end_run :: "string \<Rightarrow> int \<Rightarrow> 'w \<Rightarrow> (py_exn + unit) \<times> 'w"
  pc_set_budget :: "string \<Rightarrow> rat \<Rightarrow> int \<Rightarrow> 'w \<Rightarrow> (py_exn + unit) \<times> 'w"
  pc_admit_budget :: "string \<Rightarrow> 'w \<Rightarrow> (py_exn + bool \<times> string) \<times> 'w"
  pc_charge_budget :: "string \<Rightarrow> int \<Rightarrow> 'w \<Rightarrow> (py_exn + unit) \<times> 'w"
  pc_get_decision :: "string \<Rightarrow> int \<Rightarrow> 'w \<Rightarrow> (py_exn + bool \<times> wire_text) \<times> 'w"
  pc_record_decision :: "string \<Rightarrow> int \<Rightarrow> string \<Rightarrow> wire_text \<Rightarrow> string \<Rightarrow> 'w \<Rightarrow> (py_exn + unit) \<times> 'w"
  pc_begin_effect :: "begin_effect_request \<Rightarrow> 'w \<Rightarrow> (begin_exn + begin_effect_reply) \<times> 'w"
  pc_get_effect_ref :: "string \<Rightarrow> string \<Rightarrow> 'w \<Rightarrow> (py_exn + bool \<times> string) \<times> 'w"
  pc_complete_effect :: "string \<Rightarrow> string \<Rightarrow> int \<Rightarrow> wire_text \<Rightarrow> wire_text \<Rightarrow> 'w \<Rightarrow> (py_exn + unit) \<times> 'w"
  pc_register_compensation :: "string \<Rightarrow> string \<Rightarrow> string \<Rightarrow> wire_text \<Rightarrow> string \<Rightarrow> int \<Rightarrow> 'w \<Rightarrow> (py_exn + unit) \<times> 'w"

text \<open>The plugin object: its configuration, and its bookkeeping per invocation and per run.\<close>

record TapePlugin =
  tp_budget :: "Budget option"
  tp_owner :: string
  tp_lease_ttl_ms :: int
  tp_check_cancel :: bool
  tp_cancel_check_interval_s :: rat
  tp_identity :: RunIdentity
  tp_last_cancel_check :: "string option \<rightharpoonup> rat"
  tp_run :: "string option \<rightharpoonup> string"
  tp_dnext :: "string option \<rightharpoonup> int"
  tp_dlast :: "string option \<rightharpoonup> int"
  tp_tcount :: "string option \<times> int \<times> string \<rightharpoonup> int"
  tp_has_budget :: "string \<Rightarrow> bool"
  tp_run_scopes :: "string \<rightharpoonup> string list"

record adk_invocation =
  iv_app_name :: string
  iv_user_id :: string
  iv_session_id :: string
  iv_invocation_id :: string
  iv_budget_entry :: budget_entry

type_synonym session_state = "(string \<rightharpoonup> json) option"

record tool_ctx =
  tc_invocation_id :: "string option"
  tc_function_call_id :: "string option"

definition map_default :: "('k \<rightharpoonup> 'v) \<Rightarrow> 'k \<Rightarrow> 'v \<Rightarrow> 'v" where
  "map_default m k d = (case m k of Some v \<Rightarrow> v | None \<Rightarrow> d)"

text \<open>A value returned from a callback.\<close>

definition callback_value :: "json \<Rightarrow> json option" where
  "callback_value v = (if v = JNull then None else Some v)"

definition default_lease_ms :: "(string \<rightharpoonup> string) \<Rightarrow> int" where
  "default_lease_ms e = (case py_int (map_default e ''TAPE_LEASE_MS'' ''120000'') of Some n \<Rightarrow> n | None \<Rightarrow> 120000)"

section \<open>The run\<close>

definition resolve_budget :: "TapePlugin \<Rightarrow> adk_invocation \<Rightarrow> Budget option" where
  "resolve_budget p iv =
     (case budget_from_run_config (iv_budget_entry iv) of Some b \<Rightarrow> Some b | None \<Rightarrow> tp_budget p)"

text \<open>\<open>_count_decisions\<close> with \<open>fuel\<close> decisions left below its cap.\<close>

fun count_from :: "'w plugin_client \<Rightarrow> string \<Rightarrow> nat \<Rightarrow> int \<Rightarrow> 'w \<Rightarrow> int \<times> 'w" where
  "count_from cl run_id 0 n w = (n, w)"
| "count_from cl run_id (Suc fuel) n w =
     (case pc_get_decision cl run_id n w of
        (Inl ex, w') \<Rightarrow> (n, w')
      | (Inr (found, resp), w') \<Rightarrow> if \<not> found then (n, w') else count_from cl run_id fuel (n + 1) w')"

definition count_decisions :: "'w plugin_client \<Rightarrow> string \<Rightarrow> nat \<Rightarrow> 'w \<Rightarrow> int \<times> 'w" where
  "count_decisions cl run_id hard_cap w = count_from cl run_id hard_cap 0 w"

definition resumed_scopes :: "'w plugin_client \<Rightarrow> TapePlugin \<Rightarrow> string \<Rightarrow> 'w \<Rightarrow> string list \<times> 'w" where
  "resumed_scopes cl p run_id w =
     (case pc_get_run cl run_id w of
        (Inr (status, scopes), w') \<Rightarrow> (remdups scopes, w')
      | (Inl ex, w') \<Rightarrow> (remdups (ri_scopes (tp_identity p)), w'))"

definition sdk_before_run_callback ::
    "'w plugin_client \<Rightarrow> nat \<Rightarrow> adk_invocation \<Rightarrow> TapePlugin \<Rightarrow> 'w \<Rightarrow> (py_exn + unit) \<times> TapePlugin \<times> 'w" where
  "sdk_before_run_callback cl hard_cap iv p w =
     (let invk = Some (iv_invocation_id iv) in
      case pc_begin_run cl \<lparr>brq_app_name = iv_app_name iv, brq_user_id = iv_user_id iv, brq_session_id = iv_session_id iv,
             brq_invocation_id = iv_invocation_id iv, brq_lease_owner = tp_owner p,
             brq_lease_ttl_ms = tp_lease_ttl_ms p, brq_identity = tp_identity p\<rparr> w of
        (Inl ex, w1) \<Rightarrow> (Inl ex, p, w1)
      | (Inr (run_id, resumed), w1) \<Rightarrow>
          (let p1 = p\<lparr>tp_run := (tp_run p)(invk \<mapsto> run_id)\<rparr> in
           case (if resumed then count_decisions cl run_id hard_cap w1 else (0, w1)) of (n, w2) \<Rightarrow>
           case (if resumed then resumed_scopes cl p run_id w2 else (remdups (ri_scopes (tp_identity p)), w2)) of (scopes, w3) \<Rightarrow>
           (let p2 = p1\<lparr>tp_dnext := (tp_dnext p1)(invk \<mapsto> n), tp_run_scopes := (tp_run_scopes p1)(run_id \<mapsto> scopes)\<rparr> in
            case resolve_budget p iv of
              None \<Rightarrow> (Inr (), p2, w3)
            | Some b \<Rightarrow>
                if bg_usd_cap b > 0 \<or> bg_token_cap b > 0 then
                  (case pc_set_budget cl run_id (bg_usd_cap b) (bg_token_cap b) w3 of
                     (Inl ex, w4) \<Rightarrow> (Inl ex, p2, w4)
                   | (Inr _, w4) \<Rightarrow> (Inr (), p2\<lparr>tp_has_budget := (tp_has_budget p2)(run_id := True)\<rparr>, w4))
                else (Inr (), p2, w3))))"

text \<open>The calls of \<open>after_run_callback\<close>; every exception is dropped.\<close>

definition close_run :: "'w plugin_client \<Rightarrow> string \<Rightarrow> 'w \<Rightarrow> 'w" where
  "close_run cl run_id w =
     (case pc_get_run cl run_id w of
        (Inl ex, w1) \<Rightarrow> w1
      | (Inr (status, scopes), w1) \<Rightarrow>
          if status = RUN_STATUS_RUNNING \<or> status = RUN_STATUS_RUNNABLE
          then snd (pc_end_run cl run_id RUN_STATUS_TERMINAL w1) else w1)"

definition drop_invocation :: "string option \<Rightarrow> TapePlugin \<Rightarrow> TapePlugin" where
  "drop_invocation invk p = p\<lparr>tp_run := (tp_run p)(invk := None), tp_dnext := (tp_dnext p)(invk := None),
     tp_dlast := (tp_dlast p)(invk := None),
     tp_tcount := (\<lambda>k. if fst k = invk then None else tp_tcount p k)\<rparr>"

text \<open>\<open>self._run.get(inv)\<close> where the code tests its truth.\<close>

definition run_of :: "TapePlugin \<Rightarrow> string option \<Rightarrow> string option" where
  "run_of p invk = str_or_none (tp_run p invk)"

definition sdk_after_run_callback :: "'w plugin_client \<Rightarrow> adk_invocation \<Rightarrow> TapePlugin \<Rightarrow> 'w \<Rightarrow> TapePlugin \<times> 'w" where
  "sdk_after_run_callback cl iv p w =
     (let invk = Some (iv_invocation_id iv) in
      case run_of p invk of
        Some run_id \<Rightarrow>
          (drop_invocation invk (p\<lparr>tp_run_scopes := (tp_run_scopes p)(run_id := None)\<rparr>), close_run cl run_id w)
      | None \<Rightarrow> (drop_invocation invk p, w))"

section \<open>Model calls\<close>

datatype 'r model_verdict = CallModel | Refuse string | ReplayResponse 'r

definition should_check_cancel :: "string option \<Rightarrow> rat \<Rightarrow> TapePlugin \<Rightarrow> bool \<times> TapePlugin" where
  "should_check_cancel invk now p =
     (if invk = None then (False, p)
      else if now - map_default (tp_last_cancel_check p) invk 0 < tp_cancel_check_interval_s p then (False, p)
      else (True, p\<lparr>tp_last_cancel_check := (tp_last_cancel_check p)(invk \<mapsto> now)\<rparr>))"

definition cancel_seen :: "'w plugin_client \<Rightarrow> string \<Rightarrow> 'w \<Rightarrow> bool \<times> 'w" where
  "cancel_seen cl run_id w =
     (case pc_get_run cl run_id w of
        (Inl ex, w1) \<Rightarrow> (False, w1)
      | (Inr (status, scopes), w1) \<Rightarrow> (status = RUN_STATUS_CANCELLED, w1))"

definition admit ::
    "'w plugin_client \<Rightarrow> TapePlugin \<Rightarrow> string \<Rightarrow> 'w \<Rightarrow> (py_exn + bool \<times> string) \<times> 'w" where
  "admit cl p run_id w = (if tp_has_budget p run_id then pc_admit_budget cl run_id w else (Inr (True, []), w))"

definition recorded_response ::
    "'w plugin_client \<Rightarrow> (wire_text \<Rightarrow> 'r option) \<Rightarrow> string \<Rightarrow> int \<Rightarrow> 'w \<Rightarrow> 'r model_verdict \<times> 'w" where
  "recorded_response cl validate run_id idx w =
     (case pc_get_decision cl run_id idx w of
        (Inl ex, w1) \<Rightarrow> (CallModel, w1)
      | (Inr (found, text), w1) \<Rightarrow>
          if found then (case validate text of Some r \<Rightarrow> (ReplayResponse r, w1) | None \<Rightarrow> (CallModel, w1))
          else (CallModel, w1))"

definition sdk_next_decision :: "string option \<Rightarrow> TapePlugin \<Rightarrow> int \<times> TapePlugin" where
  "sdk_next_decision invk p =
     (let idx = map_default (tp_dnext p) invk 0
      in (idx, p\<lparr>tp_dnext := (tp_dnext p)(invk \<mapsto> idx + 1), tp_dlast := (tp_dlast p)(invk \<mapsto> idx)\<rparr>))"

definition before_model_callback ::
    "'w plugin_client \<Rightarrow> (wire_text \<Rightarrow> 'r option) \<Rightarrow> rat \<Rightarrow> string option \<Rightarrow> TapePlugin \<Rightarrow> 'w \<Rightarrow>
     (py_exn + 'r model_verdict) \<times> TapePlugin \<times> 'w" where
  "before_model_callback cl validate now invk p w =
     (case run_of p invk of
        None \<Rightarrow> (Inr CallModel, p, w)
      | Some run_id \<Rightarrow>
          (case sdk_next_decision invk p of (idx, p1) \<Rightarrow>
           case (if tp_check_cancel p1 then should_check_cancel invk now p1 else (False, p1)) of (chk, p2) \<Rightarrow>
           case (if chk then cancel_seen cl run_id w else (False, w)) of (cancelled, w1) \<Rightarrow>
             if cancelled then (Inr (Refuse ''run cancelled''), p2, w1)
             else (case admit cl p2 run_id w1 of
                     (Inl ex, w2) \<Rightarrow> (Inl ex, p2, w2)
                   | (Inr (admitted, reason), w2) \<Rightarrow>
                       if \<not> admitted then (Inr (Refuse (str_or reason ''budget exhausted'')), p2, w2)
                       else (case recorded_response cl validate run_id idx w2 of (v, w3) \<Rightarrow> (Inr v, p2, w3)))))"

record 'r llm_response =
  lr_response :: 'r
  lr_model_version :: string
  lr_total_tokens :: int

definition policy_version_of :: "session_state \<Rightarrow> string" where
  "policy_version_of st = (case st of None \<Rightarrow> [] | Some m \<Rightarrow>
     py_str (json_or (map_default m ''policy_version'' (JStr [])) (JStr [])))"

definition sdk_after_model_callback ::
    "'w plugin_client \<Rightarrow> ('r \<Rightarrow> wire_text) \<Rightarrow> string option \<Rightarrow> session_state \<Rightarrow> 'r llm_response \<Rightarrow> TapePlugin \<Rightarrow> 'w \<Rightarrow> 'w" where
  "sdk_after_model_callback cl dump invk st resp p w =
     (case run_of p invk of
        None \<Rightarrow> w
      | Some run_id \<Rightarrow>
          (case tp_dlast p invk of
             None \<Rightarrow> w
           | Some idx \<Rightarrow>
               (let w1 = snd (pc_record_decision cl run_id idx (lr_model_version resp) (dump (lr_response resp))
                                (policy_version_of st) w)
                in if tp_has_budget p run_id \<and> lr_total_tokens resp \<noteq> 0
                   then snd (pc_charge_budget cl run_id (lr_total_tokens resp) w1) else w1)))"

section \<open>Tool calls\<close>

text \<open>\<open>effect_meta_of(tool) or {}\<close>, an absent entry reading as its default.\<close>

definition tool_meta :: "'v adk_tool \<Rightarrow> 'v effect_meta" where
  "tool_meta t = (case effect_meta_of t of Some m \<Rightarrow> m | None \<Rightarrow> meta_of_args effect_defaults)"

definition custom_key_of :: "'v effect_meta \<Rightarrow> string \<Rightarrow> tool_ctx \<Rightarrow> (string \<times> json) list \<Rightarrow> string" where
  "custom_key_of m run_id ctx args =
     (let k0 = (if truthy_str (tc_function_call_id ctx) then run_id @ ''/fc-'' @ the (tc_function_call_id ctx) else [])
      in case em_key_from m of
           None \<Rightarrow> k0
         | Some f \<Rightarrow> (case f (JObj args) of Inl ex \<Rightarrow> k0 | Inr v \<Rightarrow> str_or (py_str (json_or v (JStr []))) k0))"

definition scope_denied_msg :: "string \<Rightarrow> string \<Rightarrow> string list \<Rightarrow> string" where
  "scope_denied_msg scope tool granted = ''tape: effect '' @ repr_str tool @ '' requires scope '' @ repr_str scope @
     '', not granted to run (granted=['' @ join_with '', '' (map repr_str granted) @ ''])''"

definition error_result :: "string \<Rightarrow> json" where
  "error_result msg = JObj [(''error'', JStr msg)]"

definition denied_result :: "string \<Rightarrow> string \<Rightarrow> string \<Rightarrow> json" where
  "denied_result msg scope tool = JObj [(''error'', JStr msg), (''scope_denied'', JBool True),
     (''required_scope'', JStr scope), (''tool'', JStr tool)]"

text \<open>The body must not run without a journaled intent.\<close>

definition must_journal :: "'v effect_meta \<Rightarrow> bool" where
  "must_journal m \<longleftrightarrow> str_or (em_semantics m) ''idempotent'' = ''non_idempotent'' \<or> str_or (em_dispatch m) ''inline'' = ''outbox''"

definition begin_failed :: "'v effect_meta \<Rightarrow> string \<Rightarrow> begin_exn \<Rightarrow> json option" where
  "begin_failed m tname ex =
     (let refused = (if must_journal m then Some (error_result (''tape: begin_effect refused: '' @ begin_exn_str ex)) else None)
      in case ex of
           RpcError code details s \<Rightarrow>
             if code = Some ''PERMISSION_DENIED''
             then Some (denied_result (''tape: begin_effect denied: '' @ details) (em_scope m) tname)
             else refused
         | OtherError s \<Rightarrow> refused)"

definition set_slots :: "(string \<times> json) list \<Rightarrow> session_state \<Rightarrow> session_state" where
  "set_slots kvs st = map_option (\<lambda>m. fold (\<lambda>(k, v) m. m(k \<mapsto> v)) kvs m) st"

definition accepted_marker :: "string \<Rightarrow> string \<Rightarrow> string \<Rightarrow> json" where
  "accepted_marker key connector bk = JObj [(''tape_status'', JStr ''accepted''), (''effect_key'', JStr key),
     (''dispatch_mode'', JStr ''outbox''), (''connector'', JStr connector), (''business_key'', JStr bk)]"

definition surface_external_ref ::
    "'w plugin_client \<Rightarrow> string \<Rightarrow> string \<Rightarrow> session_state \<Rightarrow> 'w \<Rightarrow> session_state \<times> 'w" where
  "surface_external_ref cl run_id key st w =
     (case pc_get_effect_ref cl run_id key w of
        (Inl ex, w1) \<Rightarrow> (st, w1)
      | (Inr (found, ref), w1) \<Rightarrow>
          if found \<and> ref \<noteq> [] then (set_slots [(''temp:_tape_external_ref'', JStr ref)] st, w1) else (st, w1))"

definition begun ::
    "'w plugin_client \<Rightarrow> 'v effect_meta \<Rightarrow> string \<Rightarrow> string \<Rightarrow> begin_effect_reply \<Rightarrow> session_state \<Rightarrow> 'w \<Rightarrow>
     json option \<times> session_state \<times> 'w" where
  "begun cl m run_id bk resp st w =
     (let st1 = set_slots [(''temp:_tape_idempotency_key'', JStr (ber_idempotency_key resp)), (''temp:_tape_run_id'', JStr run_id),
                  (''temp:_tape_business_key'', JStr bk), (''temp:_tape_effect_semantics'', JStr (str_or (em_semantics m) ''idempotent''))] st
      in if ber_status resp = EFFECT_STATUS_CONFIRMED then
           ((case ber_response_json resp of JsonText v \<Rightarrow> callback_value v | PlainText _ \<Rightarrow> Some (JObj [])), st1, w)
         else if str_or (em_dispatch m) ''inline'' = ''outbox'' \<and> ber_status resp = EFFECT_STATUS_PENDING then
           (case surface_external_ref cl run_id (ber_idempotency_key resp) st1 w of (st2, w1) \<Rightarrow>
              (Some (accepted_marker (ber_idempotency_key resp) (em_connector m) bk), st2, w1))
         else (None, st1, w))"

definition begin_request ::
    "'v effect_meta \<Rightarrow> string \<Rightarrow> int \<Rightarrow> string \<Rightarrow> int \<Rightarrow> tool_ctx \<Rightarrow> (string \<times> json) list \<Rightarrow> begin_effect_request" where
  "begin_request m run_id dec_idx tname call_idx ctx args = \<lparr>beq_run_id = run_id, beq_decision_index = dec_idx,
     beq_tool_name = tname, beq_call_index = call_idx, beq_request_json = JsonText (JObj args),
     beq_custom_key = custom_key_of m run_id ctx args,
     beq_semantics = semantics_to_pb (str_or (em_semantics m) ''idempotent''),
     beq_dispatch_mode = dispatch_to_pb (str_or (em_dispatch m) ''inline''),
     beq_business_key = sdk_resolve_business_key (em_business_key m) (Some args),
     beq_connector = em_connector m, beq_scope = em_scope m\<rparr>"

definition sdk_before_tool_callback ::
    "'w plugin_client \<Rightarrow> 'v adk_tool \<Rightarrow> (string \<times> json) list \<Rightarrow> tool_ctx \<Rightarrow> session_state \<Rightarrow> TapePlugin \<Rightarrow> 'w \<Rightarrow>
     (py_exn + json option) \<times> session_state \<times> TapePlugin \<times> 'w" where
  "sdk_before_tool_callback cl t args ctx st p w =
     (let invk = tc_invocation_id ctx in
      case run_of p invk of
        None \<Rightarrow> (Inr None, st, p, w)
      | Some run_id \<Rightarrow>
          (let dec_idx = map_default (tp_dlast p) invk (-1);
               tname = tool_name_of t;
               call_idx = map_default (tp_tcount p) (invk, dec_idx, tname) 0;
               p1 = p\<lparr>tp_tcount := (tp_tcount p)((invk, dec_idx, tname) \<mapsto> call_idx + 1)\<rparr>
           in case admit cl p1 run_id w of
                (Inl ex, w1) \<Rightarrow> (Inl ex, st, p1, w1)
              | (Inr (admitted, reason), w1) \<Rightarrow>
                  if \<not> admitted then
                    (Inr (Some (error_result (''tape: budget exhausted '' @ [CHR 0xE2, CHR 0x80, CHR 0x94] @ '' '' @ reason))), st, p1, w1)
                  else
                    (let m = tool_meta t;
                         bk = sdk_resolve_business_key (em_business_key m) (Some args);
                         granted = map_default (tp_run_scopes p1) run_id []
                     in if em_scope m \<noteq> [] \<and> em_scope m \<notin> set granted then
                          (Inr (Some (denied_result (scope_denied_msg (em_scope m) tname (sort granted)) (em_scope m) tname)), st, p1, w1)
                        else
                          (case pc_begin_effect cl (begin_request m run_id dec_idx tname call_idx ctx args) w1 of
                             (Inl ex, w2) \<Rightarrow> (Inr (begin_failed m tname ex), st, p1, w2)
                           | (Inr resp, w2) \<Rightarrow>
                               (case begun cl m run_id bk resp st w2 of (v, st1, w3) \<Rightarrow> (Inr v, st1, p1, w3))))))"

section \<open>After a tool\<close>

text \<open>\<open>_tool_keys\<close>: the run and the key of the slots, the run falling back to the invocation's.\<close>

definition slot :: "session_state \<Rightarrow> string \<Rightarrow> json" where
  "slot st k = (case st of None \<Rightarrow> JNull | Some m \<Rightarrow> map_default m k JNull)"

definition tool_keys :: "TapePlugin \<Rightarrow> tool_ctx \<Rightarrow> session_state \<Rightarrow> json \<times> json" where
  "tool_keys p ctx st =
     (json_or (slot st ''temp:_tape_run_id'') (opt_json (tp_run p (tc_invocation_id ctx))), slot st ''temp:_tape_idempotency_key'')"

definition outbox_accepted :: "'v effect_meta \<Rightarrow> json \<Rightarrow> bool" where
  "outbox_accepted m result \<longleftrightarrow> em_dispatch m = ''outbox'' \<and>
     (case result of JObj kvs \<Rightarrow> map_of kvs ''tape_status'' = Some (JStr ''accepted'') | _ \<Rightarrow> False)"

definition after_payload :: "'v effect_meta \<Rightarrow> (string \<times> json) list \<Rightarrow> json \<Rightarrow> json" where
  "after_payload m args result =
     (case em_compensation_payload m of
        Some f \<Rightarrow> (case f (JObj args) result of Inl ex \<Rightarrow> JObj [] | Inr v \<Rightarrow> json_or v (JObj []))
      | None \<Rightarrow> JObj (dict_update (case result of JObj kvs \<Rightarrow> kvs | _ \<Rightarrow> []) args))"

text \<open>
  A slot that holds something other than a string makes the request raise, which is dropped.
\<close>

definition sdk_after_tool_callback ::
    "'w plugin_client \<Rightarrow> 'v adk_tool \<Rightarrow> (string \<times> json) list \<Rightarrow> tool_ctx \<Rightarrow> session_state \<Rightarrow> json \<Rightarrow> TapePlugin \<Rightarrow>
     'g sdk_registry \<Rightarrow> 'w \<Rightarrow> 'g sdk_registry \<times> 'w" where
  "sdk_after_tool_callback cl t args ctx st result p g w =
     (case tool_keys p ctx st of (run, key) \<Rightarrow>
        if \<not> truthy run \<or> \<not> truthy key then (g, w)
        else
          (let m = tool_meta t in
           if outbox_accepted m result then (g, w)
           else
             (let w1 = (case (run, key) of
                          (JStr r, JStr k) \<Rightarrow> snd (pc_complete_effect cl r k EFFECT_STATUS_CONFIRMED (JsonText result) (PlainText []) w)
                        | _ \<Rightarrow> w)
              in case em_compensate m of
                   None \<Rightarrow> (g, w1)
                 | Some f \<Rightarrow>
                     (let kind = str_default (fn_name f) ''compensate'';
                          g1 = register_compensator kind f g
                      in case (run, key) of
                           (JStr r, JStr k) \<Rightarrow>
                             (g1, snd (pc_register_compensation cl r k kind (JsonText (after_payload m args result))
                                         (em_compensator_ref m) (int_or (em_max_attempts m) 0) w1))
                         | _ \<Rightarrow> (g1, w1)))))"

definition raised_name :: "py_raise \<Rightarrow> string" where
  "raised_name ex = (case rx_classes ex of [] \<Rightarrow> ''BaseException'' | c # cs \<Rightarrow> c)"

definition sdk_on_tool_error_callback ::
    "'w plugin_client \<Rightarrow> tool_ctx \<Rightarrow> session_state \<Rightarrow> py_raise \<Rightarrow> TapePlugin \<Rightarrow> 'w \<Rightarrow> 'w" where
  "sdk_on_tool_error_callback cl ctx st ex p w =
     (case tool_keys p ctx st of
        (JStr r, JStr k) \<Rightarrow>
          if r = [] \<or> k = [] then w
          else snd (pc_complete_effect cl r k
                 (if is_instance ex [''AckLost''] then EFFECT_STATUS_UNKNOWN else EFFECT_STATUS_FAILED) (PlainText [])
                 (JsonText (JObj [(''type'', JStr (raised_name ex)), (''message'', JStr (rx_msg ex))])) w)
      | _ \<Rightarrow> w)"

section \<open>A server and two tools\<close>

text \<open>A server that answers every \<open>begin_effect\<close> alike and grants every other call.\<close>

definition answering :: "begin_exn + begin_effect_reply \<Rightarrow> unit plugin_client" where
  "answering r = \<lparr>pc_begin_run = (\<lambda>q w. (Inr (''run1'', True), w)), pc_get_run = (\<lambda>i w. (Inr (RUN_STATUS_RUNNING, [''bank'']), w)),
     pc_end_run = (\<lambda>i st w. (Inr (), w)), pc_set_budget = (\<lambda>i u t w. (Inr (), w)), pc_admit_budget = (\<lambda>i w. (Inr (True, []), w)),
     pc_charge_budget = (\<lambda>i t w. (Inr (), w)), pc_get_decision = (\<lambda>i n w. (Inr (n < 2, JsonText (JObj [])), w)),
     pc_record_decision = (\<lambda>i n m t v w. (Inr (), w)), pc_begin_effect = (\<lambda>q w. (r, w)),
     pc_get_effect_ref = (\<lambda>i k w. (Inr (False, []), w)), pc_complete_effect = (\<lambda>i k st t e w. (Inr (), w)),
     pc_register_compensation = (\<lambda>i k d t c m w. (Inr (), w))\<rparr>"

definition reply :: "int \<Rightarrow> json \<Rightarrow> begin_exn + begin_effect_reply" where
  "reply status v = Inr \<lparr>ber_idempotency_key = ''wire-key'', ber_status = status, ber_response_json = JsonText v\<rparr>"

definition sample_plugin :: TapePlugin where
  "sample_plugin = \<lparr>tp_budget = None, tp_owner = ''h:1'', tp_lease_ttl_ms = 120000, tp_check_cancel = False,
     tp_cancel_check_interval_s = 5, tp_identity = empty_identity\<lparr>ri_scopes := [''bank'']\<rparr>, tp_last_cancel_check = Map.empty,
     tp_run = [Some ''inv1'' \<mapsto> ''run1''], tp_dnext = [Some ''inv1'' \<mapsto> 1], tp_dlast = [Some ''inv1'' \<mapsto> 0],
     tp_tcount = Map.empty, tp_has_budget = (\<lambda>r. False), tp_run_scopes = [''run1'' \<mapsto> [''bank'']]\<rparr>"

definition sample_ctx :: tool_ctx where
  "sample_ctx = \<lparr>tc_invocation_id = Some ''inv1'', tc_function_call_id = None\<rparr>"

definition tool_with :: "string \<Rightarrow> 'v effect_args \<Rightarrow> 'v adk_tool" where
  "tool_with name a = \<lparr>at_func = None, at_fn = None, at_under_func = None, at_wrapped = None,
     at_meta = Some (meta_of_args a), at_name = Some name, at_class = ''FunctionTool''\<rparr>"

definition wire_tool :: "unit adk_tool" where
  "wire_tool = tool_with ''wire'' (effect_defaults\<lparr>a_semantics := ''non_idempotent'', a_dispatch := ''outbox'',
     a_connector := ''bank'', a_scope := ''bank'', a_allow_unsafe := True\<rparr>)"

definition mail_tool :: "unit adk_tool" where
  "mail_tool = tool_with ''mail'' (effect_defaults\<lparr>a_scope := ''mail''\<rparr>)"

definition note_tool :: "unit adk_tool" where
  "note_tool = tool_with ''note'' effect_defaults"

definition sample_invocation :: adk_invocation where
  "sample_invocation = \<lparr>iv_app_name = ''app'', iv_user_id = ''u'', iv_session_id = ''s'', iv_invocation_id = ''inv1'',
     iv_budget_entry = NoEntry\<rparr>"

section \<open>Watching the writes\<close>

datatype plugin_act =
    PaBegin begin_effect_request
  | PaComplete string string int wire_text wire_text
  | PaRegister string string string wire_text string int
  | PaEndRun string int

definition watch_plugin :: "'w plugin_client \<Rightarrow> ('w \<times> plugin_act list) plugin_client" where
  "watch_plugin cl = \<lparr>
     pc_begin_run = (\<lambda>q. unlogged (pc_begin_run cl q)),
     pc_get_run = (\<lambda>r. unlogged (pc_get_run cl r)),
     pc_end_run = (\<lambda>r s. logged (PaEndRun r s) (pc_end_run cl r s)),
     pc_set_budget = (\<lambda>r u t. unlogged (pc_set_budget cl r u t)),
     pc_admit_budget = (\<lambda>r. unlogged (pc_admit_budget cl r)),
     pc_charge_budget = (\<lambda>r t. unlogged (pc_charge_budget cl r t)),
     pc_get_decision = (\<lambda>r i. unlogged (pc_get_decision cl r i)),
     pc_record_decision = (\<lambda>r i m t v. unlogged (pc_record_decision cl r i m t v)),
     pc_begin_effect = (\<lambda>q. logged (PaBegin q) (pc_begin_effect cl q)),
     pc_get_effect_ref = (\<lambda>r k. unlogged (pc_get_effect_ref cl r k)),
     pc_complete_effect = (\<lambda>r k s t e. logged (PaComplete r k s t e) (pc_complete_effect cl r k s t e)),
     pc_register_compensation = (\<lambda>r k d t c m. logged (PaRegister r k d t c m) (pc_register_compensation cl r k d t c m))\<rparr>"

lemma watch_plugin_simps [simp]:
  "pc_get_run (watch_plugin cl) r = unlogged (pc_get_run cl r)"
  "pc_end_run (watch_plugin cl) r st = logged (PaEndRun r st) (pc_end_run cl r st)"
  "pc_admit_budget (watch_plugin cl) r = unlogged (pc_admit_budget cl r)"
  "pc_begin_effect (watch_plugin cl) q = logged (PaBegin q) (pc_begin_effect cl q)"
  "pc_get_effect_ref (watch_plugin cl) r k = unlogged (pc_get_effect_ref cl r k)"
  "pc_complete_effect (watch_plugin cl) r k st t e = logged (PaComplete r k st t e) (pc_complete_effect cl r k st t e)"
  "pc_register_compensation (watch_plugin cl) r k d t c m = logged (PaRegister r k d t c m) (pc_register_compensation cl r k d t c m)"
  by (simp_all add: watch_plugin_def)

section \<open>What a tool call may do\<close>

text \<open>
  The outcomes of \<open>before_tool_callback\<close> inside a run: refused before the server is told,
  refused by the server, or begun, with the request that was made.
\<close>

definition tool_granted :: "TapePlugin \<Rightarrow> string \<Rightarrow> 'v effect_meta \<Rightarrow> bool" where
  "tool_granted p run_id m \<longleftrightarrow> em_scope m = [] \<or> em_scope m \<in> set (map_default (tp_run_scopes p) run_id [])"

lemma admit_trace: "admit (watch_plugin cl) p run_id (w, l) = (fst (admit cl p run_id w), snd (admit cl p run_id w), l)"
  by (simp add: admit_def unlogged_run)

lemma begun_trace:
  "begun (watch_plugin cl) m run_id bk resp st (w, l) =
     (fst (begun cl m run_id bk resp st w), fst (snd (begun cl m run_id bk resp st w)), snd (snd (begun cl m run_id bk resp st w)), l)"
  by (auto simp: begun_def surface_external_ref_def unlogged_run Let_def split: prod.splits sum.splits)

lemma begun_value:
  "fst (begun cl m run_id bk resp st w) =
     (if ber_status resp = EFFECT_STATUS_CONFIRMED then
        (case ber_response_json resp of JsonText v \<Rightarrow> callback_value v | PlainText _ \<Rightarrow> Some (JObj []))
      else if str_or (em_dispatch m) ''inline'' = ''outbox'' \<and> ber_status resp = EFFECT_STATUS_PENDING then
        Some (accepted_marker (ber_idempotency_key resp) (em_connector m) bk)
      else None)"
  by (simp add: begun_def Let_def split: prod.splits)

text \<open>The plugin of the invocation counts the call; nothing else of it changes.\<close>

definition counted :: "tool_ctx \<Rightarrow> string \<Rightarrow> TapePlugin \<Rightarrow> TapePlugin" where
  "counted ctx tname p =
     (let k = (tc_invocation_id ctx, map_default (tp_dlast p) (tc_invocation_id ctx) (-1), tname)
      in p\<lparr>tp_tcount := (tp_tcount p)(k \<mapsto> map_default (tp_tcount p) k 0 + 1)\<rparr>)"

definition tool_request ::
    "'v adk_tool \<Rightarrow> (string \<times> json) list \<Rightarrow> tool_ctx \<Rightarrow> TapePlugin \<Rightarrow> string \<Rightarrow> begin_effect_request" where
  "tool_request t args ctx p run_id =
     (let d = map_default (tp_dlast p) (tc_invocation_id ctx) (-1)
      in begin_request (tool_meta t) run_id d (tool_name_of t)
           (map_default (tp_tcount p) (tc_invocation_id ctx, d, tool_name_of t) 0) ctx args)"

lemma before_tool_admitted:
  assumes "run_of p (tc_invocation_id ctx) = Some run_id"
    and "admit cl (counted ctx (tool_name_of t) p) run_id w = (Inr (True, reason), w1)"
    and "tool_granted p run_id (tool_meta t)"
  shows "sdk_before_tool_callback (watch_plugin cl) t args ctx st p (w, l) =
    (case pc_begin_effect cl (tool_request t args ctx p run_id) w1 of
       (Inl ex, w2) \<Rightarrow> (Inr (begin_failed (tool_meta t) (tool_name_of t) ex), st, counted ctx (tool_name_of t) p, w2,
                        l @ [PaBegin (tool_request t args ctx p run_id)])
     | (Inr resp, w2) \<Rightarrow>
         (case begun cl (tool_meta t) run_id (sdk_resolve_business_key (em_business_key (tool_meta t)) (Some args)) resp st w2 of
            (v, st1, w3) \<Rightarrow> (Inr v, st1, counted ctx (tool_name_of t) p, w3, l @ [PaBegin (tool_request t args ctx p run_id)])))"
  using assms
  by (auto simp: sdk_before_tool_callback_def counted_def tool_request_def tool_granted_def Let_def admit_trace logged_run begun_trace
      split: sum.splits prod.splits)

lemma before_tool_refused:
  assumes "run_of p (tc_invocation_id ctx) = Some run_id"
    and "admit cl (counted ctx (tool_name_of t) p) run_id w = (adm, w1)"
    and "\<forall>reason. adm = Inr (True, reason) \<longrightarrow> \<not> tool_granted p run_id (tool_meta t)"
  shows "\<exists>r. sdk_before_tool_callback (watch_plugin cl) t args ctx st p (w, l) = (r, st, counted ctx (tool_name_of t) p, w1, l) \<and>
    ((\<exists>ex. r = Inl ex \<and> adm = Inl ex) \<or> (\<exists>kvs. r = Inr (Some (JObj kvs)) \<and> ''error'' \<in> fst ` set kvs \<and> map_of kvs ''tape_status'' = None))"
  using assms
  by (auto simp: sdk_before_tool_callback_def counted_def tool_granted_def Let_def admit_trace error_result_def denied_result_def
      split: sum.splits prod.splits)

text \<open>An answer of \<open>begin_effect\<close> that leaves the work to the body of the tool.\<close>

definition leaves_to_body :: "'v effect_meta \<Rightarrow> begin_exn + begin_effect_reply \<Rightarrow> bool" where
  "leaves_to_body m r = (case r of
     Inl ex \<Rightarrow> \<not> must_journal m \<and> (\<forall>d s. ex \<noteq> RpcError (Some ''PERMISSION_DENIED'') d s)
   | Inr resp \<Rightarrow> (ber_status resp = EFFECT_STATUS_CONFIRMED \<longrightarrow> ber_response_json resp = JsonText JNull) \<and>
       \<not> (str_or (em_dispatch m) ''inline'' = ''outbox'' \<and> ber_status resp = EFFECT_STATUS_PENDING))"

lemma begin_failed_None: "begin_failed m tname ex = None \<longleftrightarrow>
    \<not> must_journal m \<and> (\<forall>d s. ex \<noteq> RpcError (Some ''PERMISSION_DENIED'') d s)"
  by (cases ex) (auto simp: begin_failed_def Let_def)

lemma count_from_range: "n \<le> fst (count_from cl run_id fuel n w) \<and> fst (count_from cl run_id fuel n w) \<le> n + int fuel"
proof (induction fuel arbitrary: n w)
  case (Suc fuel)
  obtain r w' where r: "pc_get_decision cl run_id n w = (r, w')" by fastforce
  show ?case using r Suc.IH [of "n + 1" w'] by (auto split: sum.splits prod.splits)
qed simp

lemma count_from_stops:
  assumes "\<And>i w. pc_get_decision cl run_id i w = (Inr (i < n, resp_of i), w)"
  shows "k \<le> n \<Longrightarrow> n \<le> k + int fuel \<Longrightarrow> count_from cl run_id fuel k w = (n, w)"
proof (induction fuel arbitrary: k)
  case (Suc fuel)
  then show ?case using Suc.IH [of "k + 1"] by (cases "k = n") (auto simp: assms)
qed simp

lemma slots_of_begun:
  assumes "st = Some m0"
  shows "slot (set_slots ([(''temp:_tape_idempotency_key'', JStr k), (''temp:_tape_run_id'', JStr r), (''temp:_tape_business_key'', b),
      (''temp:_tape_effect_semantics'', c)]) st) ''temp:_tape_idempotency_key'' = JStr k"
    and "slot (set_slots ([(''temp:_tape_idempotency_key'', JStr k), (''temp:_tape_run_id'', JStr r), (''temp:_tape_business_key'', b),
      (''temp:_tape_effect_semantics'', c)]) st) ''temp:_tape_run_id'' = JStr r"
  using assms by (simp_all add: slot_def set_slots_def map_default_def)

section \<open>Properties\<close>

text \<open>
  C7. The body of a tool runs inside a run only after one \<open>begin_effect\<close> for it: the
  scope is granted, and the server either answered with a state that leaves the work to the
  body (not confirmed with a response, not a pending outbox effect) or could not be reached
  for a tool that is neither non-idempotent nor an outbox tool, and did not deny it.
\<close>

theorem sdk_tool_body_guarded:
  assumes "run_of p (tc_invocation_id ctx) = Some run_id"
    and "sdk_before_tool_callback (watch_plugin cl) t args ctx st p (w, l) = (Inr None, st', p', w', l')"
  shows "tool_granted p run_id (tool_meta t) \<and> l' = l @ [PaBegin (tool_request t args ctx p run_id)] \<and>
    (\<exists>w1 r w2. pc_begin_effect cl (tool_request t args ctx p run_id) w1 = (r, w2) \<and> leaves_to_body (tool_meta t) r)"
proof -
  obtain adm w1 where adm: "admit cl (counted ctx (tool_name_of t) p) run_id w = (adm, w1)" by fastforce
  obtain reason where ok: "adm = Inr (True, reason)" and g: "tool_granted p run_id (tool_meta t)"
    using before_tool_refused [OF assms(1) adm, of args st l] assms(2) by auto
  obtain r w2 where b: "pc_begin_effect cl (tool_request t args ctx p run_id) w1 = (r, w2)" by fastforce
  note run = before_tool_admitted [OF assms(1) adm [unfolded ok] g, of args st l]
  show ?thesis
  proof (cases r)
    case (Inl ex)
    with run b assms(2) have "begin_failed (tool_meta t) (tool_name_of t) ex = None"
        "l' = l @ [PaBegin (tool_request t args ctx p run_id)]" by auto
    then have "leaves_to_body (tool_meta t) r" using Inl by (simp add: begin_failed_None leaves_to_body_def)
    with b g \<open>l' = _\<close> show ?thesis by blast
  next
    case (Inr resp)
    with run b assms(2) have v: "fst (begun cl (tool_meta t) run_id
          (sdk_resolve_business_key (em_business_key (tool_meta t)) (Some args)) resp st w2) = None"
        "l' = l @ [PaBegin (tool_request t args ctx p run_id)]" by (auto split: prod.splits)
    then have "leaves_to_body (tool_meta t) r" using Inr
      by (auto simp: begun_value callback_value_def leaves_to_body_def EFFECT_STATUS_PENDING_def EFFECT_STATUS_CONFIRMED_def
          split: if_splits wire_text.splits)
    with b g v show ?thesis by blast
  qed
qed

text \<open>
  C8. An outbox tool whose effect the server has as pending is left to the outbox reactor:
  the agent gets the accepted marker in place of the body, and the callback after the tool,
  which sees that marker, completes nothing and registers nothing.
\<close>

theorem sdk_outbox_left_to_reactor:
  assumes "run_of p (tc_invocation_id ctx) = Some run_id"
    and "admit cl (counted ctx (tool_name_of t) p) run_id w = (Inr (True, reason), w1)"
    and "tool_granted p run_id (tool_meta t)" and "em_dispatch (tool_meta t) = ''outbox''"
    and "pc_begin_effect cl (tool_request t args ctx p run_id) w1 = (Inr resp, w2)"
    and "ber_status resp = EFFECT_STATUS_PENDING"
  shows "\<exists>marker st' w'. sdk_before_tool_callback (watch_plugin cl) t args ctx st p (w, l) =
      (Inr (Some marker), st', counted ctx (tool_name_of t) p, w', l @ [PaBegin (tool_request t args ctx p run_id)]) \<and>
    marker = accepted_marker (ber_idempotency_key resp) (em_connector (tool_meta t))
      (sdk_resolve_business_key (em_business_key (tool_meta t)) (Some args)) \<and>
    (\<forall>p2 g wl. sdk_after_tool_callback (watch_plugin cl) t args ctx st' marker p2 g wl = (g, wl))"
proof -
  let ?m = "tool_meta t" and ?bk = "sdk_resolve_business_key (em_business_key (tool_meta t)) (Some args)"
  let ?mark = "accepted_marker (ber_idempotency_key resp) (em_connector ?m) ?bk"
  obtain st' w' where b: "begun cl ?m run_id ?bk resp st w2 = (Some ?mark, st', w')"
    using begun_value [of cl ?m run_id ?bk resp st w2] assms(4,6)
    by (cases "begun cl ?m run_id ?bk resp st w2") (auto simp: str_or_def EFFECT_STATUS_PENDING_def EFFECT_STATUS_CONFIRMED_def)
  have "outbox_accepted ?m ?mark" using assms(4) by (simp add: outbox_accepted_def accepted_marker_def)
  then have "sdk_after_tool_callback (watch_plugin cl) t args ctx st' ?mark p2 g wl = (g, wl)" for p2 g wl
    by (simp add: sdk_after_tool_callback_def Let_def split: prod.splits)
  with before_tool_admitted [OF assms(1-3), of args st l] assms(5) b show ?thesis by auto
qed

theorem sdk_tool_body_guarded_witness:
  "tool_granted sample_plugin ''run1'' (tool_meta note_tool) \<and>
   (\<exists>w1 r w2. pc_begin_effect (answering (reply 1 JNull)) (tool_request note_tool [] sample_ctx sample_plugin ''run1'') w1 = (r, w2) \<and>
      leaves_to_body (tool_meta note_tool) r)"
proof -
  have run: "run_of sample_plugin (tc_invocation_id sample_ctx) = Some ''run1''" by code_simp
  let ?b = "sdk_before_tool_callback (watch_plugin (answering (reply 1 JNull))) note_tool [] sample_ctx None sample_plugin ((), [])"
  have "fst ?b = Inr None" by code_simp
  then have "?b = (Inr None, fst (snd ?b), fst (snd (snd ?b)), fst (snd (snd (snd ?b))), snd (snd (snd (snd ?b))))" by (simp add: prod_eq_iff)
  from sdk_tool_body_guarded [OF run this] show ?thesis by blast
qed

theorem sdk_outbox_left_to_reactor_witness:
  "\<exists>marker st' w'. sdk_before_tool_callback (watch_plugin (answering (reply 1 JNull))) wire_tool [] sample_ctx (Some Map.empty) sample_plugin ((), []) =
      (Inr (Some marker), st', counted sample_ctx (tool_name_of wire_tool) sample_plugin, w',
       [] @ [PaBegin (tool_request wire_tool [] sample_ctx sample_plugin ''run1'')]) \<and>
    marker = accepted_marker ''wire-key'' ''bank'' []"
proof -
  let ?cl = "answering (reply 1 JNull)"
  have pre: "run_of sample_plugin (tc_invocation_id sample_ctx) = Some ''run1''"
    "admit ?cl (counted sample_ctx (tool_name_of wire_tool) sample_plugin) ''run1'' () = (Inr (True, []), ())"
    "tool_granted sample_plugin ''run1'' (tool_meta wire_tool)" "em_dispatch (tool_meta wire_tool) = ''outbox''"
    by code_simp+
  have b: "pc_begin_effect ?cl (tool_request wire_tool [] sample_ctx sample_plugin ''run1'') () =
      (Inr \<lparr>ber_idempotency_key = ''wire-key'', ber_status = 1, ber_response_json = JsonText JNull\<rparr>, ())"
    by (simp add: answering_def reply_def)
  have m: "em_connector (tool_meta wire_tool) = ''bank''" "em_business_key (tool_meta wire_tool) = BkNone"
    by (simp_all add: wire_tool_def tool_with_def tool_meta_def effect_meta_of_def meta_of_args_def effect_defaults_def)
  from sdk_outbox_left_to_reactor [OF pre b, of "Some Map.empty" "[]"] m show ?thesis
    by (auto simp: EFFECT_STATUS_PENDING_def sdk_resolve_business_key_def)
qed

text \<open>
  A re-driven run does not replay its recorded decisions: if the server has the decisions
  below \<open>n\<close>, the run starts with that count, its next model call is decision \<open>n\<close>,
  which the model is called for. The docstring of \<open>plugin.py\<close> and the documentation say
  that every recorded decision is returned again on a re-drive.
\<close>

lemma resumed_run_continues:
  assumes "pc_begin_run cl \<lparr>brq_app_name = iv_app_name iv, brq_user_id = iv_user_id iv, brq_session_id = iv_session_id iv,
      brq_invocation_id = iv_invocation_id iv, brq_lease_owner = tp_owner p, brq_lease_ttl_ms = tp_lease_ttl_ms p,
      brq_identity = tp_identity p\<rparr> w = (Inr (run_id, True), w1)" and "run_id \<noteq> []"
    and "\<And>i w. pc_get_decision cl run_id i w = (Inr (i < n, resp_of i), w)" and "0 \<le> n" and "n \<le> int hard_cap"
    and "resolve_budget p iv = None" and "\<not> tp_has_budget p run_id" and "\<not> tp_check_cancel p"
  shows "\<exists>p' w'. sdk_before_run_callback cl hard_cap iv p w = (Inr (), p', w') \<and>
    (\<forall>validate now w2. \<exists>p''. before_model_callback cl validate now (Some (iv_invocation_id iv)) p' w2 = (Inr CallModel, p'', w2) \<and>
       tp_dlast p'' (Some (iv_invocation_id iv)) = Some n \<and> tp_dnext p'' (Some (iv_invocation_id iv)) = Some (n + 1))"
proof -
  have cnt: "count_decisions cl run_id hard_cap w1 = (n, w1)"
    using count_from_stops [OF assms(3), of 0 hard_cap w1] assms(4,5) by (simp add: count_decisions_def)
  obtain sc w2 where sc: "resumed_scopes cl p run_id w1 = (sc, w2)" by fastforce
  show ?thesis
    using assms cnt sc
    by (auto simp: sdk_before_run_callback_def before_model_callback_def run_of_def sdk_next_decision_def admit_def recorded_response_def
        map_default_def Let_def)
qed

section \<open>Where the callbacks fall short\<close>

text \<open>
  The slots of the session state are not cleared, so a tool that is refused before
  \<open>begin_effect\<close> leaves the key of the tool before it in place, and the callback after the
  refused tool confirms that effect with the refusal as its response.
\<close>

lemma refused_tool_confirms_previous:
  assumes "run_of p (tc_invocation_id ctx) = Some run_id" and "\<not> tool_granted p run_id (tool_meta t)"
    and "admit cl (counted ctx (tool_name_of t) p) run_id w = (Inr adm, w1)"
    and "slot st ''temp:_tape_run_id'' = JStr r" and "slot st ''temp:_tape_idempotency_key'' = JStr k" and "r \<noteq> []" and "k \<noteq> []"
    and "em_compensate (tool_meta t) = None"
  shows "\<exists>v p'. sdk_before_tool_callback (watch_plugin cl) t args ctx st p (w, l) = (Inr (Some v), st, p', w1, l) \<and>
    (\<exists>w2. sdk_after_tool_callback (watch_plugin cl) t args ctx st v p' g (w1, l) =
       (g, w2, l @ [PaComplete r k EFFECT_STATUS_CONFIRMED (JsonText v) (PlainText [])]))"
proof -
  obtain kvs where b: "sdk_before_tool_callback (watch_plugin cl) t args ctx st p (w, l) =
      (Inr (Some (JObj kvs)), st, counted ctx (tool_name_of t) p, w1, l)" and "map_of kvs ''tape_status'' = None"
    using before_tool_refused [OF assms(1,3), of args st l] assms(2) by auto
  then have "\<not> outbox_accepted (tool_meta t) (JObj kvs)" by (simp add: outbox_accepted_def)
  with assms(4-8) have "\<exists>w2. sdk_after_tool_callback (watch_plugin cl) t args ctx st (JObj kvs) p' g (w1, l) =
      (g, w2, l @ [PaComplete r k EFFECT_STATUS_CONFIRMED (JsonText (JObj kvs)) (PlainText [])])" for p'
    by (simp add: sdk_after_tool_callback_def tool_keys_def json_or_def logged_run Let_def)
  with b show ?thesis by blast
qed

text \<open>
  The two calls in sequence: a pending wire is handed to the reactor, then a mail without
  grant is refused, and the wire is reported as confirmed.
\<close>

definition wire_then_mail :: "plugin_act list" where
  "wire_then_mail =
     (case sdk_before_tool_callback (watch_plugin (answering (reply 1 JNull))) wire_tool [] sample_ctx (Some Map.empty) sample_plugin ((), []) of
        (r, st1, p1, wl1) \<Rightarrow>
          (case sdk_before_tool_callback (watch_plugin (answering (reply 1 JNull))) mail_tool [] sample_ctx st1 p1 wl1 of
             (Inr (Some v), st2, p2, wl2) \<Rightarrow>
               snd (snd (sdk_after_tool_callback (watch_plugin (answering (reply 1 JNull))) mail_tool [] sample_ctx st2 v p2 (no_registry :: unit sdk_registry) wl2))
           | _ \<Rightarrow> []))"

lemma refused_mail_confirms_wire:
  "\<exists>v. wire_then_mail = [PaBegin (tool_request wire_tool [] sample_ctx sample_plugin ''run1''),
     PaComplete ''run1'' ''wire-key'' EFFECT_STATUS_CONFIRMED (JsonText v) (PlainText [])]"
proof -
  have "wire_then_mail = [PaBegin (tool_request wire_tool [] sample_ctx sample_plugin ''run1''),
     PaComplete ''run1'' ''wire-key'' EFFECT_STATUS_CONFIRMED
       (JsonText (denied_result (scope_denied_msg ''mail'' ''mail'' [''bank'']) ''mail'' ''mail'')) (PlainText [])]" by code_simp
  then show ?thesis by blast
qed

text \<open>
  A tool that returned nothing is recorded with the response \<open>null\<close>, which a re-drive reads
  as no recorded response: the body runs a second time.
\<close>

lemma null_response_reruns_body:
  "fst (sdk_before_tool_callback (answering (reply 2 JNull)) note_tool [] sample_ctx None sample_plugin ()) = Inr None"
  by code_simp

text \<open>
  An outbox tool whose effect is unknown, the state after a lost acknowledgement, runs its
  body on a re-drive, and the callback after it asks the server to confirm the effect.
\<close>

lemma unknown_outbox_runs_body:
  "fst (sdk_before_tool_callback (answering (reply 4 JNull)) wire_tool [] sample_ctx None sample_plugin ()) = Inr None"
  by code_simp

end
