(* ===== verification/SdkReconciler.thy ===== *)
theory SdkReconciler
  imports SdkOutbox
begin

text \<open>
  The reconciler and the timer reactor of the gRPC SDK (\<open>reactors/__init__.py\<close>). The client's
  calls, the observations of connectors, the status checks of tools and the re-driving of a
  run act on the world and may raise; the conventions are those of \<open>SdkOutbox\<close>.
\<close>

section \<open>Data\<close>

definition EFFECT_RESOLUTION_CONFIRMED :: int where
  "EFFECT_RESOLUTION_CONFIRMED = 1"

definition EFFECT_RESOLUTION_ABSENT :: int where
  "EFFECT_RESOLUTION_ABSENT = 3"

definition EFFECT_RESOLUTION_DUPLICATE :: int where
  "EFFECT_RESOLUTION_DUPLICATE = 4"

definition EFFECT_RESOLUTION_STUCK :: int where
  "EFFECT_RESOLUTION_STUCK = 5"

record PbTimer =
  pm_run_id :: string
  pm_timer_id :: string
  pm_kind :: string
  pm_payload_json :: wire_text

record PbRun =
  pr_invocation_id :: string
  pr_user_id :: string
  pr_session_id :: string

record 'w reactor_client =
  rc_list_pending_effects :: "int \<Rightarrow> bool \<Rightarrow> bool \<Rightarrow> int \<Rightarrow> 'w \<Rightarrow> (py_exn + PbEffect list) \<times> 'w"
  rc_record_external_observation ::
    "string \<Rightarrow> string \<Rightarrow> int \<Rightarrow> string \<Rightarrow> wire_text \<Rightarrow> string \<Rightarrow> 'w \<Rightarrow> (py_exn + unit) \<times> 'w"
  rc_reconcile_effect :: "string \<Rightarrow> string \<Rightarrow> int \<Rightarrow> wire_text \<Rightarrow> wire_text \<Rightarrow> 'w \<Rightarrow> (py_exn + unit) \<times> 'w"
  rc_list_due_timers :: "bool \<Rightarrow> int \<Rightarrow> 'w \<Rightarrow> (py_exn + PbTimer list) \<times> 'w"
  rc_send_signal :: "string \<Rightarrow> string \<Rightarrow> wire_text \<Rightarrow> 'w \<Rightarrow> (py_exn + unit) \<times> 'w"
  rc_get_run :: "string \<Rightarrow> 'w \<Rightarrow> (py_exn + PbRun) \<times> 'w"
  rc_get_effect :: "string \<Rightarrow> string \<Rightarrow> 'w \<Rightarrow> (py_exn + bool \<times> PbEffect) \<times> 'w"

section \<open>Reconciling\<close>

text \<open>What \<open>_observe_via_connector\<close> returns: status, external reference and response.\<close>

definition observe_via_connector ::
    "(string \<times> 'w sdk_connector) list \<Rightarrow> PbEffect \<Rightarrow> 'w \<Rightarrow> (string \<times> string \<times> (string \<times> json) list) option \<times> 'w" where
  "observe_via_connector cs eff w =
     (if pe_connector eff = [] then (None, w)
      else (case get_connector (pe_connector eff) cs of
              None \<Rightarrow> (None, w)
            | Some c \<Rightarrow>
                (case call_observe c eff w of
                   (Inl ex, w') \<Rightarrow> (Some (''stuck'', [], []), w')
                 | (Inr obs, w') \<Rightarrow> (Some (so_status obs, so_external_ref obs, so_response obs), w'))))"

definition status_str_to_resolution :: "string \<Rightarrow> int" where
  "status_str_to_resolution s =
     (if s = ''confirmed'' then EFFECT_RESOLUTION_CONFIRMED
      else if s = ''absent'' then EFFECT_RESOLUTION_ABSENT
      else if s = ''duplicate'' then EFFECT_RESOLUTION_DUPLICATE
      else if s = ''failed'' then EFFECT_RESOLUTION_FAILED
      else if s = ''stuck'' then EFFECT_RESOLUTION_STUCK
      else EFFECT_RESOLUTION_STUCK)"

definition comp_kind_of :: "'v sdk_registry \<Rightarrow> PbEffect \<Rightarrow> string" where
  "comp_kind_of g e = (case get_tool_compensator (pe_tool_name e) g of Some spec \<Rightarrow> cs_kind spec | None \<Rightarrow> [])"

text \<open>\<open>res.get("found", True) if isinstance(res, dict) else bool(res)\<close>, as a condition.\<close>

definition check_found :: "json \<Rightarrow> bool" where
  "check_found res = (case res of
     JObj kvs \<Rightarrow> (case map_of kvs ''found'' of Some v \<Rightarrow> truthy v | None \<Rightarrow> True)
   | v \<Rightarrow> truthy v)"

definition found_response :: "json \<Rightarrow> wire_text" where
  "found_response res = (case res of JObj kvs \<Rightarrow> JsonText res | _ \<Rightarrow> JsonText (JObj []))"

definition outcome_entry :: "PbEffect \<Rightarrow> string \<Rightarrow> (string \<times> json) list \<Rightarrow> json" where
  "outcome_entry e resolved extra =
     JObj ([(''key'', JStr (pe_idempotency_key e)), (''resolved'', JStr resolved)] @ extra)"

definition settle_observed ::
    "'v sdk_registry \<Rightarrow> 'w reactor_client \<Rightarrow> PbEffect \<Rightarrow> string \<times> string \<times> (string \<times> json) list \<Rightarrow> 'w \<Rightarrow>
     (py_exn + json list) \<times> 'w" where
  "settle_observed g cl e obs w =
     (case obs of (status, ext, response) \<Rightarrow>
        (let status_str = str_or status ''absent''
         in and_then (rc_record_external_observation cl (pe_run_id e) (pe_idempotency_key e)
                        (status_str_to_resolution status_str) ext (JsonText (JObj response))
                        (if status_str = ''duplicate'' then comp_kind_of g e else []) w)
              (\<lambda>_ w'. (Inr [outcome_entry e (''observed-'' @ status_str)
                             [(''external_ref'', JStr ext), (''semantics'', JNum (pe_semantics e))]], w'))))"

definition settle_checked :: "'w reactor_client \<Rightarrow> PbEffect \<Rightarrow> json \<Rightarrow> 'w \<Rightarrow> (py_exn + json list) \<times> 'w" where
  "settle_checked cl e res w =
     (if check_found res then
        and_then (rc_reconcile_effect cl (pe_run_id e) (pe_idempotency_key e) EFFECT_STATUS_CONFIRMED
                    (found_response res) (PlainText []) w)
          (\<lambda>_ w'. (Inr [outcome_entry e ''confirmed'' []], w'))
      else if pe_status e = EFFECT_STATUS_UNKNOWN then
        (if pe_semantics e = EFFECT_SEMANTICS_NON_IDEMPOTENT then
           (Inr [outcome_entry e ''left-unknown'' [(''reason'', JStr ''non-idempotent + no observe()'')]], w)
         else
           and_then (rc_reconcile_effect cl (pe_run_id e) (pe_idempotency_key e) EFFECT_STATUS_FAILED
                       (PlainText []) (JsonText (JObj [(''reconciled'', JStr ''absent at counterparty'')])) w)
             (\<lambda>_ w'. (Inr [outcome_entry e ''failed'' []], w')))
      else (Inr [], w))"

definition sdk_reconcile_item ::
    "(string \<times> 'w sdk_connector) list \<Rightarrow> 'w sdk_registry \<Rightarrow> 'w reactor_client \<Rightarrow> PbEffect \<Rightarrow> 'w \<Rightarrow> (py_exn + json list) \<times> 'w" where
  "sdk_reconcile_item cs g cl e w =
     (case observe_via_connector cs e w of
        (Some obs, w1) \<Rightarrow> settle_observed g cl e obs w1
      | (None, w1) \<Rightarrow>
          (case get_status_check (pe_tool_name e) g of
             None \<Rightarrow> (Inr [], w1)
           | Some check \<Rightarrow>
               (case check (pe_idempotency_key e) w1 of
                  (Inl ex, w2) \<Rightarrow> (Inr [outcome_entry e (''check-error: '' @ exn_msg ex) []], w2)
                | (Inr res, w2) \<Rightarrow> settle_checked cl e res w2)))"

definition sdk_reconcile_once ::
    "(string \<times> 'w sdk_connector) list \<Rightarrow> 'w sdk_registry \<Rightarrow> 'w reactor_client \<Rightarrow> int \<Rightarrow> int \<Rightarrow> 'w \<Rightarrow> (py_exn + json list) \<times> 'w" where
  "sdk_reconcile_once cs g cl pending_after_ms now w =
     (let include_pending = pending_after_ms > 0;
          older = (if include_pending then now - pending_after_ms else 0)
      in and_then (rc_list_pending_effects cl older include_pending True 500 w)
           (\<lambda>effects w1. and_then (each (sdk_reconcile_item cs g cl) effects w1)
              (\<lambda>outs w2. (Inr (concat outs), w2))))"

section \<open>Timers\<close>

definition timer_payload :: "wire_text \<Rightarrow> json" where
  "timer_payload t = (case t of JsonText v \<Rightarrow> v | PlainText _ \<Rightarrow> JObj [])"

text \<open>What a request message raises for a field value that is not a string.\<close>

definition bad_field :: py_exn where
  "bad_field = PyExn ''TypeError'' ''bad argument type for built-in operation''"

text \<open>
  \<open>{"timed_out": True, **(resolution or {})}\<close>, which raises a \<open>TypeError\<close> unless the
  resolution is a dict.
\<close>

definition timeout_resolution :: "json \<Rightarrow> py_exn + json" where
  "timeout_resolution res = (case json_or res (JObj []) of
     JObj kvs \<Rightarrow> Inr (JObj (dict_update kvs [(''timed_out'', JBool True)]))
   | v \<Rightarrow> Inl (PyExn ''TypeError'' (repr_str (py_type_name v) @ '' object is not a mapping'')))"

definition fire_gate_timeout :: "'w reactor_client \<Rightarrow> PbTimer \<Rightarrow> json \<Rightarrow> 'w \<Rightarrow> (py_exn + string) \<times> 'w" where
  "fire_gate_timeout cl t payload w =
     (case payload_get payload ''gate'' (JStr []) of
        Inl ex \<Rightarrow> (Inl ex, w)
      | Inr gate \<Rightarrow>
          (case payload_get payload ''resolution'' JNull of
             Inl ex \<Rightarrow> (Inl ex, w)
           | Inr r \<Rightarrow>
               (case timeout_resolution r of
                  Inl ex \<Rightarrow> (Inl ex, w)
                | Inr resolution \<Rightarrow>
                    (case gate of
                       JStr gate_name \<Rightarrow>
                         and_then (rc_send_signal cl (pm_run_id t) gate_name (JsonText resolution) w)
                           (\<lambda>_ w'. (Inr (''signalled '' @ gate_name @ '' (timeout)''), w'))
                     | _ \<Rightarrow> (Inl bad_field, w)))))"

definition fire_reconcile :: "'w sdk_registry \<Rightarrow> 'w reactor_client \<Rightarrow> PbTimer \<Rightarrow> json \<Rightarrow> 'w \<Rightarrow> (py_exn + string) \<times> 'w" where
  "fire_reconcile g cl t payload w =
     (case payload_get payload ''key'' (JStr []) of
        Inl ex \<Rightarrow> (Inl ex, w)
      | Inr (JStr key) \<Rightarrow>
          and_then (rc_get_effect cl (pm_run_id t) key w)
            (\<lambda>(found, eff) w1.
               if found \<and> (pe_status eff = EFFECT_STATUS_PENDING \<or> pe_status eff = EFFECT_STATUS_UNKNOWN) then
                 (case get_status_check (pe_tool_name eff) g of
                    None \<Rightarrow> (Inr ''ignored'', w1)
                  | Some check \<Rightarrow>
                      and_then (check key w1)
                        (\<lambda>res w2.
                           let ok = check_found res in
                           and_then (rc_reconcile_effect cl (pm_run_id t) key
                                       (if ok then EFFECT_STATUS_CONFIRMED else EFFECT_STATUS_FAILED)
                                       (if ok then found_response res else JsonText (JObj [])) (PlainText []) w2)
                             (\<lambda>_ w3. (Inr (''reconciled '' @ key @ '' -> '' @ (if ok then ''confirmed'' else ''failed'')), w3))))
               else (Inr ''ignored'', w1))
      | Inr _ \<Rightarrow> (Inl bad_field, w))"

text \<open>
  \<open>redrive\<close> re-invokes the run where a runner or a callback is at hand; \<open>on_timer\<close> takes the
  kinds nobody else does.
\<close>

definition fire_timer ::
    "'w sdk_registry \<Rightarrow> 'w reactor_client \<Rightarrow> (PbRun \<Rightarrow> 'w \<Rightarrow> (py_exn + unit) \<times> 'w) option \<Rightarrow>
     (PbTimer \<Rightarrow> 'w \<Rightarrow> (py_exn + unit) \<times> 'w) option \<Rightarrow> PbTimer \<Rightarrow> 'w \<Rightarrow> (py_exn + string) \<times> 'w" where
  "fire_timer g cl redrive on_timer t w =
     (let payload = timer_payload (pm_payload_json t) in
      if pm_kind t = ''gate_timeout'' then fire_gate_timeout cl t payload w
      else if pm_kind t = ''redrive'' \<and> redrive \<noteq> None then
        and_then (rc_get_run cl (pm_run_id t) w)
          (\<lambda>run w1. and_then (the redrive run w1) (\<lambda>_ w2. (Inr ''re-driven'', w2)))
      else if pm_kind t = ''reconcile'' then fire_reconcile g cl t payload w
      else (case on_timer of
              None \<Rightarrow> (Inr ''ignored'', w)
            | Some f \<Rightarrow> and_then (f t w) (\<lambda>_ w1. (Inr ''delegated'', w1))))"

fun fire_timers ::
    "'w sdk_registry \<Rightarrow> 'w reactor_client \<Rightarrow> (PbRun \<Rightarrow> 'w \<Rightarrow> (py_exn + unit) \<times> 'w) option \<Rightarrow>
     (PbTimer \<Rightarrow> 'w \<Rightarrow> (py_exn + unit) \<times> 'w) option \<Rightarrow> PbTimer list \<Rightarrow> 'w \<Rightarrow> json list \<times> 'w" where
  "fire_timers g cl redrive on_timer [] w = ([], w)"
| "fire_timers g cl redrive on_timer (t # ts) w =
     (case fire_timer g cl redrive on_timer t w of (r, w1) \<Rightarrow>
        (let action = (case r of Inr a \<Rightarrow> a | Inl ex \<Rightarrow> ''error: '' @ exn_msg ex);
             entry = JObj [(''run_id'', JStr (pm_run_id t)), (''timer_id'', JStr (pm_timer_id t)),
                           (''kind'', JStr (pm_kind t)), (''action'', JStr action)]
         in case fire_timers g cl redrive on_timer ts w1 of (outs, w2) \<Rightarrow> (entry # outs, w2)))"

definition sdk_fire_due_timers_once ::
    "'w sdk_registry \<Rightarrow> 'w reactor_client \<Rightarrow> (PbRun \<Rightarrow> 'w \<Rightarrow> (py_exn + unit) \<times> 'w) option \<Rightarrow>
     (PbTimer \<Rightarrow> 'w \<Rightarrow> (py_exn + unit) \<times> 'w) option \<Rightarrow> 'w \<Rightarrow> (py_exn + json list) \<times> 'w" where
  "sdk_fire_due_timers_once g cl redrive on_timer w =
     and_then (rc_list_due_timers cl True 500 w)
       (\<lambda>ts w1. case fire_timers g cl redrive on_timer ts w1 of (outs, w2) \<Rightarrow> (Inr outs, w2))"

section \<open>Watching the calls\<close>

datatype recon_act =
    RaObserve PbEffect "py_exn + SdkObservationResult"
  | RaCheck string "py_exn + json"
  | RaRecord string string int string wire_text string
  | RaReconcile string string int wire_text wire_text

definition watch_reactor :: "'w reactor_client \<Rightarrow> ('w \<times> recon_act list) reactor_client" where
  "watch_reactor cl = \<lparr>
     rc_list_pending_effects = (\<lambda>o' p u n. unlogged (rc_list_pending_effects cl o' p u n)),
     rc_record_external_observation = (\<lambda>r k s x t d.
       logged (RaRecord r k s x t d) (rc_record_external_observation cl r k s x t d)),
     rc_reconcile_effect = (\<lambda>r k s t e. logged (RaReconcile r k s t e) (rc_reconcile_effect cl r k s t e)),
     rc_list_due_timers = (\<lambda>c n. unlogged (rc_list_due_timers cl c n)),
     rc_send_signal = (\<lambda>r g' t. unlogged (rc_send_signal cl r g' t)),
     rc_get_run = (\<lambda>r. unlogged (rc_get_run cl r)),
     rc_get_effect = (\<lambda>r k. unlogged (rc_get_effect cl r k))\<rparr>"

definition watch_observers ::
    "(string \<times> 'w sdk_connector) list \<Rightarrow> (string \<times> ('w \<times> recon_act list) sdk_connector) list" where
  "watch_observers cs = map (\<lambda>(n, c). (n, \<lparr>sk_name = sk_name c,
     sk_dispatch = (\<lambda>e. unlogged (sk_dispatch c e)),
     sk_observe = (\<lambda>e. logged_reply (RaObserve e) (sk_observe c e))\<rparr>)) cs"

definition watch_checks :: "'w sdk_registry \<Rightarrow> ('w \<times> recon_act list) sdk_registry" where
  "watch_checks g = \<lparr>rg_compensators = rg_compensators g,
     rg_status_checks = (\<lambda>n. map_option (\<lambda>chk k. logged_reply (RaCheck k) (chk k)) (rg_status_checks g n)),
     rg_tool_compensators = rg_tool_compensators g\<rparr>"

text \<open>
  What a pass should do with an effect, given the answers it gets. An observation counts as its
  status says, as the protocol numbers it (confirmed 1, failed 2, absent 3, duplicate 4, stuck 5); an
  empty status is absent, and an unknown one or an exception is stuck.
\<close>

definition observed_as :: "py_exn + SdkObservationResult \<Rightarrow> int" where
  "observed_as ans = (case ans of
     Inl ex \<Rightarrow> 5
   | Inr obs \<Rightarrow> (case map_of [([], 3), (''confirmed'', 1), (''failed'', 2), (''absent'', 3), (''duplicate'', 4)] (so_status obs) of
        Some n \<Rightarrow> n | None \<Rightarrow> 5))"

definition observation_record :: "'w sdk_registry \<Rightarrow> PbEffect \<Rightarrow> py_exn + SdkObservationResult \<Rightarrow> recon_act" where
  "observation_record g e ans = RaRecord (pe_run_id e) (pe_idempotency_key e) (observed_as ans)
     (case ans of Inl ex \<Rightarrow> [] | Inr obs \<Rightarrow> so_external_ref obs)
     (JsonText (JObj (case ans of Inl ex \<Rightarrow> [] | Inr obs \<Rightarrow> so_response obs)))
     (if observed_as ans = 4 then comp_kind_of g e else [])"

definition found_at_counterparty :: "json \<Rightarrow> bool" where
  "found_at_counterparty v = (case v of JObj kvs \<Rightarrow> map_of kvs ''found'' = None \<or> truthy (the (map_of kvs ''found'')) | _ \<Rightarrow> truthy v)"

definition check_writes :: "PbEffect \<Rightarrow> py_exn + json \<Rightarrow> recon_act list" where
  "check_writes e ans = (case ans of
     Inl ex \<Rightarrow> []
   | Inr v \<Rightarrow>
       if found_at_counterparty v then
         [RaReconcile (pe_run_id e) (pe_idempotency_key e) EFFECT_STATUS_CONFIRMED (found_response v) (PlainText [])]
       else if pe_status e = EFFECT_STATUS_UNKNOWN \<and> pe_semantics e \<noteq> EFFECT_SEMANTICS_NON_IDEMPOTENT then
         [RaReconcile (pe_run_id e) (pe_idempotency_key e) EFFECT_STATUS_FAILED (PlainText [])
            (JsonText (JObj [(''reconciled'', JStr ''absent at counterparty'')]))]
       else [])"

definition observable :: "(string \<times> 'w sdk_connector) list \<Rightarrow> PbEffect \<Rightarrow> bool" where
  "observable cs e \<longleftrightarrow> pe_connector e \<noteq> [] \<and> get_connector (pe_connector e) cs \<noteq> None"

definition recon_writes :: "(string \<times> 'w sdk_connector) list \<Rightarrow> 'w sdk_registry \<Rightarrow> PbEffect \<Rightarrow> recon_act list \<Rightarrow> bool" where
  "recon_writes cs g e acts \<longleftrightarrow>
     (if observable cs e then \<exists>ans. acts = [RaObserve e ans, observation_record g e ans]
      else if get_status_check (pe_tool_name e) g = None then acts = []
      else \<exists>ans. acts = RaCheck (pe_idempotency_key e) ans # check_writes e ans)"

text \<open>A server over a queue of one unknown effect of each kind, and a check that finds nothing.\<close>

definition lost_wire :: PbEffect where
  "lost_wire = sample_wire\<lparr>pe_status := EFFECT_STATUS_UNKNOWN, pe_connector := []\<rparr>"

definition lost_mail :: PbEffect where
  "lost_mail = lost_wire\<lparr>pe_idempotency_key := ''key2'', pe_semantics := 1\<rparr>"

definition lossy_client :: "unit reactor_client" where
  "lossy_client = \<lparr>rc_list_pending_effects = (\<lambda>ol p u n w. (Inr [lost_wire, lost_mail], w)),
     rc_record_external_observation = (\<lambda>r k s x t d w. (Inr (), w)),
     rc_reconcile_effect = (\<lambda>r k s t e w. (Inr (), w)),
     rc_list_due_timers = (\<lambda>c n w. (Inr [], w)),
     rc_send_signal = (\<lambda>r g t w. (Inr (), w)),
     rc_get_run = (\<lambda>r w. (Inl (PyExn ''KeyError'' ''run''), w)),
     rc_get_effect = (\<lambda>r k w. (Inr (True, lost_wire), w))\<rparr>"

definition absent_checks :: "unit sdk_registry" where
  "absent_checks = register_status_check ''pay'' (\<lambda>k w. (Inr (JObj [(''found'', JBool False)]), w)) no_registry"

section \<open>The calls of a pass\<close>

lemma get_connector_observers [simp]:
  "get_connector n (watch_observers cs) = map_option (\<lambda>c. \<lparr>sk_name = sk_name c,
     sk_dispatch = (\<lambda>e. unlogged (sk_dispatch c e)), sk_observe = (\<lambda>e. logged_reply (RaObserve e) (sk_observe c e))\<rparr>)
     (get_connector n cs)"
  by (induction cs) (auto simp: get_connector_def watch_observers_def)

lemma watch_reactor_simps [simp]:
  "rc_record_external_observation (watch_reactor cl) r k s x t d = logged (RaRecord r k s x t d) (rc_record_external_observation cl r k s x t d)"
  "rc_reconcile_effect (watch_reactor cl) r k s t e = logged (RaReconcile r k s t e) (rc_reconcile_effect cl r k s t e)"
  "rc_list_pending_effects (watch_reactor cl) ol p u n = unlogged (rc_list_pending_effects cl ol p u n)"
  "rc_get_effect (watch_reactor cl) r k = unlogged (rc_get_effect cl r k)"
  by (simp_all add: watch_reactor_def)

lemma status_check_watch [simp]: "get_status_check n (watch_checks g) =
    map_option (\<lambda>chk k. logged_reply (RaCheck k) (chk k)) (get_status_check n g)"
  by (simp add: get_status_check_def watch_checks_def)

lemma check_found_iff: "check_found v = found_at_counterparty v"
  by (auto simp: check_found_def found_at_counterparty_def split: json.splits option.splits)

lemma comp_kind_watch [simp]: "comp_kind_of (watch_checks g) e = comp_kind_of g e"
  by (simp add: comp_kind_of_def get_tool_compensator_def watch_checks_def)

lemma observe_none: "\<not> observable cs e \<Longrightarrow> observe_via_connector (watch_observers cs) e (w, l) = (None, w, l)"
  by (auto simp: observable_def observe_via_connector_def split: option.splits)

lemma resolution_observed: "status_str_to_resolution (str_or st ''absent'') =
    observed_as (Inr \<lparr>so_status = st, so_external_ref = x, so_response = r\<rparr>)"
  by (auto simp: status_str_to_resolution_def observed_as_def str_or_def EFFECT_RESOLUTION_CONFIRMED_def EFFECT_RESOLUTION_FAILED_def
      EFFECT_RESOLUTION_ABSENT_def EFFECT_RESOLUTION_DUPLICATE_def EFFECT_RESOLUTION_STUCK_def)

lemma settle_observed_trace:
  "\<exists>res w'. settle_observed (watch_checks g) (watch_reactor cl) e (st, x, r) (w, l) =
     (res, w', l @ [observation_record g e (Inr \<lparr>so_status = st, so_external_ref = x, so_response = r\<rparr>)])"
proof -
  have dup: "str_or st ''absent'' = ''duplicate'' \<longleftrightarrow> observed_as (Inr \<lparr>so_status = st, so_external_ref = x, so_response = r\<rparr>) = 4"
    by (auto simp: observed_as_def str_or_def)
  show ?thesis
    by (simp add: settle_observed_def Let_def call_run observation_record_def resolution_observed [where x = x and r = r] dup
        split: sum.splits)
qed

lemma observed_item_trace:
  assumes "observable cs e"
  shows "\<exists>res w' ans. sdk_reconcile_item (watch_observers cs) (watch_checks g) (watch_reactor cl) e (w, l) =
     (res, w', l @ [RaObserve e ans, observation_record g e ans])"
proof -
  obtain c where c: "pe_connector e \<noteq> []" "get_connector (pe_connector e) cs = Some c" using assms by (auto simp: observable_def)
  obtain ans w1 where o: "sk_observe c e w = (ans, w1)" by fastforce
  show ?thesis
  proof (cases ans)
    case (Inl ex)
    have "observe_via_connector (watch_observers cs) e (w, l) = (Some (''stuck'', [], []), w1, l @ [RaObserve e (Inl ex)])"
      using c o Inl by (simp add: observe_via_connector_def call_observe_def logged_reply_run)
    moreover have "observation_record g e (Inr \<lparr>so_status = ''stuck'', so_external_ref = [], so_response = []\<rparr>) = observation_record g e (Inl ex)"
      by (simp add: observation_record_def observed_as_def)
    ultimately show ?thesis
      using settle_observed_trace [of g cl e "''stuck''" "[]" "[]" w1 "l @ [RaObserve e (Inl ex)]"] by (auto simp: sdk_reconcile_item_def)
  next
    case (Inr obs)
    have "observe_via_connector (watch_observers cs) e (w, l) =
        (Some (so_status obs, so_external_ref obs, so_response obs), w1, l @ [RaObserve e (Inr obs)])"
      using c o Inr by (simp add: observe_via_connector_def call_observe_def logged_reply_run)
    then show ?thesis
      using settle_observed_trace [of g cl e "so_status obs" "so_external_ref obs" "so_response obs" w1 "l @ [RaObserve e (Inr obs)]"]
      by (cases obs) (auto simp: sdk_reconcile_item_def)
  qed
qed

lemma settle_checked_trace:
  "\<exists>res w'. settle_checked (watch_reactor cl) e v (w, l) = (res, w', l @ check_writes e (Inr v))"
  by (auto simp: settle_checked_def check_writes_def check_found_iff call_run split: sum.splits)

lemma reconcile_item_trace:
  "\<exists>res w' acts. sdk_reconcile_item (watch_observers cs) (watch_checks g) (watch_reactor cl) e (w, l) = (res, w', l @ acts) \<and>
     recon_writes cs g e acts"
proof (cases "observable cs e")
  case True
  then show ?thesis using observed_item_trace [OF True, of g cl w l] by (auto simp: recon_writes_def)
next
  case False
  note none = observe_none [OF False]
  show ?thesis
  proof (cases "get_status_check (pe_tool_name e) g")
    case None
    with False none show ?thesis by (simp add: sdk_reconcile_item_def recon_writes_def)
  next
    case (Some chk)
    obtain ans w2 where chk: "chk (pe_idempotency_key e) w = (ans, w2)" by fastforce
    show ?thesis
    proof (cases ans)
      case (Inl ex)
      with False none Some chk show ?thesis
        by (auto simp: sdk_reconcile_item_def recon_writes_def logged_reply_run check_writes_def)
    next
      case (Inr v)
      with False none Some chk settle_checked_trace [of cl e v w2 "l @ [RaCheck (pe_idempotency_key e) ans]"] show ?thesis
        by (auto simp: sdk_reconcile_item_def recon_writes_def logged_reply_run)
    qed
  qed
qed

interpretation reconciling: traced_step
  "sdk_reconcile_item (watch_observers cs) (watch_checks g) (watch_reactor cl)" "recon_writes cs g" for cs g cl
  by unfold_locales (rule reconcile_item_trace)

lemma check_writes_failed:
  "RaReconcile r k EFFECT_STATUS_FAILED t er \<in> set (check_writes e ans) \<Longrightarrow>
   r = pe_run_id e \<and> k = pe_idempotency_key e \<and> pe_status e = EFFECT_STATUS_UNKNOWN \<and> pe_semantics e \<noteq> EFFECT_SEMANTICS_NON_IDEMPOTENT"
  by (cases ans) (auto simp: check_writes_def EFFECT_STATUS_FAILED_def EFFECT_STATUS_CONFIRMED_def split: if_splits)

lemma recon_writes_failed:
  assumes "recon_writes cs g e acts" and "RaReconcile r k EFFECT_STATUS_FAILED t er \<in> set acts"
  shows "r = pe_run_id e \<and> k = pe_idempotency_key e \<and> pe_status e = EFFECT_STATUS_UNKNOWN \<and>
    pe_semantics e \<noteq> EFFECT_SEMANTICS_NON_IDEMPOTENT \<and> \<not> observable cs e"
proof (cases "observable cs e")
  case True
  then show ?thesis using assms by (auto simp: recon_writes_def observation_record_def)
next
  case False
  then obtain ans where "RaReconcile r k EFFECT_STATUS_FAILED t er \<in> set (check_writes e ans)"
    using assms by (auto simp: recon_writes_def split: if_splits)
  from check_writes_failed [OF this] False show ?thesis by blast
qed

lemma fire_timers_total: "length (fst (fire_timers g cl redrive on_timer ts w)) = length ts"
proof (induction ts arbitrary: w)
  case (Cons t ts)
  obtain r w1 where "fire_timer g cl redrive on_timer t w = (r, w1)" by fastforce
  with Cons.IH [of w1] show ?case by (auto simp: Let_def split: prod.splits)
qed simp

section \<open>Properties\<close>

text \<open>
  C21. A reconcile pass of the SDK asks about each listed effect once, in list order, and writes what
  it was told. An effect whose connector is registered is observed, and the observation is recorded
  as its status says, with its reference and response, and with the compensation of the tool for a
  duplicate. Any other effect is checked where its tool has a status check, and is confirmed if the
  check found it; the pass itself declares an effect failed only if a check did not find it, it was
  unknown and it is not non-idempotent. The pass stops early only if the server refuses a write.
\<close>

theorem sdk_reconciler_never_guesses:
  assumes "rc_list_pending_effects cl (if 0 < after then now - after else 0) (0 < after) True 500 w = (Inr effects, w1)"
  shows "\<exists>res w' accs. sdk_reconcile_once (watch_observers cs) (watch_checks g) (watch_reactor cl) after now (w, []) =
       (res, w', concat accs) \<and>
     list_all2 (recon_writes cs g) (take (length accs) effects) accs \<and>
     (length accs = length effects \<or> (\<exists>ex. res = Inl ex)) \<and>
     (\<forall>r k t er. RaReconcile r k EFFECT_STATUS_FAILED t er \<in> set (concat accs) \<longrightarrow>
        (\<exists>e \<in> set effects. r = pe_run_id e \<and> k = pe_idempotency_key e \<and> pe_status e = EFFECT_STATUS_UNKNOWN \<and>
           pe_semantics e \<noteq> EFFECT_SEMANTICS_NON_IDEMPOTENT \<and> \<not> observable cs e))"
proof -
  obtain res w' accs where run: "each (sdk_reconcile_item (watch_observers cs) (watch_checks g) (watch_reactor cl)) effects (w1, []) =
      (res, w', concat accs)"
    and acc: "list_all2 (recon_writes cs g) (take (length accs) effects) accs"
    and len: "length accs = length effects \<or> (\<exists>ex. res = Inl ex)"
    using reconciling.each_traced [of cs g cl effects w1 "[]"] by auto
  have "\<exists>r. sdk_reconcile_once (watch_observers cs) (watch_checks g) (watch_reactor cl) after now (w, []) = (r, w', concat accs) \<and>
      ((\<exists>ex. res = Inl ex) \<longrightarrow> (\<exists>ex. r = Inl ex))"
    using assms run by (auto simp: sdk_reconcile_once_def Let_def call_run split: sum.splits)
  moreover have "\<forall>r k t er. RaReconcile r k EFFECT_STATUS_FAILED t er \<in> set (concat accs) \<longrightarrow>
        (\<exists>e \<in> set effects. r = pe_run_id e \<and> k = pe_idempotency_key e \<and> pe_status e = EFFECT_STATUS_UNKNOWN \<and>
           pe_semantics e \<noteq> EFFECT_SEMANTICS_NON_IDEMPOTENT \<and> \<not> observable cs e)"
    using reconciling.each_member [OF acc] recon_writes_failed by blast
  ultimately show ?thesis using acc len by blast
qed

theorem sdk_reconciler_never_guesses_witness:
  "\<exists>res w' accs. sdk_reconcile_once (watch_observers []) (watch_checks absent_checks) (watch_reactor lossy_client) 0 0 ((), []) =
     (res, w', concat accs) \<and> list_all2 (recon_writes [] absent_checks) (take (length accs) [lost_wire, lost_mail]) accs"
proof -
  have "rc_list_pending_effects lossy_client (if (0::int) < 0 then 0 - 0 else 0) ((0::int) < 0) True 500 () =
      (Inr [lost_wire, lost_mail], ())" by (simp add: lossy_client_def)
  from sdk_reconciler_never_guesses [OF this, of "[]" absent_checks] show ?thesis by blast
qed

text \<open>The verdicts of that pass: the wire is left unknown, the mail is failed.\<close>

lemma reconcile_leaves_non_idempotent:
  "sdk_reconcile_once (watch_observers []) (watch_checks absent_checks) (watch_reactor lossy_client) 0 0 ((), []) =
     (Inr [outcome_entry lost_wire ''left-unknown'' [(''reason'', JStr ''non-idempotent + no observe()'')],
           outcome_entry lost_mail ''failed'' []], (),
      [RaCheck ''key1'' (Inr (JObj [(''found'', JBool False)])), RaCheck ''key2'' (Inr (JObj [(''found'', JBool False)])),
       RaReconcile ''run1'' ''key2'' EFFECT_STATUS_FAILED (PlainText [])
         (JsonText (JObj [(''reconciled'', JStr ''absent at counterparty'')]))])"
  by code_simp

text \<open>
  A \<open>reconcile\<close> timer has no such restraint: with the same check it declares the
  non-idempotent wire failed.
\<close>

lemma timer_fails_non_idempotent:
  "fire_timer (watch_checks absent_checks) (watch_reactor lossy_client) None None
     \<lparr>pm_run_id = ''run1'', pm_timer_id = ''t'', pm_kind = ''reconcile'',
      pm_payload_json = JsonText (JObj [(''key'', JStr ''key1'')])\<rparr> ((), []) =
   (Inr ''reconciled key1 -> failed'', (),
    [RaCheck ''key1'' (Inr (JObj [(''found'', JBool False)])),
     RaReconcile ''run1'' ''key1'' EFFECT_STATUS_FAILED (JsonText (JObj [])) (PlainText [])])"
  by code_simp

end
