(* ===== verification/SdkDrainer.thy ===== *)
theory SdkDrainer
  imports SdkOutbox
begin

text \<open>
  The obligations reactor of the gRPC SDK: \<open>compensate_one\<close> and \<open>compensate_run\<close> of
  \<open>_recover.py\<close> and \<open>compensate_once\<close> of \<open>reactors/__init__.py\<close>.

  A compensator is code of the application: it gets the payload of the obligation (as
  keyword arguments where it is a dict, as one argument otherwise) and returns a value or
  raises. It is found in the process registry or by importing the module the obligation
  names; modules are given as trees of attributes. \<open>time.time()\<close> in milliseconds is a call
  that acts on the world.
\<close>

section \<open>Data\<close>

definition OBLIGATION_STATUS_PENDING :: int where
  "OBLIGATION_STATUS_PENDING = 1"

definition OBLIGATION_STATUS_COMPENSATED :: int where
  "OBLIGATION_STATUS_COMPENSATED = 3"

definition OBLIGATION_STATUS_STUCK :: int where
  "OBLIGATION_STATUS_STUCK = 4"

definition RUN_STATUS_FAILED :: int where
  "RUN_STATUS_FAILED = 5"

definition RUN_STATUS_COMPENSATING :: int where
  "RUN_STATUS_COMPENSATING = 6"

definition RUN_STATUS_STUCK :: int where
  "RUN_STATUS_STUCK = 7"

record PbObligation =
  po_run_id :: string
  po_seq :: int
  po_kind :: string
  po_payload_json :: wire_text
  po_compensator_ref :: string
  po_status :: int
  po_attempts :: int
  po_max_attempts :: int
  po_next_attempt_at_ms :: int

type_synonym 'w comp_fn = "json \<Rightarrow> 'w \<Rightarrow> (py_exn + json) \<times> 'w"

text \<open>A module or attribute: what calling it does, if it is callable, and its attributes.\<close>

datatype 'w py_obj = PyObj (obj_call: "'w comp_fn option") (obj_attrs: "(string \<times> 'w py_obj) list")

record 'w drain_client =
  dr_claim_obligation :: "string \<Rightarrow> int \<Rightarrow> string \<Rightarrow> int \<Rightarrow> 'w \<Rightarrow> (py_exn + bool \<times> PbObligation option) \<times> 'w"
  dr_record_obligation_attempt :: "string \<Rightarrow> int \<Rightarrow> string \<Rightarrow> int \<Rightarrow> 'w \<Rightarrow> (py_exn + PbObligation) \<times> 'w"
  dr_resolve_obligation :: "string \<Rightarrow> int \<Rightarrow> int \<Rightarrow> wire_text \<Rightarrow> 'w \<Rightarrow> (py_exn + unit) \<times> 'w"
  dr_list_unresolved :: "int \<Rightarrow> bool \<Rightarrow> bool \<Rightarrow> bool \<Rightarrow> 'w \<Rightarrow> (py_exn + PbObligation list) \<times> 'w"
  dr_list_obligations :: "string \<Rightarrow> bool \<Rightarrow> 'w \<Rightarrow> (py_exn + PbObligation list) \<times> 'w"
  dr_end_run :: "string \<Rightarrow> int \<Rightarrow> wire_text \<Rightarrow> 'w \<Rightarrow> (py_exn + unit) \<times> 'w"
  dr_time_ms :: "'w \<Rightarrow> int \<times> 'w"

section \<open>Finding the inverse\<close>

text \<open>\<open>s.partition(":")\<close> without the separator, and \<open>s.split(".")\<close>.\<close>

definition partition_at :: "char \<Rightarrow> string \<Rightarrow> string \<times> string" where
  "partition_at c s = (takeWhile (\<lambda>x. x \<noteq> c) s, drop 1 (dropWhile (\<lambda>x. x \<noteq> c) s))"

fun split_at :: "char \<Rightarrow> string \<Rightarrow> string \<Rightarrow> string list" where
  "split_at c acc [] = [acc]"
| "split_at c acc (x # xs) = (if x = c then acc # split_at c [] xs else split_at c (acc @ [x]) xs)"

fun walk_path :: "'w py_obj \<Rightarrow> string list \<Rightarrow> 'w py_obj option" where
  "walk_path ob [] = Some ob"
| "walk_path ob (p # ps) = (case map_of (obj_attrs ob) p of None \<Rightarrow> None | Some x \<Rightarrow> walk_path x ps)"

text \<open>\<open>call_of\<close> is the callable behind a registered compensator; \<open>modules\<close> what can be imported.\<close>

definition resolve_compensator ::
    "(fn_ref \<Rightarrow> 'w comp_fn) \<Rightarrow> (string \<rightharpoonup> 'w py_obj) \<Rightarrow> 'v sdk_registry \<Rightarrow> PbObligation \<Rightarrow> 'w comp_fn option" where
  "resolve_compensator call_of modules g ob =
     (case get_compensator (po_kind ob) g of
        Some fn \<Rightarrow> Some (call_of fn)
      | None \<Rightarrow>
          if po_compensator_ref ob = [] \<or> CHR '':'' \<notin> set (po_compensator_ref ob) then None
          else (case partition_at (CHR '':'') (po_compensator_ref ob) of (md, attr) \<Rightarrow>
                  (case modules md of
                     None \<Rightarrow> None
                   | Some m \<Rightarrow>
                       (case walk_path m (split_at (CHR ''.'') [] attr) of
                          None \<Rightarrow> None
                        | Some ob' \<Rightarrow> obj_call ob'))))"

definition drain_backoff_ms :: "int \<Rightarrow> int" where
  "drain_backoff_ms attempts = min (1000 * 2 ^ nat (max 0 (attempts - 1))) (5 * 60000)"

section \<open>Draining one obligation\<close>

datatype drain_outcome =
    DrSkipped string int
  | DrCompensated string json
  | DrScheduled string int string int
  | DrStuck string int string "int option"

definition no_compensator_error :: "PbObligation \<Rightarrow> json" where
  "no_compensator_error ob = JObj [(''error'', JStr (''no compensator registered for kind='' @ repr_str (po_kind ob) @
     '' (compensator_ref='' @ repr_str (po_compensator_ref ob) @ '')''))]"

definition ob_payload :: "wire_text \<Rightarrow> json" where
  "ob_payload t = (case t of JsonText v \<Rightarrow> v | PlainText _ \<Rightarrow> JObj [])"

text \<open>After the inverse raised; the attempt is terminal where the budget is used up.\<close>

definition drain_failed ::
    "'w drain_client \<Rightarrow> PbObligation \<Rightarrow> py_exn \<Rightarrow> 'w \<Rightarrow> (py_exn + drain_outcome) \<times> 'w" where
  "drain_failed cl cur ex w =
     (let next_attempts = po_attempts cur + 1;
          (next_at, w1) = (if next_attempts \<ge> max 1 (po_max_attempts cur) then (0, w)
                           else (case dr_time_ms cl w of (now, w') \<Rightarrow> (now + drain_backoff_ms next_attempts, w')))
      in and_then (dr_record_obligation_attempt cl (po_run_id cur) (po_seq cur) (exn_msg ex) next_at w1)
           (\<lambda>updated w2.
              (Inr (if po_status updated = OBLIGATION_STATUS_STUCK
                    then DrStuck (po_kind cur) (po_attempts updated) (exn_msg ex) (Some (po_next_attempt_at_ms updated))
                    else DrScheduled (po_kind cur) (po_attempts updated) (exn_msg ex) (po_next_attempt_at_ms updated)), w2)))"

definition compensate_one ::
    "(fn_ref \<Rightarrow> 'w comp_fn) \<Rightarrow> (string \<rightharpoonup> 'w py_obj) \<Rightarrow> 'v sdk_registry \<Rightarrow> 'w drain_client \<Rightarrow> string \<Rightarrow> int \<Rightarrow>
     PbObligation \<Rightarrow> 'w \<Rightarrow> (py_exn + drain_outcome) \<times> 'w" where
  "compensate_one call_of modules g cl claimer lease_ttl_ms ob w =
     and_then (dr_claim_obligation cl (po_run_id ob) (po_seq ob) claimer lease_ttl_ms w)
       (\<lambda>(acquired, row) w1.
          if \<not> acquired then
            (Inr (DrSkipped ''claim-lost'' (case row of Some r \<Rightarrow> po_status r | None \<Rightarrow> 0)), w1)
          else
            (case row of
               None \<Rightarrow> (Inr (DrSkipped ''missing'' 0), w1)
             | Some cur \<Rightarrow>
                 (case resolve_compensator call_of modules g cur of
                    None \<Rightarrow>
                      and_then (dr_resolve_obligation cl (po_run_id cur) (po_seq cur) OBLIGATION_STATUS_STUCK
                                  (JsonText (no_compensator_error cur)) w1)
                        (\<lambda>_ w2. (Inr (DrStuck (po_kind cur) (po_attempts cur) ''no-compensator'' None), w2))
                  | Some fn \<Rightarrow>
                      (case fn (ob_payload (po_payload_json cur)) w1 of
                         (Inl ex, w2) \<Rightarrow> drain_failed cl cur ex w2
                       | (Inr result, w2) \<Rightarrow>
                           and_then (dr_resolve_obligation cl (po_run_id cur) (po_seq cur) OBLIGATION_STATUS_COMPENSATED
                                       (JsonText result) w2)
                             (\<lambda>_ w3. (Inr (DrCompensated (po_kind cur) result), w3))))))"

section \<open>Draining a batch and a run\<close>

definition drain_rows ::
    "(PbObligation \<Rightarrow> 'w \<Rightarrow> (py_exn + drain_outcome) \<times> 'w) \<Rightarrow> PbObligation list \<Rightarrow> 'w \<Rightarrow>
     (py_exn + (PbObligation \<times> drain_outcome) list) \<times> 'w" where
  "drain_rows one = each (\<lambda>ob w. and_then (one ob w) (\<lambda>r w1. (Inr (ob, r), w1)))"

definition compensate_once ::
    "(fn_ref \<Rightarrow> 'w comp_fn) \<Rightarrow> (string \<rightharpoonup> 'w py_obj) \<Rightarrow> 'v sdk_registry \<Rightarrow> 'w drain_client \<Rightarrow> string \<Rightarrow> string \<Rightarrow> int \<Rightarrow> bool \<Rightarrow>
     'w \<Rightarrow> (py_exn + (PbObligation \<times> drain_outcome) list) \<times> 'w" where
  "compensate_once call_of modules g cl claimer cid limit committed_expired w =
     and_then (dr_list_unresolved cl limit True False committed_expired w)
       (drain_rows (compensate_one call_of modules g cl (str_or claimer cid) 60000))"

text \<open>The obligations of a run that are due; the clock is read for the pending ones.\<close>

fun due_rows :: "'w drain_client \<Rightarrow> PbObligation list \<Rightarrow> 'w \<Rightarrow> PbObligation list \<times> 'w" where
  "due_rows cl [] w = ([], w)"
| "due_rows cl (ob # obs) w =
     (if po_status ob = OBLIGATION_STATUS_PENDING then
        (case dr_time_ms cl w of (now, w1) \<Rightarrow>
           (case due_rows cl obs w1 of (rest, w2) \<Rightarrow>
              ((if po_next_attempt_at_ms ob \<le> now then ob # rest else rest), w2)))
      else due_rows cl obs w)"

record drain_tally =
  dt_compensated :: "string list"
  dt_stuck :: "string list"
  dt_scheduled :: "string list"

definition no_tally :: drain_tally where
  "no_tally = \<lparr>dt_compensated = [], dt_stuck = [], dt_scheduled = []\<rparr>"

definition tally :: "drain_outcome \<Rightarrow> drain_tally \<Rightarrow> drain_tally" where
  "tally r t = (case r of
     DrCompensated k _ \<Rightarrow> t\<lparr>dt_compensated := dt_compensated t @ [k]\<rparr>
   | DrStuck k _ _ _ \<Rightarrow> t\<lparr>dt_stuck := dt_stuck t @ [k]\<rparr>
   | DrScheduled k _ _ _ \<Rightarrow> t\<lparr>dt_scheduled := dt_scheduled t @ [k]\<rparr>
   | DrSkipped _ _ \<Rightarrow> t)"

fun run_passes ::
    "(PbObligation \<Rightarrow> 'w \<Rightarrow> (py_exn + drain_outcome) \<times> 'w) \<Rightarrow> 'w drain_client \<Rightarrow> string \<Rightarrow> nat \<Rightarrow> drain_tally \<Rightarrow> 'w \<Rightarrow>
     (py_exn + drain_tally) \<times> 'w" where
  "run_passes one cl run_id 0 t w = (Inr t, w)"
| "run_passes one cl run_id (Suc n) t w =
     and_then (dr_list_obligations cl run_id True w)
       (\<lambda>listed w1.
          (case due_rows cl listed w1 of (obs, w2) \<Rightarrow>
             if obs = [] then (Inr t, w2)
             else and_then (drain_rows one obs w2)
                    (\<lambda>rs. run_passes one cl run_id n (fold (\<lambda>(ob, r). tally r) rs t))))"

definition run_detail :: "drain_tally \<Rightarrow> nat \<Rightarrow> (string \<times> json) list" where
  "run_detail t leftover = [(''compensated'', JArr (map JStr (dt_compensated t))), (''stuck'', JArr (map JStr (dt_stuck t))),
     (''scheduled'', JArr (map JStr (dt_scheduled t))), (''leftover'', JNum (int leftover))]"

definition final_status :: "drain_tally \<Rightarrow> PbObligation list \<Rightarrow> int" where
  "final_status t leftover =
     (if dt_stuck t \<noteq> [] then RUN_STATUS_STUCK
      else if leftover \<noteq> [] then RUN_STATUS_COMPENSATING
      else RUN_STATUS_FAILED)"

definition compensate_run ::
    "(fn_ref \<Rightarrow> 'w comp_fn) \<Rightarrow> (string \<rightharpoonup> 'w py_obj) \<Rightarrow> 'v sdk_registry \<Rightarrow> 'w drain_client \<Rightarrow> string \<Rightarrow> string \<Rightarrow> int \<Rightarrow> string \<Rightarrow>
     'w \<Rightarrow> (py_exn + json) \<times> 'w" where
  "compensate_run call_of modules g cl claimer cid max_passes run_id w =
     and_then (dr_end_run cl run_id RUN_STATUS_COMPENSATING (PlainText []) w)
       (\<lambda>_ w1. and_then (run_passes (compensate_one call_of modules g cl (str_or claimer cid) 60000) cl run_id
                           (nat (max 1 max_passes)) no_tally w1)
          (\<lambda>t w2. and_then (dr_list_obligations cl run_id True w2)
             (\<lambda>listed w3.
                let leftover = filter (\<lambda>ob. po_status ob = OBLIGATION_STATUS_PENDING) listed;
                    final = final_status t leftover
                in and_then (dr_end_run cl run_id final (JsonText (JObj (run_detail t (length leftover)))) w3)
                     (\<lambda>_ w4.
                        if dt_stuck t \<noteq> [] then
                          (Inl (PyExn ''RuntimeError'' (''compensation stuck for '' @ run_id @ '': '' @
                             py_repr (JArr (map JStr (dt_stuck t))) @ '' '' @ [CHR 0xE2, CHR 0x80, CHR 0x94] @ '' needs a human'')), w4)
                        else (Inr (JObj (run_detail t (length leftover) @ [(''final_status'', JNum final)])), w4)))))"

section \<open>Watching the calls\<close>

datatype drain_act =
    DaClaim string int string int
  | DaInverse json
  | DaAttempt string int string int
  | DaResolve string int int wire_text
  | DaEnd string int

definition watch_drain :: "'w drain_client \<Rightarrow> ('w \<times> drain_act list) drain_client" where
  "watch_drain cl = \<lparr>
     dr_claim_obligation = (\<lambda>r s c t. logged (DaClaim r s c t) (dr_claim_obligation cl r s c t)),
     dr_record_obligation_attempt = (\<lambda>r s e t. logged (DaAttempt r s e t) (dr_record_obligation_attempt cl r s e t)),
     dr_resolve_obligation = (\<lambda>r s st t. logged (DaResolve r s st t) (dr_resolve_obligation cl r s st t)),
     dr_list_unresolved = (\<lambda>n p s c. unlogged (dr_list_unresolved cl n p s c)),
     dr_list_obligations = (\<lambda>r u. unlogged (dr_list_obligations cl r u)),
     dr_end_run = (\<lambda>r s t. logged (DaEnd r s) (dr_end_run cl r s t)),
     dr_time_ms = unlogged (dr_time_ms cl)\<rparr>"

definition watch_fn :: "'w comp_fn \<Rightarrow> ('w \<times> drain_act list) comp_fn" where
  "watch_fn f p = logged (DaInverse p) (f p)"

text \<open>When a failed attempt is to be made again: never, or after the backoff.\<close>

definition next_attempt_ok :: "PbObligation \<Rightarrow> int \<Rightarrow> int \<Rightarrow> bool" where
  "next_attempt_ok cur now next_at \<longleftrightarrow>
     (if po_attempts cur + 1 \<ge> max 1 (po_max_attempts cur) then next_at = 0
      else now + 1000 \<le> next_at \<and> next_at \<le> now + 300000)"

text \<open>A server with one obligation, held by another drainer or free.\<close>

definition sample_ob :: PbObligation where
  "sample_ob = \<lparr>po_run_id = ''run1'', po_seq = 3, po_kind = ''undo'', po_payload_json = JsonText (JObj []),
     po_compensator_ref = ''bank:undo'', po_status = 1, po_attempts = 0, po_max_attempts = 5, po_next_attempt_at_ms = 0\<rparr>"

definition one_ob_client :: "PbObligation \<Rightarrow> unit drain_client" where
  "one_ob_client ob = \<lparr>
     dr_claim_obligation = (\<lambda>r s c t w. (Inr (True, Some ob), w)),
     dr_record_obligation_attempt = (\<lambda>r s e t w. (Inr ob, w)),
     dr_resolve_obligation = (\<lambda>r s st t w. (Inr (), w)),
     dr_list_unresolved = (\<lambda>n p s c w. (Inr [ob], w)),
     dr_list_obligations = (\<lambda>r u w. (Inr [ob], w)),
     dr_end_run = (\<lambda>r s t w. (Inr (), w)),
     dr_time_ms = (\<lambda>w. (1000, w))\<rparr>"

section \<open>The calls of one drain\<close>

lemma drain_backoff_Suc: "drain_backoff_ms (int (Suc n) + 1) = min (2 * drain_backoff_ms (int n + 1)) 300000"
  by (simp add: drain_backoff_ms_def nat_add_distrib min_def)

interpretation drain_retry: capped_backoff "\<lambda>n. drain_backoff_ms (int n + 1)" 1000 300000
  by unfold_locales (simp_all only: drain_backoff_Suc, simp_all add: drain_backoff_ms_def)

lemma drain_backoff_bounds: "1000 \<le> drain_backoff_ms n \<and> drain_backoff_ms n \<le> 300000"
proof (cases "1 \<le> n")
  case True
  then show ?thesis using drain_retry.delay_bounds [of "nat (n - 1)"] by simp
next
  case False
  then show ?thesis by (simp add: drain_backoff_ms_def)
qed

lemma watch_drain_simps [simp]:
  "dr_claim_obligation (watch_drain cl) r s c t = logged (DaClaim r s c t) (dr_claim_obligation cl r s c t)"
  "dr_record_obligation_attempt (watch_drain cl) r s e n = logged (DaAttempt r s e n) (dr_record_obligation_attempt cl r s e n)"
  "dr_resolve_obligation (watch_drain cl) r s st x = logged (DaResolve r s st x) (dr_resolve_obligation cl r s st x)"
  "dr_time_ms (watch_drain cl) = unlogged (dr_time_ms cl)"
  by (simp_all add: watch_drain_def)

lemma drain_failed_trace:
  "\<exists>res w' t. drain_failed (watch_drain cl) cur ex (w, l) =
     (res, w', l @ [DaAttempt (po_run_id cur) (po_seq cur) (exn_msg ex) t]) \<and> next_attempt_ok cur (fst (dr_time_ms cl w)) t"
  using drain_backoff_bounds [of "po_attempts cur + 1"]
  by (auto simp: drain_failed_def next_attempt_ok_def and_then_run logged_run unlogged_run Let_def
      split: sum.splits prod.splits)

lemma unclaimed_trace:
  assumes "dr_claim_obligation cl (po_run_id ob) (po_seq ob) claimer ttl w = (rep, w1)"
    and "\<nexists>cur. rep = Inr (True, Some cur)"
  shows "\<exists>res w'. compensate_one call_of modules g (watch_drain cl) claimer ttl ob (w, l) =
    (res, w', l @ [DaClaim (po_run_id ob) (po_seq ob) claimer ttl])"
  using assms by (cases rep) (auto simp: compensate_one_def and_then_run logged_run split: option.splits)

lemma no_inverse_trace:
  assumes "dr_claim_obligation cl (po_run_id ob) (po_seq ob) claimer ttl w = (Inr (True, Some cur), w1)"
    and "resolve_compensator call_of modules g cur = None"
  shows "\<exists>res w' e. compensate_one call_of modules g (watch_drain cl) claimer ttl ob (w, l) =
    (res, w', l @ [DaClaim (po_run_id ob) (po_seq ob) claimer ttl,
                   DaResolve (po_run_id cur) (po_seq cur) OBLIGATION_STATUS_STUCK e])"
  using assms by (auto simp: compensate_one_def and_then_run logged_run split: sum.splits)

text \<open>A registered compensator is found; a reference is followed into its module.\<close>

lemma resolve_registered: "get_compensator (po_kind ob) g = Some fn \<Longrightarrow>
    resolve_compensator call_of modules g ob = Some (call_of fn)"
  by (simp add: resolve_compensator_def)

lemma partition_ref: "CHR '':'' \<notin> set md \<Longrightarrow> partition_at (CHR '':'') (md @ '':'' @ name) = (md, name)"
  by (induction md) (auto simp: partition_at_def)

lemma split_plain: "c \<notin> set xs \<Longrightarrow> split_at c acc xs = [acc @ xs]"
  by (induction xs arbitrary: acc) auto

text \<open>
  The reference decoration computes for a compensator leads a process that never registered
  it to the same attribute of the same module.
\<close>

lemma reference_roundtrip:
  assumes "fn_module fn = Some md" and "md \<noteq> []" and "CHR '':'' \<notin> set md"
    and "fn_qualname fn = Some q" and "q \<noteq> []" and "CHR ''<'' \<notin> set q"
    and "get_compensator (po_kind ob) g = None" and "po_compensator_ref ob = compensator_ref_of fn"
    and "modules md = Some m" and "walk_path m (split_at (CHR ''.'') [] q) = Some target"
  shows "resolve_compensator call_of modules g ob = obj_call target"
proof -
  have "compensator_ref_of fn = md @ '':'' @ q"
    using assms by (simp add: compensator_ref_of_def str_or_def str_default_def)
  with assms show ?thesis by (simp add: resolve_compensator_def partition_ref [simplified])
qed

section \<open>Properties\<close>

text \<open>
  C20. Draining an obligation runs its inverse exactly once, with the row read under the
  lease, and reports exactly what happened: the inverse's result as COMPENSATED, or a
  failed attempt that is terminal precisely when the attempt budget is used up and
  otherwise due again between one second and five minutes later.
\<close>

theorem obligation_drained_once:
  assumes "dr_claim_obligation cl (po_run_id ob) (po_seq ob) claimer ttl w = (Inr (True, Some cur), w1)"
    and "resolve_compensator call_of modules g cur = Some (watch_fn f)"
    and "f (ob_payload (po_payload_json cur)) w1 = (outcome, w2)"
  shows "\<exists>res w' report. compensate_one call_of modules g (watch_drain cl) claimer ttl ob (w, []) =
      (res, w', [DaClaim (po_run_id ob) (po_seq ob) claimer ttl, DaInverse (ob_payload (po_payload_json cur)), report]) \<and>
    (case outcome of
       Inr v \<Rightarrow> report = DaResolve (po_run_id cur) (po_seq cur) OBLIGATION_STATUS_COMPENSATED (JsonText v)
     | Inl ex \<Rightarrow> \<exists>t. report = DaAttempt (po_run_id cur) (po_seq cur) (exn_msg ex) t \<and>
                   next_attempt_ok cur (fst (dr_time_ms cl w2)) t)"
proof (cases outcome)
  case (Inr v)
  with assms show ?thesis
    by (auto simp: compensate_one_def and_then_run logged_run watch_fn_def split: sum.splits)
next
  case (Inl ex)
  with assms drain_failed_trace [of cl cur ex w2 "[DaClaim (po_run_id ob) (po_seq ob) claimer ttl,
      DaInverse (ob_payload (po_payload_json cur))]"] show ?thesis
    by (auto simp: compensate_one_def and_then_run logged_run watch_fn_def)
qed

theorem obligation_drained_once_witness:
  "\<exists>res w' t. compensate_one (\<lambda>fn. watch_fn (\<lambda>p w. (Inl (PyExn ''Down'' ''later''), w))) Map.empty
       (register_compensator ''undo'' \<lparr>fn_module = None, fn_qualname = None, fn_name = Some ''undo''\<rparr> (no_registry :: unit sdk_registry))
       (watch_drain (one_ob_client sample_ob)) ''me'' 60000 sample_ob ((), []) =
     (res, w', [DaClaim ''run1'' 3 ''me'' 60000, DaInverse (JObj []), DaAttempt ''run1'' 3 ''later'' t]) \<and>
   1000 + 1000 \<le> t \<and> t \<le> 1000 + 300000"
proof -
  let ?f = "(\<lambda>p w. (Inl (PyExn ''Down'' ''later''), w)) :: unit comp_fn"
  let ?g = "register_compensator ''undo'' \<lparr>fn_module = None, fn_qualname = None, fn_name = Some ''undo''\<rparr> (no_registry :: unit sdk_registry)"
  have claim: "dr_claim_obligation (one_ob_client sample_ob) (po_run_id sample_ob) (po_seq sample_ob) ''me'' 60000 () =
      (Inr (True, Some sample_ob), ())" by (simp add: one_ob_client_def)
  have res: "resolve_compensator (\<lambda>fn. watch_fn ?f) Map.empty ?g sample_ob = Some (watch_fn ?f)"
    by (simp add: resolve_compensator_def get_compensator_def register_compensator_def sample_ob_def)
  from obligation_drained_once [OF claim res, of "Inl (PyExn ''Down'' ''later'')" "()"] show ?thesis
    by (auto simp: next_attempt_ok_def one_ob_client_def exn_msg_def) (auto simp: sample_ob_def ob_payload_def)
qed

text \<open>
  The final status of \<open>compensate_run\<close> only looks at pending obligations: with the one
  obligation of the run still held by another drainer, it reports that all work is done.
\<close>

lemma run_ends_failed_while_committed:
  "snd (snd (compensate_run (\<lambda>fn. watch_fn (\<lambda>p w. (Inr JNull, w))) Map.empty (no_registry :: unit sdk_registry)
       (watch_drain (one_ob_client (sample_ob\<lparr>po_status := 2\<rparr>))) ''me'' ''host/1'' 32 ''run1'' ((), []))) =
   [DaEnd ''run1'' RUN_STATUS_COMPENSATING, DaEnd ''run1'' RUN_STATUS_FAILED]"
  by code_simp

end
