(* ===== verification/SdkLoops.thy ===== *)
theory SdkLoops
  imports SdkReconciler SdkDrainer
begin

text \<open>
  The loops that run the reactors of the gRPC SDK: the recovery of \<open>_recover.py\<close>, and the
  compactor, the event-driven drainer and the tick of \<open>run_reactors\<close> in
  \<open>reactors/__init__.py\<close>. The server, the runner that re-drives an invocation and the clock
  are parameters, as in \<open>SdkOutbox\<close>.
\<close>

section \<open>Recovery\<close>

record RecoverableRun =
  rr_run_id :: string
  rr_app_name :: string
  rr_user_id :: string
  rr_session_id :: string
  rr_invocation_id :: string

text \<open>What a run is re-driven with: the callback if there is one, else the local runner.\<close>

record 'w redriver =
  rd_redrive_fn :: "(RecoverableRun \<Rightarrow> 'w \<Rightarrow> (py_exn + unit) \<times> 'w) option"
  rd_runner :: "(string \<Rightarrow> string \<Rightarrow> string \<Rightarrow> 'w \<Rightarrow> (py_exn + unit) \<times> 'w) option"

definition redrive :: "'w redriver \<Rightarrow> RecoverableRun \<Rightarrow> 'w \<Rightarrow> (py_exn + unit) \<times> 'w" where
  "redrive d r w =
     (case rd_redrive_fn d of
        Some f \<Rightarrow> f r w
      | None \<Rightarrow>
          (case rd_runner d of
             None \<Rightarrow> (Inl (PyExn ''ValueError'' ''recover/redrive needs either `runner=` (a local ADK Runner) or `redrive_fn=`''), w)
           | Some run_async \<Rightarrow> run_async (rr_user_id r) (rr_session_id r) (rr_invocation_id r) w))"

definition resume :: "'w redriver \<Rightarrow> string \<Rightarrow> string \<Rightarrow> string \<Rightarrow> 'w \<Rightarrow> (py_exn + unit) \<times> 'w" where
  "resume d invocation_id user_id session_id w =
     redrive d \<lparr>rr_run_id = [], rr_app_name = [], rr_user_id = user_id, rr_session_id = session_id, rr_invocation_id = invocation_id\<rparr> w"

definition recover_item :: "'w redriver \<Rightarrow> RecoverableRun \<Rightarrow> 'w \<Rightarrow> (py_exn + json) \<times> 'w" where
  "recover_item d r w = and_then (redrive d r w)
     (\<lambda>_ w1. (Inr (JObj [(''run_id'', JStr (rr_run_id r)), (''invocation_id'', JStr (rr_invocation_id r))]), w1))"

definition recover_once ::
    "(int \<Rightarrow> 'w \<Rightarrow> (py_exn + RecoverableRun list) \<times> 'w) \<Rightarrow> 'w redriver \<Rightarrow> int \<Rightarrow> 'w \<Rightarrow> (py_exn + json list) \<times> 'w" where
  "recover_once list_runs d limit w = and_then (list_runs limit w) (each (recover_item d))"

section \<open>Compaction\<close>

record PbCompactReport =
  cp_decisions_zeroed :: int
  cp_effects_zeroed :: int
  cp_bytes_saved :: int
  cp_already_compacted :: bool

record 'w compact_client =
  cc_list_compactable_runs :: "int \<Rightarrow> int \<Rightarrow> 'w \<Rightarrow> (py_exn + string list) \<times> 'w"
  cc_compact_run :: "string \<Rightarrow> 'w \<Rightarrow> (py_exn + PbCompactReport) \<times> 'w"

definition compact_report :: "string \<Rightarrow> py_exn + PbCompactReport \<Rightarrow> json" where
  "compact_report run_id r = (case r of
     Inr rep \<Rightarrow> JObj [(''run_id'', JStr run_id), (''decisions_zeroed'', JNum (cp_decisions_zeroed rep)),
                 (''effects_zeroed'', JNum (cp_effects_zeroed rep)), (''bytes_saved'', JNum (cp_bytes_saved rep)),
                 (''already_compacted'', JBool (cp_already_compacted rep))]
   | Inl ex \<Rightarrow> JObj [(''run_id'', JStr run_id), (''error'', JStr (exn_msg ex))])"

definition compact_item :: "'w compact_client \<Rightarrow> string \<Rightarrow> 'w \<Rightarrow> (py_exn + json) \<times> 'w" where
  "compact_item cl run_id w = (case cc_compact_run cl run_id w of (r, w1) \<Rightarrow> (Inr (compact_report run_id r), w1))"

definition compact_cutoff :: "int \<Rightarrow> int \<Rightarrow> int" where
  "compact_cutoff before_ms now_ms = (if before_ms \<le> 0 then now_ms - 24 * 60 * 60 * 1000 else before_ms)"

definition sdk_compact_once :: "'w compact_client \<Rightarrow> int \<Rightarrow> int \<Rightarrow> int \<Rightarrow> 'w \<Rightarrow> (py_exn + json list) \<times> 'w" where
  "sdk_compact_once cl before_ms limit now_ms w =
     and_then (cc_list_compactable_runs cl (compact_cutoff before_ms now_ms) limit w) (each (compact_item cl))"

text \<open>Seconds as a float to whole milliseconds: \<open>int(x * 1000)\<close> truncates.\<close>

definition trunc_ms :: "rat \<Rightarrow> int" where
  "trunc_ms s = (if 0 \<le> s then \<lfloor>s * 1000\<rfloor> else \<lceil>s * 1000\<rceil>)"

definition tick_error :: "string \<Rightarrow> string \<Rightarrow> json" where
  "tick_error what msg = JObj [(''error'', JStr msg), (''tick'', JStr what)]"

text \<open>One iteration of \<open>run_compactor\<close>: the summary its callback gets.\<close>

definition run_compactor_round :: "'w compact_client \<Rightarrow> rat \<Rightarrow> int \<Rightarrow> rat \<Rightarrow> 'w \<Rightarrow> json \<times> 'w" where
  "run_compactor_round cl hot_window_s batch_limit now_s w =
     (case sdk_compact_once cl (trunc_ms now_s - trunc_ms hot_window_s) batch_limit (trunc_ms now_s) w of (r, w1) \<Rightarrow>
        (let reports = (case r of Inr rs \<Rightarrow> rs | Inl ex \<Rightarrow> [tick_error ''compactor'' (exn_msg ex)])
         in (JObj [(''compactor'', JBool True), (''reports'', JArr reports), (''count'', JNum (int (length reports)))], w1)))"

section \<open>The tick\<close>

text \<open>The reactors a tick may run, and which of them are on.\<close>

datatype 'x reactor_result = RanOk 'x | RanError string

definition attempt_of :: "(py_exn + 'x) \<times> 'w \<Rightarrow> 'x reactor_result \<times> 'w" where
  "attempt_of rw = (case rw of (Inr v, w) \<Rightarrow> (RanOk v, w) | (Inl ex, w) \<Rightarrow> (RanError (exn_msg ex), w))"

definition run_if :: "bool \<Rightarrow> ('w \<Rightarrow> (py_exn + 'x) \<times> 'w) \<Rightarrow> 'w \<Rightarrow> 'x reactor_result option \<times> 'w" where
  "run_if on f w = (if on then (case attempt_of (f w) of (r, w1) \<Rightarrow> (Some r, w1)) else (None, w))"

record 'w reactor_set =
  rs_can_redrive :: bool
  rs_recover :: "'w \<Rightarrow> (py_exn + json list) \<times> 'w"
  rs_reconcile :: "'w \<Rightarrow> (py_exn + json list) \<times> 'w"
  rs_timers :: "'w \<Rightarrow> (py_exn + json list) \<times> 'w"
  rs_compensations :: "'w \<Rightarrow> (py_exn + (PbObligation \<times> drain_outcome) list) \<times> 'w"
  rs_compact :: "int \<Rightarrow> int \<Rightarrow> 'w \<Rightarrow> (py_exn + json list) \<times> 'w"

record reactor_config =
  cf_recover :: bool
  cf_reconcile :: bool
  cf_timers :: bool
  cf_compensations :: bool
  cf_compact :: bool
  cf_compact_hot_window_s :: rat
  cf_compact_interval_s :: rat

record tick_report =
  tk_recovered :: "json list reactor_result option"
  tk_reconciled :: "json list reactor_result option"
  tk_timers :: "json list reactor_result option"
  tk_compensations :: "(PbObligation \<times> drain_outcome) list reactor_result option"
  tk_compactions :: "json list reactor_result option"

text \<open>
  One iteration of \<open>run_reactors\<close>, at the clock reading the compactor takes; \<open>last_at\<close> is
  \<open>_last_compact_at\<close>, which the tick returns.
\<close>

definition compaction_due :: "reactor_config \<Rightarrow> rat \<Rightarrow> rat \<Rightarrow> bool" where
  "compaction_due cf last_at now_s \<longleftrightarrow> cf_compact cf \<and> now_s - last_at \<ge> cf_compact_interval_s cf"

definition reactors_tick ::
    "reactor_config \<Rightarrow> 'w reactor_set \<Rightarrow> rat \<Rightarrow> rat \<Rightarrow> 'w \<Rightarrow> tick_report \<times> rat \<times> 'w" where
  "reactors_tick cf rs now_s last_at w =
     (case run_if (cf_recover cf \<and> rs_can_redrive rs) (rs_recover rs) w of (r1, w1) \<Rightarrow>
      case run_if (cf_reconcile cf) (rs_reconcile rs) w1 of (r2, w2) \<Rightarrow>
      case run_if (cf_timers cf) (rs_timers rs) w2 of (r3, w3) \<Rightarrow>
      case run_if (cf_compensations cf) (rs_compensations rs) w3 of (r4, w4) \<Rightarrow>
      case run_if (compaction_due cf last_at now_s)
             (rs_compact rs (trunc_ms now_s - trunc_ms (cf_compact_hot_window_s cf)) (trunc_ms now_s)) w4 of (r5, w5) \<Rightarrow>
        (\<lparr>tk_recovered = r1, tk_reconciled = r2, tk_timers = r3, tk_compensations = r4, tk_compactions = r5\<rparr>,
         (if compaction_due cf last_at now_s then now_s else last_at), w5))"

text \<open>The reactors of the SDK, at the arguments \<open>run_reactors\<close> calls them with.\<close>

record 'w reactor_deps =
  rx_connectors :: "(string \<times> 'w sdk_connector) list"
  rx_registry :: "'w sdk_registry"
  rx_client :: "'w reactor_client"
  rx_drain :: "'w drain_client"
  rx_compact :: "'w compact_client"
  rx_list_runs :: "int \<Rightarrow> 'w \<Rightarrow> (py_exn + RecoverableRun list) \<times> 'w"
  rx_redriver :: "'w redriver"
  rx_call_of :: "fn_ref \<Rightarrow> 'w comp_fn"
  rx_modules :: "string \<rightharpoonup> 'w py_obj"
  rx_claimer :: string
  rx_claimer_id :: string
  rx_pending_after_s :: rat

definition timer_redrive :: "'w redriver \<Rightarrow> (PbRun \<Rightarrow> 'w \<Rightarrow> (py_exn + unit) \<times> 'w) option" where
  "timer_redrive d =
     (if Option.is_none (rd_redrive_fn d) \<and> Option.is_none (rd_runner d) then None
      else Some (\<lambda>r. resume d (pr_invocation_id r) (pr_user_id r) (pr_session_id r)))"

definition sdk_reactor_set :: "'w reactor_deps \<Rightarrow> int \<Rightarrow> 'w reactor_set" where
  "sdk_reactor_set d now_ms = \<lparr>
     rs_can_redrive = (\<not> Option.is_none (rd_redrive_fn (rx_redriver d)) \<or> \<not> Option.is_none (rd_runner (rx_redriver d))),
     rs_recover = recover_once (rx_list_runs d) (rx_redriver d) 50,
     rs_reconcile = sdk_reconcile_once (rx_connectors d) (rx_registry d) (rx_client d) (trunc_ms (rx_pending_after_s d)) now_ms,
     rs_timers = sdk_fire_due_timers_once (rx_registry d) (rx_client d) (timer_redrive (rx_redriver d)) None,
     rs_compensations = compensate_once (rx_call_of d) (rx_modules d) (rx_registry d) (rx_drain d) (rx_claimer d) (rx_claimer_id d) 200 True,
     rs_compact = (\<lambda>before_ms. sdk_compact_once (rx_compact d) before_ms 100)\<rparr>"

text \<open>The loop, over the clock readings its ticks take: the compactor's and the reconciler's.\<close>

fun run_reactors ::
    "reactor_config \<Rightarrow> (int \<Rightarrow> 'w reactor_set) \<Rightarrow> (rat \<times> int) list \<Rightarrow> rat \<Rightarrow> 'w \<Rightarrow> (rat \<times> tick_report) list \<times> rat \<times> 'w" where
  "run_reactors cf rsf [] last_at w = ([], last_at, w)"
| "run_reactors cf rsf ((now_s, now_ms) # later) last_at w =
     (case reactors_tick cf (rsf now_ms) now_s last_at w of (rep, last1, w1) \<Rightarrow>
        (case run_reactors cf rsf later last1 w1 of (reps, last2, w2) \<Rightarrow> ((now_s, rep) # reps, last2, w2)))"

section \<open>Draining on events\<close>

datatype window_end = WindowIdle | WindowRaises py_exn

text \<open>
  One window of \<open>run_compensations_event_driven\<close>: the time stamps it saw, how the stream
  ended (a deadline or a cancellation is idle), and the drain if anything was seen; the
  callback is not set. Returned is the time stamp the next window starts from.
\<close>

definition drain_window ::
    "('w \<Rightarrow> (py_exn + (PbObligation \<times> drain_outcome) list) \<times> 'w) \<Rightarrow> int list \<Rightarrow> window_end \<Rightarrow> int \<Rightarrow> 'w \<Rightarrow>
     (py_exn + (PbObligation \<times> drain_outcome) list) \<times> int \<times> 'w" where
  "drain_window drain stamps ending from_ts w =
     (let from_ts' = fold max stamps from_ts in
      case ending of
        WindowRaises ex \<Rightarrow> (Inl ex, from_ts', w)
      | WindowIdle \<Rightarrow>
          if stamps = [] then (Inr [], from_ts', w)
          else (case drain w of (r, w1) \<Rightarrow> (r, from_ts', w1)))"

section \<open>Watching the compactor\<close>

definition watch_compact :: "'w compact_client \<Rightarrow> ('w \<times> string list) compact_client" where
  "watch_compact cl = \<lparr>cc_list_compactable_runs = (\<lambda>b n. unlogged (cc_list_compactable_runs cl b n)),
     cc_compact_run = (\<lambda>r. logged r (cc_compact_run cl r))\<rparr>"

text \<open>A report of a run tells what the server answered for it.\<close>

definition reports_run :: "'w compact_client \<Rightarrow> string \<Rightarrow> json \<Rightarrow> bool" where
  "reports_run cl run_id rep \<longleftrightarrow> (\<exists>w r w'. cc_compact_run cl run_id w = (r, w') \<and> rep = compact_report run_id r)"

interpretation compacting: traced_step "compact_item (watch_compact cl)" "\<lambda>run_id acts. acts = [run_id]" for cl
  by unfold_locales (simp add: compact_item_def watch_compact_def logged_run)

lemma compact_item_run: "\<exists>rep w'. compact_item cl run_id w = (Inr rep, w') \<and> reports_run cl run_id rep"
  by (auto simp: compact_item_def reports_run_def split: prod.splits)

lemma each_total:
  assumes "\<And>x w. \<exists>r w'. one x w = (Inr r, w') \<and> q x r"
  shows "\<exists>rs w'. each one xs w = (Inr rs, w') \<and> list_all2 q xs rs"
proof (induction xs arbitrary: w)
  case (Cons x xs)
  obtain r w1 where r: "one x w = (Inr r, w1)" "q x r" using assms by blast
  obtain rs w2 where "each one xs w1 = (Inr rs, w2)" "list_all2 q xs rs" using Cons.IH by blast
  with r show ?case by (intro exI [of _ "r # rs"]) (simp add: and_then_run)
qed simp

lemma single_acts: "list_all2 (\<lambda>x acts. acts = [x]) xs accs \<Longrightarrow> concat accs = xs"
  by (induction rule: list_all2_induct) auto

lemma watch_reports: "reports_run (watch_compact cl) run_id rep \<Longrightarrow> reports_run cl run_id rep"
  by (auto simp: reports_run_def watch_compact_def logged_def split: prod.splits) (metis surj_pair)

section \<open>The cadence of the compactor\<close>

definition compact_times :: "(rat \<times> tick_report) list \<Rightarrow> rat list" where
  "compact_times reps = map fst (filter (\<lambda>(t, rep). tk_compactions rep \<noteq> None) reps)"

lemma tick_compacts:
  "reactors_tick cf rs now_s last_at w = (rep, last1, w1) \<Longrightarrow>
   (tk_compactions rep \<noteq> None \<longleftrightarrow> compaction_due cf last_at now_s) \<and>
   last1 = (if compaction_due cf last_at now_s then now_s else last_at)"
  by (auto simp: reactors_tick_def run_if_def split: prod.splits if_splits)

lemma tick_runs_all:
  "reactors_tick cf rs now_s last_at w = (rep, last1, w1) \<Longrightarrow>
   (tk_recovered rep \<noteq> None \<longleftrightarrow> cf_recover cf \<and> rs_can_redrive rs) \<and> (tk_reconciled rep \<noteq> None \<longleftrightarrow> cf_reconcile cf) \<and>
   (tk_timers rep \<noteq> None \<longleftrightarrow> cf_timers cf) \<and> (tk_compensations rep \<noteq> None \<longleftrightarrow> cf_compensations cf)"
  by (auto simp: reactors_tick_def run_if_def split: prod.splits if_splits)

lemma compact_times_spaced:
  assumes "0 \<le> cf_compact_interval_s cf"
  shows "run_reactors cf rsf nows last_at w = (reps, last2, w2) \<Longrightarrow>
    sorted_wrt (\<lambda>a b. a + cf_compact_interval_s cf \<le> b) (last_at # compact_times reps)"
proof (induction nows arbitrary: last_at w reps last2 w2)
  case Nil
  then show ?case by (simp add: compact_times_def)
next
  case (Cons reading later)
  obtain now_s now_ms where rd: "reading = (now_s, now_ms)" by force
  obtain rep last1 w1 where t: "reactors_tick cf (rsf now_ms) now_s last_at w = (rep, last1, w1)" by (metis surj_pair)
  obtain reps' where r: "run_reactors cf rsf later last1 w1 = (reps', last2, w2)" "reps = (now_s, rep) # reps'"
    using Cons.prems t by (auto simp: rd split: prod.splits)
  have ih: "sorted_wrt (\<lambda>a b. a + cf_compact_interval_s cf \<le> b) (last1 # compact_times reps')" using Cons.IH [OF r(1)] .
  show ?case
  proof (cases "compaction_due cf last_at now_s")
    case True
    with tick_compacts [OF t] r(2) have "compact_times reps = now_s # compact_times reps'" "last1 = now_s"
      by (auto simp: compact_times_def)
    moreover have le: "last_at + cf_compact_interval_s cf \<le> now_s" using True by (simp add: compaction_due_def)
    moreover have "last_at + cf_compact_interval_s cf \<le> b" if "now_s + cf_compact_interval_s cf \<le> b" for b
      using that le assms by linarith
    ultimately show ?thesis using ih by auto
  next
    case False
    with tick_compacts [OF t] r(2) ih show ?thesis by (auto simp: compact_times_def)
  qed
qed

lemma run_reactors_reports:
  "run_reactors cf rsf nows last_at w = (reps, last2, w2) \<Longrightarrow>
   map fst reps = map fst nows \<and> (\<forall>(t, rep) \<in> set reps.
     (tk_reconciled rep \<noteq> None \<longleftrightarrow> cf_reconcile cf) \<and>
     (tk_timers rep \<noteq> None \<longleftrightarrow> cf_timers cf) \<and> (tk_compensations rep \<noteq> None \<longleftrightarrow> cf_compensations cf))"
proof (induction nows arbitrary: last_at w reps last2 w2)
  case (Cons reading later)
  obtain now_s now_ms where rd: "reading = (now_s, now_ms)" by force
  obtain rep last1 w1 where t: "reactors_tick cf (rsf now_ms) now_s last_at w = (rep, last1, w1)" by (metis surj_pair)
  obtain reps' where r: "run_reactors cf rsf later last1 w1 = (reps', last2, w2)" "reps = (now_s, rep) # reps'"
    using Cons.prems t by (auto simp: rd split: prod.splits)
  with Cons.IH [OF r(1)] tick_runs_all [OF t] show ?case by (simp add: rd)
qed simp

section \<open>Properties\<close>

text \<open>
  A compaction batch is not held up by a run: \<open>compact_once\<close> asks the server once for
  every run it listed, in order, and returns one report per run with what the server
  answered, a refusal included.
\<close>

lemma sdk_compaction_reports_every_run:
  assumes "cc_list_compactable_runs cl (compact_cutoff before_ms now_ms) limit w = (Inr runs, w1)"
  shows "\<exists>reports w'. sdk_compact_once (watch_compact cl) before_ms limit now_ms (w, []) = (Inr reports, w', runs) \<and>
    list_all2 (reports_run cl) runs reports"
proof -
  have ls: "cc_list_compactable_runs (watch_compact cl) (compact_cutoff before_ms now_ms) limit (w, []) = (Inr runs, w1, [])"
    using assms by (simp add: watch_compact_def unlogged_run)
  obtain reports wl where e: "each (compact_item (watch_compact cl)) runs (w1, []) = (Inr reports, wl)"
    and reps: "list_all2 (reports_run (watch_compact cl)) runs reports"
    using each_total [of "compact_item (watch_compact cl)" "reports_run (watch_compact cl)" runs "(w1, [])", OF compact_item_run] by blast
  obtain accs where accs: "snd wl = concat accs" "list_all2 (\<lambda>x acts. acts = [x]) (take (length accs) runs) accs" "length accs = length runs"
    using compacting.each_traced [of cl runs w1 "[]"] e by auto
  then have "snd wl = runs" using single_acts by (metis order_refl take_all)
  moreover have "list_all2 (reports_run cl) runs reports" using reps watch_reports by (rule list_all2_mono)
  ultimately show ?thesis using e ls by (cases wl) (simp add: sdk_compact_once_def and_then_def)
qed

text \<open>
  The loop of \<open>run_reactors\<close> keeps its cadence: whatever the reactors raise, every tick
  runs each enabled reactor and reports it, and the passes of the compactor are at
  least the configured interval apart, the first that long after the last recorded one.
\<close>

lemma reactors_keep_cadence:
  assumes "0 \<le> cf_compact_interval_s cf" and "run_reactors cf (sdk_reactor_set d) nows last_at w = (reps, last2, w2)"
  shows "map fst reps = map fst nows \<and>
    (\<forall>(t, rep) \<in> set reps. (tk_reconciled rep \<noteq> None \<longleftrightarrow> cf_reconcile cf) \<and> (tk_timers rep \<noteq> None \<longleftrightarrow> cf_timers cf) \<and>
       (tk_compensations rep \<noteq> None \<longleftrightarrow> cf_compensations cf)) \<and>
    sorted_wrt (\<lambda>a b. a + cf_compact_interval_s cf \<le> b) (last_at # compact_times reps)"
  using run_reactors_reports [OF assms(2)] compact_times_spaced [OF assms] by fast

text \<open>Two settled runs of which one is refused, and reactors over the servers of the other theories.\<close>

definition two_run_client :: "unit compact_client" where
  "two_run_client = \<lparr>cc_list_compactable_runs = (\<lambda>b n w. (Inr [''run1'', ''run2''], w)),
     cc_compact_run = (\<lambda>r w. if r = ''run1'' then (Inl (PyExn ''RpcError'' ''not settled''), w)
       else (Inr \<lparr>cp_decisions_zeroed = 1, cp_effects_zeroed = 0, cp_bytes_saved = 10, cp_already_compacted = False\<rparr>, w))\<rparr>"

definition failing_redriver :: "unit redriver" where
  "failing_redriver = \<lparr>rd_redrive_fn = Some (\<lambda>r w. if rr_run_id r = ''run1'' then (Inl (PyExn ''RuntimeError'' ''boom''), w) else (Inr (), w)),
     rd_runner = None\<rparr>"

definition recoverable :: "string \<Rightarrow> RecoverableRun" where
  "recoverable r = \<lparr>rr_run_id = r, rr_app_name = ''a'', rr_user_id = ''u'', rr_session_id = ''s'', rr_invocation_id = r\<rparr>"

definition sample_deps :: "unit reactor_deps" where
  "sample_deps = \<lparr>rx_connectors = [], rx_registry = absent_checks, rx_client = lossy_client, rx_drain = one_ob_client sample_ob,
     rx_compact = two_run_client, rx_list_runs = (\<lambda>n w. (Inr (map recoverable [''run1'', ''run2'']), w)),
     rx_redriver = failing_redriver, rx_call_of = (\<lambda>f p w. (Inr p, w)), rx_modules = Map.empty, rx_claimer = [],
     rx_claimer_id = ''h/1'', rx_pending_after_s = 0\<rparr>"

section \<open>Where recovery falls short\<close>

text \<open>
  \<open>recover_once\<close> does not isolate its runs: one whose re-drive raises keeps every run listed
  after it from being re-driven, on this tick and, as long as it is listed first, on every
  later one.
\<close>

lemma recover_stops_at_failure:
  assumes "redrive d r w = (Inl ex, w')"
  shows "each (recover_item d) (r # rs) w = (Inl ex, w')"
  using assms by (simp add: recover_item_def and_then_def)

lemma recover_batch_held_up:
  "recover_once (rx_list_runs sample_deps) failing_redriver 50 () = (Inl (PyExn ''RuntimeError'' ''boom''), ())"
  by code_simp

end
