(* ===== verification/SdkSession.thy ===== *)
theory SdkSession
  imports SdkPlugin SdkLoops
begin

text \<open>
  The rest of what an agent of the gRPC SDK touches: journaled sampling (\<open>det.py\<close>), gates
  (\<open>gates.py\<close>) and the session service behind ADK (\<open>adk/session.py\<close>).

  The server's calls are parameters, as in \<open>SdkPlugin\<close>; so are ADK's \<open>Event\<close>, its JSON round trip
  and the \<open>append_event\<close> of its base class. The run id in a session's state is a string, as the
  plugin writes it. A sampled function returns a JSON value or raises.
\<close>

section \<open>Sampling\<close>

type_synonym sample_counters = "string \<times> string \<rightharpoonup> int"

definition next_sample :: "string \<Rightarrow> string \<Rightarrow> sample_counters \<Rightarrow> int \<times> sample_counters" where
  "next_sample run_id name cs = (let n = map_default cs (run_id, name) 0 in (n, cs((run_id, name) \<mapsto> n + 1)))"

definition sample_key :: "string \<Rightarrow> string \<Rightarrow> int \<Rightarrow> string" where
  "sample_key run_id name n = run_id @ ''/sample-'' @ name @ ''-'' @ int_str n"

definition sample_request :: "string \<Rightarrow> string \<Rightarrow> int \<Rightarrow> begin_effect_request" where
  "sample_request run_id name n = \<lparr>beq_run_id = run_id, beq_decision_index = -1, beq_tool_name = ''tape:sample:'' @ name,
     beq_call_index = n, beq_request_json = JsonText (JObj []), beq_custom_key = sample_key run_id name n,
     beq_semantics = 0, beq_dispatch_mode = 0, beq_business_key = [], beq_connector = [], beq_scope = []\<rparr>"

text \<open>\<open>json.loads(be.response_json)["v"]\<close>, with \<open>None\<close> where it raises.\<close>

definition recorded_sample :: "wire_text \<Rightarrow> json option" where
  "recorded_sample t = (case t of JsonText (JObj kvs) \<Rightarrow> map_of kvs ''v'' | _ \<Rightarrow> None)"

definition sample_record :: "json \<Rightarrow> wire_text" where
  "sample_record v = JsonText (JObj [(''v'', v)])"

definition sample ::
    "'w plugin_client \<Rightarrow> string \<Rightarrow> string \<Rightarrow> ('w \<Rightarrow> (py_exn + json) \<times> 'w) \<Rightarrow> sample_counters \<Rightarrow> 'w \<Rightarrow>
     (py_exn + json) \<times> sample_counters \<times> 'w" where
  "sample cl run_id name fn cs w =
     (if run_id = [] then (case fn w of (r, w1) \<Rightarrow> (r, cs, w1))
      else (case next_sample run_id name cs of (n, cs1) \<Rightarrow>
        (case pc_begin_effect cl (sample_request run_id name n) w of
           (Inl ex, w1) \<Rightarrow> (case fn w1 of (r, w2) \<Rightarrow> (r, cs1, w2))
         | (Inr be, w1) \<Rightarrow>
             (case (if ber_status be = EFFECT_STATUS_CONFIRMED \<and> ber_response_json be \<noteq> PlainText [] then recorded_sample (ber_response_json be) else None) of
                Some v \<Rightarrow> (Inr v, cs1, w1)
              | None \<Rightarrow>
                  (case fn w1 of
                     (Inl ex, w2) \<Rightarrow> (Inl ex, cs1, w2)
                   | (Inr v, w2) \<Rightarrow>
                       (Inr v, cs1, snd (pc_complete_effect cl run_id (sample_key run_id name n) EFFECT_STATUS_CONFIRMED (sample_record v) (PlainText []) w2)))))))"

definition sample_now where
  "sample_now cl run_id time_fn = sample cl run_id ''now'' time_fn"

definition sample_uuid where
  "sample_uuid cl run_id uuid_fn = sample cl run_id ''uuid'' uuid_fn"

definition sample_random where
  "sample_random cl run_id random_fn = sample cl run_id ''random'' random_fn"

text \<open>An agent's samples, one after the other.\<close>

fun run_samples ::
    "'w plugin_client \<Rightarrow> string \<Rightarrow> (string \<times> ('w \<Rightarrow> (py_exn + json) \<times> 'w)) list \<Rightarrow> sample_counters \<Rightarrow> 'w \<Rightarrow>
     (py_exn + json list) \<times> sample_counters \<times> 'w" where
  "run_samples cl run_id [] cs w = (Inr [], cs, w)"
| "run_samples cl run_id ((name, fn) # calls) cs w =
     (case sample cl run_id name fn cs w of
        (Inl ex, cs1, w1) \<Rightarrow> (Inl ex, cs1, w1)
      | (Inr v, cs1, w1) \<Rightarrow> (case run_samples cl run_id calls cs1 w1 of (r, cs2, w2) \<Rightarrow> (map_sum id (\<lambda>vs. v # vs) r, cs2, w2)))"

section \<open>Gates\<close>

definition gate_payload :: "string \<Rightarrow> (string \<times> json) list \<Rightarrow> json" where
  "gate_payload risk payload = JObj (dict_update payload [(''risk'', JStr risk)])"

definition gate_resolved :: "string \<Rightarrow> wire_text \<Rightarrow> py_exn + json" where
  "gate_resolved name resolution = (case (case resolution of JsonText v \<Rightarrow> v | PlainText _ \<Rightarrow> JObj []) of
     JObj kvs \<Rightarrow> Inr (JObj (dict_update kvs [(''resolved'', JBool True), (''gate'', JStr name)]))
   | v \<Rightarrow> Inl (PyExn ''TypeError'' (repr_str (py_type_name v) @ '' object is not a mapping'')))"

definition gate_pending :: "string \<Rightarrow> json" where
  "gate_pending name = JObj [(''resolved'', JBool False), (''status'', JStr ''pending''), (''gate'', JStr name),
     (''note'', JStr (''awaiting signal '' @ [CHR 39] @ name @ [CHR 39]))]"

definition gate ::
    "(string \<Rightarrow> string \<Rightarrow> wire_text \<Rightarrow> 'w \<Rightarrow> (py_exn + bool \<times> wire_text) \<times> 'w) \<Rightarrow> string \<Rightarrow> string \<Rightarrow> string \<Rightarrow> (string \<times> json) list \<Rightarrow>
     'w \<Rightarrow> (py_exn + json) \<times> 'w" where
  "gate await_signal run_id name risk payload w =
     (if run_id = [] then
        (Inr (JObj [(''resolved'', JBool True), (''gate'', JStr name), (''note'', JStr ''tape not active; auto-resolved'')]), w)
      else (case await_signal run_id name (JsonText (gate_payload risk payload)) w of
              (Inl ex, w1) \<Rightarrow> (Inl ex, w1)
            | (Inr (delivered, resolution), w1) \<Rightarrow>
                if delivered then (gate_resolved name resolution, w1) else (Inr (gate_pending name), w1)))"

definition gate_tool_name :: "string \<Rightarrow> string" where
  "gate_tool_name name = ''await_'' @ replace_char (CHR ''-'') (CHR ''_'') name"

section \<open>Sessions\<close>

record 'e adk_event =
  av_id :: string
  av_invocation_id :: string
  av_author :: string
  av_branch :: string
  av_timestamp_s :: rat
  av_partial :: bool
  av_state_delta :: "(string \<times> json) list"
  av_rest :: 'e

record EventRecord =
  er_id :: string
  er_invocation_id :: string
  er_author :: string
  er_branch :: string
  er_content_json :: wire_text
  er_actions_json :: string
  er_timestamp_ms :: int

definition event_to_proto :: "('e adk_event \<Rightarrow> wire_text) \<Rightarrow> 'e adk_event \<Rightarrow> EventRecord" where
  "event_to_proto dump e = \<lparr>er_id = av_id e, er_invocation_id = av_invocation_id e, er_author = av_author e, er_branch = av_branch e,
     er_content_json = dump e, er_actions_json = [], er_timestamp_ms = trunc_ms (av_timestamp_s e)\<rparr>"

text \<open>\<open>Event(...)\<close> is a parameter; an empty field is passed as \<open>None\<close>.\<close>

definition or_none :: "string \<Rightarrow> string option" where
  "or_none s = (if s = [] then None else Some s)"

definition proto_to_event ::
    "(wire_text \<Rightarrow> py_exn + 'v) \<Rightarrow> (string option \<Rightarrow> string \<Rightarrow> string \<Rightarrow> string option \<Rightarrow> rat option \<Rightarrow> py_exn + 'v) \<Rightarrow> EventRecord \<Rightarrow> py_exn + 'v" where
  "proto_to_event validate new_event rec =
     (if er_content_json rec \<noteq> PlainText [] then validate (er_content_json rec)
      else new_event (or_none (er_id rec)) (er_invocation_id rec) (str_or (er_author rec) ''user'') (or_none (er_branch rec))
             (if er_timestamp_ms rec \<noteq> 0 then Some (of_int (er_timestamp_ms rec) / 1000) else None))"

definition is_temp :: "string \<Rightarrow> bool" where
  "is_temp k \<longleftrightarrow> take 5 k = ''temp:''"

definition filter_persistable_delta :: "(string \<times> json) list \<Rightarrow> (string \<times> json) list" where
  "filter_persistable_delta delta = filter (\<lambda>(k, v). \<not> is_temp k) delta"

record 'v adk_session =
  as_id :: string
  as_app_name :: string
  as_user_id :: string
  as_state :: json
  as_events :: "'v list"
  as_last_update_s :: rat

record session_row =
  sw_session_id :: string
  sw_user_id :: string
  sw_state_json :: wire_text
  sw_last_update_time_ms :: int
  sw_events :: "EventRecord list"

record 'w session_client =
  sl_create :: "string \<Rightarrow> string \<Rightarrow> string \<Rightarrow> wire_text \<Rightarrow> 'w \<Rightarrow> (py_exn + session_row) \<times> 'w"
  sl_get :: "string \<Rightarrow> string \<Rightarrow> string \<Rightarrow> int \<Rightarrow> 'w \<Rightarrow> (py_exn + session_row option) \<times> 'w"
  sl_list :: "string \<Rightarrow> string \<Rightarrow> 'w \<Rightarrow> (py_exn + session_row list) \<times> 'w"
  sl_delete :: "string \<Rightarrow> string \<Rightarrow> string \<Rightarrow> 'w \<Rightarrow> (py_exn + unit) \<times> 'w"
  sl_append :: "string \<Rightarrow> string \<Rightarrow> string \<Rightarrow> EventRecord \<Rightarrow> wire_text \<Rightarrow> 'w \<Rightarrow> (py_exn + unit) \<times> 'w"

text \<open>\<open>json.loads(s or "{}")\<close>; the text of a decoder's error is a parameter.\<close>

definition state_of :: "(string \<Rightarrow> string) \<Rightarrow> wire_text \<Rightarrow> py_exn + json" where
  "state_of decode_error t = (case t of JsonText v \<Rightarrow> Inr v
     | PlainText s \<Rightarrow> if s = [] then Inr (JObj []) else Inl (PyExn ''JSONDecodeError'' (decode_error s)))"

definition session_of ::
    "(string \<Rightarrow> string) \<Rightarrow> string \<Rightarrow> string \<Rightarrow> string \<Rightarrow> 'v list \<Rightarrow> session_row \<Rightarrow> py_exn + 'v adk_session" where
  "session_of decode_error sid app user events row = map_sum id
     (\<lambda>st. \<lparr>as_id = sid, as_app_name = app, as_user_id = user, as_state = st, as_events = events,
        as_last_update_s = of_int (sw_last_update_time_ms row) / 1000\<rparr>) (state_of decode_error (sw_state_json row))"

definition sdk_create_session ::
    "'w session_client \<Rightarrow> (string \<Rightarrow> string) \<Rightarrow> string \<Rightarrow> string \<Rightarrow> json \<Rightarrow> string \<Rightarrow> 'w \<Rightarrow> (py_exn + 'v adk_session) \<times> 'w" where
  "sdk_create_session cl de app user st sid w = and_then (sl_create cl app user sid (JsonText (json_or st (JObj []))) w)
     (\<lambda>row w1. (session_of de (sw_session_id row) app user [] row, w1))"

text \<open>A list comprehension over a conversion that may raise.\<close>

fun all_or_raise :: "('a \<Rightarrow> py_exn + 'b) \<Rightarrow> 'a list \<Rightarrow> py_exn + 'b list" where
  "all_or_raise f [] = Inr []"
| "all_or_raise f (x # xs) = (case f x of Inl ex \<Rightarrow> Inl ex | Inr y \<Rightarrow> map_sum id (\<lambda>ys. y # ys) (all_or_raise f xs))"

definition sdk_get_session ::
    "'w session_client \<Rightarrow> (string \<Rightarrow> string) \<Rightarrow> (EventRecord \<Rightarrow> py_exn + 'v) \<Rightarrow> string \<Rightarrow> string \<Rightarrow> string \<Rightarrow> int option \<Rightarrow> 'w \<Rightarrow>
     (py_exn + 'v adk_session option) \<times> 'w" where
  "sdk_get_session cl de to_event app user sid num_recent w =
     and_then (sl_get cl app user sid (case num_recent of Some n \<Rightarrow> n | None \<Rightarrow> 0) w)
       (\<lambda>found w1. (case found of
          None \<Rightarrow> (Inr None, w1)
        | Some row \<Rightarrow>
            (case all_or_raise to_event (sw_events row) of
               Inl ex \<Rightarrow> (Inl ex, w1)
             | Inr evs \<Rightarrow> (map_sum id Some (session_of de sid app user evs row), w1))))"

definition sdk_list_sessions ::
    "'w session_client \<Rightarrow> (string \<Rightarrow> string) \<Rightarrow> string \<Rightarrow> string option \<Rightarrow> 'w \<Rightarrow> (py_exn + 'v adk_session list) \<times> 'w" where
  "sdk_list_sessions cl de app user w =
     (let u = (case user of Some x \<Rightarrow> x | None \<Rightarrow> []) in
      and_then (sl_list cl app u w)
        (\<lambda>rows w1. (all_or_raise (\<lambda>row. session_of de (sw_session_id row) app (str_or (sw_user_id row) u) [] row) rows, w1)))"

definition sdk_delete_session :: "'w session_client \<Rightarrow> string \<Rightarrow> string \<Rightarrow> string \<Rightarrow> 'w \<Rightarrow> (py_exn + unit) \<times> 'w" where
  "sdk_delete_session cl app user sid w = sl_delete cl app user sid w"

text \<open>\<open>base\<close> is the inherited \<open>append_event\<close>, which updates the session in memory and returns the event.\<close>

definition sdk_append_event ::
    "'w session_client \<Rightarrow> ('e adk_event \<Rightarrow> wire_text) \<Rightarrow> ('v adk_session \<Rightarrow> 'e adk_event \<Rightarrow> py_exn + 'e adk_event \<times> 'v adk_session) \<Rightarrow>
     'v adk_session \<Rightarrow> 'e adk_event \<Rightarrow> 'w \<Rightarrow> (py_exn + 'e adk_event) \<times> 'v adk_session \<times> 'w" where
  "sdk_append_event cl dump base s e w =
     (case base s e of
        Inl ex \<Rightarrow> (Inl ex, s, w)
      | Inr (e1, s1) \<Rightarrow>
          if av_partial e1 then (Inr e1, s1, w)
          else (case sl_append cl (as_app_name s1) (as_user_id s1) (as_id s1) (event_to_proto dump e1)
                       (JsonText (JObj (filter_persistable_delta (av_state_delta e1)))) w of
                  (Inl ex, w1) \<Rightarrow> (Inl ex, s1, w1)
                | (Inr _, w1) \<Rightarrow> (Inr e1, s1, w1)))"

section \<open>Sampling again\<close>

text \<open>
  What sampling relies on: the server answers \<open>begin_effect\<close> for a key with the response that was
  recorded under it and keeps what it has recorded; completing a key that has none records the
  response.
\<close>

definition journals_samples :: "'w plugin_client \<Rightarrow> ('w \<Rightarrow> string \<Rightarrow> wire_text option) \<Rightarrow> bool" where
  "journals_samples cl store \<longleftrightarrow>
     (\<forall>q w. \<exists>be w'. pc_begin_effect cl q w = (Inr be, w') \<and> store w' = store w \<and>
        (case store w (beq_custom_key q) of
           Some resp \<Rightarrow> ber_status be = EFFECT_STATUS_CONFIRMED \<and> ber_response_json be = resp
         | None \<Rightarrow> ber_status be = EFFECT_STATUS_PENDING)) \<and>
     (\<forall>run_id key resp w. store w key = None \<longrightarrow>
        store (snd (pc_complete_effect cl run_id key EFFECT_STATUS_CONFIRMED resp (PlainText []) w)) = (store w)(key := Some resp))"

definition keeps_store :: "('w \<Rightarrow> string \<Rightarrow> wire_text option) \<Rightarrow> (string \<times> ('w \<Rightarrow> (py_exn + json) \<times> 'w)) list \<Rightarrow> bool" where
  "keeps_store store calls \<longleftrightarrow> (\<forall>(name, fn) \<in> set calls. \<forall>w. store (snd (fn w)) = store w)"

definition store_le :: "(string \<Rightarrow> wire_text option) \<Rightarrow> (string \<Rightarrow> wire_text option) \<Rightarrow> bool" where
  "store_le m m' \<longleftrightarrow> (\<forall>k. m k \<noteq> None \<longrightarrow> m' k = m k)"

definition samples_only :: "(string \<Rightarrow> wire_text option) \<Rightarrow> bool" where
  "samples_only m \<longleftrightarrow> (\<forall>k resp. m k = Some resp \<longrightarrow> recorded_sample resp \<noteq> None)"

lemma recorded_of_record [simp]: "recorded_sample (sample_record v) = Some v"
  by (simp add: recorded_sample_def sample_record_def)

lemma recorded_nonempty: "recorded_sample resp = Some v \<Longrightarrow> resp \<noteq> PlainText []"
  by (auto simp: recorded_sample_def)

lemma store_le_refl [simp]: "store_le m m"
  by (simp add: store_le_def)

lemma store_le_trans: "store_le a b \<Longrightarrow> store_le b c \<Longrightarrow> store_le a c"
  by (simp add: store_le_def)

lemma journals_begin:
  assumes "journals_samples cl store"
  shows "\<exists>be w'. pc_begin_effect cl (sample_request run_id name n) w = (Inr be, w') \<and> store w' = store w \<and>
    (case store w (sample_key run_id name n) of
       Some resp \<Rightarrow> ber_status be = EFFECT_STATUS_CONFIRMED \<and> ber_response_json be = resp
     | None \<Rightarrow> ber_status be = EFFECT_STATUS_PENDING)"
proof -
  have "beq_custom_key (sample_request run_id name n) = sample_key run_id name n" by (simp add: sample_request_def)
  with assms show ?thesis unfolding journals_samples_def by metis
qed

lemma journals_complete:
  "journals_samples cl store \<Longrightarrow> store w key = None \<Longrightarrow>
   store (snd (pc_complete_effect cl run_id key EFFECT_STATUS_CONFIRMED resp (PlainText []) w)) = (store w)(key := Some resp)"
  unfolding journals_samples_def by blast

text \<open>A sample that returns has its value in the journal, and only adds to it.\<close>

lemma sample_records:
  assumes srv: "journals_samples cl store" and keep: "\<And>w. store (snd (fn w)) = store w" and run: "run_id \<noteq> []"
    and call: "sample cl run_id name fn cs w = (Inr v, cs1, w1)" and only: "samples_only (store w)"
  shows "map_option recorded_sample (store w1 (sample_key run_id name (map_default cs (run_id, name) 0))) = Some (Some v) \<and>
    store_le (store w) (store w1) \<and> samples_only (store w1)"
proof -
  define n where "n = map_default cs (run_id, name) 0"
  define key where "key = sample_key run_id name n"
  obtain be w0 where begin_call: "pc_begin_effect cl (sample_request run_id name n) w = (Inr be, w0)" and st: "store w0 = store w"
    and reply: "case store w key of Some resp \<Rightarrow> ber_status be = EFFECT_STATUS_CONFIRMED \<and> ber_response_json be = resp
      | None \<Rightarrow> ber_status be = EFFECT_STATUS_PENDING"
    using journals_begin [OF srv] unfolding key_def by blast
  have next_eq: "next_sample run_id name cs = (n, cs((run_id, name) \<mapsto> n + 1))" by (simp add: next_sample_def n_def Let_def)
  show ?thesis
  proof (cases "store w key")
    case (Some resp)
    obtain u where u: "recorded_sample resp = Some u" using only Some unfolding samples_only_def by blast
    have "v = u" "w1 = w0"
      using call run begin_call next_eq reply Some u recorded_nonempty [OF u] by (auto simp: sample_def)
    with st Some u only show ?thesis by (simp add: key_def n_def)
  next
    case None
    obtain r w2 where f: "fn w0 = (r, w2)" by (metis surj_pair)
    have s2: "store w2 = store w" using keep [of w0] f st by simp
    have res: "r = Inr v" "w1 = snd (pc_complete_effect cl run_id key EFFECT_STATUS_CONFIRMED (sample_record v) (PlainText []) w2)"
      using call run begin_call next_eq reply None f
      by (auto simp: sample_def key_def EFFECT_STATUS_PENDING_def EFFECT_STATUS_CONFIRMED_def split: sum.splits)
    have "store w1 = (store w)(key := Some (sample_record v))"
      using journals_complete [OF srv, of w2 key] None s2 unfolding res(2) by simp
    with None only show ?thesis by (simp add: key_def [symmetric] n_def [symmetric] store_le_def samples_only_def)
  qed
qed

text \<open>A sample whose key is in the journal returns the record and does not run its function.\<close>

lemma sample_replays:
  assumes srv: "journals_samples cl store" and run: "run_id \<noteq> []"
    and rec: "map_option recorded_sample (store w (sample_key run_id name (map_default cs (run_id, name) 0))) = Some (Some v)"
  shows "\<exists>w1. sample cl run_id name fn cs w = (Inr v, snd (next_sample run_id name cs), w1) \<and> store w1 = store w \<and>
    (\<forall>fn'. sample cl run_id name fn' cs w = (Inr v, snd (next_sample run_id name cs), w1))"
proof -
  define n where "n = map_default cs (run_id, name) 0"
  obtain resp where resp: "store w (sample_key run_id name n) = Some resp" "recorded_sample resp = Some v"
    using rec by (auto simp: n_def)
  obtain be w0 where b: "pc_begin_effect cl (sample_request run_id name n) w = (Inr be, w0)" "store w0 = store w"
      "ber_status be = EFFECT_STATUS_CONFIRMED" "ber_response_json be = resp"
    using journals_begin [OF srv, of run_id name n w] resp(1) by auto
  have next_eq: "next_sample run_id name cs = (n, cs((run_id, name) \<mapsto> n + 1))" by (simp add: next_sample_def n_def Let_def)
  have "sample cl run_id name g cs w = (Inr v, cs((run_id, name) \<mapsto> n + 1), w0)" for g
    using run b resp(2) next_eq recorded_nonempty [OF resp(2)] by (simp add: sample_def)
  with b(2) next_eq show ?thesis by auto
qed

lemma sample_counts: "run_id \<noteq> [] \<Longrightarrow> sample cl run_id name fn cs w = (r, cs1, w1) \<Longrightarrow> cs1 = snd (next_sample run_id name cs)"
  by (auto simp: sample_def split: prod.splits sum.splits option.splits)

text \<open>The values of a sequence of samples are in the journal, under the keys its counters give.\<close>

fun recorded_run :: "string \<Rightarrow> string list \<Rightarrow> json list \<Rightarrow> sample_counters \<Rightarrow> (string \<Rightarrow> wire_text option) \<Rightarrow> bool" where
  "recorded_run run_id (name # names) (v # vs) cs m \<longleftrightarrow>
     map_option recorded_sample (m (sample_key run_id name (map_default cs (run_id, name) 0))) = Some (Some v) \<and>
     recorded_run run_id names vs (snd (next_sample run_id name cs)) m"
| "recorded_run run_id names vs cs m \<longleftrightarrow> names = [] \<and> vs = []"

lemma recorded_run_mono: "store_le m m' \<Longrightarrow> recorded_run run_id names vs cs m \<Longrightarrow> recorded_run run_id names vs cs m'"
proof (induction run_id names vs cs m rule: recorded_run.induct)
  case (1 run_id name names v vs cs m)
  then have "m' (sample_key run_id name (map_default cs (run_id, name) 0)) = m (sample_key run_id name (map_default cs (run_id, name) 0))"
    by (auto simp: store_le_def)
  with 1 show ?case by simp
qed simp_all

lemma run_samples_records:
  "journals_samples cl store \<Longrightarrow> run_id \<noteq> [] \<Longrightarrow> keeps_store store calls \<Longrightarrow> samples_only (store w) \<Longrightarrow>
   run_samples cl run_id calls cs w = (Inr vs, cs', w') \<Longrightarrow>
   recorded_run run_id (map fst calls) vs cs (store w') \<and> store_le (store w) (store w')"
proof (induction calls arbitrary: cs w vs)
  case Nil
  then show ?case by simp
next
  case (Cons call calls)
  obtain name fn where nf: "call = (name, fn)" by force
  have keep: "store (snd (fn w)) = store w" for w using Cons.prems(3) by (auto simp: keeps_store_def nf)
  obtain v cs1 w1 where one: "sample cl run_id name fn cs w = (Inr v, cs1, w1)"
    using Cons.prems(5) by (auto simp: nf split: prod.splits sum.splits)
  obtain r where r: "run_samples cl run_id calls cs1 w1 = (r, cs', w')" "map_sum id (\<lambda>vs. v # vs) r = Inr vs"
    using Cons.prems(5) one by (auto simp: nf split: prod.splits)
  from map_sum_InrD [OF r(2)] r(1) obtain vs' where rest: "run_samples cl run_id calls cs1 w1 = (Inr vs', cs', w')" and vs: "vs = v # vs'"
    by blast
  note rec = sample_records [OF Cons.prems(1) keep Cons.prems(2) one Cons.prems(4)]
  have "keeps_store store calls" using Cons.prems(3) by (simp add: keeps_store_def)
  from Cons.IH [OF Cons.prems(1,2) this _ rest] rec
  have ih: "recorded_run run_id (map fst calls) vs' cs1 (store w')" "store_le (store w1) (store w')" by auto
  have "store w' (sample_key run_id name (map_default cs (run_id, name) 0)) = store w1 (sample_key run_id name (map_default cs (run_id, name) 0))"
    using rec ih(2) by (auto simp: store_le_def)
  with rec ih sample_counts [OF Cons.prems(2) one] store_le_trans show ?case by (auto simp: nf vs)
qed

lemma run_samples_replays:
  "journals_samples cl store \<Longrightarrow> run_id \<noteq> [] \<Longrightarrow> recorded_run run_id names vs cs (store w) \<Longrightarrow>
   \<exists>cs' w'. store w' = store w \<and> (\<forall>calls. map fst calls = names \<longrightarrow> run_samples cl run_id calls cs w = (Inr vs, cs', w'))"
proof (induction names arbitrary: vs cs w)
  case Nil
  then show ?case by (cases vs) auto
next
  case (Cons name names)
  obtain v vs' where vs: "vs = v # vs'" using Cons.prems(3) by (cases vs) auto
  let ?cs1 = "snd (next_sample run_id name cs)"
  obtain w1 where one: "\<And>fn. sample cl run_id name fn cs w = (Inr v, ?cs1, w1)" and st: "store w1 = store w"
    using sample_replays [OF Cons.prems(1,2)] Cons.prems(3) vs by fastforce
  have "recorded_run run_id names vs' ?cs1 (store w1)" using Cons.prems(3) vs st by simp
  then obtain cs' w' where rest: "store w' = store w1"
    "\<And>calls. map fst calls = names \<Longrightarrow> run_samples cl run_id calls ?cs1 w1 = (Inr vs', cs', w')"
    using Cons.IH [OF Cons.prems(1,2)] by blast
  have "run_samples cl run_id calls cs w = (Inr vs, cs', w')" if names: "map fst calls = name # names" for calls
  proof -
    obtain fn calls' where "calls = (name, fn) # calls'" "map fst calls' = names" using names by (cases calls) auto
    with one [of fn] rest(2) show ?thesis by (simp add: vs)
  qed
  with rest(1) st show ?case by metis
qed

text \<open>Only the counters of the run itself decide the keys of its samples.\<close>

lemma recorded_run_counters:
  "(\<And>name. cs (run_id, name) = cs' (run_id, name)) \<Longrightarrow> recorded_run run_id names vs cs m = recorded_run run_id names vs cs' m"
proof (induction run_id names vs cs m arbitrary: cs' rule: recorded_run.induct)
  case (1 run_id name names v vs cs m)
  have "recorded_run run_id names vs (snd (next_sample run_id name cs)) m = recorded_run run_id names vs (snd (next_sample run_id name cs')) m"
    using "1.prems" by (intro "1.IH") (simp add: next_sample_def map_default_def Let_def)
  with "1.prems" show ?case by (simp add: map_default_def)
qed simp_all

section \<open>Properties\<close>

text \<open>
  C14. Recorded samples are replayed to a process that counts from where the recorded run counted:
  when the samples of a run have returned, drawn with the counters \<open>cs0\<close>, a re-drive whose
  counters of this run are those of \<open>cs0\<close> (as in a fresh process, where both are empty) and that
  draws the same named samples in the same order gets the same values, whatever its functions
  would return, and none of them is called. It relies on the server answering
  \<open>begin_effect\<close> from its journal. The condition on the counters is needed: see
  \<open>same_process_resamples\<close> below.
\<close>

theorem samples_replayed:
  assumes "journals_samples cl store" and "run_id \<noteq> []" and "keeps_store store calls" and "samples_only (store w)"
    and "run_samples cl run_id calls cs0 w = (Inr vs, cs, w1)" and "store_le (store w1) (store w2)"
    and "\<And>name. cs0 (run_id, name) = cs0' (run_id, name)"
  shows "\<exists>cs' w3. store w3 = store w2 \<and>
    (\<forall>calls'. map fst calls' = map fst calls \<longrightarrow> run_samples cl run_id calls' cs0' w2 = (Inr vs, cs', w3))"
proof -
  have "recorded_run run_id (map fst calls) vs cs0 (store w2)"
    using recorded_run_mono [OF assms(6)] run_samples_records [OF assms(1-5)] by blast
  then have "recorded_run run_id (map fst calls) vs cs0' (store w2)"
    using recorded_run_counters [of cs0 run_id cs0', OF assms(7)] by simp
  from run_samples_replays [OF assms(1,2) this] show ?thesis .
qed

text \<open>A server that keeps the responses of effects, beside a counter that a sampled function reads.\<close>

type_synonym ledger_world = "(string \<Rightarrow> wire_text option) \<times> int"

definition ledger_client :: "ledger_world plugin_client" where
  "ledger_client = \<lparr>pc_begin_run = (\<lambda>q w. (Inr (''run1'', False), w)), pc_get_run = (\<lambda>r w. (Inr (RUN_STATUS_RUNNING, []), w)),
     pc_end_run = (\<lambda>r s w. (Inr (), w)), pc_set_budget = (\<lambda>r u t w. (Inr (), w)), pc_admit_budget = (\<lambda>r w. (Inr (True, []), w)),
     pc_charge_budget = (\<lambda>r t w. (Inr (), w)), pc_get_decision = (\<lambda>r i w. (Inr (False, PlainText []), w)),
     pc_record_decision = (\<lambda>r i m t p w. (Inr (), w)),
     pc_begin_effect = (\<lambda>q w. (Inr (case fst w (beq_custom_key q) of
        Some resp \<Rightarrow> \<lparr>ber_idempotency_key = beq_custom_key q, ber_status = EFFECT_STATUS_CONFIRMED, ber_response_json = resp\<rparr>
      | None \<Rightarrow> \<lparr>ber_idempotency_key = beq_custom_key q, ber_status = EFFECT_STATUS_PENDING, ber_response_json = PlainText []\<rparr>), w)),
     pc_get_effect_ref = (\<lambda>r k w. (Inr (False, []), w)),
     pc_complete_effect = (\<lambda>r k s resp err w. (Inr (), (if fst w k = None then (fst w)(k := Some resp) else fst w), snd w)),
     pc_register_compensation = (\<lambda>r k kd p c m w. (Inr (), w))\<rparr>"

definition tick_fn :: "ledger_world \<Rightarrow> (py_exn + json) \<times> ledger_world" where
  "tick_fn w = (Inr (JNum (snd w)), fst w, snd w + 1)"

lemma ledger_journals: "journals_samples ledger_client fst"
  by (auto simp: journals_samples_def ledger_client_def split: option.splits)

theorem samples_replayed_witness:
  "\<exists>cs' w3. fst w3 = (Map.empty(sample_key ''run1'' ''now'' 0 \<mapsto> sample_record (JNum 7))) \<and>
     (\<forall>calls'. map fst calls' = map fst [(''now'', tick_fn)] \<longrightarrow>
        run_samples ledger_client ''run1'' calls' (Map.empty((''run2'', ''now'') \<mapsto> 3)) (Map.empty(sample_key ''run1'' ''now'' 0 \<mapsto> sample_record (JNum 7)), 100) =
          (Inr [JNum 7], cs', w3))"
proof -
  have keep: "keeps_store fst [(''now'', tick_fn)]" by (simp add: keeps_store_def tick_fn_def)
  have only: "samples_only (fst (Map.empty :: string \<Rightarrow> wire_text option, 7 :: int))" by (simp add: samples_only_def)
  have run: "run_samples ledger_client ''run1'' [(''now'', tick_fn)] Map.empty (Map.empty, 7) =
      (Inr [JNum 7], Map.empty((''run1'', ''now'') \<mapsto> 1), Map.empty(sample_key ''run1'' ''now'' 0 \<mapsto> sample_record (JNum 7)), 8)"
    by (simp add: sample_def next_sample_def map_default_def ledger_client_def tick_fn_def sample_request_def
        EFFECT_STATUS_PENDING_def EFFECT_STATUS_CONFIRMED_def Let_def)
  have oth: "(Map.empty :: sample_counters) (''run1'', name) = (Map.empty((''run2'', ''now'') \<mapsto> 3)) (''run1'', name)" for name by simp
  let ?m = "Map.empty(sample_key ''run1'' ''now'' 0 \<mapsto> sample_record (JNum 7))"
  have ne: "''run1'' \<noteq> []" by simp
  have le: "store_le (fst (?m, 8 :: int)) (fst (?m, 100 :: int))" by simp
  from samples_replayed [where store = fst and w = "(Map.empty, 7)" and ?w2.0 = "(?m, 100)" and cs0' = "Map.empty((''run2'', ''now'') \<mapsto> 3)", OF ledger_journals ne keep only run le oth] show ?thesis unfolding fst_conv .
qed

text \<open>
  The counters live in the process and are never reset. A re-drive in the process that ran the
  run before continues them, asks for new keys and samples afresh.
\<close>

lemma same_process_resamples:
  "case run_samples ledger_client ''run1'' [(''now'', tick_fn)] Map.empty (Map.empty, 7) of (r1, cs, w1) \<Rightarrow>
   case run_samples ledger_client ''run1'' [(''now'', tick_fn)] cs w1 of (r2, cs2, w2) \<Rightarrow> r1 = Inr [JNum 7] \<and> r2 = Inr [JNum 8]"
  by code_simp

text \<open>Keys of samples are not confused: the name and the count can be read back.\<close>

lemma sample_key_inj:
  assumes "sample_key run_id name m = sample_key run_id name' n" and "0 \<le> m" and "0 \<le> n"
  shows "name = name' \<and> m = n"
proof -
  have "name @ CHR ''-'' # int_str m = name' @ CHR ''-'' # int_str n" using assms(1) by (simp add: sample_key_def)
  moreover have "CHR ''-'' \<notin> set (int_str k)" if "0 \<le> k" for k using that minus_not_in_nat_str by (simp add: int_str_def)
  ultimately have "name = name' \<and> int_str m = int_str n" using split_at_last [of name _ "int_str m" name' "int_str n"] assms(2,3) by blast
  then show ?thesis using int_str_inj by blast
qed

section \<open>Gates\<close>

text \<open>
  Inside a run a gate opens exactly when the server has delivered its signal; until then the
  tool's result says so. A delivered resolution that is no dict raises.
\<close>

lemma gate_opens_on_delivery:
  assumes "run_id \<noteq> []" and "await_signal run_id name (JsonText (gate_payload risk payload)) w = (Inr (delivered, resolution), w1)"
  shows "gate await_signal run_id name risk payload w = (if delivered then gate_resolved name resolution else Inr (gate_pending name), w1)"
  using assms by (simp add: gate_def)

text \<open>The resolution is merged last, so a signal can deliver a result that reads as not resolved.\<close>

lemma resolution_overrides_resolved:
  "gate_resolved name (JsonText (JObj [(''resolved'', JBool False)])) = Inr (JObj [(''resolved'', JBool False), (''gate'', JStr name)])"
  by (simp add: gate_resolved_def dict_update_def)

section \<open>Session state\<close>

text \<open>The slots the plugin writes are temporary, so no call of the session service persists them.\<close>

lemma plugin_slots_temporary:
  "list_all is_temp [''temp:_tape_idempotency_key'', ''temp:_tape_run_id'', ''temp:_tape_business_key'', ''temp:_tape_effect_semantics'',
     ''temp:_tape_external_ref'']"
  by (simp add: is_temp_def)

lemma append_persists_exactly:
  assumes "base s e = Inr (e1, s1)" and "sl_append cl (as_app_name s1) (as_user_id s1) (as_id s1) (event_to_proto dump e1)
      (JsonText (JObj (filter_persistable_delta (av_state_delta e1)))) w = (Inr u, w1)"
  shows "sdk_append_event cl dump base s e w = (Inr e1, s1, if av_partial e1 then w else w1)"
    and "set (filter_persistable_delta (av_state_delta e1)) = {(k, v) \<in> set (av_state_delta e1). \<not> is_temp k}"
  using assms by (auto simp: sdk_append_event_def filter_persistable_delta_def)

text \<open>An event survives the server if ADK's JSON round trip keeps it.\<close>

lemma event_survives_store:
  assumes "validate (dump e) = Inr e" and "dump e \<noteq> PlainText []"
  shows "proto_to_event validate new_event (event_to_proto dump e) = Inr e"
  using assms by (simp add: proto_to_event_def event_to_proto_def)

end
