(* ===== verification/SdkRelay.thy ===== *)
theory SdkRelay
  imports SdkIdentity SdkOutbox
begin

text \<open>
  The outbox relay of the gRPC SDK (\<open>reactors/__init__.py\<close>): the journal is streamed from a
  durable cursor, each entry is published to a sink, and the cursor is advanced.

  The cursor is a local file that holds JSON. A stream is the entries the server delivers
  and how it ends: normally, or with an exception, of which the code tells the status codes of
  gRPC apart. The sink acts on the world and may raise.
\<close>

section \<open>Data\<close>

record EventEntry =
  ev_global_seq :: int
  ev_run_id :: string
  ev_kind :: string
  ev_seq :: int
  ev_payload_json :: wire_text
  ev_ts_ms :: int

datatype grpc_exn = GrpcError "string option" string | NotGrpc py_exn

datatype cursor_file = NoFile | BadFile | JsonFile json

record event_stream =
  es_entries :: "EventEntry list"
  es_end :: "grpc_exn option"

section \<open>The cursor\<close>

text \<open>
  \<open>k in d\<close> for a key: membership in a dict or a list, a substring of a string, and a
  \<open>TypeError\<close> for the rest.
\<close>

fun is_infix :: "string \<Rightarrow> string \<Rightarrow> bool" where
  "is_infix k [] = (k = [])"
| "is_infix k (x # xs) = (take (length k) (x # xs) = k \<or> is_infix k xs)"

definition not_iterable :: "string \<Rightarrow> grpc_exn" where
  "not_iterable tn = NotGrpc (PyExn ''TypeError'' (''argument of type '' @ repr_str tn @ '' is not iterable''))"

definition json_in :: "string \<Rightarrow> json \<Rightarrow> grpc_exn + bool" where
  "json_in k d = (case d of
     JObj kvs \<Rightarrow> Inr (k \<in> fst ` set kvs)
   | JArr xs \<Rightarrow> Inr (JStr k \<in> set xs)
   | JStr s \<Rightarrow> Inr (is_infix k s)
   | JNull \<Rightarrow> Inl (not_iterable ''NoneType'')
   | JBool b \<Rightarrow> Inl (not_iterable ''bool'')
   | JNum n \<Rightarrow> Inl (not_iterable ''int''))"

text \<open>\<open>int(v)\<close>, with \<open>None\<close> where it raises.\<close>

definition json_int :: "json \<Rightarrow> int option" where
  "json_int v = (case v of JNum n \<Rightarrow> Some n | JBool b \<Rightarrow> Some (if b then 1 else 0) | JStr s \<Rightarrow> py_int s | _ \<Rightarrow> None)"

definition write_cursor :: "string \<Rightarrow> int \<Rightarrow> cursor_file \<Rightarrow> cursor_file" where
  "write_cursor path n f = (if path = [] then f else JsonFile (JObj [(''last_global_seq'', JNum n)]))"

definition LEGACY_KEYS :: "string list" where
  "LEGACY_KEYS = [''from_ts_ms'', ''last_run_id'', ''last_seq'']"

text \<open>Only a dict has \<open>keys()\<close> for the warning.\<close>

definition read_json_cursor :: "string \<Rightarrow> json \<Rightarrow> cursor_file \<Rightarrow> (grpc_exn + int) \<times> cursor_file" where
  "read_json_cursor path d f =
     (case json_in ''last_global_seq'' d of
        Inl ex \<Rightarrow> (Inl ex, f)
      | Inr True \<Rightarrow>
          (Inr (case d of
                  JObj kvs \<Rightarrow> (case json_int (case map_of kvs ''last_global_seq'' of Some v \<Rightarrow> v | None \<Rightarrow> JNum 0) of
                                 Some n \<Rightarrow> n | None \<Rightarrow> 0)
                | _ \<Rightarrow> 0), f)
      | Inr False \<Rightarrow>
          if list_ex (\<lambda>k. json_in k d = Inr True) LEGACY_KEYS then
            (case d of
               JObj kvs \<Rightarrow> (Inr 0, write_cursor path 0 f)
             | JArr xs \<Rightarrow> (Inl (NotGrpc (PyExn ''AttributeError'' (repr_str ''list'' @ '' object has no attribute '' @ repr_str ''keys''))), f)
             | _ \<Rightarrow> (Inl (NotGrpc (PyExn ''AttributeError'' (repr_str ''str'' @ '' object has no attribute '' @ repr_str ''keys''))), f))
          else (Inr 0, f))"

definition read_cursor :: "string \<Rightarrow> cursor_file \<Rightarrow> (grpc_exn + int) \<times> cursor_file" where
  "read_cursor path f =
     (if path = [] then (Inr 0, f)
      else (case f of NoFile \<Rightarrow> (Inr 0, f) | BadFile \<Rightarrow> (Inr 0, f) | JsonFile d \<Rightarrow> read_json_cursor path d f))"

section \<open>One tick\<close>

type_synonym 'w sink = "EventEntry \<Rightarrow> 'w \<Rightarrow> (grpc_exn + unit) \<times> 'w"

definition wanted :: "string \<Rightarrow> string \<Rightarrow> EventEntry \<Rightarrow> bool" where
  "wanted run_id kind e \<longleftrightarrow> (run_id = [] \<or> ev_run_id e = run_id) \<and> (kind = [] \<or> ev_kind e = kind)"

text \<open>
  The loop over the stream, from the last published sequence number and the count so far:
  how it ended (\<open>None\<close> for a break or the end of the stream) with both.
\<close>

fun relay_loop ::
    "'w sink \<Rightarrow> string \<Rightarrow> string \<Rightarrow> int \<Rightarrow> grpc_exn option \<Rightarrow> EventEntry list \<Rightarrow> int \<Rightarrow> int \<Rightarrow> 'w \<Rightarrow>
     grpc_exn option \<times> int \<times> int \<times> 'w" where
  "relay_loop sink run_id kind batch ending [] last_seq n w = (ending, last_seq, n, w)"
| "relay_loop sink run_id kind batch ending (e # es) last_seq n w =
     (if ev_global_seq e \<le> last_seq \<or> \<not> wanted run_id kind e then relay_loop sink run_id kind batch ending es last_seq n w
      else (case sink e w of
              (Inl ex, w') \<Rightarrow> (Some ex, last_seq, n, w')
            | (Inr _, w') \<Rightarrow>
                if n + 1 \<ge> batch then (None, ev_global_seq e, n + 1, w')
                else relay_loop sink run_id kind batch ending es (ev_global_seq e) (n + 1) w'))"

definition batch_over :: "grpc_exn option \<Rightarrow> bool" where
  "batch_over x = (case x of None \<Rightarrow> True
     | Some (GrpcError code s) \<Rightarrow> code = Some ''DEADLINE_EXCEEDED'' \<or> code = Some ''CANCELLED''
     | Some (NotGrpc ex) \<Rightarrow> False)"

definition outbox_relay_tick ::
    "(string \<Rightarrow> string \<Rightarrow> int \<Rightarrow> 'w \<Rightarrow> (grpc_exn + event_stream) \<times> 'w) \<Rightarrow> 'w sink \<Rightarrow> string \<Rightarrow> string \<Rightarrow> string \<Rightarrow> string \<Rightarrow>
     string \<Rightarrow> int \<Rightarrow> cursor_file \<Rightarrow> 'w \<Rightarrow> (grpc_exn + int) \<times> cursor_file \<times> 'w" where
  "outbox_relay_tick subscribe sink path run_id kind subject_pattern predicate_cel batch f w =
     (case read_cursor path f of
        (Inl ex, f1) \<Rightarrow> (Inl ex, f1, w)
      | (Inr last_seq, f1) \<Rightarrow>
          (case subscribe (str_or subject_pattern ''/tape/**'') predicate_cel last_seq w of
             (Inl ex, w1) \<Rightarrow> (Inl ex, f1, w1)
           | (Inr stream, w1) \<Rightarrow>
               (case relay_loop sink run_id kind batch (es_end stream) (es_entries stream) last_seq 0 w1 of
                  (ending, last_seq2, n, w2) \<Rightarrow>
                    if \<not> batch_over ending then (Inl (the ending), f1, w2)
                    else (Inr n, (if n \<noteq> 0 then write_cursor path last_seq2 f1 else f1), w2))))"

text \<open>One iteration of \<open>run_outbox_relay\<close>: an exception of the tick is printed and dropped.\<close>

definition relay_round ::
    "(string \<Rightarrow> string \<Rightarrow> int \<Rightarrow> 'w \<Rightarrow> (grpc_exn + event_stream) \<times> 'w) \<Rightarrow> 'w sink \<Rightarrow> string \<Rightarrow> string \<Rightarrow> string \<Rightarrow> string \<Rightarrow>
     string \<Rightarrow> cursor_file \<Rightarrow> 'w \<Rightarrow> cursor_file \<times> 'w" where
  "relay_round subscribe sink path run_id kind subject_pattern predicate_cel f w =
     snd (outbox_relay_tick subscribe sink path run_id kind subject_pattern predicate_cel 512 f w)"

text \<open>\<open>run_event_fanout\<close>: every entry of the stream, until the sink or the stream raises.\<close>

fun run_event_fanout :: "'w sink \<Rightarrow> grpc_exn option \<Rightarrow> EventEntry list \<Rightarrow> 'w \<Rightarrow> grpc_exn option \<times> 'w" where
  "run_event_fanout sink ending [] w = (ending, w)"
| "run_event_fanout sink ending (e # es) w =
     (case sink e w of (Inl ex, w') \<Rightarrow> (Some ex, w') | (Inr _, w') \<Rightarrow> run_event_fanout sink ending es w')"

section \<open>What a tick publishes\<close>

text \<open>A sink with the log of what it accepted.\<close>

definition watch_sink :: "'w sink \<Rightarrow> ('w \<times> EventEntry list) sink" where
  "watch_sink sink e wl = (case wl of (w, l) \<Rightarrow>
     (case sink e w of (Inl ex, w') \<Rightarrow> (Inl ex, w', l) | (Inr u, w') \<Rightarrow> (Inr u, w', l @ [e])))"

definition ascending :: "EventEntry list \<Rightarrow> bool" where
  "ascending es = sorted_wrt (\<lambda>a b. ev_global_seq a < ev_global_seq b) es"

definition fresh :: "string \<Rightarrow> string \<Rightarrow> int \<Rightarrow> EventEntry \<Rightarrow> bool" where
  "fresh run_id kind c e \<longleftrightarrow> c < ev_global_seq e \<and> wanted run_id kind e"

definition end_seq :: "int \<Rightarrow> EventEntry list \<Rightarrow> int" where
  "end_seq c pub = (if pub = [] then c else ev_global_seq (last pub))"

lemma fresh_later:
  "ascending (e # es) \<Longrightarrow> fresh run_id kind c e \<Longrightarrow>
   filter (fresh run_id kind (ev_global_seq e)) es = filter (fresh run_id kind c) es"
  by (intro filter_cong) (auto simp: ascending_def fresh_def)

lemma end_seq_Cons: "end_seq c (e # pub) = end_seq (ev_global_seq e) pub"
  by (simp add: end_seq_def)

lemma relay_loop_publishes:
  "ascending es \<Longrightarrow>
   \<exists>pub fin w'. relay_loop (watch_sink sink) run_id kind batch ending es c n (w, l) =
      (fin, end_seq c pub, n + int (length pub), w', l @ pub) \<and>
     pub = take (length pub) (filter (fresh run_id kind c) es) \<and>
     (n < batch \<longrightarrow> n + int (length pub) \<le> batch)"
proof (induction es arbitrary: c n w l)
  case Nil
  then show ?case by (auto simp: end_seq_def)
next
  case (Cons e es)
  from Cons.prems have asc: "ascending es" by (simp add: ascending_def)
  show ?case
  proof (cases "fresh run_id kind c e")
    case False
    then have "relay_loop (watch_sink sink) run_id kind batch ending (e # es) c n (w, l) =
        relay_loop (watch_sink sink) run_id kind batch ending es c n (w, l)" by (auto simp: fresh_def)
    with Cons.IH [OF asc] False show ?thesis by simp
  next
    case True
    then have go: "\<not> (ev_global_seq e \<le> c \<or> \<not> wanted run_id kind e)" by (simp add: fresh_def)
    obtain r w1 where r: "sink e w = (r, w1)" by fastforce
    show ?thesis
    proof (cases r)
      case (Inl ex)
      with go r have "relay_loop (watch_sink sink) run_id kind batch ending (e # es) c n (w, l) =
          (Some ex, end_seq c [], n + int (length []), w1, l @ [])" by (simp add: watch_sink_def end_seq_def)
      then show ?thesis by (intro exI [of _ "[]"]) auto
    next
      case (Inr u)
      show ?thesis
      proof (cases "n + 1 \<ge> batch")
        case True': True
        with go r Inr have "relay_loop (watch_sink sink) run_id kind batch ending (e # es) c n (w, l) =
            (None, end_seq c [e], n + int (length [e]), w1, l @ [e])" by (simp add: watch_sink_def end_seq_def)
        with True True' show ?thesis by (intro exI [of _ "[e]"]) auto
      next
        case False
        obtain pub fin w' where ih: "relay_loop (watch_sink sink) run_id kind batch ending es (ev_global_seq e) (n + 1) (w1, l @ [e]) =
            (fin, end_seq (ev_global_seq e) pub, n + 1 + int (length pub), w', (l @ [e]) @ pub)"
          and pub: "pub = take (length pub) (filter (fresh run_id kind (ev_global_seq e)) es)"
          and bd: "n + 1 < batch \<longrightarrow> n + 1 + int (length pub) \<le> batch"
          using Cons.IH [OF asc, of "ev_global_seq e" "n + 1" w1 "l @ [e]"] by (elim exE conjE)
        from ih go r Inr False have "relay_loop (watch_sink sink) run_id kind batch ending (e # es) c n (w, l) =
            (fin, end_seq c (e # pub), n + int (length (e # pub)), w', l @ (e # pub))"
          by (simp add: watch_sink_def end_seq_Cons)
        with pub bd False True fresh_later [OF Cons.prems True] show ?thesis by (intro exI [of _ "e # pub"]) auto
      qed
    qed
  qed
qed

text \<open>The cursor file.\<close>

lemma read_write_cursor: "path \<noteq> [] \<Longrightarrow> read_cursor path (write_cursor path n f) = (Inr n, write_cursor path n f)"
  by (simp add: read_cursor_def write_cursor_def read_json_cursor_def json_in_def json_int_def)

lemma read_cursor_again:
  assumes "read_cursor path f = (Inr c, f1)"
  shows "read_cursor path f1 = (Inr c, f1)"
proof (cases "f1 = f")
  case False
  with assms have "path \<noteq> []" "c = 0" "f1 = write_cursor path 0 f"
    by (auto simp: read_cursor_def read_json_cursor_def split: if_splits cursor_file.splits sum.splits bool.splits json.splits)
  then show ?thesis using read_write_cursor by simp
qed (use assms in simp)

section \<open>The relay over time\<close>

text \<open>
  A stream from a cursor is a prefix of the entries of the journal at or above the cursor
  whose subject matches: the server may repeat the entry at the cursor and may stop early.
\<close>

definition streams_journal ::
    "EventEntry list \<Rightarrow> (EventEntry \<Rightarrow> bool) \<Rightarrow> (string \<Rightarrow> string \<Rightarrow> int \<Rightarrow> 'w \<Rightarrow> (grpc_exn + event_stream) \<times> 'w) \<Rightarrow> bool" where
  "streams_journal J subj subscribe \<longleftrightarrow>
     (\<forall>pat cel c w stream w'. subscribe pat cel c w = (Inr stream, w') \<longrightarrow>
        (\<exists>k. es_entries stream = take k (filter (\<lambda>e. c \<le> ev_global_seq e \<and> subj e) J)))"

text \<open>
  The journal, the cursor file and what the sink has accepted, as the journal grows and ticks
  run: any number of them, with any batch size, failing or not.
\<close>

inductive relay_reach ::
    "(EventEntry \<Rightarrow> bool) \<Rightarrow> string \<Rightarrow> string \<Rightarrow> string \<Rightarrow> EventEntry list \<Rightarrow> cursor_file \<Rightarrow> 'w \<Rightarrow> EventEntry list \<Rightarrow> bool"
  for subj :: "EventEntry \<Rightarrow> bool" and path run_id kind :: string where
  start: "fst (read_cursor path f) = Inr 0 \<Longrightarrow> relay_reach subj path run_id kind [] f w []"
| append: "relay_reach subj path run_id kind J f w pub \<Longrightarrow> ascending (J @ [e]) \<Longrightarrow> 0 < ev_global_seq e \<Longrightarrow>
    relay_reach subj path run_id kind (J @ [e]) f w pub"
| tick: "relay_reach subj path run_id kind J f w pub \<Longrightarrow> streams_journal J subj subscribe \<Longrightarrow>
    outbox_relay_tick (\<lambda>pat cel c. unlogged (subscribe pat cel c)) (watch_sink sink) path run_id kind pat cel batch f (w, pub) = (r, f', w', pub') \<Longrightarrow>
    relay_reach subj path run_id kind J f' w' pub'"

text \<open>Everything that is meant to be published up to the cursor has been.\<close>

definition relayed :: "(EventEntry \<Rightarrow> bool) \<Rightarrow> string \<Rightarrow> string \<Rightarrow> EventEntry list \<Rightarrow> int \<Rightarrow> EventEntry list \<Rightarrow> bool" where
  "relayed subj run_id kind J c pub \<longleftrightarrow>
     (\<forall>e \<in> set J. subj e \<and> wanted run_id kind e \<and> ev_global_seq e \<le> c \<longrightarrow> e \<in> set pub) \<and>
     (\<forall>e \<in> set pub. e \<in> set J \<and> subj e \<and> wanted run_id kind e)"

lemma relayedI [intro]:
  "(\<And>e. e \<in> set J \<Longrightarrow> subj e \<Longrightarrow> wanted run_id kind e \<Longrightarrow> ev_global_seq e \<le> c \<Longrightarrow> e \<in> set pub) \<Longrightarrow>
   (\<And>e. e \<in> set pub \<Longrightarrow> e \<in> set J \<and> subj e \<and> wanted run_id kind e) \<Longrightarrow> relayed subj run_id kind J c pub"
  unfolding relayed_def by blast

lemma relayed_kept: "relayed subj run_id kind J c pub \<Longrightarrow> e \<in> set J \<Longrightarrow> subj e \<Longrightarrow> wanted run_id kind e \<Longrightarrow>
    ev_global_seq e \<le> c \<Longrightarrow> e \<in> set pub"
  unfolding relayed_def by blast

lemma relayed_only: "relayed subj run_id kind J c pub \<Longrightarrow> e \<in> set pub \<Longrightarrow> e \<in> set J \<and> subj e \<and> wanted run_id kind e"
  unfolding relayed_def by blast

lemma ascending_filter: "ascending J \<Longrightarrow> ascending (filter q J)"
  by (simp add: ascending_def sorted_wrt_filter)

lemma ascending_take: "ascending J \<Longrightarrow> ascending (take k J)"
  by (simp add: ascending_def sorted_wrt_take)

text \<open>A prefix of an ascending list has every element below its last one.\<close>

lemma ascending_prefix_closed:
  assumes "ascending xs" and "take k xs \<noteq> []" and "x \<in> set xs" and "ev_global_seq x \<le> ev_global_seq (last (take k xs))"
  shows "x \<in> set (take k xs)"
proof (rule ccontr)
  assume no: "x \<notin> set (take k xs)"
  have "x \<in> set (drop k xs)" using assms(3) no set_append [of "take k xs" "drop k xs"] by auto
  moreover have "sorted_wrt (\<lambda>a b. ev_global_seq a < ev_global_seq b) (take k xs @ drop k xs)"
    using assms(1) by (simp add: ascending_def)
  ultimately have "ev_global_seq (last (take k xs)) < ev_global_seq x"
    using last_in_set [OF assms(2)] unfolding sorted_wrt_append by blast
  with assms(4) show False by simp
qed

lemma relayed_step:
  assumes old: "relayed subj run_id kind J c pub" and asc: "ascending J"
    and pub: "new = take n (filter (fresh run_id kind c) (take k (filter (\<lambda>e. c \<le> ev_global_seq e \<and> subj e) J)))"
  shows "relayed subj run_id kind J c (pub @ new) \<and> relayed subj run_id kind J (end_seq c new) (pub @ new)"
proof -
  let ?S = "filter (\<lambda>e. c \<le> ev_global_seq e \<and> subj e) J"
  have new: "e \<in> set J \<and> subj e \<and> wanted run_id kind e \<and> e \<in> set (take k ?S)" if "e \<in> set new" for e
    using that in_set_takeD [of e n "filter (fresh run_id kind c) (take k ?S)"] in_set_takeD [of e k ?S]
    unfolding pub by (auto simp: fresh_def)
  have later: "e \<in> set new" if e: "e \<in> set J" "subj e" "wanted run_id kind e" "c < ev_global_seq e" "new \<noteq> []"
      "ev_global_seq e \<le> ev_global_seq (last new)" for e
  proof -
    have ascS: "ascending (take k ?S)" using asc by (intro ascending_take ascending_filter)
    have l: "last new \<in> set (take k ?S)" using new last_in_set [OF e(5)] by blast
    then have ne: "take k ?S \<noteq> []" by (metis empty_iff empty_set)
    have "ev_global_seq (last new) \<le> ev_global_seq (last (take k ?S))"
      using l ascS ne by (cases "take k ?S" rule: rev_cases) (auto simp: ascending_def sorted_wrt_append less_imp_le)
    then have "e \<in> set (take k ?S)"
      using e ascending_prefix_closed [OF ascending_filter [OF asc] ne, of e] by auto
    then have mem: "e \<in> set (filter (fresh run_id kind c) (take k ?S))" using e by (simp add: fresh_def)
    show ?thesis
      using ascending_prefix_closed [OF ascending_filter [OF ascS], of n "fresh run_id kind c" e] mem e(5,6) unfolding pub by blast
  qed
  have sub: "e \<in> set J \<and> subj e \<and> wanted run_id kind e" if "e \<in> set (pub @ new)" for e
    using that relayed_only [OF old] new unfolding set_append by blast
  have keep: "e \<in> set (pub @ new)" if "e \<in> set J" "subj e" "wanted run_id kind e" "ev_global_seq e \<le> c" for e
    using relayed_kept [OF old that] by simp
  have "e \<in> set (pub @ new)" if e: "e \<in> set J" "subj e" "wanted run_id kind e" "ev_global_seq e \<le> end_seq c new" for e
  proof (cases "ev_global_seq e \<le> c")
    case False
    with e have "new \<noteq> []" by (auto simp: end_seq_def)
    with False e later [OF e(1-3)] show ?thesis by (simp add: end_seq_def)
  qed (use keep e in blast)
  with sub keep show ?thesis by (blast intro: relayedI)
qed

lemma tick_publishes:
  assumes tick: "outbox_relay_tick (\<lambda>pat cel c. unlogged (subscribe pat cel c)) (watch_sink sink) path run_id kind pat cel batch f (w, pub) = (r, f', w', pub')"
    and js: "streams_journal J subj subscribe" and asc: "ascending J" and path: "path \<noteq> []" and c: "fst (read_cursor path f) = Inr c"
  shows "\<exists>n k. let new = take n (filter (fresh run_id kind c) (take k (filter (\<lambda>e. c \<le> ev_global_seq e \<and> subj e) J))) in
     pub' = pub @ new \<and> (fst (read_cursor path f') = Inr c \<or> fst (read_cursor path f') = Inr (end_seq c new))"
proof -
  obtain f1 where f1: "read_cursor path f = (Inr c, f1)" using c by (metis prod.collapse)
  obtain rs w1 where sub: "subscribe (str_or pat ''/tape/**'') cel c w = (rs, w1)" by fastforce
  show ?thesis
  proof (cases rs)
    case (Inl ex)
    with tick f1 sub have "f' = f1" "pub' = pub" by (auto simp: outbox_relay_tick_def unlogged_run)
    with read_cursor_again [OF f1] show ?thesis by (intro exI [of _ 0]) (auto simp: Let_def)
  next
    case (Inr stream)
    obtain k where k: "es_entries stream = take k (filter (\<lambda>e. c \<le> ev_global_seq e \<and> subj e) J)"
      using js sub Inr unfolding streams_journal_def by blast
    have "ascending (es_entries stream)" unfolding k using asc by (intro ascending_take ascending_filter)
    then obtain new fin w2 where run: "relay_loop (watch_sink sink) run_id kind batch (es_end stream) (es_entries stream) c 0 (w1, pub) =
        (fin, end_seq c new, int (length new), w2, pub @ new)"
      and new: "new = take (length new) (filter (fresh run_id kind c) (es_entries stream))"
      using relay_loop_publishes [of "es_entries stream" sink run_id kind batch "es_end stream" c 0 w1 pub] by auto
    have "pub' = pub @ new" "f' = f1 \<or> f' = write_cursor path (end_seq c new) f1"
      using tick f1 sub Inr run by (auto simp: outbox_relay_tick_def unlogged_run split: if_splits)
    then show ?thesis using new k read_cursor_again [OF f1] read_write_cursor [OF path, of "end_seq c new" f1]
      by (intro exI [of _ "length new"] exI [of _ k]) (auto simp: Let_def)
  qed
qed

lemma relay_reach_ascending: "relay_reach subj path run_id kind J f w pub \<Longrightarrow> ascending J \<and> (\<forall>e \<in> set J. 0 < ev_global_seq e)"
  by (induction rule: relay_reach.induct) (auto simp: ascending_def)

definition at_journal :: "EventEntry list \<Rightarrow> int \<Rightarrow> bool" where
  "at_journal J c \<longleftrightarrow> c = 0 \<or> (\<exists>e \<in> set J. ev_global_seq e = c)"

lemma relayed_append:
  assumes "relayed subj run_id kind J c pub" and "at_journal J c" and "ascending (J @ [e])" and "0 < ev_global_seq e"
  shows "relayed subj run_id kind (J @ [e]) c pub \<and> at_journal (J @ [e]) c"
proof -
  have c: "c < ev_global_seq e" using assms(2-4) by (auto simp: at_journal_def ascending_def sorted_wrt_append)
  have "relayed subj run_id kind (J @ [e]) c pub"
    using relayed_kept [OF assms(1)] relayed_only [OF assms(1)] c by (intro relayedI) force+
  moreover have "at_journal (J @ [e]) c" using assms(2) unfolding at_journal_def by auto
  ultimately show ?thesis ..
qed

lemma relay_reach_relayed:
  assumes "relay_reach subj path run_id kind J f w pub" and path: "path \<noteq> []"
  shows "\<exists>c. fst (read_cursor path f) = Inr c \<and> relayed subj run_id kind J c pub \<and> at_journal J c"
  using assms(1)
proof (induction rule: relay_reach.induct)
  case (start f w)
  then show ?case by (auto simp: relayed_def at_journal_def)
next
  case (append J f w pub e)
  then show ?case using relayed_append by blast
next
  case (tick J f w pub subscribe sink pat cel batch r f' w' pub')
  obtain c where c: "fst (read_cursor path f) = Inr c" "relayed subj run_id kind J c pub" "at_journal J c" using tick.IH by blast
  have asc: "ascending J" using relay_reach_ascending [OF tick.hyps(1)] by simp
  obtain n k new where new: "new = take n (filter (fresh run_id kind c) (take k (filter (\<lambda>e. c \<le> ev_global_seq e \<and> subj e) J)))"
    and pub': "pub' = pub @ new"
    and c': "fst (read_cursor path f') = Inr c \<or> fst (read_cursor path f') = Inr (end_seq c new)"
    using tick_publishes [OF tick.hyps(3,2) asc path c(1)] unfolding Let_def by blast
  have "relayed subj run_id kind J c pub' \<and> relayed subj run_id kind J (end_seq c new) pub'"
    using relayed_step [OF c(2) asc new] pub' by simp
  moreover from this have "at_journal J (end_seq c new)"
    using c(3) pub' last_in_set [of new] relayed_only [of subj run_id kind J c pub' "last new"]
    by (auto simp: at_journal_def end_seq_def)
  ultimately show ?case using c' c(3) by blast
qed

section \<open>Properties\<close>

text \<open>
  C16. The relay loses nothing: whatever the cursor file holds, every entry of the journal up
  to the cursor that matches the subject and the filters has been accepted by the sink, across
  any sequence of ticks, batches, sink failures and broken streams while the journal
  grows; and the sink is given nothing else. It relies on the server streaming the journal in
  order from the cursor.
\<close>

theorem relay_no_loss:
  assumes "relay_reach subj path run_id kind J f w pub" and "path \<noteq> []"
  shows "\<exists>c. fst (read_cursor path f) = Inr c \<and>
    (\<forall>e \<in> set J. subj e \<and> wanted run_id kind e \<and> ev_global_seq e \<le> c \<longrightarrow> e \<in> set pub) \<and>
    (\<forall>e \<in> set pub. e \<in> set J \<and> subj e \<and> wanted run_id kind e)"
  using relay_reach_relayed [OF assms] unfolding relayed_def by blast

text \<open>A journal of one entry, streamed to a sink that accepts it.\<close>

definition one_entry :: EventEntry where
  "one_entry = \<lparr>ev_global_seq = 1, ev_run_id = ''run1'', ev_kind = ''effect'', ev_seq = 1,
     ev_payload_json = JsonText (JObj [(''status'', JStr ''confirmed'')]), ev_ts_ms = 1000\<rparr>"

definition one_stream :: "string \<Rightarrow> string \<Rightarrow> int \<Rightarrow> 'w \<Rightarrow> (grpc_exn + event_stream) \<times> 'w" where
  "one_stream pat cel c w = (Inr \<lparr>es_entries = filter (\<lambda>e. c \<le> ev_global_seq e) [one_entry],
     es_end = Some (GrpcError (Some ''DEADLINE_EXCEEDED'') [])\<rparr>, w)"

definition open_sink :: "unit sink" where
  "open_sink e w = (Inr (), w)"

lemma one_tick: "outbox_relay_tick (\<lambda>pat cel c. unlogged (one_stream pat cel c)) (watch_sink open_sink) ''c'' [] [] [] [] 512 NoFile ((), []) =
    (Inr 1, JsonFile (JObj [(''last_global_seq'', JNum 1)]), (), [one_entry])"
  by code_simp

theorem relay_no_loss_witness:
  "\<exists>c. fst (read_cursor ''c'' (JsonFile (JObj [(''last_global_seq'', JNum 1)]))) = Inr c \<and>
     (\<forall>e \<in> set [one_entry]. True \<and> wanted [] [] e \<and> ev_global_seq e \<le> c \<longrightarrow> e \<in> set [one_entry]) \<and>
     (\<forall>e \<in> set [one_entry]. e \<in> set [one_entry] \<and> True \<and> wanted [] [] e)"
proof -
  have "relay_reach (\<lambda>e. True) ''c'' [] [] [] NoFile () []" by (rule relay_reach.start) (simp add: read_cursor_def)
  then have "relay_reach (\<lambda>e. True) ''c'' [] [] ([] @ [one_entry]) NoFile () []"
    by (rule relay_reach.append) (simp_all add: ascending_def one_entry_def)
  then have j: "relay_reach (\<lambda>e. True) ''c'' [] [] [one_entry] NoFile () []" by simp
  have "streams_journal [one_entry] (\<lambda>e. True) (one_stream :: string \<Rightarrow> string \<Rightarrow> int \<Rightarrow> unit \<Rightarrow> _)"
    unfolding streams_journal_def one_stream_def by (auto intro: exI [of _ 1])
  from relay_reach.tick [OF j this one_tick]
  have "relay_reach (\<lambda>e. True) ''c'' [] [] [one_entry] (JsonFile (JObj [(''last_global_seq'', JNum 1)])) () [one_entry]" .
  from relay_no_loss [OF this] show ?thesis by simp
qed

text \<open>
  One tick publishes exactly the next entries: of a stream in journal order it gives the
  sink a prefix of the wanted entries beyond the cursor, each once and in order, at most a
  batch of them; it returns their number and leaves the cursor at the last of them, or raises
  and leaves the cursor where it was.
\<close>

lemma relay_tick_exact:
  assumes "read_cursor path f = (Inr c, f1)" and "path \<noteq> []" and "0 < batch"
    and "subscribe (str_or pat ''/tape/**'') cel c (w, l) = (Inr stream, w1, l)" and "ascending (es_entries stream)"
  shows "\<exists>new res f' w'. outbox_relay_tick subscribe (watch_sink sink) path run_id kind pat cel batch f (w, l) = (res, f', w', l @ new) \<and>
    new = take (length new) (filter (fresh run_id kind c) (es_entries stream)) \<and> int (length new) \<le> batch \<and>
    (case res of
       Inr n \<Rightarrow> n = int (length new) \<and> fst (read_cursor path f') = Inr (end_seq c new)
     | Inl ex \<Rightarrow> fst (read_cursor path f') = Inr c)"
proof -
  obtain new fin w2 where run: "relay_loop (watch_sink sink) run_id kind batch (es_end stream) (es_entries stream) c 0 (w1, l) =
      (fin, end_seq c new, int (length new), w2, l @ new)"
    and new: "new = take (length new) (filter (fresh run_id kind c) (es_entries stream))" and bd: "int (length new) \<le> batch"
    using relay_loop_publishes [OF assms(5), of sink run_id kind batch "es_end stream" c 0 w1 l] assms(3) by auto
  have again: "fst (read_cursor path f1) = Inr c" using read_cursor_again [OF assms(1)] by simp
  have res: "outbox_relay_tick subscribe (watch_sink sink) path run_id kind pat cel batch f (w, l) =
      (if \<not> batch_over fin then (Inl (the fin), f1, w2, l @ new)
       else (Inr (int (length new)), (if new = [] then f1 else write_cursor path (end_seq c new) f1), w2, l @ new))"
    using assms(1,4) run by (simp add: outbox_relay_tick_def)
  then show ?thesis
    using new bd again read_write_cursor [OF assms(2), of "end_seq c new" f1]
    by (cases "batch_over fin"; cases "new = []") (auto simp: end_seq_def split: if_splits)
qed

text \<open>
  A batch that the sink breaks off is given again: the entries before the failure have been
  accepted and the cursor has not moved.
\<close>

definition picky_sink :: "unit sink" where
  "picky_sink e w = (if ev_global_seq e = 1 then (Inr (), w) else (Inl (NotGrpc (PyExn ''IOError'' ''full'')), w))"

definition two_stream :: "string \<Rightarrow> string \<Rightarrow> int \<Rightarrow> 'w \<Rightarrow> (grpc_exn + event_stream) \<times> 'w" where
  "two_stream pat cel c w = (Inr \<lparr>es_entries = [one_entry, one_entry\<lparr>ev_global_seq := 2\<rparr>], es_end = None\<rparr>, w)"

lemma broken_batch_repeats:
  "outbox_relay_tick two_stream (watch_sink picky_sink) ''c'' [] [] [] [] 512 NoFile ((), []) =
     (Inl (NotGrpc (PyExn ''IOError'' ''full'')), NoFile, (), [one_entry])"
  by code_simp

end
