(* ===== verification/SdkChaos.thy ===== *)
theory SdkChaos
  imports SdkReconciler
begin

text \<open>
  The chaos package of the gRPC SDK: faults, scenarios and sessions (\<open>chaos/scenarios.py\<close>),
  the connector that injects faults (\<open>chaos/connectors.py\<close>), the invariants that are checked
  against the server (\<open>chaos/invariants.py\<close>) and the score of a campaign
  (\<open>chaos/reliability.py\<close>).

  The random generator and \<open>sleep\<close> act on the world and are parameters, as is the rendering
  of a float by the format \<open>g\<close>. Probabilities and times are rationals.
\<close>

section \<open>Faults and scenarios\<close>

record SdkFault =
  fl_layer :: string
  fl_target :: string
  fl_action :: string
  fl_probability :: rat
  fl_after_n :: int
  fl_ms :: int
  fl_jitter :: rat
  fl_tool :: string
  fl_when :: string
  fl_action_msg :: "string option"

definition plain_fault :: "string \<Rightarrow> string \<Rightarrow> string \<Rightarrow> rat \<Rightarrow> SdkFault" where
  "plain_fault layer target action probability = \<lparr>fl_layer = layer, fl_target = target, fl_action = action,
     fl_probability = probability, fl_after_n = 0, fl_ms = 0, fl_jitter = 0, fl_tool = [], fl_when = [], fl_action_msg = None\<rparr>"

definition crash :: "string \<Rightarrow> rat \<Rightarrow> int \<Rightarrow> string \<Rightarrow> SdkFault" where
  "crash failpoint probability after_n wh = (plain_fault ''server'' failpoint ''panic'' probability)\<lparr>fl_after_n := after_n, fl_when := wh\<rparr>"

definition delay_fault :: "string \<Rightarrow> int \<Rightarrow> rat \<Rightarrow> rat \<Rightarrow> string \<Rightarrow> SdkFault" where
  "delay_fault failpoint ms probability jitter wh =
     (plain_fault ''server'' failpoint ''sleep'' probability)\<lparr>fl_ms := ms, fl_jitter := jitter, fl_when := wh\<rparr>"

definition error_fault :: "string \<Rightarrow> string \<Rightarrow> rat \<Rightarrow> string \<Rightarrow> SdkFault" where
  "error_fault failpoint msg probability wh =
     (plain_fault ''server'' failpoint ''return'' probability)\<lparr>fl_when := wh, fl_action_msg := Some msg\<rparr>"

definition selected_fault :: "string \<Rightarrow> string \<Rightarrow> string \<Rightarrow> rat \<Rightarrow> tape_error + SdkFault" where
  "selected_fault what connector tool probability =
     (if connector \<noteq> [] \<and> tool \<noteq> [] then Inl (ValueError (what @ '': pass connector= or tool=, not both''))
      else if connector = [] \<and> tool = [] then Inl (ValueError (what @ '' requires connector= or tool=''))
      else Inr ((plain_fault ''connector'' connector what probability)\<lparr>fl_tool := tool\<rparr>))"

definition sdk_lose_ack :: "string \<Rightarrow> string \<Rightarrow> rat \<Rightarrow> tape_error + SdkFault" where
  "sdk_lose_ack = selected_fault ''lose_ack''"

definition sdk_duplicate :: "string \<Rightarrow> string \<Rightarrow> rat \<Rightarrow> tape_error + SdkFault" where
  "sdk_duplicate = selected_fault ''duplicate''"

definition sdk_delay_connector :: "string \<Rightarrow> int \<Rightarrow> rat \<Rightarrow> SdkFault" where
  "sdk_delay_connector connector ms jitter = (plain_fault ''connector'' connector ''delay'' 1)\<lparr>fl_ms := ms, fl_jitter := jitter\<rparr>"

text \<open>The specification of a server fault for the \<open>FAILPOINTS\<close> variable.\<close>

definition fail_action :: "SdkFault \<Rightarrow> string" where
  "fail_action f =
     (let msg = (case fl_action_msg f of Some m \<Rightarrow> m | None \<Rightarrow> ''chaos'')
      in if fl_action f = ''sleep'' then ''sleep('' @ int_str (fl_ms f) @ '')''
         else if fl_action f = ''return'' then ''return('' @ msg @ '')''
         else if fl_action f = ''print'' then ''print('' @ msg @ '')''
         else fl_action f)"

definition to_fail_spec :: "(rat \<Rightarrow> string) \<Rightarrow> SdkFault \<Rightarrow> string" where
  "to_fail_spec fmt_g f =
     fl_target f @ ''='' @ join_with ''->''
       ((if fl_after_n f > 0 then [int_str (fl_after_n f) @ ''*off''] else []) @
        [if 0 < fl_probability f \<and> fl_probability f < 1 then fmt_g (fl_probability f) @ ''*'' @ fail_action f else fail_action f])"

definition failpoints_env :: "(rat \<Rightarrow> string) \<Rightarrow> SdkFault list \<Rightarrow> string" where
  "failpoints_env fmt_g faults = join_with '';'' (map (to_fail_spec fmt_g) (filter (\<lambda>f. fl_layer f = ''server'') faults))"

section \<open>The connector that injects faults\<close>

record 'w chaos_env =
  ce_random :: "'w \<Rightarrow> rat \<times> 'w"
  ce_uniform :: "rat \<Rightarrow> 'w \<Rightarrow> rat \<times> 'w"
  ce_sleep :: "rat \<Rightarrow> 'w \<Rightarrow> 'w"

fun pick_fault :: "'w chaos_env \<Rightarrow> string \<Rightarrow> PbEffect \<Rightarrow> SdkFault list \<Rightarrow> 'w \<Rightarrow> SdkFault option \<times> 'w" where
  "pick_fault ce kind eff [] w = (None, w)"
| "pick_fault ce kind eff (f # fs) w =
     (if fl_action f \<noteq> kind \<or> (fl_tool f \<noteq> [] \<and> pe_tool_name eff \<noteq> fl_tool f) then pick_fault ce kind eff fs w
      else if fl_probability f \<ge> 1 then (Some f, w)
      else (case ce_random ce w of (x, w1) \<Rightarrow> if x < fl_probability f then (Some f, w1) else pick_fault ce kind eff fs w1))"

definition chaos_delay :: "'w chaos_env \<Rightarrow> PbEffect \<Rightarrow> SdkFault list \<Rightarrow> 'w \<Rightarrow> 'w" where
  "chaos_delay ce eff faults w =
     (case pick_fault ce ''delay'' eff faults w of
        (None, w1) \<Rightarrow> w1
      | (Some d, w1) \<Rightarrow>
          if fl_ms d > 0 then
            (case (if fl_jitter d > 0 then (case ce_uniform ce (fl_jitter d) w1 of (u, w2) \<Rightarrow> (1 + u, w2)) else (1, w1)) of
               (factor, w2) \<Rightarrow> ce_sleep ce (max 0 (of_int (fl_ms d) / 1000 * factor)) w2)
          else w1)"

definition lost_ack :: "SdkDispatchResult \<Rightarrow> SdkDispatchResult" where
  "lost_ack r = \<lparr>sr_status = ''unknown'', sr_external_ref = sr_external_ref r, sr_response = sr_response r,
     sr_error = [(''reason'', JStr ''tape.chaos: simulated lost ack'')], sr_retry_at_ms = 0\<rparr>"

definition sdk_chaos_dispatch ::
    "'w chaos_env \<Rightarrow> 'w sdk_connector \<Rightarrow> SdkFault list \<Rightarrow> PbEffect \<Rightarrow> 'w \<Rightarrow> (py_exn + SdkDispatchResult) \<times> 'w" where
  "sdk_chaos_dispatch ce inner faults eff w =
     (case sk_dispatch inner eff (chaos_delay ce eff faults w) of
        (Inl ex, w1) \<Rightarrow> (Inl ex, w1)
      | (Inr r, w1) \<Rightarrow>
          if sr_status r = ''confirmed'' then
            (case pick_fault ce ''lose_ack'' eff faults w1 of
               (Some f, w2) \<Rightarrow> (Inr (lost_ack r), w2)
             | (None, w2) \<Rightarrow> (Inr r, w2))
          else (Inr r, w1))"

definition sdk_chaos_observe ::
    "'w chaos_env \<Rightarrow> 'w sdk_connector \<Rightarrow> SdkFault list \<Rightarrow> PbEffect \<Rightarrow> 'w \<Rightarrow> (py_exn + SdkObservationResult) \<times> 'w" where
  "sdk_chaos_observe ce inner faults eff w =
     (case sk_observe inner eff w of
        (Inl ex, w1) \<Rightarrow> (Inl ex, w1)
      | (Inr r, w1) \<Rightarrow>
          if so_status r = ''confirmed'' then
            (case pick_fault ce ''duplicate'' eff faults w1 of
               (Some f, w2) \<Rightarrow> (Inr (r\<lparr>so_status := ''duplicate''\<rparr>), w2)
             | (None, w2) \<Rightarrow> (Inr r, w2))
          else (Inr r, w1))"

definition sdk_wrap_connector :: "'w chaos_env \<Rightarrow> 'w sdk_connector \<Rightarrow> SdkFault list \<Rightarrow> 'w sdk_connector" where
  "sdk_wrap_connector ce inner faults = \<lparr>sk_name = sk_name inner, sk_dispatch = sdk_chaos_dispatch ce inner faults,
     sk_observe = sdk_chaos_observe ce inner faults\<rparr>"

section \<open>Sessions\<close>

record SdkInvariantResult =
  ir_name :: string
  ir_passed :: bool
  ir_detail :: string

record SdkChaosReport =
  cr_scenario_name :: string
  cr_seed :: int
  cr_failpoints_spec :: string
  cr_passed :: bool
  cr_invariant_results :: "SdkInvariantResult list"
  cr_notes :: "string list"

type_synonym 'w invariant_check = "string option \<Rightarrow> 'w \<Rightarrow> (py_exn + SdkInvariantResult) \<times> 'w"

record 'w SdkScenario =
  sc_name :: string
  sc_faults :: "SdkFault list"
  sc_invariants :: "(string \<times> 'w invariant_check) list"
  sc_seed :: int
  sc_strict_faults :: bool

text \<open>A session: its report, the connectors to put back, and the registry it acts on.\<close>

record 'w chaos_session =
  ss_report :: SdkChaosReport
  ss_unpatches :: "'w sdk_connector list"
  ss_registry :: "(string \<times> 'w sdk_connector) list"

definition new_session :: "(rat \<Rightarrow> string) \<Rightarrow> 'w SdkScenario \<Rightarrow> (string \<times> 'w sdk_connector) list \<Rightarrow> 'w chaos_session" where
  "new_session fmt_g sc reg = \<lparr>ss_report = \<lparr>cr_scenario_name = sc_name sc, cr_seed = sc_seed sc,
       cr_failpoints_spec = failpoints_env fmt_g (sc_faults sc), cr_passed = True, cr_invariant_results = [], cr_notes = []\<rparr>,
     ss_unpatches = [], ss_registry = reg\<rparr>"

definition sdk_skip_fault :: "bool \<Rightarrow> string \<Rightarrow> 'w chaos_session \<Rightarrow> 'w chaos_session" where
  "sdk_skip_fault strict msg s =
     (let rep = ss_report s; noted = rep\<lparr>cr_notes := cr_notes rep @ [msg]\<rparr>
      in s\<lparr>ss_report := (if strict then
             noted\<lparr>cr_invariant_results := cr_invariant_results rep @ [\<lparr>ir_name = ''strict_faults'', ir_passed = False, ir_detail = msg\<rparr>],
                   cr_passed := False\<rparr>
           else noted)\<rparr>)"

text \<open>
  \<open>register\<close> files the wrapper under its own name, and the restore files the original
  under its own name. A nameless connector makes \<open>register\<close> raise.
\<close>

definition wrap_in_session ::
    "'w chaos_env \<Rightarrow> 'w sdk_connector \<Rightarrow> SdkFault list \<Rightarrow> 'w chaos_session \<Rightarrow> tape_error + 'w chaos_session" where
  "wrap_in_session ce orig faults s =
     (case register_connector (sdk_wrap_connector ce orig faults) [] (ss_registry s) of
        Inl e \<Rightarrow> Inl e
      | Inr reg \<Rightarrow> Inr (s\<lparr>ss_registry := reg, ss_unpatches := ss_unpatches s @ [orig]\<rparr>))"

definition targeted :: "SdkFault list \<Rightarrow> SdkFault list" where
  "targeted faults = filter (\<lambda>f. fl_layer f = ''connector'' \<and> fl_target f \<noteq> []) faults"

definition tool_scoped :: "SdkFault list \<Rightarrow> SdkFault list" where
  "tool_scoped faults = filter (\<lambda>f. fl_layer f = ''connector'' \<and> fl_target f = [] \<and> fl_tool f \<noteq> []) faults"

definition unaimed :: "SdkFault list \<Rightarrow> SdkFault list" where
  "unaimed faults = filter (\<lambda>f. fl_layer f = ''connector'' \<and> fl_target f = [] \<and> fl_tool f = []) faults"

text \<open>\<open>by_connector\<close>: the targets in the order they are first named, with their faults.\<close>

definition target_names :: "SdkFault list \<Rightarrow> string list" where
  "target_names faults = rev (remdups (rev (map fl_target (targeted faults))))"

definition faults_for :: "SdkFault list \<Rightarrow> string \<Rightarrow> SdkFault list" where
  "faults_for faults name = filter (\<lambda>f. fl_target f = name) (targeted faults)"

fun apply_targeted ::
    "'w chaos_env \<Rightarrow> bool \<Rightarrow> SdkFault list \<Rightarrow> string list \<Rightarrow> 'w chaos_session \<Rightarrow> tape_error + 'w chaos_session" where
  "apply_targeted ce strict faults [] s = Inr s"
| "apply_targeted ce strict faults (name # names) s =
     (case get_connector name (ss_registry s) of
        None \<Rightarrow> apply_targeted ce strict faults names
                 (sdk_skip_fault strict (''connector fault for '' @ repr_str name @ '' skipped: connector not registered'') s)
      | Some orig \<Rightarrow>
          (case wrap_in_session ce orig (faults_for faults name @ tool_scoped faults) s of
             Inl e \<Rightarrow> Inl e
           | Inr s' \<Rightarrow> apply_targeted ce strict faults names s'))"

fun apply_scoped ::
    "'w chaos_env \<Rightarrow> SdkFault list \<Rightarrow> (string \<times> 'w sdk_connector) list \<Rightarrow> 'w chaos_session \<Rightarrow> tape_error + 'w chaos_session" where
  "apply_scoped ce faults [] s = Inr s"
| "apply_scoped ce faults ((name, orig) # rest) s =
     (if name \<in> set (target_names faults) then apply_scoped ce faults rest s
      else (case wrap_in_session ce orig (tool_scoped faults) s of
              Inl e \<Rightarrow> Inl e
            | Inr s' \<Rightarrow> apply_scoped ce faults rest s'))"

definition apply_connector_faults ::
    "'w chaos_env \<Rightarrow> 'w SdkScenario \<Rightarrow> 'w chaos_session \<Rightarrow> tape_error + 'w chaos_session" where
  "apply_connector_faults ce sc s =
     (let faults = sc_faults sc; strict = sc_strict_faults sc;
          s1 = fold (\<lambda>f. sdk_skip_fault strict ''connector fault skipped: neither target nor tool set'') (unaimed faults) s
      in case apply_targeted ce strict faults (target_names faults) s1 of
           Inl e \<Rightarrow> Inl e
         | Inr s2 \<Rightarrow>
             if tool_scoped faults = [] then Inr s2
             else apply_scoped ce faults (ss_registry s2)
                    (if ss_registry s2 = [] then sdk_skip_fault strict ''tool-scoped fault(s) skipped: no connectors registered'' s2 else s2))"

definition enter_session ::
    "'w chaos_env \<Rightarrow> (rat \<Rightarrow> string) \<Rightarrow> 'w SdkScenario \<Rightarrow> (string \<times> 'w sdk_connector) list \<Rightarrow> tape_error + 'w chaos_session" where
  "enter_session ce fmt_g sc reg = apply_connector_faults ce sc (new_session fmt_g sc reg)"

definition restore_one :: "'w sdk_connector \<Rightarrow> (string \<times> 'w sdk_connector) list \<Rightarrow> (string \<times> 'w sdk_connector) list" where
  "restore_one orig reg = (case register_connector orig [] reg of Inl e \<Rightarrow> reg | Inr reg' \<Rightarrow> reg')"

fun check_invariants ::
    "string option \<Rightarrow> (string \<times> 'w invariant_check) list \<Rightarrow> SdkChaosReport \<Rightarrow> 'w \<Rightarrow> SdkChaosReport \<times> 'w" where
  "check_invariants run_id [] rep w = (rep, w)"
| "check_invariants run_id ((name, check) # rest) rep w =
     (case check run_id w of (r, w1) \<Rightarrow>
        (let res = (case r of Inr v \<Rightarrow> v
                    | Inl ex \<Rightarrow> \<lparr>ir_name = name, ir_passed = False, ir_detail = ''check raised: '' @ exn_text ex\<rparr>)
         in check_invariants run_id rest
              (rep\<lparr>cr_invariant_results := cr_invariant_results rep @ [res], cr_passed := (cr_passed rep \<and> ir_passed res)\<rparr>) w1))"

text \<open>\<open>__exit__\<close>, with what the body raised.\<close>

definition exit_session ::
    "'w SdkScenario \<Rightarrow> string option \<Rightarrow> py_exn option \<Rightarrow> 'w chaos_session \<Rightarrow> 'w \<Rightarrow> 'w chaos_session \<times> 'w" where
  "exit_session sc run_id raised s w =
     (let reg = fold restore_one (rev (ss_unpatches s)) (ss_registry s);
          rep = (case raised of None \<Rightarrow> ss_report s
                 | Some ex \<Rightarrow> (ss_report s)\<lparr>cr_passed := False, cr_notes := cr_notes (ss_report s) @ [''body raised: '' @ exn_text ex]\<rparr>)
      in case check_invariants run_id (sc_invariants sc) rep w of (rep', w1) \<Rightarrow>
           (s\<lparr>ss_report := rep', ss_registry := reg\<rparr>, w1))"

text \<open>
  \<open>run_scenario\<close>: what the body raised, if anything, and the run id the session ends with;
  an exception goes on to the caller after the exit, and the report is returned otherwise.
\<close>

datatype scenario_end = ScenarioReport SdkChaosReport | BodyRaised py_exn | SessionNotEntered tape_error

definition run_scenario ::
    "'w chaos_env \<Rightarrow> (rat \<Rightarrow> string) \<Rightarrow> 'w SdkScenario \<Rightarrow>
     ((string \<times> 'w sdk_connector) list \<Rightarrow> 'w \<Rightarrow> (py_exn option \<times> string option) \<times> 'w) \<Rightarrow>
     (string \<times> 'w sdk_connector) list \<Rightarrow> 'w \<Rightarrow> scenario_end \<times> (string \<times> 'w sdk_connector) list \<times> 'w" where
  "run_scenario ce fmt_g sc body reg w =
     (case enter_session ce fmt_g sc reg of
        Inl e \<Rightarrow> (SessionNotEntered e, reg, w)
      | Inr s \<Rightarrow>
          (case body (ss_registry s) w of ((raised, run_id), w1) \<Rightarrow>
             (case exit_session sc run_id raised s w1 of (s', w2) \<Rightarrow>
                ((case raised of Some ex \<Rightarrow> BodyRaised ex | None \<Rightarrow> ScenarioReport (ss_report s')), ss_registry s', w2))))"

section \<open>Invariants over the server\<close>

record 'w oracle_client =
  oc_confirmed_events :: "string \<Rightarrow> 'w \<Rightarrow> (py_exn + wire_text list) \<times> 'w"
  oc_stuck_obligations :: "'w \<Rightarrow> (py_exn + (string \<times> int) list) \<times> 'w"
  oc_pending_effects :: "'w \<Rightarrow> (py_exn + (PbEffect \<times> string) list) \<times> 'w"
  oc_run_obligations :: "string \<Rightarrow> 'w \<Rightarrow> (py_exn + string list) \<times> 'w"
  oc_effect_found :: "string \<Rightarrow> string \<Rightarrow> 'w \<Rightarrow> (py_exn + bool) \<times> 'w"
  oc_get_run :: "string \<Rightarrow> 'w \<Rightarrow> (py_exn + unit) \<times> 'w"

definition verdict :: "string \<Rightarrow> bool \<Rightarrow> string \<Rightarrow> SdkInvariantResult" where
  "verdict name passed detail = \<lparr>ir_name = name, ir_passed = passed, ir_detail = detail\<rparr>"

definition exactly_one_name :: "string \<Rightarrow> string \<Rightarrow> string \<Rightarrow> string" where
  "exactly_one_name connector tool by = ''exactly_one('' @ repr_str (str_or connector tool) @ '', by='' @ repr_str by @ '')''"

text \<open>\<open>str(payload.get(k) or "")\<close>\<close>

definition field_text :: "(string \<times> json) list \<Rightarrow> string \<Rightarrow> string" where
  "field_text kvs k = py_str (json_or (case map_of kvs k of Some v \<Rightarrow> v | None \<Rightarrow> JNull) (JStr []))"

text \<open>
  The counting loop over the events read before its deadline. An event without a payload, or
  whose payload is not JSON, is skipped; one whose payload is not a dict raises.
\<close>

fun count_keys ::
    "string \<Rightarrow> string \<Rightarrow> wire_text list \<Rightarrow> (string \<times> json) list \<Rightarrow> py_exn + (string \<times> json) list" where
  "count_keys connector by [] counts = Inr counts"
| "count_keys connector by (PlainText s # evts) counts = count_keys connector by evts counts"
| "count_keys connector by (JsonText v # evts) counts =
     (case v of
        JObj kvs \<Rightarrow>
          (let bk = field_text kvs by
           in if connector \<noteq> [] \<and> field_text kvs ''connector'' \<noteq> connector then count_keys connector by evts counts
              else if bk = [] then count_keys connector by evts counts
              else count_keys connector by evts
                     (AList.update bk (JNum ((case map_of counts bk of Some (JNum n) \<Rightarrow> n | _ \<Rightarrow> 0) + 1)) counts))
      | _ \<Rightarrow> Inl (PyExn ''AttributeError'' (repr_str (py_type_name v) @ '' object has no attribute '' @ repr_str ''get'')))"

definition repeated :: "(string \<times> json) list \<Rightarrow> (string \<times> json) list" where
  "repeated counts = filter (\<lambda>(k, v). case v of JNum n \<Rightarrow> n > 1 | _ \<Rightarrow> False) counts"

definition sdk_check_exactly_one ::
    "'w oracle_client \<Rightarrow> string \<Rightarrow> string \<Rightarrow> string \<Rightarrow> 'w invariant_check" where
  "sdk_check_exactly_one oc connector tool by run_id w =
     (let name = exactly_one_name connector tool by;
          pattern = (if tool \<noteq> [] then ''/tape/effect/confirmed/'' @ tool @ ''/**'' else ''/tape/effect/confirmed/**'')
      in case oc_confirmed_events oc pattern w of
           (Inl ex, w1) \<Rightarrow> (Inr (verdict name False (''subscribe_events failed: '' @ exn_msg ex)), w1)
         | (Inr evts, w1) \<Rightarrow>
             (case count_keys connector by evts [] of
                Inl ex \<Rightarrow> (Inl ex, w1)
              | Inr counts \<Rightarrow>
                  if repeated counts \<noteq> [] then
                    (Inr (verdict name False (''duplicate business keys: '' @ py_repr (JObj (repeated counts)))), w1)
                  else (Inr (verdict name True (''unique business keys: '' @ nat_str (length counts))), w1)))"

definition of_run :: "string option \<Rightarrow> string \<Rightarrow> bool" where
  "of_run run_id r \<longleftrightarrow> \<not> truthy_str run_id \<or> run_id = Some r"

definition sdk_check_no_stuck :: "'w oracle_client \<Rightarrow> int \<Rightarrow> 'w invariant_check" where
  "sdk_check_no_stuck oc stuck_status run_id w =
     (case oc_stuck_obligations oc w of
        (Inl ex, w1) \<Rightarrow> (Inr (verdict ''no_stuck_obligations'' False (''list_unresolved_obligations failed: '' @ exn_msg ex)), w1)
      | (Inr obs, w1) \<Rightarrow>
          (let stuck = filter (\<lambda>(r, status). status = stuck_status \<and> of_run run_id r) obs
           in if stuck \<noteq> [] then
                (Inr (verdict ''no_stuck_obligations'' False (nat_str (length stuck) @ '' stuck obligation(s)'')), w1)
              else (Inr (verdict ''no_stuck_obligations'' True ''0 stuck''), w1)))"

definition blind_retry :: "PbEffect \<times> string \<Rightarrow> bool" where
  "blind_retry er = (case er of (e, ref) \<Rightarrow> pe_semantics e = EFFECT_SEMANTICS_NON_IDEMPOTENT \<and> pe_dispatch_attempts e > 1 \<and>
     pe_status e = EFFECT_STATUS_PENDING \<and> ref = [])"

definition repr_bad :: "PbEffect \<times> string \<Rightarrow> string" where
  "repr_bad er = (case er of (e, ref) \<Rightarrow> ''('' @ repr_str (pe_run_id e) @ '', '' @ repr_str (pe_idempotency_key e) @ '', '' @
     int_str (pe_dispatch_attempts e) @ '')'')"

definition sdk_check_no_blind_retry :: "'w oracle_client \<Rightarrow> 'w invariant_check" where
  "sdk_check_no_blind_retry oc run_id w =
     (case oc_pending_effects oc w of
        (Inl ex, w1) \<Rightarrow> (Inr (verdict ''no_blind_non_idempotent_retry'' False (''list_pending_effects failed: '' @ exn_msg ex)), w1)
      | (Inr effs, w1) \<Rightarrow>
          (let bad = filter (\<lambda>er. of_run run_id (pe_run_id (fst er)) \<and> blind_retry er) effs
           in if bad \<noteq> [] then
                (Inr (verdict ''no_blind_non_idempotent_retry'' False (nat_str (length bad) @
                   '' non-idempotent effect(s) re-dispatched without observation: ['' @ join_with '', '' (map repr_bad (take 3 bad)) @ '']'')), w1)
              else (Inr (verdict ''no_blind_non_idempotent_retry'' True ''no blind retries on non-idempotent effects''), w1)))"

definition check_no_budget_overrun :: "'w oracle_client \<Rightarrow> 'w invariant_check" where
  "check_no_budget_overrun oc run_id w =
     (if \<not> truthy_str run_id then
        (Inr (verdict ''no_budget_overrun'' True ''no run_id; skipped (cross-run budget check is Phase 3)''), w)
      else (case oc_get_run oc (the run_id) w of
              (Inl ex, w1) \<Rightarrow> (Inr (verdict ''no_budget_overrun'' False (''get_run failed: '' @ exn_msg ex)), w1)
            | (Inr _, w1) \<Rightarrow> (Inr (verdict ''no_budget_overrun'' True
                ''budget projection check is a Phase-3 invariant; v1 stub''), w1)))"

fun find_orphans :: "'w oracle_client \<Rightarrow> string \<Rightarrow> string list \<Rightarrow> 'w \<Rightarrow> string list \<times> 'w" where
  "find_orphans oc run_id [] w = ([], w)"
| "find_orphans oc run_id (k # ks) w =
     (case oc_effect_found oc run_id k w of (r, w1) \<Rightarrow>
        (case find_orphans oc run_id ks w1 of (rest, w2) \<Rightarrow> ((if r = Inr True then rest else k # rest), w2)))"

definition check_no_orphan :: "'w oracle_client \<Rightarrow> 'w invariant_check" where
  "check_no_orphan oc run_id w =
     (if \<not> truthy_str run_id then
        (Inr (verdict ''no_orphan_compensation'' True ''no run_id; skipped (cross-run scan is Phase 3)''), w)
      else (case oc_run_obligations oc (the run_id) w of
              (Inl ex, w1) \<Rightarrow> (Inr (verdict ''no_orphan_compensation'' False (''list_obligations failed: '' @ exn_msg ex)), w1)
            | (Inr keys, w1) \<Rightarrow>
                (case find_orphans oc (the run_id) keys w1 of (orphans, w2) \<Rightarrow>
                   if orphans \<noteq> [] then
                     (Inr (verdict ''no_orphan_compensation'' False (nat_str (length orphans) @ '' obligation(s) with no effect: '' @
                        py_repr (JArr (map JStr (take 3 orphans))))), w2)
                   else (Inr (verdict ''no_orphan_compensation'' True (''all '' @ nat_str (length keys) @ '' obligation(s) have an effect'')), w2))))"

section \<open>The score of a campaign\<close>

record campaign_row =
  cw_scenario_name :: string
  cw_passed :: bool
  cw_failed_invariants :: "string list"
  cw_terminal :: bool
  cw_notes :: "string list"

definition add_row :: "SdkChaosReport \<Rightarrow> bool \<Rightarrow> campaign_row list \<Rightarrow> campaign_row list" where
  "add_row rep terminal rows = rows @ [\<lparr>cw_scenario_name = cr_scenario_name rep, cw_passed = cr_passed rep,
     cw_failed_invariants = map ir_name (filter (\<lambda>ir. \<not> ir_passed ir) (cr_invariant_results rep)),
     cw_terminal = terminal, cw_notes = cr_notes rep\<rparr>]"

text \<open>
  A quotient and a product of floats: the exact value rounded to 53 binary digits, halves to
  even, for positive numbers of the size that occurs here. \<open>scale\<close> finds the power of two that
  gives a value in \<open>[2^52, 2^53)\<close>.
\<close>

definition half_even :: "rat \<Rightarrow> int" where
  "half_even x = (let f = \<lfloor>x\<rfloor>; d = x - of_int f
     in if d < 1/2 then f else if d > 1/2 then f + 1 else if even f then f else f + 1)"

fun scale :: "nat \<Rightarrow> nat \<Rightarrow> rat \<Rightarrow> nat" where
  "scale 0 e x = e"
| "scale (Suc fuel) e x = (if x * 2 ^ e < 2 ^ 52 then scale fuel (Suc e) x else e)"

definition double :: "rat \<Rightarrow> rat" where
  "double x = (if x \<le> 0 then x else let e = scale 1074 0 x in of_int (half_even (x * 2 ^ e)) / 2 ^ e)"

definition surface :: "campaign_row list \<Rightarrow> nat \<times> rat \<times> rat" where
  "surface rows =
     (let k = length rows;
          violations = length (filter (\<lambda>r. \<not> cw_passed r) rows);
          terminal = length (filter cw_terminal rows)
      in if k = 0 then (0, 0, 1)
         else (k, double (rat_of_nat violations / rat_of_nat k), double (rat_of_nat terminal / rat_of_nat k)))"

text \<open>The counts \<open>to_markdown\<close> prints: \<open>int(s.epsilon * s.k)\<close> and \<open>int(s.lam * s.k)\<close>.\<close>

definition printed_violations :: "campaign_row list \<Rightarrow> int" where
  "printed_violations rows = (case surface rows of (k, eps, lam) \<Rightarrow> \<lfloor>double (eps * rat_of_nat k)\<rfloor>)"

definition printed_terminal :: "campaign_row list \<Rightarrow> int" where
  "printed_terminal rows = (case surface rows of (k, eps, lam) \<Rightarrow> \<lfloor>double (lam * rat_of_nat k)\<rfloor>)"

definition score :: "SdkChaosReport list \<Rightarrow> nat \<times> rat \<times> rat" where
  "score reports = surface (fold (\<lambda>rep. add_row rep True) reports [])"

section \<open>The injected faults\<close>

text \<open>The environment of the wrapper, below a log.\<close>

definition watch_env :: "'w chaos_env \<Rightarrow> ('w \<times> 'a list) chaos_env" where
  "watch_env ce = \<lparr>ce_random = unlogged (ce_random ce), ce_uniform = (\<lambda>j. unlogged (ce_uniform ce j)),
     ce_sleep = (\<lambda>t (w, l). (ce_sleep ce t w, l))\<rparr>"

lemma watch_env_simps [simp]:
  "ce_random (watch_env ce) = unlogged (ce_random ce)" "ce_uniform (watch_env ce) j = unlogged (ce_uniform ce j)"
  "ce_sleep (watch_env ce) t (w, l) = (ce_sleep ce t w, l)"
  by (simp_all add: watch_env_def)

lemma pick_fault_watch: "pick_fault (watch_env ce) kind eff fs (w, l) = (fst (pick_fault ce kind eff fs w), snd (pick_fault ce kind eff fs w), l)"
  by (induction fs arbitrary: w) (auto simp: unlogged_run split: prod.splits)

lemma pick_fault_member:
  "pick_fault ce kind eff fs w = (Some f, w') \<Longrightarrow>
   f \<in> set fs \<and> fl_action f = kind \<and> (fl_tool f = [] \<or> fl_tool f = pe_tool_name eff)"
  by (induction fs arbitrary: w) (auto split: if_splits prod.splits)

lemma chaos_delay_watch: "chaos_delay (watch_env ce) eff fs (w, l) = (chaos_delay ce eff fs w, l)"
proof -
  obtain r w1 where p: "pick_fault ce ''delay'' eff fs w = (r, w1)" by fastforce
  show ?thesis
  proof (cases r)
    case None
    with p show ?thesis by (simp add: chaos_delay_def pick_fault_watch)
  next
    case (Some d)
    obtain u w2 where "ce_uniform ce (fl_jitter d) w1 = (u, w2)" by fastforce
    with Some p show ?thesis by (simp add: chaos_delay_def pick_fault_watch unlogged_run)
  qed
qed

lemma chaos_dispatch_watch:
  "sdk_chaos_dispatch (watch_env ce) (watch_connector c) fs eff (w, l) =
     (fst (sdk_chaos_dispatch ce c fs eff w), snd (sdk_chaos_dispatch ce c fs eff w), l @ [ActDispatch eff])"
  by (auto simp: sdk_chaos_dispatch_def chaos_delay_watch watch_connector_def logged_run pick_fault_watch split: prod.splits sum.splits option.splits)

lemma chaos_dispatch_cases:
  assumes "sk_dispatch c eff (chaos_delay ce eff fs w) = (r, w1)"
  shows "fst (sdk_chaos_dispatch ce c fs eff w) = r \<or>
    (\<exists>d f. r = Inr d \<and> sr_status d = ''confirmed'' \<and> fst (sdk_chaos_dispatch ce c fs eff w) = Inr (lost_ack d) \<and> f \<in> set fs \<and>
       fl_action f = ''lose_ack'' \<and> (fl_tool f = [] \<or> fl_tool f = pe_tool_name eff))"
proof (cases r)
  case (Inr d)
  obtain pf w2 where pf: "pick_fault ce ''lose_ack'' eff fs w1 = (pf, w2)" by fastforce
  show ?thesis
  proof (cases pf)
    case None
    with assms Inr pf show ?thesis by (auto simp: sdk_chaos_dispatch_def)
  next
    case (Some f)
    with assms Inr pf pick_fault_member [of ce "''lose_ack''" eff fs w1 f w2] show ?thesis by (auto simp: sdk_chaos_dispatch_def)
  qed
qed (use assms in \<open>simp add: sdk_chaos_dispatch_def\<close>)

section \<open>Wrapping and restoring\<close>

text \<open>Every connector is filed under its own name, once.\<close>

definition self_named :: "(string \<times> 'w sdk_connector) list \<Rightarrow> bool" where
  "self_named reg \<longleftrightarrow> distinct (map fst reg) \<and> (\<forall>(n, c) \<in> set reg. sk_name c = n \<and> n \<noteq> [])"

text \<open>What restoring a session now would leave.\<close>

definition restored :: "'w chaos_session \<Rightarrow> (string \<times> 'w sdk_connector) list" where
  "restored s = fold restore_one (rev (ss_unpatches s)) (ss_registry s)"

lemma self_named_get: "self_named reg \<Longrightarrow> get_connector n reg = Some c \<Longrightarrow> sk_name c = n \<and> n \<noteq> []"
  by (auto simp: self_named_def get_connector_def dest: map_of_SomeD)

lemma self_named_update: "self_named reg \<Longrightarrow> sk_name c = n \<Longrightarrow> n \<noteq> [] \<Longrightarrow> self_named (AList.update n c reg)"
proof -
  assume a: "self_named reg" "sk_name c = n" "n \<noteq> []"
  have "set (AList.update n c reg) \<subseteq> insert (n, c) (set reg)" by (induction reg) auto
  with a show ?thesis by (auto simp: self_named_def distinct_update)
qed

text \<open>
  What a registry has during a session: every connector with the faults aimed at it and those
  that are scoped to a tool, and as it was if there are none.
\<close>

definition own_faults :: "SdkFault list \<Rightarrow> string \<Rightarrow> SdkFault list" where
  "own_faults faults n = filter (\<lambda>f. fl_layer f = ''connector'' \<and> fl_target f = n) faults @
     filter (\<lambda>f. fl_layer f = ''connector'' \<and> fl_target f = [] \<and> fl_tool f \<noteq> []) faults"

definition faulty :: "'w chaos_env \<Rightarrow> SdkFault list \<Rightarrow> string \<Rightarrow> 'w sdk_connector \<Rightarrow> 'w sdk_connector" where
  "faulty ce faults n c = (if own_faults faults n = [] then c else sdk_wrap_connector ce c (own_faults faults n))"

definition refile :: "(string \<Rightarrow> 'w sdk_connector \<Rightarrow> 'w sdk_connector) \<Rightarrow> (string \<times> 'w sdk_connector) list \<Rightarrow> (string \<times> 'w sdk_connector) list" where
  "refile g reg = map (\<lambda>(n, c). (n, g n c)) reg"

text \<open>A declared connector fault that no registered connector carries.\<close>

definition left_out :: "(string \<times> 'w sdk_connector) list \<Rightarrow> SdkFault \<Rightarrow> bool" where
  "left_out reg f \<longleftrightarrow> fl_layer f = ''connector'' \<and>
     (if fl_target f \<noteq> [] then fl_target f \<notin> fst ` set reg else fl_tool f = [] \<or> reg = [])"

text \<open>The report of a session says that something was left out, and fails for it under strict faults.\<close>

definition noted :: "bool \<Rightarrow> bool \<Rightarrow> 'w chaos_session \<Rightarrow> bool" where
  "noted strict b s \<longleftrightarrow> (cr_passed (ss_report s) \<longleftrightarrow> \<not> (strict \<and> b)) \<and> (cr_notes (ss_report s) \<noteq> [] \<longleftrightarrow> b)"

text \<open>The session's registry is the original one refiled, can be restored, and its report is right.\<close>

definition wrapped_as ::
    "(string \<Rightarrow> 'w sdk_connector \<Rightarrow> 'w sdk_connector) \<Rightarrow> (string \<times> 'w sdk_connector) list \<Rightarrow> bool \<Rightarrow> bool \<Rightarrow> 'w chaos_session \<Rightarrow> bool" where
  "wrapped_as g reg strict b s \<longleftrightarrow> ss_registry s = refile g reg \<and> self_named (refile g reg) \<and> restored s = reg \<and> noted strict b s"

lemma map_fst_refile [simp]: "map fst (refile g reg) = map fst reg"
  by (auto simp: refile_def)

lemma fst_set_refile [simp]: "fst ` set (refile g reg) = fst ` set reg"
  using map_fst_refile [of g reg] by (metis list.set_map)

lemma refile_id [simp]: "refile (\<lambda>n c. c) reg = reg"
  by (induction reg) (auto simp: refile_def)

lemma refile_cong: "(\<And>n c. (n, c) \<in> set reg \<Longrightarrow> g n c = h n c) \<Longrightarrow> refile g reg = refile h reg"
  by (auto simp: refile_def)

lemma get_refile: "get_connector n (refile g reg) = map_option (g n) (get_connector n reg)"
  by (induction reg) (auto simp: refile_def get_connector_def)

lemma get_connector_None: "get_connector n reg = None \<longleftrightarrow> n \<notin> fst ` set reg"
  by (simp add: get_connector_def map_of_eq_None_iff)

lemma update_refile:
  "distinct (map fst reg) \<Longrightarrow> get_connector n reg = Some c \<Longrightarrow> AList.update n (v c) (refile g reg) = refile (g(n := v)) reg"
proof (induction reg)
  case (Cons mc reg)
  obtain m d where mc: "mc = (m, d)" by fastforce
  show ?case
  proof (cases "m = n")
    case True
    have "refile (g(n := v)) reg = refile g reg" using Cons.prems(1) mc True by (intro refile_cong) (auto simp: image_iff)
    with Cons.prems mc True show ?thesis by (simp add: refile_def get_connector_def)
  next
    case False
    with Cons mc show ?thesis by (simp add: refile_def get_connector_def)
  qed
qed (simp add: get_connector_def)

lemma wrap_refiles:
  assumes "wrapped_as g reg strict b s" and "get_connector n reg = Some c"
  shows "\<exists>s'. wrap_in_session ce (g n c) fs s = Inr s' \<and>
    wrapped_as (g(n := (\<lambda>c. sdk_wrap_connector ce (g n c) fs))) reg strict b s'"
proof -
  let ?o = "g n c" and ?v = "\<lambda>c. sdk_wrap_connector ce (g n c) fs"
  have st: "ss_registry s = refile g reg" "self_named (refile g reg)" "restored s = reg" "noted strict b s"
    using assms(1) by (auto simp: wrapped_as_def)
  have o: "get_connector n (refile g reg) = Some ?o" using assms(2) by (simp add: get_refile)
  have n: "sk_name ?o = n" "n \<noteq> []" using self_named_get [OF st(2) o] by auto
  have d: "distinct (map fst reg)" using st(2) by (simp add: self_named_def)
  have up: "AList.update n (sdk_wrap_connector ce ?o fs) (refile g reg) = refile (g(n := ?v)) reg"
    using update_refile [OF d assms(2), of ?v g] by simp
  have "AList.update n ?o (AList.update n (sdk_wrap_connector ce ?o fs) (refile g reg)) = refile g reg"
    using o by (simp add: update_last update_triv get_connector_def)
  then have "restore_one ?o (refile (g(n := ?v)) reg) = refile g reg"
    using n up by (simp add: restore_one_def register_connector_def str_or_def)
  moreover have "self_named (refile (g(n := ?v)) reg)"
    using self_named_update [OF st(2), of "sdk_wrap_connector ce ?o fs" n] n up by (simp add: sdk_wrap_connector_def)
  ultimately show ?thesis using st n up
    by (auto simp: wrap_in_session_def register_connector_def sdk_wrap_connector_def str_or_def wrapped_as_def restored_def noted_def)
qed

lemma skip_fault_keeps [simp]:
  "ss_registry (sdk_skip_fault strict m s) = ss_registry s" "restored (sdk_skip_fault strict m s) = restored s"
  by (simp_all add: sdk_skip_fault_def Let_def restored_def)

lemma skip_fault_notes: "wrapped_as g reg strict b s \<Longrightarrow> wrapped_as g reg strict True (sdk_skip_fault strict m s)"
  unfolding wrapped_as_def skip_fault_keeps by (simp add: noted_def sdk_skip_fault_def Let_def)

lemma fold_skip_notes:
  "wrapped_as g reg strict b s \<Longrightarrow> wrapped_as g reg strict (b \<or> fs \<noteq> []) (fold (\<lambda>f. sdk_skip_fault strict m) fs s)"
proof (induction fs arbitrary: b s)
  case (Cons f fs)
  from Cons.IH [OF skip_fault_notes [OF Cons.prems, of m]] show ?case by simp
qed simp

lemma apply_targeted_wraps:
  "wrapped_as g reg strict b s \<Longrightarrow> distinct names \<Longrightarrow> (\<forall>n \<in> set names. g n = (\<lambda>c. c)) \<Longrightarrow>
   \<exists>s'. apply_targeted ce strict fs names s = Inr s' \<and>
     wrapped_as (\<lambda>n. if n \<in> set names \<and> n \<in> fst ` set reg then (\<lambda>c. sdk_wrap_connector ce c (faults_for fs n @ tool_scoped fs)) else g n) reg strict
       (b \<or> (\<exists>n \<in> set names. n \<notin> fst ` set reg)) s'"
proof (induction names arbitrary: s b g)
  case (Cons name names)
  let ?fs = "faults_for fs name @ tool_scoped fs"
  show ?case
  proof (cases "get_connector name reg")
    case None
    then have "get_connector name (ss_registry s) = None" using Cons.prems(1) by (simp add: wrapped_as_def get_refile)
    moreover have "name \<notin> fst ` set reg" using None by (simp add: get_connector_None)
    moreover have "(\<lambda>n. if n \<in> set (name # names) \<and> n \<in> fst ` set reg then (\<lambda>c. sdk_wrap_connector ce c (faults_for fs n @ tool_scoped fs)) else g n) =
        (\<lambda>n. if n \<in> set names \<and> n \<in> fst ` set reg then (\<lambda>c. sdk_wrap_connector ce c (faults_for fs n @ tool_scoped fs)) else g n)"
      using calculation(2) by (auto simp: fun_eq_iff)
    ultimately show ?thesis using Cons.IH [OF skip_fault_notes [OF Cons.prems(1)]] Cons.prems(2,3) by auto
  next
    case (Some c)
    have at: "get_connector name (ss_registry s) = Some (g name c)" "g name = (\<lambda>c. c)"
      using Cons.prems(1,3) Some by (auto simp: wrapped_as_def get_refile)
    let ?g = "g(name := (\<lambda>c. sdk_wrap_connector ce c ?fs))"
    have reg: "name \<in> fst ` set reg" using Some get_connector_None [of name reg] by auto
    obtain s1 where s1: "wrap_in_session ce (g name c) ?fs s = Inr s1" "wrapped_as ?g reg strict b s1"
      using wrap_refiles [OF Cons.prems(1) Some, of ce ?fs] at(2) by auto
    have "\<forall>n \<in> set names. ?g n = (\<lambda>c. c)" using Cons.prems(2,3) by auto
    from Cons.IH [OF s1(2) _ this] obtain s' where s': "apply_targeted ce strict fs names s1 = Inr s'"
      "wrapped_as (\<lambda>n. if n \<in> set names \<and> n \<in> fst ` set reg then (\<lambda>c. sdk_wrap_connector ce c (faults_for fs n @ tool_scoped fs)) else ?g n) reg strict
         (b \<or> (\<exists>n \<in> set names. n \<notin> fst ` set reg)) s'" using Cons.prems(2) by auto
    moreover have "(\<lambda>n. if n \<in> set names \<and> n \<in> fst ` set reg then (\<lambda>c. sdk_wrap_connector ce c (faults_for fs n @ tool_scoped fs)) else ?g n) =
        (\<lambda>n. if n \<in> set (name # names) \<and> n \<in> fst ` set reg then (\<lambda>c. sdk_wrap_connector ce c (faults_for fs n @ tool_scoped fs)) else g n)"
      using reg by (auto simp: fun_eq_iff)
    ultimately show ?thesis using at s1(1) reg by auto
  qed
qed simp

lemma apply_scoped_wraps:
  "wrapped_as g reg strict b s \<Longrightarrow> distinct (map fst todo) \<Longrightarrow> (\<forall>(n, c) \<in> set todo. get_connector n (ss_registry s) = Some c) \<Longrightarrow>
   \<exists>s'. apply_scoped ce fs todo s = Inr s' \<and>
     wrapped_as (\<lambda>n. if n \<in> fst ` set todo \<and> n \<notin> set (target_names fs) then (\<lambda>c. sdk_wrap_connector ce (g n c) (tool_scoped fs)) else g n) reg strict b s'"
proof (induction todo arbitrary: s g)
  case (Cons nc todo)
  obtain n x where nc: "nc = (n, x)" by fastforce
  have rest: "\<forall>(n, c) \<in> set todo. get_connector n (ss_registry s) = Some c" "distinct (map fst todo)" using Cons.prems(2,3) by auto
  show ?case
  proof (cases "n \<in> set (target_names fs)")
    case True
    then have "(\<lambda>m. if m \<in> fst ` set (nc # todo) \<and> m \<notin> set (target_names fs) then (\<lambda>c. sdk_wrap_connector ce (g m c) (tool_scoped fs)) else g m) =
       (\<lambda>m. if m \<in> fst ` set todo \<and> m \<notin> set (target_names fs) then (\<lambda>c. sdk_wrap_connector ce (g m c) (tool_scoped fs)) else g m)"
      by (auto simp: fun_eq_iff nc)
    with Cons.IH [OF Cons.prems(1) rest(2,1)] nc True show ?thesis by simp
  next
    case False
    obtain c where c: "get_connector n reg = Some c" "x = g n c"
      using Cons.prems(1,3) nc by (auto simp: wrapped_as_def get_refile)
    let ?g = "g(n := (\<lambda>c. sdk_wrap_connector ce (g n c) (tool_scoped fs)))"
    obtain s1 where s1: "wrap_in_session ce x (tool_scoped fs) s = Inr s1" "wrapped_as ?g reg strict b s1"
      using wrap_refiles [OF Cons.prems(1) c(1), of ce "tool_scoped fs"] c(2) by auto
    have ss: "ss_registry s = refile g reg" "ss_registry s1 = refile ?g reg" using Cons.prems(1) s1(2) by (simp_all add: wrapped_as_def)
    have fresh: "n \<notin> fst ` set todo" using Cons.prems(2) nc by simp
    have "\<forall>(m, d) \<in> set todo. get_connector m (ss_registry s1) = Some d"
    proof (safe)
      fix m d assume md: "(m, d) \<in> set todo"
      then have "m \<noteq> n" using fresh by (auto simp: image_iff)
      moreover have "get_connector m (ss_registry s) = Some d" using rest(1) md by auto
      ultimately show "get_connector m (ss_registry s1) = Some d" using ss by (simp add: get_refile)
    qed
    from Cons.IH [OF s1(2) rest(2) this] obtain s' where s': "apply_scoped ce fs todo s1 = Inr s'"
      "wrapped_as (\<lambda>m. if m \<in> fst ` set todo \<and> m \<notin> set (target_names fs) then (\<lambda>c. sdk_wrap_connector ce (?g m c) (tool_scoped fs)) else ?g m)
         reg strict b s'" by blast
    moreover have "(\<lambda>m. if m \<in> fst ` set todo \<and> m \<notin> set (target_names fs) then (\<lambda>c. sdk_wrap_connector ce (?g m c) (tool_scoped fs)) else ?g m) =
       (\<lambda>m. if m \<in> fst ` set (nc # todo) \<and> m \<notin> set (target_names fs) then (\<lambda>c. sdk_wrap_connector ce (g m c) (tool_scoped fs)) else g m)"
      using fresh False by (auto simp: fun_eq_iff nc)
    ultimately show ?thesis using nc False s1(1) by auto
  qed
qed simp

lemma new_session_wrapped: "self_named reg \<Longrightarrow> wrapped_as (\<lambda>n c. c) reg strict False (new_session fmt_g sc reg)"
  by (simp add: wrapped_as_def new_session_def restored_def noted_def)

lemma self_named_entries: "self_named reg \<Longrightarrow> \<forall>(n, c) \<in> set reg. get_connector n reg = Some c"
  by (auto simp: self_named_def get_connector_def)

lemma target_names_distinct: "distinct (target_names fs)"
  by (simp add: target_names_def)

lemma set_target_names: "set (target_names fs) = fl_target ` {f \<in> set fs. fl_layer f = ''connector'' \<and> fl_target f \<noteq> []}"
  by (auto simp: target_names_def targeted_def)

lemma own_faults_split:
  assumes "n \<noteq> []"
  shows "own_faults fs n = faults_for fs n @ tool_scoped fs" "faults_for fs n = [] \<longleftrightarrow> n \<notin> set (target_names fs)"
  using assms by (auto simp: own_faults_def faults_for_def targeted_def tool_scoped_def set_target_names filter_empty_conv
      intro!: filter_cong)

lemma left_out_split:
  "(\<exists>f \<in> set fs. left_out reg f) \<longleftrightarrow>
   unaimed fs \<noteq> [] \<or> (\<exists>n \<in> set (target_names fs). n \<notin> fst ` set reg) \<or> (tool_scoped fs \<noteq> [] \<and> reg = [])"
  by (auto simp: left_out_def unaimed_def tool_scoped_def set_target_names filter_empty_conv)

lemma wrapped_faulty:
  assumes "self_named reg" and "\<And>n c. (n, c) \<in> set reg \<Longrightarrow> n \<noteq> [] \<Longrightarrow> g n c = faulty ce fs n c" and "wrapped_as g reg strict b s"
  shows "wrapped_as (faulty ce fs) reg strict b s"
proof -
  have "refile g reg = refile (faulty ce fs) reg" using assms(1,2) by (intro refile_cong) (auto simp: self_named_def)
  with assms(3) show ?thesis by (simp add: wrapped_as_def)
qed

lemma enter_session_wraps:
  assumes "self_named reg"
  shows "\<exists>s. enter_session ce fmt_g sc reg = Inr s \<and>
    wrapped_as (faulty ce (sc_faults sc)) reg (sc_strict_faults sc) (\<exists>f \<in> set (sc_faults sc). left_out reg f) s"
proof -
  let ?fs = "sc_faults sc" and ?strict = "sc_strict_faults sc" and ?names = "target_names (sc_faults sc)"
  let ?s1 = "fold (\<lambda>f. sdk_skip_fault ?strict ''connector fault skipped: neither target nor tool set'') (unaimed ?fs) (new_session fmt_g sc reg)"
  let ?g = "\<lambda>n. if n \<in> set ?names \<and> n \<in> fst ` set reg then (\<lambda>c. sdk_wrap_connector ce c (faults_for ?fs n @ tool_scoped ?fs)) else (\<lambda>c. c)"
  let ?b = "unaimed ?fs \<noteq> [] \<or> (\<exists>n \<in> set ?names. n \<notin> fst ` set reg)"
  have w1: "wrapped_as (\<lambda>n c. c) reg ?strict (False \<or> unaimed ?fs \<noteq> []) ?s1"
    by (rule fold_skip_notes [OF new_session_wrapped [OF assms]])
  obtain s2 where s2: "apply_targeted ce ?strict ?fs ?names ?s1 = Inr s2" "wrapped_as ?g reg ?strict ?b s2"
    using apply_targeted_wraps [OF w1 target_names_distinct, of ?fs ce ?fs] by auto
  have r2: "ss_registry s2 = refile ?g reg" "self_named (refile ?g reg)" using s2(2) by (simp_all add: wrapped_as_def)
  show ?thesis
  proof (cases "tool_scoped ?fs = []")
    case True
    then have "wrapped_as (faulty ce ?fs) reg ?strict ?b s2"
      by (intro wrapped_faulty [OF assms _ s2(2)]) (force simp: faulty_def own_faults_split)
    with s2(1) True show ?thesis by (simp add: enter_session_def apply_connector_faults_def Let_def left_out_split)
  next
    case False
    let ?s3 = "if ss_registry s2 = [] then sdk_skip_fault ?strict ''tool-scoped fault(s) skipped: no connectors registered'' s2 else s2"
    have s3: "wrapped_as ?g reg ?strict (?b \<or> reg = []) ?s3" "ss_registry ?s3 = refile ?g reg"
      using s2(2) skip_fault_notes [OF s2(2)] r2(1) by (auto simp: refile_def)
    obtain s4 where s4: "apply_scoped ce ?fs (refile ?g reg) ?s3 = Inr s4"
      "wrapped_as (\<lambda>n. if n \<in> fst ` set reg \<and> n \<notin> set ?names then (\<lambda>c. sdk_wrap_connector ce (?g n c) (tool_scoped ?fs)) else ?g n)
         reg ?strict (?b \<or> reg = []) s4"
      using apply_scoped_wraps [OF s3(1), of "refile ?g reg" ce ?fs] self_named_entries [OF r2(2)] r2(2) s3(2)
      by (auto simp: self_named_def)
    have "wrapped_as (faulty ce ?fs) reg ?strict (?b \<or> reg = []) s4"
    proof (rule wrapped_faulty [OF assms _ s4(2)])
      fix n c assume "(n, c) \<in> set reg" and n: "n \<noteq> []"
      then have "n \<in> fst ` set reg" by force
      with n False show "(if n \<in> fst ` set reg \<and> n \<notin> set ?names then (\<lambda>c. sdk_wrap_connector ce (?g n c) (tool_scoped ?fs)) else ?g n) c =
          faulty ce ?fs n c"
        using own_faults_split [OF n, of ?fs] by (cases "n \<in> set ?names") (simp_all add: faulty_def)
    qed
    with s2(1) s4(1) False r2(1) show ?thesis by (simp add: enter_session_def apply_connector_faults_def Let_def left_out_split)
  qed
qed

lemma enter_restores: "self_named reg \<Longrightarrow> \<exists>s. enter_session ce fmt_g sc reg = Inr s \<and> restored s = reg"
  using enter_session_wraps unfolding wrapped_as_def by blast

text \<open>
  The answers of a scenario's checks, asked in order, and how the report grades them: a check that
  raises counts as failed, with what it raised.
\<close>

fun check_answers :: "string option \<Rightarrow> (string \<times> 'w invariant_check) list \<Rightarrow> 'w \<Rightarrow> (py_exn + SdkInvariantResult) list \<times> 'w" where
  "check_answers run_id [] w = ([], w)"
| "check_answers run_id ((name, check) # rest) w =
     (case check run_id w of (r, w1) \<Rightarrow> case check_answers run_id rest w1 of (rs, w2) \<Rightarrow> (r # rs, w2))"

definition graded :: "string \<Rightarrow> py_exn + SdkInvariantResult \<Rightarrow> SdkInvariantResult" where
  "graded name r = (case r of Inr v \<Rightarrow> v
     | Inl ex \<Rightarrow> \<lparr>ir_name = name, ir_passed = False, ir_detail = ''check raised: '' @ exn_text ex\<rparr>)"

definition check_held :: "py_exn + SdkInvariantResult \<Rightarrow> bool" where
  "check_held r = (case r of Inr v \<Rightarrow> ir_passed v | Inl ex \<Rightarrow> False)"

lemma check_invariants_graded:
  "check_answers run_id invs w = (rs, w1) \<Longrightarrow>
   \<exists>rep'. check_invariants run_id invs rep w = (rep', w1) \<and>
     cr_invariant_results rep' = cr_invariant_results rep @ map2 graded (map fst invs) rs \<and>
     cr_notes rep' = cr_notes rep \<and> (cr_passed rep' \<longleftrightarrow> cr_passed rep \<and> list_all check_held rs)"
proof (induction invs arbitrary: rep w rs)
  case (Cons nc invs)
  obtain name check where inv: "nc = (name, check)" by fastforce
  obtain r w2 where r: "check run_id w = (r, w2)" by fastforce
  obtain rs' where rest: "check_answers run_id invs w2 = (rs', w1)" "rs = r # rs'" using Cons.prems inv r by (auto split: prod.splits)
  have "ir_passed (graded name r) = check_held r" by (simp add: graded_def check_held_def split: sum.splits)
  with Cons.IH [OF rest(1), of "rep\<lparr>cr_invariant_results := cr_invariant_results rep @ [graded name r], cr_passed := (cr_passed rep \<and> ir_passed (graded name r))\<rparr>"]
  show ?case using inv r rest(2) by (auto simp: graded_def [symmetric] Let_def)
qed simp

text \<open>Counting keys: the count of a key is the number of events that carry it.\<close>

definition event_key :: "string \<Rightarrow> string \<Rightarrow> wire_text \<Rightarrow> string" where
  "event_key connector fld evt = (case evt of
     JsonText (JObj kvs) \<Rightarrow> if connector \<noteq> [] \<and> field_text kvs ''connector'' \<noteq> connector then [] else field_text kvs fld
   | _ \<Rightarrow> [])"

definition key_count :: "string \<Rightarrow> string \<Rightarrow> wire_text list \<Rightarrow> string \<Rightarrow> int" where
  "key_count connector fld evts k = int (length (filter (\<lambda>e. event_key connector fld e = k) evts))"

definition numeric_counts :: "(string \<times> json) list \<Rightarrow> bool" where
  "numeric_counts counts \<longleftrightarrow> distinct (map fst counts) \<and> (\<forall>(k, v) \<in> set counts. \<exists>n. v = JNum n)"

definition count_of :: "(string \<times> json) list \<Rightarrow> string \<Rightarrow> int" where
  "count_of counts k = (case map_of counts k of Some (JNum n) \<Rightarrow> n | _ \<Rightarrow> 0)"

lemma numeric_update: "numeric_counts counts \<Longrightarrow> numeric_counts (AList.update k (JNum n) counts)"
proof -
  assume a: "numeric_counts counts"
  have "set (AList.update k (JNum n) counts) \<subseteq> insert (k, JNum n) (set counts)" by (induction counts) auto
  with a show ?thesis by (auto simp: numeric_counts_def distinct_update)
qed

lemma count_keys_counts:
  "count_keys connector fld evts counts = Inr counts' \<Longrightarrow> numeric_counts counts \<Longrightarrow>
   numeric_counts counts' \<and> (\<forall>k. count_of counts' k = count_of counts k + (if k = [] then 0 else key_count connector fld evts k))"
proof (induction connector fld evts counts rule: count_keys.induct)
  case (3 connector fld v evts counts)
  show ?case
  proof (cases v)
    case (JObj kvs)
    let ?bk = "field_text kvs fld"
    show ?thesis
    proof (cases "connector \<noteq> [] \<and> field_text kvs ''connector'' \<noteq> connector \<or> ?bk = []")
      case True
      with "3.prems" JObj have "count_keys connector fld evts counts = Inr counts'" by (auto simp: Let_def split: if_splits)
      with "3.IH" JObj True "3.prems" show ?thesis by (auto simp: key_count_def event_key_def)
    next
      case False
      let ?c1 = "AList.update ?bk (JNum ((case map_of counts ?bk of Some (JNum n) \<Rightarrow> n | _ \<Rightarrow> 0) + 1)) counts"
      have run: "count_keys connector fld evts ?c1 = Inr counts'" using "3.prems" JObj False by (auto simp: Let_def)
      have "numeric_counts counts' \<and> (\<forall>k. count_of counts' k = count_of ?c1 k + (if k = [] then 0 else key_count connector fld evts k))"
        using "3.IH"(3) [OF JObj refl] False run numeric_update "3.prems"(2) by auto
      moreover have "count_of ?c1 k = count_of counts k + (if k = ?bk then 1 else 0)" for k
        by (simp add: count_of_def update_conv')
      ultimately show ?thesis using JObj False by (auto simp: key_count_def event_key_def)
    qed
  qed (use "3.prems" in auto)
qed (auto simp: key_count_def event_key_def)

definition dict_payloads :: "wire_text list \<Rightarrow> bool" where
  "dict_payloads evts \<longleftrightarrow> (\<forall>v. JsonText v \<in> set evts \<longrightarrow> (\<exists>kvs. v = JObj kvs))"

lemma count_keys_total: "dict_payloads evts \<Longrightarrow> \<exists>counts'. count_keys connector fld evts counts = Inr counts'"
proof (induction connector fld evts counts rule: count_keys.induct)
  case (3 connector fld v evts counts)
  obtain kvs where "v = JObj kvs" using "3.prems" by (auto simp: dict_payloads_def)
  moreover have "dict_payloads evts" using "3.prems" by (simp add: dict_payloads_def)
  ultimately show ?case using "3.IH" by (auto simp: Let_def)
qed (auto simp: dict_payloads_def)

lemma count_of_member: "numeric_counts counts \<Longrightarrow> (k, v) \<in> set counts \<Longrightarrow> v = JNum (count_of counts k)"
  by (fastforce simp: numeric_counts_def count_of_def)

lemma count_of_absent: "k \<notin> fst ` set counts \<Longrightarrow> count_of counts k = 0"
  by (simp add: count_of_def map_of_eq_None_iff [THEN iffD2])

lemma repeated_empty:
  assumes "numeric_counts counts"
  shows "repeated counts = [] \<longleftrightarrow> (\<forall>k. count_of counts k \<le> 1)"
proof -
  have "repeated counts = [] \<longleftrightarrow> (\<forall>(k, v) \<in> set counts. count_of counts k \<le> 1)"
    unfolding repeated_def filter_empty_conv using count_of_member [OF assms] by (fastforce simp: not_less)
  also have "\<dots> \<longleftrightarrow> (\<forall>k. count_of counts k \<le> 1)"
  proof (intro iffI allI)
    fix k assume le: "\<forall>(k, v) \<in> set counts. count_of counts k \<le> 1"
    show "count_of counts k \<le> 1" using le count_of_absent [of k counts] by (cases "k \<in> fst ` set counts") auto
  qed auto
  finally show ?thesis .
qed

section \<open>Properties\<close>

text \<open>
  C26. A chaos session does what its scenario declares and leaves no trace in the connector
  registry. Where every connector is filed under its own name, entering a session succeeds
  whatever its faults are, and during it every connector is wrapped with exactly the faults
  aimed at it and those scoped to a tool. Leaving puts the registry back as it was, whether or not
  the body raised. The report lists the answers of the scenario's checks in order, a check that
  raised as failed; it passes exactly if the body did not raise, no declared connector fault
  was left out under strict faults, and every check held; and it has a note exactly if a
  fault was left out or the body raised.
\<close>

theorem chaos_session_restores:
  assumes "self_named reg"
  shows "\<exists>s. enter_session ce fmt_g sc reg = Inr s \<and>
    ss_registry s = map (\<lambda>(n, c). (n, faulty ce (sc_faults sc) n c)) reg \<and>
    (\<forall>run_id raised w rs w'. check_answers run_id (sc_invariants sc) w = (rs, w') \<longrightarrow>
       (\<exists>s'. exit_session sc run_id raised s w = (s', w') \<and> ss_registry s' = reg \<and>
          cr_invariant_results (ss_report s') = cr_invariant_results (ss_report s) @ map2 graded (map fst (sc_invariants sc)) rs \<and>
          (cr_passed (ss_report s') \<longleftrightarrow> raised = None \<and>
             (sc_strict_faults sc \<longrightarrow> \<not> list_ex (left_out reg) (sc_faults sc)) \<and> list_all check_held rs) \<and>
          (cr_notes (ss_report s') = [] \<longleftrightarrow> raised = None \<and> \<not> list_ex (left_out reg) (sc_faults sc))))"
proof -
  obtain s where s: "enter_session ce fmt_g sc reg = Inr s"
    and wr: "wrapped_as (faulty ce (sc_faults sc)) reg (sc_strict_faults sc) (\<exists>f \<in> set (sc_faults sc). left_out reg f) s"
    using enter_session_wraps [OF assms] by blast
  have reg: "ss_registry s = map (\<lambda>(n, c). (n, faulty ce (sc_faults sc) n c)) reg" "restored s = reg"
    and rep: "noted (sc_strict_faults sc) (list_ex (left_out reg) (sc_faults sc)) s"
    using wr by (simp_all add: wrapped_as_def refile_def list_ex_iff)
  have "\<exists>s'. exit_session sc run_id raised s w = (s', w') \<and> ss_registry s' = reg \<and>
          cr_invariant_results (ss_report s') = cr_invariant_results (ss_report s) @ map2 graded (map fst (sc_invariants sc)) rs \<and>
          (cr_passed (ss_report s') \<longleftrightarrow> raised = None \<and>
             (sc_strict_faults sc \<longrightarrow> \<not> list_ex (left_out reg) (sc_faults sc)) \<and> list_all check_held rs) \<and>
          (cr_notes (ss_report s') = [] \<longleftrightarrow> raised = None \<and> \<not> list_ex (left_out reg) (sc_faults sc))"
    if ans: "check_answers run_id (sc_invariants sc) w = (rs, w')" for run_id raised w rs w'
  proof -
    let ?rep = "case raised of None \<Rightarrow> ss_report s
                 | Some ex \<Rightarrow> (ss_report s)\<lparr>cr_passed := False, cr_notes := cr_notes (ss_report s) @ [''body raised: '' @ exn_text ex]\<rparr>"
    from check_invariants_graded [OF ans, of ?rep] obtain rep' where
      "check_invariants run_id (sc_invariants sc) ?rep w = (rep', w')"
      "cr_invariant_results rep' = cr_invariant_results ?rep @ map2 graded (map fst (sc_invariants sc)) rs"
      "cr_notes rep' = cr_notes ?rep" "cr_passed rep' \<longleftrightarrow> cr_passed ?rep \<and> list_all check_held rs" by blast
    with reg(2) rep show ?thesis by (cases raised) (auto simp: exit_session_def restored_def noted_def Let_def)
  qed
  with s reg(1) show ?thesis by blast
qed

text \<open>
  A connector under chaos calls the counterparty exactly once per dispatch and tells the
  truth but for lost acknowledgements: the result is the counterparty's own, or it was
  confirmed and a declared fault of that tool turned it into unknown, with the reference and
  the response kept.
\<close>

lemma chaos_dispatch_faithful:
  assumes "sk_dispatch c eff (chaos_delay ce eff fs w) = (r, w1)"
  shows "\<exists>res w'. sk_dispatch (sdk_wrap_connector (watch_env ce) (watch_connector c) fs) eff (w, l) = (res, w', l @ [ActDispatch eff]) \<and>
    (res = r \<or> (\<exists>d f. r = Inr d \<and> sr_status d = ''confirmed'' \<and> res = Inr (lost_ack d) \<and> f \<in> set fs \<and>
       fl_action f = ''lose_ack'' \<and> (fl_tool f = [] \<or> fl_tool f = pe_tool_name eff)))"
  using chaos_dispatch_cases [OF assms] by (simp add: sdk_wrap_connector_def chaos_dispatch_watch)

text \<open>
  The \<open>exactly_one\<close> invariant is exact on the events it reads: where their payloads are
  dicts it passes if and only if no business key of the connector occurs twice.
\<close>

lemma exactly_one_exact:
  assumes "oc_confirmed_events oc (if tool \<noteq> [] then ''/tape/effect/confirmed/'' @ tool @ ''/**'' else ''/tape/effect/confirmed/**'') w = (Inr evts, w1)"
    and "dict_payloads evts"
  shows "\<exists>v. sdk_check_exactly_one oc connector tool fld run_id w = (Inr v, w1) \<and>
    (ir_passed v \<longleftrightarrow> (\<forall>k. k \<noteq> [] \<longrightarrow> key_count connector fld evts k \<le> 1))"
proof -
  obtain counts where c: "count_keys connector fld evts [] = Inr counts" using count_keys_total [OF assms(2)] by blast
  have nc: "numeric_counts counts" and cnt: "\<forall>k. count_of counts k = (if k = [] then 0 else key_count connector fld evts k)"
    using count_keys_counts [OF c] by (simp_all add: numeric_counts_def count_of_def)
  have "repeated counts = [] \<longleftrightarrow> (\<forall>k. k \<noteq> [] \<longrightarrow> key_count connector fld evts k \<le> 1)"
    using repeated_empty [OF nc] cnt by auto
  with assms(1) c show ?thesis by (auto simp: sdk_check_exactly_one_def Let_def verdict_def)
qed

text \<open>
  The server journals a completed effect with its tool, key and status only, so on its entries the
  check finds no business key to count and passes however often an effect was confirmed.
\<close>

lemma exactly_one_counts_nothing:
  assumes "oc_confirmed_events oc (''/tape/effect/confirmed/'' @ tool @ ''/**'') w =
      (Inr (map (\<lambda>key. JsonText (JObj [(''tool'', JStr tool), (''idempotency_key'', JStr key), (''status'', JStr ''confirmed'')])) keys), w1)"
    and "tool \<noteq> []"
  shows "\<exists>v. sdk_check_exactly_one oc connector tool ''business_key'' run_id w = (Inr v, w1) \<and> ir_passed v"
proof -
  have "count_keys connector ''business_key''
      (map (\<lambda>key. JsonText (JObj [(''tool'', JStr tool), (''idempotency_key'', JStr key), (''status'', JStr ''confirmed'')])) keys) [] = Inr []"
    by (induction keys) (auto simp: field_text_def json_or_def py_str_def Let_def)
  with assms show ?thesis by (simp add: sdk_check_exactly_one_def repeated_def verdict_def Let_def)
qed

text \<open>A bank that pays, a fault that hides its acknowledgement, and a scenario with both kinds of fault.\<close>

definition still_env :: "unit chaos_env" where
  "still_env = \<lparr>ce_random = (\<lambda>w. (1/2, w)), ce_uniform = (\<lambda>j w. (0, w)), ce_sleep = (\<lambda>t w. w)\<rparr>"

definition hide_ack :: SdkFault where
  "hide_ack = (plain_fault ''connector'' ''bank'' ''lose_ack'' 1)"

definition bank_scenario :: "unit SdkScenario" where
  "bank_scenario = \<lparr>sc_name = ''lost'', sc_faults = [hide_ack, hide_ack\<lparr>fl_target := [], fl_tool := ''pay''\<rparr>], sc_invariants = [],
     sc_seed = 7, sc_strict_faults = True\<rparr>"

theorem chaos_session_restores_witness:
  "\<exists>s s' w'. enter_session still_env (\<lambda>p. ''p'') bank_scenario [(''bank'', paying_bank)] = Inr s \<and>
     ss_registry s = [(''bank'', sdk_wrap_connector still_env paying_bank (sc_faults bank_scenario))] \<and>
     exit_session bank_scenario None (Some (PyExn ''ValueError'' ''x'')) s () = (s', w') \<and>
     ss_registry s' = [(''bank'', paying_bank)] \<and> \<not> cr_passed (ss_report s')"
proof -
  have "self_named [(''bank'', paying_bank)]" by (simp add: self_named_def paying_bank_def)
  from chaos_session_restores [OF this, of still_env "\<lambda>p. ''p''" bank_scenario]
  obtain s where s: "enter_session still_env (\<lambda>p. ''p'') bank_scenario [(''bank'', paying_bank)] = Inr s"
    and reg: "ss_registry s = [(''bank'', faulty still_env (sc_faults bank_scenario) ''bank'' paying_bank)]"
    and undone: "\<exists>s'. exit_session bank_scenario None (Some (PyExn ''ValueError'' ''x'')) s () = (s', ()) \<and>
       ss_registry s' = [(''bank'', paying_bank)] \<and> \<not> cr_passed (ss_report s')"
    by (elim exE conjE, elim allE [of _ None] allE [of _ "Some (PyExn ''ValueError'' ''x'')"] allE [of _ "()"] allE [of _ "[]"])
       (auto simp: bank_scenario_def)
  have "faulty still_env (sc_faults bank_scenario) ''bank'' paying_bank = sdk_wrap_connector still_env paying_bank (sc_faults bank_scenario)"
    by (simp add: faulty_def own_faults_def bank_scenario_def hide_ack_def plain_fault_def)
  with s reg undone show ?thesis by auto
qed

section \<open>Chaos below the outbox reactor\<close>

text \<open>
  A hidden acknowledgement does not become a second payment: the outbox reactor that
  dispatches through the chaos wrapper calls the counterparty once, reports the effect as
  unknown, and schedules no retry.
\<close>

lemma lost_ack_parks_effect:
  assumes "get_connector (pe_connector eff) cs = Some (sdk_wrap_connector (watch_env ce) (watch_connector c) fs)"
    and "cl_claim_effect_dispatch cl (pe_run_id eff) (pe_idempotency_key eff) claimer w = (Inr (True, cur), w1)"
    and "pe_status cur = EFFECT_STATUS_PENDING"
    and "sdk_chaos_dispatch ce c fs cur w1 = (Inr (lost_ack d), w2)"
  shows "\<exists>res w'. dispatch_one cs g (watch_client cl) claimer mx now eff (w, l) =
    (res, w', l @ [ActClaim (pe_run_id eff) (pe_idempotency_key eff) claimer, ActDispatch cur,
       ActAttempt (pe_run_id cur) (pe_idempotency_key cur) (JsonText (JObj (sr_error (lost_ack d)))) 0])"
proof -
  have run: "call_dispatch (sdk_wrap_connector (watch_env ce) (watch_connector c) fs) cur wl =
      (fst (sdk_chaos_dispatch ce c fs cur (fst wl)), snd (sdk_chaos_dispatch ce c fs cur (fst wl)), snd wl @ [ActDispatch cur])" for wl
    by (cases wl) (simp add: call_dispatch_def sdk_wrap_connector_def chaos_dispatch_watch)
  let ?l1 = "l @ [ActClaim (pe_run_id eff) (pe_idempotency_key eff) claimer] @ [ActDispatch cur]"
  have "dispatch_one cs g (watch_client cl) claimer mx now eff (w, l) =
      on_unknown (watch_client cl) cur (lost_ack d) (dispatch_out eff) (w2, ?l1)"
    using assms run by (simp add: dispatch_one_def and_then_def logged_run Let_def lost_ack_def)
  moreover have "\<exists>res w'. on_unknown (watch_client cl) cur (lost_ack d) (dispatch_out eff) (w2, ?l1) =
      (res, w', ?l1 @ [ActAttempt (pe_run_id cur) (pe_idempotency_key cur) (JsonText (JObj (sr_error (lost_ack d)))) 0])"
    by (auto simp: on_unknown_def watch_defs json_or_def lost_ack_def split: sum.splits)
  ultimately show ?thesis by auto
qed

section \<open>Where the package falls short\<close>

text \<open>
  A connector filed under a name other than its own is not wrapped: the wrapper goes under
  the connector's own name, the fault never fires, nothing is noted, and the registry keeps
  an entry it did not have.
\<close>

definition alias_registry :: "(string \<times> unit sdk_connector) list" where
  "alias_registry = [(''wires'', paying_bank)]"

definition alias_scenario :: "unit SdkScenario" where
  "alias_scenario = bank_scenario\<lparr>sc_faults := [hide_ack\<lparr>fl_target := ''wires''\<rparr>]\<rparr>"

lemma aliased_connector_not_wrapped:
  "\<exists>s s' w'. enter_session still_env (\<lambda>p. ''p'') alias_scenario alias_registry = Inr s \<and>
     get_connector ''wires'' (ss_registry s) = Some paying_bank \<and>
     exit_session alias_scenario None None s () = (s', w') \<and> cr_passed (ss_report s') \<and>
     map fst (ss_registry s') = [''wires'', ''bank'']"
proof -
  have "enter_session still_env (\<lambda>p. ''p'') alias_scenario alias_registry =
      Inr ((new_session (\<lambda>p. ''p'') alias_scenario alias_registry)\<lparr>ss_registry := [(''wires'', paying_bank),
        (''bank'', sdk_wrap_connector still_env paying_bank [hide_ack\<lparr>fl_target := ''wires''\<rparr>])], ss_unpatches := [paying_bank]\<rparr>)"
    by (simp add: enter_session_def apply_connector_faults_def alias_scenario_def bank_scenario_def hide_ack_def plain_fault_def unaimed_def
        target_names_def targeted_def tool_scoped_def faults_for_def new_session_def alias_registry_def get_connector_def wrap_in_session_def
        register_connector_def sdk_wrap_connector_def str_or_def paying_bank_def Let_def)
  then show ?thesis
    by (simp add: exit_session_def alias_scenario_def bank_scenario_def new_session_def restore_one_def register_connector_def paying_bank_def
        str_or_def get_connector_def Let_def)
qed

text \<open>
  The report of a campaign multiplies the rounded rate by the number of scenarios and
  truncates: one violation in 49 scenarios is printed as none.
\<close>

definition row_of :: "bool \<Rightarrow> campaign_row" where
  "row_of passed = \<lparr>cw_scenario_name = ''s'', cw_passed = passed, cw_failed_invariants = [], cw_terminal = True, cw_notes = []\<rparr>"

definition campaign_49 :: "campaign_row list" where
  "campaign_49 = row_of False # replicate 48 (row_of True)"

lemma scale_least:
  "0 < x \<Longrightarrow> a \<le> b \<Longrightarrow> b \<le> a + fuel \<Longrightarrow> 2 ^ 52 \<le> x * 2 ^ b \<Longrightarrow> (a < b \<Longrightarrow> x * 2 ^ (b - 1) < 2 ^ 52) \<Longrightarrow> scale fuel a x = b"
proof (induction fuel arbitrary: a)
  case (Suc fuel)
  show ?case
  proof (cases "a = b")
    case True
    with Suc.prems show ?thesis by simp
  next
    case False
    then have lt: "a < b" "a \<le> b - 1" using Suc.prems(2) by auto
    have "(2 :: rat) ^ a \<le> 2 ^ (b - 1)" by (rule power_increasing [OF lt(2)]) simp
    then have "x * 2 ^ a \<le> x * 2 ^ (b - 1)" using Suc.prems(1) by simp
    with Suc.prems lt have "x * 2 ^ a < 2 ^ 52" by (meson le_less_trans)
    moreover have "scale fuel (Suc a) x = b" using Suc.prems lt by (intro Suc.IH) auto
    ultimately show ?thesis by simp
  qed
qed simp

lemma rate_49: "double (1 / 49) = 5882252574524729 / 2 ^ 58"
proof -
  have "scale 1074 0 (1 / 49) = 58" by (rule scale_least) simp_all
  moreover have "\<lfloor>288230376151711744 / 49 :: rat\<rfloor> = 5882252574524729" by (rule floor_unique) simp_all
  ultimately show ?thesis by (simp add: double_def half_even_def Let_def)
qed

lemma product_49: "double (288230376151711721 / 288230376151711744) = 9007199254740991 / 9007199254740992"
proof -
  have "scale 1074 0 (288230376151711721 / 288230376151711744) = 53" by (rule scale_least) simp_all
  moreover have "\<lfloor>288230376151711721 / 32 :: rat\<rfloor> = 9007199254740991" by (rule floor_unique) simp_all
  ultimately show ?thesis by (simp add: double_def half_even_def Let_def)
qed

lemma violation_not_printed: "printed_violations campaign_49 = 0"
proof -
  have "surface campaign_49 = (49, double (1 / 49), double 1)"
    by (simp add: surface_def campaign_49_def row_of_def Let_def filter_replicate)
  moreover have "\<lfloor>9007199254740991 / 9007199254740992 :: rat\<rfloor> = 0" by (rule floor_unique) simp_all
  ultimately show ?thesis by (simp add: printed_violations_def rate_49 product_49)
qed

end
