(* ===== verification/SdkLineage.thy ===== *)
theory SdkLineage
  imports SdkRelay SdkChaos
begin

text \<open>
  Lineage-driven fault injection (\<open>chaos/lineage.py\<close>): the graph of a run's journal, its cuts,
  the scenarios derived from them and the report over them. The entries are those the stream
  delivers before the deadline of \<open>from_run\<close>; the runner of a scenario is a parameter.
\<close>

section \<open>The graph\<close>

record JournalEntry =
  je_seq :: int
  je_kind :: string
  je_payload_json :: wire_text

record LineageNode =
  ln_seq :: int
  ln_kind :: string
  ln_payload :: json
  ln_parent_seq :: int
  ln_breaking_failpoint :: string

text \<open>The three indices kept while the journal is read.\<close>

record lineage_index =
  lx_decisions :: "(int \<times> int) list"
  lx_effects :: "(string \<times> int) list"
  lx_gates :: "(string \<times> int) list"

definition no_index :: lineage_index where
  "no_index = \<lparr>lx_decisions = [], lx_effects = [], lx_gates = []\<rparr>"

definition entry_payload :: "wire_text \<Rightarrow> json" where
  "entry_payload t = (case t of JsonText v \<Rightarrow> v | PlainText s \<Rightarrow> if s = [] then JObj [] else JObj [(''_raw'', JStr s)])"

text \<open>\<open>(payload.get(k) or "").lower()\<close>, which raises for a value that is true and no string.\<close>

definition lower_field :: "json \<Rightarrow> string \<Rightarrow> py_exn + string" where
  "lower_field p k = (case payload_get p k JNull of
     Inl ex \<Rightarrow> Inl ex
   | Inr v \<Rightarrow>
       (case json_or v (JStr []) of
          JStr s \<Rightarrow> Inr (ascii_lower s)
        | u \<Rightarrow> Inl (PyExn ''AttributeError'' (repr_str (py_type_name u) @ '' object has no attribute '' @ repr_str ''lower''))))"

definition text_field :: "json \<Rightarrow> string \<Rightarrow> py_exn + string" where
  "text_field p k = map_sum id (\<lambda>v. py_str (json_or v (JStr []))) (payload_get p k JNull)"

text \<open>\<open>int(payload.get("decision_index", -1) or -1)\<close>\<close>

definition index_field :: "json \<Rightarrow> py_exn + int" where
  "index_field p = (case payload_get p ''decision_index'' (JNum (-1)) of
     Inl ex \<Rightarrow> Inl ex
   | Inr v \<Rightarrow>
       (let u = json_or v (JNum (-1)) in
        case json_int u of
          Some n \<Rightarrow> Inr n
        | None \<Rightarrow>
            (case u of
               JStr s \<Rightarrow> Inl (PyExn ''ValueError'' (''invalid literal for int() with base 10: '' @ repr_str s))
             | _ \<Rightarrow> Inl (PyExn ''TypeError'' (''int() argument must be a string, a bytes-like object or a real number, not '' @
                   repr_str (py_type_name u))))))"

definition seq_of :: "('k \<times> int) list \<Rightarrow> 'k \<Rightarrow> int" where
  "seq_of idx k = (case map_of idx k of Some n \<Rightarrow> n | None \<Rightarrow> 0)"

definition set_default :: "string \<Rightarrow> int \<Rightarrow> (string \<times> int) list \<Rightarrow> (string \<times> int) list" where
  "set_default k n idx = (case map_of idx k of Some _ \<Rightarrow> idx | None \<Rightarrow> AList.update k n idx)"

definition sum_bind :: "'e + 'a \<Rightarrow> ('a \<Rightarrow> 'e + 'b) \<Rightarrow> 'e + 'b" where
  "sum_bind m k = (case m of Inl e \<Rightarrow> Inl e | Inr v \<Rightarrow> k v)"

text \<open>The parent, the failpoint and the new indices of an entry, per kind.\<close>

definition classify_effect :: "int \<Rightarrow> json \<Rightarrow> lineage_index \<Rightarrow> py_exn + int \<times> string \<times> lineage_index" where
  "classify_effect seq p ix =
     sum_bind (lower_field p ''status'') (\<lambda>status.
     sum_bind (index_field p) (\<lambda>idx.
     sum_bind (text_field p ''idempotency_key'') (\<lambda>key.
       let parent = seq_of (lx_decisions ix) idx
       in if key = [] then Inr (parent, [], ix)
          else if status = ''pending'' then
            Inr (parent, ''tape::begin_effect::post_db'', ix\<lparr>lx_effects := set_default key seq (lx_effects ix)\<rparr>)
          else if status = ''confirmed'' then Inr (parent, ''tape::complete_effect::post_db'', ix)
          else if status \<in> {''failed'', ''unknown'', ''reconciled''} then Inr (parent, ''tape::reconcile_effect::post_db'', ix)
          else Inr (parent, ''tape::begin_effect::post_db'', ix))))"

definition classify :: "JournalEntry \<Rightarrow> json \<Rightarrow> lineage_index \<Rightarrow> py_exn + int \<times> string \<times> lineage_index" where
  "classify e p ix =
     (let kind = je_kind e; seq = je_seq e in
      if kind = ''run'' then
        map_sum id (\<lambda>v. (0, (if v = JStr ''running'' then ''tape::begin_run::post_db'' else ''tape::end_run::post_db''), ix))
          (payload_get p ''status'' JNull)
      else if kind = ''decision'' then
        map_sum id (\<lambda>idx. let ds = AList.update idx seq (lx_decisions ix)
                           in (seq_of ds (idx - 1), ''tape::record_decision::post_db'', ix\<lparr>lx_decisions := ds\<rparr>)) (index_field p)
      else if kind = ''effect'' then classify_effect seq p ix
      else if kind = ''obligation'' then
        sum_bind (text_field p ''effect_key'') (\<lambda>key.
        sum_bind (lower_field p ''status'') (\<lambda>status.
          Inr (seq_of (lx_effects ix) key,
               (if status = ''compensated'' \<or> status = ''stuck'' then ''tape::resolve_obligation::post_db''
                else ''tape::register_compensation::post_db''), ix)))
      else if kind = ''gate'' then
        sum_bind (text_field p ''gate'') (\<lambda>gate.
        sum_bind (lower_field p ''status'') (\<lambda>status.
          Inr (0, (if status = ''delivered'' \<or> status = ''resolved'' then ''tape::send_signal::post_db'' else ''tape::await_signal::post_db''),
               (if gate = [] then ix else ix\<lparr>lx_gates := set_default gate seq (lx_gates ix)\<rparr>))))
      else if kind = ''value'' then
        map_sum id (\<lambda>v. (0, (if truthy v then ''tape::delete_value::post_db'' else ''tape::write_value::post_db''), ix))
          (payload_get p ''deleted'' JNull)
      else Inr (0, [], ix))"

definition TERMINAL_STATUSES :: "string list" where
  "TERMINAL_STATUSES = [''terminal'', ''failed'', ''cancelled'', ''stuck'']"

definition ends_run :: "JournalEntry \<Rightarrow> json \<Rightarrow> py_exn + bool" where
  "ends_run e p = (if je_kind e \<noteq> ''run'' then Inr False
     else map_sum id (\<lambda>s. s \<in> set TERMINAL_STATUSES) (lower_field p ''status''))"

fun graph_loop :: "JournalEntry list \<Rightarrow> lineage_index \<Rightarrow> py_exn + LineageNode list" where
  "graph_loop [] ix = Inr []"
| "graph_loop (e # es) ix =
     (let p = entry_payload (je_payload_json e) in
      sum_bind (classify e p ix) (\<lambda>(parent, bp, ix').
      sum_bind (ends_run e p) (\<lambda>ended.
        let node = \<lparr>ln_seq = je_seq e, ln_kind = je_kind e, ln_payload = p, ln_parent_seq = parent, ln_breaking_failpoint = bp\<rparr>
        in if ended then Inr [node] else map_sum id (\<lambda>nodes. node # nodes) (graph_loop es ix'))))"

definition from_run :: "JournalEntry list \<Rightarrow> py_exn + LineageNode list" where
  "from_run entries = graph_loop entries no_index"

definition edges :: "LineageNode list \<Rightarrow> (int \<times> int) list" where
  "edges nodes = map (\<lambda>n. (ln_parent_seq n, ln_seq n)) (filter (\<lambda>n. ln_parent_seq n > 0) nodes)"

definition of_kind :: "string \<Rightarrow> LineageNode list \<Rightarrow> LineageNode list" where
  "of_kind kind nodes = filter (\<lambda>n. ln_kind n = kind) nodes"

section \<open>Cuts and scenarios\<close>

fun pair_cuts :: "LineageNode list \<Rightarrow> LineageNode list list" where
  "pair_cuts [] = []"
| "pair_cuts (a # rest) =
     map (\<lambda>b. [a, b]) (filter (\<lambda>b. ln_breaking_failpoint a \<noteq> ln_breaking_failpoint b) rest) @ pair_cuts rest"

definition cut_candidates :: "LineageNode list \<Rightarrow> LineageNode list" where
  "cut_candidates nodes = filter (\<lambda>n. ln_breaking_failpoint n \<noteq> []) nodes"

definition minimal_cuts :: "int \<Rightarrow> LineageNode list \<Rightarrow> LineageNode list list" where
  "minimal_cuts max_size nodes =
     map (\<lambda>n. [n]) (cut_candidates nodes) @ (if max_size \<ge> 2 then pair_cuts (cut_candidates nodes) else [])"

definition cut_scenario :: "string \<Rightarrow> (string \<times> 'w invariant_check) list \<Rightarrow> LineageNode list \<Rightarrow> 'w SdkScenario" where
  "cut_scenario base_name invs ns = \<lparr>
     sc_name = base_name @ ''::cut::'' @ join_with ''+'' (map (\<lambda>n. ln_kind n @ ''@'' @ int_str (ln_seq n)) ns),
     sc_faults = map (\<lambda>n. crash (ln_breaking_failpoint n) 1 1 []) ns, sc_invariants = invs, sc_seed = 0, sc_strict_faults = True\<rparr>"

definition derive_scenarios :: "string \<Rightarrow> (string \<times> 'w invariant_check) list \<Rightarrow> int \<Rightarrow> LineageNode list \<Rightarrow> 'w SdkScenario list" where
  "derive_scenarios base_name invs max_cut_size nodes = map (cut_scenario base_name invs) (minimal_cuts max_cut_size nodes)"

section \<open>Running the scenarios\<close>

record LDFIReport =
  ld_baseline_run_id :: string
  ld_derived_count :: nat
  ld_survived_count :: nat
  ld_broken_scenarios :: "(string \<times> SdkInvariantResult list) list"

definition ldfi_step ::
    "('w SdkScenario \<Rightarrow> 'w \<Rightarrow> (py_exn + SdkInvariantResult list) \<times> 'w) \<Rightarrow> 'w SdkScenario \<Rightarrow> LDFIReport \<Rightarrow> 'w \<Rightarrow> (py_exn + LDFIReport) \<times> 'w" where
  "ldfi_step runner sc rep w =
     and_then (runner sc w)
       (\<lambda>irs w1. (Inr (if list_all ir_passed irs then rep\<lparr>ld_survived_count := ld_survived_count rep + 1\<rparr>
                      else rep\<lparr>ld_broken_scenarios := ld_broken_scenarios rep @ [(sc_name sc, filter (\<lambda>ir. \<not> ir_passed ir) irs)]\<rparr>), w1))"

fun ldfi_loop ::
    "('w SdkScenario \<Rightarrow> 'w \<Rightarrow> (py_exn + SdkInvariantResult list) \<times> 'w) \<Rightarrow> 'w SdkScenario list \<Rightarrow> LDFIReport \<Rightarrow> 'w \<Rightarrow> (py_exn + LDFIReport) \<times> 'w" where
  "ldfi_loop runner [] rep w = (Inr rep, w)"
| "ldfi_loop runner (sc # scs) rep w = and_then (ldfi_step runner sc rep w) (ldfi_loop runner scs)"

definition run_all ::
    "('w SdkScenario \<Rightarrow> 'w \<Rightarrow> (py_exn + SdkInvariantResult list) \<times> 'w) \<Rightarrow> string \<Rightarrow> 'w SdkScenario list \<Rightarrow> 'w \<Rightarrow> (py_exn + LDFIReport) \<times> 'w" where
  "run_all runner baseline derived w =
     ldfi_loop runner derived \<lparr>ld_baseline_run_id = baseline, ld_derived_count = length derived, ld_survived_count = 0, ld_broken_scenarios = []\<rparr> w"

definition survival_rate :: "LDFIReport \<Rightarrow> rat" where
  "survival_rate rep = (if ld_derived_count rep = 0 then 1
     else double (rat_of_nat (ld_survived_count rep) / rat_of_nat (ld_derived_count rep)))"

section \<open>The graph is acyclic\<close>

text \<open>An index only holds sequence numbers of entries already read.\<close>

definition index_below :: "int set \<Rightarrow> lineage_index \<Rightarrow> bool" where
  "index_below S ix \<longleftrightarrow> snd ` set (lx_decisions ix) \<subseteq> S \<and> snd ` set (lx_effects ix) \<subseteq> S \<and> snd ` set (lx_gates ix) \<subseteq> S"

lemma seq_of_in: "snd ` set idx \<subseteq> S \<Longrightarrow> seq_of idx k = 0 \<or> seq_of idx k \<in> S"
  by (cases "map_of idx k") (auto simp: seq_of_def dest!: map_of_SomeD)

lemma update_seqs: "snd ` set (AList.update k n idx) \<subseteq> insert n (snd ` set idx)"
  by (induction idx) auto

lemma set_default_seqs: "snd ` set (set_default k n idx) \<subseteq> insert n (snd ` set idx)"
  using update_seqs [of k n idx] by (auto simp: set_default_def split: option.splits)

lemma sum_bind_InrD: "sum_bind m k = Inr v \<Longrightarrow> \<exists>u. m = Inr u \<and> k u = Inr v"
  by (cases m) (auto simp: sum_bind_def)

lemma decision_other: "AList.update (idx :: int) n ds = ds' \<Longrightarrow> seq_of ds' (idx - 1) = seq_of ds (idx - 1)"
  by (auto simp: seq_of_def update_conv')

lemma subset_insert_trans: "A \<subseteq> insert n B \<Longrightarrow> B \<subseteq> S \<Longrightarrow> A \<subseteq> insert n S"
  by blast

lemma index_below_mono: "index_below S ix \<Longrightarrow> index_below (insert n S) ix"
  unfolding index_below_def by blast

lemma index_below_decision:
  "index_below S ix \<Longrightarrow> index_below (insert n S) (ix\<lparr>lx_decisions := AList.update k n (lx_decisions ix)\<rparr>)"
  by (simp add: index_below_def subset_insert_trans [OF update_seqs] subset_insertI2)

lemma index_below_effect:
  "index_below S ix \<Longrightarrow> index_below (insert n S) (ix\<lparr>lx_effects := set_default k n (lx_effects ix)\<rparr>)"
  by (simp add: index_below_def subset_insert_trans [OF set_default_seqs] subset_insertI2)

lemma index_below_gate:
  "index_below S ix \<Longrightarrow> index_below (insert n S) (ix\<lparr>lx_gates := set_default k n (lx_gates ix)\<rparr>)"
  by (simp add: index_below_def subset_insert_trans [OF set_default_seqs] subset_insertI2)

lemmas index_below_intros = index_below_mono index_below_decision index_below_effect index_below_gate

lemma index_below_seq:
  assumes "index_below S ix"
  shows "seq_of (lx_decisions ix) k \<in> insert 0 S" and "seq_of (lx_effects ix) k' \<in> insert 0 S"
  using assms seq_of_in [of "lx_decisions ix" S k] seq_of_in [of "lx_effects ix" S k'] by (simp_all add: index_below_def)

lemma classify_effect_below:
  assumes "classify_effect n p ix = Inr (parent, bp, ix')" and ok: "index_below S ix"
  shows "parent \<in> insert 0 S \<and> index_below (insert n S) ix'"
proof -
  have "(\<exists>k. parent = seq_of (lx_decisions ix) k) \<and>
      (ix' = ix \<or> (\<exists>key. ix' = ix\<lparr>lx_effects := set_default key n (lx_effects ix)\<rparr>))"
    using assms(1) unfolding classify_effect_def Let_def
    apply -
    apply (drule sum_bind_InrD, elim exE conjE)+
    apply (simp only: sum.inject prod.inject split: if_split_asm)
        apply blast+
    done
  then show ?thesis using index_below_seq(1) [OF ok] index_below_intros [OF ok, of n] by blast
qed

lemma classify_below:
  assumes "classify e p ix = Inr (parent, bp, ix')" and ok: "index_below S ix"
  shows "parent \<in> insert 0 S \<and> index_below (insert (je_seq e) S) ix'"
proof (cases "je_kind e = ''effect''")
  case True
  then show ?thesis using assms(1) classify_effect_below [OF _ ok] by (simp add: classify_def Let_def)
next
  case False
  then have "(\<exists>k k'. parent \<in> {0, seq_of (lx_decisions ix) k, seq_of (lx_effects ix) k'}) \<and>
      (\<exists>k g. ix' \<in> {ix, ix\<lparr>lx_decisions := AList.update k (je_seq e) (lx_decisions ix)\<rparr>,
                 ix\<lparr>lx_gates := set_default g (je_seq e) (lx_gates ix)\<rparr>})"
    using assms(1)
    by (auto simp: classify_def Let_def decision_other [OF refl] dest!: sum_bind_InrD map_sum_InrD split: if_splits)
  then show ?thesis using index_below_seq [OF ok] index_below_intros [OF ok, of "je_seq e"] by blast
qed

lemma graph_loop_step:
  assumes "graph_loop (e # es) ix = Inr nodes"
  shows "\<exists>node rest ix'. nodes = node # rest \<and> ln_seq node = je_seq e \<and>
    classify e (ln_payload node) ix = Inr (ln_parent_seq node, ln_breaking_failpoint node, ix') \<and>
    (rest = [] \<or> graph_loop es ix' = Inr rest)"
  using assms
  by (auto simp: Let_def dest!: sum_bind_InrD map_sum_InrD split: if_splits)

lemma graph_loop_parents:
  "graph_loop es ix = Inr nodes \<Longrightarrow> index_below S ix \<Longrightarrow>
   \<exists>m. map ln_seq nodes = take m (map je_seq es) \<and>
     (\<forall>i < length nodes. ln_parent_seq (nodes ! i) \<in> insert 0 (S \<union> set (take i (map ln_seq nodes))))"
proof (induction es arbitrary: ix nodes S)
  case Nil
  then show ?case by simp
next
  case (Cons e es)
  obtain node rest ix' where nodes: "nodes = node # rest" and sq: "ln_seq node = je_seq e"
    and cl: "classify e (ln_payload node) ix = Inr (ln_parent_seq node, ln_breaking_failpoint node, ix')"
    and rest: "rest = [] \<or> graph_loop es ix' = Inr rest"
    using graph_loop_step [OF Cons.prems(1)] by auto
  note below = classify_below [OF cl Cons.prems(2)]
  obtain m where m: "map ln_seq rest = take m (map je_seq es)"
    and par: "\<forall>i < length rest. ln_parent_seq (rest ! i) \<in> insert 0 (insert (je_seq e) S \<union> set (take i (map ln_seq rest)))"
    using rest Cons.IH [of ix' rest "insert (je_seq e) S"] below by (metis length_0_conv less_nat_zero_code list.map(1) take0)
  have "ln_parent_seq (nodes ! i) \<in> insert 0 (S \<union> set (take i (map ln_seq nodes)))" if "i < length nodes" for i
    using that par below by (cases i) (auto simp: nodes sq)
  then show ?case by (intro exI [of _ "Suc m"]) (simp add: nodes sq m)
qed

lemma ascending_take_less:
  fixes xs :: "int list"
  shows "sorted_wrt (<) xs \<Longrightarrow> i < length xs \<Longrightarrow> x \<in> set (take i xs) \<Longrightarrow> x < xs ! i"
  by (auto simp: in_set_conv_nth sorted_wrt_iff_nth_less)

text \<open>
  C27. For a journal with ascending sequence numbers the lineage graph is a DAG over the entries read:
  no chain of parents returns to a node, every parent is the sequence number of a node of the graph,
  and the nodes are a prefix of the journal in its order.
\<close>

theorem lineage_acyclic:
  assumes "from_run entries = Inr nodes" and "sorted_wrt (<) (map je_seq entries)"
  shows "acyclic (set (edges nodes)) \<and> fst ` set (edges nodes) \<subseteq> ln_seq ` set nodes \<and>
    (\<exists>m. map ln_seq nodes = take m (map je_seq entries))"
proof -
  obtain m where m: "map ln_seq nodes = take m (map je_seq entries)"
    and par: "\<forall>i < length nodes. ln_parent_seq (nodes ! i) \<in> insert 0 (set (take i (map ln_seq nodes)))"
    using graph_loop_parents [of entries no_index nodes "{}"] assms(1)
    by (auto simp: from_run_def index_below_def no_index_def)
  have asc: "sorted_wrt (<) (map ln_seq nodes)" using assms(2) by (simp only: m sorted_wrt_take)
  have edge: "a < b \<and> a \<in> ln_seq ` set nodes" if mem: "(a, b) \<in> set (edges nodes)" for a b
  proof -
    obtain i where i: "i < length nodes" "a = ln_parent_seq (nodes ! i)" "b = ln_seq (nodes ! i)" "0 < a"
      using mem by (auto simp: edges_def in_set_conv_nth)
    then have "a \<in> set (take i (map ln_seq nodes))" using par by auto
    then show ?thesis using ascending_take_less [OF asc, of i a] i in_set_takeD [of a i "map ln_seq nodes"] by auto
  qed
  have "acyclic (set (edges nodes))" by (rule acyclicI_order [where f = uminus]) (use edge in auto)
  then show ?thesis using edge m by fastforce
qed

definition lineage_journal :: "JournalEntry list" where
  "lineage_journal = [
     \<lparr>je_seq = 1, je_kind = ''run'', je_payload_json = JsonText (JObj [(''status'', JStr ''running'')])\<rparr>,
     \<lparr>je_seq = 2, je_kind = ''decision'', je_payload_json = JsonText (JObj [(''decision_index'', JNum 1)])\<rparr>,
     \<lparr>je_seq = 4, je_kind = ''effect'', je_payload_json = JsonText (JObj [(''status'', JStr ''PENDING''),
        (''decision_index'', JNum 1), (''idempotency_key'', JStr ''k'')])\<rparr>,
     \<lparr>je_seq = 5, je_kind = ''obligation'', je_payload_json = JsonText (JObj [(''effect_key'', JStr ''k'')])\<rparr>,
     \<lparr>je_seq = 6, je_kind = ''run'', je_payload_json = JsonText (JObj [(''status'', JStr ''terminal'')])\<rparr>]"

lemma lineage_journal_graph:
  "map_sum id (map (\<lambda>n. (ln_seq n, ln_parent_seq n, ln_breaking_failpoint n))) (from_run lineage_journal) = Inr [
     (1, 0, ''tape::begin_run::post_db''), (2, 0, ''tape::record_decision::post_db''), (4, 2, ''tape::begin_effect::post_db''),
     (5, 4, ''tape::register_compensation::post_db''), (6, 0, ''tape::end_run::post_db'')]"
  by code_simp

lemma lineage_journal_edges: "map_sum id edges (from_run lineage_journal) = Inr [(2, 4), (4, 5)]"
  by code_simp

lemma lineage_journal_ascending: "sorted_wrt (<) (map je_seq lineage_journal)"
  by (simp add: lineage_journal_def)

theorem lineage_acyclic_witness:
  "\<exists>nodes. from_run lineage_journal = Inr nodes \<and> edges nodes = [(2, 4), (4, 5)] \<and> acyclic (set (edges nodes)) \<and>
     fst ` set (edges nodes) \<subseteq> ln_seq ` set nodes"
proof -
  obtain nodes where "from_run lineage_journal = Inr nodes" "edges nodes = [(2, 4), (4, 5)]"
    using lineage_journal_edges by (cases "from_run lineage_journal") auto
  then show ?thesis using lineage_acyclic [OF _ lineage_journal_ascending] by blast
qed

text \<open>
  The index of a decision is read with \<open>or -1\<close>, so decision 0 is filed under \<open>-1\<close>: decision 1 finds no
  parent, and an effect that names no decision is attached to decision 0, where the documentation of
  \<open>parent_seq\<close> makes it a root.
\<close>

lemma decision_zero_filed_under_minus_one:
  "map_of kvs ''decision_index'' = Some (JNum 0) \<Longrightarrow> index_field (JObj kvs) = Inr (-1)"
  by (simp add: index_field_def payload_get_def json_or_def json_int_def)

lemma first_decision_unlinked:
  "map_sum id (map (\<lambda>n. (ln_seq n, ln_parent_seq n))) (from_run [
     \<lparr>je_seq = 1, je_kind = ''decision'', je_payload_json = JsonText (JObj [(''decision_index'', JNum 0)])\<rparr>,
     \<lparr>je_seq = 2, je_kind = ''decision'', je_payload_json = JsonText (JObj [(''decision_index'', JNum 1)])\<rparr>,
     \<lparr>je_seq = 3, je_kind = ''effect'', je_payload_json = JsonText (JObj [(''idempotency_key'', JStr ''k'')])\<rparr>])
   = Inr [(1, 0), (2, 0), (3, 1)]"
  by code_simp

section \<open>The report\<close>

lemma singleton_scenarios:
  "map sc_faults (derive_scenarios base_name invs 1 nodes) = map (\<lambda>n. [crash (ln_breaking_failpoint n) 1 1 []]) (cut_candidates nodes)"
  by (simp add: derive_scenarios_def minimal_cuts_def cut_scenario_def)

lemma pair_cuts_exact:
  "[a, b] \<in> set (pair_cuts ns) \<longleftrightarrow>
     ln_breaking_failpoint a \<noteq> ln_breaking_failpoint b \<and> (\<exists>i j. i < j \<and> j < length ns \<and> a = ns ! i \<and> b = ns ! j)"
proof (induction ns)
  case Nil
  then show ?case by simp
next
  case (Cons n ns)
  have "(\<exists>i j. i < j \<and> j < length (n # ns) \<and> a = (n # ns) ! i \<and> b = (n # ns) ! j) \<longleftrightarrow>
      a = n \<and> b \<in> set ns \<or> (\<exists>i j. i < j \<and> j < length ns \<and> a = ns ! i \<and> b = ns ! j)" (is "?l = ?r")
  proof
    assume ?l
    then obtain i j where ij: "i < j" "j < length (n # ns)" "a = (n # ns) ! i" "b = (n # ns) ! j" by blast
    then obtain j' where "j = Suc j'" by (cases j) auto
    with ij show ?r by (cases i) auto
  next
    assume ?r
    then show ?l
    proof
      assume "a = n \<and> b \<in> set ns"
      then obtain j where "j < length ns" "b = ns ! j" "a = n" by (auto simp: in_set_conv_nth)
      then show ?l by (intro exI [of _ 0] exI [of _ "Suc j"]) simp
    next
      assume "\<exists>i j. i < j \<and> j < length ns \<and> a = ns ! i \<and> b = ns ! j"
      then obtain i j where "i < j" "j < length ns" "a = ns ! i" "b = ns ! j" by blast
      then show ?l by (intro exI [of _ "Suc i"] exI [of _ "Suc j"]) simp
    qed
  qed
  then show ?case using Cons.IH by auto
qed

definition report_counts :: "LDFIReport \<Rightarrow> nat" where
  "report_counts rep = ld_survived_count rep + length (ld_broken_scenarios rep)"

definition broken_ok :: "LDFIReport \<Rightarrow> bool" where
  "broken_ok rep \<longleftrightarrow> list_all (\<lambda>b. snd b \<noteq> [] \<and> list_all (\<lambda>ir. \<not> ir_passed ir) (snd b)) (ld_broken_scenarios rep)"

lemma ldfi_step_counts:
  assumes "ldfi_step runner sc rep w = (Inr rep', w')"
  shows "report_counts rep' = Suc (report_counts rep) \<and> ld_derived_count rep' = ld_derived_count rep \<and> (broken_ok rep \<longrightarrow> broken_ok rep')"
proof -
  obtain irs w1 where run: "runner sc w = (Inr irs, w1)"
    using assms by (auto simp: ldfi_step_def and_then_def split: prod.splits sum.splits)
  show ?thesis
  proof (cases "list_all ir_passed irs")
    case True
    then show ?thesis using assms run by (auto simp: ldfi_step_def and_then_def report_counts_def broken_ok_def)
  next
    case False
    let ?failed = "filter (\<lambda>ir. \<not> ir_passed ir) irs"
    have "?failed \<noteq> []" using False by (simp add: filter_empty_conv list_all_iff)
    moreover have "list_all (\<lambda>ir. \<not> ir_passed ir) ?failed" by (simp add: list_all_iff)
    moreover have "rep' = rep\<lparr>ld_broken_scenarios := ld_broken_scenarios rep @ [(sc_name sc, ?failed)]\<rparr>"
      using assms run False by (simp add: ldfi_step_def and_then_def)
    ultimately show ?thesis by (simp add: report_counts_def broken_ok_def)
  qed
qed

lemma ldfi_loop_counts:
  "ldfi_loop runner scs rep w = (Inr rep', w') \<Longrightarrow>
   report_counts rep' = report_counts rep + length scs \<and> ld_derived_count rep' = ld_derived_count rep \<and> (broken_ok rep \<longrightarrow> broken_ok rep')"
proof (induction scs arbitrary: rep w)
  case Nil
  then show ?case by simp
next
  case (Cons sc scs)
  then obtain rep1 w1 where "ldfi_step runner sc rep w = (Inr rep1, w1)" "ldfi_loop runner scs rep1 w1 = (Inr rep', w')"
    by (auto simp: and_then_def split: prod.splits sum.splits)
  then show ?case using ldfi_step_counts [of runner sc rep w rep1 w1] Cons.IH [of rep1 w1] by auto
qed

lemma run_all_partitions:
  assumes "run_all runner baseline derived w = (Inr rep, w')"
  shows "ld_derived_count rep = length derived \<and>
    ld_survived_count rep + length (ld_broken_scenarios rep) = ld_derived_count rep \<and>
    (\<forall>b \<in> set (ld_broken_scenarios rep). snd b \<noteq> [] \<and> (\<forall>ir \<in> set (snd b). \<not> ir_passed ir))"
  using ldfi_loop_counts [OF assms [unfolded run_all_def]] by (auto simp: report_counts_def broken_ok_def list_all_iff)

end
