(* ===== verification/SdkSnapshot.thy ===== *)
theory SdkSnapshot
  imports SdkLineage "HOL-Library.List_Lexorder" "HOL-Library.Char_ord"
begin

text \<open>
  Snapshots of a run's journal (\<open>chaos/snapshot.py\<close>) and the determinism check over two of them
  (\<open>chaos/replay.py\<close>).

  A journal payload is canonicalised, which drops clock readings and renames the run, and turned into
  nested tuples. Tuples, the lists inside them and JSON scalars compare as Python compares them, so
  \<open>True\<close> equals \<open>1\<close> and a dict has no order. The journal entries are those the stream
  delivers before the deadline; the body of a replay is a parameter.
\<close>

section \<open>Canonical values\<close>

definition STRIP_KEYS :: "string list" where
  "STRIP_KEYS = [''ts_ms'', ''started_at_ms'', ''ended_at_ms'', ''last_update_time_ms'',
     ''lease_expires_at_ms'', ''claim_expires_at_ms'', ''dispatch_claim_expires_at_ms'',
     ''next_dispatch_at_ms'', ''next_attempt_at_ms'', ''fire_at_ms'',
     ''lease_owner'', ''claimed_by'', ''dispatch_claimed_by'',
     ''trace_id'', ''span_id'', ''parent_span_id'', ''seq'', ''global_seq'', ''invocation_id'']"

text \<open>\<open>s.replace(old, new)\<close> for a text \<open>old\<close> that is not empty.\<close>

function replace_all :: "string \<Rightarrow> string \<Rightarrow> string \<Rightarrow> string" where
  "replace_all old new [] = []"
| "replace_all old new (c # cs) =
     (if take (length old) (c # cs) = old then new @ replace_all old new (drop (length old - 1) cs)
      else c # replace_all old new cs)"
  by pat_completeness auto
termination by (relation "measure (\<lambda>(old, new, s). length s)") auto

fun remap :: "(string \<times> string) list \<Rightarrow> string \<Rightarrow> string" where
  "remap [] s = s"
| "remap ((raw, canonical) # m) s = (if raw \<noteq> [] \<and> is_infix raw s then replace_all raw canonical s else remap m s)"

fun canonical :: "(string \<times> string) list \<Rightarrow> json \<Rightarrow> json"
  and canonical_list :: "(string \<times> string) list \<Rightarrow> json list \<Rightarrow> json list"
  and canonical_dict :: "(string \<times> string) list \<Rightarrow> (string \<times> json) list \<Rightarrow> (string \<times> json) list" where
  "canonical m (JObj kvs) = JObj (canonical_dict m kvs)"
| "canonical m (JArr xs) = JArr (canonical_list m xs)"
| "canonical m (JStr s) = JStr (remap m s)"
| "canonical m v = v"
| "canonical_list m [] = []"
| "canonical_list m (x # xs) = canonical m x # canonical_list m xs"
| "canonical_dict m [] = []"
| "canonical_dict m ((k, v) # kvs) = (if k \<in> set STRIP_KEYS then canonical_dict m kvs else (k, canonical m v) # canonical_dict m kvs)"

section \<open>Lines\<close>

datatype tup = TVal json | TPair string tup | TTuple "tup list"

fun tuple_value :: "json \<Rightarrow> tup"
  and tuple_items :: "json list \<Rightarrow> tup list"
  and tuple_entries :: "(string \<times> json) list \<Rightarrow> (string \<times> tup) list" where
  "tuple_value (JObj kvs) = TTuple (map (\<lambda>(k, t). TPair k t) (sort_key fst (tuple_entries kvs)))"
| "tuple_value (JArr xs) = TTuple (tuple_items xs)"
| "tuple_value v = TVal v"
| "tuple_items [] = []"
| "tuple_items (x # xs) = (case x of JObj kvs \<Rightarrow> tuple_value x | _ \<Rightarrow> TVal x) # tuple_items xs"
| "tuple_entries [] = []"
| "tuple_entries ((k, v) # kvs) = (k, tuple_value v) # tuple_entries kvs"

definition to_tuple :: "(string \<times> json) list \<Rightarrow> tup" where
  "to_tuple kvs = tuple_value (JObj kvs)"

text \<open>Python's \<open>==\<close> on decoded values, and on the tuples.\<close>

function py_eq :: "json \<Rightarrow> json \<Rightarrow> bool" where
  "py_eq (JBool a) (JBool b) = (a = b)"
| "py_eq (JNum a) (JNum b) = (a = b)"
| "py_eq (JBool a) (JNum b) = (b = (if a then 1 else 0))"
| "py_eq (JNum a) (JBool b) = (a = (if b then 1 else 0))"
| "py_eq (JStr a) (JStr b) = (a = b)"
| "py_eq JNull JNull = True"
| "py_eq (JArr xs) (JArr ys) = (length xs = length ys \<and> (\<forall>(x, y) \<in> set (zip xs ys). py_eq x y))"
| "py_eq (JObj kvs) (JObj lvs) = (length kvs = length lvs \<and>
     (\<forall>(k, v) \<in> set kvs. case map_of lvs k of None \<Rightarrow> False | Some u \<Rightarrow> py_eq v u))"
| "py_eq JNull (JBool b) = False" | "py_eq JNull (JNum b) = False" | "py_eq JNull (JStr b) = False"
| "py_eq JNull (JArr b) = False" | "py_eq JNull (JObj b) = False"
| "py_eq (JBool a) JNull = False" | "py_eq (JBool a) (JStr b) = False" | "py_eq (JBool a) (JArr b) = False" | "py_eq (JBool a) (JObj b) = False"
| "py_eq (JNum a) JNull = False" | "py_eq (JNum a) (JStr b) = False" | "py_eq (JNum a) (JArr b) = False" | "py_eq (JNum a) (JObj b) = False"
| "py_eq (JStr a) JNull = False" | "py_eq (JStr a) (JBool b) = False" | "py_eq (JStr a) (JNum b) = False"
| "py_eq (JStr a) (JArr b) = False" | "py_eq (JStr a) (JObj b) = False"
| "py_eq (JArr a) JNull = False" | "py_eq (JArr a) (JBool b) = False" | "py_eq (JArr a) (JNum b) = False"
| "py_eq (JArr a) (JStr b) = False" | "py_eq (JArr a) (JObj b) = False"
| "py_eq (JObj a) JNull = False" | "py_eq (JObj a) (JBool b) = False" | "py_eq (JObj a) (JNum b) = False"
| "py_eq (JObj a) (JStr b) = False" | "py_eq (JObj a) (JArr b) = False"
  by pat_completeness auto
termination
  by (relation "measure (\<lambda>(a, b). size a)")
     (auto dest!: set_zip_leftD simp: less_Suc_eq_le intro: size_list_estimation' [OF _ order_refl] size_list_estimation')

function tup_eq :: "tup \<Rightarrow> tup \<Rightarrow> bool" where
  "tup_eq (TVal a) (TVal b) = py_eq a b"
| "tup_eq (TPair k a) (TPair l b) = (k = l \<and> tup_eq a b)"
| "tup_eq (TTuple xs) (TTuple ys) = (length xs = length ys \<and> (\<forall>(x, y) \<in> set (zip xs ys). tup_eq x y))"
| "tup_eq (TVal a) (TPair l b) = False" | "tup_eq (TVal a) (TTuple ys) = False"
| "tup_eq (TPair k a) (TVal b) = False" | "tup_eq (TPair k a) (TTuple ys) = False"
| "tup_eq (TTuple xs) (TVal b) = False" | "tup_eq (TTuple xs) (TPair l b) = False"
  by pat_completeness auto
termination
  by (relation "measure (\<lambda>(a, b). size a)")
     (auto dest!: set_zip_leftD simp: less_Suc_eq_le intro: size_list_estimation' [OF _ order_refl])

record JournalLine =
  jl_kind :: string
  jl_payload :: tup

record Snapshot =
  sp_run_id :: string
  sp_lines :: "JournalLine list"

definition line_eq :: "JournalLine \<Rightarrow> JournalLine \<Rightarrow> bool" where
  "line_eq a b \<longleftrightarrow> jl_kind a = jl_kind b \<and> tup_eq (jl_payload a) (jl_payload b)"

definition snapshot_eq :: "Snapshot \<Rightarrow> Snapshot \<Rightarrow> bool" where
  "snapshot_eq a b \<longleftrightarrow> list_all2 line_eq (sp_lines a) (sp_lines b)"

definition nth_opt :: "'a list \<Rightarrow> nat \<Rightarrow> 'a option" where
  "nth_opt xs i = (if i < length xs then Some (xs ! i) else None)"

definition diff_at :: "JournalLine list \<Rightarrow> JournalLine list \<Rightarrow> nat \<Rightarrow> (nat \<times> string \<times> JournalLine option \<times> JournalLine option) list" where
  "diff_at as bs i = (case (nth_opt as i, nth_opt bs i) of
     (None, b) \<Rightarrow> [(i, ''<'', None, b)]
   | (Some a, None) \<Rightarrow> [(i, ''>'', Some a, None)]
   | (Some a, Some b) \<Rightarrow> if line_eq a b then [] else [(i, ''!='', Some a, Some b)])"

definition snapshot_diff :: "Snapshot \<Rightarrow> Snapshot \<Rightarrow> (nat \<times> string \<times> JournalLine option \<times> JournalLine option) list" where
  "snapshot_diff a b = concat (map (diff_at (sp_lines a) (sp_lines b)) [0 ..< max (length (sp_lines a)) (length (sp_lines b))])"

section \<open>Capturing\<close>

definition canon_tuple :: "(string \<times> string) list \<Rightarrow> json \<Rightarrow> tup" where
  "canon_tuple m p = (case canonical m p of JObj kvs \<Rightarrow> to_tuple kvs | v \<Rightarrow> TTuple [TPair ''_value'' (TVal v)])"

definition journal_line :: "(string \<times> string) list \<Rightarrow> JournalEntry \<Rightarrow> JournalLine" where
  "journal_line m e = \<lparr>jl_kind = je_kind e, jl_payload = canon_tuple m (entry_payload (je_payload_json e))\<rparr>"

fun capture_loop :: "(string \<times> string) list \<Rightarrow> JournalEntry list \<Rightarrow> py_exn + JournalLine list" where
  "capture_loop m [] = Inr []"
| "capture_loop m (e # es) =
     sum_bind (ends_run e (entry_payload (je_payload_json e))) (\<lambda>ended.
       if ended then Inr [journal_line m e] else map_sum id (\<lambda>ls. journal_line m e # ls) (capture_loop m es))"

definition capture :: "string \<Rightarrow> string \<Rightarrow> JournalEntry list \<Rightarrow> py_exn + Snapshot" where
  "capture run_id canonical_run_id entries =
     map_sum id (\<lambda>ls. \<lparr>sp_run_id = run_id, sp_lines = ls\<rparr>) (capture_loop [(run_id, canonical_run_id)] entries)"

text \<open>The full rows: decisions by index, the effects the journal names, the obligations.\<close>

record 'w deep_client =
  dp_get_decision :: "int \<Rightarrow> 'w \<Rightarrow> (py_exn + (string \<times> json) list option) \<times> 'w"
  dp_subscribe :: "'w \<Rightarrow> (py_exn + JournalEntry list) \<times> 'w"
  dp_get_effect :: "string \<Rightarrow> 'w \<Rightarrow> (py_exn + (string \<times> json) list option) \<times> 'w"
  dp_list_obligations :: "'w \<Rightarrow> (py_exn + (string \<times> json) list list) \<times> 'w"

record DeepSnapshot =
  ds_run_id :: string
  ds_decisions :: "tup list"
  ds_effects :: "tup list"
  ds_obligations :: "tup list"

definition pick_fields :: "string list \<Rightarrow> (string \<times> json) list \<Rightarrow> json" where
  "pick_fields ks row = JObj (map (\<lambda>k. (k, case map_of row k of Some v \<Rightarrow> v | None \<Rightarrow> JNull)) ks)"

definition DECISION_FIELDS :: "string list" where
  "DECISION_FIELDS = [''decision_index'', ''model'', ''request_json'', ''response_json'', ''policy_version'', ''rationale'']"

definition EFFECT_FIELDS :: "string list" where
  "EFFECT_FIELDS = [''tool_name'', ''idempotency_key'', ''status'', ''request_json'', ''response_json'', ''error_json'', ''semantics'',
     ''dispatch_mode'', ''business_key'', ''connector'', ''external_ref'', ''decision_index'']"

definition OBLIGATION_FIELDS :: "string list" where
  "OBLIGATION_FIELDS = [''kind'', ''effect_key'', ''status'', ''payload_json'', ''attempts'', ''max_attempts'', ''last_error'',
     ''result_json'', ''compensator_ref'']"

fun deep_decisions :: "'w deep_client \<Rightarrow> (json \<Rightarrow> tup) \<Rightarrow> nat \<Rightarrow> int \<Rightarrow> 'w \<Rightarrow> tup list \<times> 'w" where
  "deep_decisions cl canon 0 i w = ([], w)"
| "deep_decisions cl canon (Suc left) i w =
     (case dp_get_decision cl i w of
        (Inr (Some d), w1) \<Rightarrow> (case deep_decisions cl canon left (i + 1) w1 of (ts, w2) \<Rightarrow> (canon (pick_fields DECISION_FIELDS d) # ts, w2))
      | (_, w1) \<Rightarrow> ([], w1))"

text \<open>
  The keys of the effects in the journal. A payload that is JSON but no dict raises; text that is no
  JSON is skipped, and the empty text names no key and ends nothing.
\<close>

fun seen_keys :: "JournalEntry list \<Rightarrow> string list \<Rightarrow> py_exn + string list" where
  "seen_keys [] ks = Inr ks"
| "seen_keys (e # es) ks =
     (case je_payload_json e of
        PlainText s \<Rightarrow> seen_keys es ks
      | JsonText p \<Rightarrow>
          if je_kind e = ''effect'' then
            sum_bind (text_field p ''idempotency_key'') (\<lambda>key. seen_keys es (if key = [] then ks else List.insert key ks))
          else sum_bind (ends_run e p) (\<lambda>ended. if ended then Inr ks else seen_keys es ks))"

fun deep_effects :: "'w deep_client \<Rightarrow> (json \<Rightarrow> tup) \<Rightarrow> string list \<Rightarrow> 'w \<Rightarrow> tup list \<times> 'w" where
  "deep_effects cl canon [] w = ([], w)"
| "deep_effects cl canon (k # ks) w =
     (case dp_get_effect cl k w of (r, w1) \<Rightarrow>
        (case deep_effects cl canon ks w1 of (ts, w2) \<Rightarrow>
           ((case r of Inr (Some e) \<Rightarrow> canon (pick_fields EFFECT_FIELDS e) # ts | _ \<Rightarrow> ts), w2)))"

definition capture_deep :: "'w deep_client \<Rightarrow> string \<Rightarrow> string \<Rightarrow> nat \<Rightarrow> 'w \<Rightarrow> (py_exn + DeepSnapshot) \<times> 'w" where
  "capture_deep cl run_id canonical_run_id max_decisions w =
     (let canon = canon_tuple [(run_id, canonical_run_id)] in
      case deep_decisions cl canon max_decisions 0 w of (ds, w1) \<Rightarrow>
      and_then (dp_subscribe cl w1) (\<lambda>entries w2.
        (case seen_keys entries [] of
           Inl ex \<Rightarrow> (Inl ex, w2)
         | Inr ks \<Rightarrow>
             (case deep_effects cl canon (sort ks) w2 of (es, w3) \<Rightarrow>
              case dp_list_obligations cl w3 of (r, w4) \<Rightarrow>
                (Inr \<lparr>ds_run_id = run_id, ds_decisions = ds, ds_effects = es,
                   ds_obligations = (case r of Inl ex \<Rightarrow> [] | Inr obs \<Rightarrow> map (\<lambda>ob. canon (pick_fields OBLIGATION_FIELDS ob)) obs)\<rparr>, w4)))))"

definition deep_eq :: "DeepSnapshot \<Rightarrow> DeepSnapshot \<Rightarrow> bool" where
  "deep_eq a b \<longleftrightarrow> list_all2 tup_eq (ds_decisions a) (ds_decisions b) \<and> list_all2 tup_eq (ds_effects a) (ds_effects b) \<and>
     list_all2 tup_eq (ds_obligations a) (ds_obligations b)"

section \<open>Replaying\<close>

record ReplayReport =
  rp_scenario_name :: string
  rp_seed :: int
  rp_bit_identical :: bool
  rp_snap_a :: "Snapshot option"
  rp_snap_b :: "Snapshot option"
  rp_diff_summary :: "string list"
  rp_notes :: "string list"

text \<open>
  What a body leaves: the text it returned (\<open>None\<close> for another value) or what it raised, and
  the \<open>run_id\<close> it set on the session. \<open>rb_journal\<close> is the stream of a run.
\<close>

record 'w replay_deps =
  rb_body :: "(string \<times> 'w sdk_connector) list \<Rightarrow> 'w \<Rightarrow> ((py_exn + string option) \<times> string option) \<times> 'w"
  rb_journal :: "string \<Rightarrow> 'w \<Rightarrow> (py_exn + JournalEntry list) \<times> 'w"
  rb_show :: "tup \<Rightarrow> string"

definition summarize_one :: "(tup \<Rightarrow> string) \<Rightarrow> nat \<times> string \<times> JournalLine option \<times> JournalLine option \<Rightarrow> string list" where
  "summarize_one sh d = (case d of
     (i, op, Some a, Some b) \<Rightarrow> [''['' @ nat_str i @ ''] '' @ jl_kind a @ '' differs: A='' @ sh (jl_payload a) @ '' | B='' @ sh (jl_payload b)]
   | (i, op, Some a, None) \<Rightarrow> [''['' @ nat_str i @ ''] only in A: '' @ jl_kind a @ '' '' @ sh (jl_payload a)]
   | (i, op, None, Some b) \<Rightarrow> [''['' @ nat_str i @ ''] only in B: '' @ jl_kind b @ '' '' @ sh (jl_payload b)]
   | (i, op, None, None) \<Rightarrow> [])"

definition summarize :: "(tup \<Rightarrow> string) \<Rightarrow> Snapshot \<Rightarrow> Snapshot \<Rightarrow> string list" where
  "summarize sh a b = concat (map (summarize_one sh) (snapshot_diff a b))"

text \<open>How a pass ends: a note that ends the replay, a snapshot, or an exception out of it.\<close>

datatype pass_end = PassNote string | PassSnap Snapshot | PassRaised py_exn | NotEntered tape_error

definition nonempty :: "string option \<Rightarrow> string option" where
  "nonempty s = (case s of None \<Rightarrow> None | Some t \<Rightarrow> if t = [] then None else Some t)"

definition pass_body ::
    "'w replay_deps \<Rightarrow> nat \<Rightarrow> (string \<times> 'w sdk_connector) list \<Rightarrow> 'w \<Rightarrow> pass_end \<times> string option \<times> 'w" where
  "pass_body d idx reg w =
     (case rb_body d reg w of
        ((Inl ex, set_id), w1) \<Rightarrow> (PassNote (''pass '' @ nat_str idx @ '' raised: '' @ exn_text ex), set_id, w1)
      | ((Inr returned, set_id), w1) \<Rightarrow>
          (case (case nonempty set_id of Some r \<Rightarrow> Some r | None \<Rightarrow> nonempty returned) of
             None \<Rightarrow> (PassNote (''pass '' @ nat_str idx @ '': body did not produce a run_id (set session.run_id or return it)''), set_id, w1)
           | Some rid \<Rightarrow>
               (case rb_journal d rid w1 of
                  (Inl ex, w2) \<Rightarrow> (PassRaised ex, set_id, w2)
                | (Inr entries, w2) \<Rightarrow>
                    ((case capture rid ''run-1'' entries of Inl ex \<Rightarrow> PassRaised ex | Inr snap \<Rightarrow> PassSnap snap), set_id, w2))))"

text \<open>The pass inside its session, which checks the invariants and puts the registry back on every way out.\<close>

definition replay_pass ::
    "'w chaos_env \<Rightarrow> (rat \<Rightarrow> string) \<Rightarrow> 'w SdkScenario \<Rightarrow> 'w replay_deps \<Rightarrow> nat \<Rightarrow> (string \<times> 'w sdk_connector) list \<Rightarrow> 'w
     \<Rightarrow> pass_end \<times> (string \<times> 'w sdk_connector) list \<times> 'w" where
  "replay_pass ce fmt_g sc d idx reg w =
     (case enter_session ce fmt_g sc reg of
        Inl e \<Rightarrow> (NotEntered e, reg, w)
      | Inr s \<Rightarrow>
          (case pass_body d idx (ss_registry s) w of (out, set_id, w1) \<Rightarrow>
             (case exit_session sc set_id (case out of PassRaised ex \<Rightarrow> Some ex | _ \<Rightarrow> None) s w1 of
                (s', w2) \<Rightarrow> (out, ss_registry s', w2))))"

datatype replay_end = Reported ReplayReport | ReplayRaised py_exn | ReplayNotEntered tape_error

definition first_report :: "'w SdkScenario \<Rightarrow> ReplayReport" where
  "first_report sc = \<lparr>rp_scenario_name = sc_name sc, rp_seed = sc_seed sc, rp_bit_identical = False,
     rp_snap_a = None, rp_snap_b = None, rp_diff_summary = [], rp_notes = []\<rparr>"

definition compared :: "(tup \<Rightarrow> string) \<Rightarrow> ReplayReport \<Rightarrow> Snapshot \<Rightarrow> Snapshot \<Rightarrow> ReplayReport" where
  "compared sh rep a b =
     (let rep1 = rep\<lparr>rp_snap_a := Some a, rp_snap_b := Some b, rp_bit_identical := snapshot_eq a b\<rparr>
      in if rp_bit_identical rep1 then rep1 else rep1\<lparr>rp_diff_summary := summarize sh a b\<rparr>)"

definition replay ::
    "'w chaos_env \<Rightarrow> (rat \<Rightarrow> string) \<Rightarrow> 'w SdkScenario \<Rightarrow> 'w replay_deps \<Rightarrow> (string \<times> 'w sdk_connector) list \<Rightarrow> 'w
     \<Rightarrow> replay_end \<times> (string \<times> 'w sdk_connector) list \<times> 'w" where
  "replay ce fmt_g sc d reg w =
     (case replay_pass ce fmt_g sc d 1 reg w of
        (PassNote n, reg1, w1) \<Rightarrow> (Reported ((first_report sc)\<lparr>rp_notes := [n]\<rparr>), reg1, w1)
      | (PassRaised ex, reg1, w1) \<Rightarrow> (ReplayRaised ex, reg1, w1)
      | (NotEntered e, reg1, w1) \<Rightarrow> (ReplayNotEntered e, reg1, w1)
      | (PassSnap a, reg1, w1) \<Rightarrow>
          (case replay_pass ce fmt_g sc d 2 reg1 w1 of
             (PassNote n, reg2, w2) \<Rightarrow> (Reported ((first_report sc)\<lparr>rp_notes := [n]\<rparr>), reg2, w2)
           | (PassRaised ex, reg2, w2) \<Rightarrow> (ReplayRaised ex, reg2, w2)
           | (NotEntered e, reg2, w2) \<Rightarrow> (ReplayNotEntered e, reg2, w2)
           | (PassSnap b, reg2, w2) \<Rightarrow> (Reported (compared (rb_show d) (first_report sc) a b), reg2, w2)))"

section \<open>Equality and difference\<close>

lemma diff_at_empty:
  "i < max (length as) (length bs) \<Longrightarrow>
   diff_at as bs i = [] \<longleftrightarrow> i < length as \<and> i < length bs \<and> line_eq (as ! i) (bs ! i)"
  by (auto simp: diff_at_def nth_opt_def)

lemma diff_empty_iff_equal: "snapshot_diff a b = [] \<longleftrightarrow> snapshot_eq a b"
proof -
  let ?as = "sp_lines a" and ?bs = "sp_lines b"
  have "snapshot_diff a b = [] \<longleftrightarrow> (\<forall>i < max (length ?as) (length ?bs). diff_at ?as ?bs i = [])"
    by (auto simp: snapshot_diff_def)
  also have "\<dots> \<longleftrightarrow> (\<forall>i < max (length ?as) (length ?bs). i < length ?as \<and> i < length ?bs \<and> line_eq (?as ! i) (?bs ! i))"
    by (simp only: diff_at_empty cong: imp_cong)
  also have "\<dots> \<longleftrightarrow> list_all2 line_eq ?as ?bs"
    by (fastforce simp: list_all2_conv_all_nth less_max_iff_disj not_less intro: le_antisym)
  finally show ?thesis by (simp add: snapshot_eq_def)
qed

lemma summarize_one_nonempty: "d \<in> set (snapshot_diff a b) \<Longrightarrow> summarize_one sh d \<noteq> []"
  by (auto simp: snapshot_diff_def diff_at_def nth_opt_def summarize_one_def split: if_splits)

lemma summarize_empty_iff: "summarize sh a b = [] \<longleftrightarrow> snapshot_eq a b"
proof
  assume "summarize sh a b = []"
  then have "d \<notin> set (snapshot_diff a b)" for d using summarize_one_nonempty [of d a b sh] by (auto simp: summarize_def)
  then have "snapshot_diff a b = []" by (meson last_in_set)
  then show "snapshot_eq a b" by (simp flip: diff_empty_iff_equal)
qed (simp add: summarize_def flip: diff_empty_iff_equal)

section \<open>The same history under two run ids\<close>

text \<open>
  Two payloads that differ only in stripped keys and in the run id at the front of a text,
  where idempotency keys have it.
\<close>

inductive same_value :: "string \<Rightarrow> string \<Rightarrow> json \<Rightarrow> json \<Rightarrow> bool" for r r' where
  same_null: "same_value r r' JNull JNull"
| same_bool: "same_value r r' (JBool b) (JBool b)"
| same_num: "same_value r r' (JNum n) (JNum n)"
| same_text: "\<not> is_infix r s \<Longrightarrow> \<not> is_infix r' s \<Longrightarrow> same_value r r' (JStr s) (JStr s)"
| same_key: "\<not> is_infix r s \<Longrightarrow> \<not> is_infix r' s \<Longrightarrow> same_value r r' (JStr (r @ s)) (JStr (r' @ s))"
| same_list: "list_all2 (same_value r r') xs ys \<Longrightarrow> same_value r r' (JArr xs) (JArr ys)"
| same_dict: "list_all2 (\<lambda>x y. fst x = fst y \<and> same_value r r' (snd x) (snd y))
                (filter (\<lambda>(k, v). k \<notin> set STRIP_KEYS) kvs) (filter (\<lambda>(k, v). k \<notin> set STRIP_KEYS) lvs) \<Longrightarrow>
              same_value r r' (JObj kvs) (JObj lvs)"

definition same_entry :: "string \<Rightarrow> string \<Rightarrow> JournalEntry \<Rightarrow> JournalEntry \<Rightarrow> bool" where
  "same_entry r r' e e' \<longleftrightarrow> je_kind e = je_kind e' \<and>
     same_value r r' (entry_payload (je_payload_json e)) (entry_payload (je_payload_json e')) \<and>
     ends_run e (entry_payload (je_payload_json e)) = ends_run e' (entry_payload (je_payload_json e'))"

lemma replace_all_absent: "r \<noteq> [] \<Longrightarrow> \<not> is_infix r s \<Longrightarrow> replace_all r c s = s"
  by (induction s) auto

lemma replace_all_front:
  assumes "r \<noteq> []" and "\<not> is_infix r s"
  shows "replace_all r c (r @ s) = c @ s"
proof (cases r)
  case (Cons x xs)
  then show ?thesis using replace_all_absent [OF assms] by simp
qed (use assms in simp)

lemma is_infix_front: "is_infix r (r @ s)"
  by (cases r) (cases s, auto)

lemma remap_absent: "\<not> is_infix r s \<Longrightarrow> remap [(r, c)] s = s"
  by simp

lemma remap_front: "r \<noteq> [] \<Longrightarrow> \<not> is_infix r s \<Longrightarrow> remap [(r, c)] (r @ s) = c @ s"
  by (simp add: is_infix_front replace_all_front)

lemma canonical_list_map: "canonical_list m xs = map (canonical m) xs"
  by (induction xs) auto

lemma canonical_dict_map:
  "canonical_dict m kvs = map (\<lambda>(k, v). (k, canonical m v)) (filter (\<lambda>(k, v). k \<notin> set STRIP_KEYS) kvs)"
  by (induction kvs) auto

lemma canonical_same:
  assumes "same_value r r' v v'" and "r \<noteq> []" and "r' \<noteq> []"
  shows "canonical [(r, c)] v = canonical [(r', c)] v'"
  using assms(1)
proof induction
  case (same_list xs ys)
  then show ?case by (auto simp: canonical_list_map list_all2_conv_all_nth intro!: nth_equalityI)
next
  case (same_dict kvs lvs)
  let ?live = "filter (\<lambda>(k, v). k \<notin> set STRIP_KEYS)"
  have "map (\<lambda>(k, v). (k, canonical [(r, c)] v)) (?live kvs) = map (\<lambda>(k, v). (k, canonical [(r', c)] v)) (?live lvs)"
    using same_dict by (auto simp: list_all2_conv_all_nth split_beta intro!: nth_equalityI)
  then show ?case by (simp add: canonical_dict_map)
qed (simp_all add: remap_front assms(2,3) del: remap.simps, simp_all)

lemma capture_loop_same:
  assumes "list_all2 (same_entry r r') es es'" and "r \<noteq> []" and "r' \<noteq> []"
  shows "capture_loop [(r, c)] es = capture_loop [(r', c)] es'"
  using assms(1)
proof induction
  case (Cons e es e' es')
  have line: "journal_line [(r, c)] e = journal_line [(r', c)] e'"
    using Cons.hyps(1) canonical_same [OF _ assms(2,3), of "entry_payload (je_payload_json e)" "entry_payload (je_payload_json e')" c]
    by (simp add: same_entry_def journal_line_def canon_tuple_def)
  have "ends_run e (entry_payload (je_payload_json e)) = ends_run e' (entry_payload (je_payload_json e'))"
    using Cons.hyps(1) by (simp add: same_entry_def)
  then show ?case by (simp only: capture_loop.simps line Cons.IH)
qed simp

text \<open>A decoded value has each key of a dict once.\<close>

function wf_json :: "json \<Rightarrow> bool" where
  "wf_json (JObj kvs) = (distinct (map fst kvs) \<and> (\<forall>(k, v) \<in> set kvs. wf_json v))"
| "wf_json (JArr xs) = (\<forall>x \<in> set xs. wf_json x)"
| "wf_json (JStr s) = True" | "wf_json (JNum n) = True" | "wf_json (JBool b) = True" | "wf_json JNull = True"
  by pat_completeness auto
termination
  by (relation "measure size") (auto simp: less_Suc_eq_le intro: size_list_estimation' [OF _ order_refl] size_list_estimation')

lemma py_eq_refl: "wf_json v \<Longrightarrow> py_eq v v"
proof (induction v rule: wf_json.induct)
  case (1 kvs)
  then have "map_of kvs k = Some v \<and> py_eq v v" if "(k, v) \<in> set kvs" for k v using that by fastforce
  then show ?case by (auto simp del: map_of_eq_Some_iff)
qed (auto simp: zip_same)

lemma wf_canonical: "wf_json v \<Longrightarrow> wf_json (canonical m v)"
proof (induction v rule: wf_json.induct)
  case (1 kvs)
  have "map fst (canonical_dict m kvs) = map fst (filter (\<lambda>(k, v). k \<notin> set STRIP_KEYS) kvs)"
    by (simp add: canonical_dict_map split_beta)
  then have keys: "distinct (map fst (canonical_dict m kvs))" using 1 by (simp add: distinct_map_filter)
  have "\<forall>(k, v) \<in> set (canonical_dict m kvs). wf_json v" using 1 by (auto simp: canonical_dict_map)
  with keys show ?case by simp
qed (auto simp: canonical_list_map)

lemma tuple_refl:
  "wf_json v \<Longrightarrow> tup_eq (tuple_value v) (tuple_value v)"
  "\<forall>x \<in> set xs. wf_json x \<Longrightarrow> \<forall>t \<in> set (tuple_items xs). tup_eq t t"
  "\<forall>(k, v) \<in> set kvs. wf_json v \<Longrightarrow> \<forall>(k, t) \<in> set (tuple_entries kvs). tup_eq t t"
proof (induction v and xs and kvs rule: tuple_value_tuple_items_tuple_entries.induct)
  case (1 kvs)
  then show ?case by (fastforce simp: zip_same)
next
  case (5 x xs)
  then show ?case by (cases x) (auto simp: py_eq_refl zip_same simp del: tuple_value.simps)
qed (auto simp: zip_same py_eq_refl split: json.split)

lemma line_refl: "wf_json (entry_payload (je_payload_json e)) \<Longrightarrow> line_eq (journal_line m e) (journal_line m e)"
  using wf_canonical [of "entry_payload (je_payload_json e)" m]
    tuple_refl(1) [of "canonical m (entry_payload (je_payload_json e))"]
  by (auto simp: line_eq_def journal_line_def canon_tuple_def to_tuple_def py_eq_refl split: json.splits
      simp del: tuple_value.simps py_eq.simps wf_json.simps)

lemma capture_loop_refl:
  "capture_loop m es = Inr ls \<Longrightarrow> \<forall>e \<in> set es. wf_json (entry_payload (je_payload_json e)) \<Longrightarrow> list_all2 line_eq ls ls"
proof (induction es arbitrary: ls)
  case (Cons e es)
  have e: "line_eq (journal_line m e) (journal_line m e)" using Cons.prems(2) by (simp add: line_refl)
  from Cons.prems(1) consider "ls = [journal_line m e]"
    | ls' where "ls = journal_line m e # ls'" "capture_loop m es = Inr ls'"
    by (auto simp: sum_bind_def split: sum.splits if_splits dest!: map_sum_InrD)
  then show ?case
  proof cases
    case 2
    then show ?thesis using e Cons.IH [OF 2(2)] Cons.prems(2) by simp
  qed (simp add: e)
qed simp

lemma first_pass_registry:
  assumes "self_named reg" and "replay_pass ce fmt_g sc d idx reg w = (out, reg', w')"
  shows "reg' = reg" and "out \<noteq> NotEntered e"
proof -
  obtain s where s: "enter_session ce fmt_g sc reg = Inr s" "restored s = reg" using enter_restores [OF assms(1)] by blast
  obtain o1 set_id w1 where b: "pass_body d idx (ss_registry s) w = (o1, set_id, w1)" by (cases "pass_body d idx (ss_registry s) w")
  have "o1 \<noteq> NotEntered e" using b by (auto simp: pass_body_def split: prod.splits sum.splits option.splits)
  then show "reg' = reg" "out \<noteq> NotEntered e" using assms(2) s b
    by (auto simp: replay_pass_def exit_session_def restored_def Let_def split: prod.splits)
qed

lemma compared_verdict:
  "rp_bit_identical (compared sh rep a b) \<longleftrightarrow> snapshot_eq a b"
  "rp_snap_a (compared sh rep a b) = Some a" "rp_snap_b (compared sh rep a b) = Some b"
  "rp_notes (compared sh rep a b) = rp_notes rep"
  "rp_diff_summary rep = [] \<Longrightarrow> rp_diff_summary (compared sh rep a b) = [] \<longleftrightarrow> snapshot_eq a b"
  by (simp_all add: compared_def summarize_empty_iff Let_def)

lemma capture_same:
  assumes "r \<noteq> []" and "r' \<noteq> []" and "list_all2 (same_entry r r') es es'"
    and "\<forall>e \<in> set es. wf_json (entry_payload (je_payload_json e))"
    and "capture r c es = Inr a" and "capture r' c es' = Inr b"
  shows "snapshot_eq a b"
proof -
  obtain ls where ls: "capture_loop [(r, c)] es = Inr ls" "a = \<lparr>sp_run_id = r, sp_lines = ls\<rparr>"
    using assms(5) by (cases "capture_loop [(r, c)] es") (auto simp: capture_def)
  then have "sp_lines b = ls" using capture_loop_same [OF assms(3,1,2), of c] assms(6) by (auto simp: capture_def)
  with ls capture_loop_refl [OF ls(1) assms(4)] show ?thesis by (simp add: snapshot_eq_def)
qed

text \<open>
  C28. The snapshot of a run depends on its history alone: two journals that differ only in clock
  readings, lease owners, trace ids, positions and the run id in front of their keys give equal
  snapshots with an empty diff, or raise the same error.
\<close>

theorem same_history_same_snapshot:
  assumes "r \<noteq> []" and "r' \<noteq> []" and "list_all2 (same_entry r r') es es'"
    and "\<forall>e \<in> set es. wf_json (entry_payload (je_payload_json e))"
  shows "case capture r c es of
      Inl ex \<Rightarrow> capture r' c es' = Inl ex
    | Inr a \<Rightarrow> \<exists>b. capture r' c es' = Inr b \<and> snapshot_eq a b \<and> snapshot_diff a b = []"
proof (cases "capture_loop [(r, c)] es")
  case (Inl ex)
  then show ?thesis using capture_loop_same [OF assms(3,1,2), of c] by (simp add: capture_def)
next
  case (Inr ls)
  then show ?thesis using capture_loop_same [OF assms(3,1,2), of c] capture_loop_refl [OF Inr assms(4)]
    by (simp add: capture_def diff_empty_iff_equal snapshot_eq_def)
qed

text \<open>
  What one pass of a replay does when nothing fails: over the connectors \<open>reg\<close> and from the world
  \<open>w\<close> the body drives the run \<open>rid\<close>, the id it set on the session or else the text it returned,
  \<open>es\<close> is that run's journal, and the scenario's checks leave the world \<open>w'\<close>.
\<close>

definition pass_reads ::
    "'w SdkScenario \<Rightarrow> 'w replay_deps \<Rightarrow> (string \<times> 'w sdk_connector) list \<Rightarrow> 'w \<Rightarrow> string \<Rightarrow> JournalEntry list \<Rightarrow> 'w \<Rightarrow> bool" where
  "pass_reads sc d reg w rid es w' \<longleftrightarrow>
     (\<exists>returned set_id w1 w2 rs. rb_body d reg w = ((Inr returned, set_id), w1) \<and> rid \<noteq> [] \<and>
        (set_id = Some rid \<or> set_id \<in> {None, Some []} \<and> returned = Some rid) \<and>
        rb_journal d rid w1 = (Inr es, w2) \<and> check_answers set_id (sc_invariants sc) w2 = (rs, w'))"

lemma pass_body_snap:
  "pass_body d idx reg w = (PassSnap snap, set_id, w2) \<longleftrightarrow>
   (\<exists>returned w1 rid es. rb_body d reg w = ((Inr returned, set_id), w1) \<and> rid \<noteq> [] \<and>
      (set_id = Some rid \<or> set_id \<in> {None, Some []} \<and> returned = Some rid) \<and>
      rb_journal d rid w1 = (Inr es, w2) \<and> capture rid ''run-1'' es = Inr snap)"
  by (auto simp: pass_body_def nonempty_def split: prod.splits sum.splits option.splits if_splits)

lemma exit_world: "snd (exit_session sc run_id raised s w) = snd (check_answers run_id (sc_invariants sc) w)"
proof -
  obtain rs w1 where ans: "check_answers run_id (sc_invariants sc) w = (rs, w1)" by fastforce
  from check_invariants_graded [OF this] show ?thesis by (metis (no_types, lifting) ans exit_session_def prod.case snd_conv)
qed

lemma replay_pass_snap:
  assumes "self_named reg"
  shows "replay_pass ce fmt_g sc d idx reg w = (PassSnap snap, reg', w') \<longleftrightarrow> reg' = reg \<and>
    (\<exists>rid es. pass_reads sc d (refile (faulty ce (sc_faults sc)) reg) w rid es w' \<and> capture rid ''run-1'' es = Inr snap)"
proof -
  obtain s where s: "enter_session ce fmt_g sc reg = Inr s" "restored s = reg" "ss_registry s = refile (faulty ce (sc_faults sc)) reg"
    using enter_session_wraps [OF assms] unfolding wrapped_as_def by blast
  obtain p set_id w1 where b: "pass_body d idx (ss_registry s) w = (p, set_id, w1)" by (cases "pass_body d idx (ss_registry s) w")
  obtain rs w2 where ans: "check_answers set_id (sc_invariants sc) w1 = (rs, w2)" by fastforce
  have ex: "exit_session sc set_id raised s w1 = (s', w3) \<Longrightarrow> ss_registry s' = reg \<and> w3 = w2" for raised s' w3
    using exit_world [of sc set_id raised s w1] s(2) ans by (auto simp: exit_session_def restored_def Let_def split: prod.splits)
  have "replay_pass ce fmt_g sc d idx reg w = (p, reg, w2)"
    using ex [of "case p of PassRaised ex \<Rightarrow> Some ex | _ \<Rightarrow> None"] b s(1) by (auto simp: replay_pass_def split: prod.splits)
  then have "replay_pass ce fmt_g sc d idx reg w = (PassSnap snap, reg', w') \<longleftrightarrow> reg' = reg \<and>
      (\<exists>set_id w1 rs. pass_body d idx (ss_registry s) w = (PassSnap snap, set_id, w1) \<and> check_answers set_id (sc_invariants sc) w1 = (rs, w'))"
    using b ans by auto
  then show ?thesis unfolding pass_body_snap pass_reads_def s(3) by blast
qed

lemma replay_pass_note:
  assumes "self_named reg" and "replay_pass ce fmt_g sc d idx reg w = (PassNote n, reg', w')"
  shows "\<not> pass_reads sc d (refile (faulty ce (sc_faults sc)) reg) w rid es v"
proof -
  obtain s where s: "enter_session ce fmt_g sc reg = Inr s" "ss_registry s = refile (faulty ce (sc_faults sc)) reg"
    using enter_session_wraps [OF assms(1)] unfolding wrapped_as_def by blast
  then obtain set_id w1 where "pass_body d idx (refile (faulty ce (sc_faults sc)) reg) w = (PassNote n, set_id, w1)"
    using assms(2) by (auto simp: replay_pass_def split: prod.splits)
  then show ?thesis by (auto simp: pass_body_def pass_reads_def nonempty_def split: prod.splits sum.splits option.splits if_splits)
qed

lemma pass_reads_unique: "pass_reads sc d reg w rid es w' \<Longrightarrow> pass_reads sc d reg w rid2 es2 w2 \<Longrightarrow> rid2 = rid \<and> es2 = es \<and> w2 = w'"
  by (auto simp: pass_reads_def)

text \<open>
  C29. The verdict of a replay is exact. Where every connector is filed under its own name, both
  passes run the body over the same wrapped connectors, and a report is bit-identical if and only if
  both passes drove a run whose journal could be read and captured, the report has the
  first pass's snapshot and the second's, and the two are equal. Two passes that leave the same history
  are found bit-identical, and a report that is not says why, in a note or in the
  summary of the differences.
\<close>

theorem replay_verdict_exact:
  assumes "self_named reg" and "replay ce fmt_g sc d reg w = (Reported rep, reg', w')"
    and "during = map (\<lambda>(n, c). (n, faulty ce (sc_faults sc) n c)) reg"
  shows "(rp_bit_identical rep \<longleftrightarrow>
      (\<exists>r1 es1 w1 r2 es2 w2 a b. pass_reads sc d during w r1 es1 w1 \<and> pass_reads sc d during w1 r2 es2 w2 \<and>
         capture r1 ''run-1'' es1 = Inr a \<and> capture r2 ''run-1'' es2 = Inr b \<and>
         rp_snap_a rep = Some a \<and> rp_snap_b rep = Some b \<and> snapshot_eq a b)) \<and>
    (\<forall>r1 es1 w1 r2 es2 w2. pass_reads sc d during w r1 es1 w1 \<and> pass_reads sc d during w1 r2 es2 w2 \<and>
       list_all2 (same_entry r1 r2) es1 es2 \<and> (\<forall>e \<in> set es1. wf_json (entry_payload (je_payload_json e))) \<longrightarrow> rp_bit_identical rep) \<and>
    (rp_bit_identical rep \<longleftrightarrow> rp_notes rep = [] \<and> rp_diff_summary rep = [])"
proof -
  have dur: "during = refile (faulty ce (sc_faults sc)) reg" using assms(3) by (simp add: refile_def)
  obtain p1 reg1 w1 where p1: "replay_pass ce fmt_g sc d 1 reg w = (p1, reg1, w1)" by (cases "replay_pass ce fmt_g sc d 1 reg w")
  note snap = replay_pass_snap [OF assms(1), of ce fmt_g sc d, folded dur]
    and no_run = replay_pass_note [OF assms(1), of ce fmt_g sc d, folded dur]
  consider (noted) n where "p1 = PassNote n" "rep = (first_report sc)\<lparr>rp_notes := [n]\<rparr>"
    | (second) a n reg2 w2 where "p1 = PassSnap a" "replay_pass ce fmt_g sc d 2 reg1 w1 = (PassNote n, reg2, w2)" "rep = (first_report sc)\<lparr>rp_notes := [n]\<rparr>"
    | (both) a b reg2 w2 where "p1 = PassSnap a" "replay_pass ce fmt_g sc d 2 reg1 w1 = (PassSnap b, reg2, w2)" "rep = compared (rb_show d) (first_report sc) a b"
    using assms(2) p1 by (auto simp: replay_def split: pass_end.splits prod.splits)
  then show ?thesis
  proof cases
    case noted
    with no_run p1 have "\<not> pass_reads sc d during w r es v" for r es v by blast
    with noted(2) show ?thesis by (simp add: first_report_def)
  next
    case second
    obtain r1 es1 where one: "pass_reads sc d during w r1 es1 w1" and r1: "reg1 = reg" using snap p1 second(1) by blast
    have "\<not> pass_reads sc d during w1 r es v" for r es v using no_run second(2) r1 by blast
    with pass_reads_unique [OF one] second(3) show ?thesis by (auto simp: first_report_def)
  next
    case both
    obtain r1 es1 where one: "pass_reads sc d during w r1 es1 w1" "capture r1 ''run-1'' es1 = Inr a" and r1: "reg1 = reg" using snap p1 both(1) by blast
    obtain r2 es2 where two: "pass_reads sc d during w1 r2 es2 w2" "capture r2 ''run-1'' es2 = Inr b" using snap both(2) r1 by blast
    have ids: "r1 \<noteq> []" "r2 \<noteq> []" using one(1) two(1) by (auto simp: pass_reads_def)
    have same: "snapshot_eq a b" if "list_all2 (same_entry r1 r2) es1 es2" "\<forall>e \<in> set es1. wf_json (entry_payload (je_payload_json e))"
      by (rule capture_same [OF ids that one(2) two(2)])
    have verdict: "rp_bit_identical rep \<longleftrightarrow> snapshot_eq a b" "rp_snap_a rep = Some a" "rp_snap_b rep = Some b"
      "rp_notes rep = []" "rp_diff_summary rep = [] \<longleftrightarrow> snapshot_eq a b"
      using both(3) by (simp_all add: compared_verdict first_report_def)
    show ?thesis
    proof (intro conjI allI impI)
      show "rp_bit_identical rep \<longleftrightarrow> (\<exists>r1 es1 w1 r2 es2 w2 a b. pass_reads sc d during w r1 es1 w1 \<and> pass_reads sc d during w1 r2 es2 w2 \<and>
         capture r1 ''run-1'' es1 = Inr a \<and> capture r2 ''run-1'' es2 = Inr b \<and>
         rp_snap_a rep = Some a \<and> rp_snap_b rep = Some b \<and> snapshot_eq a b)"
        using one two verdict by (metis option.inject)
    next
      fix r1' es1' w1' r2' es2' w2'
      assume "pass_reads sc d during w r1' es1' w1' \<and> pass_reads sc d during w1' r2' es2' w2' \<and>
        list_all2 (same_entry r1' r2') es1' es2' \<and> (\<forall>e \<in> set es1'. wf_json (entry_payload (je_payload_json e)))"
      then show "rp_bit_identical rep" using pass_reads_unique [OF one(1)] pass_reads_unique [OF two(1)] same verdict(1) by blast
    qed (use verdict in auto)
  qed
qed

text \<open>
  An empty dict and an empty list become the same empty tuple, so two different histories can give
  equal snapshots.
\<close>

lemma empty_dict_and_list_collide:
  "canon_tuple m (JObj [(''args'', JObj [])]) = canon_tuple m (JObj [(''args'', JArr [])])"
  by (simp add: canon_tuple_def to_tuple_def STRIP_KEYS_def)

text \<open>Two runs that pay once: other keys and clocks, one history.\<close>

definition paid_run :: "string \<Rightarrow> int \<Rightarrow> JournalEntry list" where
  "paid_run r t =
     [\<lparr>je_seq = 1, je_kind = ''effect'', je_payload_json =
         JsonText (JObj [(''idempotency_key'', JStr (r @ ''/decision-0/pay/0'')), (''status'', JStr ''confirmed''), (''ts_ms'', JNum t)])\<rparr>,
      \<lparr>je_seq = 2, je_kind = ''run'', je_payload_json = JsonText (JObj [(''status'', JStr ''terminal'')])\<rparr>]"

lemma paid_runs_same: "list_all2 (same_entry ''r-7'' ''r-8'') (paid_run ''r-7'' t) (paid_run ''r-8'' t')"
proof -
  have "same_value ''r-7'' ''r-8'' (JStr (''r-7'' @ ''/decision-0/pay/0'')) (JStr (''r-8'' @ ''/decision-0/pay/0''))"
    by (rule same_key) simp_all
  then have "same_value ''r-7'' ''r-8'' (entry_payload (je_payload_json (paid_run ''r-7'' t ! 0))) (entry_payload (je_payload_json (paid_run ''r-8'' t' ! 0)))"
    unfolding paid_run_def entry_payload_def by (auto intro!: same_dict same_text simp: STRIP_KEYS_def)
  moreover have "same_value ''r-7'' ''r-8'' (entry_payload (je_payload_json (paid_run ''r-7'' t ! 1))) (entry_payload (je_payload_json (paid_run ''r-8'' t' ! 1)))"
    unfolding paid_run_def entry_payload_def by (auto intro!: same_dict same_text simp: STRIP_KEYS_def)
  ultimately show ?thesis by (simp add: paid_run_def same_entry_def ends_run_def entry_payload_def)
qed

lemma paid_run_wf: "\<forall>e \<in> set (paid_run r t). wf_json (entry_payload (je_payload_json e))"
  by (simp add: paid_run_def entry_payload_def)

lemma paid_run_captured: "\<exists>ls. capture_loop m (paid_run r t) = Inr ls"
  by (simp add: paid_run_def ends_run_def lower_field_def payload_get_def entry_payload_def sum_bind_def json_or_def)

theorem same_history_same_snapshot_witness:
  "\<exists>a b. capture ''r-7'' ''run-1'' (paid_run ''r-7'' 10) = Inr a \<and> capture ''r-8'' ''run-1'' (paid_run ''r-8'' 99) = Inr b \<and>
     snapshot_eq a b \<and> snapshot_diff a b = []"
proof -
  obtain a where a: "capture ''r-7'' ''run-1'' (paid_run ''r-7'' 10) = Inr a"
    using paid_run_captured [of "[(''r-7'', ''run-1'')]" "''r-7''" 10] by (auto simp: capture_def)
  show ?thesis
    using same_history_same_snapshot [OF _ _ paid_runs_same [of 10 99] paid_run_wf, of "''run-1''"] unfolding a by auto
qed

text \<open>A body that returns the id of a fresh run each time, the world counting them.\<close>

definition twice_driven :: "nat replay_deps" where
  "twice_driven = \<lparr>rb_body = (\<lambda>reg n. ((Inr (Some (if n = 0 then ''r-7'' else ''r-8'')), None), n + 1)),
     rb_journal = (\<lambda>rid n. (Inr (paid_run rid (int n)), n)), rb_show = (\<lambda>t. ''{}'')\<rparr>"

definition calm_env :: "nat chaos_env" where
  "calm_env = \<lparr>ce_random = (\<lambda>w. (1/2, w)), ce_uniform = (\<lambda>j w. (0, w)), ce_sleep = (\<lambda>t w. w)\<rparr>"

definition calm_scenario :: "'w SdkScenario" where
  "calm_scenario = \<lparr>sc_name = ''twice'', sc_faults = [], sc_invariants = [], sc_seed = 7, sc_strict_faults = True\<rparr>"

lemma calm_pass:
  "pass_body d idx reg w = (out, set_id, w1) \<Longrightarrow> replay_pass ce fmt_g calm_scenario d idx reg w = (out, reg, w1)"
  by (simp add: replay_pass_def enter_session_def apply_connector_faults_def new_session_def calm_scenario_def unaimed_def targeted_def
      tool_scoped_def target_names_def exit_session_def Let_def)

lemma twice_driven_body:
  assumes "capture_loop [(r, ''run-1'')] (paid_run r (int (Suc n))) = Inr ls" and "r = (if n = 0 then ''r-7'' else ''r-8'')"
  shows "pass_body twice_driven idx reg n = (PassSnap \<lparr>sp_run_id = r, sp_lines = ls\<rparr>, None, Suc n)"
  using assms by (auto simp: pass_body_def twice_driven_def nonempty_def capture_def)

theorem replay_verdict_exact_witness:
  "\<exists>rep w'. replay calm_env (\<lambda>p. ''p'') calm_scenario twice_driven [] 0 = (Reported rep, [], w') \<and>
     rp_bit_identical rep \<and> rp_notes rep = [] \<and> rp_diff_summary rep = []"
proof -
  let ?cap = "\<lambda>r t. capture_loop [(r, ''run-1'')] (paid_run r t)"
  obtain ls where a: "?cap ''r-7'' 1 = Inr ls" using paid_run_captured by blast
  have "?cap ''r-8'' 2 = ?cap ''r-7'' 1"
    by (rule capture_loop_same [symmetric]) (simp_all add: paid_runs_same)
  with a have b: "?cap ''r-8'' 2 = Inr ls" by simp
  have "list_all2 line_eq ls ls" by (rule capture_loop_refl [OF a paid_run_wf])
  then have eq: "snapshot_eq \<lparr>sp_run_id = ''r-7'', sp_lines = ls\<rparr> \<lparr>sp_run_id = ''r-8'', sp_lines = ls\<rparr>" by (simp add: snapshot_eq_def)
  have "replay_pass calm_env (\<lambda>p. ''p'') calm_scenario twice_driven 1 [] 0 = (PassSnap \<lparr>sp_run_id = ''r-7'', sp_lines = ls\<rparr>, [], 1)"
    using calm_pass [OF twice_driven_body [of "''r-7''" 0 ls]] a by simp
  moreover have "replay_pass calm_env (\<lambda>p. ''p'') calm_scenario twice_driven 2 [] 1 = (PassSnap \<lparr>sp_run_id = ''r-8'', sp_lines = ls\<rparr>, [], 2)"
    using calm_pass [OF twice_driven_body [of "''r-8''" 1 ls]] b by (simp add: numeral_2_eq_2)
  ultimately obtain rep where rep: "replay calm_env (\<lambda>p. ''p'') calm_scenario twice_driven [] 0 = (Reported rep, [], 2)"
    and same: "rp_bit_identical rep" by (simp add: replay_def compared_verdict eq)
  have "self_named []" by (simp add: self_named_def)
  from replay_verdict_exact [OF this rep refl] same rep show ?thesis by blast
qed

end
