(* ===== verification/SdkSinks.thy ===== *)
theory SdkSinks
  imports SdkRelay
begin

text \<open>
  The sinks the relay publishes to (\<open>sinks.py\<close>): a log file, a webhook and the AIPlex ingestion
  endpoint, which buffers.

  A request of \<open>urllib\<close> acts on the world; what \<open>urlopen\<close> does with it is a reply with a
  status code, or one of the exceptions the code tells apart. The interface \<open>durable_sink\<close> is
  what the relay relies on: an accepted entry has been delivered.
\<close>

section \<open>HTTP\<close>

datatype http_outcome =
    HttpReply int wire_text
  | HttpError int "wire_text option" py_exn
  | UrlError py_exn
  | TimedOut py_exn
  | OsError py_exn
  | OtherRaise py_exn

text \<open>A world with HTTP in it: \<open>post\<close> sends a body of type \<open>'b\<close> with headers to an address.\<close>

record ('b, 'w) http_env =
  he_request :: "string \<Rightarrow> (string \<times> string) list \<Rightarrow> 'b \<Rightarrow> 'w \<Rightarrow> http_outcome \<times> 'w"
  he_sleep :: "rat \<Rightarrow> 'w \<Rightarrow> 'w"

definition http_ok :: "int \<Rightarrow> bool" where
  "http_ok code \<longleftrightarrow> 200 \<le> code \<and> code < 300"

section \<open>Log and webhook\<close>

text \<open>The body every sink sends for an entry, and the name receivers dedupe on.\<close>

record EventBody =
  eb_run_id :: string
  eb_seq :: int
  eb_kind :: string
  eb_payload_json :: wire_text
  eb_ts_ms :: int

definition event_body :: "EventEntry \<Rightarrow> EventBody" where
  "event_body e = \<lparr>eb_run_id = ev_run_id e, eb_seq = ev_seq e, eb_kind = ev_kind e, eb_payload_json = ev_payload_json e, eb_ts_ms = ev_ts_ms e\<rparr>"

definition event_id :: "EventEntry \<Rightarrow> string" where
  "event_id e = ev_run_id e @ ''/'' @ int_str (ev_seq e)"

text \<open>\<open>LogSink.publish\<close>: writing a line may raise.\<close>

definition log_sink :: "(EventBody \<Rightarrow> 'w \<Rightarrow> (py_exn + unit) \<times> 'w) \<Rightarrow> 'w sink" where
  "log_sink write_line e w = (case write_line (event_body e) w of (Inl ex, w') \<Rightarrow> (Inl (NotGrpc ex), w') | (Inr u, w') \<Rightarrow> (Inr (), w'))"

record WebhookSink =
  wh_url :: string
  wh_headers :: "(string \<times> string) list"
  wh_max_retries :: int
  wh_initial_backoff_s :: rat

definition webhook_headers :: "WebhookSink \<Rightarrow> EventEntry \<Rightarrow> (string \<times> string) list" where
  "webhook_headers s e = fold (\<lambda>(k, v). AList.update k v) (wh_headers s) [(''Content-Type'', ''application/json''), (''X-Tape-Event-Id'', event_id e)]"

text \<open>
  The retry loop of a sink, with the attempts left, the next delay and the last error. A
  reply that is not accepted and an exception the sink expects are remembered; \<open>permanent\<close>
  exceptions and unexpected ones are raised.
\<close>

definition outcome_error :: "(int \<Rightarrow> py_exn) \<Rightarrow> (int \<Rightarrow> bool) \<Rightarrow> http_outcome \<Rightarrow> py_exn + py_exn option" where
  "outcome_error refused permanent out = (case out of
     HttpReply code body \<Rightarrow> if http_ok code then Inr None else Inr (Some (refused code))
   | HttpError code body ex \<Rightarrow> if permanent code then Inl ex else Inr (Some ex)
   | UrlError ex \<Rightarrow> Inr (Some ex)
   | TimedOut ex \<Rightarrow> Inr (Some ex)
   | OsError ex \<Rightarrow> Inl ex
   | OtherRaise ex \<Rightarrow> Inl ex)"

fun post_loop ::
    "('b, 'w) http_env \<Rightarrow> (int \<Rightarrow> py_exn) \<Rightarrow> (int \<Rightarrow> bool) \<Rightarrow> string \<Rightarrow> (string \<times> string) list \<Rightarrow> 'b \<Rightarrow>
     nat \<Rightarrow> rat \<Rightarrow> py_exn option \<Rightarrow> 'w \<Rightarrow> (py_exn + unit) \<times> 'w" where
  "post_loop env refused permanent url hdr body 0 pause last_err w =
     ((case last_err of None \<Rightarrow> Inr () | Some ex \<Rightarrow> Inl ex), w)"
| "post_loop env refused permanent url hdr body (Suc n) pause last_err w =
     (case he_request env url hdr body w of (out, w1) \<Rightarrow>
        (case outcome_error refused permanent out of
           Inl ex \<Rightarrow> (Inl ex, w1)
         | Inr None \<Rightarrow> (Inr (), w1)
         | Inr (Some ex) \<Rightarrow> post_loop env refused permanent url hdr body n (2 * pause) (Some ex) (he_sleep env pause w1)))"

definition refused_by :: "string \<Rightarrow> string \<Rightarrow> int \<Rightarrow> py_exn" where
  "refused_by what url code = PyExn ''RuntimeError'' (what @ url @ '' returned HTTP '' @ int_str code)"

definition as_sink_result :: "(py_exn + unit) \<times> 'w \<Rightarrow> (grpc_exn + unit) \<times> 'w" where
  "as_sink_result rw = (case rw of (Inl ex, w) \<Rightarrow> (Inl (NotGrpc ex), w) | (Inr u, w) \<Rightarrow> (Inr (), w))"

definition webhook_sink :: "(EventBody, 'w) http_env \<Rightarrow> WebhookSink \<Rightarrow> 'w sink" where
  "webhook_sink env s e w = as_sink_result
     (post_loop env (refused_by ''webhook '' (wh_url s)) (\<lambda>code. False) (wh_url s) (webhook_headers s e) (event_body e)
        (nat (wh_max_retries s)) (wh_initial_backoff_s s) None w)"

text \<open>
  \<open>PubSubSink.publish\<close>: topic, body, ordering key and the other keyword arguments of the client's
  \<open>publish\<close>, with the wait for its future. \<open>FnSink\<close> calls its function.
\<close>

definition pubsub_sink ::
    "(string \<Rightarrow> EventBody \<Rightarrow> string \<Rightarrow> (string \<times> json) list \<Rightarrow> 'w \<Rightarrow> (py_exn + unit) \<times> 'w) \<Rightarrow> string \<Rightarrow> 'w sink" where
  "pubsub_sink publish topic e w = as_sink_result (publish topic (event_body e) (ev_run_id e)
     [(''attributes'', JObj [(''tape-event-id'', JStr (event_id e)), (''kind'', JStr (ev_kind e))])] w)"

definition fn_sink :: "(EventEntry \<Rightarrow> 'w \<Rightarrow> (py_exn + unit) \<times> 'w) \<Rightarrow> 'w sink" where
  "fn_sink fn e w = as_sink_result (fn e w)"

section \<open>Events of AIPlex\<close>

definition AIPLEX_KIND_RULES :: "(string \<times> (string \<times> string) option \<times> string) list" where
  "AIPLEX_KIND_RULES = [
     (''run'', Some (''status'', ''running''), ''run.started''),
     (''run'', Some (''status'', ''terminal''), ''run.completed''),
     (''run'', Some (''status'', ''failed''), ''run.failed''),
     (''run'', Some (''status'', ''stuck''), ''run.failed''),
     (''run'', Some (''status'', ''cancelled''), ''run.failed''),
     (''run'', Some (''status'', ''compensating''), ''obligation.created''),
     (''decision'', None, ''decision.recorded''),
     (''effect'', Some (''status'', ''pending''), ''effect.begin''),
     (''effect'', Some (''status'', ''confirmed''), ''effect.confirmed''),
     (''effect'', Some (''status'', ''failed''), ''effect.failed''),
     (''effect'', Some (''status'', ''unknown''), ''effect.unknown''),
     (''effect'', Some (''status'', ''duplicate''), ''effect.duplicate''),
     (''obligation'', None, ''obligation.created''),
     (''gate'', None, ''gate.waiting''),
     (''policy'', None, ''policy.violation''),
     (''budget'', None, ''budget.charged''),
     (''timer'', None, ''timer.scheduled'')]"

fun map_kind_rules :: "(string \<times> (string \<times> string) option \<times> string) list \<Rightarrow> string \<Rightarrow> json \<Rightarrow> py_exn + string" where
  "map_kind_rules [] tape_kind payload = Inr tape_kind"
| "map_kind_rules ((k, predicate, aiplex_kind) # rules) tape_kind payload =
     (if tape_kind \<noteq> k then map_kind_rules rules tape_kind payload
      else (case predicate of
              None \<Rightarrow> Inr aiplex_kind
            | Some (key, want) \<Rightarrow>
                (case payload_get payload key (JStr []) of
                   Inl ex \<Rightarrow> Inl ex
                 | Inr v \<Rightarrow> if ascii_lower (py_str v) = want then Inr aiplex_kind else map_kind_rules rules tape_kind payload)))"

definition map_kind :: "string \<Rightarrow> json \<Rightarrow> py_exn + string" where
  "map_kind = map_kind_rules AIPLEX_KIND_RULES"

text \<open>
  \<open>time.strftime("%Y-%m-%dT%H:%M:%SZ", time.gmtime(s))\<close>: the civil date of a day counted from
  1970-01-01, by eras of 400 years that begin in March.
\<close>

definition civil_date :: "int \<Rightarrow> int \<times> int \<times> int" where
  "civil_date days =
     (let z = days + 719468; era = z div 146097; doe = z mod 146097;
          yoe = (doe - doe div 1460 + doe div 36524 - doe div 146096) div 365;
          doy = doe - (365 * yoe + yoe div 4 - yoe div 100);
          mp = (5 * doy + 2) div 153; d = doy - (153 * mp + 2) div 5 + 1;
          m = (if mp < 10 then mp + 3 else mp - 9)
      in (yoe + era * 400 + (if m \<le> 2 then 1 else 0), m, d))"

definition two_digits :: "int \<Rightarrow> string" where
  "two_digits n = (if 0 \<le> n \<and> n < 10 then ''0'' @ int_str n else int_str n)"

definition iso_utc :: "int \<Rightarrow> string" where
  "iso_utc s = (case civil_date (s div 86400) of (y, m, d) \<Rightarrow>
     let r = s mod 86400
     in int_str y @ ''-'' @ two_digits m @ ''-'' @ two_digits d @ ''T'' @
        two_digits (r div 3600) @ '':'' @ two_digits (r div 60 mod 60) @ '':'' @ two_digits (r mod 60) @ ''Z'')"

record ExecutionEvent =
  xe_run_id :: string
  xe_seq :: int
  xe_tenant_id :: string
  xe_agent_id :: string
  xe_plane :: string
  xe_actor :: string
  xe_subject :: string
  xe_aiplex_instance_id :: string
  xe_kind :: string
  xe_scope :: string
  xe_tool :: string
  xe_timestamp :: string
  xe_payload_json :: wire_text

record AIPlexSink =
  ax_url :: string
  ax_token :: string
  ax_tenant_id :: string
  ax_agent_id :: string
  ax_plane :: string
  ax_actor :: string
  ax_subject :: string
  ax_aiplex_instance_id :: string
  ax_batch_size :: int
  ax_flush_interval_s :: rat
  ax_max_retries :: int
  ax_initial_backoff_s :: rat
  ax_timeout_s :: rat

text \<open>\<open>route.strip("/")\<close>, \<open>url.rstrip("/")\<close>\<close>

definition rstrip_slash :: "string \<Rightarrow> string" where
  "rstrip_slash s = rev (dropWhile (\<lambda>c. c = CHR ''/'') (rev s))"

definition infer_plane :: "string \<Rightarrow> string" where
  "infer_plane route = (case filter (\<lambda>p. p \<noteq> []) (split_on (CHR ''/'') (rstrip_slash (dropWhile (\<lambda>c. c = CHR ''/'') route))) of
     [] \<Rightarrow> []
   | p # ps \<Rightarrow> let head = ascii_lower p in
       if head = ''a2a'' then ''a2aplex'' else if head = ''mcp'' then ''mcplex'' else if head = ''llm'' then ''llmplex'' else head)"

definition ends_with :: "string \<Rightarrow> string \<Rightarrow> bool" where
  "ends_with suffix s \<longleftrightarrow> length suffix \<le> length s \<and> drop (length s - length suffix) s = suffix"

definition INGEST_PATH :: string where
  "INGEST_PATH = ''/internal/tape/events''"

text \<open>\<open>AIPlexSink(...)\<close>: \<open>a\<close> holds the arguments, the environment fills the empty ones.\<close>

definition aiplex_sink :: "(string \<rightharpoonup> string) \<Rightarrow> AIPlexSink \<Rightarrow> tape_error + AIPlexSink" where
  "aiplex_sink e a =
     (let url = rstrip_slash (str_or (ax_url a) (env_get e ''AIPLEX_INGEST_URL'')) in
      if url = [] then Inl (ValueError ''AIPlexSink requires url= or AIPLEX_INGEST_URL env (e.g. https://aiplex.example.com)'')
      else Inr \<lparr>ax_url = (if ends_with INGEST_PATH url then url else url @ INGEST_PATH),
        ax_token = str_or (ax_token a) (env_get e ''AIPLEX_INGEST_TOKEN''),
        ax_tenant_id = str_or (ax_tenant_id a) (env_get e ''AIPLEX_TENANT_ID''),
        ax_agent_id = str_or (ax_agent_id a) (env_get e ''AIPLEX_AGENT_ID''),
        ax_plane = str_or (ax_plane a) (infer_plane (env_get e ''AIPLEX_ROUTE'')),
        ax_actor = str_or (ax_actor a) (env_get e ''AIPLEX_ACTOR''),
        ax_subject = str_or (ax_subject a) (env_get e ''AIPLEX_SUBJECT''),
        ax_aiplex_instance_id = str_or (ax_aiplex_instance_id a) (env_get e ''AIPLEX_INSTANCE_ID''),
        ax_batch_size = max 1 (ax_batch_size a), ax_flush_interval_s = max (1 / 20) (ax_flush_interval_s a),
        ax_max_retries = max 1 (ax_max_retries a), ax_initial_backoff_s = max (1 / 20) (ax_initial_backoff_s a),
        ax_timeout_s = max 1 (ax_timeout_s a)\<rparr>)"

text \<open>\<open>_to_execution_event\<close>; \<open>now_s\<close> is the reading of the clock for an entry without a time.\<close>

definition raw_payload :: "wire_text \<Rightarrow> json" where
  "raw_payload raw = (case raw of JsonText v \<Rightarrow> v | PlainText s \<Rightarrow> JObj [])"

definition to_execution_event :: "AIPlexSink \<Rightarrow> int \<Rightarrow> EventEntry \<Rightarrow> py_exn + ExecutionEvent" where
  "to_execution_event s now_s e =
     (let payload = raw_payload (ev_payload_json e) in
      case map_kind (ev_kind e) payload of
        Inl ex \<Rightarrow> Inl ex
      | Inr kind \<Rightarrow>
          (case payload_get payload ''required_scope'' (JStr []) of
             Inl ex \<Rightarrow> Inl ex
           | Inr required \<Rightarrow>
          (case payload_get payload ''scope'' required of
             Inl ex \<Rightarrow> Inl ex
           | Inr scope \<Rightarrow>
          (case payload_get payload ''tool'' (JStr []) of
             Inl ex \<Rightarrow> Inl ex
           | Inr tool \<Rightarrow>
               Inr \<lparr>xe_run_id = ev_run_id e, xe_seq = ev_seq e, xe_tenant_id = ax_tenant_id s, xe_agent_id = ax_agent_id s,
                 xe_plane = ax_plane s, xe_actor = ax_actor s, xe_subject = ax_subject s,
                 xe_aiplex_instance_id = ax_aiplex_instance_id s, xe_kind = kind,
                 xe_scope = py_str (json_or scope (JStr [])), xe_tool = py_str (json_or tool (JStr [])),
                 xe_timestamp = iso_utc (if ev_ts_ms e > 0 then ev_ts_ms e div 1000 else now_s),
                 xe_payload_json = ev_payload_json e\<rparr>))))"

section \<open>The buffer of the AIPlex sink\<close>

record aiplex_state =
  ab_buf :: "ExecutionEvent list"
  ab_last_flush :: rat
  ab_closed :: bool

text \<open>The clocks a sink reads: \<open>time.monotonic()\<close> and the wall clock in seconds.\<close>

record 'w sink_clock =
  sc_monotonic :: "'w \<Rightarrow> rat \<times> 'w"
  sc_wall :: "'w \<Rightarrow> int \<times> 'w"

definition permanent_refusal :: "int \<Rightarrow> bool" where
  "permanent_refusal code \<longleftrightarrow> 400 \<le> code \<and> code < 500 \<and> code \<noteq> 408 \<and> code \<noteq> 429"

definition ingest_headers :: "AIPlexSink \<Rightarrow> (string \<times> string) list" where
  "ingest_headers s = (''Content-Type'', ''application/json'') # (if ax_token s \<noteq> [] then [(''Authorization'', ''Bearer '' @ ax_token s)] else [])"

definition aiplex_flush ::
    "(ExecutionEvent list, 'w) http_env \<Rightarrow> 'w sink_clock \<Rightarrow> AIPlexSink \<Rightarrow> 'w \<times> aiplex_state \<Rightarrow> (py_exn + unit) \<times> 'w \<times> aiplex_state" where
  "aiplex_flush env ck s wb = (case wb of (w, b) \<Rightarrow>
     (case sc_monotonic ck w of (t, w1) \<Rightarrow>
        (let b1 = b\<lparr>ab_buf := [], ab_last_flush := t\<rparr> in
         if ab_buf b = [] then (Inr (), w1, b1)
         else (case post_loop env (refused_by ''AIPlex ingest '' (ax_url s)) permanent_refusal (ax_url s) (ingest_headers s) (ab_buf b)
                      (nat (ax_max_retries s)) (ax_initial_backoff_s s) None w1 of
                 (r, w2) \<Rightarrow> (r, w2, b1)))))"

definition aiplex_publish ::
    "(ExecutionEvent list, 'w) http_env \<Rightarrow> 'w sink_clock \<Rightarrow> AIPlexSink \<Rightarrow> ('w \<times> aiplex_state) sink" where
  "aiplex_publish env ck s e wb = (case wb of (w, b) \<Rightarrow>
     if ab_closed b then (Inr (), w, b)
     else (case (if ev_ts_ms e > 0 then (0, w) else sc_wall ck w) of (now_s, w1) \<Rightarrow>
       (case to_execution_event s now_s e of
          Inl ex \<Rightarrow> (Inl (NotGrpc ex), w1, b)
        | Inr ev \<Rightarrow>
            (let b1 = b\<lparr>ab_buf := ab_buf b @ [ev]\<rparr> in
             if int (length (ab_buf b1)) \<ge> ax_batch_size s then as_sink_result (aiplex_flush env ck s (w1, b1))
             else (case sc_monotonic ck w1 of (t, w2) \<Rightarrow>
                     if t - ab_last_flush b1 \<ge> ax_flush_interval_s s then as_sink_result (aiplex_flush env ck s (w2, b1))
                     else (Inr (), w2, b1))))))"

definition aiplex_close ::
    "(ExecutionEvent list, 'w) http_env \<Rightarrow> 'w sink_clock \<Rightarrow> AIPlexSink \<Rightarrow> 'w \<times> aiplex_state \<Rightarrow> (py_exn + unit) \<times> 'w \<times> aiplex_state" where
  "aiplex_close env ck s wb = (case aiplex_flush env ck s wb of (r, w1, b1) \<Rightarrow> (r, w1, b1\<lparr>ab_closed := True\<rparr>))"

section \<open>What the relay relies on\<close>

text \<open>
  A durable sink: what it accepts has been delivered, and nothing that was delivered is taken
  back. Behind such a sink the cursor of the relay never passes an undelivered entry.
\<close>

locale durable_sink =
  fixes sink :: "'w sink" and delivered :: "'w \<Rightarrow> EventEntry \<Rightarrow> bool"
  assumes accepts: "sink e w = (Inr (), w') \<Longrightarrow> delivered w' e"
    and keeps: "sink e w = (r, w') \<Longrightarrow> delivered w x \<Longrightarrow> delivered w' x"
begin

lemma watched_step:
  assumes "watch_sink sink e (w, l) = (r, w', l')" and "list_all (delivered w) l"
  shows "list_all (delivered w') l'"
proof (cases "sink e w")
  case (Pair q w1)
  have old: "list_all (delivered w1) l" using assms(2) keeps [OF Pair] by (auto simp: list_all_iff)
  show ?thesis
  proof (cases q)
    case (Inl ex)
    then show ?thesis using assms(1) Pair old by (auto simp: watch_sink_def)
  next
    case (Inr u)
    then show ?thesis using assms(1) Pair old accepts [of e w w1] by (auto simp: watch_sink_def)
  qed
qed

lemma loop_delivers:
  "relay_loop (watch_sink sink) run_id kind batch ending es c n (w, l) = (fin, c', n', w', l') \<Longrightarrow>
   list_all (delivered w) l \<Longrightarrow> list_all (delivered w') l'"
proof (induction es arbitrary: c n w l)
  case Nil
  then show ?case by simp
next
  case (Cons e es)
  show ?case
  proof (cases "ev_global_seq e \<le> c \<or> \<not> wanted run_id kind e")
    case True
    with Cons show ?thesis by simp
  next
    case False
    obtain r w1 l1 where step: "watch_sink sink e (w, l) = (r, w1, l1)" by (metis surj_pair)
    have "list_all (delivered w1) l1" using watched_step [OF step Cons.prems(2)] .
    with False step Cons show ?thesis by (cases r) (auto split: if_splits)
  qed
qed

lemma tick_delivers:
  assumes sub: "\<And>pat cel c w r w'. subscribe pat cel c w = (r, w') \<Longrightarrow> delivered w' = delivered w"
    and tick: "outbox_relay_tick (\<lambda>pat cel c. unlogged (subscribe pat cel c)) (watch_sink sink) path run_id kind pat cel batch f (w, l) = (res, f', w', l')"
    and "list_all (delivered w) l"
  shows "list_all (delivered w') l'"
proof (cases "read_cursor path f")
  case (Pair q f1)
  show ?thesis
  proof (cases q)
    case (Inl ex)
    with Pair tick assms(3) show ?thesis by (simp add: outbox_relay_tick_def)
  next
    case (Inr c)
    obtain rs w1 where s: "subscribe (str_or pat ''/tape/**'') cel c w = (rs, w1)" by fastforce
    have d1: "list_all (delivered w1) l" using assms(3) sub [OF s] by simp
    show ?thesis
    proof (cases rs)
      case (Inl ex)
      with Pair Inr s tick d1 show ?thesis by (auto simp: outbox_relay_tick_def unlogged_run)
    next
      case (Inr stream)
      obtain fin c' n' w2 l2 where run: "relay_loop (watch_sink sink) run_id kind batch (es_end stream) (es_entries stream) c 0 (w1, l) =
          (fin, c', n', w2, l2)" by (metis surj_pair)
      have "w' = w2" "l' = l2"
        using Pair \<open>q = Inr c\<close> s Inr tick run by (auto simp: outbox_relay_tick_def unlogged_run split: if_splits)
      with loop_delivers [OF run d1] show ?thesis by simp
    qed
  qed
qed

end

text \<open>A sink that posts: the retry loop succeeds only on a reply that accepts.\<close>

lemma post_loop_accepted:
  assumes "post_loop env refused permanent url hdr body n pause le w = (Inr (), w')" and "0 < n \<or> le \<noteq> None"
  shows "\<exists>w1 code reply. he_request env url hdr body w1 = (HttpReply code reply, w') \<and> http_ok code"
  using assms
proof (induction n arbitrary: pause le w)
  case 0
  then show ?case by (auto split: option.splits)
next
  case (Suc n)
  obtain out w1 where o: "he_request env url hdr body w = (out, w1)" by fastforce
  show ?case
  proof (cases "outcome_error refused permanent out")
    case (Inl ex)
    with Suc.prems(1) o show ?thesis by simp
  next
    case (Inr e)
    show ?thesis
    proof (cases e)
      case None
      with Suc.prems(1) o Inr show ?thesis by (auto simp: outcome_error_def split: http_outcome.splits if_splits)
    next
      case (Some ex)
      then show ?thesis using Suc.IH [of "2 * pause" "Some ex" "he_sleep env pause w1"] Suc.prems(1) o Inr by simp
    qed
  qed
qed

text \<open>An HTTP world with the list of the requests that were accepted.\<close>

type_synonym 'b request = "string \<times> (string \<times> string) list \<times> 'b"

definition accepting :: "http_outcome \<Rightarrow> bool" where
  "accepting out = (case out of HttpReply code body \<Rightarrow> http_ok code | _ \<Rightarrow> False)"

definition watch_http :: "('b, 'w) http_env \<Rightarrow> ('b, 'w \<times> 'b request list) http_env" where
  "watch_http env = \<lparr>
     he_request = (\<lambda>url hdr body wl. case wl of (w, l) \<Rightarrow>
       (case he_request env url hdr body w of (out, w') \<Rightarrow> (out, w', if accepting out then l @ [(url, hdr, body)] else l))),
     he_sleep = (\<lambda>t wl. (he_sleep env t (fst wl), snd wl))\<rparr>"

definition webhook_request :: "WebhookSink \<Rightarrow> EventEntry \<Rightarrow> EventBody request" where
  "webhook_request s e = (wh_url s, webhook_headers s e, event_body e)"

definition webhook_delivered :: "WebhookSink \<Rightarrow> 'w \<times> EventBody request list \<Rightarrow> EventEntry \<Rightarrow> bool" where
  "webhook_delivered s wl e \<longleftrightarrow> webhook_request s e \<in> set (snd wl)"

lemma request_keeps: "he_request (watch_http env) url hdr body wl = (out, wl') \<Longrightarrow> x \<in> set (snd wl) \<Longrightarrow> x \<in> set (snd wl')"
  by (auto simp: watch_http_def split: prod.splits if_splits)

lemma request_accepted: "he_request (watch_http env) url hdr body wl = (HttpReply code reply, wl') \<Longrightarrow> http_ok code \<Longrightarrow>
    (url, hdr, body) \<in> set (snd wl')"
  by (auto simp: watch_http_def accepting_def split: prod.splits if_splits)

lemma post_loop_keeps:
  "post_loop (watch_http env) refused permanent url hdr body n pause le wl = (r, wl') \<Longrightarrow> x \<in> set (snd wl) \<Longrightarrow> x \<in> set (snd wl')"
proof (induction n arbitrary: pause le wl)
  case (Suc n)
  obtain out w1 where o: "he_request (watch_http env) url hdr body wl = (out, w1)" by (metis surj_pair)
  have x: "x \<in> set (snd w1)" using request_keeps [OF o Suc.prems(2)] .
  then have "x \<in> set (snd (he_sleep (watch_http env) pause w1))" by (simp add: watch_http_def)
  with x Suc.prems(1) o Suc.IH show ?case by (auto split: sum.splits option.splits)
qed simp

lemma webhook_run:
  assumes "webhook_sink env s e w = (r, w')"
  shows "\<exists>q. post_loop env (refused_by ''webhook '' (wh_url s)) (\<lambda>code. False) (wh_url s) (webhook_headers s e) (event_body e)
      (nat (wh_max_retries s)) (wh_initial_backoff_s s) None w = (q, w') \<and> (r = Inr () \<longrightarrow> q = Inr ())"
  using assms by (auto simp: webhook_sink_def as_sink_result_def split: prod.splits sum.splits)

lemma webhook_durable:
  assumes "0 < wh_max_retries s"
  shows "durable_sink (webhook_sink (watch_http env) s) (webhook_delivered s)"
proof unfold_locales
  fix e w w'
  assume "webhook_sink (watch_http env) s e w = (Inr (), w')"
  then have "post_loop (watch_http env) (refused_by ''webhook '' (wh_url s)) (\<lambda>code. False) (wh_url s) (webhook_headers s e) (event_body e)
      (nat (wh_max_retries s)) (wh_initial_backoff_s s) None w = (Inr (), w')"
    using webhook_run [of "watch_http env" s e w "Inr ()" w'] by blast
  from post_loop_accepted [OF this] assms show "webhook_delivered s w' e"
    by (auto simp: webhook_delivered_def webhook_request_def dest: request_accepted)
next
  fix e w r w' x
  assume sink: "webhook_sink (watch_http env) s e w = (r, w')" and x: "webhook_delivered s w x"
  from webhook_run [OF sink] obtain q where "post_loop (watch_http env) (refused_by ''webhook '' (wh_url s)) (\<lambda>code. False) (wh_url s) (webhook_headers s e)
      (event_body e) (nat (wh_max_retries s)) (wh_initial_backoff_s s) None w = (q, w')"
    by blast
  from post_loop_keeps [OF this] x show "webhook_delivered s w' x" by (simp add: webhook_delivered_def)
qed

definition retrying :: "nat \<Rightarrow> WebhookSink \<Rightarrow> WebhookSink" where
  "retrying n s = s\<lparr>wh_max_retries := 1 + int n\<rparr>"

lemma retrying_positive: "0 < wh_max_retries s \<Longrightarrow> retrying (nat (wh_max_retries s - 1)) s = s"
  by (simp add: retrying_def)

interpretation webhook: durable_sink "webhook_sink (watch_http env) (retrying n s)" "webhook_delivered (retrying n s)"
  by (rule webhook_durable) (simp add: retrying_def)

definition watch_lines :: "(EventBody \<Rightarrow> 'w \<Rightarrow> (py_exn + unit) \<times> 'w) \<Rightarrow> EventBody \<Rightarrow> 'w \<times> EventBody list \<Rightarrow> (py_exn + unit) \<times> 'w \<times> EventBody list" where
  "watch_lines write_line b wl = (case wl of (w, l) \<Rightarrow>
     (case write_line b w of (Inl ex, w') \<Rightarrow> (Inl ex, w', l) | (Inr u, w') \<Rightarrow> (Inr (), w', l @ [b])))"

definition logged_line :: "'w \<times> EventBody list \<Rightarrow> EventEntry \<Rightarrow> bool" where
  "logged_line wl e \<longleftrightarrow> event_body e \<in> set (snd wl)"

interpretation logfile: durable_sink "log_sink (watch_lines write_line)" logged_line
  by unfold_locales (auto simp: log_sink_def watch_lines_def logged_line_def split: prod.splits sum.splits)

text \<open>The relay with one sink, over time. The subscription acts on the world beside the accepted requests.\<close>

inductive relay_with ::
    "('w \<times> 'a list) sink \<Rightarrow> (EventEntry \<Rightarrow> bool) \<Rightarrow> string \<Rightarrow> string \<Rightarrow> string \<Rightarrow> EventEntry list \<Rightarrow> cursor_file \<Rightarrow>
     'w \<times> 'a list \<Rightarrow> EventEntry list \<Rightarrow> bool"
  for sink :: "('w \<times> 'a list) sink" and subj :: "EventEntry \<Rightarrow> bool" and path run_id kind :: string where
  start: "fst (read_cursor path f) = Inr 0 \<Longrightarrow> relay_with sink subj path run_id kind [] f (w, []) []"
| append: "relay_with sink subj path run_id kind J f w pub \<Longrightarrow> ascending (J @ [e]) \<Longrightarrow> 0 < ev_global_seq e \<Longrightarrow>
    relay_with sink subj path run_id kind (J @ [e]) f w pub"
| tick: "relay_with sink subj path run_id kind J f w pub \<Longrightarrow> streams_journal J subj subscribe \<Longrightarrow>
    outbox_relay_tick (\<lambda>pat cel c. unlogged (unlogged (subscribe pat cel c))) (watch_sink sink) path run_id kind pat cel batch f (w, pub) =
      (r, f', w', pub') \<Longrightarrow>
    relay_with sink subj path run_id kind J f' w' pub'"

lemma streams_unlogged: "streams_journal J subj subscribe \<Longrightarrow> streams_journal J subj (\<lambda>pat cel c. unlogged (subscribe pat cel c))"
  unfolding streams_journal_def unlogged_def by (fastforce split: prod.splits)

lemma relay_with_reach: "relay_with sink subj path run_id kind J f w pub \<Longrightarrow> relay_reach subj path run_id kind J f w pub"
  by (induction rule: relay_with.induct) (auto intro: relay_reach.intros streams_unlogged)

lemma relay_with_delivered:
  assumes "durable_sink sink delivered" and "\<And>w w' l. delivered (w', l) = delivered (w, l)"
  shows "relay_with sink subj path run_id kind J f w pub \<Longrightarrow> list_all (delivered w) pub"
proof (induction rule: relay_with.induct)
  case (tick J f w pub subscribe pat cel batch r f' w' pub')
  have "delivered w1 = delivered w0" if "unlogged (subscribe p q c) w0 = (r, w1)" for p q c w0 r w1
    using that assms(2) by (cases w0) (auto simp: unlogged_run)
  from durable_sink.tick_delivers [OF assms(1) this tick.hyps(3) tick.IH] show ?case .
qed simp_all

section \<open>Properties\<close>

text \<open>
  C17. The relay with a webhook delivers at least once: at every moment, whatever requests
  failed and however often ticks were broken off, each matching journal entry up to the
  durable cursor has been answered with a 2xx by the webhook, in a request that carries the
  entry and its event id. It needs one attempt per entry (\<open>max_retries\<close> positive) and a server that
  streams the journal in order.
\<close>

theorem webhook_at_least_once:
  assumes "relay_with (webhook_sink (watch_http env) s) subj path run_id kind J f w pub" and "path \<noteq> []" and "0 < wh_max_retries s"
  shows "\<exists>c. fst (read_cursor path f) = Inr c \<and>
    (\<forall>e \<in> set J. subj e \<and> wanted run_id kind e \<and> ev_global_seq e \<le> c \<longrightarrow> webhook_request s e \<in> set (snd w))"
proof -
  obtain c where c: "fst (read_cursor path f) = Inr c" and rel: "relayed subj run_id kind J c pub"
    using relay_reach_relayed [OF relay_with_reach [OF assms(1)] assms(2)] by blast
  have ind: "webhook_delivered s (v', l) = webhook_delivered s (v, l)" for v v' l by (rule ext) (simp add: webhook_delivered_def)
  have "durable_sink (webhook_sink (watch_http env) s) (webhook_delivered s)"
    using webhook.durable_sink_axioms [of env "nat (wh_max_retries s - 1)" s] retrying_positive [OF assms(3)] by simp
  from relay_with_delivered [OF this ind assms(1)]
  have "list_all (webhook_delivered s w) pub" .
  with c relayed_kept [OF rel] show ?thesis unfolding webhook_delivered_def list_all_iff by blast
qed

text \<open>A webhook that answers the first request with 503 and the next with 200, and one journal entry.\<close>

definition flaky_env :: "('b, nat) http_env" where
  "flaky_env = \<lparr>he_request = (\<lambda>url hdr body n. (HttpReply (if n = 0 then 503 else 200) (PlainText []), Suc n)), he_sleep = (\<lambda>t n. n)\<rparr>"

definition sample_hook :: WebhookSink where
  "sample_hook = \<lparr>wh_url = ''https://h'', wh_headers = [], wh_max_retries = 3, wh_initial_backoff_s = 1 / 2\<rparr>"

lemma hook_tick:
  "outbox_relay_tick (\<lambda>pat cel c. unlogged (unlogged (one_stream pat cel c))) (watch_sink (webhook_sink (watch_http flaky_env) sample_hook))
     ''c'' [] [] [] [] 512 NoFile ((0, []), []) =
   (Inr 1, JsonFile (JObj [(''last_global_seq'', JNum 1)]), (2, [webhook_request sample_hook one_entry]), [one_entry])"
  by code_simp

theorem webhook_at_least_once_witness:
  "\<exists>c. fst (read_cursor ''c'' (JsonFile (JObj [(''last_global_seq'', JNum 1)]))) = Inr c \<and>
     (\<forall>e \<in> set [one_entry]. True \<and> wanted [] [] e \<and> ev_global_seq e \<le> c \<longrightarrow>
        webhook_request sample_hook e \<in> set (snd (2 :: nat, [webhook_request sample_hook one_entry])))"
proof -
  let ?sink = "webhook_sink (watch_http flaky_env) sample_hook"
  have "relay_with ?sink (\<lambda>e. True) ''c'' [] [] [] NoFile (0, []) []" by (rule relay_with.start) (simp add: read_cursor_def)
  then have "relay_with ?sink (\<lambda>e. True) ''c'' [] [] ([] @ [one_entry]) NoFile (0, []) []"
    by (rule relay_with.append) (simp_all add: ascending_def one_entry_def)
  then have j: "relay_with ?sink (\<lambda>e. True) ''c'' [] [] [one_entry] NoFile (0, []) []" by simp
  have "streams_journal [one_entry] (\<lambda>e. True) (one_stream :: string \<Rightarrow> string \<Rightarrow> int \<Rightarrow> nat \<Rightarrow> _)"
    unfolding streams_journal_def one_stream_def by (auto intro: exI [of _ 1])
  from relay_with.tick [OF j this hook_tick]
  show ?thesis by (rule webhook_at_least_once) (simp_all add: sample_hook_def)
qed

section \<open>Where a sink loses events\<close>

text \<open>A webhook with no attempts accepts every entry and sends none.\<close>

lemma webhook_without_attempts:
  "wh_max_retries s \<le> 0 \<Longrightarrow> webhook_sink env s e w = (Inr (), w)"
  by (simp add: webhook_sink_def as_sink_result_def)

text \<open>
  A flush empties the buffer before it sends. When the request fails the batch is gone, and so
  are the entries of earlier ticks in it, over which the relay has already moved its cursor.
\<close>

lemma failed_flush_drops_batch:
  assumes "aiplex_flush env ck s (w, b) = (Inl ex, w', b')"
  shows "ab_buf b' = []"
  using assms by (auto simp: aiplex_flush_def Let_def split: prod.splits if_splits)

definition sample_aiplex :: AIPlexSink where
  "sample_aiplex = \<lparr>ax_url = ''https://a/internal/tape/events'', ax_token = [], ax_tenant_id = ''t'', ax_agent_id = ''g'',
     ax_plane = [], ax_actor = ''x'', ax_subject = [], ax_aiplex_instance_id = [], ax_batch_size = 2, ax_flush_interval_s = 60,
     ax_max_retries = 1, ax_initial_backoff_s = 1, ax_timeout_s = 10\<rparr>"

text \<open>The world counts requests and keeps the sequence numbers of the accepted batches.\<close>

definition ingest_env :: "(ExecutionEvent list, nat \<times> int list list) http_env" where
  "ingest_env = \<lparr>he_request = (\<lambda>url hdr body w. if fst w = 0 then (UrlError (PyExn ''URLError'' ''refused''), 1, snd w)
       else (HttpReply 200 (PlainText []), Suc (fst w), snd w @ [map xe_seq body])), he_sleep = (\<lambda>t w. w)\<rparr>"

definition still_clock :: "'w sink_clock" where
  "still_clock = \<lparr>sc_monotonic = (\<lambda>w. (0, w)), sc_wall = (\<lambda>w. (0, w))\<rparr>"

definition second_entry :: EventEntry where
  "second_entry = one_entry\<lparr>ev_global_seq := 2, ev_seq := 2\<rparr>"

definition journal_stream :: "EventEntry list \<Rightarrow> string \<Rightarrow> string \<Rightarrow> int \<Rightarrow> 'w \<Rightarrow> (grpc_exn + event_stream) \<times> 'w" where
  "journal_stream J pat cel c w = (Inr \<lparr>es_entries = filter (\<lambda>e. c \<le> ev_global_seq e) J, es_end = None\<rparr>, w)"

lemma aiplex_relay_loses_event:
  "let tick = (\<lambda>J (f, wb). snd (outbox_relay_tick (journal_stream J) (aiplex_publish ingest_env still_clock sample_aiplex) ''c'' [] [] [] [] 512 f wb));
       s1 = tick [one_entry] (NoFile, (0, []), \<lparr>ab_buf = [], ab_last_flush = 0, ab_closed = False\<rparr>);
       s2 = tick [one_entry, second_entry] s1;
       (f3, wb3) = tick [one_entry, second_entry] s2;
       (r, (n, batches), b) = aiplex_close ingest_env still_clock sample_aiplex wb3
   in fst (read_cursor ''c'' f3) = Inr 2 \<and> r = Inr () \<and> batches = [[2]]"
  by code_simp

text \<open>What a flush does promise: if it returns, the whole buffer was accepted in one request.\<close>

lemma aiplex_flush_delivers:
  assumes "aiplex_flush (watch_http env) ck s ((w, l), b) = (Inr (), wl', b')" and "ab_buf b \<noteq> []" and "0 < ax_max_retries s"
  shows "(ax_url s, ingest_headers s, ab_buf b) \<in> set (snd wl')"
proof -
  obtain t w1 where ck: "sc_monotonic ck (w, l) = (t, w1)" by (metis surj_pair)
  have "post_loop (watch_http env) (refused_by ''AIPlex ingest '' (ax_url s)) permanent_refusal (ax_url s) (ingest_headers s) (ab_buf b)
      (nat (ax_max_retries s)) (ax_initial_backoff_s s) None w1 = (Inr (), wl')"
    using assms(1,2) ck by (auto simp: aiplex_flush_def Let_def split: prod.splits)
  from post_loop_accepted [OF this] assms(3) show ?thesis by (auto dest: request_accepted)
qed

lemma iso_samples:
  "iso_utc 0 = ''1970-01-01T00:00:00Z'' \<and> iso_utc 951826154 = ''2000-02-29T12:09:14Z'' \<and> iso_utc 1735689599 = ''2024-12-31T23:59:59Z''"
  by code_simp

text \<open>
  The Pub/Sub client takes the attributes of a message as keyword arguments of text. The sink gives
  it one keyword argument that is a dict, so no entry is ever published and a relay with this sink
  raises at its first entry and keeps its cursor.
\<close>

lemma pubsub_sink_never_publishes:
  assumes "\<And>t b k kws w. \<exists>(n, v) \<in> set kws. \<nexists>x. v = JStr x \<Longrightarrow> publish t b k kws w = (Inl (PyExn ''TypeError'' msg), w)"
  shows "pubsub_sink publish topic e w = (Inl (NotGrpc (PyExn ''TypeError'' msg)), w)"
  using assms [of "[(''attributes'', JObj [(''tape-event-id'', JStr (event_id e)), (''kind'', JStr (ev_kind e))])]"]
  by (simp add: pubsub_sink_def as_sink_result_def)

end
