(* ===== verification/SdkProxies.thy ===== *)
theory SdkProxies
  imports SdkChaos SdkSinks
begin

text \<open>
  The HTTP chaos proxy (\<open>chaos/proxies.py\<close>): the fault rules, their matching with the counters, the
  rewriting of JSON bodies, the cutting of event streams, and the whole request handler.

  Bodies are JSON or plain text, as on every other wire of the development; their length is a
  parameter. The handler of a request is a function of the upstream, which may answer, refuse, be
  out of reach or raise. JSON values are trees. In the program a replacement that is itself a dict or
  a list is one object that the rule and the payload share, so the model is exact for replacements
  without them.
\<close>

section \<open>Rules\<close>

record ProxyFault =
  pf_kind :: string
  pf_path_prefix :: string
  pf_probability :: rat
  pf_ms :: int
  pf_jitter :: rat
  pf_status :: int
  pf_body :: string
  pf_at_event :: int
  pf_json_path :: string
  pf_replacement :: json
  pf_suffix :: string
  pf_extra_tool :: "(string \<times> json) list option"
  pf_drift_fn :: "(json \<Rightarrow> py_exn + json) option"

definition proxy_fault :: "string \<Rightarrow> string \<Rightarrow> rat \<Rightarrow> ProxyFault" where
  "proxy_fault kind path_prefix probability = \<lparr>pf_kind = kind, pf_path_prefix = path_prefix, pf_probability = probability, pf_ms = 0,
     pf_jitter = 0, pf_status = 0, pf_body = [], pf_at_event = 0, pf_json_path = [], pf_replacement = JNull, pf_suffix = [],
     pf_extra_tool = None, pf_drift_fn = None\<rparr>"

definition proxy_delay :: "string \<Rightarrow> int \<Rightarrow> rat \<Rightarrow> rat \<Rightarrow> ProxyFault" where
  "proxy_delay path_prefix ms jitter probability = (proxy_fault ''delay'' path_prefix probability)\<lparr>pf_ms := ms, pf_jitter := jitter\<rparr>"

definition inject_status :: "string \<Rightarrow> int \<Rightarrow> string \<Rightarrow> rat \<Rightarrow> ProxyFault" where
  "inject_status path_prefix status body probability = (proxy_fault ''inject_status'' path_prefix probability)\<lparr>pf_status := status, pf_body := body\<rparr>"

definition truncate_stream :: "string \<Rightarrow> int \<Rightarrow> rat \<Rightarrow> ProxyFault" where
  "truncate_stream path_prefix at_event probability = (proxy_fault ''truncate_stream'' path_prefix probability)\<lparr>pf_at_event := at_event\<rparr>"

definition mangle_json :: "string \<Rightarrow> string \<Rightarrow> json \<Rightarrow> rat \<Rightarrow> ProxyFault" where
  "mangle_json path_prefix json_path replacement probability =
     (proxy_fault ''mangle_json'' path_prefix probability)\<lparr>pf_json_path := json_path, pf_replacement := replacement\<rparr>"

definition inject_prompt :: "string \<Rightarrow> string \<Rightarrow> rat \<Rightarrow> ProxyFault" where
  "inject_prompt path_prefix suffix probability = (proxy_fault ''inject_prompt'' path_prefix probability)\<lparr>pf_suffix := suffix\<rparr>"

definition tool_shadow :: "string \<Rightarrow> (string \<times> json) list \<Rightarrow> rat \<Rightarrow> ProxyFault" where
  "tool_shadow path_prefix extra_tool probability = (proxy_fault ''tool_shadow'' path_prefix probability)\<lparr>pf_extra_tool := Some extra_tool\<rparr>"

definition schema_drift :: "string \<Rightarrow> (json \<Rightarrow> py_exn + json) \<Rightarrow> rat \<Rightarrow> ProxyFault" where
  "schema_drift path_prefix drift_fn probability = (proxy_fault ''schema_drift'' path_prefix probability)\<lparr>pf_drift_fn := Some drift_fn\<rparr>"

definition drop_connection :: "string \<Rightarrow> rat \<Rightarrow> ProxyFault" where
  "drop_connection path_prefix probability = proxy_fault ''drop_connection'' path_prefix probability"

text \<open>\<open>_matching\<close>: each rule of the kind and path rolls on its own; a rule that fires is counted.\<close>

type_synonym fault_hits = "string \<times> string \<rightharpoonup> int"

definition count_hit :: "string \<times> string \<Rightarrow> fault_hits \<Rightarrow> fault_hits" where
  "count_hit k hits = hits(k \<mapsto> (case hits k of Some n \<Rightarrow> n | None \<Rightarrow> 0) + 1)"

definition path_starts :: "string \<Rightarrow> string \<Rightarrow> bool" where
  "path_starts p s \<longleftrightarrow> take (length p) s = p"

definition in_scope :: "string \<Rightarrow> string \<Rightarrow> ProxyFault \<Rightarrow> bool" where
  "in_scope path kind f \<longleftrightarrow> pf_kind f = kind \<and> (pf_path_prefix f = [] \<or> path_starts (pf_path_prefix f) path)"

definition fires :: "'w chaos_env \<Rightarrow> rat \<Rightarrow> 'w \<Rightarrow> bool \<times> 'w" where
  "fires ce p w = (if p \<ge> 1 then (True, w) else (case ce_random ce w of (r, w') \<Rightarrow> (r < p, w')))"

fun matching_faults :: "'w chaos_env \<Rightarrow> ProxyFault list \<Rightarrow> string \<Rightarrow> string \<Rightarrow> fault_hits \<Rightarrow> 'w \<Rightarrow> ProxyFault list \<times> fault_hits \<times> 'w" where
  "matching_faults ce [] path kind hits w = ([], hits, w)"
| "matching_faults ce (f # fs) path kind hits w =
     (if \<not> in_scope path kind f then matching_faults ce fs path kind hits w
      else (case fires ce (pf_probability f) w of (hit, w1) \<Rightarrow>
        if hit then
          (case matching_faults ce fs path kind (count_hit (kind, pf_path_prefix f) hits) w1 of (out, hits', w2) \<Rightarrow> (f # out, hits', w2))
        else matching_faults ce fs path kind hits w1))"

section \<open>Rewriting JSON\<close>

definition all_digits :: "string \<Rightarrow> bool" where
  "all_digits s \<longleftrightarrow> s \<noteq> [] \<and> list_all is_digit s"

definition list_index :: "string \<Rightarrow> nat" where
  "list_index s = (case py_int s of Some n \<Rightarrow> nat n | None \<Rightarrow> 0)"

text \<open>
  \<open>_set_json_at\<close> on the components of the path. A list takes digits, a dict any key; where an
  intermediate component does not resolve nothing is changed.
\<close>

fun set_parts :: "string list \<Rightarrow> json \<Rightarrow> json \<Rightarrow> json" where
  "set_parts [] value cur = cur"
| "set_parts [p] value cur = (case cur of
     JArr xs \<Rightarrow> if all_digits p \<and> list_index p < length xs then JArr (xs[list_index p := value]) else cur
   | JObj kvs \<Rightarrow> JObj (AList.update p value kvs)
   | _ \<Rightarrow> cur)"
| "set_parts (p # q # ps) value cur = (case cur of
     JArr xs \<Rightarrow> if all_digits p \<and> list_index p < length xs
                then JArr (xs[list_index p := set_parts (q # ps) value (xs ! list_index p)]) else cur
   | JObj kvs \<Rightarrow> (case map_of kvs p of None \<Rightarrow> cur | Some c \<Rightarrow> JObj (AList.update p (set_parts (q # ps) value c) kvs))
   | _ \<Rightarrow> cur)"

definition set_json_at :: "json \<Rightarrow> string \<Rightarrow> json \<Rightarrow> json" where
  "set_json_at obj path value = (if path = [] then value else set_parts (split_on (CHR ''.'') path) value obj)"

definition PROMPT_FIELDS :: "string list" where
  "PROMPT_FIELDS = [''text'', ''content'', ''output_text'']"

fun inject_prompt_into :: "string \<Rightarrow> json \<Rightarrow> json"
  and inject_prompt_items :: "string \<Rightarrow> json list \<Rightarrow> json list"
  and inject_prompt_fields :: "string \<Rightarrow> (string \<times> json) list \<Rightarrow> (string \<times> json) list" where
  "inject_prompt_into suffix (JObj kvs) = JObj (inject_prompt_fields suffix kvs)"
| "inject_prompt_into suffix (JArr xs) = JArr (inject_prompt_items suffix xs)"
| "inject_prompt_into suffix v = v"
| "inject_prompt_items suffix [] = []"
| "inject_prompt_items suffix (x # xs) = inject_prompt_into suffix x # inject_prompt_items suffix xs"
| "inject_prompt_fields suffix [] = []"
| "inject_prompt_fields suffix ((k, v) # kvs) =
     (k, case v of JStr s \<Rightarrow> JStr (if k \<in> set PROMPT_FIELDS then s @ suffix else s) | _ \<Rightarrow> inject_prompt_into suffix v)
     # inject_prompt_fields suffix kvs"

fun shadow_tools :: "json \<Rightarrow> json \<Rightarrow> json"
  and shadow_items :: "json \<Rightarrow> json list \<Rightarrow> json list"
  and shadow_fields :: "json \<Rightarrow> (string \<times> json) list \<Rightarrow> (string \<times> json) list" where
  "shadow_tools extra (JObj kvs) = JObj (shadow_fields extra kvs)"
| "shadow_tools extra (JArr xs) = JArr (shadow_items extra xs)"
| "shadow_tools extra v = v"
| "shadow_items extra [] = []"
| "shadow_items extra (x # xs) = shadow_tools extra x # shadow_items extra xs"
| "shadow_fields extra [] = []"
| "shadow_fields extra ((k, v) # kvs) =
     (k, case v of JArr xs \<Rightarrow> if k = ''tools'' then JArr (xs @ [extra]) else shadow_tools extra v | _ \<Rightarrow> shadow_tools extra v)
     # shadow_fields extra kvs"

section \<open>Event streams\<close>

text \<open>The text up to the first blank line, and what follows it.\<close>

fun split_event :: "string \<Rightarrow> (string \<times> string) option" where
  "split_event [] = None"
| "split_event (c # cs) =
     (if c = CHR 10 \<and> cs \<noteq> [] \<and> hd cs = CHR 10 then Some ([], tl cs)
      else map_option (\<lambda>(evt, rest). (c # evt, rest)) (split_event cs))"

lemma split_event_shorter: "split_event buf = Some (evt, rest) \<Longrightarrow> length rest < length buf"
  by (induction buf arbitrary: evt) (fastforce split: if_splits)+

text \<open>
  The inner loop of \<open>_stream_sse\<close>: complete events are written until none is left, a write fails or
  the cut is reached. The result says whether the handler returns, the events written, their number
  and the buffer.
\<close>

function emit_events ::
    "(string \<Rightarrow> 'w \<Rightarrow> bool \<times> 'w) \<Rightarrow> int \<Rightarrow> int \<Rightarrow> string \<Rightarrow> 'w \<Rightarrow> (bool \<times> string list \<times> int \<times> string) \<times> 'w" where
  "emit_events wr cut_at n buf w =
     (case split_event buf of
        None \<Rightarrow> ((False, [], n, buf), w)
      | Some (evt, rest) \<Rightarrow>
          (case wr (evt @ [CHR 10, CHR 10]) w of (ok, w1) \<Rightarrow>
             if \<not> ok then ((True, [], n + 1, rest), w1)
             else if cut_at \<noteq> 0 \<and> n + 1 \<ge> cut_at then ((True, [evt @ [CHR 10, CHR 10]], n + 1, rest), w1)
             else (case emit_events wr cut_at (n + 1) rest w1 of
                     ((stop, out, m, buf'), w2) \<Rightarrow> ((stop, (evt @ [CHR 10, CHR 10]) # out, m, buf'), w2))))"
  by pat_completeness auto
termination by (relation "measure (\<lambda>(wr, cut_at, n, buf, w). length buf)") (auto dest: split_event_shorter)

declare emit_events.simps [simp del]

text \<open>The outer loop, over what the successive reads give; an empty read or one that raises ends it.\<close>

fun stream_chunks ::
    "(string \<Rightarrow> 'w \<Rightarrow> bool \<times> 'w) \<Rightarrow> int \<Rightarrow> bool \<Rightarrow> int \<Rightarrow> string \<Rightarrow> string list \<Rightarrow> 'w \<Rightarrow> string list \<times> 'w" where
  "stream_chunks wr cut_at drops n buf [] w = ([], w)"
| "stream_chunks wr cut_at drops n buf (chunk # chunks) w =
     (if chunk = [] then ([], w)
      else (case emit_events wr cut_at n (buf @ chunk) w of
              ((stop, out, m, buf'), w1) \<Rightarrow>
                if stop \<or> drops \<and> m \<ge> 1 then (out, w1)
                else (case stream_chunks wr cut_at drops m buf' chunks w1 of (out', w2) \<Rightarrow> (out @ out', w2))))"

section \<open>Requests\<close>

definition DROP_REQUEST_HEADERS :: "string list" where
  "DROP_REQUEST_HEADERS = [''host'', ''content-length'', ''connection'', ''keep-alive'', ''proxy-authenticate'', ''proxy-authorization'',
     ''te'', ''trailers'', ''transfer-encoding'', ''upgrade'']"

definition DROP_RESPONSE_HEADERS :: "string list" where
  "DROP_RESPONSE_HEADERS = [''transfer-encoding'', ''content-encoding'', ''connection'', ''keep-alive'']"

record ChaosProxy =
  xp_upstream :: string
  xp_faults :: "ProxyFault list"

definition new_proxy :: "string \<Rightarrow> ProxyFault list \<Rightarrow> ChaosProxy" where
  "new_proxy upstream faults = \<lparr>xp_upstream = rstrip_slash upstream, xp_faults = faults\<rparr>"

record proxy_request =
  rq_command :: string
  rq_path :: string
  rq_headers :: "(string \<times> string) list"
  rq_body :: wire_text

text \<open>\<open>ur_chunks\<close> are the reads of a body that is streamed.\<close>

record upstream_response =
  ur_code :: int
  ur_headers :: "(string \<times> string) list"
  ur_body :: wire_text
  ur_chunks :: "string list"

datatype upstream_outcome = UpReply upstream_response | UpRefused int wire_text | UpUnreachable py_exn | UpRaised py_exn

record 'w proxy_env =
  xe_chaos :: "'w chaos_env"
  xe_open :: "string \<Rightarrow> string \<Rightarrow> (string \<times> string) list \<Rightarrow> wire_text option \<Rightarrow> 'w \<Rightarrow> upstream_outcome \<times> 'w"
  xe_length :: "wire_text \<Rightarrow> int"
  xe_write :: "string \<Rightarrow> 'w \<Rightarrow> bool \<times> 'w"

record client_reply =
  cy_code :: int
  cy_headers :: "(string \<times> string) list"
  cy_written :: "wire_text list"

definition forwarded_headers :: "(string \<times> string) list \<Rightarrow> (string \<times> string) list" where
  "forwarded_headers hs = filter (\<lambda>(k, v). ascii_lower k \<notin> set DROP_REQUEST_HEADERS) hs"

definition forward :: "'w proxy_env \<Rightarrow> ChaosProxy \<Rightarrow> proxy_request \<Rightarrow> 'w \<Rightarrow> upstream_outcome \<times> 'w" where
  "forward env p rq w = xe_open env (xp_upstream p @ rq_path rq) (rq_command rq) (forwarded_headers (rq_headers rq))
     (if rq_body rq = PlainText [] then None else Some (rq_body rq)) w"

definition response_headers ::
    "upstream_response \<Rightarrow> int option \<Rightarrow> (string \<times> string) list \<Rightarrow> (string \<times> string) list" where
  "response_headers resp override_length extra =
     filter (\<lambda>(k, v). ascii_lower k \<notin> set DROP_RESPONSE_HEADERS \<and> (override_length = None \<or> ascii_lower k \<noteq> ''content-length'')) (ur_headers resp)
     @ (case override_length of None \<Rightarrow> [] | Some n \<Rightarrow> [(''Content-Length'', int_str n)]) @ extra"

definition reply_passthrough ::
    "'w proxy_env \<Rightarrow> ChaosProxy \<Rightarrow> upstream_response \<Rightarrow> string \<Rightarrow> fault_hits \<Rightarrow> 'w \<Rightarrow> client_reply \<times> fault_hits \<times> 'w" where
  "reply_passthrough env p resp path hits w =
     (case matching_faults (xe_chaos env) (xp_faults p) path ''drop_connection'' hits w of (drops, hits1, w1) \<Rightarrow>
        (\<lparr>cy_code = ur_code resp,
          cy_headers = response_headers resp (Some (xe_length env (ur_body resp))) [(''X-Tape-Chaos'', ''passthrough'')],
          cy_written = (if drops \<noteq> [] then [] else [ur_body resp])\<rparr>, hits1, w1))"

text \<open>The four rewritings of a JSON body, in their order, with the names of those applied.\<close>

definition apply_mangles :: "ProxyFault list \<Rightarrow> json \<times> string list \<Rightarrow> json \<times> string list" where
  "apply_mangles fs pn = fold (\<lambda>f (v, names). (set_json_at v (pf_json_path f) (pf_replacement f), names @ [''mangle_json''])) fs pn"

definition apply_prompts :: "ProxyFault list \<Rightarrow> json \<times> string list \<Rightarrow> json \<times> string list" where
  "apply_prompts fs pn = fold (\<lambda>f (v, names). (inject_prompt_into (pf_suffix f) v, names @ [''inject_prompt''])) fs pn"

definition apply_shadows :: "ProxyFault list \<Rightarrow> json \<times> string list \<Rightarrow> json \<times> string list" where
  "apply_shadows fs pn = fold (\<lambda>f (v, names). case pf_extra_tool f of
     None \<Rightarrow> (v, names) | Some t \<Rightarrow> (shadow_tools (JObj t) v, names @ [''tool_shadow''])) fs pn"

definition apply_drifts :: "ProxyFault list \<Rightarrow> json \<times> string list \<Rightarrow> json \<times> string list" where
  "apply_drifts fs pn = fold (\<lambda>f (v, names). case pf_drift_fn f of
     None \<Rightarrow> (v, names) | Some g \<Rightarrow> ((case g v of Inl ex \<Rightarrow> v | Inr v' \<Rightarrow> v'), names @ [''schema_drift''])) fs pn"

definition comma_join :: "string list \<Rightarrow> string" where
  "comma_join xs = (case xs of [] \<Rightarrow> [] | y # ys \<Rightarrow> y @ concat (map (\<lambda>z. '','' @ z) ys))"

definition reply_json ::
    "'w proxy_env \<Rightarrow> ChaosProxy \<Rightarrow> upstream_response \<Rightarrow> string \<Rightarrow> fault_hits \<Rightarrow> 'w \<Rightarrow> client_reply \<times> fault_hits \<times> 'w" where
  "reply_json env p resp path hits w =
     (case ur_body resp of
        PlainText s \<Rightarrow> (\<lparr>cy_code = ur_code resp, cy_headers = response_headers resp (Some (xe_length env (ur_body resp))) [],
                         cy_written = [ur_body resp]\<rparr>, hits, w)
      | JsonText v \<Rightarrow>
          (let m = matching_faults (xe_chaos env) (xp_faults p) path in
           case m ''mangle_json'' hits w of (f1, h1, w1) \<Rightarrow>
           case m ''inject_prompt'' h1 w1 of (f2, h2, w2) \<Rightarrow>
           case m ''tool_shadow'' h2 w2 of (f3, h3, w3) \<Rightarrow>
           case m ''schema_drift'' h3 w3 of (f4, h4, w4) \<Rightarrow>
           case m ''drop_connection'' h4 w4 of (drops, h5, w5) \<Rightarrow>
           case apply_drifts f4 (apply_shadows f3 (apply_prompts f2 (apply_mangles f1 (v, [])))) of (v', names) \<Rightarrow>
             (\<lparr>cy_code = ur_code resp,
               cy_headers = response_headers resp (Some (xe_length env (JsonText v')))
                 [(''X-Tape-Chaos'', if names = [] then ''json'' else comma_join names)],
               cy_written = (if drops \<noteq> [] then [] else [JsonText v'])\<rparr>, h5, w5)))"

definition cut_of :: "ProxyFault list \<Rightarrow> int" where
  "cut_of truncates = (if truncates = [] then 0 else Min (pf_at_event ` set truncates))"

definition stream_sse ::
    "'w proxy_env \<Rightarrow> ChaosProxy \<Rightarrow> upstream_response \<Rightarrow> string \<Rightarrow> fault_hits \<Rightarrow> 'w \<Rightarrow> client_reply \<times> fault_hits \<times> 'w" where
  "stream_sse env p resp path hits w =
     (case matching_faults (xe_chaos env) (xp_faults p) path ''truncate_stream'' hits w of (truncates, h1, w1) \<Rightarrow>
      case matching_faults (xe_chaos env) (xp_faults p) path ''drop_connection'' h1 w1 of (drops, h2, w2) \<Rightarrow>
      case stream_chunks (xe_write env) (cut_of truncates) (drops \<noteq> []) 0 [] (ur_chunks resp) w2 of (out, w3) \<Rightarrow>
        (\<lparr>cy_code = ur_code resp,
          cy_headers = response_headers resp None [(''X-Tape-Chaos'',
            if truncates \<noteq> [] then ''truncate_stream'' else if drops \<noteq> [] then ''drop_connection'' else ''sse'')],
          cy_written = map PlainText out\<rparr>, h2, w3))"

fun sleep_all :: "'w chaos_env \<Rightarrow> ProxyFault list \<Rightarrow> 'w \<Rightarrow> 'w" where
  "sleep_all ce [] w = w"
| "sleep_all ce (f # fs) w =
     (case (if pf_jitter f > 0 then (case ce_uniform ce (pf_jitter f) w of (u, w1) \<Rightarrow>
              (let x = of_int (pf_ms f) * (1 + u) in if 0 \<le> x then \<lfloor>x\<rfloor> else \<lceil>x\<rceil>, w1)) else (pf_ms f, w)) of
        (ms, w1) \<Rightarrow> sleep_all ce fs (ce_sleep ce (of_int (max 0 ms) / 1000) w1))"

definition injected_reply :: "'w proxy_env \<Rightarrow> ProxyFault \<Rightarrow> client_reply" where
  "injected_reply env f = \<lparr>cy_code = pf_status f,
     cy_headers = [(''Content-Length'', int_str (xe_length env (PlainText (pf_body f)))), (''Content-Type'', ''text/plain; charset=utf-8''),
       (''X-Tape-Chaos'', ''inject_status'')],
     cy_written = (if pf_body f = [] then [] else [PlainText (pf_body f)])\<rparr>"

definition content_type :: "upstream_response \<Rightarrow> string" where
  "content_type resp = (case find (\<lambda>(k, v). ascii_lower k = ''content-type'') (ur_headers resp) of Some (k, v) \<Rightarrow> v | None \<Rightarrow> [])"

definition answer_client ::
    "'w proxy_env \<Rightarrow> ChaosProxy \<Rightarrow> upstream_outcome \<Rightarrow> string \<Rightarrow> fault_hits \<Rightarrow> 'w \<Rightarrow> (py_exn + client_reply) \<times> fault_hits \<times> 'w" where
  "answer_client env p out path hits w = (case out of
     UpRefused code body \<Rightarrow> (Inr \<lparr>cy_code = code, cy_headers = [(''Content-Length'', int_str (xe_length env body))], cy_written = [body]\<rparr>, hits, w)
   | UpUnreachable ex \<Rightarrow> (Inr \<lparr>cy_code = 502, cy_headers = [(''Content-Length'', ''0''), (''X-Tape-Chaos'', ''upstream-unreachable'')],
                             cy_written = []\<rparr>, hits, w)
   | UpRaised ex \<Rightarrow> (Inl ex, hits, w)
   | UpReply resp \<Rightarrow>
       map_prod Inr id (if path_starts ''text/event-stream'' (content_type resp) then stream_sse env p resp path hits w
         else if path_starts ''application/json'' (content_type resp) then reply_json env p resp path hits w
         else reply_passthrough env p resp path hits w))"

definition handle_request ::
    "'w proxy_env \<Rightarrow> ChaosProxy \<Rightarrow> proxy_request \<Rightarrow> fault_hits \<Rightarrow> 'w \<Rightarrow> (py_exn + client_reply) \<times> fault_hits \<times> 'w" where
  "handle_request env p rq hits w =
     (case matching_faults (xe_chaos env) (xp_faults p) (rq_path rq) ''delay'' hits w of (delays, h1, w1) \<Rightarrow>
      case matching_faults (xe_chaos env) (xp_faults p) (rq_path rq) ''inject_status'' h1 (sleep_all (xe_chaos env) delays w1) of
        (f # fs, h2, w2) \<Rightarrow> (Inr (injected_reply env f), h2, w2)
      | ([], h2, w2) \<Rightarrow>
          (case forward env p rq w2 of (out, w3) \<Rightarrow> answer_client env p out (rq_path rq) h2 w3))"

section \<open>What a stream carries\<close>

text \<open>The complete events of a text, each with its blank line, and the text after the last of them.\<close>

function sse_events :: "string \<Rightarrow> string list" where
  "sse_events s = (case split_event s of None \<Rightarrow> [] | Some (evt, rest) \<Rightarrow> (evt @ [CHR 10, CHR 10]) # sse_events rest)"
  by pat_completeness auto
termination by (relation "measure length") (auto dest: split_event_shorter)

function sse_tail :: "string \<Rightarrow> string" where
  "sse_tail s = (case split_event s of None \<Rightarrow> s | Some (evt, rest) \<Rightarrow> sse_tail rest)"
  by pat_completeness auto
termination by (relation "measure length") (auto dest: split_event_shorter)

declare sse_events.simps [simp del] sse_tail.simps [simp del]

lemma no_event [simp]: "split_event s = None \<Longrightarrow> sse_events s = []" "split_event s = None \<Longrightarrow> sse_tail s = s"
  by (simp_all add: sse_events.simps [of s] sse_tail.simps [of s])

lemma split_event_text: "split_event s = Some (evt, rest) \<Longrightarrow> s = evt @ [CHR 10, CHR 10] @ rest"
proof (induction s arbitrary: evt)
  case (Cons c cs)
  then show ?case by (cases cs) (auto split: if_splits)
qed simp

lemma split_event_append: "split_event s = Some (evt, rest) \<Longrightarrow> split_event (s @ t) = Some (evt, rest @ t)"
proof (induction s arbitrary: evt)
  case (Cons c cs)
  then show ?case by (cases cs) (auto split: if_splits)
qed simp

lemma events_and_tail: "concat (sse_events s) @ sse_tail s = s"
proof (induction s rule: sse_events.induct)
  case (1 s)
  then show ?case
    by (cases "split_event s") (auto simp: sse_events.simps [of s] sse_tail.simps [of s] dest: split_event_text)
qed

lemma tail_has_no_event: "split_event (sse_tail s) = None"
proof (induction s rule: sse_tail.induct)
  case (1 s)
  then show ?case by (cases "split_event s") (auto simp: sse_tail.simps [of s])
qed

lemma events_append: "sse_events (s @ t) = sse_events s @ sse_events (sse_tail s @ t)"
  and tail_append: "sse_tail (s @ t) = sse_tail (sse_tail s @ t)"
proof (induction s rule: sse_events.induct)
  case (1 s)
  {
    case 1
    show ?case using "1.IH"(1)
      by (cases "split_event s")
         (auto simp: sse_events.simps [of "s @ t"] sse_events.simps [of s] sse_tail.simps [of s] split_event_append split: option.splits)
  next
    case 2
    show ?case using "1.IH"(2)
      by (cases "split_event s")
         (auto simp: sse_tail.simps [of "s @ t"] sse_tail.simps [of s] split_event_append split: option.splits)
  }
qed

section \<open>Forwarding and cutting\<close>

lemma emit_done:
  "emit_events wr cut_at n buf w = ((stop, out, m, buf'), w') \<Longrightarrow>
   (\<exists>k. out = take k (sse_events buf)) \<and>
   (\<not> stop \<longrightarrow> out = sse_events buf \<and> buf' = sse_tail buf \<and> m = n + int (length out))"
proof (induction wr cut_at n buf w arbitrary: stop out m buf' w' rule: emit_events.induct)
  case (1 wr cut_at n buf w)
  show ?case
  proof (cases "split_event buf")
    case None
    with "1.prems" show ?thesis by (auto simp: emit_events.simps [of wr cut_at n buf])
  next
    case (Some er)
    obtain evt rest where er: "er = (evt, rest)" by fastforce
    let ?e = "evt @ [CHR 10, CHR 10]"
    have ev: "sse_events buf = ?e # sse_events rest" "sse_tail buf = sse_tail rest"
      using Some er by (simp_all add: sse_events.simps [of buf] sse_tail.simps [of buf])
    obtain ok w1 where wr: "wr ?e w = (ok, w1)" by fastforce
    obtain st o1 m1 b1 w2 where rec: "emit_events wr cut_at (n + 1) rest w1 = ((st, o1, m1, b1), w2)" by (metis surj_pair)
    consider "\<not> ok" | "ok" "cut_at \<noteq> 0 \<and> n + 1 \<ge> cut_at" | "ok" "\<not> (cut_at \<noteq> 0 \<and> n + 1 \<ge> cut_at)" by blast
    then show ?thesis
    proof cases
      case 1
      then have "stop" "out = []" using "1.prems" Some er wr by (auto simp: emit_events.simps [of wr cut_at n buf])
      then show ?thesis by (auto intro: exI [of _ 0])
    next
      case 2
      then have "stop" "out = [?e]" using "1.prems" Some er wr by (auto simp: emit_events.simps [of wr cut_at n buf])
      then show ?thesis using ev by (auto intro: exI [of _ "Suc 0"])
    next
      case 3
      then have res: "stop = st" "out = ?e # o1" "m = m1" "buf' = b1"
        using "1.prems" Some er wr rec by (auto simp: emit_events.simps [of wr cut_at n buf])
      have ih: "(\<exists>k. o1 = take k (sse_events rest)) \<and> (\<not> st \<longrightarrow> o1 = sse_events rest \<and> b1 = sse_tail rest \<and> m1 = n + 1 + int (length o1))"
        using "1.IH" [OF Some er [symmetric] wr [symmetric]] 3 rec by blast
      then obtain k where "o1 = take k (sse_events rest)" by blast
      then have some: "\<exists>k. out = take k (sse_events buf)" using res ev by (auto intro: exI [of _ "Suc k"])
      have "\<not> stop \<longrightarrow> out = sse_events buf \<and> buf' = sse_tail buf \<and> m = n + int (length out)" using ih res ev by auto
      with some show ?thesis by blast
    qed
  qed
qed

lemma stream_prefix: "\<exists>k. fst (stream_chunks wr cut_at drops n buf chunks w) = take k (sse_events (buf @ concat chunks))"
proof (induction chunks arbitrary: n buf w)
  case Nil
  then show ?case by (auto intro: exI [of _ 0])
next
  case (Cons c cs)
  show ?case
  proof (cases "c = []")
    case True
    then show ?thesis by (auto intro: exI [of _ 0])
  next
    case False
    obtain stop out m buf' w1 where em: "emit_events wr cut_at n (buf @ c) w = ((stop, out, m, buf'), w1)" by (metis surj_pair)
    note fin = emit_done [OF em]
    have all: "sse_events (buf @ concat (c # cs)) = sse_events (buf @ c) @ sse_events (sse_tail (buf @ c) @ concat cs)"
      using events_append [of "buf @ c" "concat cs"] by simp
    show ?thesis
    proof (cases "stop \<or> drops \<and> m \<ge> 1")
      case True
      obtain k where k: "out = take k (sse_events (buf @ c))" using fin by blast
      have "out = take (min k (length (sse_events (buf @ c)))) (sse_events (buf @ concat (c # cs)))" unfolding all k by (simp add: min_def)
      then show ?thesis using True False em by auto
    next
      case go: False
      then have o: "out = sse_events (buf @ c)" "buf' = sse_tail (buf @ c)" using fin by auto
      obtain k where "fst (stream_chunks wr cut_at drops m buf' cs w1) = take k (sse_events (buf' @ concat cs))" using Cons.IH by blast
      then have "fst (stream_chunks wr cut_at drops n buf (c # cs) w) = take (length out + k) (sse_events (buf @ concat (c # cs)))"
        unfolding all using go False em o by (auto split: prod.splits)
      then show ?thesis by blast
    qed
  qed
qed

text \<open>A cut after \<open>cut_at\<close> events; a negative one still lets the first event through.\<close>

definition within_cut :: "int \<Rightarrow> int \<Rightarrow> bool" where
  "within_cut cut_at n \<longleftrightarrow> 0 \<le> n \<and> (cut_at = 0 \<or> n < max 1 cut_at)"

definition cut_events :: "int \<Rightarrow> int \<Rightarrow> string list \<Rightarrow> string list" where
  "cut_events cut_at n evts = (if cut_at = 0 then evts else take (nat (max 1 cut_at - n)) evts)"

lemma emit_exact:
  "emit_events wr cut_at n buf w = ((stop, out, m, buf'), w') \<Longrightarrow> \<forall>e w. fst (wr e w) \<Longrightarrow> within_cut cut_at n \<Longrightarrow>
   out = cut_events cut_at n (sse_events buf) \<and> (stop \<longleftrightarrow> \<not> within_cut cut_at (n + int (length (sse_events buf))))"
proof (induction wr cut_at n buf w arbitrary: stop out m buf' w' rule: emit_events.induct)
  case (1 wr cut_at n buf w)
  show ?case
  proof (cases "split_event buf")
    case None
    with "1.prems" show ?thesis by (auto simp: emit_events.simps [of wr cut_at n buf] cut_events_def)
  next
    case (Some er)
    obtain evt rest where er: "er = (evt, rest)" by fastforce
    let ?e = "evt @ [CHR 10, CHR 10]"
    have ev: "sse_events buf = ?e # sse_events rest" using Some er by (simp add: sse_events.simps [of buf])
    obtain w1 where wr: "wr ?e w = (True, w1)" using "1.prems"(2) by (metis (full_types) prod.collapse)
    show ?thesis
    proof (cases "cut_at \<noteq> 0 \<and> n + 1 \<ge> cut_at")
      case True
      then have "stop" "out = [?e]" using "1.prems" Some er wr by (auto simp: emit_events.simps [of wr cut_at n buf])
      moreover have "max 1 cut_at - n = 1" using True "1.prems"(3) by (auto simp: within_cut_def max_def split: if_splits)
      ultimately show ?thesis using True ev "1.prems"(3) by (auto simp: cut_events_def within_cut_def)
    next
      case False
      obtain st o1 m1 b1 w2 where rec: "emit_events wr cut_at (n + 1) rest w1 = ((st, o1, m1, b1), w2)" by (metis surj_pair)
      have res: "stop = st" "out = ?e # o1" using "1.prems" Some er wr False rec by (auto simp: emit_events.simps [of wr cut_at n buf])
      have in': "within_cut cut_at (n + 1)" using False "1.prems"(3) by (auto simp: within_cut_def)
      have ih: "o1 = cut_events cut_at (n + 1) (sse_events rest) \<and> (st \<longleftrightarrow> \<not> within_cut cut_at (n + 1 + int (length (sse_events rest))))"
        using "1.IH" [OF Some er [symmetric] wr [symmetric] _ False rec "1.prems"(2) in'] by simp
      have "cut_events cut_at n (sse_events buf) = ?e # cut_events cut_at (n + 1) (sse_events rest)"
      proof (cases "cut_at = 0")
        case False
        then have "nat (max 1 cut_at - n) = Suc (nat (max 1 cut_at - (n + 1)))" using in' by (auto simp: within_cut_def)
        then show ?thesis using ev False by (simp add: cut_events_def)
      qed (simp add: ev cut_events_def)
      then show ?thesis using ih res ev by (simp add: algebra_simps)
    qed
  qed
qed

lemma cut_events_append:
  "within_cut cut_at n \<Longrightarrow> within_cut cut_at (n + int (length xs)) \<Longrightarrow>
   cut_events cut_at n (xs @ ys) = xs @ cut_events cut_at (n + int (length xs)) ys"
  by (auto simp: cut_events_def within_cut_def algebra_simps nat_diff_distrib nat_add_distrib)

lemma cut_events_full:
  "within_cut cut_at n \<Longrightarrow> \<not> within_cut cut_at (n + int (length xs)) \<Longrightarrow> cut_events cut_at n (xs @ ys) = cut_events cut_at n xs"
  by (auto simp: cut_events_def within_cut_def)

lemma cut_events_smallest:
  assumes "\<forall>f \<in> set cuts. 1 \<le> pf_at_event f"
  shows "cut_events (cut_of cuts) 0 evts = (if cuts = [] then evts else take (nat (Min (pf_at_event ` set cuts))) evts)"
proof (cases "cuts = []")
  case False
  then have "1 \<le> Min (pf_at_event ` set cuts)" using assms by simp
  then have "Min (pf_at_event ` set cuts) \<noteq> 0" "max 1 (Min (pf_at_event ` set cuts)) = Min (pf_at_event ` set cuts)" by linarith+
  with False show ?thesis by (simp add: cut_of_def cut_events_def)
qed (simp add: cut_of_def cut_events_def)

lemma stream_exact:
  assumes "\<forall>e w. fst (wr e w)" and "[] \<notin> set chunks" and "within_cut cut_at n" and "split_event buf = None"
  shows "fst (stream_chunks wr cut_at False n buf chunks w) = cut_events cut_at n (sse_events (buf @ concat chunks))"
  using assms(2-4)
proof (induction chunks arbitrary: n buf w)
  case Nil
  then show ?case by (simp add: cut_events_def)
next
  case (Cons c cs)
  obtain stop out m buf' w1 where em: "emit_events wr cut_at n (buf @ c) w = ((stop, out, m, buf'), w1)" by (metis surj_pair)
  note fin = emit_done [OF em] and ex = emit_exact [OF em assms(1) Cons.prems(2)]
  let ?x = "sse_events (buf @ c)" and ?y = "sse_events (sse_tail (buf @ c) @ concat cs)"
  have all: "sse_events (buf @ concat (c # cs)) = ?x @ ?y" using events_append [of "buf @ c" "concat cs"] by simp
  show ?case
  proof (cases stop)
    case True
    then show ?thesis using ex em Cons.prems cut_events_full [of cut_at n ?x ?y] unfolding all by auto
  next
    case False
    then have o: "out = ?x" "buf' = sse_tail (buf @ c)" "m = n + int (length ?x)" "within_cut cut_at m" using fin ex by auto
    have "split_event buf' = None" using o tail_has_no_event by simp
    then have "fst (stream_chunks wr cut_at False m buf' cs w1) = cut_events cut_at m ?y"
      using Cons.IH [of m buf' w1] Cons.prems(1) o by simp
    then show ?thesis using False em Cons.prems o cut_events_append [of cut_at n ?x ?y] unfolding all by (auto split: prod.splits)
  qed
qed

section \<open>Rules that do not apply\<close>

definition no_rule :: "ProxyFault list \<Rightarrow> string \<Rightarrow> string \<Rightarrow> bool" where
  "no_rule fs path kind \<longleftrightarrow> (\<forall>f \<in> set fs. \<not> in_scope path kind f)"


lemma matching_none: "no_rule fs path kind \<Longrightarrow> matching_faults ce fs path kind hits w = ([], hits, w)"
  by (induction fs) (auto simp: no_rule_def)



lemma matching_in_scope: "matching_faults ce fs path kind hits w = (out, hits', w') \<Longrightarrow> \<forall>f \<in> set out. f \<in> set fs \<and> in_scope path kind f"
proof (induction fs arbitrary: hits w out)
  case (Cons f fs)
  then show ?case by (fastforce split: if_splits prod.splits)
qed simp

text \<open>Every rule that fires is counted once, under its kind and path.\<close>

definition hit_count :: "fault_hits \<Rightarrow> string \<times> string \<Rightarrow> int" where
  "hit_count hits k = (case hits k of Some n \<Rightarrow> n | None \<Rightarrow> 0)"

lemma matching_counts:
  "matching_faults ce fs path kind hits w = (out, hits', w') \<Longrightarrow>
   hit_count hits' (kind', p) = hit_count hits (kind', p) + int (length (filter (\<lambda>f. kind' = kind \<and> pf_path_prefix f = p) out))"
proof (induction fs arbitrary: hits w out)
  case (Cons f fs)
  show ?case
  proof (cases "in_scope path kind f")
    case True
    obtain hit w1 where hit: "fires ce (pf_probability f) w = (hit, w1)" by fastforce
    show ?thesis
    proof (cases hit)
      case fired: True
      obtain o1 where m: "matching_faults ce fs path kind (count_hit (kind, pf_path_prefix f) hits) w1 = (o1, hits', w')" and out: "out = f # o1"
        using Cons.prems True hit fired by (auto split: prod.splits)
      from Cons.IH [OF m] show ?thesis unfolding out by (auto simp: hit_count_def count_hit_def)
    next
      case False
      then show ?thesis using Cons.IH Cons.prems True hit by simp
    qed
  next
    case False
    then show ?thesis using Cons by simp
  qed
qed simp

section \<open>Setting and reading a path\<close>

fun get_parts :: "string list \<Rightarrow> json \<Rightarrow> json option" where
  "get_parts [] cur = Some cur"
| "get_parts (p # ps) cur = (case cur of
     JArr xs \<Rightarrow> if all_digits p \<and> list_index p < length xs then get_parts ps (xs ! list_index p) else None
   | JObj kvs \<Rightarrow> (case map_of kvs p of None \<Rightarrow> None | Some c \<Rightarrow> get_parts ps c)
   | _ \<Rightarrow> None)"

lemma set_then_get: "ps \<noteq> [] \<Longrightarrow> get_parts ps obj \<noteq> None \<Longrightarrow> get_parts ps (set_parts ps v obj) = Some v"
proof (induction ps v obj rule: set_parts.induct)
  case (2 p v obj)
  then show ?case by (cases obj) (auto simp: update_conv' split: if_splits)
next
  case (3 p q ps v obj)
  note step = get_parts.simps(2) [of p "q # ps"]
  show ?case
  proof (cases obj)
    case (JArr xs)
    then show ?thesis using 3 by (auto simp: step simp del: get_parts.simps split: if_splits)
  next
    case (JObj kvs)
    then show ?thesis using 3 by (auto simp: step update_conv' simp del: get_parts.simps split: option.splits)
  qed (use 3 in simp_all)
qed simp

lemma set_unresolved: "get_parts (butlast ps) obj = None \<Longrightarrow> set_parts ps v obj = obj"
proof (induction ps v obj rule: set_parts.induct)
  case (3 p q ps v obj)
  have step: "get_parts (butlast (p # q # ps)) obj = (case obj of
     JArr xs \<Rightarrow> if all_digits p \<and> list_index p < length xs then get_parts (butlast (q # ps)) (xs ! list_index p) else None
   | JObj kvs \<Rightarrow> (case map_of kvs p of None \<Rightarrow> None | Some c \<Rightarrow> get_parts (butlast (q # ps)) c)
   | _ \<Rightarrow> None)" by (simp cong: json.case_cong option.case_cong if_cong split: json.split option.split)
  show ?case
  proof (cases obj)
    case (JArr xs)
    then show ?thesis using 3 step by (auto simp del: get_parts.simps butlast.simps split: if_splits)
  next
    case (JObj kvs)
    then show ?thesis using 3 step by (cases "map_of kvs p") (simp_all add: update_triv del: get_parts.simps butlast.simps)
  qed simp_all
qed simp_all

section \<open>Properties\<close>

text \<open>
  The calls of the upstream, for the statements: the address, the method, the headers and the body
  of each, below the world.
\<close>

type_synonym upstream_call = "string \<times> string \<times> (string \<times> string) list \<times> wire_text option"

definition watch_upstream :: "'w proxy_env \<Rightarrow> ('w \<times> upstream_call list) proxy_env" where
  "watch_upstream env = \<lparr>xe_chaos = watch_env (xe_chaos env), xe_open = (\<lambda>u m h b. logged (u, m, h, b) (xe_open env u m h b)),
     xe_length = xe_length env, xe_write = (\<lambda>e. unlogged (xe_write env e))\<rparr>"

lemma watch_upstream_simps [simp]:
  "xe_chaos (watch_upstream env) = watch_env (xe_chaos env)" "xe_length (watch_upstream env) = xe_length env"
  "xe_write (watch_upstream env) = (\<lambda>e. unlogged (xe_write env e))"
  "xe_open (watch_upstream env) u m h b (w, l) = (fst (xe_open env u m h b w), snd (xe_open env u m h b w), l @ [(u, m, h, b)])"
  by (simp_all add: watch_upstream_def logged_run)



text \<open>
  C31. An event stream is forwarded event by event and independently of how the upstream splits it
  into reads: what the client gets is always a prefix of the complete events of the stream, the
  texts up to a blank line, so that a stream is never cut inside an event. Without a rule that drops the
  connection and with a client that keeps reading it is all of them if no cut fired, and,
  if every cut that fired lies at event 1 or later, exactly as many as the smallest of them
  says. A cut at event 0 is excluded: it does not cut (\<open>zero_cut_disables\<close> below).
\<close>

theorem stream_forwards_events:
  assumes "stream_sse env p resp path hits w = (rep, hits', w')"
    and "matching_faults (xe_chaos env) (xp_faults p) path ''truncate_stream'' hits w = (cuts, h1, w1)"
  shows "(\<exists>k. cy_written rep = map PlainText (take k (sse_events (concat (ur_chunks resp))))) \<and>
    (no_rule (xp_faults p) path ''drop_connection'' \<and> (\<forall>e w. fst (xe_write env e w)) \<and> [] \<notin> set (ur_chunks resp) \<and>
       (\<forall>f \<in> set cuts. 1 \<le> pf_at_event f) \<longrightarrow>
       cy_written rep = map PlainText
         (if cuts = [] then sse_events (concat (ur_chunks resp))
          else take (nat (Min (pf_at_event ` set cuts))) (sse_events (concat (ur_chunks resp)))))"
proof -
  obtain drops h2 w2 where d: "matching_faults (xe_chaos env) (xp_faults p) path ''drop_connection'' h1 w1 = (drops, h2, w2)" by (metis surj_pair)
  let ?out = "\<lambda>dr. fst (stream_chunks (xe_write env) (cut_of cuts) dr 0 [] (ur_chunks resp) w2)"
  let ?evts = "sse_events (concat (ur_chunks resp))"
  have wr: "cy_written rep = map PlainText (?out (drops \<noteq> []))" using assms d by (auto simp: stream_sse_def split: prod.splits)
  obtain k where "?out (drops \<noteq> []) = take k ?evts"
    using stream_prefix [of "xe_write env" "cut_of cuts" "drops \<noteq> []" 0 "[]" "ur_chunks resp" w2] by auto
  moreover have "?out (drops \<noteq> []) = (if cuts = [] then ?evts else take (nat (Min (pf_at_event ` set cuts))) ?evts)"
    if "no_rule (xp_faults p) path ''drop_connection''" "\<forall>e w. fst (xe_write env e w)" "[] \<notin> set (ur_chunks resp)"
      "\<forall>f \<in> set cuts. 1 \<le> pf_at_event f"
  proof -
    have "drops = []" using matching_none [OF that(1)] d by (metis Pair_inject)
    moreover have "within_cut (cut_of cuts) 0" by (auto simp: within_cut_def)
    moreover have "cut_events (cut_of cuts) 0 ?evts = (if cuts = [] then ?evts else take (nat (Min (pf_at_event ` set cuts))) ?evts)"
      by (rule cut_events_smallest [OF that(4)])
    ultimately show ?thesis using stream_exact [OF that(2,3), of "cut_of cuts" 0 "[]" w2] by simp
  qed
  ultimately show ?thesis unfolding wr by auto
qed


text \<open>
  An error reply of the upstream loses all its headers, the time to wait of a rate limit and the
  type of the body among them, also on a path without any rule.
\<close>

lemma error_reply_loses_headers:
  "cy_headers (projr (fst (answer_client env p (UpRefused 429 body) path hits w))) = [(''Content-Length'', int_str (xe_length env body))]"
  by (simp add: answer_client_def)

text \<open>A proxy that cuts one path, in front of an upstream that streams two events in three reads.\<close>

definition two_events :: upstream_response where
  "two_events = \<lparr>ur_code = 200, ur_headers = [(''Content-Type'', ''text/event-stream'')], ur_body = PlainText [],
     ur_chunks = [''data: a'' @ [CHR 10], [CHR 10] @ ''data: b'', [CHR 10, CHR 10]]\<rparr>"

definition stream_env :: "unit proxy_env" where
  "stream_env = \<lparr>xe_chaos = still_env, xe_open = (\<lambda>url m h b w. (UpReply two_events, w)), xe_length = (\<lambda>t. 0), xe_write = (\<lambda>e w. (True, w))\<rparr>"

definition cutting_proxy :: ChaosProxy where
  "cutting_proxy = new_proxy ''https://m/'' [truncate_stream ''/v1'' 1 1]"

theorem stream_forwards_events_witness:
  "cy_written (fst (stream_sse stream_env cutting_proxy two_events ''/v1/messages'' Map.empty ())) =
     map PlainText (take 1 (sse_events (concat (ur_chunks two_events))))"
proof -
  obtain rep h w where r: "stream_sse stream_env cutting_proxy two_events ''/v1/messages'' Map.empty () = (rep, h, w)" by (metis surj_pair)
  have m: "matching_faults (xe_chaos stream_env) (xp_faults cutting_proxy) ''/v1/messages'' ''truncate_stream'' Map.empty () =
      ([truncate_stream ''/v1'' 1 1], count_hit (''truncate_stream'', ''/v1'') Map.empty, ())"
    by (simp add: cutting_proxy_def new_proxy_def truncate_stream_def proxy_fault_def in_scope_def path_starts_def fires_def)
  have "no_rule (xp_faults cutting_proxy) ''/v1/messages'' ''drop_connection''"
    by (simp add: no_rule_def cutting_proxy_def new_proxy_def truncate_stream_def proxy_fault_def in_scope_def)
  moreover have "\<forall>e w. fst (xe_write stream_env e w)" by (simp add: stream_env_def)
  moreover have "[] \<notin> set (ur_chunks two_events)" by (simp add: two_events_def)
  moreover have "pf_at_event (truncate_stream ''/v1'' 1 1) = 1" by (simp add: truncate_stream_def)
  ultimately show ?thesis using stream_forwards_events [OF r m] r by simp
qed


text \<open>An injected status answers without the upstream, whatever that would do.\<close>

lemma injected_without_upstream:
  assumes "matching_faults (xe_chaos env) (xp_faults p) (rq_path rq) ''delay'' hits w = (ds, h1, w1)"
    and "matching_faults (xe_chaos env) (xp_faults p) (rq_path rq) ''inject_status'' h1 (sleep_all (xe_chaos env) ds w1) = (f # fs, h2, w2)"
  shows "handle_request (env\<lparr>xe_open := op\<rparr>) p rq hits w = (Inr (injected_reply env f), h2, w2)"
  using assms by (simp add: handle_request_def injected_reply_def)

text \<open>
  What follows the last blank line is never forwarded, also without any rule; a stream whose lines
  end in carriage return and line feed is swallowed as a whole.
\<close>

lemma stream_tail_lost:
  "fst (stream_chunks (\<lambda>e w. (True, w)) 0 False 0 [] [''data: a'' @ [CHR 10, CHR 10] @ ''data: done''] ()) = [''data: a'' @ [CHR 10, CHR 10]]"
  by (simp add: emit_events.simps)

lemma crlf_stream_swallowed:
  "fst (stream_chunks (\<lambda>e w. (True, w)) 0 False 0 [] [''data: a'' @ [CHR 13, CHR 10, CHR 13, CHR 10], ''data: b'' @ [CHR 13, CHR 10, CHR 13, CHR 10]] ()) = []"
  by (simp add: emit_events.simps)

text \<open>A cut at event 0 never cuts, and it disables every other cut of the same request.\<close>

lemma zero_cut_disables: "cut_events (cut_of [truncate_stream q 0 1, truncate_stream q' n 1]) 0 evts = evts" if "0 \<le> n"
  using that by (simp add: cut_of_def truncate_stream_def cut_events_def)

text \<open>Without a path the body becomes the replacement, which is JSON again, never invalid text.\<close>

lemma mangled_body_stays_json: "set_json_at v [] r = r"
  by (simp add: set_json_at_def)

end
