(* ===== verification/SdkStdio.thy ===== *)
theory SdkStdio
  imports SdkProxies "HOL-Library.Sublist"
begin

text \<open>
  The stdio MCP proxy (\<open>chaos/mcp_stdio.py\<close>): which rules match a JSON-RPC message, what a rule does
  to it, the library calls \<open>send_request\<close> and \<open>recv_response\<close>, and the two pumps of the command
  line with the rules it builds.

  A message is the JSON value of a line. Python's \<open>None\<close> is \<open>JNull\<close>, so a message \<open>null\<close> counts as
  deleted, as in the code; the sentinel that tears the proxy down is the \<open>None\<close> of the result. The
  upstream process is a world that is written to and read from. The two pump threads and the main
  thread share the flag \<open>_stop\<close>, which any of them may set at any time: each pump is a function
  of the lines it reads, each with the value of the flag that the pump sees after reading it.
\<close>

section \<open>Matching\<close>

datatype direction = ToUpstream | FromUpstream

definition method_of :: "json \<Rightarrow> json" where
  "method_of msg = (case msg of
     JObj kvs \<Rightarrow> json_or (case map_of kvs ''method'' of Some v \<Rightarrow> v | None \<Rightarrow> JStr []) (JStr [])
   | JArr (JObj kvs # _) \<Rightarrow> json_or (case map_of kvs ''method'' of Some v \<Rightarrow> v | None \<Rightarrow> JStr []) (JStr [])
   | _ \<Rightarrow> JStr [])"

definition kinds_of :: "direction \<Rightarrow> string list" where
  "kinds_of d = (case d of
     ToUpstream \<Rightarrow> [''delay'', ''drop_connection'', ''inject_status'', ''inject_prompt'', ''schema_drift'']
   | FromUpstream \<Rightarrow> [''delay'', ''drop_connection'', ''tool_shadow'', ''schema_drift'', ''mangle_json'', ''inject_status''])"

definition no_attribute :: "json \<Rightarrow> string \<Rightarrow> py_exn" where
  "no_attribute v a = PyExn ''AttributeError'' (repr_str (py_type_name v) @ '' object has no attribute '' @ repr_str a)"

definition rule_matches :: "ProxyFault \<Rightarrow> json \<Rightarrow> direction \<Rightarrow> py_exn + bool" where
  "rule_matches f msg d =
     (if pf_path_prefix f = [] then Inr (pf_kind f \<in> set (kinds_of d))
      else (case method_of msg of
              JStr m \<Rightarrow> Inr (path_starts (pf_path_prefix f) m \<and> pf_kind f \<in> set (kinds_of d))
            | v \<Rightarrow> Inl (no_attribute v ''startswith'')))"

section \<open>Applying a rule\<close>

definition error_reply :: "ProxyFault \<Rightarrow> json \<Rightarrow> json" where
  "error_reply f ident = JObj [(''jsonrpc'', JStr ''2.0''), (''id'', ident),
     (''error'', JObj [(''code'', JNum (int_or (pf_status f) (-32000))),
        (''message'', JStr (str_or (pf_body f) ''injected by tape.chaos.mcp_stdio''))])]"

text \<open>The first argument that is text gets the suffix.\<close>

fun prompt_first :: "string \<Rightarrow> (string \<times> json) list \<Rightarrow> (string \<times> json) list" where
  "prompt_first sfx [] = []"
| "prompt_first sfx ((k, v) # kvs) = (case v of JStr s \<Rightarrow> (k, JStr (s @ sfx)) # kvs | _ \<Rightarrow> (k, v) # prompt_first sfx kvs)"

definition prompt_call :: "string \<Rightarrow> (string \<times> json) list \<Rightarrow> py_exn + json" where
  "prompt_call sfx kvs =
     (if map_of kvs ''method'' \<noteq> Some (JStr ''tools/call'') then Inr (JObj kvs)
      else (case map_of kvs ''params'' of
              None \<Rightarrow> Inr (JObj kvs)
            | Some (JObj ps) \<Rightarrow>
                (case map_of ps ''arguments'' of
                   None \<Rightarrow> Inr (JObj kvs)
                 | Some (JObj args) \<Rightarrow>
                     Inr (JObj (AList.update ''params'' (JObj (AList.update ''arguments'' (JObj (prompt_first sfx args)) ps)) kvs))
                 | Some v \<Rightarrow> Inl (no_attribute v ''items''))
            | Some v \<Rightarrow> Inl (no_attribute v ''get'')))"

definition shadow_result :: "(string \<times> json) list option \<Rightarrow> (string \<times> json) list \<Rightarrow> py_exn + json" where
  "shadow_result extra kvs = (case map_of kvs ''result'' of
     None \<Rightarrow> Inr (JObj kvs)
   | Some (JObj rs) \<Rightarrow>
       (case (map_of rs ''tools'', extra) of
          (Some (JArr tools), Some t) \<Rightarrow> Inr (JObj (AList.update ''result'' (JObj (AList.update ''tools'' (JArr (tools @ [JObj t])) rs)) kvs))
        | _ \<Rightarrow> Inr (JObj kvs))
   | Some v \<Rightarrow> Inl (no_attribute v ''get''))"

text \<open>The walk of \<open>mangle_json\<close>, which goes through dicts only.\<close>

fun mangle_walk :: "string list \<Rightarrow> json \<Rightarrow> json \<Rightarrow> json" where
  "mangle_walk [] value cur = cur"
| "mangle_walk [p] value cur = (case cur of JObj kvs \<Rightarrow> JObj (AList.update p value kvs) | _ \<Rightarrow> cur)"
| "mangle_walk (p # q # ps) value cur = (case cur of
     JObj kvs \<Rightarrow> (case map_of kvs p of None \<Rightarrow> cur | Some c \<Rightarrow> JObj (AList.update p (mangle_walk (q # ps) value c) kvs))
   | _ \<Rightarrow> cur)"

definition delay_message :: "'w chaos_env \<Rightarrow> ProxyFault \<Rightarrow> json \<Rightarrow> 'w \<Rightarrow> (py_exn + json option) \<times> 'w" where
  "delay_message ce f msg w =
     (if pf_ms f > 0 then
        (case (if pf_jitter f \<noteq> 0 then ce_uniform ce (pf_jitter f) w else (0, w)) of (u, w1) \<Rightarrow>
           (let t = of_int (pf_ms f) * (1 + u) / 1000 in
            if t < 0 then (Inl (PyExn ''ValueError'' ''sleep length must be non-negative''), w1)
            else (Inr (Some msg), ce_sleep ce t w1)))
      else (Inr (Some msg), w))"

definition apply_rule :: "'w chaos_env \<Rightarrow> ProxyFault \<Rightarrow> json \<Rightarrow> 'w \<Rightarrow> (py_exn + json option) \<times> 'w" where
  "apply_rule ce f msg w =
     (let kind = pf_kind f; same = Inr (Some msg) in
      if kind = ''delay'' then delay_message ce f msg w
      else if kind = ''drop_connection'' then (Inr None, w)
      else if kind = ''inject_status'' then
        ((case msg of JObj kvs \<Rightarrow> (case map_of kvs ''id'' of Some i \<Rightarrow> Inr (Some (error_reply f i)) | None \<Rightarrow> same) | _ \<Rightarrow> same), w)
      else if kind = ''inject_prompt'' then
        ((case msg of JObj kvs \<Rightarrow> map_sum id Some (prompt_call (pf_suffix f) kvs) | _ \<Rightarrow> same), w)
      else if kind = ''tool_shadow'' then
        ((case msg of JObj kvs \<Rightarrow> map_sum id Some (shadow_result (pf_extra_tool f) kvs) | _ \<Rightarrow> same), w)
      else if kind = ''schema_drift'' then
        ((case pf_drift_fn f of Some g \<Rightarrow> map_sum id Some (g msg) | None \<Rightarrow> same), w)
      else if kind = ''mangle_json'' then
        ((case msg of JObj kvs \<Rightarrow> Inr (Some (if pf_json_path f = [] then msg
             else mangle_walk (split_on (CHR ''.'') (pf_json_path f)) (pf_replacement f) msg)) | _ \<Rightarrow> same), w)
      else (same, w))"

text \<open>\<open>_apply_faults\<close>: the rules match the message as it came in; they change what the earlier ones left.\<close>

fun apply_rules :: "'w chaos_env \<Rightarrow> direction \<Rightarrow> json \<Rightarrow> ProxyFault list \<Rightarrow> json \<Rightarrow> 'w \<Rightarrow> (py_exn + json option) \<times> 'w" where
  "apply_rules ce d msg [] out w = (Inr (Some out), w)"
| "apply_rules ce d msg (f # fs) out w =
     (case rule_matches f msg d of
        Inl ex \<Rightarrow> (Inl ex, w)
      | Inr False \<Rightarrow> apply_rules ce d msg fs out w
      | Inr True \<Rightarrow>
          (case ce_random ce w of (r, w1) \<Rightarrow>
             if r > pf_probability f then apply_rules ce d msg fs out w1
             else (case apply_rule ce f out w1 of
                     (Inl ex, w2) \<Rightarrow> (Inl ex, w2)
                   | (Inr None, w2) \<Rightarrow> (Inr None, w2)
                   | (Inr (Some v), w2) \<Rightarrow> if v = JNull then (Inr (Some JNull), w2) else apply_rules ce d msg fs v w2)))"

definition apply_faults :: "'w chaos_env \<Rightarrow> ProxyFault list \<Rightarrow> direction \<Rightarrow> json \<Rightarrow> 'w \<Rightarrow> (py_exn + json option) \<times> 'w" where
  "apply_faults ce fs d msg w = apply_rules ce d msg fs msg w"

section \<open>The library calls\<close>

record MCPStdioProxy =
  sd_running :: bool
  sd_pending :: "json list"

text \<open>A write to the upstream succeeds, finds the pipe gone (\<open>BrokenPipeError\<close>, \<open>OSError\<close>), or raises otherwise.\<close>

datatype write_end = Written | PipeGone | WriteRaised py_exn

record 'w stdio_env =
  sv_chaos :: "'w chaos_env"
  sv_write :: "json \<Rightarrow> 'w \<Rightarrow> write_end \<times> 'w"
  sv_print :: "wire_text \<Rightarrow> 'w \<Rightarrow> py_exn option \<times> 'w"
  sv_read :: "'w \<Rightarrow> wire_text option \<times> 'w"

definition stop_proxy :: "MCPStdioProxy \<Rightarrow> MCPStdioProxy" where
  "stop_proxy s = s\<lparr>sd_running := False\<rparr>"

definition is_reply :: "json \<Rightarrow> bool" where
  "is_reply msg = (case msg of JObj kvs \<Rightarrow> map_of kvs ''method'' = None \<and> (map_of kvs ''error'' \<noteq> None \<or> map_of kvs ''result'' \<noteq> None) | _ \<Rightarrow> False)"

definition send_request ::
    "'w stdio_env \<Rightarrow> ProxyFault list \<Rightarrow> json \<Rightarrow> MCPStdioProxy \<Rightarrow> 'w \<Rightarrow> (py_exn + unit) \<times> MCPStdioProxy \<times> 'w" where
  "send_request env fs msg s w =
     (if \<not> sd_running s then (Inl (PyExn ''RuntimeError'' ''proxy not started''), s, w)
      else (case apply_faults (sv_chaos env) fs ToUpstream msg w of
              (Inl ex, w1) \<Rightarrow> (Inl ex, s, w1)
            | (Inr None, w1) \<Rightarrow> (Inr (), stop_proxy s, w1)
            | (Inr (Some out), w1) \<Rightarrow>
                if out = JNull then (Inr (), s, w1)
                else if is_reply out then (Inr (), s\<lparr>sd_pending := sd_pending s @ [out]\<rparr>, w1)
                else (case sv_write env out w1 of
                        (WriteRaised ex, w2) \<Rightarrow> (Inl ex, s, w2)
                      | (_, w2) \<Rightarrow> (Inr (), s, w2))))"

definition recv_response ::
    "'w stdio_env \<Rightarrow> ProxyFault list \<Rightarrow> MCPStdioProxy \<Rightarrow> 'w \<Rightarrow> (py_exn + json) \<times> MCPStdioProxy \<times> 'w" where
  "recv_response env fs s w =
     (case sd_pending s of
        r # rs \<Rightarrow> (Inr r, s\<lparr>sd_pending := rs\<rparr>, w)
      | [] \<Rightarrow>
          if \<not> sd_running s then (Inr JNull, s, w)
          else (case sv_read env w of
                  (None, w1) \<Rightarrow> (Inr JNull, s, w1)
                | (Some (PlainText t), w1) \<Rightarrow> (Inr JNull, s, w1)
                | (Some (JsonText msg), w1) \<Rightarrow>
                    (case apply_faults (sv_chaos env) fs FromUpstream msg w1 of
                       (Inl ex, w2) \<Rightarrow> (Inl ex, s, w2)
                     | (Inr None, w2) \<Rightarrow> (Inr JNull, stop_proxy s, w2)
                     | (Inr (Some out), w2) \<Rightarrow> (Inr out, s, w2))))"

section \<open>The pumps of the command line\<close>

text \<open>
  How a pump ends: its input ended, it saw the flag to stop, it tore the proxy down, the other end is
  gone, it raised.
\<close>

datatype pump_end = PumpEof | PumpStopped | PumpTorn | PumpBroken | PumpDied py_exn

fun pump_agent_to_upstream ::
    "'w stdio_env \<Rightarrow> ProxyFault list \<Rightarrow> (bool \<times> wire_text) list \<Rightarrow> 'w \<Rightarrow> json list \<times> pump_end \<times> 'w" where
  "pump_agent_to_upstream env fs [] w = ([], PumpEof, w)"
| "pump_agent_to_upstream env fs ((stop, line) # ls) w =
     (if stop then ([], PumpStopped, w)
      else (case line of
              PlainText t \<Rightarrow> pump_agent_to_upstream env fs ls w
            | JsonText msg \<Rightarrow>
                (case apply_faults (sv_chaos env) fs ToUpstream msg w of
                   (Inl ex, w1) \<Rightarrow> ([], PumpDied ex, w1)
                 | (Inr None, w1) \<Rightarrow> ([], PumpTorn, w1)
                 | (Inr (Some out), w1) \<Rightarrow>
                     if out = JNull then pump_agent_to_upstream env fs ls w1
                     else (case sv_write env out w1 of
                             (PipeGone, w2) \<Rightarrow> ([], PumpBroken, w2)
                           | (WriteRaised ex, w2) \<Rightarrow> ([], PumpDied ex, w2)
                           | (Written, w2) \<Rightarrow>
                               (case pump_agent_to_upstream env fs ls w2 of (outs, fin, w3) \<Rightarrow> (out # outs, fin, w3))))))"

fun pump_upstream_to_agent ::
    "'w stdio_env \<Rightarrow> ProxyFault list \<Rightarrow> (bool \<times> wire_text) list \<Rightarrow> 'w \<Rightarrow> wire_text list \<times> pump_end \<times> 'w" where
  "pump_upstream_to_agent env fs [] w = ([], PumpEof, w)"
| "pump_upstream_to_agent env fs ((stop, line) # ls) w =
     (if stop then ([], PumpStopped, w)
      else if line = PlainText [] then pump_upstream_to_agent env fs ls w
      else (case (case line of PlainText t \<Rightarrow> (Inr (Some line), w)
                  | JsonText msg \<Rightarrow> map_prod (map_sum id (map_option JsonText)) id (apply_faults (sv_chaos env) fs FromUpstream msg w)) of
              (Inl ex, w1) \<Rightarrow> ([], PumpDied ex, w1)
            | (Inr None, w1) \<Rightarrow> ([], PumpTorn, w1)
            | (Inr (Some out), w1) \<Rightarrow>
                if out = JsonText JNull then pump_upstream_to_agent env fs ls w1
                else (case sv_print env out w1 of
                        (Some ex, w2) \<Rightarrow> ([], PumpDied ex, w2)
                      | (None, w2) \<Rightarrow>
                          (case pump_upstream_to_agent env fs ls w2 of (outs, fin, w3) \<Rightarrow> (out # outs, fin, w3)))))"

text \<open>\<open>_parse_kv\<close> and the rules of \<open>main\<close>.\<close>

definition add_pair :: "string \<Rightarrow> (string \<times> json) list \<Rightarrow> (string \<times> json) list" where
  "add_pair kv d = (if CHR ''='' \<in> set kv then (case py_partition (CHR ''='') kv of (k, _, v) \<Rightarrow> AList.update (py_strip k) (JStr (py_strip v)) d) else d)"

definition parse_kv :: "string \<Rightarrow> (string \<times> json) list" where
  "parse_kv s = fold add_pair (split_on (CHR '','') s) []"

record stdio_args =
  ag_delay_ms :: int
  ag_tool_shadow :: string
  ag_inject_error :: string
  ag_drop_prob :: rat

definition spec_text :: "(string \<times> json) list \<Rightarrow> string \<Rightarrow> string \<Rightarrow> string" where
  "spec_text d k dflt = (case map_of d k of Some (JStr s) \<Rightarrow> s | _ \<Rightarrow> dflt)"

definition error_rule :: "string \<Rightarrow> py_exn + ProxyFault" where
  "error_rule text = (let d = parse_kv text; code = spec_text d ''code'' ''-32000'' in
     case py_int code of
       None \<Rightarrow> Inl (PyExn ''ValueError'' (''invalid literal for int() with base 10: '' @ repr_str code))
     | Some n \<Rightarrow> Inr ((proxy_fault ''inject_status'' (spec_text d ''method'' []) 1)\<lparr>pf_status := n, pf_body := spec_text d ''message'' ''injected''\<rparr>))"

definition main_rules :: "stdio_args \<Rightarrow> py_exn + ProxyFault list" where
  "main_rules a =
     (let delays = (if ag_delay_ms a > 0 then [(proxy_fault ''delay'' [] 1)\<lparr>pf_ms := ag_delay_ms a\<rparr>] else []);
          shadows = (if ag_tool_shadow a \<noteq> [] then [(proxy_fault ''tool_shadow'' [] 1)\<lparr>pf_extra_tool := Some (parse_kv (ag_tool_shadow a))\<rparr>] else []);
          drops = (if ag_drop_prob a > 0 then [proxy_fault ''drop_connection'' [] (ag_drop_prob a)] else [])
      in map_sum id (\<lambda>errs. delays @ shadows @ errs @ drops)
           (if ag_inject_error a \<noteq> [] then map_sum id (\<lambda>f. [f]) (error_rule (ag_inject_error a)) else Inr []))"

section \<open>Pumps keep the order\<close>

text \<open>
  A pump: each line gives at most one message, in order, until the pump stops, and nothing comes of a
  line at which it halts.
\<close>

locale line_pump =
  fixes pump :: "'a list \<Rightarrow> 'w \<Rightarrow> 'b list \<times> pump_end \<times> 'w" and halts :: "'a \<Rightarrow> bool" and passes :: "'a \<Rightarrow> 'b \<Rightarrow> bool"
  assumes stops: "fst (pump [] w) = []" and halted: "halts x \<Longrightarrow> fst (pump (x # xs) w) = []"
    and steps: "\<not> halts x \<Longrightarrow> pump (x # xs) w = (outs, fin, w') \<Longrightarrow>
      outs = [] \<or> (\<exists>w1. pump xs w1 = (outs, fin, w')) \<or> (\<exists>out outs1 w1. outs = out # outs1 \<and> passes x out \<and> pump xs w1 = (outs1, fin, w'))"
begin

lemma in_order: "pump xs w = (outs, fin, w') \<Longrightarrow> \<exists>sel. subseq sel (takeWhile (\<lambda>x. \<not> halts x) xs) \<and> list_all2 passes sel outs"
proof (induction xs arbitrary: w outs)
  case Nil
  then have "outs = []" using stops [of w] by simp
  then show ?case by (intro exI [of _ "[]"]) simp
next
  case (Cons x xs)
  show ?case
  proof (cases "halts x")
    case True
    then show ?thesis using halted [of x xs w] Cons.prems by simp
  next
    case False
    from steps [OF False Cons.prems] consider "outs = []" | w1 where "pump xs w1 = (outs, fin, w')"
      | out outs1 w1 where "outs = out # outs1" "passes x out" "pump xs w1 = (outs1, fin, w')" by blast
    then show ?thesis
    proof cases
      case 1
      then show ?thesis by (intro exI [of _ "[]"]) simp
    next
      case 2
      from Cons.IH [OF this] False show ?thesis by (auto intro: subseq_Cons')
    next
      case 3
      from Cons.IH [OF 3(3)] obtain sel where "subseq sel (takeWhile (\<lambda>x. \<not> halts x) xs)" "list_all2 passes sel outs1" by blast
      with 3 False show ?thesis by (intro exI [of _ "x # sel"]) simp
    qed
  qed
qed

end

definition passes_up :: "'w stdio_env \<Rightarrow> ProxyFault list \<Rightarrow> bool \<times> wire_text \<Rightarrow> json \<Rightarrow> bool" where
  "passes_up env fs line out \<longleftrightarrow>
     (\<exists>msg w w'. snd line = JsonText msg \<and> apply_faults (sv_chaos env) fs ToUpstream msg w = (Inr (Some out), w') \<and> out \<noteq> JNull)"

definition passes_down :: "'w stdio_env \<Rightarrow> ProxyFault list \<Rightarrow> bool \<times> wire_text \<Rightarrow> wire_text \<Rightarrow> bool" where
  "passes_down env fs line out \<longleftrightarrow>
     (\<exists>t. snd line = PlainText t \<and> t \<noteq> [] \<and> out = snd line) \<or>
     (\<exists>msg v w w'. snd line = JsonText msg \<and> apply_faults (sv_chaos env) fs FromUpstream msg w = (Inr (Some v), w') \<and> v \<noteq> JNull \<and> out = JsonText v)"

interpretation up: line_pump "pump_agent_to_upstream env fs" fst "passes_up env fs"
proof
  fix x xs w outs fin w'
  assume go: "\<not> fst x" and run: "pump_agent_to_upstream env fs (x # xs) w = (outs, fin, w')"
  obtain l where x: "x = (False, l)" using go by (cases x) simp
  show "outs = [] \<or> (\<exists>w1. pump_agent_to_upstream env fs xs w1 = (outs, fin, w')) \<or>
      (\<exists>out outs1 w1. outs = out # outs1 \<and> passes_up env fs x out \<and> pump_agent_to_upstream env fs xs w1 = (outs1, fin, w'))"
  proof (cases l)
    case (JsonText msg)
    obtain r w1 where a: "apply_faults (sv_chaos env) fs ToUpstream msg w = (r, w1)" by fastforce
    consider ex where "r = Inl ex" | "r = Inr None" | out where "r = Inr (Some out)" by (metis sum.exhaust option.exhaust)
    then show ?thesis
    proof cases
      case 3
      obtain ok w2 where wr: "sv_write env out w1 = (ok, w2)" by fastforce
      have "passes_up env fs x out" if "out \<noteq> JNull" using x JsonText a 3 that by (auto simp: passes_up_def)
      then show ?thesis using run x JsonText a 3 wr by (cases "out = JNull"; cases ok) (auto split: prod.splits)
    qed (use run x JsonText a in auto)
  qed (use run x in auto)
qed auto

interpretation down: line_pump "pump_upstream_to_agent env fs" fst "passes_down env fs"
proof
  fix x xs w outs fin w'
  assume go: "\<not> fst x" and run: "pump_upstream_to_agent env fs (x # xs) w = (outs, fin, w')"
  obtain l where x: "x = (False, l)" using go by (cases x) simp
  show "outs = [] \<or> (\<exists>w1. pump_upstream_to_agent env fs xs w1 = (outs, fin, w')) \<or>
      (\<exists>out outs1 w1. outs = out # outs1 \<and> passes_down env fs x out \<and> pump_upstream_to_agent env fs xs w1 = (outs1, fin, w'))"
  proof (cases l)
    case (JsonText msg)
    obtain r w1 where a: "apply_faults (sv_chaos env) fs FromUpstream msg w = (r, w1)" by fastforce
    consider ex where "r = Inl ex" | "r = Inr None" | out where "r = Inr (Some out)" by (metis sum.exhaust option.exhaust)
    then show ?thesis
    proof cases
      case 3
      obtain ok w2 where wr: "sv_print env (JsonText out) w1 = (ok, w2)" by fastforce
      have "passes_down env fs x (JsonText out)" if "out \<noteq> JNull" using x JsonText a 3 that by (auto simp: passes_down_def)
      then show ?thesis using run x JsonText a 3 wr by (cases "out = JNull"; cases ok) (auto split: prod.splits)
    qed (use run x JsonText a in auto)
  next
    case (PlainText t)
    obtain ok w2 where wr: "sv_print env l w = (ok, w2)" by fastforce
    have "passes_down env fs x l" if "t \<noteq> []" using x PlainText that by (auto simp: passes_down_def)
    then show ?thesis using run x PlainText wr by (cases "t = []"; cases ok) (auto split: prod.splits)
  qed
qed auto

section \<open>No rule for a message\<close>

definition unmatched :: "ProxyFault list \<Rightarrow> direction \<Rightarrow> json \<Rightarrow> bool" where
  "unmatched fs d msg \<longleftrightarrow> (\<forall>f \<in> set fs. rule_matches f msg d = Inr False)"

lemma unmatched_passes: "unmatched fs d msg \<Longrightarrow> apply_faults ce fs d msg w = (Inr (Some msg), w)"
proof -
  have "\<forall>f \<in> set fs. rule_matches f msg d = Inr False \<Longrightarrow> apply_rules ce d msg fs out w = (Inr (Some out), w)" for out
    by (induction fs) auto
  then show "unmatched fs d msg \<Longrightarrow> ?thesis" by (simp add: unmatched_def apply_faults_def)
qed

text \<open>A line that carries a message, that is JSON and not \<open>null\<close>.\<close>

fun message_of :: "wire_text \<Rightarrow> json list" where
  "message_of (JsonText msg) = (if msg = JNull then [] else [msg])"
| "message_of (PlainText t) = []"

definition kept_lines :: "wire_text list \<Rightarrow> wire_text list" where
  "kept_lines ls = filter (\<lambda>l. l \<noteq> PlainText [] \<and> l \<noteq> JsonText JNull) ls"

text \<open>The lines a pump reads before it sees the flag to stop, and how it ends on them when nothing fails.\<close>

definition read_lines :: "(bool \<times> wire_text) list \<Rightarrow> wire_text list" where
  "read_lines ls = map snd (takeWhile (\<lambda>l. \<not> fst l) ls)"

definition quiet_end :: "(bool \<times> wire_text) list \<Rightarrow> pump_end" where
  "quiet_end ls = (if list_ex fst ls then PumpStopped else PumpEof)"

lemma read_lines_simps [simp]:
  "read_lines [] = []" "read_lines ((False, l) # ls) = l # read_lines ls" "read_lines ((True, l) # ls) = []"
  "quiet_end [] = PumpEof" "quiet_end ((False, l) # ls) = quiet_end ls" "quiet_end ((True, l) # ls) = PumpStopped"
  by (simp_all add: read_lines_def quiet_end_def)

lemma quiet_up:
  assumes "\<forall>msg. JsonText msg \<in> set (read_lines ls) \<longrightarrow> unmatched fs ToUpstream msg" and "\<forall>m w. fst (sv_write env m w) = Written"
  shows "\<exists>w'. pump_agent_to_upstream env fs ls w = (concat (map message_of (read_lines ls)), quiet_end ls, w')"
  using assms(1)
proof (induction ls arbitrary: w)
  case (Cons sl ls)
  obtain stop l where sl: "sl = (stop, l)" by fastforce
  show ?case
  proof (cases stop)
    case True
    then show ?thesis using sl by simp
  next
    case False
    show ?thesis
    proof (cases l)
      case (JsonText msg)
      obtain w1 where wr: "sv_write env msg w = (Written, w1)" using assms(2) by (metis prod.collapse)
      have "unmatched fs ToUpstream msg" using Cons.prems JsonText sl False by simp
      from unmatched_passes [OF this, of "sv_chaos env" w] show ?thesis
        using Cons.IH [of w] Cons.IH [of w1] Cons.prems JsonText wr sl False by auto
    next
      case (PlainText t)
      then show ?thesis using Cons sl False by simp
    qed
  qed
qed simp

lemma quiet_down:
  assumes "\<forall>msg. JsonText msg \<in> set (read_lines ls) \<longrightarrow> unmatched fs FromUpstream msg" and "\<forall>m w. fst (sv_print env m w) = None"
  shows "\<exists>w'. pump_upstream_to_agent env fs ls w = (kept_lines (read_lines ls), quiet_end ls, w')"
  using assms(1)
proof (induction ls arbitrary: w)
  case (Cons sl ls)
  obtain stop l where sl: "sl = (stop, l)" by fastforce
  obtain w1 where wr: "sv_print env l w = (None, w1)" using assms(2) by (metis prod.collapse)
  have "apply_faults (sv_chaos env) fs FromUpstream msg w = (Inr (Some msg), w)" if "l = JsonText msg" "\<not> stop" for msg
    using Cons.prems that sl by (intro unmatched_passes) simp
  then show ?case using Cons.IH [of w] Cons.IH [of w1] Cons.prems wr sl by (cases stop; cases l) (auto simp: kept_lines_def)
qed (simp add: kept_lines_def)

section \<open>Properties\<close>

text \<open>
  C32. The pumps of the stdio proxy keep the conversation in order. Whatever the rules and the
  pipes do and whenever another thread sets the flag to stop, what comes out of a pump is made of some of the
  lines it read before it saw the flag, in their order and each at most once, changed only by the
  rules. Where no rule matches a message and no write fails, every JSON message the agent
  pump read before the flag reaches the upstream unchanged (its lines that are not JSON are dropped), and
  every line of the upstream that was read before the flag, but empty ones and \<open>null\<close>, reaches the agent
  unchanged; the pump then ends at the flag or at the end of its input.
\<close>

theorem stdio_pumps_in_order:
  assumes "pump_agent_to_upstream env fs ls w = (outs, fin, w')" and "pump_upstream_to_agent env fs ks v = (ins, fin', v')"
  shows "(\<exists>sel. subseq sel (takeWhile (\<lambda>l. \<not> fst l) ls) \<and> list_all2 (passes_up env fs) sel outs) \<and>
    (\<exists>sel. subseq sel (takeWhile (\<lambda>l. \<not> fst l) ks) \<and> list_all2 (passes_down env fs) sel ins) \<and>
    ((\<forall>msg. JsonText msg \<in> set (read_lines ls) \<longrightarrow> unmatched fs ToUpstream msg) \<and> (\<forall>m w. fst (sv_write env m w) = Written) \<longrightarrow>
       outs = concat (map message_of (read_lines ls)) \<and> fin = quiet_end ls) \<and>
    ((\<forall>msg. JsonText msg \<in> set (read_lines ks) \<longrightarrow> unmatched fs FromUpstream msg) \<and> (\<forall>m w. fst (sv_print env m w) = None) \<longrightarrow>
       ins = kept_lines (read_lines ks) \<and> fin' = quiet_end ks)"
proof (intro conjI impI)
  show "\<exists>sel. subseq sel (takeWhile (\<lambda>l. \<not> fst l) ls) \<and> list_all2 (passes_up env fs) sel outs" by (rule up.in_order [OF assms(1)])
  show "\<exists>sel. subseq sel (takeWhile (\<lambda>l. \<not> fst l) ks) \<and> list_all2 (passes_down env fs) sel ins" by (rule down.in_order [OF assms(2)])
next
  assume "(\<forall>msg. JsonText msg \<in> set (read_lines ls) \<longrightarrow> unmatched fs ToUpstream msg) \<and> (\<forall>m w. fst (sv_write env m w) = Written)"
  with quiet_up [of ls fs env w] assms(1) show "outs = concat (map message_of (read_lines ls))" "fin = quiet_end ls" by auto
next
  assume "(\<forall>msg. JsonText msg \<in> set (read_lines ks) \<longrightarrow> unmatched fs FromUpstream msg) \<and> (\<forall>m w. fst (sv_print env m w) = None)"
  with quiet_down [of ks fs env v] assms(2) show "ins = kept_lines (read_lines ks)" "fin' = quiet_end ks" by auto
qed

definition tools_call :: "int \<Rightarrow> json" where
  "tools_call i = JObj [(''jsonrpc'', JStr ''2.0''), (''id'', JNum i), (''method'', JStr ''tools/call''), (''params'', JObj [])]"

definition pipe_env :: "unit stdio_env" where
  "pipe_env = \<lparr>sv_chaos = still_env, sv_write = (\<lambda>m w. (Written, w)), sv_print = (\<lambda>t w. (None, w)), sv_read = (\<lambda>w. (None, w))\<rparr>"

definition agent_lines :: "(bool \<times> wire_text) list" where
  "agent_lines = [(False, JsonText (tools_call 1)), (False, PlainText ''log''), (True, JsonText (tools_call 2))]"

theorem stdio_pumps_in_order_witness:
  "pump_agent_to_upstream pipe_env [] agent_lines () = ([tools_call 1], PumpStopped, ()) \<and>
   pump_upstream_to_agent pipe_env [] [(False, PlainText ''log''), (True, PlainText ''late'')] () = ([PlainText ''log''], PumpStopped, ())"
proof -
  obtain outs fin where up: "pump_agent_to_upstream pipe_env [] agent_lines () = (outs, fin, ())"
    by (cases "pump_agent_to_upstream pipe_env [] agent_lines ()") simp
  obtain ins fin' where down: "pump_upstream_to_agent pipe_env [] [(False, PlainText ''log''), (True, PlainText ''late'')] () = (ins, fin', ())"
    by (cases "pump_upstream_to_agent pipe_env [] [(False, PlainText ''log''), (True, PlainText ''late'')] ()") simp
  have "outs = concat (map message_of (read_lines agent_lines)) \<and> fin = quiet_end agent_lines"
    and "ins = kept_lines (read_lines [(False, PlainText ''log''), (True, PlainText ''late'')]) \<and>
      fin' = quiet_end [(False, PlainText ''log''), (True, PlainText ''late'')]"
    using stdio_pumps_in_order [OF up down] by (simp_all add: unmatched_def pipe_env_def)
  with up down show ?thesis by (simp add: agent_lines_def tools_call_def kept_lines_def)
qed

text \<open>What becomes of a request: it is forwarded, answered by the proxy, deleted, or ends the proxy.\<close>

lemma request_fate:
  assumes "sd_running s" and "apply_faults (sv_chaos env) fs ToUpstream msg w = (Inr r, w1)" and "\<And>m w ex. fst (sv_write env m w) \<noteq> WriteRaised ex"
  shows "send_request env fs msg s w = (Inr (), (case r of
      None \<Rightarrow> (s\<lparr>sd_running := False\<rparr>, w1)
    | Some out \<Rightarrow> if out = JNull then (s, w1)
        else if is_reply out then (s\<lparr>sd_pending := sd_pending s @ [out]\<rparr>, w1) else (s, snd (sv_write env out w1))))"
  using assms by (auto simp: send_request_def stop_proxy_def split: option.splits prod.splits write_end.splits) (metis fst_conv)

lemma injected_error_answered:
  assumes "sd_running s" and "sd_pending s = []" and "f = inject_status ''tools/'' (-32603) ''down'' 1"
    and "fst (ce_random (sv_chaos env) w) \<le> 1" and "\<And>m w ex. fst (sv_write env m w) \<noteq> WriteRaised ex"
  shows "\<exists>s1. send_request env [f] (tools_call i) s w = (Inr (), s1, snd (ce_random (sv_chaos env) w)) \<and>
     recv_response env fs s1 w' = (Inr (error_reply f (JNum i)), s, w')"
proof -
  have "apply_faults (sv_chaos env) [f] ToUpstream (tools_call i) w = (Inr (Some (error_reply f (JNum i))), snd (ce_random (sv_chaos env) w))"
    using assms(3,4)
    by (auto simp: apply_faults_def rule_matches_def method_of_def tools_call_def json_or_def inject_status_def proxy_fault_def
        path_starts_def kinds_of_def apply_rule_def error_reply_def Let_def split: prod.splits)
  from request_fate [OF assms(1) this assms(5)] assms(2) show ?thesis by (simp add: is_reply_def error_reply_def recv_response_def)
qed

text \<open>On the command line the same error is written to the upstream and the agent gets no answer.\<close>

lemma injected_error_sent_upstream:
  assumes "fst (ce_random (sv_chaos env) w) \<le> 1" and "f = inject_status ''tools/call'' (-32603) ''down'' 1"
    and "sv_write env (error_reply f (JNum i)) (snd (ce_random (sv_chaos env) w)) = (Written, w2)"
  shows "pump_agent_to_upstream env [f] [(False, JsonText (tools_call i))] w = ([error_reply f (JNum i)], PumpEof, w2)"
  using assms
  by (auto simp: apply_faults_def rule_matches_def method_of_def tools_call_def json_or_def inject_status_def proxy_fault_def
      path_starts_def kinds_of_def apply_rule_def error_reply_def Let_def split: prod.splits)

text \<open>The agent's answer to a request of the server comes back to the agent instead of going upstream.\<close>

lemma agent_reply_bounced:
  assumes "sd_running s" and "unmatched fs ToUpstream msg" and "is_reply msg" and "\<And>m w ex. fst (sv_write env m w) \<noteq> WriteRaised ex"
  shows "send_request env fs msg s w = (Inr (), s\<lparr>sd_pending := sd_pending s @ [msg]\<rparr>, w)"
proof -
  have "msg \<noteq> JNull" using assms(3) by (auto simp: is_reply_def)
  with request_fate [OF assms(1) unmatched_passes [OF assms(2)] assms(4)] assms(3) show ?thesis by simp
qed

text \<open>A rule that is scoped to a method never matches a response, which has no method.\<close>

lemma scoped_rule_misses_response:
  "pf_path_prefix f \<noteq> [] \<Longrightarrow> map_of kvs ''method'' = None \<Longrightarrow> rule_matches f (JObj kvs) d = Inr False"
  by (simp add: rule_matches_def method_of_def json_or_def path_starts_def)

text \<open>The elements of a batch are not looked at: only delays, drops and drift functions touch it.\<close>

lemma batch_untouched:
  "pf_kind f \<in> {''inject_status'', ''inject_prompt'', ''tool_shadow'', ''mangle_json''} \<Longrightarrow> apply_rule ce f (JArr msgs) w = (Inr (Some (JArr msgs)), w)"
  by (auto simp: apply_rule_def Let_def)

text \<open>A response whose result is \<open>null\<close> ends the pump of a proxy that shadows tools.\<close>

lemma null_result_ends_pump:
  assumes "fst (ce_random (sv_chaos env) w) \<le> 1"
  shows "pump_upstream_to_agent env [tool_shadow [] t 1] ((False, JsonText (JObj [(''id'', JNum 1), (''result'', JNull)])) # ls) w =
     ([], PumpDied (no_attribute JNull ''get''), snd (ce_random (sv_chaos env) w))"
  using assms
  by (auto simp: apply_faults_def rule_matches_def tool_shadow_def proxy_fault_def kinds_of_def apply_rule_def shadow_result_def Let_def
      split: prod.splits)

end
