(* ===== verification/SdkReactions.thy ===== *)
theory SdkReactions
  imports SdkOutbox
begin

text \<open>
  The event-bus surface of the gRPC SDK (\<open>reactions.py\<close>): the registry of reactions and the
  decorators that fill it, the subject patterns they build, registration on the server, the
  two back-pressure primitives, the handling of a claimed task and one pass of the
  dispatcher and of the Pub/Sub bridge.

  The client, the handlers and the publisher act on the world and may raise. Readings of
  \<open>time.monotonic()\<close> are rationals and parameters; a bucket and a debouncer are guarded by a
  lock, so one call of theirs is one step. The OpenTelemetry span around a handler is left
  out: it does not change what is called.
\<close>

section \<open>Reactions\<close>

definition HANDLER_KIND_AGENT :: int where
  "HANDLER_KIND_AGENT = 1"

definition HANDLER_KIND_TASK :: int where
  "HANDLER_KIND_TASK = 2"

definition HANDLER_KIND_PUBLISH :: int where
  "HANDLER_KIND_PUBLISH = 3"

type_synonym 'w handler = "json \<Rightarrow> 'w \<Rightarrow> (py_exn + unit) \<times> 'w"

record 'w ReactionDef =
  rd_subject_pattern :: string
  rd_handler :: "'w handler option"
  rd_handler_kind :: int
  rd_predicate_cel :: string
  rd_agent_app :: string
  rd_publish_target :: string
  rd_max_concurrency :: int
  rd_rate_limit_per_s :: int
  rd_debounce_ms :: int
  rd_retry_max :: int
  rd_retry_backoff_ms :: int
  rd_dlq_after_n :: int
  rd_num_shards :: int
  rd_name :: string
  rd_reaction_id :: string
  rd_server_reaction_id :: string

record on_args =
  oa_predicate :: "string option"
  oa_agent :: "string option"
  oa_publish :: "string option"
  oa_max_concurrency :: int
  oa_rate_limit_per_s :: int
  oa_debounce_ms :: int
  oa_retry_max :: int
  oa_retry_backoff_ms :: int
  oa_dlq_after_n :: int
  oa_num_shards :: int
  oa_name :: string
  oa_reaction_id :: string

definition on_defaults :: on_args where
  "on_defaults = \<lparr>oa_predicate = None, oa_agent = None, oa_publish = None, oa_max_concurrency = 1,
     oa_rate_limit_per_s = 0, oa_debounce_ms = 0, oa_retry_max = 5, oa_retry_backoff_ms = 1000,
     oa_dlq_after_n = 5, oa_num_shards = 1, oa_name = [], oa_reaction_id = []\<rparr>"

definition resolve_handler_kind :: "string option \<Rightarrow> string option \<Rightarrow> tape_error + int \<times> string \<times> string" where
  "resolve_handler_kind agent publish =
     (if truthy_str agent \<and> truthy_str publish then
        Inl (ValueError ''@tape.on(...): pass either agent= OR publish=, not both'')
      else if truthy_str agent then Inr (HANDLER_KIND_AGENT, the agent, [])
      else if truthy_str publish then Inr (HANDLER_KIND_PUBLISH, [], the publish)
      else Inr (HANDLER_KIND_TASK, [], []))"

text \<open>The decorator applied to a handler of the given \<open>__name__\<close>, on the process registry.\<close>

definition on_reaction ::
    "string \<Rightarrow> on_args \<Rightarrow> 'w handler \<Rightarrow> string \<Rightarrow> 'w ReactionDef list \<Rightarrow> tape_error + 'w ReactionDef list" where
  "on_reaction subject_pattern a fn fn_nm registry =
     (case resolve_handler_kind (oa_agent a) (oa_publish a) of
        Inl e \<Rightarrow> Inl e
      | Inr (kind, agent_app, publish_target) \<Rightarrow>
          Inr (registry @ [\<lparr>rd_subject_pattern = subject_pattern, rd_handler = Some fn, rd_handler_kind = kind,
            rd_predicate_cel = str_default (oa_predicate a) [], rd_agent_app = agent_app,
            rd_publish_target = publish_target, rd_max_concurrency = max 1 (oa_max_concurrency a),
            rd_rate_limit_per_s = oa_rate_limit_per_s a, rd_debounce_ms = oa_debounce_ms a,
            rd_retry_max = oa_retry_max a, rd_retry_backoff_ms = oa_retry_backoff_ms a,
            rd_dlq_after_n = oa_dlq_after_n a, rd_num_shards = max 1 (oa_num_shards a),
            rd_name = str_or (oa_name a) fn_nm, rd_reaction_id = oa_reaction_id a,
            rd_server_reaction_id = []\<rparr>]))"

section \<open>Subjects\<close>

text \<open>\<open>urllib.parse.quote(s, safe="")\<close> on the bytes of a string.\<close>

definition url_safe :: "char \<Rightarrow> bool" where
  "url_safe c \<longleftrightarrow> (let n = (of_char c :: nat) in
     48 \<le> n \<and> n \<le> 57 \<or> 65 \<le> n \<and> n \<le> 90 \<or> 97 \<le> n \<and> n \<le> 122 \<or> n \<in> {45, 46, 95, 126})"

definition hex_upper :: "nat \<Rightarrow> char" where
  "hex_upper n = (if n < 10 then char_of (48 + n) else char_of (55 + n))"

definition quote_char :: "char \<Rightarrow> string" where
  "quote_char c = (if url_safe c then [c]
     else [CHR ''%'', hex_upper (of_char c div 16), hex_upper (of_char c mod 16)])"

definition url_quote :: "string \<Rightarrow> string" where
  "url_quote s = concat (map quote_char s)"

definition seg :: "string \<Rightarrow> string" where
  "seg s = (if s = ''*'' \<or> s = ''**'' then s else url_quote s)"

definition on_value_change where
  "on_value_change namespace key a = on_reaction (''/tape/value/changed/'' @ seg namespace @ ''/'' @ seg key) a"

definition on_value_deleted where
  "on_value_deleted namespace key a = on_reaction (''/tape/value/deleted/'' @ seg namespace @ ''/'' @ seg key) a"

definition on_effect_confirmed where
  "on_effect_confirmed tool a = on_reaction (''/tape/effect/confirmed/'' @ seg tool @ ''/**'') a"

definition on_effect_failed where
  "on_effect_failed tool a = on_reaction (''/tape/effect/failed/'' @ seg tool @ ''/**'') a"

definition on_effect_unknown where
  "on_effect_unknown tool a = on_reaction (''/tape/effect/unknown/'' @ seg tool @ ''/**'') a"

definition on_decision_recorded where
  "on_decision_recorded a = on_reaction ''/tape/decision/recorded/**'' a"

definition on_gate where
  "on_gate gate verb a = on_reaction (''/tape/gate/'' @ seg verb @ ''/'' @ seg gate @ ''/**'') a"

definition on_run where
  "on_run status a = on_reaction (''/tape/run/'' @ seg status @ ''/**'') a"

text \<open>The segments of a path, and the inverse of the quoting.\<close>

fun segments_from :: "string \<Rightarrow> string \<Rightarrow> string list" where
  "segments_from acc [] = [acc]"
| "segments_from acc (c # cs) = (if c = CHR ''/'' then acc # segments_from [] cs else segments_from (acc @ [c]) cs)"

definition segments :: "string \<Rightarrow> string list" where
  "segments s = segments_from [] s"

definition hex_value :: "char \<Rightarrow> nat" where
  "hex_value c = (let n = of_char c in if n < 58 then n - 48 else n - 55)"

fun url_unquote :: "string \<Rightarrow> string" where
  "url_unquote [] = []"
| "url_unquote (c # cs) =
     (if c = CHR ''%'' then
        (case cs of a # b # rest \<Rightarrow> char_of (16 * hex_value a + hex_value b) # url_unquote rest | _ \<Rightarrow> c # url_unquote cs)
      else c # url_unquote cs)"

section \<open>Registration\<close>

text \<open>
  \<open>RegisterReaction\<close> returns the stored reaction, of which the code keeps the id. The loop
  writes the id back into the registry entry; entries before a failing call keep theirs.
\<close>

type_synonym 'w register_rpc = "string \<Rightarrow> 'w ReactionDef \<Rightarrow> 'w \<Rightarrow> (py_exn + string) \<times> 'w"

fun register_all ::
    "'w register_rpc \<Rightarrow> string \<Rightarrow> 'w ReactionDef list \<Rightarrow> 'w \<Rightarrow> (py_exn + string list) \<times> 'w ReactionDef list \<times> 'w" where
  "register_all rpc prefix [] w = (Inr [], [], w)"
| "register_all rpc prefix (rd # rds) w =
     (case rpc (if prefix \<noteq> [] then prefix @ rd_name rd else rd_name rd) rd w of
        (Inl ex, w') \<Rightarrow> (Inl ex, rd # rds, w')
      | (Inr rid, w') \<Rightarrow>
          (case register_all rpc prefix rds w' of
             (Inl ex, rds', w'') \<Rightarrow> (Inl ex, rd\<lparr>rd_server_reaction_id := rid\<rparr> # rds', w'')
           | (Inr rids, rds', w'') \<Rightarrow> (Inr (rid # rids), rd\<lparr>rd_server_reaction_id := rid\<rparr> # rds', w'')))"

section \<open>Back-pressure\<close>

record TokenBucket =
  tb_rate :: int
  tb_tokens :: rat
  tb_last :: rat

definition new_bucket :: "int \<Rightarrow> rat \<Rightarrow> TokenBucket" where
  "new_bucket rate_per_s now = \<lparr>tb_rate = max 0 rate_per_s, tb_tokens = of_int (max 0 rate_per_s), tb_last = now\<rparr>"

text \<open>One round of \<open>acquire\<close>'s loop: granted, or the time to sleep.\<close>

definition bucket_step :: "rat \<Rightarrow> TokenBucket \<Rightarrow> rat option \<times> TokenBucket" where
  "bucket_step now b =
     (let elapsed = now - tb_last b;
          tokens = min (of_int (tb_rate b)) (tb_tokens b + elapsed * of_int (tb_rate b))
      in if tokens \<ge> 1 then (None, b\<lparr>tb_last := now, tb_tokens := tokens - 1\<rparr>)
         else (Some (min (1/4) ((1 - tokens) / of_int (tb_rate b))), b\<lparr>tb_last := now, tb_tokens := tokens\<rparr>))"

text \<open>
  \<open>acquire\<close> over the clock readings it takes, one per round: whether a token was granted,
  the sleeps between the readings and the bucket.
\<close>

fun acquire_loop :: "rat list \<Rightarrow> TokenBucket \<Rightarrow> bool \<times> rat list \<times> TokenBucket" where
  "acquire_loop [] b = (False, [], b)"
| "acquire_loop (now # ts) b =
     (case bucket_step now b of
        (None, b') \<Rightarrow> (True, [], b')
      | (Some s, b') \<Rightarrow> (case acquire_loop ts b' of (ok, ss, b'') \<Rightarrow> (ok, s # ss, b'')))"

definition acquire :: "rat list \<Rightarrow> TokenBucket \<Rightarrow> bool \<times> rat list \<times> TokenBucket" where
  "acquire ts b = (if tb_rate b \<le> 0 then (True, [], b) else acquire_loop ts b)"

record Debouncer =
  db_window :: rat
  db_last :: "string \<rightharpoonup> rat"

definition new_debouncer :: "int \<Rightarrow> Debouncer" where
  "new_debouncer window_ms = \<lparr>db_window = of_int (max 0 window_ms) / 1000, db_last = Map.empty\<rparr>"

definition allow :: "rat \<Rightarrow> string \<Rightarrow> Debouncer \<Rightarrow> bool \<times> Debouncer" where
  "allow now subject d =
     (if db_window d \<le> 0 then (True, d)
      else (let last = (case db_last d subject of Some t \<Rightarrow> t | None \<Rightarrow> -1)
            in if last < 0 \<or> now - last \<ge> db_window d then (True, d\<lparr>db_last := (db_last d)(subject \<mapsto> now)\<rparr>)
               else (False, d)))"

section \<open>Tasks\<close>

record PbTask =
  pt_task_id :: string
  pt_reaction_id :: string
  pt_subject :: string
  pt_source_run_id :: string
  pt_source_global_seq :: int
  pt_attempts :: int
  pt_trace_id :: string
  pt_parent_span_id :: string
  pt_payload_json :: wire_text

definition text_json :: "wire_text \<Rightarrow> json" where
  "text_json t = (case t of JsonText v \<Rightarrow> v | PlainText s \<Rightarrow> if s = [] then JObj [] else JObj [(''raw'', JStr s)])"

text \<open>
  The dict a handler gets; \<open>raw\<close> renders the payload text as the string it is.
\<close>

definition envelope_of :: "(wire_text \<Rightarrow> string) \<Rightarrow> PbTask \<Rightarrow> json" where
  "envelope_of raw t = JObj [(''task_id'', JStr (pt_task_id t)), (''reaction_id'', JStr (pt_reaction_id t)),
     (''subject'', JStr (pt_subject t)), (''source_run_id'', JStr (pt_source_run_id t)),
     (''source_global_seq'', JNum (pt_source_global_seq t)), (''attempts'', JNum (pt_attempts t)),
     (''trace_id'', JStr (pt_trace_id t)), (''parent_span_id'', JStr (pt_parent_span_id t)),
     (''payload'', text_json (pt_payload_json t)), (''payload_json'', JStr (raw (pt_payload_json t)))]"

definition run_handler :: "(wire_text \<Rightarrow> string) \<Rightarrow> 'w ReactionDef \<Rightarrow> PbTask \<Rightarrow> 'w \<Rightarrow> (py_exn + unit) \<times> 'w" where
  "run_handler raw rd t w = (case rd_handler rd of None \<Rightarrow> (Inr (), w) | Some fn \<Rightarrow> fn (envelope_of raw t) w)"

record 'w task_client =
  tk_claim_tasks :: "string \<Rightarrow> string \<Rightarrow> int \<Rightarrow> int \<Rightarrow> 'w \<Rightarrow> (py_exn + PbTask list) \<times> 'w"
  tk_complete_task :: "string \<Rightarrow> string \<Rightarrow> 'w \<Rightarrow> (py_exn + unit) \<times> 'w"
  tk_nack_task :: "string \<Rightarrow> string \<Rightarrow> string \<Rightarrow> bool \<Rightarrow> 'w \<Rightarrow> (py_exn + unit) \<times> 'w"

text \<open>
  \<open>_dispatch_one\<close>: a debounced task is completed on the spot, any other is submitted.
\<close>

definition dispatch_task ::
    "'w task_client \<Rightarrow> string \<Rightarrow> rat \<Rightarrow> PbTask \<Rightarrow> Debouncer \<Rightarrow> 'w \<Rightarrow> bool \<times> Debouncer \<times> 'w" where
  "dispatch_task cl owner now t d w =
     (case allow now (pt_subject t) d of
        (True, d') \<Rightarrow> (True, d', w)
      | (False, d') \<Rightarrow> (False, d', snd (tk_complete_task cl (pt_task_id t) owner w)))"

text \<open>
  The work of a submitted task after its token: the handler and the completion share one
  \<open>try\<close>, so a failing completion is reported as a failed attempt too.
\<close>

definition work ::
    "(wire_text \<Rightarrow> string) \<Rightarrow> 'w ReactionDef \<Rightarrow> 'w task_client \<Rightarrow> string \<Rightarrow> PbTask \<Rightarrow> 'w \<Rightarrow> 'w" where
  "work raw rd cl owner t w =
     (case and_then (run_handler raw rd t w) (\<lambda>_. tk_complete_task cl (pt_task_id t) owner) of
        (Inr _, w') \<Rightarrow> w'
      | (Inl ex, w') \<Rightarrow>
          snd (tk_nack_task cl (pt_task_id t) owner (exn_text ex) (pt_attempts t \<ge> rd_dlq_after_n rd) w'))"

text \<open>The work with its token: \<open>None\<close> while the readings grant none.\<close>

definition worker ::
    "(wire_text \<Rightarrow> string) \<Rightarrow> 'w ReactionDef \<Rightarrow> 'w task_client \<Rightarrow> string \<Rightarrow> rat list \<Rightarrow> PbTask \<Rightarrow> TokenBucket \<times> 'w \<Rightarrow>
     (TokenBucket \<times> 'w) option" where
  "worker raw rd cl owner ts t bw =
     (case bw of (b, w) \<Rightarrow>
        (case acquire ts b of
           (True, _, b') \<Rightarrow> Some (b', work raw rd cl owner t w)
         | (False, _, b') \<Rightarrow> None))"

fun submit_tasks ::
    "'w task_client \<Rightarrow> string \<Rightarrow> (nat \<Rightarrow> rat) \<Rightarrow> nat \<Rightarrow> PbTask list \<Rightarrow> Debouncer \<Rightarrow> 'w \<Rightarrow> PbTask list \<times> Debouncer \<times> 'w" where
  "submit_tasks cl owner clk i [] d w = ([], d, w)"
| "submit_tasks cl owner clk i (t # ts) d w =
     (case dispatch_task cl owner (clk i) t d w of (ok, d', w') \<Rightarrow>
        (case submit_tasks cl owner clk (Suc i) ts d' w' of (sub, d'', w'') \<Rightarrow>
           ((if ok then t # sub else sub), d'', w'')))"

text \<open>
  The claims of one pass over a reaction: what is submitted to its executor. A failing
  claim skips the reaction.
\<close>

definition claim_reaction ::
    "'w task_client \<Rightarrow> string \<Rightarrow> int \<Rightarrow> int \<Rightarrow> (nat \<Rightarrow> rat) \<Rightarrow> string \<Rightarrow> Debouncer \<Rightarrow> 'w \<Rightarrow> PbTask list \<times> Debouncer \<times> 'w" where
  "claim_reaction cl owner lease_ms claim_max clk rid d w =
     (case tk_claim_tasks cl rid owner lease_ms claim_max w of
        (Inl ex, w') \<Rightarrow> ([], d, w')
      | (Inr ts, w') \<Rightarrow> submit_tasks cl owner clk 0 ts d w')"

text \<open>The reactions a dispatcher drives, by their server id.\<close>

definition dispatched_reactions :: "'w ReactionDef list \<Rightarrow> (string \<times> 'w ReactionDef) list" where
  "dispatched_reactions registry =
     fold (\<lambda>rd st. if rd_handler_kind rd = HANDLER_KIND_TASK \<and> rd_server_reaction_id rd \<noteq> []
                   then AList.update (rd_server_reaction_id rd) rd st else st) registry []"

section \<open>The Pub/Sub bridge\<close>

definition bridge_attrs :: "PbTask \<Rightarrow> (string \<times> string) list" where
  "bridge_attrs t = [(''tape-task-id'', pt_task_id t), (''tape-reaction-id'', pt_reaction_id t),
     (''tape-subject'', pt_subject t), (''tape-global-seq'', int_str (pt_source_global_seq t)),
     (''tape-trace-id'', pt_trace_id t)]"

text \<open>
  \<open>publish payload ordering_key attrs\<close> is the publication with the wait for its result.
\<close>

definition bridge_task ::
    "(wire_text \<Rightarrow> string \<Rightarrow> (string \<times> string) list \<Rightarrow> 'w \<Rightarrow> (py_exn + unit) \<times> 'w) \<Rightarrow> 'w task_client \<Rightarrow> string \<Rightarrow> PbTask \<Rightarrow> 'w \<Rightarrow> 'w" where
  "bridge_task publish cl owner t w =
     (case and_then (publish (pt_payload_json t) (pt_source_run_id t) (bridge_attrs t) w)
             (\<lambda>_. tk_complete_task cl (pt_task_id t) owner) of
        (Inr _, w') \<Rightarrow> w'
      | (Inl ex, w') \<Rightarrow> snd (tk_nack_task cl (pt_task_id t) owner (''pubsub-publish: '' @ exn_msg ex) False w'))"

definition bridge_reaction ::
    "(wire_text \<Rightarrow> string \<Rightarrow> (string \<times> string) list \<Rightarrow> 'w \<Rightarrow> (py_exn + unit) \<times> 'w) \<Rightarrow> 'w task_client \<Rightarrow> string \<Rightarrow> int \<Rightarrow> int \<Rightarrow>
     string \<Rightarrow> 'w \<Rightarrow> 'w" where
  "bridge_reaction publish cl owner lease_ms claim_max rid w =
     (case tk_claim_tasks cl rid owner lease_ms claim_max w of
        (Inl ex, w') \<Rightarrow> w'
      | (Inr ts, w') \<Rightarrow> fold (bridge_task publish cl owner) ts w')"

definition bridge_pass ::
    "(wire_text \<Rightarrow> string \<Rightarrow> (string \<times> string) list \<Rightarrow> 'w \<Rightarrow> (py_exn + unit) \<times> 'w) \<Rightarrow> 'w task_client \<Rightarrow> string \<Rightarrow> int \<Rightarrow> int \<Rightarrow>
     string list \<Rightarrow> 'w \<Rightarrow> 'w" where
  "bridge_pass publish cl owner lease_ms claim_max rids w =
     fold (bridge_reaction publish cl owner lease_ms claim_max) rids w"

section \<open>Runs of the primitives\<close>

text \<open>The grants of a bucket over the readings of all its users, in the order of the lock.\<close>

fun bucket_grants :: "rat list \<Rightarrow> TokenBucket \<Rightarrow> nat \<times> TokenBucket" where
  "bucket_grants [] b = (0, b)"
| "bucket_grants (now # ts) b =
     (case bucket_step now b of (r, b') \<Rightarrow>
        (case bucket_grants ts b' of (n, b'') \<Rightarrow> ((if r = None then Suc n else n), b'')))"

text \<open>Readings of one user that sleeps as told, on a clock that does not run backwards.\<close>

fun sleeps_honoured :: "rat list \<Rightarrow> TokenBucket \<Rightarrow> bool" where
  "sleeps_honoured [] b = True"
| "sleeps_honoured (now # ts) b =
     (tb_last b \<le> now \<and>
      (case bucket_step now b of
         (None, b') \<Rightarrow> True
       | (Some s, b') \<Rightarrow> (case ts of [] \<Rightarrow> True | t # _ \<Rightarrow> now + s \<le> t) \<and> sleeps_honoured ts b'))"

fun allow_run :: "(rat \<times> string) list \<Rightarrow> Debouncer \<Rightarrow> bool list" where
  "allow_run [] d = []"
| "allow_run ((now, subject) # evs) d = (case allow now subject d of (ok, d') \<Rightarrow> ok # allow_run evs d')"

text \<open>The calls of a dispatcher, in order.\<close>

datatype task_act =
    TaClaim string string int int
  | TaHandle json
  | TaComplete string string
  | TaNack string string string bool

definition watch_tasks :: "'w task_client \<Rightarrow> ('w \<times> task_act list) task_client" where
  "watch_tasks cl = \<lparr>
     tk_claim_tasks = (\<lambda>r o' ms n. logged (TaClaim r o' ms n) (tk_claim_tasks cl r o' ms n)),
     tk_complete_task = (\<lambda>i o'. logged (TaComplete i o') (tk_complete_task cl i o')),
     tk_nack_task = (\<lambda>i o' e p. logged (TaNack i o' e p) (tk_nack_task cl i o' e p))\<rparr>"

definition watch_handler :: "'w handler \<Rightarrow> ('w \<times> task_act list) handler" where
  "watch_handler h env = logged (TaHandle env) (h env)"

text \<open>What is said of a task of a handler, given what the handler and the completion answered.\<close>

definition task_answers :: "int \<Rightarrow> string \<Rightarrow> PbTask \<Rightarrow> json \<Rightarrow> py_exn + unit \<Rightarrow> py_exn + unit \<Rightarrow> task_act list" where
  "task_answers dlq_after_n owner t env handled completed =
     TaHandle env #
     (case handled of
        Inl ex \<Rightarrow> [TaNack (pt_task_id t) owner (exn_text ex) (pt_attempts t \<ge> dlq_after_n)]
      | Inr _ \<Rightarrow>
          TaComplete (pt_task_id t) owner #
          (case completed of
             Inl ex \<Rightarrow> [TaNack (pt_task_id t) owner (exn_text ex) (pt_attempts t \<ge> dlq_after_n)]
           | Inr _ \<Rightarrow> []))"

section \<open>Quoting\<close>

lemma of_char_hex: "k < 16 \<Longrightarrow> of_char (hex_upper k) = (if k < 10 then 48 + k else 55 + k)"
  unfolding hex_upper_def by (simp add: of_char_of take_bit_nat_eq_self)

lemma hex_round: "k < 16 \<Longrightarrow> hex_value (hex_upper k) = k"
  by (auto simp: hex_value_def of_char_hex Let_def)

lemma hex_safe: "k < 16 \<Longrightarrow> url_safe (hex_upper k)"
  by (auto simp: url_safe_def of_char_hex Let_def)

lemma of_char_high: "of_char c div 16 < (16::nat)"
proof -
  have "of_char c < (256::nat)" by (metis of_char_mod_256 mod_less_divisor zero_less_numeral)
  then show ?thesis by linarith
qed

lemma not_safe: "\<not> url_safe CHR ''%''" "\<not> url_safe CHR ''/''" "\<not> url_safe CHR ''*''"
  by code_simp+

lemma unquote_char: "url_unquote (quote_char c @ xs) = c # url_unquote xs"
proof (cases "url_safe c")
  case True
  then show ?thesis using not_safe by (auto simp: quote_char_def)
next
  case False
  have "hex_value (hex_upper (of_char c div 16)) = of_char c div 16" by (rule hex_round [OF of_char_high])
  moreover have "hex_value (hex_upper (of_char c mod 16)) = of_char c mod 16" by (rule hex_round) auto
  ultimately show ?thesis using False by (simp add: quote_char_def)
qed

lemma unquote_quote: "url_unquote (url_quote s) = s"
  by (induction s) (auto simp: url_quote_def unquote_char)

lemma quote_chars: "c \<in> set (url_quote s) \<Longrightarrow> c = CHR ''%'' \<or> url_safe c"
  by (auto simp: url_quote_def quote_char_def hex_safe hex_safe [OF of_char_high] split: if_splits)

lemma seg_unquote: "url_unquote (seg s) = s"
  by (auto simp: seg_def unquote_quote)

lemma seg_no_slash: "CHR ''/'' \<notin> set (seg s)"
  using quote_chars [of "CHR ''/''" s] not_safe by (auto simp: seg_def)

lemma seg_star: "CHR ''*'' \<in> set (seg s) \<Longrightarrow> s = ''*'' \<or> s = ''**''"
  using quote_chars [of "CHR ''*''" s] not_safe by (auto simp: seg_def split: if_splits)

lemma segments_slash: "CHR ''/'' \<notin> set xs \<Longrightarrow> segments_from acc (xs @ CHR ''/'' # ys) = (acc @ xs) # segments_from [] ys"
  by (induction xs arbitrary: acc) auto

lemma segments_last: "CHR ''/'' \<notin> set xs \<Longrightarrow> segments_from acc xs = [acc @ xs]"
  by (induction xs arbitrary: acc) auto

lemma value_segments: "segments (''/tape/value/changed/'' @ seg ns @ ''/'' @ seg key) =
    [[], ''tape'', ''value'', ''changed'', seg ns, seg key]"
  using seg_no_slash [of ns] seg_no_slash [of key] by (simp add: segments_def segments_slash segments_last)

section \<open>The token bucket\<close>

lemma bucket_step_rate [simp]: "tb_rate (snd (bucket_step now b)) = tb_rate b" "tb_last (snd (bucket_step now b)) = now"
  by (simp_all add: bucket_step_def Let_def)

text \<open>Tokens plus grants never outgrow what the elapsed time brings in.\<close>

lemma bucket_step_potential:
  "tb_tokens (snd (bucket_step now b)) + (if fst (bucket_step now b) = None then 1 else 0) \<le>
     tb_tokens b + (now - tb_last b) * of_int (tb_rate b)"
  by (simp add: bucket_step_def Let_def)

lemma bucket_step_nonneg:
  "0 \<le> tb_tokens b \<Longrightarrow> 0 \<le> tb_rate b \<Longrightarrow> tb_last b \<le> now \<Longrightarrow> 0 \<le> tb_tokens (snd (bucket_step now b))"
  by (simp add: bucket_step_def Let_def)

lemma bucket_grants_potential:
  assumes "0 \<le> tb_tokens b" and "0 \<le> tb_rate b" and "sorted (tb_last b # ts)"
  shows "of_nat (fst (bucket_grants ts b)) \<le> tb_tokens b + (last (tb_last b # ts) - tb_last b) * of_int (tb_rate b)"
  using assms
proof (induction ts arbitrary: b)
  case (Cons now ts)
  obtain r b' where st: "bucket_step now b = (r, b')" by fastforce
  have b': "tb_rate b' = tb_rate b" "tb_last b' = now"
    using bucket_step_rate [where now = now and b = b] st by simp_all
  have "0 \<le> tb_tokens b'" using bucket_step_nonneg [of b now] Cons.prems st by simp
  with Cons.IH [of b'] Cons.prems b'
  have ih: "of_nat (fst (bucket_grants ts b')) \<le> tb_tokens b' + (last (now # ts) - now) * of_int (tb_rate b)" by simp
  have "tb_tokens b' + (if r = None then 1 else 0) \<le> tb_tokens b + (now - tb_last b) * of_int (tb_rate b)"
    using bucket_step_potential [of now b] st by simp
  moreover have "of_nat (fst (bucket_grants (now # ts) b)) =
      (of_nat (fst (bucket_grants ts b')) + (if r = None then 1 else 0) :: rat)"
    using st by (simp split: prod.splits)
  ultimately show ?case using ih by (simp add: algebra_simps)
qed simp

lemma bucket_grants_keep:
  assumes "0 \<le> tb_tokens b" and "0 \<le> tb_rate b" and "sorted (tb_last b # ts)"
  shows "tb_rate (snd (bucket_grants ts b)) = tb_rate b \<and> 0 \<le> tb_tokens (snd (bucket_grants ts b))"
  using assms
proof (induction ts arbitrary: b)
  case (Cons now ts)
  have "0 \<le> tb_tokens (snd (bucket_step now b))" by (rule bucket_step_nonneg) (use Cons.prems in auto)
  with Cons.IH [of "snd (bucket_step now b)"] Cons.prems show ?case by (auto split: prod.splits)
qed simp

text \<open>
  A user that was told to sleep with at least \<open>1 - n/4\<close> tokens in the bucket is granted one
  within \<open>n\<close> further readings.
\<close>

lemma acquire_after_sleep:
  assumes "1 \<le> tb_rate b" and "sleeps_honoured ts b" and "tb_tokens b < 1" and "1 - of_nat n / 4 \<le> tb_tokens b"
    and "n \<le> length ts" and "ts \<noteq> [] \<longrightarrow> tb_last b + min (1/4) ((1 - tb_tokens b) / of_int (tb_rate b)) \<le> hd ts"
  shows "fst (acquire_loop ts b)"
  using assms
proof (induction n arbitrary: ts b)
  case (Suc n)
  let ?R = "of_int (tb_rate b) :: rat"
  from Suc.prems obtain now ts' where ts: "ts = now # ts'" by (cases ts) auto
  have R: "1 \<le> ?R" using Suc.prems(1) by simp
  have wait: "min (1/4) ((1 - tb_tokens b) / ?R) \<le> now - tb_last b" using Suc.prems(6) ts by simp
  let ?T = "min ?R (tb_tokens b + (now - tb_last b) * ?R)"
  show ?case
  proof (cases "1 \<le> ?T")
    case True
    then show ?thesis by (simp add: ts bucket_step_def Let_def)
  next
    case False
    then have less: "tb_tokens b + (now - tb_last b) * ?R < 1" using R by linarith
    have "\<not> (1 - tb_tokens b) / ?R \<le> now - tb_last b"
    proof
      assume "(1 - tb_tokens b) / ?R \<le> now - tb_last b"
      then have "1 - tb_tokens b \<le> (now - tb_last b) * ?R" using R by (simp add: pos_divide_le_eq)
      with less show False by linarith
    qed
    with wait have "1/4 \<le> now - tb_last b" by linarith
    then have "1/4 * 1 \<le> (now - tb_last b) * ?R" using R by (intro mult_mono) auto
    then have gain: "1 - of_nat n / 4 \<le> ?T"
      using Suc.prems(4) R by (simp add: field_simps)
    define b' where "b' = b\<lparr>tb_last := now, tb_tokens := ?T\<rparr>"
    have st: "bucket_step now b = (Some (min (1/4) ((1 - ?T) / ?R)), b')"
      using False by (simp add: bucket_step_def Let_def b'_def)
    have "fst (acquire_loop ts' b')"
    proof (rule Suc.IH)
      show "1 \<le> tb_rate b'" "1 - of_nat n / 4 \<le> tb_tokens b'" using Suc.prems(1) gain by (simp_all add: b'_def)
      show "tb_tokens b' < 1" using less by (simp add: b'_def min_less_iff_disj)
      show "sleeps_honoured ts' b'" using Suc.prems(2) ts st by simp
      show "n \<le> length ts'" using Suc.prems(5) ts by simp
      show "ts' \<noteq> [] \<longrightarrow> tb_last b' + min (1/4) ((1 - tb_tokens b') / of_int (tb_rate b')) \<le> hd ts'"
        using Suc.prems(2) ts st by (cases ts') (auto simp: b'_def)
    qed
    with st show ?thesis by (auto simp: ts split: prod.splits)
  qed
qed simp

lemma acquire_granted:
  assumes "1 \<le> tb_rate b" and "0 \<le> tb_tokens b" and "sleeps_honoured ts b" and "5 \<le> length ts"
  shows "fst (acquire_loop ts b)"
proof -
  obtain now ts' where ts: "ts = now # ts'" "4 \<le> length ts'" using assms(4) by (cases ts) auto
  obtain r b' where st: "bucket_step now b = (r, b')" by fastforce
  have b': "tb_rate b' = tb_rate b" "tb_last b' = now" "0 \<le> tb_tokens b'"
    using bucket_step_rate [where now = now and b = b] bucket_step_nonneg [of b now] st assms ts by simp_all
  show ?thesis
  proof (cases r)
    case None
    with st ts show ?thesis by simp
  next
    case (Some sl)
    with st have fail: "tb_tokens b' < 1" "sl = min (1/4) ((1 - tb_tokens b') / of_int (tb_rate b'))"
      by (auto simp: bucket_step_def Let_def split: if_splits)
    have "fst (acquire_loop ts' b')"
      by (rule acquire_after_sleep [of _ _ 4]) (use assms ts st Some b' fail in \<open>auto split: list.splits\<close>)
    with st Some ts show ?thesis by (auto split: prod.splits)
  qed
qed

section \<open>The debouncer\<close>

lemma allow_after:
  assumes "db_last d s = Some l" and "0 \<le> l" and "0 < db_window d" and "sorted (map fst evs)"
    and "\<forall>e \<in> set evs. l \<le> fst e"
    and "j < length evs" and "snd (evs ! j) = s" and "allow_run evs d ! j"
  shows "db_window d \<le> fst (evs ! j) - l"
  using assms
proof (induction evs arbitrary: d l j)
  case (Cons e evs)
  obtain now x where e: "e = (now, x)" by fastforce
  obtain ok d' where al: "allow now x d = (ok, d')" by fastforce
  have w: "db_window d' = db_window d" using al Cons.prems(3) by (auto simp: allow_def Let_def split: if_splits)
  have l: "l \<le> now" using Cons.prems(5) e by simp
  show ?case
  proof (cases j)
    case 0
    with Cons.prems e al show ?thesis by (auto simp: allow_def Let_def split: if_splits)
  next
    case (Suc i)
    define l' where "l' = (if x = s \<and> ok then now else l)"
    have "db_last d' s = Some l'" using al Cons.prems(1,3) by (auto simp: allow_def Let_def l'_def split: if_splits)
    moreover have "\<forall>e' \<in> set evs. l' \<le> fst e'" "sorted (map fst evs)" using Cons.prems(4,5) e by (auto simp: l'_def)
    moreover have "allow_run evs d' ! i" "i < length evs" "snd (evs ! i) = s" using Cons.prems e al Suc by auto
    moreover have "0 \<le> l'" using l Cons.prems(2) by (simp add: l'_def)
    ultimately have "db_window d' \<le> fst (evs ! i) - l'" using Cons.IH w Cons.prems(3) by metis
    with w l Suc show ?thesis by (auto simp: l'_def split: if_splits)
  qed
qed simp

lemma allow_run_spacing:
  assumes "0 < db_window d" and "sorted (map fst evs)" and "\<forall>e \<in> set evs. 0 \<le> fst e"
    and "i < j" and "j < length evs" and "snd (evs ! i) = snd (evs ! j)" and "allow_run evs d ! i" and "allow_run evs d ! j"
  shows "db_window d \<le> fst (evs ! j) - fst (evs ! i)"
  using assms
proof (induction evs arbitrary: d i j)
  case (Cons e evs)
  obtain now x where e: "e = (now, x)" by fastforce
  obtain ok d' where al: "allow now x d = (ok, d')" by fastforce
  have w: "db_window d' = db_window d" using al Cons.prems(1) by (auto simp: allow_def Let_def split: if_splits)
  obtain j' where j: "j = Suc j'" using Cons.prems(4) by (cases j) auto
  show ?case
  proof (cases i)
    case 0
    with Cons.prems e al have "ok" by simp
    with al Cons.prems(1) have "db_last d' x = Some now" by (auto simp: allow_def Let_def split: if_splits)
    from allow_after [OF this, of evs j'] 0 j Cons.prems e al w show ?thesis by auto
  next
    case (Suc i')
    have "db_window d' \<le> fst (evs ! j') - fst (evs ! i')"
      by (rule Cons.IH) (use Cons.prems e al w Suc j in auto)
    with w Suc j show ?thesis by simp
  qed
qed simp

section \<open>Claimed tasks\<close>

lemma watch_tasks_simps [simp]:
  "tk_claim_tasks (watch_tasks cl) r ow ms n (w, l) = (fst (tk_claim_tasks cl r ow ms n w), snd (tk_claim_tasks cl r ow ms n w), l @ [TaClaim r ow ms n])"
  "tk_complete_task (watch_tasks cl) i ow (w, l) = (fst (tk_complete_task cl i ow w), snd (tk_complete_task cl i ow w), l @ [TaComplete i ow])"
  "tk_nack_task (watch_tasks cl) i ow e p (w, l) = (fst (tk_nack_task cl i ow e p w), snd (tk_nack_task cl i ow e p w), l @ [TaNack i ow e p])"
  by (simp_all add: watch_tasks_def logged_run)

lemma work_trace:
  assumes "rd_handler rd = Some (watch_handler h)"
  shows "snd (work raw rd (watch_tasks cl) owner t (w, l)) =
    l @ task_answers (rd_dlq_after_n rd) owner t (envelope_of raw t) (fst (h (envelope_of raw t) w))
          (fst (tk_complete_task cl (pt_task_id t) owner (snd (h (envelope_of raw t) w))))"
  using assms
  by (auto simp: work_def run_handler_def watch_handler_def logged_run and_then_run task_answers_def split: sum.splits)

lemma submit_tasks_trace:
  "\<exists>oks d' w'. submit_tasks (watch_tasks cl) owner clk i ts d (w, l) =
     (map fst (filter snd (zip ts oks)), d', w',
      l @ map (\<lambda>t. TaComplete (pt_task_id t) owner) (map fst (filter (\<lambda>x. \<not> snd x) (zip ts oks)))) \<and>
     length oks = length ts"
proof (induction ts arbitrary: i d w l)
  case (Cons t ts)
  obtain ok d1 where al: "allow (clk i) (pt_subject t) d = (ok, d1)" by fastforce
  let ?w1 = "if ok then w else snd (tk_complete_task cl (pt_task_id t) owner w)"
  let ?l1 = "if ok then l else l @ [TaComplete (pt_task_id t) owner]"
  obtain oks d' w' where rest: "submit_tasks (watch_tasks cl) owner clk (Suc i) ts d1 (?w1, ?l1) =
     (map fst (filter snd (zip ts oks)), d', w',
      ?l1 @ map (\<lambda>t. TaComplete (pt_task_id t) owner) (map fst (filter (\<lambda>x. \<not> snd x) (zip ts oks))))"
    and len: "length oks = length ts" using Cons.IH by blast
  from al rest len show ?case
    by (intro exI [of _ "ok # oks"] exI [of _ d'] exI [of _ w']) (cases ok; simp add: dispatch_task_def)
qed simp

section \<open>Properties\<close>

text \<open>
  User-chosen names cannot break the subject grammar: a namespace and a key always
  become one segment each of the registered pattern, the names can be read back from the
  segments (so different names never share a pattern), and a segment holds the wildcard
  character only if the caller passed a wildcard.
\<close>

lemma subject_segments:
  assumes "on_value_change namespace key a fn fn_nm registry = Inr registry'"
  shows "\<exists>rd. registry' = registry @ [rd] \<and>
      segments (rd_subject_pattern rd) = [[], ''tape'', ''value'', ''changed'', seg namespace, seg key] \<and>
      url_unquote (seg namespace) = namespace \<and> url_unquote (seg key) = key \<and>
      (CHR ''*'' \<in> set (seg key) \<longrightarrow> key = ''*'' \<or> key = ''**'')"
  using assms value_segments [of namespace key] seg_star [of key]
  by (auto simp: on_value_change_def on_reaction_def seg_unquote split: sum.splits prod.splits)

text \<open>
  C35. The rate limit holds over every interval: a bucket that starts full at time \<open>t0\<close> and is
  asked by any number of users, in any order of the lock, has granted by the time of the
  last request at most its capacity plus the rate times the elapsed time. And nobody waits
  forever: a single user that sleeps as it is told is granted a token within five rounds.
\<close>

theorem rate_limit_sound_and_live:
  assumes "1 \<le> rate" and "sorted (t0 # ts)"
  shows "of_nat (fst (bucket_grants ts (new_bucket rate t0))) \<le> of_int rate + (last (t0 # ts) - t0) * of_int rate \<and>
    (\<forall>readings. sleeps_honoured readings (snd (bucket_grants ts (new_bucket rate t0))) \<and> 5 \<le> length readings \<longrightarrow>
       fst (acquire readings (snd (bucket_grants ts (new_bucket rate t0)))))"
proof -
  let ?b = "new_bucket rate t0"
  have b: "0 \<le> tb_tokens ?b" "0 \<le> tb_rate ?b" "tb_tokens ?b = of_int rate" "tb_rate ?b = rate" "tb_last ?b = t0"
    using assms(1) by (simp_all add: new_bucket_def)
  with bucket_grants_keep [of ?b ts] assms have "tb_rate (snd (bucket_grants ts ?b)) = rate" "0 \<le> tb_tokens (snd (bucket_grants ts ?b))"
    by simp_all
  with assms(1) have "\<forall>readings. sleeps_honoured readings (snd (bucket_grants ts ?b)) \<and> 5 \<le> length readings \<longrightarrow>
       fst (acquire readings (snd (bucket_grants ts ?b)))"
    by (simp add: acquire_def acquire_granted)
  with bucket_grants_potential [of ?b ts] b assms show ?thesis by simp
qed

theorem rate_limit_sound_and_live_witness:
  "of_nat (fst (bucket_grants [0, 0, 0, 1] (new_bucket 2 0))) \<le> (of_int 2 + (1 - 0) * of_int 2 :: rat)"
  using rate_limit_sound_and_live [of 2 0 "[0, 0, 0, 1]"] by simp

text \<open>
  Debouncing spaces the triggers: over any sequence of triggers in time order, two
  triggers of the same subject that both pass are at least one window apart.
\<close>

lemma debounce_spacing:
  assumes "0 < window_ms" and "sorted (map fst evs)" and "\<forall>e \<in> set evs. 0 \<le> fst e"
    and "i < j" and "j < length evs" and "snd (evs ! i) = snd (evs ! j)"
    and "allow_run evs (new_debouncer window_ms) ! i" and "allow_run evs (new_debouncer window_ms) ! j"
  shows "of_int window_ms / 1000 \<le> fst (evs ! j) - fst (evs ! i)"
  using allow_run_spacing [of "new_debouncer window_ms" evs i j] assms by (simp add: new_debouncer_def)

text \<open>
  Every claimed task is answered: a pass over a reaction splits the claimed tasks into
  the debounced ones, which it completes at once, and the submitted ones, in claim order;
  and the work of a submitted task calls the handler once and then completes the task, or
  reports the failed attempt, permanently exactly when the attempts reached
  \<open>dlq_after_n\<close>. If the completion itself fails, the attempt is reported as failed although
  the handler ran.
\<close>

lemma claimed_tasks_answered:
  assumes "tk_claim_tasks cl rid owner lease_ms claim_max w = (Inr ts, w1)"
    and "rd_handler rd = Some (watch_handler h)"
  shows "(\<exists>oks d' w'. claim_reaction (watch_tasks cl) owner lease_ms claim_max clk rid d (w, []) =
       (map fst (filter snd (zip ts oks)), d', w', TaClaim rid owner lease_ms claim_max #
          map (\<lambda>t. TaComplete (pt_task_id t) owner) (map fst (filter (\<lambda>x. \<not> snd x) (zip ts oks)))) \<and>
       length oks = length ts) \<and>
    snd (work raw rd (watch_tasks cl) owner t (w2, [])) =
      task_answers (rd_dlq_after_n rd) owner t (envelope_of raw t) (fst (h (envelope_of raw t) w2))
        (fst (tk_complete_task cl (pt_task_id t) owner (snd (h (envelope_of raw t) w2))))"
  using submit_tasks_trace [of cl owner clk 0 ts d w1 "[TaClaim rid owner lease_ms claim_max]"]
    work_trace [OF assms(2), of raw cl owner t w2 "[]"] assms(1)
  by (auto simp: claim_reaction_def)

end
