(* ===== verification/SdkUpstream.thy ===== *)
theory SdkUpstream
  imports SdkSinks SdkReactions SdkReconciler
begin

text \<open>
  The connectors the SDK ships: HTTP (\<open>connectors/http.py\<close>), Pub/Sub and the worker at the
  other end of a Pub/Sub subscription (\<open>connectors/pubsub.py\<close>).

  What \<open>urlopen\<close> does is an \<open>http_outcome\<close>; publishing to Pub/Sub and the worker's handler act on
  the world and may raise. The text of the error a JSON decoder raises is a parameter.
\<close>

section \<open>The HTTP connector\<close>

record HTTPConnector =
  hc_name :: string
  hc_endpoint :: string
  hc_headers :: "(string \<times> string) list"
  hc_observe_endpoint :: string
  hc_compensate_endpoint :: string
  hc_success_codes :: "int list"
  hc_duplicate_code :: int

definition build_headers :: "HTTPConnector \<Rightarrow> PbEffect \<Rightarrow> (string \<times> string) list" where
  "build_headers h eff = dict_update (hc_headers h)
     [(''Content-Type'', ''application/json''), (''Idempotency-Key'', pe_idempotency_key eff), (''X-Tape-Run-Id'', pe_run_id eff),
      (''X-Tape-Effect-Key'', pe_idempotency_key eff), (''X-Tape-Business-Key'', pe_business_key eff)]"

text \<open>\<open>effect.request_json.encode(...) if effect.request_json else b"{}"\<close>\<close>

definition request_body :: "wire_text \<Rightarrow> wire_text" where
  "request_body t = (if t = PlainText [] then JsonText (JObj []) else t)"

text \<open>\<open>{"http_code": code, **body}\<close> and \<open>str(body.get("external_ref") or body.get("id") or "")\<close>\<close>

definition with_code :: "int \<Rightarrow> json \<Rightarrow> py_exn + (string \<times> json) list" where
  "with_code code body = (case body of
     JObj kvs \<Rightarrow> Inr (dict_update kvs [(''http_code'', JNum code)])
   | _ \<Rightarrow> Inl (PyExn ''TypeError'' (repr_str (py_type_name body) @ '' object is not a mapping'')))"

definition body_ref :: "json \<Rightarrow> py_exn + string" where
  "body_ref body = (case payload_get body ''external_ref'' JNull of
     Inl ex \<Rightarrow> Inl ex
   | Inr a \<Rightarrow> map_sum id (\<lambda>b. py_str (json_or (json_or a b) (JStr []))) (payload_get body ''id'' JNull))"

definition http_confirmed :: "int \<Rightarrow> json \<Rightarrow> py_exn + SdkDispatchResult" where
  "http_confirmed code body = (case body_ref body of
     Inl ex \<Rightarrow> Inl ex
   | Inr ref \<Rightarrow> map_sum id (\<lambda>resp. \<lparr>sr_status = ''confirmed'', sr_external_ref = ref, sr_response = resp, sr_error = [], sr_retry_at_ms = 0\<rparr>)
                 (with_code code body))"

definition text_value :: "wire_text \<Rightarrow> json option" where
  "text_value t = (case t of JsonText v \<Rightarrow> Some v | PlainText s \<Rightarrow> if s = [] then Some (JObj []) else None)"

text \<open>The text itself, as the error of a failed call carries it; \<open>render\<close> is the text of a JSON value.\<close>

definition raw_text :: "(json \<Rightarrow> string) \<Rightarrow> wire_text \<Rightarrow> string" where
  "raw_text render t = (case t of JsonText v \<Rightarrow> render v | PlainText s \<Rightarrow> s)"

definition http_failed :: "int \<Rightarrow> json \<Rightarrow> string \<Rightarrow> py_exn + SdkDispatchResult" where
  "http_failed code body body_text = map_sum id
     (\<lambda>resp. \<lparr>sr_status = ''failed'', sr_external_ref = [], sr_response = resp,
        sr_error = [(''http_code'', JNum code), (''body'', JStr body_text)], sr_retry_at_ms = 0\<rparr>) (with_code code body)"

definition http_unknown :: "py_exn \<Rightarrow> SdkDispatchResult" where
  "http_unknown ex = \<lparr>sr_status = ''unknown'', sr_external_ref = [], sr_response = [],
     sr_error = (case ex of PyExn tn msg \<Rightarrow> [(''type'', JStr tn), (''message'', JStr msg)]), sr_retry_at_ms = 0\<rparr>"

definition http_result :: "(json \<Rightarrow> string) \<Rightarrow> HTTPConnector \<Rightarrow> http_outcome \<Rightarrow> py_exn + SdkDispatchResult" where
  "http_result render h out = (case out of
     HttpReply code t \<Rightarrow>
       (let body = (case text_value t of Some v \<Rightarrow> v | None \<Rightarrow> JObj [(''_raw'', JStr (raw_text render t))])
        in if code = hc_duplicate_code h \<or> code \<in> set (hc_success_codes h) then http_confirmed code body
           else http_failed code body (raw_text render t))
   | TimedOut ex \<Rightarrow> Inr (http_unknown ex)
   | HttpError code rt ex \<Rightarrow>
       (let parsed = (case rt of None \<Rightarrow> None | Some t \<Rightarrow> map_option (\<lambda>v. (raw_text render t, v)) (text_value t));
            body_text = (case parsed of Some (s, v) \<Rightarrow> s | None \<Rightarrow> []);
            body = (case parsed of Some (s, v) \<Rightarrow> v | None \<Rightarrow> JObj [])
        in if code = hc_duplicate_code h then http_confirmed code body else http_failed code body body_text)
   | UrlError ex \<Rightarrow> Inr (http_unknown ex)
   | OsError ex \<Rightarrow> Inr (http_unknown ex)
   | OtherRaise ex \<Rightarrow> Inl ex)"

definition http_dispatch ::
    "(json \<Rightarrow> string) \<Rightarrow> (wire_text, 'w) http_env \<Rightarrow> HTTPConnector \<Rightarrow> PbEffect \<Rightarrow> 'w \<Rightarrow> (py_exn + SdkDispatchResult) \<times> 'w" where
  "http_dispatch render env h eff w =
     (case he_request env (hc_endpoint h) (build_headers h eff) (request_body (pe_request_json eff)) w of
        (out, w1) \<Rightarrow> (http_result render h out, w1))"

text \<open>\<open>urllib.parse.quote\<close> leaves a slash as it is.\<close>

definition quote_path :: "string \<Rightarrow> string" where
  "quote_path s = concat (map (\<lambda>c. if c = CHR ''/'' then [c] else quote_char c) s)"

definition observe_url :: "HTTPConnector \<Rightarrow> PbEffect \<Rightarrow> string" where
  "observe_url h eff = hc_observe_endpoint h @ ''?key='' @ quote_path (pe_idempotency_key eff) @ ''&business_key='' @ quote_path (pe_business_key eff)"

definition OBSERVED :: "string list" where
  "OBSERVED = [''confirmed'', ''absent'', ''duplicate'', ''failed'', ''stuck'']"

definition stuck_observation :: "string \<Rightarrow> SdkObservationResult" where
  "stuck_observation msg = \<lparr>so_status = ''stuck'', so_external_ref = [], so_response = [(''error'', JStr msg)]\<rparr>"

definition observed_body :: "json \<Rightarrow> SdkObservationResult" where
  "observed_body v = (case v of
     JObj kvs \<Rightarrow>
       (let st = py_str (json_or (case map_of kvs ''status'' of Some s \<Rightarrow> s | None \<Rightarrow> JNull) (JStr ''absent''))
        in \<lparr>so_status = (if st \<in> set OBSERVED then st else ''stuck''),
            so_external_ref = py_str (json_or (case map_of kvs ''external_ref'' of Some r \<Rightarrow> r | None \<Rightarrow> JNull) (JStr [])), so_response = kvs\<rparr>)
   | _ \<Rightarrow> stuck_observation (repr_str (py_type_name v) @ '' object has no attribute '' @ repr_str ''get''))"

definition http_observation :: "(string \<Rightarrow> string) \<Rightarrow> http_outcome \<Rightarrow> SdkObservationResult" where
  "http_observation decode_error out = (case out of
     HttpReply code t \<Rightarrow> (case text_value t of Some v \<Rightarrow> observed_body v
                          | None \<Rightarrow> stuck_observation (decode_error (case t of PlainText s \<Rightarrow> s | _ \<Rightarrow> [])))
   | HttpError code rt ex \<Rightarrow> stuck_observation (exn_msg ex)
   | UrlError ex \<Rightarrow> stuck_observation (exn_msg ex)
   | TimedOut ex \<Rightarrow> stuck_observation (exn_msg ex)
   | OsError ex \<Rightarrow> stuck_observation (exn_msg ex)
   | OtherRaise ex \<Rightarrow> stuck_observation (exn_msg ex))"

definition http_observe ::
    "(string \<Rightarrow> string) \<Rightarrow> (wire_text, 'w) http_env \<Rightarrow> HTTPConnector \<Rightarrow> PbEffect \<Rightarrow> 'w \<Rightarrow> (py_exn + SdkObservationResult) \<times> 'w" where
  "http_observe decode_error env h eff w =
     (if hc_observe_endpoint h = [] then (Inr \<lparr>so_status = ''absent'', so_external_ref = [], so_response = []\<rparr>, w)
      else (case he_request env (observe_url h eff) (build_headers h eff) (PlainText []) w of
              (out, w1) \<Rightarrow> (Inr (http_observation decode_error out), w1)))"

definition http_connector ::
    "(json \<Rightarrow> string) \<Rightarrow> (string \<Rightarrow> string) \<Rightarrow> (wire_text, 'w) http_env \<Rightarrow> (wire_text, 'w) http_env \<Rightarrow> HTTPConnector \<Rightarrow> 'w sdk_connector" where
  "http_connector render decode_error post get h =
     \<lparr>sk_name = hc_name h, sk_dispatch = http_dispatch render post h, sk_observe = http_observe decode_error get h\<rparr>"

text \<open>\<open>compensate\<close>\<close>

record SdkCompensationResult =
  sn_status :: string
  sn_response :: "(string \<times> json) list"
  sn_error :: "(string \<times> json) list"

definition compensation_failed :: "(string \<times> json) list \<Rightarrow> SdkCompensationResult" where
  "compensation_failed err = \<lparr>sn_status = ''failed'', sn_response = [], sn_error = err\<rparr>"

definition http_compensated :: "HTTPConnector \<Rightarrow> http_outcome \<Rightarrow> SdkCompensationResult" where
  "http_compensated h out =
     (let raised = (\<lambda>ex. case ex of PyExn tn msg \<Rightarrow> compensation_failed [(''type'', JStr tn), (''message'', JStr msg)])
      in case out of
           HttpReply code t \<Rightarrow>
             if code \<in> set (hc_success_codes h) then \<lparr>sn_status = ''compensated'', sn_response = [(''http_code'', JNum code)], sn_error = []\<rparr>
             else compensation_failed [(''http_code'', JNum code)]
         | HttpError code rt ex \<Rightarrow> raised ex
         | UrlError ex \<Rightarrow> raised ex
         | TimedOut ex \<Rightarrow> raised ex
         | OsError ex \<Rightarrow> raised ex
         | OtherRaise ex \<Rightarrow> raised ex)"

definition http_compensate ::
    "(wire_text, 'w) http_env \<Rightarrow> HTTPConnector \<Rightarrow> string \<Rightarrow> wire_text \<Rightarrow> 'w \<Rightarrow> SdkCompensationResult \<times> 'w" where
  "http_compensate env h effect_key payload w =
     (if hc_compensate_endpoint h = [] then (compensation_failed [(''reason'', JStr ''no compensate_endpoint configured'')], w)
      else (case he_request env (hc_compensate_endpoint h)
                   (dict_update [(''Content-Type'', ''application/json''), (''Idempotency-Key'', effect_key)] (hc_headers h))
                   (request_body payload) w of
              (out, w1) \<Rightarrow> (http_compensated h out, w1)))"

section \<open>The Pub/Sub connector\<close>

record PubSubConnector =
  pu_name :: string
  pu_project :: string
  pu_topic :: string

definition topic_path :: "PubSubConnector \<Rightarrow> string" where
  "topic_path p = ''projects/'' @ pu_project p @ ''/topics/'' @ pu_topic p"

definition message_attributes :: "PubSubConnector \<Rightarrow> PbEffect \<Rightarrow> (string \<times> string) list" where
  "message_attributes p eff = [(''tape_run_id'', pe_run_id eff), (''tape_effect_key'', pe_idempotency_key eff),
     (''tape_business_key'', pe_business_key eff), (''tape_connector'', pu_name p), (''tape_tool'', pe_tool_name eff),
     (''tape_semantics'', int_str (pe_semantics eff))]"

text \<open>\<open>publish\<close> is the client's call with the wait for its result; the ordering key defaults to the run.\<close>

definition pubsub_dispatch ::
    "(string \<Rightarrow> wire_text \<Rightarrow> string \<Rightarrow> (string \<times> string) list \<Rightarrow> 'w \<Rightarrow> (py_exn + string) \<times> 'w) \<Rightarrow> (PbEffect \<Rightarrow> string) option \<Rightarrow>
     PubSubConnector \<Rightarrow> PbEffect \<Rightarrow> 'w \<Rightarrow> (py_exn + SdkDispatchResult) \<times> 'w" where
  "pubsub_dispatch publish ordering_key_from p eff w =
     (case publish (topic_path p) (request_body (pe_request_json eff))
             (case ordering_key_from of Some f \<Rightarrow> f eff | None \<Rightarrow> pe_run_id eff) (message_attributes p eff) w of
        (Inr mid, w1) \<Rightarrow> (Inr \<lparr>sr_status = ''confirmed'', sr_external_ref = mid,
           sr_response = [(''message_id'', JStr mid), (''topic'', JStr (topic_path p))], sr_error = [], sr_retry_at_ms = 0\<rparr>, w1)
      | (Inl (PyExn tn msg), w1) \<Rightarrow> (Inr \<lparr>sr_status = ''failed'', sr_external_ref = [], sr_response = [],
           sr_error = [(''type'', JStr tn), (''message'', JStr msg)], sr_retry_at_ms = 0\<rparr>, w1))"

definition pubsub_observe :: "PbEffect \<Rightarrow> 'w \<Rightarrow> (py_exn + SdkObservationResult) \<times> 'w" where
  "pubsub_observe eff w = (Inr \<lparr>so_status = ''absent'', so_external_ref = [], so_response = []\<rparr>, w)"

definition pubsub_compensate :: SdkCompensationResult where
  "pubsub_compensate = compensation_failed [(''reason'', JStr (''PubSubConnector does not implement compensate; '' @
     ''publish a compensation message via a separate connector or '' @ ''wire it through the business system.''))]"

definition pubsub_connector ::
    "(string \<Rightarrow> wire_text \<Rightarrow> string \<Rightarrow> (string \<times> string) list \<Rightarrow> 'w \<Rightarrow> (py_exn + string) \<times> 'w) \<Rightarrow> (PbEffect \<Rightarrow> string) option \<Rightarrow>
     PubSubConnector \<Rightarrow> 'w sdk_connector" where
  "pubsub_connector publish ordering_key_from p =
     \<lparr>sk_name = pu_name p, sk_dispatch = pubsub_dispatch publish ordering_key_from p, sk_observe = pubsub_observe\<rparr>"

section \<open>The Pub/Sub worker\<close>

record PubSubSubscriber =
  ps_claimer :: string
  ps_lease_ttl_ms :: int
  ps_backoff_base_ms :: int
  ps_lru_size :: int

record pubsub_message =
  ms_attributes :: "(string \<times> string) list"
  ms_data :: wire_text

datatype settlement = Acked | Nacked

record 'w worker_client =
  wk_claim :: "string \<Rightarrow> string \<Rightarrow> string \<Rightarrow> int \<Rightarrow> 'w \<Rightarrow> (py_exn + bool) \<times> 'w"
  wk_record :: "string \<Rightarrow> string \<Rightarrow> wire_text \<Rightarrow> int \<Rightarrow> 'w \<Rightarrow> (py_exn + unit) \<times> 'w"
  wk_complete :: "string \<Rightarrow> string \<Rightarrow> int \<Rightarrow> wire_text \<Rightarrow> 'w \<Rightarrow> (py_exn + unit) \<times> 'w"

text \<open>
  The keys seen, the oldest first. Popping from an empty dictionary raises, which only a negative
  size can cause.
\<close>

fun evict :: "int \<Rightarrow> string list \<Rightarrow> py_exn + string list" where
  "evict n [] = (if 0 > n then Inl (PyExn ''KeyError'' (repr_str ''dictionary is empty'')) else Inr [])"
| "evict n (x # xs) = (if int (length (x # xs)) > n then evict n xs else Inr (x # xs))"

definition seen_lookup :: "int \<Rightarrow> string \<Rightarrow> string list \<Rightarrow> py_exn + bool \<times> string list" where
  "seen_lookup lru_size key seen =
     (if key \<in> set seen then Inr (True, remove1 key seen @ [key])
      else map_sum id (\<lambda>s. (False, s)) (evict lru_size (seen @ [key])))"

definition attr_of :: "pubsub_message \<Rightarrow> string \<Rightarrow> string" where
  "attr_of m k = (case map_of (ms_attributes m) k of Some v \<Rightarrow> v | None \<Rightarrow> [])"

definition report_result ::
    "'w worker_client \<Rightarrow> PubSubSubscriber \<Rightarrow> int \<Rightarrow> string \<Rightarrow> string \<Rightarrow> SdkDispatchResult \<Rightarrow> 'w \<Rightarrow> (py_exn + unit) \<times> 'w" where
  "report_result tape s now run_id effect_key r w =
     (if sr_status r = ''confirmed'' then wk_complete tape run_id effect_key 2 (JsonText (result_payload r)) w
      else if sr_status r = ''unknown'' then
        wk_record tape run_id effect_key (JsonText (json_or (JObj (sr_error r)) (JObj [(''reason'', JStr ''ack lost'')]))) 0 w
      else wk_record tape run_id effect_key (JsonText (JObj (sr_error r)))
             (if sr_retry_at_ms r \<noteq> 0 then sr_retry_at_ms r else now + ps_backoff_base_ms s) w)"

text \<open>The part of \<open>_on_message\<close> under the lease.\<close>

definition handle_claimed ::
    "'w worker_client \<Rightarrow> (string \<Rightarrow> string) \<Rightarrow> (json \<Rightarrow> (string \<times> string) list \<Rightarrow> 'w \<Rightarrow> (py_exn + SdkDispatchResult) \<times> 'w) \<Rightarrow>
     PubSubSubscriber \<Rightarrow> int \<Rightarrow> pubsub_message \<Rightarrow> string \<Rightarrow> string \<Rightarrow> 'w \<Rightarrow> settlement \<times> 'w" where
  "handle_claimed tape decode_error hdl s now m run_id effect_key w =
     (case text_value (ms_data m) of
        None \<Rightarrow> (Acked, snd (wk_record tape run_id effect_key
                  (PlainText (''malformed body: '' @ decode_error (case ms_data m of PlainText t \<Rightarrow> t | _ \<Rightarrow> []))) 0 w))
      | Some payload \<Rightarrow>
          (case hdl payload (ms_attributes m) w of
             (Inl ex, w1) \<Rightarrow> (Acked, snd (wk_record tape run_id effect_key (PlainText (''handler: '' @ exn_text ex)) 0 w1))
           | (Inr r, w1) \<Rightarrow>
               (case report_result tape s now run_id effect_key r w1 of
                  (Inl ex, w2) \<Rightarrow> (Nacked, w2)
                | (Inr _, w2) \<Rightarrow> (Acked, w2))))"

definition on_message ::
    "'w worker_client \<Rightarrow> (string \<Rightarrow> string) \<Rightarrow> (json \<Rightarrow> (string \<times> string) list \<Rightarrow> 'w \<Rightarrow> (py_exn + SdkDispatchResult) \<times> 'w) \<Rightarrow>
     PubSubSubscriber \<Rightarrow> int \<Rightarrow> pubsub_message \<Rightarrow> string list \<Rightarrow> 'w \<Rightarrow> (py_exn + settlement) \<times> string list \<times> 'w" where
  "on_message tape decode_error hdl s now m seen w =
     (let effect_key = attr_of m ''tape_effect_key''; run_id = attr_of m ''tape_run_id'' in
      if effect_key = [] \<or> run_id = [] then (Inr Acked, seen, w)
      else (case seen_lookup (ps_lru_size s) effect_key seen of
              Inl ex \<Rightarrow> (Inl ex, [], w)
            | Inr (True, seen1) \<Rightarrow> (Inr Acked, seen1, w)
            | Inr (False, seen1) \<Rightarrow>
                (case wk_claim tape run_id effect_key (ps_claimer s) (ps_lease_ttl_ms s) w of
                   (Inl ex, w1) \<Rightarrow> (Inr Nacked, seen1, w1)
                 | (Inr acquired, w1) \<Rightarrow>
                     if \<not> acquired then (Inr Acked, seen1, w1)
                     else (case handle_claimed tape decode_error hdl s now m run_id effect_key w1 of
                             (st, w2) \<Rightarrow> (Inr st, seen1, w2)))))"

section \<open>What a dispatch means\<close>

text \<open>
  What the upstream said, and whether it said anything: the abstract reading of an outcome.
\<close>

datatype upstream_answer = Answered int | NoAnswer | Broke py_exn

definition answer_of :: "http_outcome \<Rightarrow> upstream_answer" where
  "answer_of out = (case out of HttpReply code t \<Rightarrow> Answered code | HttpError code rt ex \<Rightarrow> Answered code
     | TimedOut ex \<Rightarrow> NoAnswer | UrlError ex \<Rightarrow> NoAnswer | OsError ex \<Rightarrow> NoAnswer | OtherRaise ex \<Rightarrow> Broke ex)"







section \<open>Watching calls\<close>



datatype worker_act = WkClaim string string | WkHandle json | WkRecord string string int | WkComplete string string int wire_text

definition watch_worker :: "'w worker_client \<Rightarrow> ('w \<times> worker_act list) worker_client" where
  "watch_worker cl = \<lparr>
     wk_claim = (\<lambda>r k c t. logged (WkClaim r k) (wk_claim cl r k c t)),
     wk_record = (\<lambda>r k e n. logged (WkRecord r k n) (wk_record cl r k e n)),
     wk_complete = (\<lambda>r k st resp. logged (WkComplete r k st resp) (wk_complete cl r k st resp))\<rparr>"

definition watch_worker_handler ::
    "(json \<Rightarrow> (string \<times> string) list \<Rightarrow> 'w \<Rightarrow> (py_exn + SdkDispatchResult) \<times> 'w) \<Rightarrow>
     json \<Rightarrow> (string \<times> string) list \<Rightarrow> 'w \<times> worker_act list \<Rightarrow> (py_exn + SdkDispatchResult) \<times> 'w \<times> worker_act list" where
  "watch_worker_handler hdl payload attrs = logged (WkHandle payload) (hdl payload attrs)"

text \<open>
  The protocol of a worker. A handler's result has one report: a confirmation with its payload, or an
  attempt, without a retry time when nobody knows the outcome. What the worker does with a message
  is determined by the keys it has seen, the answer \<open>q\<close> to its claim, the body of the message and
  the outcome \<open>hres\<close> of the handler.
\<close>

definition reported :: "PubSubSubscriber \<Rightarrow> int \<Rightarrow> string \<Rightarrow> string \<Rightarrow> SdkDispatchResult \<Rightarrow> worker_act" where
  "reported s now run_id key r =
     (if sr_status r = ''confirmed'' then WkComplete run_id key 2 (JsonText (result_payload r))
      else WkRecord run_id key
        (if sr_status r = ''unknown'' then 0 else if sr_retry_at_ms r = 0 then now + ps_backoff_base_ms s else sr_retry_at_ms r))"

definition handled :: "PubSubSubscriber \<Rightarrow> int \<Rightarrow> string \<Rightarrow> string \<Rightarrow> json option \<Rightarrow> (json \<Rightarrow> py_exn + SdkDispatchResult) \<Rightarrow> worker_act list" where
  "handled s now run_id key body hres =
     (case body of
        None \<Rightarrow> [WkRecord run_id key 0]
      | Some payload \<Rightarrow> [WkHandle payload, case hres payload of Inl ex \<Rightarrow> WkRecord run_id key 0 | Inr r \<Rightarrow> reported s now run_id key r])"

definition worker_acts ::
    "PubSubSubscriber \<Rightarrow> int \<Rightarrow> string \<Rightarrow> string \<Rightarrow> string list \<Rightarrow> py_exn + bool \<Rightarrow> json option \<Rightarrow> (json \<Rightarrow> py_exn + SdkDispatchResult) \<Rightarrow> worker_act list" where
  "worker_acts s now run_id key seen q body hres =
     (if run_id = [] \<or> key = [] \<or> key \<in> set seen then []
      else WkClaim run_id key # (if q = Inr True then handled s now run_id key body hres else []))"

lemma report_acts:
  "\<exists>res w'. report_result (watch_worker tape) s now run_id key r (w, l) = (res, w', l @ [reported s now run_id key r])"
  by (auto simp: report_result_def watch_worker_def logged_run reported_def)

lemma handle_acts:
  "\<exists>st w'. handle_claimed (watch_worker tape) de (watch_worker_handler hdl) s now m run_id key (w, l) =
     (st, w', l @ handled s now run_id key (text_value (ms_data m)) (\<lambda>p. fst (hdl p (ms_attributes m) w)))"
proof (cases "text_value (ms_data m)")
  case None
  then show ?thesis by (simp add: handle_claimed_def handled_def watch_worker_def logged_run)
next
  case (Some payload)
  obtain q w1 where h: "hdl payload (ms_attributes m) w = (q, w1)" by (metis surj_pair)
  show ?thesis
  proof (cases q)
    case (Inl ex)
    with Some h show ?thesis by (simp add: handle_claimed_def handled_def watch_worker_handler_def watch_worker_def logged_run)
  next
    case (Inr r)
    obtain res w2 where "report_result (watch_worker tape) s now run_id key r (w1, l @ [WkHandle payload]) =
        (res, w2, (l @ [WkHandle payload]) @ [reported s now run_id key r])"
      using report_acts [of tape s now run_id key r w1 "l @ [WkHandle payload]"] by blast
    with Some h Inr show ?thesis by (cases res) (simp_all add: handle_claimed_def handled_def watch_worker_handler_def logged_run)
  qed
qed

section \<open>The keys seen\<close>

lemma evict_spec: "0 \<le> n \<Longrightarrow> evict n xs = Inr (drop (length xs - nat n) xs)"
  by (induction xs) (auto simp: Suc_diff_le nat_le_iff le_nat_iff)

definition seen_ok :: "int \<Rightarrow> string list \<Rightarrow> bool" where
  "seen_ok n seen \<longleftrightarrow> distinct seen \<and> int (length seen) \<le> n"

lemma seen_lookup_total: "0 \<le> n \<Longrightarrow> \<exists>b seen'. seen_lookup n key seen = Inr (b, seen')"
  by (cases "key \<in> set seen") (auto simp: seen_lookup_def evict_spec simp del: drop_append)

lemma seen_ok_drop: "distinct xs \<Longrightarrow> 0 \<le> n \<Longrightarrow> seen_ok n (drop (length xs - nat n) xs)"
  by (auto simp: seen_ok_def)

lemma seen_lookup_ok:
  assumes "seen_ok n seen" and "seen_lookup n key seen = Inr (b, seen')"
  shows "seen_ok n seen'"
proof (cases "key \<in> set seen")
  case True
  then have "0 < length seen" by (rule length_pos_if_in_set)
  with True assms show ?thesis by (auto simp: seen_lookup_def seen_ok_def length_remove1 set_remove1_eq)
next
  case False
  have n: "0 \<le> n" using assms(1) by (simp add: seen_ok_def)
  have "seen' = drop (length (seen @ [key]) - nat n) (seen @ [key])"
    using assms(2) False evict_spec [OF n] by (simp add: seen_lookup_def)
  moreover have "distinct (seen @ [key])" using assms(1) False by (simp add: seen_ok_def)
  ultimately show ?thesis using seen_ok_drop [OF _ n] by blast
qed

lemma seen_remembers:
  assumes "seen_lookup n key seen = Inr (b, seen')" and "0 < n"
  shows "key \<in> set seen'"
proof (cases "key \<in> set seen")
  case True
  with assms(1) show ?thesis by (auto simp: seen_lookup_def)
next
  case False
  then have "seen' = drop (length (seen @ [key]) - nat n) (seen @ [key])"
    using assms evict_spec [of n "seen @ [key]"] by (simp add: seen_lookup_def)
  then show ?thesis using assms(2) by (simp add: drop_append)
qed

section \<open>Properties\<close>

text \<open>
  C12. A worker at the end of a subscription follows its protocol. It does nothing with a message
  without keys or with a key it has seen; otherwise it claims the effect's lease, and only if the
  lease was acquired it reads the body and runs the handler, once; a handler's result is reported
  once and as what it is, confirmed with its payload, failed with a retry time, unknown without
  one; a body it cannot read and a handler that raises are recorded without a retry time. The
  keys it remembers stay distinct and within their bound and include the key of the message.
\<close>

theorem worker_protocol:
  assumes "seen_ok (ps_lru_size s) seen" and "0 < ps_lru_size s"
    and "attr_of m ''tape_run_id'' = run_id" and "attr_of m ''tape_effect_key'' = key"
    and claim: "wk_claim tape run_id key (ps_claimer s) (ps_lease_ttl_ms s) w = (q, w1)"
  shows "\<exists>st seen' w'. on_message (watch_worker tape) de (watch_worker_handler hdl) s now m seen (w, l) =
       (Inr st, seen', w', l @ worker_acts s now run_id key seen q (text_value (ms_data m)) (\<lambda>p. fst (hdl p (ms_attributes m) w1))) \<and>
     seen_ok (ps_lru_size s) seen' \<and> (run_id \<noteq> [] \<and> key \<noteq> [] \<longrightarrow> key \<in> set seen')"
proof (cases "key = [] \<or> run_id = []")
  case True
  then show ?thesis using assms(1,3,4) by (auto simp: on_message_def worker_acts_def)
next
  case False
  obtain b seen1 where look: "seen_lookup (ps_lru_size s) key seen = Inr (b, seen1)"
    using seen_lookup_total [of "ps_lru_size s"] assms(2) by force
  have b: "b \<longleftrightarrow> key \<in> set seen" using look by (auto simp: seen_lookup_def map_sum_def split: sum.splits if_splits)
  have ok: "seen_ok (ps_lru_size s) seen1" "key \<in> set seen1"
    using seen_lookup_ok [OF assms(1) look] seen_remembers [OF look assms(2)] by auto
  have c: "wk_claim (watch_worker tape) run_id key (ps_claimer s) (ps_lease_ttl_ms s) (w, l) = (q, w1, l @ [WkClaim run_id key])"
    using claim by (simp add: watch_worker_def logged_run)
  let ?acts = "handled s now run_id key (text_value (ms_data m)) (\<lambda>p. fst (hdl p (ms_attributes m) w1))"
  obtain st w2 where hc: "handle_claimed (watch_worker tape) de (watch_worker_handler hdl) s now m run_id key (w1, l @ [WkClaim run_id key]) =
      (st, w2, (l @ [WkClaim run_id key]) @ ?acts)" using handle_acts [of tape de hdl s now m run_id key w1 "l @ [WkClaim run_id key]"] by blast
  show ?thesis
  proof (cases "b \<or> q \<noteq> Inr True")
    case True
    then show ?thesis using False assms(3,4) look c ok b by (cases q; cases b) (auto simp: on_message_def worker_acts_def)
  next
    case False2: False
    then show ?thesis using False assms(3,4) look c hc ok b by (auto simp: on_message_def worker_acts_def)
  qed
qed


text \<open>A worker that grants its lease, and an upstream that accepts.\<close>

definition granting_worker :: "unit worker_client" where
  "granting_worker = \<lparr>wk_claim = (\<lambda>r k c t w. (Inr True, w)), wk_record = (\<lambda>r k e n w. (Inr (), w)), wk_complete = (\<lambda>r k st resp w. (Inr (), w))\<rparr>"

definition sample_worker :: PubSubSubscriber where
  "sample_worker = \<lparr>ps_claimer = ''h:1/pubsub'', ps_lease_ttl_ms = 60000, ps_backoff_base_ms = 1000, ps_lru_size = 2\<rparr>"

definition sample_message :: pubsub_message where
  "sample_message = \<lparr>ms_attributes = [(''tape_run_id'', ''run1''), (''tape_effect_key'', ''key1'')], ms_data = JsonText (JObj [])\<rparr>"

definition paying_handler :: "json \<Rightarrow> (string \<times> string) list \<Rightarrow> 'w \<Rightarrow> (py_exn + SdkDispatchResult) \<times> 'w" where
  "paying_handler p attrs w = (Inr \<lparr>sr_status = ''confirmed'', sr_external_ref = ''wire-1'', sr_response = [], sr_error = [], sr_retry_at_ms = 0\<rparr>, w)"

theorem worker_protocol_witness:
  "\<exists>st seen' w'. on_message (watch_worker granting_worker) id (watch_worker_handler paying_handler) sample_worker 0 sample_message [] ((), []) =
      (Inr st, seen', w', [] @ worker_acts sample_worker 0 ''run1'' ''key1'' [] (Inr True) (text_value (ms_data sample_message))
         (\<lambda>p. fst (paying_handler p (ms_attributes sample_message) ()))) \<and>
    seen_ok (ps_lru_size sample_worker) seen' \<and> (''run1'' \<noteq> [] \<and> ''key1'' \<noteq> [] \<longrightarrow> ''key1'' \<in> set seen')"
  by (rule worker_protocol) (simp_all add: seen_ok_def sample_worker_def sample_message_def attr_of_def granting_worker_def)

definition sample_http :: HTTPConnector where
  "sample_http = \<lparr>hc_name = ''bank'', hc_endpoint = ''https://bank/pay'', hc_headers = [], hc_observe_endpoint = [], hc_compensate_endpoint = [],
     hc_success_codes = [200, 201, 202, 204], hc_duplicate_code = 409\<rparr>"

definition answering_env :: "http_outcome \<Rightarrow> ('b, 'w) http_env" where
  "answering_env out = \<lparr>he_request = (\<lambda>url hdr body w. (out, w)), he_sleep = (\<lambda>t w. w)\<rparr>"


section \<open>With the outbox reactor\<close>

text \<open>
  A call the HTTP connector gets no answer to is not repeated for a non-idempotent effect: the
  reactor records the attempt with no retry time.
\<close>

lemma unanswered_call_parks_effect:
  assumes "answer_of out = NoAnswer"
  shows "\<exists>r. http_result render h out = Inr r \<and>
    on_unknown cl cur r out' w =
      and_then (cl_record_dispatch_attempt cl (pe_run_id cur) (pe_idempotency_key cur) (JsonText (JObj (sr_error r))) 0 w)
        (\<lambda>_ w'. (Inr (JObj (out' @ [(''status'', JStr ''unknown'')])), w'))"
  using assms
  by (cases out) (auto simp: answer_of_def http_result_def http_unknown_def on_unknown_def json_or_def split: py_exn.splits)

text \<open>
  An answer with an error of the server does not say whether the call landed. The connector
  reports it as failed, for which the reactor schedules a retry whatever the semantics; the same
  holds for a publication to Pub/Sub that timed out.
\<close>

definition retry_report :: "(py_exn + json) \<times> 'w \<Rightarrow> json option" where
  "retry_report rw = (case rw of (Inr (JObj kvs), w) \<Rightarrow> map_of kvs ''status'' | _ \<Rightarrow> None)"

lemma server_error_retries_non_idempotent:
  "pe_semantics sample_wire = EFFECT_SEMANTICS_NON_IDEMPOTENT \<and>
   retry_report (dispatch_one [(''bank'', http_connector py_repr id (answering_env (HttpError 503 None (PyExn ''HTTPError'' ''unavailable'')))
       (answering_env (HttpReply 200 (PlainText []))) sample_http)] no_registry granting_client ''me'' 8 0 sample_wire ()) =
     Some (JStr ''retry-scheduled'')"
  by code_simp

lemma publish_timeout_retries_non_idempotent:
  "pe_semantics sample_wire = EFFECT_SEMANTICS_NON_IDEMPOTENT \<and>
   retry_report (dispatch_one [(''bank'', pubsub_connector (\<lambda>t d k a w. (Inl (PyExn ''TimeoutError'' []), w)) None
       \<lparr>pu_name = ''bank'', pu_project = ''p'', pu_topic = ''t''\<rparr>)] no_registry granting_client ''me'' 8 0 sample_wire ()) =
     Some (JStr ''retry-scheduled'')"
  by code_simp

text \<open>
  A success whose body is JSON but no dict makes the connector raise, although the call landed;
  for an idempotent effect the reactor then retries without end.
\<close>

lemma list_body_raises:
  "code \<in> set (hc_success_codes h) \<Longrightarrow>
   http_result render h (HttpReply code (JsonText (JArr xs))) =
     Inl (PyExn ''AttributeError'' (repr_str ''list'' @ '' object has no attribute '' @ repr_str ''get''))"
  by (simp add: http_result_def text_value_def http_confirmed_def body_ref_def payload_get_def py_type_name_def)

section \<open>Where the worker drops messages\<close>

text \<open>
  A message is marked as seen before the lease is tried. When the worker asks for its redelivery
  it skips the redelivered message, so the handler never runs for it.
\<close>

lemma nacked_message_dropped:
  assumes "on_message tape de hdl s now m seen w = (Inr Nacked, seen', w')" and "0 < ps_lru_size s"
  shows "\<exists>seen''. on_message tape de hdl s now' m seen' w2 = (Inr Acked, seen'', w2)"
proof -
  let ?key = "attr_of m ''tape_effect_key''"
  have keys: "?key \<noteq> []" "attr_of m ''tape_run_id'' \<noteq> []" using assms(1) by (auto simp: on_message_def split: if_splits)
  obtain b where look: "seen_lookup (ps_lru_size s) ?key seen = Inr (b, seen')"
    using assms(1) keys by (auto simp: on_message_def Let_def split: sum.splits prod.splits bool.splits if_splits)
  have "?key \<in> set seen'" using seen_remembers [OF look assms(2)] .
  then show ?thesis using keys by (auto simp: on_message_def seen_lookup_def Let_def)
qed

text \<open>
  The connector and the worker do not work together: while the reactor publishes it holds the
  lease, and afterwards the effect is confirmed, so the worker's claim is refused, the message is
  acknowledged and the handler does not run.
\<close>

lemma contended_message_dropped:
  assumes "wk_claim tape (attr_of m ''tape_run_id'') (attr_of m ''tape_effect_key'') (ps_claimer s) (ps_lease_ttl_ms s) w = (Inr False, w')"
    and "attr_of m ''tape_effect_key'' \<noteq> []" and "attr_of m ''tape_run_id'' \<noteq> []" and "attr_of m ''tape_effect_key'' \<notin> set seen"
    and "0 \<le> ps_lru_size s"
  shows "\<exists>seen'. on_message tape de hdl s now m seen w = (Inr Acked, seen', w')"
  using assms evict_spec [OF assms(5)] by (auto simp: on_message_def seen_lookup_def simp del: drop_append)

lemma publish_confirms_unhandled:
  "retry_report (dispatch_one [(''bank'', pubsub_connector (\<lambda>t d k a w. (Inr ''m1'', w)) None
       \<lparr>pu_name = ''bank'', pu_project = ''p'', pu_topic = ''t''\<rparr>)] no_registry granting_client ''me'' 8 0 sample_wire ()) =
     Some (JStr ''confirmed'')"
  by code_simp

end
