(* ===== verification/SdkProcesses.thy ===== *)
theory SdkProcesses
  imports SdkUpstream SdkLoops
begin

text \<open>
  The processes of the gRPC SDK: the outbox dispatcher (\<open>run_outbox_dispatcher\<close> and the command line of
  \<open>reactors/outbox.py\<close>), the reactor process (the command line of \<open>reactors/__init__.py\<close>) and the
  Pub/Sub worker (\<open>PubSubSubscriber.run\<close> and the command line of \<open>connectors/pubsub.py\<close>).

  Parsed options are records. Importing a module acts on the world, where it may register connectors
  and compensators; resolving an attribute is a parameter. An endless loop is a function of the list
  of its rounds; what a callback prints is left out.
\<close>

section \<open>Modules\<close>

text \<open>The modules of the \<open>--load\<close> options: one that cannot be imported is reported and skipped.\<close>

type_synonym 'w importer = "string \<Rightarrow> 'w \<Rightarrow> (py_exn + unit) \<times> 'w"

definition load_module :: "'w importer \<Rightarrow> string \<Rightarrow> 'w \<Rightarrow> 'w" where
  "load_module imp spec w = snd (imp (fst (py_partition (CHR '':'') spec)) w)"

definition load_modules :: "'w importer \<Rightarrow> string list \<Rightarrow> 'w \<Rightarrow> 'w" where
  "load_modules imp specs w = fold (load_module imp) specs w"

section \<open>The outbox dispatcher\<close>

record outbox_opts =
  oo_connector :: string
  oo_interval :: rat
  oo_max_attempts :: int
  oo_claimer :: string
  oo_load :: "string list"
  oo_once :: bool

text \<open>One round: a pass that raises is reported and counts as a pass without outcomes.\<close>

definition outbox_round ::
    "(string \<times> 'w sdk_connector) list \<Rightarrow> 'v sdk_registry \<Rightarrow> 'w client \<Rightarrow> outbox_opts \<Rightarrow> string \<Rightarrow> (nat \<Rightarrow> int) \<Rightarrow> 'w \<Rightarrow> json list \<times> 'w" where
  "outbox_round cs g cl opts claimer_id now w =
     (case outbox_dispatch_once cs g cl (oo_connector opts) 200 (str_or (oo_claimer opts) claimer_id) claimer_id (oo_max_attempts opts) now w of
        (Inl ex, w1) \<Rightarrow> ([], w1)
      | (Inr results, w1) \<Rightarrow> (results, w1))"

fun run_outbox_dispatcher ::
    "(string \<times> 'w sdk_connector) list \<Rightarrow> 'v sdk_registry \<Rightarrow> 'w client \<Rightarrow> outbox_opts \<Rightarrow> string \<Rightarrow> (rat \<Rightarrow> 'w \<Rightarrow> 'w) \<Rightarrow> (nat \<Rightarrow> int) list \<Rightarrow> 'w \<Rightarrow>
     json list list \<times> 'w" where
  "run_outbox_dispatcher cs g cl opts claimer_id sleep [] w = ([], w)"
| "run_outbox_dispatcher cs g cl opts claimer_id sleep (now # nows) w =
     (case outbox_round cs g cl opts claimer_id now w of (results, w1) \<Rightarrow>
        if oo_once opts then ([results], w1)
        else (case run_outbox_dispatcher cs g cl opts claimer_id sleep nows (sleep (oo_interval opts) w1) of
                (rest, w2) \<Rightarrow> (results # rest, w2)))"

text \<open>The command line: the connectors are those registered once the modules are loaded.\<close>

definition outbox_main ::
    "'w importer \<Rightarrow> ('w \<Rightarrow> (string \<times> 'w sdk_connector) list) \<Rightarrow> ('w \<Rightarrow> 'v sdk_registry) \<Rightarrow> 'w client \<Rightarrow> outbox_opts \<Rightarrow> string \<Rightarrow>
     (rat \<Rightarrow> 'w \<Rightarrow> 'w) \<Rightarrow> (nat \<Rightarrow> int) list \<Rightarrow> 'w \<Rightarrow> json list list \<times> 'w" where
  "outbox_main imp connectors registry cl opts claimer_id sleep nows w =
     (let w1 = load_modules imp (oo_load opts) w in
      run_outbox_dispatcher (connectors w1) (registry w1) cl opts claimer_id sleep nows w1)"

section \<open>The reactor process\<close>

record reactor_opts =
  ro_runner_from :: "string option"
  ro_no_recover :: bool
  ro_no_reconcile :: bool
  ro_no_timers :: bool
  ro_no_compensations :: bool
  ro_compact :: bool
  ro_compact_hot_window_s :: rat
  ro_compact_interval_s :: rat
  ro_reconcile_pending_after :: rat
  ro_interval :: rat
  ro_claimer :: string
  ro_once :: bool
  ro_compensations_only :: bool
  ro_load :: "string list"

definition reactor_opts_defaults :: reactor_opts where
  "reactor_opts_defaults = \<lparr>ro_runner_from = None, ro_no_recover = False, ro_no_reconcile = False, ro_no_timers = False,
     ro_no_compensations = False, ro_compact = False, ro_compact_hot_window_s = 24 * 60 * 60, ro_compact_interval_s = 300,
     ro_reconcile_pending_after = 0, ro_interval = 2, ro_claimer = [], ro_once = False, ro_compensations_only = False, ro_load = []\<rparr>"

definition reactor_config_of :: "reactor_opts \<Rightarrow> reactor_config" where
  "reactor_config_of opts = \<lparr>cf_recover = \<not> ro_no_recover opts, cf_reconcile = \<not> ro_no_reconcile opts, cf_timers = \<not> ro_no_timers opts,
     cf_compensations = \<not> ro_no_compensations opts, cf_compact = ro_compact opts,
     cf_compact_hot_window_s = ro_compact_hot_window_s opts, cf_compact_interval_s = ro_compact_interval_s opts\<rparr>"

text \<open>What the process runs: the event-driven drainer, or the reactor loop with the runner found.\<close>

datatype 'r reactor_process =
    DrainOnEvents string
  | ReactorLoop "'r option" reactor_config rat rat string bool

definition runner_of :: "(string \<Rightarrow> string \<Rightarrow> py_exn + 'r) \<Rightarrow> string option \<Rightarrow> py_exn + 'r option" where
  "runner_of resolve spec =
     (case str_or_none spec of
        None \<Rightarrow> Inr None
      | Some s \<Rightarrow> (case py_partition (CHR '':'') s of (m, _, attr) \<Rightarrow>
                    (case resolve m (str_or attr ''runner'') of Inl ex \<Rightarrow> Inl ex | Inr r \<Rightarrow> Inr (Some r))))"

definition reactors_main :: "'w importer \<Rightarrow> (string \<Rightarrow> string \<Rightarrow> py_exn + 'r) \<Rightarrow> reactor_opts \<Rightarrow> 'w \<Rightarrow> (py_exn + 'r reactor_process) \<times> 'w" where
  "reactors_main imp resolve opts w =
     (let w1 = load_modules imp (ro_load opts) w in
      (case runner_of resolve (ro_runner_from opts) of
         Inl ex \<Rightarrow> Inl ex
       | Inr runner \<Rightarrow>
           Inr (if ro_compensations_only opts then DrainOnEvents (ro_claimer opts)
                else ReactorLoop runner (reactor_config_of opts) (ro_interval opts) (ro_reconcile_pending_after opts) (ro_claimer opts) (ro_once opts)),
       w1))"

section \<open>The Pub/Sub worker\<close>

definition subscription_path :: "string \<Rightarrow> string \<Rightarrow> string" where
  "subscription_path project subscription = ''projects/'' @ project @ ''/subscriptions/'' @ subscription"

definition worker_claimer :: "string \<Rightarrow> string \<Rightarrow> int \<Rightarrow> string" where
  "worker_claimer claimer host pid = str_or claimer (host @ '':'' @ int_str pid @ ''/pubsub'')"

text \<open>
  The blocking \<open>run\<close>: each round waits for the stream, which completes or raises, and the stop signal
  may have been set meanwhile. Returned is how often the subscription was opened.
\<close>

datatype pull = PullReturns | PullRaises string

definition healthy :: "string \<Rightarrow> bool" where
  "healthy name \<longleftrightarrow> name = ''TimeoutError'' \<or> name = ''_MultiThreadedRendezvous''"

fun pull_loop :: "(pull \<times> bool) list \<Rightarrow> nat \<Rightarrow> nat" where
  "pull_loop [] n = n"
| "pull_loop ((r, stopped) # rounds) n =
     (if stopped then n
      else (case r of
              PullReturns \<Rightarrow> pull_loop rounds n
            | PullRaises name \<Rightarrow> pull_loop rounds (if healthy name then n else n + 1)))"

definition subscriber_run :: "bool \<Rightarrow> (pull \<times> bool) list \<Rightarrow> nat" where
  "subscriber_run stopped rounds = (if stopped then 1 else pull_loop rounds 1)"

text \<open>The handler of the command line without \<open>--handler\<close>.\<close>

definition log_and_confirm :: "json \<Rightarrow> (string \<times> string) list \<Rightarrow> 'w \<Rightarrow> (py_exn + SdkDispatchResult) \<times> 'w" where
  "log_and_confirm payload attrs w =
     (Inr \<lparr>sr_status = ''confirmed'', sr_external_ref = (case map_of attrs ''tape_effect_key'' of Some k \<Rightarrow> k | None \<Rightarrow> []),
           sr_response = [(''smoke'', JBool True)], sr_error = [], sr_retry_at_ms = 0\<rparr>, w)"

datatype 'h worker_process = BadHandlerSpec | WorkerRaises py_exn | WorkerRuns 'h

definition pubsub_main ::
    "(string \<Rightarrow> string \<Rightarrow> py_exn + (json \<Rightarrow> (string \<times> string) list \<Rightarrow> 'w \<Rightarrow> (py_exn + SdkDispatchResult) \<times> 'w)) \<Rightarrow> string \<Rightarrow>
     (json \<Rightarrow> (string \<times> string) list \<Rightarrow> 'w \<Rightarrow> (py_exn + SdkDispatchResult) \<times> 'w) worker_process" where
  "pubsub_main resolve handler =
     (if handler = [] then WorkerRuns log_and_confirm
      else (case py_partition (CHR '':'') handler of (m, _, attr) \<Rightarrow>
              if attr = [] then BadHandlerSpec
              else (case resolve m attr of Inl ex \<Rightarrow> WorkerRaises ex | Inr h \<Rightarrow> WorkerRuns h)))"

section \<open>Every call is claimed first\<close>

text \<open>A claim by the process allows the call that follows it at once, and only that one.\<close>

fun calls_claimed :: "string \<Rightarrow> bool \<Rightarrow> act list \<Rightarrow> bool" where
  "calls_claimed owner granted [] \<longleftrightarrow> True"
| "calls_claimed owner granted (ActDispatch e # acts) \<longleftrightarrow> granted \<and> calls_claimed owner False acts"
| "calls_claimed owner granted (ActClaim r k c # acts) \<longleftrightarrow> calls_claimed owner (c = owner) acts"
| "calls_claimed owner granted (a # acts) \<longleftrightarrow> calls_claimed owner False acts"

lemma calls_claimed_mono: "calls_claimed owner False acts \<Longrightarrow> calls_claimed owner b acts"
  by (cases "(owner, b, acts)" rule: calls_claimed.cases) auto

lemma calls_claimed_append:
  "calls_claimed owner b xs \<Longrightarrow> calls_claimed owner False ys \<Longrightarrow> calls_claimed owner b (xs @ ys)"
  by (induction owner b xs rule: calls_claimed.induct) (auto intro: calls_claimed_mono)

lemma no_dispatch_claimed: "filter is_dispatch acts = [] \<Longrightarrow> calls_claimed owner b acts"
  by (induction owner b acts rule: calls_claimed.induct) (auto simp: is_dispatch_def split: if_splits)

definition list_calls :: "act list \<Rightarrow> nat" where
  "list_calls acts = length (filter (\<lambda>a. case a of ActList _ _ \<Rightarrow> True | _ \<Rightarrow> False) acts)"

lemma list_calls_append [simp]: "list_calls (xs @ ys) = list_calls xs + list_calls ys" "list_calls [] = 0"
  by (simp_all add: list_calls_def)

lemma settle_no_list: "list_calls (settle_acts g mx now cur outcome) = 0" "list_calls (take 1 (settle_acts g mx now cur outcome)) = 0"
  by (auto simp: settle_acts_def list_calls_def Let_def filter_empty_conv split: sum.splits option.splits act.splits)

lemma trace_claimed: "dispatch_trace cs g cl claimer mx now eff w acts \<Longrightarrow> calls_claimed claimer False acts \<and> list_calls acts = 0"
  using settle_no_list unfolding dispatch_trace_def Let_def
  by (auto simp: list_calls_def intro: no_dispatch_claimed [OF settle_no_dispatch(1)] no_dispatch_claimed [OF settle_no_dispatch(2)])

lemma pass_loop_claimed:
  "\<exists>outs w' acts. pass_loop (watch_connectors cs) g (watch_client cl) claimer mx now i es (w, l) = (outs, w', l @ acts) \<and>
     calls_claimed claimer False acts \<and> list_calls acts = 0"
proof (induction es arbitrary: i w l)
  case (Cons e es)
  obtain res w1 a1 where one: "dispatch_one (watch_connectors cs) g (watch_client cl) claimer mx (now i) e (w, l) = (res, w1, l @ a1)"
    and "dispatch_trace cs g cl claimer mx (now i) e w a1"
    using dispatch_one_traced [of cs g cl claimer mx "now i" e w l] by auto
  then have a1: "calls_claimed claimer False a1" "list_calls a1 = 0" by (auto dest: trace_claimed)
  obtain outs w2 a2 where rest: "pass_loop (watch_connectors cs) g (watch_client cl) claimer mx now (Suc i) es (w1, l @ a1) = (outs, w2, (l @ a1) @ a2)"
    and a2: "calls_claimed claimer False a2" "list_calls a2 = 0" using Cons.IH by blast
  obtain out where "pass_item (watch_connectors cs) g (watch_client cl) claimer mx (now i) e (w, l) = (out, w1, l @ a1)"
    using one by (cases res) (auto simp: pass_item_def)
  with rest a1 a2 calls_claimed_append [OF a1(1) a2(1)] show ?case by auto
qed simp

lemma outbox_round_claimed:
  "\<exists>outs w' acts. outbox_round (watch_connectors cs) g (watch_client cl) opts cid now (w, l) = (outs, w', l @ acts) \<and>
     calls_claimed (str_or (oo_claimer opts) cid) False acts \<and> list_calls acts = 1"
proof -
  let ?q = "ActList (oo_connector opts) 200"
  have owner: "str_or (str_or (oo_claimer opts) cid) cid = str_or (oo_claimer opts) cid" by (simp add: str_or_def)
  obtain r w1 where list: "cl_list_effects_to_dispatch cl (oo_connector opts) 200 w = (r, w1)" by fastforce
  show ?thesis
  proof (cases r)
    case (Inl ex)
    with list show ?thesis
      by (auto simp: outbox_round_def outbox_dispatch_once_def watch_client_def and_then_def logged_def list_calls_def)
  next
    case (Inr effects)
    obtain outs w2 acts where "pass_loop (watch_connectors cs) g (watch_client cl) (str_or (oo_claimer opts) cid) (oo_max_attempts opts) now 0 effects
        (w1, l @ [?q]) = (outs, w2, (l @ [?q]) @ acts)" and "calls_claimed (str_or (oo_claimer opts) cid) False acts" "list_calls acts = 0"
      using pass_loop_claimed [of cs g cl "str_or (oo_claimer opts) cid" "oo_max_attempts opts" now 0 effects w1 "l @ [?q]"] by auto
    with list Inr show ?thesis
      by (intro exI [of _ outs] exI [of _ w2] exI [of _ "?q # acts"])
        (simp add: outbox_round_def outbox_dispatch_once_def owner watch_client_def and_then_def logged_def list_calls_def)
  qed
qed

definition quiet :: "(rat \<Rightarrow> 'w \<Rightarrow> 'w) \<Rightarrow> rat \<Rightarrow> 'w \<times> act list \<Rightarrow> 'w \<times> act list" where
  "quiet sleep s wl = (sleep s (fst wl), snd wl)"

text \<open>
  The outbox process keeps going and claims first: whatever raises, every round lists the queue
  once and yields its outcomes, one round with \<open>--once\<close> and all of them without; and over the whole
  run each call of a counterparty directly follows a claim made by this process, one call per claim.
\<close>

lemma outbox_process_claims_first:
  "\<exists>results w' acts. run_outbox_dispatcher (watch_connectors cs) g (watch_client cl) opts cid (quiet sleep) nows (w, l) = (results, w', l @ acts) \<and>
     length results = (if oo_once opts then min 1 (length nows) else length nows) \<and> list_calls acts = length results \<and>
     calls_claimed (str_or (oo_claimer opts) cid) False acts"
proof (induction nows arbitrary: w l)
  case (Cons now nows)
  obtain outs w1 a1 where one: "outbox_round (watch_connectors cs) g (watch_client cl) opts cid now (w, l) = (outs, w1, l @ a1)"
    and a1: "calls_claimed (str_or (oo_claimer opts) cid) False a1" "list_calls a1 = 1"
    using outbox_round_claimed [of cs g cl opts cid now w l] by auto
  show ?case
  proof (cases "oo_once opts")
    case True
    with one a1 show ?thesis by auto
  next
    case False
    with Cons.IH [of "sleep (oo_interval opts) w1" "l @ a1"] obtain results w2 a2
      where "run_outbox_dispatcher (watch_connectors cs) g (watch_client cl) opts cid (quiet sleep) nows
          (sleep (oo_interval opts) w1, l @ a1) = (results, w2, (l @ a1) @ a2)"
        and "length results = length nows" "list_calls a2 = length results" "calls_claimed (str_or (oo_claimer opts) cid) False a2"
      by auto
    with one a1 False calls_claimed_append [OF a1(1)] show ?thesis
      by (auto simp: quiet_def [of sleep "oo_interval opts" "(w1, l @ a1)"])
  qed
qed simp

section \<open>The other processes\<close>

text \<open>The worker opens its subscription once, and again after every stream error before the stop.\<close>

lemma pull_loop_restarts:
  "pull_loop rounds n = n + length (filter (\<lambda>(r, _). case r of PullRaises name \<Rightarrow> \<not> healthy name | PullReturns \<Rightarrow> False)
     (takeWhile (\<lambda>(_, stopped). \<not> stopped) rounds))"
  by (induction rounds n rule: pull_loop.induct) (auto split: pull.split)

text \<open>Without a runner the recovery of the reactor process is on and never runs.\<close>

lemma recovery_needs_runner:
  assumes "rs_can_redrive rs = False"
  shows "tk_recovered (fst (reactors_tick cf rs now last_at w)) = None"
  using assms by (simp add: reactors_tick_def run_if_def case_prod_unfold)

text \<open>With \<open>--compensations-only\<close> the process ignores \<open>--once\<close> and drains until it is stopped.\<close>

lemma compensations_only_ignores_once:
  assumes "ro_compensations_only opts"
  shows "reactors_main imp resolve (opts\<lparr>ro_once := b\<rparr>) w = reactors_main imp resolve opts w"
  using assms by (simp add: reactors_main_def Let_def split: sum.split)

text \<open>A smoke-test worker confirms every effect it is handed, whatever it is.\<close>

lemma smoke_worker_confirms: "pubsub_main resolve [] = WorkerRuns h \<Longrightarrow> \<exists>r. h payload attrs w = (Inr r, w) \<and> sr_status r = ''confirmed''"
  by (auto simp: pubsub_main_def log_and_confirm_def)

end
