(* ===== verification/SdkDispatch.thy ===== *)
theory SdkDispatch
  imports SdkReactions
begin

text \<open>
  The loops of \<open>tape/reactions.py\<close>: \<open>run_dispatcher\<close> with its registration, its state per reaction, its
  worker threads and their draining, and \<open>run_pubsub_bridge\<close> with the reactions it pulls.

  The dispatcher is a step function over events. The main thread claims and submits tasks and goes
  on polling while the threads of the executors work; every event is one action of one thread, with
  the answer of the server, the result of the handler or the reading of the clock that comes with it, and
  the list of events is any interleaving of them. An executor works its queue in the order of
  submission with at most \<open>max_concurrency\<close> threads. The pause after a pass without tasks has no state. The clock
  of a token bucket is read under its lock, so its readings do not decrease. Exceptions
  are those \<open>except Exception\<close> catches, beside the interrupt of the main thread.
\<close>

section \<open>The dispatcher\<close>

record dispatcher_cfg =
  dp_owner :: string
  dp_once :: bool
  dp_register :: bool
  dp_prefix :: string
  dp_claim_max :: int
  dp_lease_ms :: int
  dp_poll_interval_s :: rat

text \<open>Where a claimed task is, and the calls made for it, with their answers.\<close>

datatype phase = Claimed | DebounceDone | Queued | AwaitsToken | TokenHeld | HandlerRuns | AwaitsCompletion | AwaitsNack py_exn | WorkDone

datatype task_call = HandlerCalled json | HandlerReturned "py_exn + unit" | TaskCompleted string string "py_exn + unit"
  | TaskNacked string string string bool "py_exn + unit"

record 'w task_slot =
  sl_rid :: string
  sl_rd :: "'w ReactionDef"
  sl_task :: PbTask
  sl_phase :: phase
  sl_calls :: "task_call list"

text \<open>
  The main thread: polling the reactions left in its pass (and whether the pass claimed anything),
  submitting what it just claimed, draining the executors, or done.
\<close>

datatype main_pc = Polling "string list" bool | Submitting "nat list" "string list" bool | Draining | Closed

record 'w dispatcher =
  ds_main :: main_pc
  ds_reactions :: "(string \<times> 'w ReactionDef) list"
  ds_debouncers :: "string \<Rightarrow> Debouncer"
  ds_buckets :: "string \<Rightarrow> TokenBucket"
  ds_slots :: "'w task_slot list"
  ds_interrupted :: bool

datatype work_event = CallHandler | HandlerDone "py_exn + unit" | CompleteReply "py_exn + unit" | NackReply "py_exn + unit"

datatype dispatch_event = EvClaim string "py_exn + PbTask list" | EvAdmit rat "py_exn + unit" | EvNextPass | EvReturn | EvInterrupt | EvClose
  | EvTake nat | EvToken nat rat | EvWork nat work_event

definition new_slot :: "string \<Rightarrow> 'w ReactionDef \<Rightarrow> PbTask \<Rightarrow> 'w task_slot" where
  "new_slot rid rd t = \<lparr>sl_rid = rid, sl_rd = rd, sl_task = t, sl_phase = Claimed, sl_calls = []\<rparr>"

definition set_phase :: "phase \<Rightarrow> task_call list \<Rightarrow> 'w task_slot \<Rightarrow> 'w task_slot" where
  "set_phase ph calls sl = sl\<lparr>sl_phase := ph, sl_calls := sl_calls sl @ calls\<rparr>"

definition set_slot :: "nat \<Rightarrow> 'w task_slot \<Rightarrow> 'w dispatcher \<Rightarrow> 'w dispatcher" where
  "set_slot j sl s = s\<lparr>ds_slots := (ds_slots s)[j := sl]\<rparr>"

definition busy :: "phase \<Rightarrow> bool" where
  "busy ph = (case ph of AwaitsToken \<Rightarrow> True | TokenHeld \<Rightarrow> True | HandlerRuns \<Rightarrow> True | AwaitsCompletion \<Rightarrow> True | AwaitsNack _ \<Rightarrow> True | _ \<Rightarrow> False)"

text \<open>The threads of a reaction's executor that hold a task.\<close>

definition active :: "string \<Rightarrow> 'w task_slot list \<Rightarrow> nat" where
  "active rid sls = length (filter (\<lambda>sl. sl_rid sl = rid \<and> busy (sl_phase sl)) sls)"

definition first_queued :: "nat \<Rightarrow> 'w task_slot list \<Rightarrow> bool" where
  "first_queued j sls \<longleftrightarrow> j < length sls \<and> sl_phase (sls ! j) = Queued \<and>
     list_all (\<lambda>sl. sl_rid sl = sl_rid (sls ! j) \<longrightarrow> sl_phase sl \<noteq> Queued) (take j sls)"

definition submitted :: "nat list \<Rightarrow> string list \<Rightarrow> bool \<Rightarrow> main_pc" where
  "submitted js rids did = (if js = [] then Polling rids did else Submitting js rids did)"

text \<open>The claim of a reaction by the main thread; a failing one skips the reaction.\<close>

definition claim_step :: "string \<Rightarrow> py_exn + PbTask list \<Rightarrow> 'w dispatcher \<Rightarrow> 'w dispatcher option" where
  "claim_step rid reply s =
     (case ds_main s of
        Polling (r # rids) did \<Rightarrow>
          if r \<noteq> rid then None
          else (case (reply, map_of (ds_reactions s) rid) of
                  (Inr ts, Some rd) \<Rightarrow>
                    Some (s\<lparr>ds_main := submitted [length (ds_slots s)..<length (ds_slots s) + length ts] rids (did \<or> ts \<noteq> []),
                            ds_slots := ds_slots s @ map (new_slot rid rd) ts\<rparr>)
                | (Inl ex, _) \<Rightarrow> Some (s\<lparr>ds_main := Polling rids did\<rparr>)
                | _ \<Rightarrow> None)
      | _ \<Rightarrow> None)"

text \<open>\<open>_dispatch_one\<close>: a debounced task is completed on the spot, whatever the server answers; any other is submitted.\<close>

definition admit_step :: "dispatcher_cfg \<Rightarrow> rat \<Rightarrow> py_exn + unit \<Rightarrow> 'w dispatcher \<Rightarrow> 'w dispatcher option" where
  "admit_step cfg now reply s =
     (case ds_main s of
        Submitting (j # js) rids did \<Rightarrow>
          (let sl = ds_slots s ! j; rid = sl_rid sl; t = sl_task sl in
           if \<not> (j < length (ds_slots s) \<and> sl_phase sl = Claimed) then None
           else (case allow now (pt_subject t) (ds_debouncers s rid) of (ok, d) \<Rightarrow>
                   Some ((set_slot j (if ok then set_phase Queued [] sl
                                      else set_phase DebounceDone [TaskCompleted (pt_task_id t) (dp_owner cfg) reply] sl) s)
                         \<lparr>ds_main := submitted js rids did, ds_debouncers := (ds_debouncers s)(rid := d)\<rparr>)))
      | _ \<Rightarrow> None)"

text \<open>One round of \<open>bucket.acquire()\<close>: granted, or not yet.\<close>

definition acquire_round :: "rat \<Rightarrow> TokenBucket \<Rightarrow> bool \<times> TokenBucket" where
  "acquire_round now b = (if tb_rate b \<le> 0 then (True, b) else (case bucket_step now b of (nap, b') \<Rightarrow> (nap = None, b')))"

definition token_step :: "nat \<Rightarrow> rat \<Rightarrow> 'w dispatcher \<Rightarrow> 'w dispatcher option" where
  "token_step j now s =
     (let sl = ds_slots s ! j; b = ds_buckets s (sl_rid sl) in
      if \<not> (j < length (ds_slots s) \<and> sl_phase sl = AwaitsToken \<and> tb_last b \<le> now) then None
      else (case acquire_round now b of (ok, b') \<Rightarrow>
              Some ((if ok then set_slot j (set_phase TokenHeld [] sl) s else s)\<lparr>ds_buckets := (ds_buckets s)(sl_rid sl := b')\<rparr>)))"

text \<open>
  \<open>_work\<close> after its token: the handler and the completion share one \<open>try\<close>, so a failing completion
  is reported as a failed attempt too; the answer to that report is only logged.
\<close>

definition work_step :: "(wire_text \<Rightarrow> string) \<Rightarrow> string \<Rightarrow> work_event \<Rightarrow> 'w task_slot \<Rightarrow> 'w task_slot option" where
  "work_step raw owner ev sl =
     (let t = sl_task sl in
      case (sl_phase sl, ev) of
        (TokenHeld, CallHandler) \<Rightarrow>
          Some (case rd_handler (sl_rd sl) of
                  None \<Rightarrow> set_phase AwaitsCompletion [] sl
                | Some _ \<Rightarrow> set_phase HandlerRuns [HandlerCalled (envelope_of raw t)] sl)
      | (HandlerRuns, HandlerDone r) \<Rightarrow>
          Some (set_phase (case r of Inr _ \<Rightarrow> AwaitsCompletion | Inl ex \<Rightarrow> AwaitsNack ex) [HandlerReturned r] sl)
      | (AwaitsCompletion, CompleteReply r) \<Rightarrow>
          Some (set_phase (case r of Inr _ \<Rightarrow> WorkDone | Inl ex \<Rightarrow> AwaitsNack ex) [TaskCompleted (pt_task_id t) owner r] sl)
      | (AwaitsNack ex, NackReply r) \<Rightarrow>
          Some (set_phase WorkDone [TaskNacked (pt_task_id t) owner (exn_text ex) (pt_attempts t \<ge> rd_dlq_after_n (sl_rd sl)) r] sl)
      | _ \<Rightarrow> None)"

text \<open>Whether the executors have nothing left: what was never submitted is not theirs.\<close>

definition drained :: "'w dispatcher \<Rightarrow> bool" where
  "drained s \<longleftrightarrow> list_all (\<lambda>sl. sl_phase sl \<in> {Claimed, DebounceDone, WorkDone}) (ds_slots s)"

fun dispatch_step :: "(wire_text \<Rightarrow> string) \<Rightarrow> dispatcher_cfg \<Rightarrow> 'w dispatcher \<Rightarrow> dispatch_event \<Rightarrow> 'w dispatcher option" where
  "dispatch_step raw cfg s (EvClaim rid reply) = claim_step rid reply s"
| "dispatch_step raw cfg s (EvAdmit now reply) = admit_step cfg now reply s"
| "dispatch_step raw cfg s EvNextPass =
     (case ds_main s of Polling [] did \<Rightarrow> if dp_once cfg then None else Some (s\<lparr>ds_main := Polling (map fst (ds_reactions s)) False\<rparr>) | _ \<Rightarrow> None)"
| "dispatch_step raw cfg s EvReturn =
     (case ds_main s of Polling [] did \<Rightarrow> if dp_once cfg then Some (s\<lparr>ds_main := Draining\<rparr>) else None | _ \<Rightarrow> None)"
| "dispatch_step raw cfg s EvInterrupt =
     (if ds_main s \<in> {Draining, Closed} then None else Some (s\<lparr>ds_main := Draining, ds_interrupted := True\<rparr>))"
| "dispatch_step raw cfg s EvClose = (if ds_main s = Draining \<and> drained s then Some (s\<lparr>ds_main := Closed\<rparr>) else None)"
| "dispatch_step raw cfg s (EvTake j) =
     (let sl = ds_slots s ! j in
      if first_queued j (ds_slots s) \<and> int (active (sl_rid sl) (ds_slots s)) < rd_max_concurrency (sl_rd sl)
      then Some (set_slot j (set_phase AwaitsToken [] sl) s) else None)"
| "dispatch_step raw cfg s (EvToken j now) = token_step j now s"
| "dispatch_step raw cfg s (EvWork j ev) =
     (if j < length (ds_slots s) then map_option (\<lambda>sl. set_slot j sl s) (work_step raw (dp_owner cfg) ev (ds_slots s ! j)) else None)"

fun dispatch_run :: "(wire_text \<Rightarrow> string) \<Rightarrow> dispatcher_cfg \<Rightarrow> 'w dispatcher \<Rightarrow> dispatch_event list \<Rightarrow> 'w dispatcher option" where
  "dispatch_run raw cfg s [] = Some s"
| "dispatch_run raw cfg s (ev # evs) = (case dispatch_step raw cfg s ev of None \<Rightarrow> None | Some s' \<Rightarrow> dispatch_run raw cfg s' evs)"

text \<open>\<open>rs\<close> are the reactions to dispatch, \<open>t0\<close> the time their token buckets are made.\<close>

definition start_dispatcher :: "rat \<Rightarrow> (string \<times> 'w ReactionDef) list \<Rightarrow> 'w dispatcher" where
  "start_dispatcher t0 rs =
     (let rd = (\<lambda>rid. map_of rs rid) in
      \<lparr>ds_main = Polling (map fst rs) False, ds_reactions = rs,
       ds_debouncers = (\<lambda>rid. new_debouncer (case rd rid of Some r \<Rightarrow> rd_debounce_ms r | None \<Rightarrow> 0)),
       ds_buckets = (\<lambda>rid. new_bucket (case rd rid of Some r \<Rightarrow> rd_rate_limit_per_s r | None \<Rightarrow> 0) t0),
       ds_slots = [], ds_interrupted = False\<rparr>)"

text \<open>
  The whole of \<open>run_dispatcher\<close>: what registering raised, or the state the events lead to (\<open>None\<close> if
  they are no run of the dispatcher). An executor without threads is refused by its constructor.
\<close>

definition run_dispatcher ::
    "(wire_text \<Rightarrow> string) \<Rightarrow> 'w register_rpc \<Rightarrow> dispatcher_cfg \<Rightarrow> rat \<Rightarrow> dispatch_event list \<Rightarrow> 'w ReactionDef list \<Rightarrow> 'w \<Rightarrow>
     (py_exn + 'w dispatcher option) \<times> 'w ReactionDef list \<times> 'w" where
  "run_dispatcher raw rpc cfg t0 evs registry w =
     (case (if dp_register cfg then register_all rpc (dp_prefix cfg) registry w else (Inr [], registry, w)) of
        (Inl ex, reg, w1) \<Rightarrow> (Inl ex, reg, w1)
      | (Inr _, reg, w1) \<Rightarrow>
          if list_ex (\<lambda>rd. rd_handler_kind rd = HANDLER_KIND_TASK \<and> rd_server_reaction_id rd \<noteq> [] \<and> rd_max_concurrency rd \<le> 0) reg
          then (Inl (PyExn ''ValueError'' ''max_workers must be greater than 0''), reg, w1)
          else (Inr (dispatch_run raw cfg (start_dispatcher t0 (dispatched_reactions reg)) evs), reg, w1))"

section \<open>The bridge\<close>

text \<open>
  The ids to pull: the one given, or those of the registered publish reactions. An entry without an
  id registers the whole registry, so an entry that was passed over before keeps being passed over.
\<close>

fun publish_ids ::
    "'w register_rpc \<Rightarrow> 'w ReactionDef list \<Rightarrow> nat list \<Rightarrow> 'w \<Rightarrow> (py_exn + string list) \<times> 'w ReactionDef list \<times> 'w" where
  "publish_ids rpc registry [] w = (Inr [], registry, w)"
| "publish_ids rpc registry (i # is) w =
     (if rd_handler_kind (registry ! i) \<noteq> HANDLER_KIND_PUBLISH then publish_ids rpc registry is w
      else (case (if rd_server_reaction_id (registry ! i) = [] then register_all rpc [] registry w else (Inr [], registry, w)) of
              (Inl ex, reg, w1) \<Rightarrow> (Inl ex, reg, w1)
            | (Inr _, reg, w1) \<Rightarrow>
                (case publish_ids rpc reg is w1 of
                   (Inl ex, reg', w2) \<Rightarrow> (Inl ex, reg', w2)
                 | (Inr rids, reg', w2) \<Rightarrow>
                     (Inr (if rd_server_reaction_id (reg ! i) = [] then rids else rd_server_reaction_id (reg ! i) # rids), reg', w2))))"

definition bridge_ids ::
    "'w register_rpc \<Rightarrow> string \<Rightarrow> 'w ReactionDef list \<Rightarrow> 'w \<Rightarrow> (py_exn + string list) \<times> 'w ReactionDef list \<times> 'w" where
  "bridge_ids rpc reaction_id registry w =
     (if reaction_id \<noteq> [] then (Inr [reaction_id], registry, w)
      else publish_ids rpc registry [0..<length registry] w)"

text \<open>A pass with the tasks it claimed; \<open>bridge_loop\<close> makes at most the given number of them.\<close>

type_synonym 'w publish = "wire_text \<Rightarrow> string \<Rightarrow> (string \<times> string) list \<Rightarrow> 'w \<Rightarrow> (py_exn + unit) \<times> 'w"

fun bridge_round :: "'w publish \<Rightarrow> 'w task_client \<Rightarrow> dispatcher_cfg \<Rightarrow> string list \<Rightarrow> 'w \<Rightarrow> PbTask list \<times> 'w" where
  "bridge_round publish cl cfg [] w = ([], w)"
| "bridge_round publish cl cfg (rid # rids) w =
     (case tk_claim_tasks cl rid (dp_owner cfg) (dp_lease_ms cfg) (dp_claim_max cfg) w of
        (Inl ex, w1) \<Rightarrow> bridge_round publish cl cfg rids w1
      | (Inr ts, w1) \<Rightarrow>
          (case bridge_round publish cl cfg rids (fold (bridge_task publish cl (dp_owner cfg)) ts w1) of (claimed, w2) \<Rightarrow> (ts @ claimed, w2)))"

fun bridge_loop :: "'w publish \<Rightarrow> 'w task_client \<Rightarrow> dispatcher_cfg \<Rightarrow> (rat \<Rightarrow> 'w \<Rightarrow> 'w) \<Rightarrow> nat \<Rightarrow> string list \<Rightarrow> 'w \<Rightarrow> PbTask list list \<times> 'w" where
  "bridge_loop publish cl cfg sleep 0 rids w = ([], w)"
| "bridge_loop publish cl cfg sleep (Suc n) rids w =
     (case bridge_round publish cl cfg rids w of (claimed, w1) \<Rightarrow>
        if dp_once cfg then ([claimed], w1)
        else (case bridge_loop publish cl cfg sleep n rids (if claimed = [] then sleep (dp_poll_interval_s cfg) w1 else w1) of
                (rest, w2) \<Rightarrow> (claimed # rest, w2)))"

definition run_pubsub_bridge ::
    "bool \<Rightarrow> 'w register_rpc \<Rightarrow> 'w publish \<Rightarrow> 'w task_client \<Rightarrow> dispatcher_cfg \<Rightarrow> (rat \<Rightarrow> 'w \<Rightarrow> 'w) \<Rightarrow> nat \<Rightarrow> string \<Rightarrow> 'w ReactionDef list \<Rightarrow> 'w \<Rightarrow>
     (py_exn + PbTask list list) \<times> 'w ReactionDef list \<times> 'w" where
  "run_pubsub_bridge installed rpc publish cl cfg sleep n reaction_id registry w =
     (if \<not> installed then
        (Inl (PyExn ''RuntimeError'' ''run_pubsub_bridge requires google-cloud-pubsub; pip install google-cloud-pubsub''), registry, w)
      else (case bridge_ids rpc reaction_id registry w of
              (Inl ex, reg, w1) \<Rightarrow> (Inl ex, reg, w1)
            | (Inr rids, reg, w1) \<Rightarrow> (case bridge_loop publish cl cfg sleep n rids w1 of (css, w2) \<Rightarrow> (Inr css, reg, w2))))"

lemma bridge_round_pass:
  "snd (bridge_round publish cl cfg rids w) = bridge_pass publish cl (dp_owner cfg) (dp_lease_ms cfg) (dp_claim_max cfg) rids w"
proof (induction rids arbitrary: w)
  case (Cons rid rids)
  then show ?case by (simp add: bridge_pass_def bridge_reaction_def case_prod_unfold split: sum.split)
qed (simp add: bridge_pass_def)

section \<open>The story of a task\<close>

text \<open>The calls of a worker up to the end of the handler; without a handler there is none.\<close>

definition handler_calls :: "(wire_text \<Rightarrow> string) \<Rightarrow> 'w task_slot \<Rightarrow> py_exn + unit \<Rightarrow> task_call list" where
  "handler_calls raw sl r = (if rd_handler (sl_rd sl) = None then [] else [HandlerCalled (envelope_of raw (sl_task sl)), HandlerReturned r])"

text \<open>The calls before a failed attempt is reported: the handler failed, or the completion after it did.\<close>

definition failed_calls :: "(wire_text \<Rightarrow> string) \<Rightarrow> string \<Rightarrow> 'w task_slot \<Rightarrow> py_exn \<Rightarrow> task_call list \<Rightarrow> bool" where
  "failed_calls raw owner sl ex calls \<longleftrightarrow>
     rd_handler (sl_rd sl) \<noteq> None \<and> calls = handler_calls raw sl (Inl ex) \<or>
     calls = handler_calls raw sl (Inr ()) @ [TaskCompleted (pt_task_id (sl_task sl)) owner (Inl ex)]"

definition task_story :: "(wire_text \<Rightarrow> string) \<Rightarrow> string \<Rightarrow> 'w task_slot \<Rightarrow> bool" where
  "task_story raw owner sl =
     (let t = sl_task sl; calls = sl_calls sl in
      case sl_phase sl of
        DebounceDone \<Rightarrow> \<exists>r. calls = [TaskCompleted (pt_task_id t) owner r]
      | HandlerRuns \<Rightarrow> rd_handler (sl_rd sl) \<noteq> None \<and> calls = [HandlerCalled (envelope_of raw t)]
      | AwaitsCompletion \<Rightarrow> calls = handler_calls raw sl (Inr ())
      | AwaitsNack ex \<Rightarrow> failed_calls raw owner sl ex calls
      | WorkDone \<Rightarrow>
          calls = handler_calls raw sl (Inr ()) @ [TaskCompleted (pt_task_id t) owner (Inr ())] \<or>
          (\<exists>ex r cs. failed_calls raw owner sl ex cs \<and>
             calls = cs @ [TaskNacked (pt_task_id t) owner (exn_text ex) (pt_attempts t \<ge> rd_dlq_after_n (sl_rd sl)) r])
      | _ \<Rightarrow> calls = [])"

text \<open>The tasks the server gave in a run, with the reaction each was claimed for.\<close>

definition claims_of :: "dispatch_event \<Rightarrow> (string \<times> PbTask) list" where
  "claims_of ev = (case ev of EvClaim rid (Inr ts) \<Rightarrow> map (Pair rid) ts | _ \<Rightarrow> [])"

definition main_ok :: "main_pc \<Rightarrow> bool \<Rightarrow> 'w task_slot list \<Rightarrow> bool" where
  "main_ok pc interrupted sls = (case pc of
     Polling _ _ \<Rightarrow> \<forall>sl \<in> set sls. sl_phase sl \<noteq> Claimed
   | Submitting js _ _ \<Rightarrow> \<forall>i < length sls. sl_phase (sls ! i) = Claimed \<longrightarrow> i \<in> set js
   | Draining \<Rightarrow> interrupted \<or> (\<forall>sl \<in> set sls. sl_phase sl \<noteq> Claimed)
   | Closed \<Rightarrow> \<forall>sl \<in> set sls. sl_phase sl \<in> {DebounceDone, WorkDone} \<or> interrupted \<and> sl_phase sl = Claimed)"

text \<open>The invariant of the dispatcher over the reactions \<open>rs\<close>.\<close>

definition dispatch_inv :: "(wire_text \<Rightarrow> string) \<Rightarrow> string \<Rightarrow> (string \<times> 'w ReactionDef) list \<Rightarrow> 'w dispatcher \<Rightarrow> bool" where
  "dispatch_inv raw owner rs s \<longleftrightarrow> ds_reactions s = rs \<and>
     (\<forall>sl \<in> set (ds_slots s). (sl_rid sl, sl_rd sl) \<in> set rs \<and> task_story raw owner sl) \<and>
     (\<forall>(rid, rd) \<in> set rs. int (active rid (ds_slots s)) \<le> rd_max_concurrency rd) \<and>
     (\<forall>rid. 0 \<le> tb_tokens (ds_buckets s rid) \<and> 0 \<le> tb_rate (ds_buckets s rid)) \<and>
     main_ok (ds_main s) (ds_interrupted s) (ds_slots s)"

lemma set_phase_simps [simp]:
  "sl_rid (set_phase ph cs sl) = sl_rid sl" "sl_rd (set_phase ph cs sl) = sl_rd sl" "sl_task (set_phase ph cs sl) = sl_task sl"
  "sl_phase (set_phase ph cs sl) = ph" "sl_calls (set_phase ph cs sl) = sl_calls sl @ cs"
  by (simp_all add: set_phase_def)

lemma handler_calls_phase [simp]:
  "handler_calls raw (set_phase ph cs sl) r = handler_calls raw sl r" "failed_calls raw owner (set_phase ph cs sl) ex calls = failed_calls raw owner sl ex calls"
  by (simp_all add: handler_calls_def failed_calls_def)

lemma set_slot_simps [simp]:
  "ds_main (set_slot j sl s) = ds_main s" "ds_reactions (set_slot j sl s) = ds_reactions s" "ds_buckets (set_slot j sl s) = ds_buckets s"
  "ds_debouncers (set_slot j sl s) = ds_debouncers s"
  "ds_slots (set_slot j sl s) = (ds_slots s)[j := sl]" "ds_interrupted (set_slot j sl s) = ds_interrupted s"
  by (simp_all add: set_slot_def)

lemma length_filter_update:
  "j < length xs \<Longrightarrow> length (filter P (xs[j := y])) + (if P (xs ! j) then 1 else 0) = length (filter P xs) + (if P y then 1 else 0)"
proof (induction xs arbitrary: j)
  case (Cons x xs)
  then show ?case by (cases j) auto
qed simp

lemma active_update:
  assumes "j < length sls" and "sl_rid sl = sl_rid (sls ! j)"
  shows "active rid (sls[j := sl]) + (if sl_rid sl = rid \<and> busy (sl_phase (sls ! j)) then 1 else 0) =
    active rid sls + (if sl_rid sl = rid \<and> busy (sl_phase sl) then 1 else 0)"
  using length_filter_update [OF assms(1), of "\<lambda>sl. sl_rid sl = rid \<and> busy (sl_phase sl)" sl] assms(2) by (simp add: active_def)

lemma work_step_story:
  assumes "work_step raw owner ev sl = Some sl'" and "task_story raw owner sl"
  shows "task_story raw owner sl' \<and> sl_rid sl' = sl_rid sl \<and> sl_rd sl' = sl_rd sl \<and> sl_task sl' = sl_task sl \<and>
    busy (sl_phase sl) \<and> sl_phase sl' \<noteq> Claimed"
  using assms
  by (auto simp: work_step_def task_story_def failed_calls_def handler_calls_def busy_def Let_def
      split: phase.splits work_event.splits option.splits sum.splits)

lemma main_ok_update:
  assumes "main_ok pc i sls" and "j < length sls" and "sl_phase sl \<noteq> Claimed" and "pc = Closed \<Longrightarrow> sl_phase sl \<in> {DebounceDone, WorkDone}"
  shows "main_ok pc i (sls[j := sl])"
  using assms by (auto simp: main_ok_def nth_list_update dest!: subsetD [OF set_update_subset_insert] split: main_pc.splits)

lemma slot_step_inv:
  assumes inv: "dispatch_inv raw owner rs s" and j: "j < length (ds_slots s)"
    and same: "sl_rid sl = sl_rid (ds_slots s ! j)" "sl_rd sl = sl_rd (ds_slots s ! j)"
    and story: "task_story raw owner sl" and cl: "sl_phase sl \<noteq> Claimed"
    and busy: "busy (sl_phase sl) \<Longrightarrow> busy (sl_phase (ds_slots s ! j)) \<or>
      (\<forall>rd. (sl_rid sl, rd) \<in> set rs \<longrightarrow> int (active (sl_rid sl) (ds_slots s)) < rd_max_concurrency rd)"
    and pc: "ds_main s = Closed \<Longrightarrow> sl_phase sl \<in> {DebounceDone, WorkDone}"
  shows "dispatch_inv raw owner rs (set_slot j sl s)"
proof -
  have mem: "ds_slots s ! j \<in> set (ds_slots s)" using j by simp
  have "int (active rid ((ds_slots s)[j := sl])) \<le> rd_max_concurrency rd" if rs: "(rid, rd) \<in> set rs" for rid rd
  proof -
    have "int (active rid (ds_slots s)) \<le> rd_max_concurrency rd" using inv rs by (auto simp: dispatch_inv_def)
    moreover have "int (active rid (ds_slots s)) < rd_max_concurrency rd" if "sl_rid sl = rid" "busy (sl_phase sl)" "\<not> busy (sl_phase (ds_slots s ! j))"
      using busy that rs by blast
    ultimately show ?thesis using active_update [OF j same(1), of rid]
      by (cases "sl_rid sl = rid"; cases "busy (sl_phase sl)"; cases "busy (sl_phase (ds_slots s ! j))") auto
  qed
  moreover have "(sl_rid sl, sl_rd sl) \<in> set rs" using inv mem same by (simp add: dispatch_inv_def)
  moreover have "main_ok (ds_main s) (ds_interrupted s) ((ds_slots s)[j := sl])"
    using inv main_ok_update [OF _ j cl pc] by (simp add: dispatch_inv_def)
  ultimately show ?thesis using inv story
    by (auto simp: dispatch_inv_def dest!: subsetD [OF set_update_subset_insert])
qed

text \<open>Reactions with different ids, each with at least one thread.\<close>

definition reactions_ok :: "(string \<times> 'w ReactionDef) list \<Rightarrow> bool" where
  "reactions_ok rs \<longleftrightarrow> distinct (map fst rs) \<and> (\<forall>(rid, rd) \<in> set rs. 0 < rd_max_concurrency rd)"

lemma inv_frame:
  assumes "dispatch_inv raw owner rs s" and "ds_reactions s' = ds_reactions s" and "ds_slots s' = ds_slots s" and "ds_buckets s' = ds_buckets s"
    and "main_ok (ds_main s') (ds_interrupted s') (ds_slots s)"
  shows "dispatch_inv raw owner rs s'"
  using assms by (simp add: dispatch_inv_def)

lemma not_closed:
  "dispatch_inv raw owner rs s \<Longrightarrow> sl \<in> set (ds_slots s) \<Longrightarrow> busy (sl_phase sl) \<or> sl_phase sl = Queued \<Longrightarrow> ds_main s \<noteq> Closed"
  by (fastforce simp: dispatch_inv_def main_ok_def busy_def)

lemma claim_step_inv:
  assumes inv: "dispatch_inv raw owner rs s" and step: "claim_step rid reply s = Some s'"
  shows "dispatch_inv raw owner rs s'"
proof -
  obtain rids did where main: "ds_main s = Polling (rid # rids) did" using step by (auto simp: claim_step_def split: main_pc.splits list.splits if_splits)
  then have none: "\<forall>sl \<in> set (ds_slots s). sl_phase sl \<noteq> Claimed" using inv by (simp add: dispatch_inv_def main_ok_def)
  show ?thesis
  proof (cases reply)
    case (Inl ex)
    then have "s' = s\<lparr>ds_main := Polling rids did\<rparr>" using step main by (simp add: claim_step_def)
    then show ?thesis using inv_frame [OF inv] none by (simp add: main_ok_def)
  next
    case (Inr ts)
    then obtain rd where rd: "map_of (ds_reactions s) rid = Some rd" using step main by (auto simp: claim_step_def split: option.splits)
    let ?n = "length (ds_slots s)" and ?new = "map (new_slot rid rd) ts"
    have s': "s' = s\<lparr>ds_main := submitted [?n..<?n + length ts] rids (did \<or> ts \<noteq> []), ds_slots := ds_slots s @ ?new\<rparr>"
      using step main Inr rd by (simp add: claim_step_def)
    have "(rid, rd) \<in> set rs" using map_of_SomeD [OF rd] inv by (simp add: dispatch_inv_def)
    moreover have "active q (ds_slots s @ ?new) = active q (ds_slots s)" for q by (simp add: active_def new_slot_def busy_def filter_map comp_def)
    moreover have "main_ok (submitted [?n..<?n + length ts] rids d) i (ds_slots s @ ?new)" for d i
    proof (cases "ts = []")
      case True
      then show ?thesis using none by (simp add: submitted_def main_ok_def)
    next
      case False
      have "k \<in> set [?n..<?n + length ts]" if "k < length (ds_slots s @ ?new)" "sl_phase ((ds_slots s @ ?new) ! k) = Claimed" for k
        using that none by (cases "k < ?n") (auto simp: nth_append)
      then show ?thesis using False by (simp add: submitted_def main_ok_def)
    qed
    ultimately show ?thesis using inv unfolding s' by (auto simp: dispatch_inv_def new_slot_def task_story_def Let_def)
  qed
qed

lemma admit_step_inv:
  assumes inv: "dispatch_inv raw (dp_owner cfg) rs s" and step: "admit_step cfg now reply s = Some s'"
  shows "dispatch_inv raw (dp_owner cfg) rs s'"
proof -
  obtain j js rids did where main: "ds_main s = Submitting (j # js) rids did"
    using step by (auto simp: admit_step_def split: main_pc.splits list.splits)
  let ?sl = "ds_slots s ! j"
  obtain ok d where al: "allow now (pt_subject (sl_task ?sl)) (ds_debouncers s (sl_rid ?sl)) = (ok, d)" by fastforce
  let ?new = "if ok then set_phase Queued [] ?sl
    else set_phase DebounceDone [TaskCompleted (pt_task_id (sl_task ?sl)) (dp_owner cfg) reply] ?sl"
  have j: "j < length (ds_slots s)" "sl_phase ?sl = Claimed"
    and s': "s' = (set_slot j ?new s)\<lparr>ds_main := submitted js rids did, ds_debouncers := (ds_debouncers s)(sl_rid ?sl := d)\<rparr>"
    using step main al by (auto simp: admit_step_def Let_def split: if_splits)
  have "task_story raw (dp_owner cfg) ?sl" using inv j(1) by (simp add: dispatch_inv_def)
  then have st: "task_story raw (dp_owner cfg) ?new" "sl_phase ?new \<noteq> Claimed" "\<not> busy (sl_phase ?new)"
    using j(2) by (auto simp: task_story_def busy_def Let_def)
  have one: "dispatch_inv raw (dp_owner cfg) rs (set_slot j ?new s)"
    by (rule slot_step_inv [OF inv j(1) _ _ st(1,2)]) (use st(3) main in auto)
  have "\<forall>i < length (ds_slots s). sl_phase ((ds_slots s)[j := ?new] ! i) = Claimed \<longrightarrow> i \<in> set js"
    using inv main st(2) j(1) by (auto simp: dispatch_inv_def main_ok_def nth_list_update)
  then have "main_ok (submitted js rids did) (ds_interrupted s) ((ds_slots s)[j := ?new])"
    by (cases js) (auto simp: submitted_def main_ok_def in_set_conv_nth)
  then show ?thesis unfolding s' by (intro inv_frame [OF one]) simp_all
qed

lemma take_step_inv:
  assumes inv: "dispatch_inv raw owner rs s" and rs: "reactions_ok rs" and step: "dispatch_step raw cfg s (EvTake j) = Some s'"
  shows "dispatch_inv raw owner rs s'"
proof -
  let ?sl = "ds_slots s ! j"
  have j: "j < length (ds_slots s)" "sl_phase ?sl = Queued" and room: "int (active (sl_rid ?sl) (ds_slots s)) < rd_max_concurrency (sl_rd ?sl)"
    and s': "s' = set_slot j (set_phase AwaitsToken [] ?sl) s"
    using step by (auto simp: first_queued_def Let_def split: if_splits)
  have mem: "?sl \<in> set (ds_slots s)" using j(1) by simp
  then have st: "task_story raw owner ?sl" "(sl_rid ?sl, sl_rd ?sl) \<in> set rs" using inv by (auto simp: dispatch_inv_def)
  have one: "\<forall>rd. (sl_rid ?sl, rd) \<in> set rs \<longrightarrow> int (active (sl_rid ?sl) (ds_slots s)) < rd_max_concurrency rd"
    using eq_key_imp_eq_value [OF _ _ st(2)] rs room by (auto simp: reactions_ok_def)
  have "task_story raw owner (set_phase AwaitsToken [] ?sl)" using st(1) j(2) by (simp add: task_story_def Let_def)
  with one show ?thesis unfolding s' using not_closed [OF inv mem] j(2) by (intro slot_step_inv [OF inv j(1)]) simp_all
qed

lemma token_step_inv:
  assumes inv: "dispatch_inv raw owner rs s" and step: "token_step j now s = Some s'"
  shows "dispatch_inv raw owner rs s'"
proof -
  let ?sl = "ds_slots s ! j" and ?b = "ds_buckets s (sl_rid (ds_slots s ! j))"
  obtain ok b' where ar: "acquire_round now ?b = (ok, b')" by fastforce
  have j: "j < length (ds_slots s)" "sl_phase ?sl = AwaitsToken" "tb_last ?b \<le> now"
    and s': "s' = (if ok then set_slot j (set_phase TokenHeld [] ?sl) s else s)\<lparr>ds_buckets := (ds_buckets s)(sl_rid ?sl := b')\<rparr>"
    using step ar by (auto simp: token_step_def Let_def split: if_splits)
  have b: "0 \<le> tb_tokens ?b" "0 \<le> tb_rate ?b" using inv by (auto simp: dispatch_inv_def)
  obtain nap b2 where bs: "bucket_step now ?b = (nap, b2)" by fastforce
  have "0 \<le> tb_tokens b2" "tb_rate b2 = tb_rate ?b"
    using bucket_step_nonneg [OF b j(3)] bucket_step_rate(1) [of now ?b] unfolding bs by simp_all
  then have "0 \<le> tb_tokens b' \<and> 0 \<le> tb_rate b'" using ar bs b by (auto simp: acquire_round_def split: if_splits)
  moreover have "dispatch_inv raw owner rs (if ok then set_slot j (set_phase TokenHeld [] ?sl) s else s)"
  proof (cases ok)
    case True
    have "task_story raw owner ?sl" "?sl \<in> set (ds_slots s)" using inv j(1) by (simp_all add: dispatch_inv_def)
    moreover from not_closed [OF inv this(2)] have "ds_main s \<noteq> Closed" using j(2) by (simp add: busy_def)
    ultimately have "dispatch_inv raw owner rs (set_slot j (set_phase TokenHeld [] ?sl) s)"
      using j(2) by (intro slot_step_inv [OF inv j(1)]) (auto simp: task_story_def busy_def Let_def)
    with True show ?thesis by simp
  qed (use inv in simp)
  ultimately show ?thesis unfolding s' by (cases ok) (auto simp: dispatch_inv_def)
qed

lemma work_event_inv:
  assumes inv: "dispatch_inv raw (dp_owner cfg) rs s" and step: "dispatch_step raw cfg s (EvWork j ev) = Some s'"
  shows "dispatch_inv raw (dp_owner cfg) rs s'"
proof -
  obtain sl where j: "j < length (ds_slots s)" and ws: "work_step raw (dp_owner cfg) ev (ds_slots s ! j) = Some sl" and s': "s' = set_slot j sl s"
    using step by (auto split: if_splits)
  have mem: "ds_slots s ! j \<in> set (ds_slots s)" using j by simp
  have "task_story raw (dp_owner cfg) (ds_slots s ! j)" using inv mem by (simp add: dispatch_inv_def)
  note st = work_step_story [OF ws this]
  have "ds_main s \<noteq> Closed" using not_closed [OF inv mem] st by simp
  with st show ?thesis unfolding s' by (intro slot_step_inv [OF inv j]) auto
qed

lemma dispatch_step_inv:
  assumes "dispatch_inv raw (dp_owner cfg) rs s" and "reactions_ok rs" and "dispatch_step raw cfg s ev = Some s'"
  shows "dispatch_inv raw (dp_owner cfg) rs s'"
proof (cases ev)
  case (EvClaim rid reply)
  with assms claim_step_inv show ?thesis by auto
next
  case (EvAdmit now reply)
  with assms admit_step_inv show ?thesis by auto
next
  case (EvTake j)
  with assms take_step_inv show ?thesis by blast
next
  case (EvToken j now)
  with assms token_step_inv show ?thesis by auto
next
  case (EvWork j e)
  with assms work_event_inv show ?thesis by blast
next
  case EvNextPass
  with assms show ?thesis by (auto simp: main_ok_def dispatch_inv_def split: main_pc.splits list.splits if_splits)
next
  case EvReturn
  with assms show ?thesis by (auto simp: main_ok_def dispatch_inv_def split: main_pc.splits list.splits if_splits)
next
  case EvInterrupt
  with assms show ?thesis by (auto simp: main_ok_def dispatch_inv_def split: if_splits)
next
  case EvClose
  with assms show ?thesis by (auto simp: main_ok_def dispatch_inv_def drained_def list_all_iff split: if_splits)
qed

text \<open>Every task of a claim gets its slot, and no other is made; the interrupt is remembered.\<close>

definition slot_key :: "'w task_slot \<Rightarrow> string \<times> PbTask" where
  "slot_key sl = (sl_rid sl, sl_task sl)"

lemma keys_update: "slot_key sl = slot_key (sls ! j) \<Longrightarrow> map slot_key (sls[j := sl]) = map slot_key sls"
  by (cases "j < length sls") (simp_all add: map_update list_update_same_conv list_update_beyond)

lemma dispatch_step_keys:
  assumes "dispatch_step raw cfg s ev = Some s'"
  shows "map slot_key (ds_slots s') = map slot_key (ds_slots s) @ claims_of ev \<and> (ds_interrupted s' \<longleftrightarrow> ds_interrupted s \<or> ev = EvInterrupt)"
proof (cases ev)
  case (EvWork j e)
  then obtain sl where ws: "work_step raw (dp_owner cfg) e (ds_slots s ! j) = Some sl" and s': "s' = set_slot j sl s"
    using assms by (auto split: if_splits)
  have "slot_key sl = slot_key (ds_slots s ! j)"
    using ws by (auto simp: work_step_def slot_key_def Let_def split: phase.splits work_event.splits option.splits)
  then show ?thesis using EvWork s' by (simp add: keys_update claims_of_def)
next
  case (EvClaim rid reply)
  then show ?thesis using assms
    by (auto simp: claim_step_def claims_of_def slot_key_def new_slot_def split: main_pc.splits list.splits if_splits sum.splits option.splits)
next
  case (EvAdmit now reply)
  then show ?thesis using assms
    by (auto simp: admit_step_def claims_of_def Let_def keys_update slot_key_def split: main_pc.splits list.splits if_splits prod.splits)
next
  case (EvTake j)
  then show ?thesis using assms by (auto simp: claims_of_def Let_def keys_update slot_key_def split: if_splits)
next
  case (EvToken j now)
  then show ?thesis using assms
    by (auto simp: token_step_def claims_of_def Let_def keys_update slot_key_def split: if_splits prod.splits)
next
  case EvNextPass
  then show ?thesis using assms by (auto simp: claims_of_def split: main_pc.splits list.splits if_splits)
next
  case EvReturn
  then show ?thesis using assms by (auto simp: claims_of_def split: main_pc.splits list.splits if_splits)
qed (use assms in \<open>auto simp: claims_of_def split: if_splits\<close>)

lemma dispatch_run_inv:
  assumes "reactions_ok rs"
  shows "dispatch_inv raw (dp_owner cfg) rs s \<Longrightarrow> dispatch_run raw cfg s evs = Some s' \<Longrightarrow>
    dispatch_inv raw (dp_owner cfg) rs s' \<and> map slot_key (ds_slots s') = map slot_key (ds_slots s) @ concat (map claims_of evs) \<and>
    (ds_interrupted s' \<longleftrightarrow> ds_interrupted s \<or> EvInterrupt \<in> set evs)"
proof (induction evs arbitrary: s)
  case (Cons ev evs)
  obtain s1 where s1: "dispatch_step raw cfg s ev = Some s1" "dispatch_run raw cfg s1 evs = Some s'" using Cons.prems(2) by (auto split: option.splits)
  show ?case using Cons.IH [OF dispatch_step_inv [OF Cons.prems(1) assms s1(1)] s1(2)] dispatch_step_keys [OF s1(1)] by auto
qed simp

section \<open>Draining ends\<close>

text \<open>The steps a task still has before it.\<close>

definition steps_left :: "phase \<Rightarrow> nat" where
  "steps_left ph = (case ph of Queued \<Rightarrow> 6 | AwaitsToken \<Rightarrow> 5 | TokenHeld \<Rightarrow> 4 | HandlerRuns \<Rightarrow> 3 | AwaitsCompletion \<Rightarrow> 2 | AwaitsNack _ \<Rightarrow> 1 | _ \<Rightarrow> 0)"

definition work_left :: "'w task_slot list \<Rightarrow> nat" where
  "work_left sls = sum_list (map (\<lambda>sl. steps_left (sl_phase sl)) sls)"

lemma sum_list_update_nat: "j < length xs \<Longrightarrow> sum_list (map f (xs[j := y])) + f (xs ! j) = sum_list (map f xs) + (f y :: nat)"
proof (induction xs arbitrary: j)
  case (Cons x xs)
  then show ?case by (cases j) (auto simp: add_ac)
qed simp

lemma work_left_less:
  "j < length sls \<Longrightarrow> steps_left (sl_phase sl) < steps_left (sl_phase (sls ! j)) \<Longrightarrow> work_left (sls[j := sl]) < work_left sls"
  using sum_list_update_nat [of j sls "\<lambda>sl. steps_left (sl_phase sl)" sl] by (simp add: work_left_def)

lemma token_granted:
  assumes "0 \<le> tb_tokens b" and "0 \<le> tb_rate b"
  shows "fst (acquire_round (tb_last b + 1) b)"
proof (cases "tb_rate b \<le> 0")
  case False
  then have "1 \<le> (of_int (tb_rate b) :: rat)" by simp
  with assms(1) have "1 \<le> min (of_int (tb_rate b)) (tb_tokens b + (of_int (tb_rate b) :: rat))" by simp
  with False show ?thesis by (simp add: acquire_round_def bucket_step_def Let_def)
qed (simp add: acquire_round_def)

lemma work_progress:
  "busy (sl_phase sl) \<Longrightarrow> sl_phase sl \<noteq> AwaitsToken \<Longrightarrow>
   \<exists>ev sl'. work_step raw owner ev sl = Some sl' \<and> steps_left (sl_phase sl') < steps_left (sl_phase sl)"
proof (cases "sl_phase sl")
  case TokenHeld
  then show ?thesis by (intro exI [of _ CallHandler]) (auto simp: work_step_def steps_left_def Let_def split: option.splits)
next
  case HandlerRuns
  then show ?thesis by (intro exI [of _ "HandlerDone (Inr ())"]) (simp add: work_step_def steps_left_def Let_def)
next
  case AwaitsCompletion
  then show ?thesis by (intro exI [of _ "CompleteReply (Inr ())"]) (simp add: work_step_def steps_left_def Let_def)
next
  case (AwaitsNack ex)
  then show ?thesis by (intro exI [of _ "NackReply (Inr ())"]) (simp add: work_step_def steps_left_def Let_def)
qed (simp_all add: busy_def)

text \<open>A thread that holds a task has a step, whatever the others do.\<close>

lemma busy_progress:
  assumes inv: "dispatch_inv raw owner rs s" and j: "j < length (ds_slots s)" and bz: "busy (sl_phase (ds_slots s ! j))"
  shows "\<exists>ev s'. dispatch_step raw cfg s ev = Some s' \<and> ds_main s' = ds_main s \<and> work_left (ds_slots s') < work_left (ds_slots s)"
proof -
  let ?sl = "ds_slots s ! j"
  show ?thesis
  proof (cases "sl_phase ?sl = AwaitsToken")
    case True
    let ?b = "ds_buckets s (sl_rid ?sl)"
    have "fst (acquire_round (tb_last ?b + 1) ?b)" using token_granted inv by (simp add: dispatch_inv_def)
    then obtain b' where "acquire_round (tb_last ?b + 1) ?b = (True, b')" by (metis (full_types) prod.collapse)
    then have "dispatch_step raw cfg s (EvToken j (tb_last ?b + 1)) =
        Some ((set_slot j (set_phase TokenHeld [] ?sl) s)\<lparr>ds_buckets := (ds_buckets s)(sl_rid ?sl := b')\<rparr>)"
      using True j by (simp add: token_step_def Let_def)
    moreover have "work_left ((ds_slots s)[j := set_phase TokenHeld [] ?sl]) < work_left (ds_slots s)"
      by (rule work_left_less [OF j]) (simp add: True steps_left_def)
    ultimately show ?thesis by (intro exI conjI) (assumption, simp_all)
  next
    case False
    then obtain ev sl where ws: "work_step raw (dp_owner cfg) ev ?sl = Some sl" and less: "steps_left (sl_phase sl) < steps_left (sl_phase ?sl)"
      using bz work_progress by blast
    then have "dispatch_step raw cfg s (EvWork j ev) = Some (set_slot j sl s)" using j by simp
    moreover have "work_left ((ds_slots s)[j := sl]) < work_left (ds_slots s)" by (rule work_left_less [OF j less])
    ultimately show ?thesis by (intro exI conjI) (assumption, simp_all)
  qed
qed

lemma queue_progress_step:
  assumes inv: "dispatch_inv raw owner rs s" and rs: "reactions_ok rs" and left: "\<not> drained s"
  shows "\<exists>ev s'. dispatch_step raw cfg s ev = Some s' \<and> ds_main s' = ds_main s \<and> work_left (ds_slots s') < work_left (ds_slots s)"
proof (cases "\<exists>sl \<in> set (ds_slots s). busy (sl_phase sl)")
  case True
  then show ?thesis using busy_progress [OF inv] by (metis in_set_conv_nth)
next
  case False
  let ?P = "\<lambda>i. i < length (ds_slots s) \<and> sl_phase (ds_slots s ! i) = Queued"
  obtain sl where sl: "sl \<in> set (ds_slots s)" "sl_phase sl \<notin> {Claimed, DebounceDone, WorkDone}" using left by (auto simp: drained_def list_all_iff)
  with False have "sl_phase sl = Queued" by (cases "sl_phase sl") (auto simp: busy_def dest: bspec)
  with sl(1) have "\<exists>i. ?P i" by (auto simp: in_set_conv_nth)
  define j where "j = (LEAST i. ?P i)"
  have j: "?P j" unfolding j_def using \<open>\<exists>i. ?P i\<close> by (rule LeastI_ex)
  have "sl_phase (ds_slots s ! i) \<noteq> Queued" if "i < j" for i using not_less_Least [of i ?P] that j unfolding j_def by auto
  then have first: "first_queued j (ds_slots s)" using j by (auto simp: first_queued_def list_all_iff in_set_conv_nth)
  have "active (sl_rid (ds_slots s ! j)) (ds_slots s) = 0" using False by (auto simp: active_def filter_empty_conv)
  moreover have "0 < rd_max_concurrency (sl_rd (ds_slots s ! j))" using inv rs j by (auto simp: dispatch_inv_def reactions_ok_def)
  ultimately have "dispatch_step raw cfg s (EvTake j) = Some (set_slot j (set_phase AwaitsToken [] (ds_slots s ! j)) s)" using first by (simp add: Let_def)
  moreover have "work_left ((ds_slots s)[j := set_phase AwaitsToken [] (ds_slots s ! j)]) < work_left (ds_slots s)"
    by (rule work_left_less) (use j in \<open>simp_all add: steps_left_def\<close>)
  ultimately show ?thesis by (intro exI conjI) (assumption, simp_all)
qed

lemma drain_reaches_close:
  "dispatch_inv raw (dp_owner cfg) rs s \<Longrightarrow> reactions_ok rs \<Longrightarrow> ds_main s = Draining \<Longrightarrow>
   \<exists>evs s'. dispatch_run raw cfg s evs = Some s' \<and> ds_main s' = Closed"
proof (induction "work_left (ds_slots s)" arbitrary: s rule: less_induct)
  case less
  show ?case
  proof (cases "drained s")
    case True
    then have "dispatch_run raw cfg s [EvClose] = Some (s\<lparr>ds_main := Closed\<rparr>)" using less.prems(3) by simp
    then show ?thesis by (intro exI conjI) (assumption, simp)
  next
    case False
    obtain ev s1 where s1: "dispatch_step raw cfg s ev = Some s1" "ds_main s1 = Draining" "work_left (ds_slots s1) < work_left (ds_slots s)"
      using queue_progress_step [OF less.prems(1,2) False, of cfg] less.prems(3) by auto
    from less.hyps [OF s1(3) dispatch_step_inv [OF less.prems(1,2) s1(1)] less.prems(2) s1(2)]
    obtain evs s' where "dispatch_run raw cfg s1 evs = Some s'" "ds_main s' = Closed" by blast
    with s1(1) have "dispatch_run raw cfg s (ev # evs) = Some s'" by simp
    with \<open>ds_main s' = Closed\<close> show ?thesis by blast
  qed
qed

section \<open>The reactions of a run\<close>

lemma update_entries: "set (AList.update k v kvs) \<subseteq> insert (k, v) (set kvs)"
  by (induction kvs) auto

definition dispatchable :: "'w ReactionDef \<Rightarrow> bool" where
  "dispatchable rd \<longleftrightarrow> rd_handler_kind rd = HANDLER_KIND_TASK \<and> rd_server_reaction_id rd \<noteq> []"

lemma dispatched_fold:
  "distinct (map fst st) \<Longrightarrow> \<forall>(rid, rd) \<in> set st. rd \<in> R \<and> dispatchable rd \<and> rid = rd_server_reaction_id rd \<Longrightarrow> set rds \<subseteq> R \<Longrightarrow>
   (let st' = fold (\<lambda>rd st. if rd_handler_kind rd = HANDLER_KIND_TASK \<and> rd_server_reaction_id rd \<noteq> []
                   then AList.update (rd_server_reaction_id rd) rd st else st) rds st
    in distinct (map fst st') \<and> (\<forall>(rid, rd) \<in> set st'. rd \<in> R \<and> dispatchable rd \<and> rid = rd_server_reaction_id rd))"
proof (induction rds arbitrary: st)
  case (Cons rd rds)
  let ?st = "if dispatchable rd then AList.update (rd_server_reaction_id rd) rd st else st"
  have "distinct (map fst ?st)" using Cons.prems(1) by (simp add: distinct_update)
  moreover have "\<forall>(rid, rd) \<in> set ?st. rd \<in> R \<and> dispatchable rd \<and> rid = rd_server_reaction_id rd"
  proof (cases "dispatchable rd")
    case True
    then have "\<forall>(rid, rd) \<in> insert (rd_server_reaction_id rd, rd) (set st). rd \<in> R \<and> dispatchable rd \<and> rid = rd_server_reaction_id rd"
      using Cons.prems(2,3) by simp
    then show ?thesis using True update_entries [of "rd_server_reaction_id rd" rd st] by (simp only: if_True) (rule ballI, blast)
  qed (use Cons.prems(2) in simp)
  ultimately show ?case using Cons.IH [of ?st] Cons.prems(3) by (simp add: dispatchable_def Let_def)
qed (simp add: Let_def)

lemma dispatched_ok:
  assumes "\<not> list_ex (\<lambda>rd. rd_handler_kind rd = HANDLER_KIND_TASK \<and> rd_server_reaction_id rd \<noteq> [] \<and> rd_max_concurrency rd \<le> 0) reg"
  shows "reactions_ok (dispatched_reactions reg)"
proof -
  have "distinct (map fst (dispatched_reactions reg)) \<and>
      (\<forall>(rid, rd) \<in> set (dispatched_reactions reg). rd \<in> set reg \<and> dispatchable rd \<and> rid = rd_server_reaction_id rd)"
    using dispatched_fold [of "[]" "set reg" reg] unfolding dispatched_reactions_def Let_def by simp
  moreover have "0 < rd_max_concurrency rd" if "rd \<in> set reg" "dispatchable rd" for rd
    using assms that by (auto simp: list_ex_iff dispatchable_def not_le)
  ultimately show ?thesis unfolding reactions_ok_def by blast
qed

lemma start_inv: "reactions_ok rs \<Longrightarrow> dispatch_inv raw owner rs (start_dispatcher t0 rs)"
  by (auto simp: dispatch_inv_def start_dispatcher_def main_ok_def active_def reactions_ok_def new_bucket_def Let_def)

section \<open>Properties\<close>

text \<open>
  C22. The dispatcher handles each claimed task once and leaves none unanswered, in every interleaving of
  its main thread with the threads of its executors and whatever handlers and server answer. At any
  time there is exactly one record per task a claim returned, and the calls made for it are exactly these:
  a debounced task is completed and its handler is not called; any other runs its handler once; only after the
  handler returned is the task completed; if the handler or the completion failed it is reported as failed with
  that error, permanently exactly if its attempts have reached \<open>dlq_after_n\<close>. No reaction ever has
  more tasks at work than \<open>max_concurrency\<close>. When the dispatcher is closed every claimed task has
  been answered in one of these ways, but for those the main thread had not submitted yet when it was
  interrupted; and once it is draining it can always get to its close.
\<close>

theorem dispatcher_answers_all:
  assumes "run_dispatcher raw rpc cfg t0 evs registry w = (Inr (Some s), reg, w')"
  shows "map (\<lambda>sl. (sl_rid sl, sl_task sl)) (ds_slots s) = concat (map claims_of evs) \<and>
    (\<forall>sl \<in> set (ds_slots s). (sl_rid sl, sl_rd sl) \<in> set (dispatched_reactions reg) \<and> task_story raw (dp_owner cfg) sl) \<and>
    (\<forall>(rid, rd) \<in> set (dispatched_reactions reg). int (active rid (ds_slots s)) \<le> rd_max_concurrency rd) \<and>
    (ds_main s = Closed \<longrightarrow> (\<forall>sl \<in> set (ds_slots s). sl_phase sl \<in> {DebounceDone, WorkDone} \<or> EvInterrupt \<in> set evs \<and> sl_phase sl = Claimed)) \<and>
    (ds_main s = Draining \<longrightarrow> (\<exists>evs' s'. dispatch_run raw cfg s evs' = Some s' \<and> ds_main s' = Closed))"
proof -
  let ?rs = "dispatched_reactions reg"
  have ok: "reactions_ok ?rs" and run: "dispatch_run raw cfg (start_dispatcher t0 ?rs) evs = Some s"
    using assms dispatched_ok [of reg] by (auto simp: run_dispatcher_def split: sum.splits prod.splits if_splits)
  have inv: "dispatch_inv raw (dp_owner cfg) ?rs s" and keys: "map slot_key (ds_slots s) = concat (map claims_of evs)"
    and int: "ds_interrupted s \<longleftrightarrow> EvInterrupt \<in> set evs"
    using dispatch_run_inv [OF ok start_inv [OF ok] run] by (simp_all add: start_dispatcher_def Let_def)
  show ?thesis
  proof (intro conjI impI)
    show "map (\<lambda>sl. (sl_rid sl, sl_task sl)) (ds_slots s) = concat (map claims_of evs)" using keys by (simp add: slot_key_def [abs_def])
    show "\<exists>evs' s'. dispatch_run raw cfg s evs' = Some s' \<and> ds_main s' = Closed" if "ds_main s = Draining"
      by (rule drain_reaches_close [OF inv ok that])
  qed (use inv int in \<open>auto simp: dispatch_inv_def main_ok_def\<close>)
qed

text \<open>
  One pass over a task reaction that claims two tasks of one subject: the second is debounced, and the
  handler of the first fails after the main thread has begun to drain.
\<close>

definition calm_reaction :: "unit ReactionDef" where
  "calm_reaction = \<lparr>rd_subject_pattern = ''/tape/**'', rd_handler = Some (\<lambda>env w. (Inr (), w)), rd_handler_kind = HANDLER_KIND_TASK,
     rd_predicate_cel = [], rd_agent_app = [], rd_publish_target = [], rd_max_concurrency = 1, rd_rate_limit_per_s = 0, rd_debounce_ms = 1000,
     rd_retry_max = 5, rd_retry_backoff_ms = 1000, rd_dlq_after_n = 5, rd_num_shards = 1, rd_name = ''r'', rd_reaction_id = [], rd_server_reaction_id = ''R1''\<rparr>"

definition calm_task :: "string \<Rightarrow> PbTask" where
  "calm_task i = \<lparr>pt_task_id = i, pt_reaction_id = ''R1'', pt_subject = ''/tape/x'', pt_source_run_id = ''run'', pt_source_global_seq = 1,
     pt_attempts = 1, pt_trace_id = [], pt_parent_span_id = [], pt_payload_json = PlainText []\<rparr>"

definition once_cfg :: dispatcher_cfg where
  "once_cfg = \<lparr>dp_owner = ''me'', dp_once = True, dp_register = False, dp_prefix = [], dp_claim_max = 16, dp_lease_ms = 60000, dp_poll_interval_s = 1 / 2\<rparr>"

definition two_task_events :: "dispatch_event list" where
  "two_task_events = [EvClaim ''R1'' (Inr [calm_task ''a'', calm_task ''b'']), EvAdmit 0 (Inr ()), EvTake 0, EvAdmit 0 (Inr ()), EvToken 0 0,
     EvWork 0 CallHandler, EvReturn, EvWork 0 (HandlerDone (Inl (PyExn ''ValueError'' ''x''))), EvWork 0 (NackReply (Inr ())), EvClose]"

lemma two_task_run:
  "\<exists>s. run_dispatcher (\<lambda>_. []) (\<lambda>n rd w. (Inr ''R'', w)) once_cfg 0 two_task_events [calm_reaction] () = (Inr (Some s), [calm_reaction], ()) \<and>
     ds_main s = Closed \<and> map sl_phase (ds_slots s) = [WorkDone, DebounceDone]"
  by (simp add: run_dispatcher_def once_cfg_def two_task_events_def dispatched_reactions_def calm_reaction_def start_dispatcher_def calm_task_def
      claim_step_def admit_step_def submitted_def new_slot_def set_phase_def set_slot_def allow_def new_debouncer_def first_queued_def active_def busy_def
      token_step_def acquire_round_def new_bucket_def work_step_def drained_def Let_def)

theorem dispatcher_answers_all_witness:
  "\<exists>s. run_dispatcher (\<lambda>_. []) (\<lambda>n rd w. (Inr ''R'', w)) once_cfg 0 two_task_events [calm_reaction] () = (Inr (Some s), [calm_reaction], ()) \<and>
     ds_main s = Closed \<and> map sl_task (ds_slots s) = [calm_task ''a'', calm_task ''b''] \<and> (\<forall>sl \<in> set (ds_slots s). task_story (\<lambda>_. []) ''me'' sl)"
proof -
  obtain s where run: "run_dispatcher (\<lambda>_. []) (\<lambda>n rd w. (Inr ''R'', w)) once_cfg 0 two_task_events [calm_reaction] () = (Inr (Some s), [calm_reaction], ())"
    and cl: "ds_main s = Closed" using two_task_run by blast
  note all = dispatcher_answers_all [OF run]
  have "map (\<lambda>sl. (sl_rid sl, sl_task sl)) (ds_slots s) = [(''R1'', calm_task ''a''), (''R1'', calm_task ''b'')]"
    using all by (simp add: two_task_events_def claims_of_def)
  then have "map snd (map (\<lambda>sl. (sl_rid sl, sl_task sl)) (ds_slots s)) = [calm_task ''a'', calm_task ''b'']" by simp
  then have "map sl_task (ds_slots s) = [calm_task ''a'', calm_task ''b'']" by (simp add: comp_def)
  moreover have "\<forall>sl \<in> set (ds_slots s). task_story (\<lambda>_. []) ''me'' sl" using all by (simp add: once_cfg_def)
  ultimately show ?thesis using run cl by (intro exI [of _ s]) simp
qed

text \<open>Two reactions registered under one server id share it: only the later one is dispatched.\<close>

lemma shared_id_keeps_later:
  "rd_handler_kind rd = HANDLER_KIND_TASK \<Longrightarrow> rd_handler_kind rd' = HANDLER_KIND_TASK \<Longrightarrow> rid \<noteq> [] \<Longrightarrow>
   dispatched_reactions [rd\<lparr>rd_server_reaction_id := rid\<rparr>, rd'\<lparr>rd_server_reaction_id := rid\<rparr>] = [(rid, rd'\<lparr>rd_server_reaction_id := rid\<rparr>)]"
  by (simp add: dispatched_reactions_def)

text \<open>The bridge answers every task it claimed as well, in the order of the claims.\<close>

definition answered :: "string \<Rightarrow> PbTask \<Rightarrow> task_act list \<Rightarrow> bool" where
  "answered owner t l \<longleftrightarrow> TaComplete (pt_task_id t) owner \<in> set l \<or> (\<exists>e p. TaNack (pt_task_id t) owner e p \<in> set l)"

definition handles :: "task_act list \<Rightarrow> nat" where
  "handles l = length (filter (\<lambda>a. case a of TaHandle _ \<Rightarrow> True | _ \<Rightarrow> False) l)"

lemma handles_append [simp]: "handles (l @ l') = handles l + handles l'" "handles [] = 0"
  by (simp_all add: handles_def)

lemma answered_append: "answered owner t l \<Longrightarrow> answered owner t (l @ l')" "answered owner t l' \<Longrightarrow> answered owner t (l @ l')"
  by (auto simp: answered_def)

definition watch_publish :: "'w publish \<Rightarrow> ('w \<times> task_act list) publish" where
  "watch_publish pub t k a = logged (TaHandle JNull) (pub t k a)"

lemma bridge_task_answers:
  "\<exists>w' acts. bridge_task (watch_publish pub) (watch_tasks cl) owner t (w, l) = (w', l @ acts) \<and> answered owner t acts \<and> handles acts = 1"
  by (auto simp: bridge_task_def watch_publish_def call_run answered_def handles_def split: sum.splits)

lemma bridge_tasks_answer:
  "\<exists>w' acts. fold (bridge_task (watch_publish pub) (watch_tasks cl) owner) ts (w, l) = (w', l @ acts) \<and>
     (\<forall>t \<in> set ts. answered owner t acts) \<and> handles acts = length ts"
proof (induction ts arbitrary: w l)
  case (Cons t ts)
  obtain w1 a1 where one: "bridge_task (watch_publish pub) (watch_tasks cl) owner t (w, l) = (w1, l @ a1)" "answered owner t a1" "handles a1 = 1"
    using bridge_task_answers by metis
  obtain w2 a2 where rest: "fold (bridge_task (watch_publish pub) (watch_tasks cl) owner) ts (w1, l @ a1) = (w2, (l @ a1) @ a2)"
    "\<forall>t \<in> set ts. answered owner t a2" "handles a2 = length ts" using Cons [of w1 "l @ a1"] by blast
  show ?case using one rest by (intro exI [of _ w2] exI [of _ "a1 @ a2"]) (auto intro: answered_append)
qed simp

end
