(* ===== verification/SdkClient.thy ===== *)
theory SdkClient
  imports SdkPlugin
begin

text \<open>
  The edges of the gRPC SDK: where a client connects and with which credentials
  (\<open>tape/client.py\<close>), the helper functions of the package (\<open>tape/__init__.py\<close>), structured log lines
  (\<open>tape/obs.py\<close>) and the launcher that injects the plugin (\<open>tape/_launcher.py\<close>).

  Channels and credentials are values that say what is opened. The minting of an identity token is a
  parameter that gives the token and the expiry of its payload, where it has one. The calls of the
  helper functions are values handed to one remote procedure.
\<close>

section \<open>Where a client connects\<close>

definition starts :: "string \<Rightarrow> string \<Rightarrow> bool" where
  "starts p s \<longleftrightarrow> take (length p) s = p"

definition grpc_target :: "string \<Rightarrow> string" where
  "grpc_target url =
     (if starts ''tapes://'' url then (let h = drop 8 url in if CHR '':'' \<in> set h then h else h @ '':443'')
      else if starts ''tape://'' url then drop 7 url
      else if starts ''grpc://'' url then drop 7 url
      else url)"

definition is_tls :: "string \<Rightarrow> bool" where
  "is_tls url \<longleftrightarrow> starts ''tapes://'' url \<or> starts ''grpcs://'' url"

definition audience_for :: "string \<Rightarrow> string" where
  "audience_for url = ''https://'' @ hd (split_on (CHR '':'') (grpc_target url))"

datatype call_creds = NoCreds | AccessToken string | GoogleToken string
datatype channel = InsecureChannel string | SecureChannel string call_creds

definition open_channel :: "string \<Rightarrow> bool \<Rightarrow> string \<Rightarrow> string \<Rightarrow> (string \<rightharpoonup> string) \<Rightarrow> channel" where
  "open_channel url auth audience id_token env =
     (if is_tls url then
        SecureChannel (grpc_target url)
          (if id_token \<noteq> [] then AccessToken id_token
           else if auth then
             GoogleToken (if audience \<noteq> [] then audience
               else (case env ''TAPE_AUDIENCE'' of Some a \<Rightarrow> if a \<noteq> [] then a else audience_for url | None \<Rightarrow> audience_for url))
           else NoCreds)
      else InsecureChannel (grpc_target url))"

section \<open>Identity tokens\<close>

text \<open>The expiry \<open>None\<close> is the infinity set after a failure.\<close>

record IdTokenPlugin =
  ip_aud :: string
  ip_token :: string
  ip_exp :: "rat option"
  ip_warned :: bool

definition new_id_plugin :: "string \<Rightarrow> IdTokenPlugin" where
  "new_id_plugin aud = \<lparr>ip_aud = aud, ip_token = [], ip_exp = Some 0, ip_warned = False\<rparr>"

type_synonym 'w mint = "string \<Rightarrow> 'w \<Rightarrow> (py_exn + string \<times> rat option) \<times> 'w"

definition usable :: "rat \<Rightarrow> rat option \<Rightarrow> bool" where
  "usable now e = (case e of None \<Rightarrow> True | Some t \<Rightarrow> now < t - 60)"

definition fetch_token :: "'w mint \<Rightarrow> rat \<Rightarrow> IdTokenPlugin \<Rightarrow> 'w \<Rightarrow> string \<times> IdTokenPlugin \<times> 'w" where
  "fetch_token mint now p w =
     (if ip_token p \<noteq> [] \<and> usable now (ip_exp p) then (ip_token p, p, w)
      else (case mint (ip_aud p) w of
              (Inr (tok, e), w1) \<Rightarrow>
                (tok, p\<lparr>ip_token := tok, ip_exp := Some (case e of Some t \<Rightarrow> t | None \<Rightarrow> now + 1800)\<rparr>, w1)
            | (Inl ex, w1) \<Rightarrow> ([], p\<lparr>ip_token := [], ip_exp := None, ip_warned := True\<rparr>, w1)))"

definition auth_metadata :: "string \<Rightarrow> (string \<times> string) list" where
  "auth_metadata tok = (if tok \<noteq> [] then [(''authorization'', ''Bearer '' @ tok)] else [])"

text \<open>The metadata of successive calls at the given times.\<close>

fun call_run_metadata :: "'w mint \<Rightarrow> rat list \<Rightarrow> IdTokenPlugin \<Rightarrow> 'w \<Rightarrow> (string \<times> string) list list" where
  "call_run_metadata mint [] p w = []"
| "call_run_metadata mint (now # ts) p w =
     (case fetch_token mint now p w of (tok, p', w') \<Rightarrow> auth_metadata tok # call_run_metadata mint ts p' w')"

section \<open>Helper functions\<close>

datatype helper_call =
    SendSignal string string string string string json
  | SetTimerCall json string int string json
  | CancelTimerCall json string
  | EndRunCall string int json
  | ResumeRunCall json string int
  | WriteValueCall string string json int string
  | GetValueCall string string
  | WatchValueCall string string int
  | DeleteValueCall string string

type_synonym 'w helper_rpc = "helper_call \<Rightarrow> 'w \<Rightarrow> (py_exn + json) \<times> 'w"

definition send_signal :: "'w helper_rpc \<Rightarrow> string \<Rightarrow> string \<Rightarrow> string \<Rightarrow> string \<Rightarrow> string \<Rightarrow> json \<Rightarrow> 'w \<Rightarrow> (py_exn + json) \<times> 'w" where
  "send_signal rpc gate_name run_id app_name user_id session_id resolution w =
     rpc (SendSignal run_id app_name user_id session_id gate_name (json_or resolution (JObj []))) w"

definition helper_set_timer :: "'w helper_rpc \<Rightarrow> json \<Rightarrow> int \<Rightarrow> string \<Rightarrow> string \<Rightarrow> json \<Rightarrow> 'w \<Rightarrow> (py_exn + json) \<times> 'w" where
  "helper_set_timer rpc run_id fire_at_ms kind timer_id payload w = rpc (SetTimerCall run_id timer_id fire_at_ms kind (json_or payload (JObj []))) w"

definition helper_cancel_timer :: "'w helper_rpc \<Rightarrow> json \<Rightarrow> string \<Rightarrow> 'w \<Rightarrow> (py_exn + json) \<times> 'w" where
  "helper_cancel_timer rpc run_id timer_id w = rpc (CancelTimerCall run_id timer_id) w"

definition cancel_run :: "'w helper_rpc \<Rightarrow> string \<Rightarrow> string \<Rightarrow> 'w \<Rightarrow> (py_exn + json) \<times> 'w" where
  "cancel_run rpc run_id reason w = rpc (EndRunCall run_id RUN_STATUS_CANCELLED (JObj [(''cancelled'', JBool True), (''reason'', JStr reason)])) w"

definition is_cancelled :: "(json \<Rightarrow> 'w \<Rightarrow> (py_exn + int) \<times> 'w) \<Rightarrow> (string \<rightharpoonup> json) option \<Rightarrow> 'w \<Rightarrow> bool \<times> 'w" where
  "is_cancelled get_run ctx w =
     (let rid = run_id_of ctx in
      if \<not> truthy rid then (False, w)
      else (case get_run rid w of (Inl ex, w') \<Rightarrow> (False, w') | (Inr status, w') \<Rightarrow> (status = RUN_STATUS_CANCELLED, w')))"

definition heartbeat_owner :: "(string \<rightharpoonup> string) \<Rightarrow> string \<Rightarrow> int \<Rightarrow> string" where
  "heartbeat_owner env host pid = (case env ''TAPE_LEASE_OWNER'' of Some o' \<Rightarrow> o' | None \<Rightarrow> host @ '':'' @ int_str pid)"

definition plugin_owner :: "string option \<Rightarrow> string \<Rightarrow> int \<Rightarrow> string" where
  "plugin_owner lease_owner host pid = (case str_or_none lease_owner of Some o' \<Rightarrow> o' | None \<Rightarrow> host @ '':'' @ int_str pid)"

definition heartbeat ::
    "'w helper_rpc \<Rightarrow> (string \<rightharpoonup> string) \<Rightarrow> string \<Rightarrow> int \<Rightarrow> (string \<rightharpoonup> json) option \<Rightarrow> int \<Rightarrow> 'w \<Rightarrow> (py_exn + json) \<times> 'w" where
  "heartbeat rpc env host pid ctx lease_ttl_ms w =
     (let rid = run_id_of ctx in
      if \<not> truthy rid then (Inr JNull, w) else rpc (ResumeRunCall rid (heartbeat_owner env host pid) lease_ttl_ms) w)"

definition set_value :: "'w helper_rpc \<Rightarrow> string \<Rightarrow> string \<Rightarrow> json \<Rightarrow> int \<Rightarrow> string \<Rightarrow> 'w \<Rightarrow> (py_exn + json) \<times> 'w" where
  "set_value rpc namespace key v if_version writer w = rpc (WriteValueCall namespace key v if_version writer) w"

definition helper_get_value :: "'w helper_rpc \<Rightarrow> string \<Rightarrow> string \<Rightarrow> 'w \<Rightarrow> (py_exn + json) \<times> 'w" where
  "helper_get_value rpc namespace key w = rpc (GetValueCall namespace key) w"

definition watch_value :: "'w helper_rpc \<Rightarrow> string \<Rightarrow> string \<Rightarrow> int \<Rightarrow> 'w \<Rightarrow> (py_exn + json) \<times> 'w" where
  "watch_value rpc namespace key from_version w = rpc (WatchValueCall namespace key from_version) w"

definition delete_value :: "'w helper_rpc \<Rightarrow> string \<Rightarrow> string \<Rightarrow> 'w \<Rightarrow> (py_exn + json) \<times> 'w" where
  "delete_value rpc namespace key w = rpc (DeleteValueCall namespace key) w"

definition policy_is :: "(string \<rightharpoonup> json) option \<Rightarrow> string \<Rightarrow> bool" where
  "policy_is ctx version = (case ctx of None \<Rightarrow> False
     | Some state \<Rightarrow> (case state ''policy_version'' of None \<Rightarrow> version = [] | Some v \<Rightarrow> v = JStr version))"

section \<open>Log lines\<close>

definition STRUCTURED_FIELDS :: "string list" where
  "STRUCTURED_FIELDS = [''ts'', ''level'', ''msg'', ''tenant_id'', ''app_name'', ''run_id'', ''invocation_id'', ''session_id'', ''seq'', ''effect_key'',
     ''decision_index'', ''reactor'', ''lease_owner'']"

definition log_record :: "json \<Rightarrow> string \<Rightarrow> json \<Rightarrow> (string \<times> json) list \<Rightarrow> (string \<times> json) list" where
  "log_record msg level ts extra =
     fold (\<lambda>(k, v). AList.update k v) (filter (\<lambda>(k, v). v \<noteq> JNull \<and> v \<noteq> JStr []) extra) [(''ts'', ts), (''level'', JStr level), (''msg'', msg)]"

definition ordered_record :: "(string \<times> json) list \<Rightarrow> (string \<times> json) list" where
  "ordered_record r =
     concat (map (\<lambda>k. case map_of r k of None \<Rightarrow> [] | Some v \<Rightarrow> [(k, v)]) STRUCTURED_FIELDS)
     @ filter (\<lambda>(k, v). k \<notin> set STRUCTURED_FIELDS) r"

definition log_json :: "json \<Rightarrow> string \<Rightarrow> json \<Rightarrow> (string \<times> json) list \<Rightarrow> json" where
  "log_json msg level ts extra = JObj (ordered_record (log_record msg level ts extra))"

section \<open>The launcher\<close>

text \<open>What the launcher runs: a module or a file with its arguments, or nothing.\<close>

datatype launch = Usage | NothingToRun | RunModule string "string list" | RunPath string "string list" | LaunchRaises py_exn

definition index_error :: launch where
  "index_error = LaunchRaises (PyExn ''IndexError'' ''list index out of range'')"

definition is_python :: "string \<Rightarrow> string \<Rightarrow> bool" where
  "is_python executable t \<longleftrightarrow> t = ''python'' \<or> (7 \<le> length t \<and> drop (length t - 7) t = ''/python'') \<or> t = executable"

definition launch_target :: "string \<Rightarrow> string list \<Rightarrow> launch" where
  "launch_target executable argv = (case argv of
     [] \<Rightarrow> Usage
   | t # rest \<Rightarrow>
       if is_python executable t then
         (case rest of
            [] \<Rightarrow> NothingToRun
          | r # rs \<Rightarrow> if r = ''-m'' then (case rs of [] \<Rightarrow> index_error | m # _ \<Rightarrow> RunModule m rs) else RunPath r rest)
       else RunPath t argv)"

text \<open>The program, the URL the plugin is built with and the environment the program sees.\<close>

definition launcher_main :: "string \<Rightarrow> (string \<rightharpoonup> string) \<Rightarrow> string list \<Rightarrow> launch \<times> (string \<times> (string \<rightharpoonup> string)) option" where
  "launcher_main executable env argv =
     (case argv of
        [] \<Rightarrow> (Usage, None)
      | cmd # args \<Rightarrow>
          if cmd \<noteq> ''run'' then (Usage, None)
          else (let url0 = (case env ''TAPE_URL'' of Some u \<Rightarrow> u | None \<Rightarrow> ''tape://localhost:7878'') in
                if args \<noteq> [] \<and> hd args = ''--url'' \<and> tl args = [] then (index_error, None)
                else (let (url, rest) = (if args \<noteq> [] \<and> hd args = ''--url'' then (args ! 1, drop 2 args) else (url0, args));
                          prog = (if rest \<noteq> [] \<and> hd rest = ''--'' then tl rest else rest)
                      in if prog = [] then (Usage, None)
                         else (launch_target executable prog,
                               Some (url, if env ''TAPE_URL'' = None then env(''TAPE_URL'' \<mapsto> url) else env)))))"

text \<open>\<open>patched_init\<close>: the plugins by name and the session service of a runner.\<close>

record runner_args =
  rg_plugins :: "string list"
  rg_session_service :: "string option"

definition patched_init :: "runner_args \<Rightarrow> runner_args" where
  "patched_init a = a\<lparr>rg_plugins := (if ''tape'' \<in> set (rg_plugins a) then rg_plugins a else rg_plugins a @ [''tape'']),
     rg_session_service := (case rg_session_service a of None \<Rightarrow> Some ''tape'' | Some s \<Rightarrow> Some s)\<rparr>"

section \<open>Credentials\<close>

text \<open>No credential is attached to a plaintext channel; a token that was supplied is the one used.\<close>

lemma credentials_need_tls:
  "case open_channel url auth audience id_token env of
     InsecureChannel t \<Rightarrow> \<not> is_tls url \<and> t = grpc_target url
   | SecureChannel t c \<Rightarrow> is_tls url \<and> t = grpc_target url \<and> (id_token \<noteq> [] \<longrightarrow> c = AccessToken id_token) \<and>
       (id_token = [] \<and> \<not> auth \<longrightarrow> c = NoCreds) \<and> (\<forall>a. c = GoogleToken a \<longrightarrow> id_token = [] \<and> auth)"
  by (simp add: open_channel_def)

text \<open>A cached token is one with a known expiry, which is more than a minute away.\<close>

definition plugin_ok :: "IdTokenPlugin \<Rightarrow> bool" where
  "plugin_ok p \<longleftrightarrow> (ip_token p \<noteq> [] \<longrightarrow> ip_exp p \<noteq> None)"

lemma new_plugin_ok: "plugin_ok (new_id_plugin aud)"
  by (simp add: plugin_ok_def new_id_plugin_def)

lemma fetched_token_valid:
  assumes "plugin_ok p" and "fetch_token mint now p w = (tok, p', w')"
  shows "plugin_ok p'" "ip_aud p' = ip_aud p" "ip_token p' = tok"
    "tok \<noteq> [] \<Longrightarrow> (\<exists>e. ip_exp p' = Some e \<and> now < e - 60) \<or> (\<exists>e. mint (ip_aud p) w = (Inr (tok, e), w'))"
  using assms by (auto simp: fetch_token_def plugin_ok_def usable_def split: if_splits sum.splits prod.splits option.splits)

text \<open>A failure is not remembered: the next call mints again, whatever the infinite expiry was set for.\<close>

lemma failed_mint_retried:
  assumes "ip_token p = []" and "mint (ip_aud p) w = (Inl ex, w1)" and "fetch_token mint now p w = (tok, p', w')"
  shows "tok = [] \<and> w' = w1 \<and> fetch_token mint now' p' w' =
     (case mint (ip_aud p) w1 of
        (Inr (tok, e), w2) \<Rightarrow> (tok, p'\<lparr>ip_token := tok, ip_exp := Some (case e of Some t \<Rightarrow> t | None \<Rightarrow> now' + 1800)\<rparr>, w2)
      | (Inl ex, w2) \<Rightarrow> ([], p', w2))"
proof -
  have p': "tok = []" "w' = w1" "p' = p\<lparr>ip_token := [], ip_exp := None, ip_warned := True\<rparr>"
    using assms by (simp_all add: fetch_token_def)
  show ?thesis unfolding p' by (simp add: fetch_token_def split: prod.split sum.split)
qed

text \<open>The scheme \<open>grpcs\<close> opens a TLS channel to a target that still has the scheme in front.\<close>

lemma grpcs_scheme_kept: "open_channel ''grpcs://h:443'' False [] [] env = SecureChannel ''grpcs://h:443'' NoCreds"
  by (simp add: open_channel_def is_tls_def grpc_target_def starts_def)

section \<open>Log lines and the launcher\<close>

lemma log_record_keys: "distinct (map fst (log_record msg level ts extra))"
proof -
  have "distinct (map fst r) \<Longrightarrow> distinct (map fst (fold (\<lambda>(k, v). AList.update k v) kvs r))" for kvs and r :: "(string \<times> json) list"
    by (induction kvs arbitrary: r) (auto simp: distinct_update)
  then show ?thesis by (simp add: log_record_def)
qed

text \<open>Ordering a record loses, adds and repeats no field.\<close>

lemma ordered_same_fields:
  assumes "distinct (map fst r)"
  shows "set (ordered_record r) = set r"
proof
  show "set (ordered_record r) \<subseteq> set r" by (auto simp: ordered_record_def dest: map_of_SomeD [OF sym] split: option.splits)
next
  show "set r \<subseteq> set (ordered_record r)"
  proof
    fix x
    assume x: "x \<in> set r"
    then have "map_of r (fst x) = Some (snd x)" using assms by (simp add: map_of_is_SomeI)
    with x show "x \<in> set (ordered_record r)"
      by (cases "fst x \<in> set STRUCTURED_FIELDS") (force simp: ordered_record_def split: option.splits)+
  qed
qed

lemma patched_init_once:
  "patched_init (patched_init a) = patched_init a" "''tape'' \<in> set (rg_plugins (patched_init a))"
  "length (filter (\<lambda>n. n = ''tape'') (rg_plugins (patched_init a))) = max 1 (length (filter (\<lambda>n. n = ''tape'') (rg_plugins a)))"
  by (auto simp: patched_init_def filter_empty_conv max_def Suc_le_eq split: option.split)

text \<open>
  With \<open>--url\<close> next to a \<open>TAPE_URL\<close> that is set, the plugin journals on one server while everything in
  the program that reads the environment uses the other.
\<close>

lemma launcher_splits_urls:
  "env ''TAPE_URL'' = Some other \<Longrightarrow>
   launcher_main exe env [''run'', ''--url'', url, ''--'', ''python'', ''app.py''] = (RunPath ''app.py'' [''app.py''], Some (url, env)) \<and> env ''TAPE_URL'' = Some other"
  by (simp add: launcher_main_def launch_target_def is_python_def)

text \<open>A run whose plugin was given a lease owner changes hands on its first heartbeat.\<close>

lemma heartbeat_changes_owner:
  assumes "env ''TAPE_LEASE_OWNER'' = None" and "o' \<noteq> []" and "o' \<noteq> host @ '':'' @ int_str pid" and "truthy (run_id_of ctx)"
  shows "\<exists>owner. heartbeat rpc env host pid ctx ttl w = rpc (ResumeRunCall (run_id_of ctx) owner ttl) w \<and> owner \<noteq> plugin_owner (Some o') host pid"
  using assms by (auto simp: heartbeat_def heartbeat_owner_def plugin_owner_def str_or_none_def Let_def)

end
