(* ===== verification/CliConfig.thy ===== *)
theory CliConfig
  imports TapeSchemas
begin

text \<open>
  The project file of the command line (\<open>cli/tape_cli/config.py\<close>): interpolation of environment
  variables, the sections with their defaults, the validator of the store section, loading, and the
  search for the project root.

  A parsed YAML document is a JSON value; a node that is neither text nor list nor dict is passed
  through. The validation of types, literals and unknown keys by pydantic is a parameter that
  receives the interpolated document.
\<close>

section \<open>Interpolation\<close>

definition name_start :: "char \<Rightarrow> bool" where
  "name_start c \<longleftrightarrow> (65::nat) \<le> of_char c \<and> of_char c \<le> (90::nat) \<or> c = CHR ''_''"

definition name_char :: "char \<Rightarrow> bool" where
  "name_char c \<longleftrightarrow> name_start c \<or> is_digit c"

definition default_char :: "char \<Rightarrow> bool" where
  "default_char c \<longleftrightarrow> c \<noteq> CHR ''}'' \<and> c \<noteq> CHR 10"

text \<open>What follows a name: the closing brace, or a default up to the first closing brace of the line.\<close>

fun match_tail :: "string \<Rightarrow> (string \<times> string) option" where
  "match_tail [] = None"
| "match_tail (c # s) =
     (if c = CHR ''}'' then Some ([], s)
      else if c = CHR '':'' \<and> s \<noteq> [] \<and> hd s = CHR ''-'' then
        (case dropWhile default_char (tl s) of
           [] \<Rightarrow> None
         | e # rest \<Rightarrow> if e = CHR ''}'' then Some (takeWhile default_char (tl s), rest) else None)
      else None)"

fun match_ref :: "string \<Rightarrow> (string \<times> string \<times> string) option" where
  "match_ref (a # b # c # t) =
     (if a = CHR ''$'' \<and> b = CHR ''{'' \<and> name_start c
      then map_option (\<lambda>(dflt, rest). (c # takeWhile name_char t, dflt, rest)) (match_tail (dropWhile name_char t))
      else None)"
| "match_ref s = None"

lemma match_tail_shorter: "match_tail s = Some (dflt, rest) \<Longrightarrow> length rest < length s"
proof (cases s)
  case (Cons c t)
  assume m: "match_tail s = Some (dflt, rest)"
  have "length r < length t" if "t \<noteq> []" "dropWhile default_char (tl t) = e # r" for e r
    using length_dropWhile_le [of default_char "tl t"] that by (cases t) auto
  with m Cons show ?thesis by (auto split: if_splits list.splits)
qed simp

lemma match_ref_shorter: "match_ref s = Some (name, dflt, rest) \<Longrightarrow> length rest < length s"
proof (induction s rule: match_ref.induct)
  case (1 a b c t)
  then obtain d where "match_tail (dropWhile name_char t) = Some (d, rest)" by (auto split: if_splits)
  then show ?case using match_tail_shorter length_dropWhile_le [of name_char t] by fastforce
qed simp_all

text \<open>\<open>_ENV_RE.sub\<close>: the leftmost references, none of them overlapping.\<close>

type_synonym environ = "string \<rightharpoonup> string"

definition env_value :: "environ \<Rightarrow> string \<Rightarrow> string \<Rightarrow> string" where
  "env_value env name dflt = (case env name of Some v \<Rightarrow> v | None \<Rightarrow> dflt)"

function interpolate :: "environ \<Rightarrow> string \<Rightarrow> string" where
  "interpolate env s =
     (case match_ref s of
        Some (name, dflt, rest) \<Rightarrow> env_value env name dflt @ interpolate env rest
      | None \<Rightarrow> (case s of [] \<Rightarrow> [] | c # t \<Rightarrow> c # interpolate env t))"
  by pat_completeness auto
termination by (relation "measure (\<lambda>(env, s). length s)") (auto dest: match_ref_shorter)

declare interpolate.simps [simp del]

fun walk_interpolate :: "environ \<Rightarrow> json \<Rightarrow> json"
  and walk_items :: "environ \<Rightarrow> json list \<Rightarrow> json list"
  and walk_fields :: "environ \<Rightarrow> (string \<times> json) list \<Rightarrow> (string \<times> json) list" where
  "walk_interpolate env (JStr s) = JStr (interpolate env s)"
| "walk_interpolate env (JArr xs) = JArr (walk_items env xs)"
| "walk_interpolate env (JObj kvs) = JObj (walk_fields env kvs)"
| "walk_interpolate env v = v"
| "walk_items env [] = []"
| "walk_items env (x # xs) = walk_interpolate env x # walk_items env xs"
| "walk_fields env [] = []"
| "walk_fields env ((k, v) # kvs) = (k, walk_interpolate env v) # walk_fields env kvs"

section \<open>Sections\<close>

record ProjectSection =
  pj_name :: string
  pj_environment :: string
  pj_tier :: string

definition project_section :: "string \<Rightarrow> ProjectSection" where
  "project_section name = \<lparr>pj_name = name, pj_environment = ''dev'', pj_tier = ''server''\<rparr>"

record AgentSection =
  as_framework :: string
  as_app_name :: string
  as_entrypoint :: string
  as_runner_factory :: "string option"
  as_deployment_target :: string

definition agent_section :: "string \<Rightarrow> string \<Rightarrow> AgentSection" where
  "agent_section app_name entrypoint = \<lparr>as_framework = ''adk'', as_app_name = app_name, as_entrypoint = entrypoint,
     as_runner_factory = None, as_deployment_target = ''cloud_run''\<rparr>"

record ServerSection =
  vs_image :: string
  vs_target :: string
  vs_min_instances :: int
  vs_max_instances :: int
  vs_cpu :: string
  vs_memory :: string
  vs_ingress :: string

definition server_section :: ServerSection where
  "server_section = \<lparr>vs_image = ''ghcr.io/vamsiramakrishnan/tape-server:latest'', vs_target = ''cloud_run'', vs_min_instances = 0,
     vs_max_instances = 10, vs_cpu = ''1'', vs_memory = ''512Mi'', vs_ingress = ''internal''\<rparr>"

record StoreSection =
  st_kind :: string
  st_url_secret :: "string option"
  st_url :: "string option"

definition store_section :: StoreSection where
  "store_section = \<lparr>st_kind = ''sqlite'', st_url_secret = None, st_url = None\<rparr>"

definition at_least_one :: "StoreSection \<Rightarrow> py_exn + StoreSection" where
  "at_least_one s =
     (if st_kind s = ''sqlite'' then Inr s
      else if str_or_none (st_url s) = None \<and> str_or_none (st_url_secret s) = None
      then Inl (PyExn ''ValueError'' (''store.kind='' @ st_kind s @ '' requires either store.url or store.url_secret.''))
      else Inr s)"

record EventsSection =
  evs_kind :: string
  evs_topic :: string
  evs_outbox_topic :: "string option"
  evs_dlq_topic :: "string option"

definition events_section :: EventsSection where
  "events_section = \<lparr>evs_kind = ''none'', evs_topic = ''tape-events'', evs_outbox_topic = None, evs_dlq_topic = None\<rparr>"

record ReactorSpec =
  rs_enabled :: bool
  rs_min_instances :: int
  rs_max_instances :: int

definition reactor_spec :: ReactorSpec where
  "reactor_spec = \<lparr>rs_enabled = True, rs_min_instances = 1, rs_max_instances = 3\<rparr>"

record ReactorsSection =
  rx_recovery :: ReactorSpec
  rx_reconciler :: ReactorSpec
  rx_outbox :: ReactorSpec
  rx_timers :: ReactorSpec
  rx_compensation :: ReactorSpec

definition reactors_section :: ReactorsSection where
  "reactors_section = \<lparr>rx_recovery = reactor_spec, rx_reconciler = reactor_spec, rx_outbox = reactor_spec,
     rx_timers = reactor_spec, rx_compensation = reactor_spec\<rparr>"

definition REACTOR_NAMES :: "string list" where
  "REACTOR_NAMES = [''recovery'', ''reconciler'', ''outbox'', ''timers'', ''compensation'']"

text \<open>\<open>getattr(self, name)\<close> for the five names.\<close>

definition reactor_of :: "ReactorsSection \<Rightarrow> string \<Rightarrow> ReactorSpec" where
  "reactor_of r name =
     (if name = ''recovery'' then rx_recovery r else if name = ''reconciler'' then rx_reconciler r
      else if name = ''outbox'' then rx_outbox r else if name = ''timers'' then rx_timers r else rx_compensation r)"

definition enabled_names :: "ReactorsSection \<Rightarrow> string list" where
  "enabled_names r = filter (\<lambda>name. rs_enabled (reactor_of r name)) REACTOR_NAMES"

record TapeSection =
  ts_url :: string
  ts_server :: ServerSection
  ts_store :: StoreSection
  ts_events :: EventsSection
  ts_reactors :: ReactorsSection

definition tape_section :: TapeSection where
  "tape_section = \<lparr>ts_url = ''tape://localhost:7878'', ts_server = server_section, ts_store = store_section,
     ts_events = events_section, ts_reactors = reactors_section\<rparr>"

record EmbeddedSection =
  eb_db_url :: string
  eb_connectors :: "string option"
  eb_reactor_interval_ms :: int

definition embedded_section :: EmbeddedSection where
  "embedded_section = \<lparr>eb_db_url = ''sqlite+aiosqlite:///./.tape/dev.db'', eb_connectors = None, eb_reactor_interval_ms = 1000\<rparr>"

record NetworkSection =
  nw_vpc_connector :: "string option"
  nw_private_ip :: bool

record GcpSection =
  gc_project_id :: string
  gc_region :: string
  gc_artifact_registry_repository :: string
  gc_service_account_prefix :: string
  gc_network :: NetworkSection

definition gcp_section :: GcpSection where
  "gcp_section = \<lparr>gc_project_id = [], gc_region = ''us-central1'', gc_artifact_registry_repository = ''tape'',
     gc_service_account_prefix = ''tape'', gc_network = \<lparr>nw_vpc_connector = None, nw_private_ip = True\<rparr>\<rparr>"

record TenancySection =
  ty_mode :: string
  ty_tenant_id :: string

record TapeProject =
  tp_project :: ProjectSection
  tp_agent :: AgentSection
  tp_tape :: TapeSection
  tp_embedded :: "EmbeddedSection option"
  tp_gcp :: GcpSection
  tp_tenancy :: TenancySection

definition tape_project :: "ProjectSection \<Rightarrow> AgentSection \<Rightarrow> TapeProject" where
  "tape_project project agent = \<lparr>tp_project = project, tp_agent = agent, tp_tape = tape_section, tp_embedded = None,
     tp_gcp = gcp_section, tp_tenancy = \<lparr>ty_mode = ''single'', ty_tenant_id = ''default''\<rparr>\<rparr>"

text \<open>\<open>TapeProject.load\<close>: the text of the file, if there is one, and the library calls as parameters.\<close>

definition load_project ::
    "(string \<Rightarrow> py_exn + json) \<Rightarrow> (json \<Rightarrow> py_exn + TapeProject) \<Rightarrow> environ \<Rightarrow> string \<Rightarrow> string option \<Rightarrow> py_exn + TapeProject" where
  "load_project safe_load model_validate env path content =
     (case content of
        None \<Rightarrow> Inl (PyExn ''FileNotFoundError'' (''no tape.yaml at '' @ path @ ''; run `tape init <name>` first.''))
      | Some text \<Rightarrow>
          (case safe_load text of
             Inl ex \<Rightarrow> Inl ex
           | Inr raw \<Rightarrow> model_validate (walk_interpolate env (json_or raw (JObj [])))))"

text \<open>The directories are the start and its parents, innermost first.\<close>

fun find_project_root :: "(string \<Rightarrow> bool) \<Rightarrow> string list \<Rightarrow> py_exn + string" where
  "find_project_root has_yaml [] = Inl (PyExn ''FileNotFoundError'' ''no tape.yaml found in any parent directory.'')"
| "find_project_root has_yaml (p # ps) = (if has_yaml p then Inr p else find_project_root has_yaml ps)"

section \<open>What a text means\<close>

text \<open>
  A reference has a name of capital letters, digits and underscores that does not begin with a digit,
  and perhaps a default without a closing brace and within the line.
\<close>

datatype segment = Lit char | Ref string "string option"

definition NAME_START :: string where
  "NAME_START = ''ABCDEFGHIJKLMNOPQRSTUVWXYZ_''"

definition ref_ok :: "string \<Rightarrow> string option \<Rightarrow> bool" where
  "ref_ok name dflt \<longleftrightarrow> name \<noteq> [] \<and> hd name \<in> set NAME_START \<and> set (tl name) \<subseteq> set (NAME_START @ ''0123456789'') \<and>
     (case dflt of None \<Rightarrow> True | Some d \<Rightarrow> set d \<inter> {CHR ''}'', CHR 10} = {})"

fun seg_text :: "segment \<Rightarrow> string" where
  "seg_text (Lit c) = [c]"
| "seg_text (Ref name None) = ''${'' @ name @ ''}''"
| "seg_text (Ref name (Some d)) = ''${'' @ name @ '':-'' @ d @ ''}''"

fun seg_value :: "environ \<Rightarrow> segment \<Rightarrow> string" where
  "seg_value env (Lit c) = [c]"
| "seg_value env (Ref name dflt) = (case env name of Some v \<Rightarrow> v | None \<Rightarrow> (case dflt of None \<Rightarrow> [] | Some d \<Rightarrow> d))"

text \<open>
  A text read from the left: where it begins with a reference that is taken, and where it does not its
  first character stands for itself, a dollar sign too.
\<close>

inductive reads :: "string \<Rightarrow> segment list \<Rightarrow> bool" where
  reads_end: "reads [] []"
| reads_ref: "ref_ok name dflt \<Longrightarrow> reads t gs \<Longrightarrow> reads (seg_text (Ref name dflt) @ t) (Ref name dflt # gs)"
| reads_char: "(\<And>name dflt u. ref_ok name dflt \<Longrightarrow> c # t \<noteq> seg_text (Ref name dflt) @ u) \<Longrightarrow> reads t gs \<Longrightarrow> reads (c # t) (Lit c # gs)"

text \<open>
  A document with the meaning of its texts: the same lists and dicts, keys and order, and every value that is
  not text, a list or a dict as it was.
\<close>

inductive interpolated :: "environ \<Rightarrow> json \<Rightarrow> json \<Rightarrow> bool" for env where
  on_text: "reads s gs \<Longrightarrow> interpolated env (JStr s) (JStr (concat (map (seg_value env) gs)))"
| on_list: "list_all2 (interpolated env) xs ys \<Longrightarrow> interpolated env (JArr xs) (JArr ys)"
| on_dict: "list_all2 (\<lambda>x y. fst x = fst y \<and> interpolated env (snd x) (snd y)) kvs lvs \<Longrightarrow> interpolated env (JObj kvs) (JObj lvs)"
| on_other: "(\<And>s. v \<noteq> JStr s) \<Longrightarrow> (\<And>xs. v \<noteq> JArr xs) \<Longrightarrow> (\<And>kvs. v \<noteq> JObj kvs) \<Longrightarrow> interpolated env v v"

inductive_cases interpolated_cases:
  "interpolated env (JStr s) v" "interpolated env (JArr xs) v" "interpolated env (JObj kvs) v"

lemma mem_codes: "c \<in> set cs \<longleftrightarrow> (of_char c :: nat) \<in> set (map of_char cs)"
  using inj_image_mem_iff [OF inj_of_char [where 'a = nat], of c "set cs"] by simp

lemma name_start_iff: "name_start c \<longleftrightarrow> c \<in> set NAME_START"
proof -
  have "n \<in> set (map of_char NAME_START) \<longleftrightarrow> 65 \<le> n \<and> n \<le> 90 \<or> n = 95" for n :: nat
    by (simp add: NAME_START_def) presburger
  moreover have "c = CHR ''_'' \<longleftrightarrow> (of_char c :: nat) = 95" using mem_codes [of c "''_''"] by simp
  ultimately show ?thesis unfolding mem_codes [of c NAME_START] by (simp add: name_start_def)
qed

lemma name_char_iff: "name_char c \<longleftrightarrow> c \<in> set (NAME_START @ ''0123456789'')"
proof -
  have "n \<in> set (map of_char ''0123456789'') \<longleftrightarrow> 48 \<le> n \<and> n \<le> 57" for n :: nat
    by simp presburger
  then have "is_digit c \<longleftrightarrow> c \<in> set ''0123456789''" unfolding mem_codes [of c "''0123456789''"] by (simp add: is_digit_def)
  then show ?thesis by (auto simp: name_char_def name_start_iff)
qed

lemma seg_text_nonempty [simp]: "seg_text g \<noteq> []"
  by (cases g rule: seg_text.cases) simp_all

lemma list_all2_determined:
  "list_all2 Q xs ys \<Longrightarrow> list_all2 R xs zs \<Longrightarrow> (\<And>x y z. Q x y \<Longrightarrow> R x z \<Longrightarrow> z = y) \<Longrightarrow> zs = ys"
  by (induction xs arbitrary: ys zs) (auto simp: list_all2_Cons1)

lemma ref_ok_iff:
  "ref_ok name dflt \<longleftrightarrow> name \<noteq> [] \<and> name_start (hd name) \<and> list_all name_char (tl name) \<and>
     (case dflt of None \<Rightarrow> True | Some d \<Rightarrow> list_all default_char d)"
proof -
  have name: "set (tl name) \<subseteq> set (NAME_START @ ''0123456789'') \<longleftrightarrow> list_all name_char (tl name)"
    unfolding name_char_iff list_all_iff by blast
  have "set d \<inter> {CHR ''}'', CHR 10} = {} \<longleftrightarrow> list_all default_char d" for d by (auto simp: list_all_iff default_char_def)
  then show ?thesis unfolding ref_ok_def name name_start_iff by (cases dflt) simp_all
qed

lemma special_chars: "\<not> name_char (CHR ''}'')" "\<not> name_char (CHR '':'')" "\<not> default_char (CHR ''}'')"
  by (simp_all add: name_char_def name_start_def is_digit_def default_char_def)

lemma match_ref_template:
  assumes "ref_ok name dflt"
  shows "match_ref (seg_text (Ref name dflt) @ t) = Some (name, case dflt of None \<Rightarrow> [] | Some d \<Rightarrow> d, t)"
proof -
  obtain c n where name: "name = c # n" using assms by (cases name) (auto simp: ref_ok_iff)
  have n: "takeWhile name_char (n @ e # u) = n \<and> dropWhile name_char (n @ e # u) = e # u" if "\<not> name_char e" for e u
    using assms that by (simp add: ref_ok_iff name takeWhile_tail dropWhile_append list_all_iff)
  show ?thesis
  proof (cases dflt)
    case None
    with assms n [OF special_chars(1)] show ?thesis by (simp add: name ref_ok_iff)
  next
    case (Some d)
    have "takeWhile default_char (d @ CHR ''}'' # t) = d \<and> dropWhile default_char (d @ CHR ''}'' # t) = CHR ''}'' # t"
      using assms Some special_chars(3) by (simp add: ref_ok_iff takeWhile_tail dropWhile_append list_all_iff)
    with assms n [OF special_chars(2)] show ?thesis by (simp add: name Some ref_ok_iff)
  qed
qed

lemma match_tail_text:
  "match_tail s = Some (d, rest) \<Longrightarrow> s = CHR ''}'' # rest \<and> d = [] \<or> s = '':-'' @ d @ ''}'' @ rest \<and> list_all default_char d"
proof (cases s)
  case (Cons c t)
  assume m: "match_tail s = Some (d, rest)"
  show ?thesis
  proof (cases "c = CHR ''}''")
    case False
    with m Cons obtain u where u: "c = CHR '':''" "t = CHR ''-'' # u" by (cases t) (auto split: if_splits)
    with m Cons False have u2: "dropWhile default_char u = CHR ''}'' # rest" "d = takeWhile default_char u" by (auto split: list.splits if_splits)
    have "u = d @ CHR ''}'' # rest" using takeWhile_dropWhile_id [of default_char u] u2 by simp
    moreover have "list_all default_char d" using u2(2) by (auto simp: list_all_iff dest: set_takeWhileD)
    ultimately show ?thesis using Cons u by simp
  qed (use m Cons in simp)
qed simp

lemma match_ref_text:
  assumes "match_ref s = Some (name, d, rest)"
  shows "\<exists>dflt. ref_ok name dflt \<and> s = seg_text (Ref name dflt) @ rest \<and> d = (case dflt of None \<Rightarrow> [] | Some d \<Rightarrow> d)"
proof -
  obtain c t where s: "s = ''${'' @ c # t" "name_start c" "name = c # takeWhile name_char t" "match_tail (dropWhile name_char t) = Some (d, rest)"
    using assms by (cases s rule: match_ref.cases) (auto split: if_splits)
  have t: "s = ''${'' @ name @ dropWhile name_char t" using s(1,3) by simp
  have n: "name \<noteq> [] \<and> name_start (hd name) \<and> list_all name_char (tl name)" using s(2,3) by (auto simp: list_all_iff dest: set_takeWhileD)
  from match_tail_text [OF s(4)] show ?thesis
  proof
    assume "dropWhile name_char t = CHR ''}'' # rest \<and> d = []"
    with t n show ?thesis by (intro exI [of _ None]) (simp add: ref_ok_iff)
  next
    assume "dropWhile name_char t = '':-'' @ d @ ''}'' @ rest \<and> list_all default_char d"
    with t n show ?thesis by (intro exI [of _ "Some d"]) (simp add: ref_ok_iff)
  qed
qed

lemma match_ref_None: "match_ref s = None \<longleftrightarrow> (\<forall>name dflt u. ref_ok name dflt \<longrightarrow> s \<noteq> seg_text (Ref name dflt) @ u)"
  using match_ref_template match_ref_text by (cases "match_ref s") fastforce+

lemma interpolate_step:
  "match_ref s = Some (name, d, rest) \<Longrightarrow> interpolate env s = env_value env name d @ interpolate env rest"
  "match_ref (c # t) = None \<Longrightarrow> interpolate env (c # t) = c # interpolate env t"
  "interpolate env [] = []"
  by (simp_all add: interpolate.simps [of env s] interpolate.simps [of env "c # t"] interpolate.simps [of env "[]"])

lemma reads_interpolate: "reads s gs \<Longrightarrow> concat (map (seg_value env) gs) = interpolate env s"
proof (induction rule: reads.induct)
  case (reads_ref name dflt t gs)
  then show ?case by (simp add: interpolate_step(1) [OF match_ref_template [OF reads_ref.hyps(1)]] env_value_def split: option.split)
next
  case (reads_char c t gs)
  then have "match_ref (c # t) = None" by (simp add: match_ref_None)
  with reads_char.IH show ?case by (simp add: interpolate_step)
qed (simp add: interpolate_step)

lemma reads_total: "\<exists>gs. reads s gs"
proof (induction "length s" arbitrary: s rule: less_induct)
  case less
  show ?case
  proof (cases "match_ref s")
    case None
    show ?thesis
    proof (cases s)
      case (Cons c t)
      then obtain gs where "reads t gs" using less [of t] by auto
      moreover have "c # t \<noteq> seg_text (Ref name dflt) @ u" if "ref_ok name dflt" for name dflt u using None that Cons by (simp add: match_ref_None)
      ultimately show ?thesis using Cons by (blast intro: reads_char)
    qed (auto intro: reads_end)
  next
    case (Some ndr)
    then obtain name d rest where m: "match_ref s = Some (name, d, rest)" by (cases ndr) auto
    obtain dflt where r: "ref_ok name dflt" "s = seg_text (Ref name dflt) @ rest" using match_ref_text [OF m] by blast
    obtain gs where "reads rest gs" using less match_ref_shorter [OF m] by blast
    with r show ?thesis by (blast intro: reads_ref)
  qed
qed

lemma reads_unique: "reads s gs \<Longrightarrow> reads s hs \<Longrightarrow> hs = gs"
proof (induction arbitrary: hs rule: reads.induct)
  case reads_end
  then show ?case by (cases rule: reads.cases) auto
next
  case (reads_ref name dflt t gs)
  note m = match_ref_template [OF reads_ref.hyps(1), of t]
  from reads_ref.prems show ?case
  proof (cases rule: reads.cases)
    case reads_end
    then show ?thesis using m by simp
  next
    case (reads_ref name' dflt' t' gs')
    have "Some (name', case dflt' of None \<Rightarrow> [] | Some d \<Rightarrow> d, t') = Some (name, case dflt of None \<Rightarrow> [] | Some d \<Rightarrow> d, t)"
      by (rule trans [OF match_ref_template [OF reads_ref(3), of t', symmetric] m [unfolded reads_ref(1)]])
    then have eq: "name' = name" "t' = t" and d: "(case dflt' of None \<Rightarrow> [] | Some d \<Rightarrow> d) = (case dflt of None \<Rightarrow> [] | Some d \<Rightarrow> d)"
      by (simp_all only: option.inject prod.inject)
    have "length (seg_text (Ref name dflt)) = length (seg_text (Ref name dflt'))" using reads_ref(1) eq by simp
    with d have "dflt' = dflt" by (cases dflt; cases dflt') auto
    with eq reads_ref show ?thesis using \<open>\<And>hs. reads t hs \<Longrightarrow> hs = gs\<close> by simp
  next
    case (reads_char c t' gs')
    then show ?thesis using \<open>ref_ok name dflt\<close> by metis
  qed
next
  case (reads_char c t gs)
  from reads_char.prems show ?case
  proof (cases rule: reads.cases)
    case (reads_ref name' dflt' t' gs')
    then show ?thesis using reads_char.hyps(1) by metis
  qed (use reads_char.IH in auto)
qed

lemma interpolated_walk:
  "interpolated env v (walk_interpolate env v)"
  "list_all2 (interpolated env) xs (walk_items env xs)"
  "list_all2 (\<lambda>x y. fst x = fst y \<and> interpolated env (snd x) (snd y)) kvs (walk_fields env kvs)"
proof (induction env v and env xs and env kvs rule: walk_interpolate_walk_items_walk_fields.induct)
  case (1 env s)
  obtain gs where "reads s gs" using reads_total by blast
  from on_text [OF this, of env] reads_interpolate [OF this, of env] show ?case by simp
qed (auto intro: interpolated.intros)

lemma interpolated_unique: "interpolated env v u \<Longrightarrow> interpolated env v u' \<Longrightarrow> u' = u"
proof (induction arbitrary: u' rule: interpolated.induct)
  case (on_text s gs)
  then show ?case using reads_unique by (blast elim: interpolated_cases)
next
  case (on_list xs ys)
  from on_list.prems obtain zs where u: "u' = JArr zs" "list_all2 (interpolated env) xs zs" by (elim interpolated_cases) auto
  have "zs = ys" by (rule list_all2_determined [OF on_list.IH u(2)]) blast
  with u show ?case by simp
next
  case (on_dict kvs lvs)
  from on_dict.prems obtain zs where u: "u' = JObj zs" "list_all2 (\<lambda>x y. fst x = fst y \<and> interpolated env (snd x) (snd y)) kvs zs"
    by (elim interpolated_cases) auto
  have "zs = lvs" by (rule list_all2_determined [OF on_dict.IH u(2)]) (auto simp: prod_eq_iff)
  with u show ?case by simp
next
  case (on_other v)
  from on_other.prems on_other.hyps show ?case by (cases rule: interpolated.cases) auto
qed

section \<open>Properties\<close>

text \<open>
  C37. Interpolation gives every text and every document its meaning. Any text at all is read
  in exactly one way as references and characters; interpolating it replaces each reference by the
  value of its variable, or by its default (nothing without one) when the variable is unset,
  and keeps every other character, a dollar sign that begins no reference too; values are not
  interpolated again. The document of a project file becomes the same lists, dicts and keys with
  every text interpolated and every other value unchanged, and nothing else.
\<close>

theorem interpolation_exact:
  "(\<exists>!gs. reads s gs) \<and> (\<forall>gs. reads s gs \<longrightarrow> interpolate env s = concat (map (seg_value env) gs)) \<and>
   (interpolated env v v' \<longleftrightarrow> v' = walk_interpolate env v)"
  using reads_total reads_unique reads_interpolate interpolated_walk(1) interpolated_unique by metis

theorem interpolation_exact_witness:
  "reads ''$${P}'' [Lit (CHR ''$''), Ref ''P'' None] \<and> interpolate (Map.empty(''P'' \<mapsto> ''a${B}'')) ''$${P}'' = ''$a${B}''"
proof -
  let ?gs = "[Lit (CHR ''$''), Ref ''P'' None]"
  have "match_ref ''$${P}'' = None" by code_simp
  moreover have "reads (seg_text (Ref ''P'' None) @ []) [Ref ''P'' None]"
    by (rule reads_ref [OF _ reads_end]) code_simp
  ultimately have r: "reads ''$${P}'' ?gs" unfolding match_ref_None by (intro reads_char) auto
  with interpolation_exact [of "''$${P}''" "Map.empty(''P'' \<mapsto> ''a${B}'')"] show ?thesis by simp
qed

text \<open>Only text changes: the shape of the document, its keys and its other values stay.\<close>

lemma walk_shape:
  "walk_items env xs = map (walk_interpolate env) xs"
  "walk_fields env kvs = map (\<lambda>(k, v). (k, walk_interpolate env v)) kvs"
  by (induction xs, simp_all) (induction kvs, auto)

lemma root_is_innermost:
  "find_project_root has_yaml ps = Inr p \<Longrightarrow> \<exists>before after. ps = before @ p # after \<and> has_yaml p \<and> (\<forall>q \<in> set before. \<not> has_yaml q)"
proof (induction ps)
  case (Cons q ps)
  show ?case
  proof (cases "has_yaml q")
    case True
    with Cons.prems have "q # ps = [] @ p # ps" "has_yaml p" by simp_all
    then show ?thesis by fastforce
  next
    case False
    with Cons obtain before after where "ps = before @ p # after" "has_yaml p" "\<forall>q \<in> set before. \<not> has_yaml q" by auto
    then have "q # ps = (q # before) @ p # after" "\<forall>r \<in> set (q # before). \<not> has_yaml r" using False by simp_all
    with \<open>has_yaml p\<close> show ?thesis by blast
  qed
qed simp

text \<open>
  A variable that is set but empty does not fall back to its default, although the notation is the
  shell's \<open>:-\<close>.
\<close>

lemma empty_variable_not_defaulted: "interpolate (Map.empty(''A'' \<mapsto> [])) ''${A:-x}'' = []"
proof -
  have "match_ref ''${A:-x}'' = Some (''A'', ''x'', [])" by code_simp
  then show ?thesis by (simp add: interpolate_step env_value_def)
qed

end
