(* ===== verification/CliTerraform.thy ===== *)
theory CliTerraform
  imports CliConfig SdkIdentity
begin

text \<open>
  Infrastructure from the project file (\<open>cli/tape_cli/iac.py\<close>, \<open>commands/provision.py\<close>,
  \<open>commands/destroy.py\<close>): the Terraform root module, its variables and their values as the program
  renders them, the files written, and the calls of the Terraform tool with their exit codes.

  The rendered files are their text, line by line; the prose of the generated README is left out.
  Paths are text, and the tools on the path and the processes they start are an environment.
\<close>

section \<open>The root module\<close>

definition STORE_MODULES :: "(string \<times> string) list" where
  "STORE_MODULES = [(''alloydb'', ''alloydb''), (''postgres'', ''postgres-cloudsql''), (''spanner'', ''spanner''), (''bigtable'', ''bigtable'')]"

text \<open>\<open>json.dumps\<close> of a list of reactor names.\<close>

fun comma_list :: "string list \<Rightarrow> string" where
  "comma_list [] = []"
| "comma_list [x] = [CHR 34] @ x @ [CHR 34]"
| "comma_list (x # xs) = [CHR 34] @ x @ [CHR 34] @ '', '' @ comma_list xs"

definition dumps_names :: "string list \<Rightarrow> string" where
  "dumps_names names = ''['' @ comma_list names @ '']''"

definition main_tf_head :: "string list" where
  "main_tf_head = [
     ''provider \"google\" {'',
     ''  project = var.project_id'',
     ''  region  = var.region'',
     ''}'',
     ''provider \"google-beta\" {'',
     ''  project = var.project_id'',
     ''  region  = var.region'',
     ''}'',
     [],
     ''module \"artifact_registry\" {'',
     ''  source     = \"./modules/artifact-registry\"'',
     ''  project_id = var.project_id'',
     ''  region     = var.region'',
     ''  repository = var.artifact_registry_repository'',
     ''}'',
     [],
     ''module \"iam\" {'',
     ''  source                  = \"./modules/iam\"'',
     ''  project_id              = var.project_id'',
     ''  service_account_prefix  = var.service_account_prefix'',
     ''}'',
     [],
     ''module \"secrets\" {'',
     ''  source     = \"./modules/secret-manager\"'',
     ''  project_id = var.project_id'',
     ''  region     = var.region'',
     ''  secrets    = var.secrets'',
     ''}'',
     []]"

definition store_lines :: "string \<Rightarrow> string list" where
  "store_lines store_module = [
     ''module \"store\" {'',
     ''  source     = \"./modules/'' @ store_module @ [CHR 34],
     ''  project_id = var.project_id'',
     ''  region     = var.region'',
     ''  instance_name = var.store_instance_name'',
     ''  database_name = var.store_database_name'',
     ''}'',
     []]"

definition events_lines :: "string list" where
  "events_lines = [
     ''module \"events\" {'',
     ''  source        = \"./modules/pubsub\"'',
     ''  project_id    = var.project_id'',
     ''  topic         = var.events_topic'',
     ''  outbox_topic  = var.events_outbox_topic'',
     ''  dlq_topic     = var.events_dlq_topic'',
     ''}'',
     []]"

definition cloud_run_modules :: "string list" where
  "cloud_run_modules = [
     ''module \"tape_server\" {'',
     ''  source                 = \"./modules/tape-cloud-run\"'',
     ''  project_id             = var.project_id'',
     ''  region                 = var.region'',
     ''  image                  = var.tape_server_image'',
     ''  service_account_email  = module.iam.tape_server_sa_email'',
     ''  store_url_secret       = var.store_url_secret'',
     ''  min_instances          = var.tape_server_min_instances'',
     ''  max_instances          = var.tape_server_max_instances'',
     ''  cpu                    = var.tape_server_cpu'',
     ''  memory                 = var.tape_server_memory'',
     ''  ingress                = var.tape_server_ingress'',
     ''  vpc_connector          = var.vpc_connector'',
     ''}'',
     [],
     ''module \"tape_reactors\" {'',
     ''  source                 = \"./modules/tape-reactors-cloud-run\"'',
     ''  project_id             = var.project_id'',
     ''  region                 = var.region'',
     ''  tape_server_url        = module.tape_server.url'',
     ''  service_account_email  = module.iam.tape_reactor_sa_email'',
     ''  image                  = var.tape_reactor_image'',
     ''  runner_factory         = var.tape_reactor_runner_factory'']"

definition reactors_line :: "string list \<Rightarrow> string" where
  "reactors_line names = ''  reactors               = '' @ dumps_names names"

definition cloud_run_lines :: "string list \<Rightarrow> string list" where
  "cloud_run_lines names = cloud_run_modules @ [reactors_line names, ''}'', []]"

definition gke_lines :: "string list" where
  "gke_lines = [
     ''module \"tape_gke\" {'',
     ''  source     = \"./modules/tape-gke\"'',
     ''  project_id = var.project_id'',
     ''  region     = var.region'',
     ''  cluster    = var.gke_cluster'',
     ''}'',
     []]"

definition main_tf_tail :: "string list" where
  "main_tf_tail = [
     ''module \"observability\" {'',
     ''  source     = \"./modules/observability\"'',
     ''  project_id = var.project_id'',
     ''  region     = var.region'',
     ''  service_name = \"tape-server\"'',
     ''}'',
     [],
     ''output \"tape_server_url\" {'',
     ''  value       = try(module.tape_server.url, \"\")'',
     ''  description = \"The Cloud Run URL of the Tape server (empty for non-Cloud Run targets).\"'',
     ''}'']"

definition main_tf_lines :: "TapeProject \<Rightarrow> string list" where
  "main_tf_lines p =
     main_tf_head
     @ (case map_of STORE_MODULES (st_kind (ts_store (tp_tape p))) of Some m \<Rightarrow> store_lines m | None \<Rightarrow> [])
     @ (if evs_kind (ts_events (tp_tape p)) = ''pubsub'' then events_lines else [])
     @ (if vs_target (ts_server (tp_tape p)) = ''cloud_run'' then cloud_run_lines (enabled_names (ts_reactors (tp_tape p)))
        else if vs_target (ts_server (tp_tape p)) = ''gke'' then gke_lines else [])
     @ main_tf_tail"

definition join_lines :: "string list \<Rightarrow> string" where
  "join_lines ls = concat (map (\<lambda>l. l @ [CHR 10]) ls)"

definition render_main_tf :: "TapeProject \<Rightarrow> string" where
  "render_main_tf p = join_lines (main_tf_lines p)"

section \<open>Variables and their values\<close>

definition VARIABLES :: "(string \<times> string \<times> string option) list" where
  "VARIABLES = [
     (''project_id'', ''string'', None),
     (''region'', ''string'', Some ''\"us-central1\"''),
     (''artifact_registry_repository'', ''string'', Some ''\"tape\"''),
     (''service_account_prefix'', ''string'', Some ''\"tape\"''),
     (''secrets'', ''map(string)'', Some ''{}''),
     (''store_instance_name'', ''string'', Some ''\"tape\"''),
     (''store_database_name'', ''string'', Some ''\"tape\"''),
     (''store_url_secret'', ''string'', Some ''\"TAPE_STORE_URL\"''),
     (''events_topic'', ''string'', Some ''\"tape-events\"''),
     (''events_outbox_topic'', ''string'', Some ''\"tape-outbox\"''),
     (''events_dlq_topic'', ''string'', Some ''\"tape-dlq\"''),
     (''tape_server_image'', ''string'', None),
     (''tape_reactor_image'', ''string'', None),
     (''tape_reactor_runner_factory'', ''string'', Some ''\"app.agent:build_runner\"''),
     (''tape_server_min_instances'', ''number'', Some ''0''),
     (''tape_server_max_instances'', ''number'', Some ''10''),
     (''tape_server_cpu'', ''string'', Some ''\"1\"''),
     (''tape_server_memory'', ''string'', Some ''\"512Mi\"''),
     (''tape_server_ingress'', ''string'', Some ''\"internal\"''),
     (''vpc_connector'', ''string'', Some ''\"\"''),
     (''gke_cluster'', ''string'', Some ''\"\"'')]"

definition variable_lines :: "string \<times> string \<times> string option \<Rightarrow> string list" where
  "variable_lines v = (case v of (name, typ, dflt) \<Rightarrow>
     [''variable '' @ [CHR 34] @ name @ [CHR 34] @ '' {'', ''  type    = '' @ typ]
     @ (case dflt of None \<Rightarrow> [] | Some d \<Rightarrow> [''  default = '' @ d]) @ [''}''])"

definition render_variables_tf :: string where
  "render_variables_tf = join_lines (concat (map variable_lines VARIABLES))"

text \<open>Python's \<open>or\<close> on optional text, and on text.\<close>

definition opt_or :: "string option \<Rightarrow> string \<Rightarrow> string" where
  "opt_or s d = (case str_or_none s of None \<Rightarrow> d | Some x \<Rightarrow> x)"

definition text_or :: "string \<Rightarrow> string \<Rightarrow> string" where
  "text_or s d = (if s = [] then d else s)"

definition registry_image :: "GcpSection \<Rightarrow> string \<Rightarrow> string \<Rightarrow> string \<Rightarrow> string" where
  "registry_image g project_id img tag = gc_region g @ ''-docker.pkg.dev/'' @ project_id @ ''/'' @ gc_artifact_registry_repository g @ ''/'' @ img @ '':'' @ tag"

definition render_tfvars :: "TapeProject \<Rightarrow> (string \<times> json) list" where
  "render_tfvars p =
     (let g = tp_gcp p; sv = ts_server (tp_tape p); ev = ts_events (tp_tape p); name = pj_name (tp_project p) in
      [(''project_id'', JStr (text_or (gc_project_id g) ''<set GOOGLE_CLOUD_PROJECT>'')),
       (''region'', JStr (gc_region g)),
       (''artifact_registry_repository'', JStr (gc_artifact_registry_repository g)),
       (''service_account_prefix'', JStr (gc_service_account_prefix g)),
       (''store_instance_name'', JStr name),
       (''store_database_name'', JStr name),
       (''store_url_secret'', JStr (opt_or (st_url_secret (ts_store (tp_tape p))) ''TAPE_STORE_URL'')),
       (''events_topic'', JStr (evs_topic ev)),
       (''events_outbox_topic'', JStr (opt_or (evs_outbox_topic ev) (evs_topic ev @ ''-outbox''))),
       (''events_dlq_topic'', JStr (opt_or (evs_dlq_topic ev) (evs_topic ev @ ''-dlq''))),
       (''tape_server_image'', JStr (vs_image sv)),
       (''tape_reactor_image'', JStr (registry_image g (text_or (gc_project_id g) ''PROJECT'') (name @ ''-reactor'') ''latest'')),
       (''tape_reactor_runner_factory'', JStr (opt_or (as_runner_factory (tp_agent p)) ''app.agent:build_runner'')),
       (''tape_server_min_instances'', JNum (vs_min_instances sv)),
       (''tape_server_max_instances'', JNum (vs_max_instances sv)),
       (''tape_server_cpu'', JStr (vs_cpu sv)),
       (''tape_server_memory'', JStr (vs_memory sv)),
       (''tape_server_ingress'', JStr (vs_ingress sv)),
       (''vpc_connector'', JStr (opt_or (nw_vpc_connector (gc_network g)) []))])"

section \<open>Files and commands\<close>

datatype file_content = TextFile string | JsonFile json | YamlFile json | ReadmeFor string

datatype file_op = RemoveTree string | CopyTree string string | WriteFile string file_content

definition VERSIONS_TF :: "string list" where
  "VERSIONS_TF = [
     ''terraform {'',
     ''  required_version = \">= 1.6.0\"'',
     ''  required_providers {'',
     ''    google      = { source = \"hashicorp/google\", version = \">= 5.10\" }'',
     ''    google-beta = { source = \"hashicorp/google-beta\", version = \">= 5.10\" }'',
     ''  }'',
     ''}'']"

definition in_dir :: "string \<Rightarrow> string \<Rightarrow> string" where
  "in_dir d f = d @ ''/'' @ f"

definition runtime_modules_dir :: "(string \<Rightarrow> bool) \<Rightarrow> string \<Rightarrow> string \<Rightarrow> string" where
  "runtime_modules_dir exists package_root cwd = (if exists package_root then package_root else in_dir cwd ''deploy/gcp/terraform'')"

definition generate :: "(string \<Rightarrow> bool) \<Rightarrow> string \<Rightarrow> string \<Rightarrow> TapeProject \<Rightarrow> string \<Rightarrow> file_op list" where
  "generate exists package_root cwd p out_dir =
     (let src_modules = in_dir (runtime_modules_dir exists package_root cwd) ''modules''; dst_modules = in_dir out_dir ''modules'' in
      (if exists src_modules then (if exists dst_modules then [RemoveTree dst_modules] else []) @ [CopyTree src_modules dst_modules] else [])
      @ [WriteFile (in_dir out_dir ''main.tf'') (TextFile (render_main_tf p)),
         WriteFile (in_dir out_dir ''variables.tf'') (TextFile render_variables_tf),
         WriteFile (in_dir out_dir ''terraform.tfvars.json'') (JsonFile (JObj (render_tfvars p))),
         WriteFile (in_dir out_dir ''versions.tf'') (TextFile (join_lines VERSIONS_TF)),
         WriteFile (in_dir out_dir ''README.md'') (ReadmeFor (pj_name (tp_project p)))])"

text \<open>A process gives its exit code and output, or cannot be started.\<close>

record 'w tool_env =
  tl_which :: "string \<Rightarrow> string option"
  tl_run :: "string \<Rightarrow> string list \<Rightarrow> 'w \<Rightarrow> (py_exn + int \<times> string) \<times> 'w"

datatype cli_end = CliExit int | CliRaised py_exn | CliDone

definition tf_tool :: "'w tool_env \<Rightarrow> string option" where
  "tf_tool env = (case tl_which env ''tofu'' of Some t \<Rightarrow> Some t | None \<Rightarrow> tl_which env ''terraform'')"

definition exit_with :: "(py_exn + int \<times> string) \<times> 'w \<Rightarrow> cli_end \<times> 'w" where
  "exit_with r = (case r of (Inl ex, w) \<Rightarrow> (CliRaised ex, w) | (Inr (rc, _), w) \<Rightarrow> (CliExit rc, w))"

definition apply_tf :: "'w tool_env \<Rightarrow> string \<Rightarrow> bool \<Rightarrow> 'w \<Rightarrow> cli_end \<times> 'w" where
  "apply_tf env tf_dir dry_run w =
     (case tf_tool env of
        None \<Rightarrow> (CliExit 2, w)
      | Some tool \<Rightarrow>
          (case tl_run env tf_dir [tool, ''init'', ''-input=false''] w of
             (Inl ex, w1) \<Rightarrow> (CliRaised ex, w1)
           | (Inr (rc, _), w1) \<Rightarrow>
               if rc \<noteq> 0 then (CliExit rc, w1)
               else if dry_run then exit_with (tl_run env tf_dir [tool, ''plan'', ''-input=false'', ''-var-file=terraform.tfvars.json''] w1)
               else exit_with (tl_run env tf_dir [tool, ''apply'', ''-input=false'', ''-auto-approve'', ''-var-file=terraform.tfvars.json''] w1)))"

record provision_opts =
  po_store :: "string option"
  po_events :: "string option"
  po_target :: "string option"
  po_region :: "string option"
  po_dry_run :: bool
  po_apply_now :: bool

definition provision_defaults :: provision_opts where
  "provision_defaults = \<lparr>po_store = None, po_events = None, po_target = None, po_region = None, po_dry_run = True, po_apply_now = False\<rparr>"

definition given :: "string option \<Rightarrow> (string \<Rightarrow> 'p \<Rightarrow> 'p) \<Rightarrow> 'p \<Rightarrow> 'p" where
  "given opt f p = (case str_or_none opt of None \<Rightarrow> p | Some x \<Rightarrow> f x p)"

definition set_store :: "string \<Rightarrow> TapeProject \<Rightarrow> TapeProject" where
  "set_store kind p = p\<lparr>tp_tape := (tp_tape p)\<lparr>ts_store := (ts_store (tp_tape p))\<lparr>st_kind := kind\<rparr>\<rparr>\<rparr>"

definition set_events :: "string \<Rightarrow> TapeProject \<Rightarrow> TapeProject" where
  "set_events kind p = p\<lparr>tp_tape := (tp_tape p)\<lparr>ts_events := (ts_events (tp_tape p))\<lparr>evs_kind := kind\<rparr>\<rparr>\<rparr>"

definition set_target :: "string \<Rightarrow> TapeProject \<Rightarrow> TapeProject" where
  "set_target target p =
     (let t = replace_char (CHR ''-'') (CHR ''_'') target in
      p\<lparr>tp_tape := (tp_tape p)\<lparr>ts_server := (ts_server (tp_tape p))\<lparr>vs_target := t\<rparr>\<rparr>,
        tp_agent := (tp_agent p)\<lparr>as_deployment_target := t\<rparr>\<rparr>)"

definition set_region :: "string \<Rightarrow> TapeProject \<Rightarrow> TapeProject" where
  "set_region region p = p\<lparr>tp_gcp := (tp_gcp p)\<lparr>gc_region := region\<rparr>\<rparr>"

definition provision_project :: "provision_opts \<Rightarrow> TapeProject \<Rightarrow> TapeProject" where
  "provision_project opts p =
     given (po_region opts) set_region (given (po_target opts) set_target (given (po_events opts) set_events (given (po_store opts) set_store p)))"

definition provision_gcp ::
    "'w tool_env \<Rightarrow> (string \<Rightarrow> bool) \<Rightarrow> string \<Rightarrow> string \<Rightarrow> provision_opts \<Rightarrow> TapeProject \<Rightarrow> string \<Rightarrow> 'w \<Rightarrow> file_op list \<times> cli_end \<times> 'w" where
  "provision_gcp env exists package_root cwd opts p out_dir w =
     (generate exists package_root cwd (provision_project opts p) out_dir,
      apply_tf env out_dir (\<not> (po_apply_now opts \<or> \<not> po_dry_run opts)) w)"

definition destroy_gcp :: "'w tool_env \<Rightarrow> (string \<Rightarrow> bool) \<Rightarrow> bool \<Rightarrow> bool \<Rightarrow> string \<Rightarrow> 'w \<Rightarrow> cli_end \<times> 'w" where
  "destroy_gcp env exists yes confirmed tf_dir w =
     (if \<not> exists tf_dir then (CliExit 2, w)
      else if \<not> yes \<and> \<not> confirmed then (CliExit 1, w)
      else (case tf_tool env of
              None \<Rightarrow> (CliExit 2, w)
            | Some tool \<Rightarrow> exit_with (tl_run env tf_dir [tool, ''destroy'', ''-input=false'', ''-auto-approve'', ''-var-file=terraform.tfvars.json''] w)))"

section \<open>Reading the rendered files\<close>

text \<open>The names a text refers to behind a prefix, as \<open>x\<close> behind \<open>var.\<close>.\<close>

definition ident_char :: "char \<Rightarrow> bool" where
  "ident_char c \<longleftrightarrow> (97::nat) \<le> of_char c \<and> of_char c \<le> (122::nat) \<or> (65::nat) \<le> of_char c \<and> of_char c \<le> (90::nat) \<or>
     (48::nat) \<le> of_char c \<and> of_char c \<le> (57::nat) \<or> c = CHR ''_'' \<or> c = CHR ''-''"

fun refs_of :: "string \<Rightarrow> string \<Rightarrow> string list" where
  "refs_of pre [] = []"
| "refs_of pre (c # s) =
     (if take (length pre) (c # s) = pre then [takeWhile ident_char (drop (length pre) (c # s))] else []) @ refs_of pre s"

text \<open>
  Reading the variables file back: its lines, and the blocks they make, each with its name, its type and
  its default. Any other text is not read.
\<close>

definition text_lines :: "string \<Rightarrow> string list" where
  "text_lines t = butlast (split_on (CHR 10) t)"

definition strip_front :: "string \<Rightarrow> string \<Rightarrow> string option" where
  "strip_front pre l = (if take (length pre) l = pre then Some (drop (length pre) l) else None)"

definition block_name :: "string \<Rightarrow> string option" where
  "block_name l = (case strip_front (''variable '' @ [CHR 34]) l of
     None \<Rightarrow> None
   | Some t \<Rightarrow> if dropWhile ident_char t = [CHR 34] @ '' {'' then Some (takeWhile ident_char t) else None)"

fun parse_variables :: "string list \<Rightarrow> (string \<times> string \<times> string option) list option" where
  "parse_variables [] = Some []"
| "parse_variables (l # t # d # ls) =
     (case (block_name l, strip_front ''  type    = '' t) of
        (Some n, Some ty) \<Rightarrow>
          if d = ''}'' then map_option (\<lambda>vs. (n, ty, None) # vs) (parse_variables ls)
          else (case (strip_front ''  default = '' d, ls) of
                  (Some v, e # ls') \<Rightarrow> if e = ''}'' then map_option (\<lambda>vs. (n, ty, Some v) # vs) (parse_variables ls') else None
                | _ \<Rightarrow> None)
      | _ \<Rightarrow> None)"
| "parse_variables ls = None"

definition newline_free :: "string list \<Rightarrow> bool" where
  "newline_free ls \<longleftrightarrow> list_all (\<lambda>l. CHR 10 \<notin> set l) ls"

lemma split_on_line: "c \<notin> set l \<Longrightarrow> split_on c (l @ c # t) = l # split_on c t"
  by (induction l) auto

lemma text_lines_join: "newline_free ls \<Longrightarrow> text_lines (join_lines ls) = ls"
  by (induction ls) (auto simp: text_lines_def join_lines_def newline_free_def split_on_line split_on_nonempty)

lemma refs_of_line:
  assumes "CHR 10 \<notin> set pre" and "pre \<noteq> []"
  shows "refs_of pre (l @ CHR 10 # t) = refs_of pre l @ refs_of pre t"
proof (induction l)
  case Nil
  have "take (length pre) (CHR 10 # t) \<noteq> pre" using assms by (cases pre) auto
  then show ?case by simp
next
  case (Cons c l)
  have "take (length pre) (c # l @ CHR 10 # t) = pre \<longleftrightarrow> take (length pre) (c # l) = pre"
  proof (cases "length pre \<le> length (c # l)")
    case True
    then show ?thesis using take_append [of "length pre" "c # l" "CHR 10 # t"] by simp
  next
    case False
    then obtain k where k: "length pre - length (c # l) = Suc k" by (metis Suc_diff_Suc not_le)
    have "CHR 10 \<in> set (take (length pre) (c # l @ CHR 10 # t))"
      using take_append [of "length pre" "c # l" "CHR 10 # t"] k by simp
    moreover have "length (take (length pre) (c # l)) \<noteq> length pre" using False by simp
    then have "take (length pre) (c # l) \<noteq> pre" by metis
    ultimately show ?thesis using assms(1) by auto
  qed
  moreover have "takeWhile ident_char (drop (length pre) (c # l @ CHR 10 # t)) = takeWhile ident_char (drop (length pre) (c # l))"
    if "take (length pre) (c # l) = pre"
  proof -
    have len: "length pre \<le> length (c # l)" using arg_cong [OF that, of length] by simp
    have "\<not> ident_char (CHR 10)" by (simp add: ident_char_def)
    then have "takeWhile ident_char (xs @ CHR 10 # t) = takeWhile ident_char xs" for xs by (induction xs) auto
    with len show ?thesis using drop_append [of "length pre" "c # l" "CHR 10 # t"] by simp
  qed
  ultimately show ?case using Cons.IH by (auto simp del: take_Suc_Cons drop_Suc_Cons)
qed

lemma refs_of_join: "CHR 10 \<notin> set pre \<Longrightarrow> pre \<noteq> [] \<Longrightarrow> refs_of pre (join_lines ls) = concat (map (refs_of pre) ls)"
  by (induction ls) (auto simp: join_lines_def refs_of_line)

lemma block_name_line: "list_all ident_char n \<Longrightarrow> block_name (''variable '' @ [CHR 34] @ n @ [CHR 34] @ '' {'') = Some n"
proof -
  assume n: "list_all ident_char n"
  have stop: "\<not> ident_char (CHR 34)" by (simp add: ident_char_def)
  have "takeWhile ident_char (n @ CHR 34 # t) = n" "dropWhile ident_char (n @ CHR 34 # t) = CHR 34 # t" for t
    using n stop by (induction n) auto
  then show ?thesis by (simp add: block_name_def strip_front_def)
qed

lemma parse_block:
  "list_all ident_char (fst v) \<Longrightarrow> parse_variables (variable_lines v @ ls) = map_option (\<lambda>vs. v # vs) (parse_variables ls)"
  using block_name_line [of "fst v"] by (cases v) (auto simp: variable_lines_def strip_front_def split: option.splits)

lemma parse_blocks: "list_all (\<lambda>v. list_all ident_char (fst v)) vs \<Longrightarrow> parse_variables (concat (map variable_lines vs)) = Some vs"
  by (induction vs) (simp_all add: parse_block)

lemma variables_read: "parse_variables (text_lines render_variables_tf) = Some VARIABLES"
proof -
  have "newline_free (concat (map variable_lines VARIABLES))" by code_simp
  moreover have "list_all (\<lambda>v. list_all ident_char (fst v)) VARIABLES" by code_simp
  ultimately show ?thesis by (simp add: render_variables_tf_def text_lines_join parse_blocks)
qed

section \<open>References\<close>

definition declared_modules :: "string list \<Rightarrow> string list" where
  "declared_modules ls = concat (map (\<lambda>l. refs_of (''module '' @ [CHR 34]) l) ls)"

definition var_names :: "string list" where
  "var_names = map fst VARIABLES"

definition vars_declared :: "string list \<Rightarrow> bool" where
  "vars_declared ls \<longleftrightarrow> list_all (\<lambda>l. list_all (\<lambda>v. v \<in> set var_names) (refs_of ''var.'' l)) ls"

lemma vars_declared_append [simp]: "vars_declared (ls @ ls') \<longleftrightarrow> vars_declared ls \<and> vars_declared ls'"
  by (simp add: vars_declared_def)

lemma empty_part [simp]: "vars_declared []" "declared_modules [] = []"
  by (simp_all add: vars_declared_def declared_modules_def)

lemma declared_modules_append [simp]: "declared_modules (ls @ ls') = declared_modules ls @ declared_modules ls'"
  by (simp add: declared_modules_def)

definition module_refs :: "string list \<Rightarrow> string list" where
  "module_refs ls = concat (map (refs_of ''module.'') ls)"

lemma module_refs_append [simp]: "module_refs (ls @ ls') = module_refs ls @ module_refs ls'" "module_refs [] = []"
  by (simp_all add: module_refs_def)

lemma vars_declared_join: "vars_declared ls \<longleftrightarrow> set (refs_of ''var.'' (join_lines ls)) \<subseteq> set (map fst VARIABLES)"
  by (auto simp: vars_declared_def refs_of_join list_all_iff var_names_def)

lemma module_refs_join: "refs_of ''module.'' (join_lines ls) = module_refs ls" "refs_of (''module '' @ [CHR 34]) (join_lines ls) = declared_modules ls"
  by (simp_all add: refs_of_join module_refs_def declared_modules_def)

text \<open>The fixed parts, evaluated.\<close>

lemma head_part: "vars_declared main_tf_head" "module_refs main_tf_head = []" "''iam'' \<in> set (declared_modules main_tf_head)"
    "''tape_server'' \<notin> set (declared_modules main_tf_head)"
  by code_simp+

lemma store_part:
  assumes "map_of STORE_MODULES kind = Some m"
  shows "vars_declared (store_lines m)" "module_refs (store_lines m) = []" "''tape_server'' \<notin> set (declared_modules (store_lines m))"
proof -
  have "m \<in> set (map snd STORE_MODULES)" using map_of_SomeD [OF assms] by force
  moreover have "list_all (\<lambda>m. vars_declared (store_lines m) \<and> module_refs (store_lines m) = [] \<and>
      ''tape_server'' \<notin> set (declared_modules (store_lines m))) (map snd STORE_MODULES)" by code_simp
  ultimately show "vars_declared (store_lines m)" "module_refs (store_lines m) = []" "''tape_server'' \<notin> set (declared_modules (store_lines m))"
    unfolding list_all_iff by blast+
qed

lemma events_part: "vars_declared events_lines" "module_refs events_lines = []" "''tape_server'' \<notin> set (declared_modules events_lines)"
  by code_simp+

lemma gke_part: "vars_declared gke_lines" "module_refs gke_lines = []" "''tape_server'' \<notin> set (declared_modules gke_lines)"
  by code_simp+

lemma tail_part: "vars_declared main_tf_tail" "module_refs main_tf_tail = [''tape_server'']"
    "''tape_server'' \<notin> set (declared_modules main_tf_tail)"
  by code_simp+

lemma filter_subseqs: "filter P xs \<in> set (subseqs xs)"
  by (induction xs) (auto simp: Let_def)

lemma cloud_run_modules_part:
  "vars_declared cloud_run_modules" "set (module_refs cloud_run_modules) \<subseteq> {''iam'', ''tape_server''}"
  "''tape_server'' \<in> set (declared_modules cloud_run_modules)"
  by code_simp+

lemma reactors_line_part:
  "refs_of ''var.'' (reactors_line (enabled_names r)) = []" "refs_of ''module.'' (reactors_line (enabled_names r)) = []"
proof -
  have "list_all (\<lambda>ns. refs_of ''var.'' (reactors_line ns) = [] \<and> refs_of ''module.'' (reactors_line ns) = []) (subseqs REACTOR_NAMES)"
    by code_simp
  moreover have "enabled_names r \<in> set (subseqs REACTOR_NAMES)" unfolding enabled_names_def by (rule filter_subseqs)
  ultimately show "refs_of ''var.'' (reactors_line (enabled_names r)) = []" "refs_of ''module.'' (reactors_line (enabled_names r)) = []"
    unfolding list_all_iff by blast+
qed

lemma cloud_run_part:
  "vars_declared (cloud_run_lines (enabled_names r))"
  "set (module_refs (cloud_run_lines (enabled_names r))) \<subseteq> {''iam'', ''tape_server''}"
  "''tape_server'' \<in> set (declared_modules (cloud_run_lines (enabled_names r)))"
  using cloud_run_modules_part
  by (simp_all add: cloud_run_lines_def reactors_line_part vars_declared_def [of "_ # _"] module_refs_def [of "_ # _"])

lemmas tf_parts = head_part store_part events_part gke_part tail_part cloud_run_part

section \<open>Properties\<close>

definition value_fits :: "json \<Rightarrow> string \<Rightarrow> bool" where
  "value_fits v typ = (case v of JStr _ \<Rightarrow> typ = ''string'' | JNum _ \<Rightarrow> typ = ''number'' | _ \<Rightarrow> False)"

text \<open>
  C36. The rendered Terraform is complete for every project: the text of the variables file reads back as a list of
  variable declarations with different names; each variable that the text of the root module refers to is
  among them; each value of the variables file belongs to one of them and has its type, and each of them
  without a default has a value; on Cloud Run every module that the text of the root module refers
  to is declared in it as well.
\<close>

theorem terraform_inputs_declared:
  "\<exists>ds. parse_variables (text_lines render_variables_tf) = Some ds \<and> distinct (map fst ds) \<and>
     set (refs_of ''var.'' (render_main_tf p)) \<subseteq> set (map fst ds) \<and>
     distinct (map fst (render_tfvars p)) \<and>
     (\<forall>(k, v) \<in> set (render_tfvars p). \<exists>typ dflt. (k, typ, dflt) \<in> set ds \<and> value_fits v typ) \<and>
     (\<forall>(n, typ, dflt) \<in> set ds. dflt = None \<longrightarrow> n \<in> set (map fst (render_tfvars p))) \<and>
     (vs_target (ts_server (tp_tape p)) = ''cloud_run'' \<longrightarrow>
        set (refs_of ''module.'' (render_main_tf p)) \<subseteq> set (refs_of (''module '' @ [CHR 34]) (render_main_tf p)))"
proof (intro exI [of _ VARIABLES] conjI impI)
  show "parse_variables (text_lines render_variables_tf) = Some VARIABLES" by (rule variables_read)
  have "vars_declared (main_tf_lines p)" by (auto simp: main_tf_lines_def tf_parts split: option.split)
  then show "set (refs_of ''var.'' (render_main_tf p)) \<subseteq> set (map fst VARIABLES)" by (simp only: vars_declared_join render_main_tf_def)
  show "\<forall>(k, v) \<in> set (render_tfvars p). \<exists>typ dflt. (k, typ, dflt) \<in> set VARIABLES \<and> value_fits v typ"
    by (simp add: render_tfvars_def VARIABLES_def value_fits_def Let_def)
  show "distinct (map fst VARIABLES)" by (simp add: VARIABLES_def)
  show "distinct (map fst (render_tfvars p))" by (simp add: render_tfvars_def Let_def)
  show "\<forall>(n, typ, dflt) \<in> set VARIABLES. dflt = None \<longrightarrow> n \<in> set (map fst (render_tfvars p))"
    by (simp add: VARIABLES_def render_tfvars_def Let_def)
  show "set (refs_of ''module.'' (render_main_tf p)) \<subseteq> set (refs_of (''module '' @ [CHR 34]) (render_main_tf p))"
    if "vs_target (ts_server (tp_tape p)) = ''cloud_run''"
  proof -
    have ref: "x = ''iam'' \<or> x = ''tape_server''" if "x \<in> set (module_refs (cloud_run_lines (enabled_names r)))" for x r
      using cloud_run_part(2) [of r] that by blast
    show ?thesis unfolding render_main_tf_def module_refs_join
      using that by (auto simp: main_tf_lines_def tf_parts split: option.split dest!: ref)
  qed
qed

definition demo_project :: TapeProject where
  "demo_project = tape_project (project_section ''treasury'') (agent_section ''treasury'' ''app.agent:root_agent'')"

theorem terraform_inputs_declared_witness:
  "vs_target (ts_server (tp_tape demo_project)) = ''cloud_run'' \<and>
   set (refs_of ''module.'' (render_main_tf demo_project)) \<subseteq> set (refs_of (''module '' @ [CHR 34]) (render_main_tf demo_project)) \<and>
   ''tape_server_image'' \<in> set (map fst (render_tfvars demo_project))"
proof -
  have cr: "vs_target (ts_server (tp_tape demo_project)) = ''cloud_run''"
    by (simp add: demo_project_def tape_project_def tape_section_def server_section_def)
  obtain ds where ds: "parse_variables (text_lines render_variables_tf) = Some ds"
    "\<forall>(n, typ, dflt) \<in> set ds. dflt = None \<longrightarrow> n \<in> set (map fst (render_tfvars demo_project))"
    "set (refs_of ''module.'' (render_main_tf demo_project)) \<subseteq> set (refs_of (''module '' @ [CHR 34]) (render_main_tf demo_project))"
    using terraform_inputs_declared [of demo_project] cr by blast
  have "ds = VARIABLES" using ds(1) variables_read by simp
  then have "(''tape_server_image'', ''string'', None) \<in> set ds" by (simp add: VARIABLES_def)
  with ds cr show ?thesis by fast
qed

text \<open>On every other target the output refers to a module that is not declared, which no \<open>try\<close> catches.\<close>

lemma other_target_undeclared:
  "vs_target (ts_server (tp_tape p)) \<noteq> ''cloud_run'' \<Longrightarrow>
   ''tape_server'' \<in> set (refs_of ''module.'' (render_main_tf p)) - set (refs_of (''module '' @ [CHR 34]) (render_main_tf p))"
  unfolding render_main_tf_def module_refs_join by (auto simp: main_tf_lines_def tf_parts split: option.split)

text \<open>The cluster of a GKE project is the empty text: its variable gets no value and that is its default.\<close>

lemma gke_cluster_empty:
  "''gke_cluster'' \<notin> set (map fst (render_tfvars p))" "map_of VARIABLES ''gke_cluster'' = Some (''string'', Some [CHR 34, CHR 34])"
  by (simp_all add: render_tfvars_def VARIABLES_def Let_def)

text \<open>An inline store URL has no influence on what is provisioned.\<close>

lemma inline_url_ignored:
  fixes p :: TapeProject and u :: "string option"
  defines "p' \<equiv> p\<lparr>tp_tape := (tp_tape p)\<lparr>ts_store := (ts_store (tp_tape p))\<lparr>st_url := u\<rparr>\<rparr>\<rparr>"
  shows "generate ex pr cwd p' out = generate ex pr cwd p out"
  by (simp add: p'_def generate_def render_main_tf_def main_tf_lines_def render_tfvars_def Let_def)

text \<open>An override of the store is not validated: an unknown kind renders no store.\<close>

lemma unknown_store_dropped:
  "map_of STORE_MODULES kind = None \<Longrightarrow> main_tf_lines (set_store kind p) = main_tf_lines (set_store ''sqlite'' p)"
  by (simp add: main_tf_lines_def set_store_def STORE_MODULES_def)

text \<open>The default, documented to render only, initialises and plans, and fails without a tool.\<close>

lemma dry_run_runs_tool:
  "tf_tool env = Some tool \<Longrightarrow> tl_run env out [tool, ''init'', ''-input=false''] w = (Inr (0, o1), w1) \<Longrightarrow>
   snd (provision_gcp env ex pr cwd provision_defaults p out w) =
     exit_with (tl_run env out [tool, ''plan'', ''-input=false'', ''-var-file=terraform.tfvars.json''] w1)"
  "tf_tool env = None \<Longrightarrow> snd (provision_gcp env ex pr cwd provision_defaults p out w) = (CliExit 2, w)"
  by (simp_all add: provision_gcp_def provision_defaults_def apply_tf_def)

text \<open>Nothing is applied unless asked for, and never after a failed initialisation.\<close>

lemma failed_init_stops:
  "tf_tool env = Some tool \<Longrightarrow> tl_run env out [tool, ''init'', ''-input=false''] w = (Inr (rc, o1), w1) \<Longrightarrow> rc \<noteq> 0 \<Longrightarrow>
   apply_tf env out dry w = (CliExit rc, w1)"
  by (simp add: apply_tf_def)

end
