(* ===== verification/CliDeploy.thy ===== *)
theory CliDeploy
  imports CliTerraform
begin

text \<open>
  The commands that scaffold, run and deploy a project: \<open>commands/deploy.py\<close>, \<open>commands/init.py\<close>,
  \<open>commands/enhance.py\<close>, \<open>commands/dev.py\<close> and the template renderer of \<open>util.py\<close>; and the options the
  reactor process of the SDK takes (\<open>tape/reactors/__init__.py\<close>), which the rendered commands use.

  A command gives the files it writes, in order, and how it ends. What is printed is left out. YAML
  documents are the value that is dumped; the template engine is a parameter.
\<close>

section \<open>Cloud Run\<close>

record deploy_opts =
  do_target :: string
  do_store :: "string option"
  do_reactors :: "string option"
  do_image_tag :: string
  do_skip_build :: bool

definition wanted_reactors :: "string \<Rightarrow> string list" where
  "wanted_reactors reactors = filter (\<lambda>r. r \<noteq> []) (map py_strip (split_on (CHR '','') reactors))"

definition set_enabled :: "string list \<Rightarrow> ReactorsSection \<Rightarrow> ReactorsSection" where
  "set_enabled wanted r =
     \<lparr>rx_recovery = (rx_recovery r)\<lparr>rs_enabled := ''recovery'' \<in> set wanted\<rparr>,
      rx_reconciler = (rx_reconciler r)\<lparr>rs_enabled := ''reconciler'' \<in> set wanted\<rparr>,
      rx_outbox = (rx_outbox r)\<lparr>rs_enabled := ''outbox'' \<in> set wanted\<rparr>,
      rx_timers = (rx_timers r)\<lparr>rs_enabled := ''timers'' \<in> set wanted\<rparr>,
      rx_compensation = (rx_compensation r)\<lparr>rs_enabled := ''compensation'' \<in> set wanted\<rparr>\<rparr>"

definition deploy_project :: "deploy_opts \<Rightarrow> TapeProject \<Rightarrow> TapeProject" where
  "deploy_project opts p =
     given (do_reactors opts) (\<lambda>rs p. p\<lparr>tp_tape := (tp_tape p)\<lparr>ts_reactors := set_enabled (wanted_reactors rs) (ts_reactors (tp_tape p))\<rparr>\<rparr>)
       (given (do_store opts) set_store p)"

text \<open>The directories are the project root and its parents.\<close>

fun find_server_source_root :: "(string \<Rightarrow> bool) \<Rightarrow> string list \<Rightarrow> string option" where
  "find_server_source_root exists [] = None"
| "find_server_source_root exists (p # ps) =
     (if exists (in_dir p ''tape/server/Cargo.toml'') then Some p else find_server_source_root exists ps)"

definition named :: "string \<Rightarrow> json \<Rightarrow> json" where
  "named n v = JObj [(''name'', JStr n), (''value'', v)]"

definition server_env :: "TapeProject \<Rightarrow> json list" where
  "server_env p =
     [named ''TAPE_LISTEN'' (JStr ''0.0.0.0:7878''), named ''RUST_LOG'' (JStr ''tape_server=info'')]
     @ (case str_or_none (st_url_secret (ts_store (tp_tape p))) of
          Some sec \<Rightarrow> [JObj [(''name'', JStr ''TAPE_STORE''),
             (''valueFrom'', JObj [(''secretKeyRef'', JObj [(''name'', JStr sec), (''key'', JStr ''latest'')])])]]
        | None \<Rightarrow> (case str_or_none (st_url (ts_store (tp_tape p))) of Some u \<Rightarrow> [named ''TAPE_STORE'' (JStr u)] | None \<Rightarrow> []))"

definition service_account :: "GcpSection \<Rightarrow> string \<Rightarrow> string" where
  "service_account g role = gc_service_account_prefix g @ ''-'' @ role @ ''@'' @ gc_project_id g @ ''.iam.gserviceaccount.com''"

definition autoscale :: "string \<Rightarrow> int \<Rightarrow> string \<times> json" where
  "autoscale key n = (''autoscaling.knative.dev/'' @ key, JStr (int_str n))"

definition render_cloud_run_server :: "TapeProject \<Rightarrow> string \<Rightarrow> json" where
  "render_cloud_run_server p img =
     (let sv = ts_server (tp_tape p) in
      JObj [(''apiVersion'', JStr ''serving.knative.dev/v1''), (''kind'', JStr ''Service''),
        (''metadata'', JObj [(''name'', JStr ''tape-server''),
           (''annotations'', JObj [(''run.googleapis.com/ingress'', JStr (vs_ingress sv))])]),
        (''spec'', JObj [(''template'', JObj [
           (''metadata'', JObj [(''annotations'', JObj [(''run.googleapis.com/use-http2'', JStr ''true''),
              autoscale ''minScale'' (vs_min_instances sv), autoscale ''maxScale'' (vs_max_instances sv)])]),
           (''spec'', JObj [(''serviceAccountName'', JStr (service_account (tp_gcp p) ''server'')),
              (''containers'', JArr [JObj [(''name'', JStr ''tape-server''), (''image'', JStr img),
                 (''ports'', JArr [JObj [(''name'', JStr ''h2c''), (''containerPort'', JNum 7878)]]),
                 (''env'', JArr (server_env p)),
                 (''resources'', JObj [(''limits'', JObj [(''cpu'', JStr (vs_cpu sv)), (''memory'', JStr (vs_memory sv))])])]])])])])])"

definition describe_argv :: "GcpSection \<Rightarrow> string list" where
  "describe_argv g = [''gcloud'', ''run'', ''services'', ''describe'', ''tape-server'', ''--region='' @ gc_region g,
     ''--project='' @ gc_project_id g, ''--format=value(status.url)'']"

definition resolve_tape_server_url :: "'w tool_env \<Rightarrow> TapeProject \<Rightarrow> 'w \<Rightarrow> (string \<times> bool) \<times> 'w" where
  "resolve_tape_server_url env p w =
     (let g = tp_gcp p; placeholder = (''${TAPE_SERVER_URL}'', False) in
      if tl_which env ''gcloud'' \<noteq> None \<and> gc_project_id g \<noteq> [] then
        (case tl_run env [] (describe_argv g) w of
           (Inl ex, w1) \<Rightarrow> (placeholder, w1)
         | (Inr (rc, out), w1) \<Rightarrow>
             (let url = py_strip out in
              if take 8 url = ''https://'' then ((''tapes://'' @ drop 8 url, True), w1) else (placeholder, w1)))
      else (placeholder, w))"

definition reactor_cmd :: "TapeProject \<Rightarrow> string \<Rightarrow> string \<Rightarrow> string list" where
  "reactor_cmd p reactor_name tape_server_url =
     [''python'', ''-m'', ''tape.reactors'', ''--runner-from'', opt_or (as_runner_factory (tp_agent p)) ''app.agent:build_runner'',
      ''--url'', tape_server_url, ''--only'', reactor_name]"

definition render_cloud_run_reactor :: "TapeProject \<Rightarrow> string \<Rightarrow> string \<Rightarrow> string \<Rightarrow> json" where
  "render_cloud_run_reactor p img reactor_name tape_server_url =
     (let spec = reactor_of (ts_reactors (tp_tape p)) reactor_name in
      JObj [(''apiVersion'', JStr ''serving.knative.dev/v1''), (''kind'', JStr ''Service''),
        (''metadata'', JObj [(''name'', JStr (''tape-reactor-'' @ reactor_name))]),
        (''spec'', JObj [(''template'', JObj [
           (''metadata'', JObj [(''annotations'', JObj [autoscale ''minScale'' (rs_min_instances spec), autoscale ''maxScale'' (rs_max_instances spec)])]),
           (''spec'', JObj [(''serviceAccountName'', JStr (service_account (tp_gcp p) ''reactor'')),
              (''containers'', JArr [JObj [(''name'', JStr (''tape-reactor-'' @ reactor_name)), (''image'', JStr img),
                 (''command'', JArr (map JStr (reactor_cmd p reactor_name tape_server_url))),
                 (''env'', JArr [named ''TAPE_URL'' (JStr tape_server_url), named ''TAPE_REACTOR'' (JStr reactor_name),
                    named ''GOOGLE_CLOUD_PROJECT'' (JStr (gc_project_id (tp_gcp p))),
                    named ''GOOGLE_CLOUD_LOCATION'' (JStr (gc_region (tp_gcp p)))])]])])])])])"

text \<open>A command that must succeed: another exit code raises.\<close>

definition run_checked :: "'w tool_env \<Rightarrow> string \<Rightarrow> string list \<Rightarrow> 'w \<Rightarrow> (py_exn + unit) \<times> 'w" where
  "run_checked env cwd argv w =
     (case tl_run env cwd argv w of
        (Inl ex, w1) \<Rightarrow> (Inl ex, w1)
      | (Inr (rc, _), w1) \<Rightarrow> if rc = 0 then (Inr (), w1) else (Inl (PyExn ''CalledProcessError'' (int_str rc)), w1))"

definition build_server :: "'w tool_env \<Rightarrow> string \<Rightarrow> string \<Rightarrow> string \<Rightarrow> string \<Rightarrow> 'w \<Rightarrow> (py_exn + unit) \<times> 'w" where
  "build_server env project_root source_root region img w =
     (let ctx = in_dir source_root ''tape'' in
      case tl_run env project_root [''gcloud'', ''builds'', ''submit'', ctx, ''--config=/dev/null'', ''--tag'', img, ''--region'', region] w of
        (Inl ex, w1) \<Rightarrow> (Inl ex, w1)
      | (Inr (rc, _), w1) \<Rightarrow>
          if rc = 0 then (Inr (), w1)
          else (case run_checked env ctx [''docker'', ''build'', ''-f'', ''server/Dockerfile'', ''-t'', img, ''.''] w1 of
                  (Inl ex, w2) \<Rightarrow> (Inl ex, w2)
                | (Inr _, w2) \<Rightarrow> run_checked env ctx [''docker'', ''push'', img] w2))"

definition build_images ::
    "'w tool_env \<Rightarrow> string \<Rightarrow> string option \<Rightarrow> string \<Rightarrow> string \<Rightarrow> string \<Rightarrow> bool \<Rightarrow> 'w \<Rightarrow> (py_exn + unit) \<times> 'w" where
  "build_images env project_root source_root region server_image reactor_image skip_build w =
     (if skip_build then (Inr (), w)
      else (case (case source_root of Some r \<Rightarrow> build_server env project_root r region server_image w | None \<Rightarrow> (Inr (), w)) of
              (Inl ex, w1) \<Rightarrow> (Inl ex, w1)
            | (Inr _, w1) \<Rightarrow>
                (case tl_run env project_root [''gcloud'', ''builds'', ''submit'', project_root, ''--tag'', reactor_image, ''--region'', region] w1 of
                   (Inl ex, w2) \<Rightarrow> (Inl ex, w2)
                 | (Inr _, w2) \<Rightarrow> (Inr (), w2))))"

definition reactor_file :: "string \<Rightarrow> string \<Rightarrow> string" where
  "reactor_file out_dir name = in_dir out_dir (''tape-reactor-'' @ name @ ''.service.yaml'')"

definition deploy_cloud_run ::
    "'w tool_env \<Rightarrow> string \<Rightarrow> string option \<Rightarrow> TapeProject \<Rightarrow> string \<Rightarrow> string \<Rightarrow> bool \<Rightarrow> 'w \<Rightarrow> file_op list \<times> cli_end \<times> 'w" where
  "deploy_cloud_run env project_root source_root p out_dir image_tag skip_build w =
     (let g = tp_gcp p;
          reactor_image = registry_image g (gc_project_id g) (pj_name (tp_project p) @ ''-reactor'') image_tag;
          server_image = (case source_root of Some _ \<Rightarrow> registry_image g (gc_project_id g) ''tape-server'' image_tag
                          | None \<Rightarrow> vs_image (ts_server (tp_tape p)))
      in if tl_which env ''gcloud'' = None then ([], CliExit 2, w)
         else if gc_project_id g = [] then ([], CliExit 2, w)
         else (case build_images env project_root source_root (gc_region g) server_image reactor_image skip_build w of
                 (Inl ex, w1) \<Rightarrow> ([], CliRaised ex, w1)
               | (Inr _, w1) \<Rightarrow>
                   (case resolve_tape_server_url env p w1 of ((url, resolved), w2) \<Rightarrow>
                      ((case source_root of Some _ \<Rightarrow> [WriteFile (in_dir out_dir ''tape-server.service.yaml'') (YamlFile (render_cloud_run_server p server_image))]
                          | None \<Rightarrow> [])
                       @ map (\<lambda>name. WriteFile (reactor_file out_dir name) (YamlFile (render_cloud_run_reactor p reactor_image name url)))
                           (enabled_names (ts_reactors (tp_tape p))),
                       CliDone, w2))))"

section \<open>GKE and the agent runtime\<close>

definition gke_values :: "TapeProject \<Rightarrow> string \<Rightarrow> json" where
  "gke_values p image_tag =
     (let g = tp_gcp p; t = tp_tape p; sv = ts_server t in
      JObj [(''image'', JObj [(''server'', JStr (registry_image g (gc_project_id g) ''tape-server'' image_tag)),
                              (''reactor'', JStr (registry_image g (gc_project_id g) ''tape-reactor'' image_tag))]),
        (''store'', JObj [(''kind'', JStr (st_kind (ts_store t))), (''urlSecret'', JStr (opt_or (st_url_secret (ts_store t)) [])),
                          (''url'', JStr (opt_or (st_url (ts_store t)) []))]),
        (''reactors'', JObj (map (\<lambda>name. (name, JBool (rs_enabled (reactor_of (ts_reactors t) name)))) REACTOR_NAMES)),
        (''server'', JObj [(''image'', JStr (vs_image sv)), (''target'', JStr (vs_target sv)), (''min_instances'', JNum (vs_min_instances sv)),
           (''max_instances'', JNum (vs_max_instances sv)), (''cpu'', JStr (vs_cpu sv)), (''memory'', JStr (vs_memory sv)), (''ingress'', JStr (vs_ingress sv))]),
        (''tenancy'', JObj [(''mode'', JStr (ty_mode (tp_tenancy p))), (''tenant_id'', JStr (ty_tenant_id (tp_tenancy p)))])])"

definition deploy_gke :: "bool \<Rightarrow> TapeProject \<Rightarrow> string \<Rightarrow> string \<Rightarrow> file_op list \<times> cli_end" where
  "deploy_gke chart_exists p out_dir image_tag =
     (if \<not> chart_exists then ([], CliExit 2)
      else ([WriteFile (in_dir out_dir ''values.generated.yaml'') (YamlFile (gke_values p image_tag))], CliDone))"

definition adapter_lines :: "string \<Rightarrow> string list" where
  "adapter_lines entrypoint_module = [
     ''\"\"\"Adapter: re-drive a Vertex AI Agent Runtime deployment from a Tape reactor.'',
     [],
     ''Replace AGENT_RESOURCE with `projects/.../locations/.../reasoningEngines/...`'',
     ''and deploy this module's `main` as the reactor entrypoint.'',
     ''\"\"\"'',
     [],
     ''import os'',
     ''import vertexai'',
     ''from vertexai import agent_engines'',
     [],
     ''import tape'',
     ''import tape.reactors'',
     [],
     ''# importing the agent module must register @tape.effect(status_check=...) hooks'',
     ''import '' @ entrypoint_module @ ''  # noqa: F401'',
     [],
     ''PROJECT  = os.environ[\"GOOGLE_CLOUD_PROJECT\"]'',
     ''LOCATION = os.environ.get(\"GOOGLE_CLOUD_LOCATION\", \"us-central1\")'',
     ''TAPE_URL = os.environ[\"TAPE_URL\"]'',
     ''AGENT_RESOURCE = os.environ[\"AGENT_ENGINE\"]'',
     [],
     ''vertexai.init(project=PROJECT, location=LOCATION)'',
     ''_AGENT = agent_engines.get(AGENT_RESOURCE)'',
     [],
     [],
     ''def agent_engine_redrive(run) -> None:'',
     ''    for _ in _AGENT.stream_query(user_id=run.user_id, session_id=run.session_id,'',
     ''                                 invocation_id=run.invocation_id, message=None):'',
     ''        pass'',
     [],
     [],
     ''def main() -> None:'',
     ''    tape.reactors.run_reactors(redrive_fn=agent_engine_redrive, url=TAPE_URL)'',
     [],
     [],
     ''if __name__ == \"__main__\":'',
     ''    main()'']"

definition deploy_agent_runtime :: "TapeProject \<Rightarrow> string \<Rightarrow> file_op list \<times> cli_end" where
  "deploy_agent_runtime p out_dir =
     ([WriteFile (in_dir out_dir ''agent_runtime_reactor.py'')
         (TextFile (join_lines (adapter_lines (hd (split_on (CHR '':'') (as_entrypoint (tp_agent p)))))))], CliDone)"

definition deploy_gcp ::
    "'w tool_env \<Rightarrow> (string \<Rightarrow> bool) \<Rightarrow> bool \<Rightarrow> deploy_opts \<Rightarrow> TapeProject \<Rightarrow> string \<Rightarrow> string list \<Rightarrow> string \<Rightarrow> 'w \<Rightarrow> file_op list \<times> cli_end \<times> 'w" where
  "deploy_gcp env exists chart_exists opts p0 project_root parents out_dir w =
     (let p = deploy_project opts p0 in
      if do_target opts = ''cloud-run''
      then deploy_cloud_run env project_root (find_server_source_root exists (project_root # parents)) p out_dir (do_image_tag opts) (do_skip_build opts) w
      else if do_target opts = ''gke'' then (case deploy_gke chart_exists p out_dir (do_image_tag opts) of (ops, e) \<Rightarrow> (ops, e, w))
      else if do_target opts = ''agent-runtime-adapter'' then (case deploy_agent_runtime p out_dir of (ops, e) \<Rightarrow> (ops, e, w))
      else ([], CliExit 2, w))"

section \<open>The options of the reactor process\<close>

definition REACTOR_OPTIONS :: "string list" where
  "REACTOR_OPTIONS = [''--url'', ''--runner-from'', ''--no-recover'', ''--no-reconcile'', ''--no-timers'', ''--no-compensations'', ''--compact'',
     ''--compact-hot-window-s'', ''--compact-interval-s'', ''--reconcile-pending-after'', ''--interval'', ''--claimer'', ''--once'',
     ''--compensations-only'', ''--load'', ''--help'']"

text \<open>An option is recognised when it is one of these or an abbreviation of one.\<close>

definition unrecognized :: "string list \<Rightarrow> string list" where
  "unrecognized argv = filter (\<lambda>a. take 2 a = ''--'' \<and> \<not> list_ex (\<lambda>opt. take (length a) opt = a) REACTOR_OPTIONS) argv"

section \<open>Scaffolding\<close>

definition lower_start :: "char \<Rightarrow> bool" where
  "lower_start c \<longleftrightarrow> (97::nat) \<le> of_char c \<and> of_char c \<le> (122::nat)"

definition project_char :: "char \<Rightarrow> bool" where
  "project_char c \<longleftrightarrow> lower_start c \<or> is_digit c \<or> c = CHR ''_'' \<or> c = CHR ''-''"

text \<open>\<open>_NAME_RE\<close>: the anchor at the end also matches before a final line feed.\<close>

definition name_body :: "string \<Rightarrow> bool" where
  "name_body s \<longleftrightarrow> s \<noteq> [] \<and> lower_start (hd s) \<and> list_all project_char (tl s) \<and> length (tl s) \<le> 40"

definition valid_name :: "string \<Rightarrow> bool" where
  "valid_name s \<longleftrightarrow> name_body s \<or> s \<noteq> [] \<and> last s = CHR 10 \<and> name_body (butlast s)"

text \<open>\<open>render_tree\<close>: the files of the template tree in order, each with its path components.\<close>

record jinja =
  jj_path :: "string \<Rightarrow> string"
  jj_file :: "string list \<Rightarrow> string"

definition strip_j2 :: "string \<Rightarrow> string" where
  "strip_j2 s = (if 3 \<le> length s \<and> drop (length s - 3) s = ''.j2'' then take (length s - 3) s else s)"

definition join_path :: "string list \<Rightarrow> string" where
  "join_path parts = (case parts of [] \<Rightarrow> [] | p # ps \<Rightarrow> fold (\<lambda>x acc. in_dir acc x) ps p)"

definition out_path :: "jinja \<Rightarrow> string \<Rightarrow> string list \<Rightarrow> string" where
  "out_path j dst parts = (let ps = map (jj_path j) parts in join_path (dst # butlast ps @ [strip_j2 (last ps)]))"

definition render_tree :: "jinja \<Rightarrow> string list list \<Rightarrow> string \<Rightarrow> bool \<Rightarrow> string list \<times> file_op list" where
  "render_tree j files dst dry_run =
     (map (out_path j dst) files, if dry_run then [] else map (\<lambda>parts. WriteFile (out_path j dst parts) (TextFile (jj_file j parts))) files)"

definition init_run ::
    "(string \<Rightarrow> jinja \<times> string list list) \<Rightarrow> string \<Rightarrow> string \<Rightarrow> bool \<Rightarrow> bool \<Rightarrow> bool \<Rightarrow> string \<Rightarrow> file_op list \<times> cli_end" where
  "init_run templates name tier here nonempty force cwd =
     (if \<not> valid_name name then ([], CliExit 2)
      else if tier \<noteq> ''adk'' \<and> tier \<noteq> ''server'' then ([], CliExit 2)
      else if nonempty \<and> \<not> force then ([], CliExit 2)
      else (case templates (if tier = ''adk'' then ''project-adk'' else ''project'') of (j, files) \<Rightarrow>
              (snd (render_tree j files (if here then cwd else in_dir cwd name) False), CliDone)))"

definition enhance_run ::
    "jinja \<times> string list list \<Rightarrow> (string \<Rightarrow> bool) \<Rightarrow> bool \<Rightarrow> bool \<Rightarrow> string \<Rightarrow> file_op list \<times> cli_end" where
  "enhance_run template exists yes confirmed project_root =
     (if \<not> exists project_root then ([], CliExit 2)
      else if \<not> yes \<and> \<not> confirmed then ([], CliExit 1)
      else (case template of (j, files) \<Rightarrow> (snd (render_tree j files project_root False), CliDone)))"

section \<open>Local development\<close>

datatype dev_plan = DevAdk "string list" | DevDocker | DevNative | DevDies

definition adk_dev_cmd :: "string \<Rightarrow> EmbeddedSection \<Rightarrow> string list" where
  "adk_dev_cmd python emb =
     [python, ''-m'', ''tape_adk'', ''--db-url'', eb_db_url emb, ''--tick-ms'', int_str (eb_reactor_interval_ms emb)]
     @ (case str_or_none (eb_connectors emb) of Some c \<Rightarrow> [''--connectors'', c] | None \<Rightarrow> [])"

definition dev_run :: "string \<Rightarrow> bool \<Rightarrow> string option \<Rightarrow> string option \<Rightarrow> bool option \<Rightarrow> TapeProject \<Rightarrow> dev_plan" where
  "dev_run python docker store events use_docker p =
     (if pj_tier (tp_project p) = ''adk'' then (case tp_embedded p of None \<Rightarrow> DevDies | Some emb \<Rightarrow> DevAdk (adk_dev_cmd python emb))
      else (let eff_store = opt_or store (st_kind (ts_store (tp_tape p)));
                eff_events = opt_or events (evs_kind (ts_events (tp_tape p)));
                emulator = (9 \<le> length eff_events \<and> drop (length eff_events - 9) eff_events = ''-emulator'');
                use = (case use_docker of Some b \<Rightarrow> b | None \<Rightarrow> docker \<and> (eff_store \<noteq> ''sqlite'' \<or> emulator))
            in if use \<and> \<not> docker then DevDies else if use then DevDocker else DevNative))"

text \<open>\<open>_find_server_binary\<close>: each candidate as a file, then on the path.\<close>

definition SERVER_CANDIDATES :: "string list" where
  "SERVER_CANDIDATES = [''./target/release/tape-server'', ''../tape/server/target/release/tape-server'', ''/usr/local/bin/tape-server'', ''tape-server'']"

fun find_binary :: "(string \<Rightarrow> string option) \<Rightarrow> (string \<Rightarrow> string option) \<Rightarrow> string list \<Rightarrow> string option" where
  "find_binary runnable on_path [] = None"
| "find_binary runnable on_path (c # cs) =
     (case runnable c of
        Some p \<Rightarrow> Some p
      | None \<Rightarrow> (case on_path c of Some p \<Rightarrow> Some p | None \<Rightarrow> find_binary runnable on_path cs))"

definition find_server_binary :: "(string \<Rightarrow> string option) \<Rightarrow> (string \<Rightarrow> string option) \<Rightarrow> string option" where
  "find_server_binary runnable on_path = find_binary runnable on_path SERVER_CANDIDATES"

text \<open>\<open>_native_dev\<close> with the binary that was found: the processes it starts, each with its environment.\<close>

type_synonym process = "string list \<times> (string \<times> string) list"

definition native_reactor_cmd :: "string \<Rightarrow> string \<Rightarrow> string \<Rightarrow> string list" where
  "native_reactor_cmd python factory url = [python, ''-m'', ''tape.reactors'', ''--runner-from'', factory, ''--url'', url]"

definition native_dev :: "string \<Rightarrow> string option \<Rightarrow> string option \<Rightarrow> string \<Rightarrow> int \<Rightarrow> TapeProject \<Rightarrow> process list \<times> cli_end" where
  "native_dev python found server_binary project_root port p =
     (case (case str_or_none server_binary of Some b \<Rightarrow> Some b | None \<Rightarrow> found) of
        None \<Rightarrow> ([], CliExit 2)
      | Some binary \<Rightarrow>
          (let addr = ''127.0.0.1:'' @ int_str port; url = ''tape://'' @ addr; store = ''sqlite:'' @ in_dir project_root ''.tape/dev.db'' in
           (([binary, ''--listen'', addr, ''--store'', store],
             [(''TAPE_LISTEN'', addr), (''TAPE_STORE'', store), (''RUST_LOG'', ''tape_server=info'')])
            # (case str_or_none (as_runner_factory (tp_agent p)) of
                 Some factory \<Rightarrow> if enabled_names (ts_reactors (tp_tape p)) = [] then []
                   else [(native_reactor_cmd python factory url, [(''TAPE_URL'', url), (''PYTHONPATH'', project_root)])]
               | None \<Rightarrow> []),
            CliDone)))"

definition docker_dev :: "'w tool_env \<Rightarrow> (string \<Rightarrow> bool) \<Rightarrow> string \<Rightarrow> 'w \<Rightarrow> cli_end \<times> 'w" where
  "docker_dev env exists project_root w =
     (let overlay = in_dir project_root ''docker-compose.tape.yaml'';
          compose = (if exists overlay then overlay else in_dir project_root ''docker-compose.yaml'')
      in if \<not> exists compose then (CliExit 2, w)
         else exit_with (tl_run env project_root [''docker'', ''compose'', ''-f'', compose, ''up'', ''--build''] w))"

section \<open>Properties\<close>

fun written_path :: "file_op \<Rightarrow> string" where
  "written_path (WriteFile p c) = p"
| "written_path (RemoveTree p) = p"
| "written_path (CopyTree s p) = p"

lemma enabled_after_set: "enabled_names (set_enabled wanted r) = filter (\<lambda>n. n \<in> set wanted) REACTOR_NAMES"
  by (simp add: enabled_names_def reactor_of_def set_enabled_def REACTOR_NAMES_def)

lemma enabled_asked:
  "enabled_names (ts_reactors (tp_tape (deploy_project opts p))) =
     (case str_or_none (do_reactors opts) of None \<Rightarrow> enabled_names (ts_reactors (tp_tape p))
      | Some rs \<Rightarrow> filter (\<lambda>n. n \<in> set (wanted_reactors rs)) REACTOR_NAMES)"
  by (simp add: deploy_project_def given_def enabled_after_set set_store_def split: option.split)

lemma reactor_file_eq [simp]: "reactor_file d n = reactor_file d m \<longleftrightarrow> n = m"
  by (simp add: reactor_file_def in_dir_def)

lemma reactor_files_distinct: "distinct (map (reactor_file d) (enabled_names r))"
proof -
  have "distinct (enabled_names r)" by (simp add: enabled_names_def REACTOR_NAMES_def)
  then show ?thesis by (simp add: distinct_map inj_on_def)
qed

lemma server_not_reactor: "in_dir d ''tape-server.service.yaml'' \<noteq> reactor_file d n"
  by (simp add: in_dir_def reactor_file_def)

lemma cloud_run_files:
  assumes "deploy_cloud_run env project_root source_root p out_dir tag skip w = (ops, e, w')"
  shows "if e = CliDone then map written_path ops =
        (if source_root = None then [] else [in_dir out_dir ''tape-server.service.yaml'']) @ map (reactor_file out_dir) (enabled_names (ts_reactors (tp_tape p)))
    else ops = []"
  using assms by (auto simp: deploy_cloud_run_def Let_def comp_def split: if_splits sum.splits prod.splits option.splits)

lemma cloud_run_dies:
  "tl_which env ''gcloud'' = None \<or> gc_project_id (tp_gcp p) = [] \<Longrightarrow> deploy_cloud_run env project_root source_root p out_dir tag skip w = ([], CliExit 2, w)"
  by (auto simp: deploy_cloud_run_def Let_def)

text \<open>
  A Cloud Run deployment writes what was asked for or nothing: when it ends normally there is one
  service file for each reactor of the \<open>--reactors\<close> option (of the project file without it), in the
  fixed order and each once, after the server's exactly when its source is at hand; when a tool is
  missing, the project has no id or a build raises, no file is written.
\<close>

lemma deploy_writes_asked:
  assumes "deploy_gcp env exists chart opts p project_root parents out_dir w = (ops, e, w')" and "do_target opts = ''cloud-run''"
  defines "asked \<equiv> (case str_or_none (do_reactors opts) of None \<Rightarrow> enabled_names (ts_reactors (tp_tape p))
      | Some rs \<Rightarrow> filter (\<lambda>n. n \<in> set (wanted_reactors rs)) REACTOR_NAMES)"
  shows "(if e = CliDone then map written_path ops =
        (if find_server_source_root exists (project_root # parents) = None then [] else [in_dir out_dir ''tape-server.service.yaml''])
        @ map (reactor_file out_dir) asked \<and> distinct (map written_path ops)
     else ops = []) \<and> (tl_which env ''gcloud'' = None \<or> gc_project_id (tp_gcp p) = [] \<longrightarrow> e = CliExit 2 \<and> w' = w)"
proof -
  define src where "src = find_server_source_root exists (project_root # parents)"
  let ?p = "deploy_project opts p"
  have run: "deploy_cloud_run env project_root src ?p out_dir (do_image_tag opts) (do_skip_build opts) w = (ops, e, w')"
    using assms(1,2) by (simp add: deploy_gcp_def Let_def src_def del: find_server_source_root.simps)
  have asked: "enabled_names (ts_reactors (tp_tape ?p)) = asked" unfolding asked_def by (rule enabled_asked)
  have "tp_gcp ?p = tp_gcp p" by (simp add: deploy_project_def given_def set_store_def split: option.split)
  then have "e = CliExit 2 \<and> w' = w" if "tl_which env ''gcloud'' = None \<or> gc_project_id (tp_gcp p) = []"
    using run cloud_run_dies [of env ?p] that by simp
  moreover have "distinct (map (reactor_file out_dir) asked)" using reactor_files_distinct asked by metis
  moreover note cloud_run_files [OF run, unfolded asked] server_not_reactor [of out_dir]
  ultimately show ?thesis unfolding src_def [symmetric] by (auto split: if_splits)
qed

text \<open>The URL of a resolved server is the one Cloud Run reported, with the scheme of the SDK.\<close>

lemma resolved_url:
  assumes "resolve_tape_server_url env p w = ((url, True), w')"
  shows "\<exists>host out rc. py_strip out = ''https://'' @ host \<and> url = ''tapes://'' @ host \<and>
     tl_run env [] (describe_argv (tp_gcp p)) w = (Inr (rc, out), w')"
proof -
  obtain rc out where run: "tl_run env [] (describe_argv (tp_gcp p)) w = (Inr (rc, out), w')"
    and pre: "take 8 (py_strip out) = ''https://''" and url: "url = ''tapes://'' @ drop 8 (py_strip out)"
    using assms by (cases "tl_run env [] (describe_argv (tp_gcp p)) w")
      (auto simp: resolve_tape_server_url_def Let_def split: if_splits sum.splits)
  have "py_strip out = ''https://'' @ drop 8 (py_strip out)" using append_take_drop_id [of 8 "py_strip out"] pre by simp
  with run url show ?thesis by blast
qed

text \<open>The reactor process of native development is started with options it knows.\<close>

lemma native_command_known:
  "take 2 factory \<noteq> ''--'' \<Longrightarrow> unrecognized (drop 3 (native_reactor_cmd python factory (''tape://'' @ addr))) = []"
  by (simp add: native_reactor_cmd_def unrecognized_def REACTOR_OPTIONS_def)

section \<open>Findings\<close>

text \<open>The rendered command of every reactor has an option the reactor process does not know.\<close>

lemma rendered_command_rejected: "''--only'' \<in> set (unrecognized (drop 3 (reactor_cmd p name url)))"
  by (simp add: reactor_cmd_def unrecognized_def REACTOR_OPTIONS_def)

text \<open>The GKE chart pulls another reactor image than the one Cloud Run builds and Terraform expects.\<close>

lemma gke_reactor_image_differs:
  "name \<noteq> ''tape'' \<Longrightarrow> registry_image g pid ''tape-reactor'' tag \<noteq> registry_image g pid (name @ ''-reactor'') tag"
  by (auto simp: registry_image_def append_eq_append_conv2 Cons_eq_append_conv)

text \<open>Names in the \<open>--reactors\<close> option that do not exist are not reported; a typo alone deploys no reactor.\<close>

lemma unknown_reactors_ignored: "set wanted \<inter> set REACTOR_NAMES = {} \<Longrightarrow> enabled_names (set_enabled wanted r) = []"
  by (auto simp: enabled_after_set filter_empty_conv)

text \<open>An existing project file is overwritten, although the command says it leaves it alone.\<close>

lemma enhance_overwrites_tape_yaml:
  assumes "exists project_root" and "[''tape.yaml''] \<in> set files" and "jj_path j ''tape.yaml'' = ''tape.yaml''"
  shows "WriteFile (in_dir project_root ''tape.yaml'') (TextFile (jj_file j [''tape.yaml''])) \<in> set (fst (enhance_run (j, files) exists True c project_root))"
proof -
  have "out_path j project_root [''tape.yaml''] = in_dir project_root ''tape.yaml''"
    using assms(3) by (simp add: out_path_def join_path_def strip_j2_def)
  moreover have "WriteFile (out_path j project_root [''tape.yaml'']) (TextFile (jj_file j [''tape.yaml''])) \<in>
      set (snd (render_tree j files project_root False))" using assms(2) by (simp add: render_tree_def)
  ultimately show ?thesis using assms(1) by (simp add: enhance_run_def)
qed

text \<open>A project name may end in a line feed.\<close>

lemma name_with_newline: "valid_name (''ab'' @ [CHR 10])"
  by code_simp

text \<open>Native development runs every reactor as soon as one is enabled: the others cannot be turned off.\<close>

lemma native_dev_ignores_disabled:
  assumes "enabled_names r \<noteq> []" and "enabled_names (ts_reactors (tp_tape p)) \<noteq> []"
  shows "native_dev python found bin project_root port (p\<lparr>tp_tape := (tp_tape p)\<lparr>ts_reactors := r\<rparr>\<rparr>) = native_dev python found bin project_root port p"
  using assms by (simp add: native_dev_def Let_def split: option.split)

text \<open>The emulator of the project file is spelled with an underscore and never selects Docker.\<close>

lemma emulator_not_recognised:
  assumes "evs_kind (ts_events (tp_tape p)) = ''pubsub_emulator''" and "st_kind (ts_store (tp_tape p)) = ''sqlite''" and "pj_tier (tp_project p) = ''server''"
  shows "dev_run py docker None None None p = DevNative"
  using assms by (simp add: dev_run_def opt_or_def str_or_none_def Let_def)

end
