(* ===== verification/CliChaos.thy ===== *)
theory CliChaos
  imports SdkSnapshot CliDeploy
begin

text \<open>
  The chaos command of the CLI (\<open>commands/chaos.py\<close>): loading a scenario module, running and replaying
  its scenario with the exit codes, the lineage of a run and the scenarios derived from it, and the
  check of the installation.

  Executing a module acts on the world and on the connector registry, where it may register
  connectors; its attributes are what the module defines. What is printed is left out, but for the
  rows of the tables and the shown differences.
\<close>

section \<open>Scenario modules\<close>

type_synonym 'w registry = "(string \<times> 'w sdk_connector) list"

text \<open>A body gets the URL of its client; it gives what it returned or raised and the \<open>run_id\<close> it set.\<close>

type_synonym 'w scenario_body = "string \<Rightarrow> 'w registry \<Rightarrow> 'w \<Rightarrow> ((py_exn + string option) \<times> string option) \<times> 'w"

datatype path_kind = PathMissing | PathDir | PathFile

datatype 'w scenario_attr = NoScenario | NotScenario string | IsScenario "'w SdkScenario"

record 'w scenario_file =
  sf_path :: path_kind
  sf_has_loader :: bool
  sf_exec :: "'w registry \<Rightarrow> 'w \<Rightarrow> (py_exn + unit) \<times> 'w registry \<times> 'w"
  sf_scenario :: "'w scenario_attr"
  sf_body :: "'w scenario_body option"

definition load_scenario_module :: "'w scenario_file \<Rightarrow> 'w registry \<Rightarrow> 'w \<Rightarrow> (cli_end + unit) \<times> 'w registry \<times> 'w" where
  "load_scenario_module f reg w =
     (case sf_path f of
        PathMissing \<Rightarrow> (Inl (CliExit 2), reg, w)
      | PathDir \<Rightarrow> (Inl (CliExit 2), reg, w)
      | PathFile \<Rightarrow>
          if \<not> sf_has_loader f then (Inl (CliExit 2), reg, w)
          else (case sf_exec f reg w of
                  (Inl ex, reg1, w1) \<Rightarrow> (Inl (CliRaised ex), reg1, w1)
                | (Inr (), reg1, w1) \<Rightarrow> (Inr (), reg1, w1)))"

definition scenario_from :: "'w scenario_file \<Rightarrow> cli_end + 'w SdkScenario" where
  "scenario_from f = (case sf_scenario f of IsScenario sc \<Rightarrow> Inr sc | NoScenario \<Rightarrow> Inl (CliExit 2) | NotScenario t \<Rightarrow> Inl (CliExit 2))"

definition body_from :: "'w scenario_file \<Rightarrow> cli_end + 'w scenario_body" where
  "body_from f = (case sf_body f of None \<Rightarrow> Inl (CliExit 2) | Some b \<Rightarrow> Inr b)"

definition default_url :: "string option \<Rightarrow> environ \<Rightarrow> string" where
  "default_url url environment =
     (case nonempty url of Some u \<Rightarrow> u
      | None \<Rightarrow> (case environment ''TAPE_URL'' of Some u \<Rightarrow> u | None \<Rightarrow> ''tape://localhost:7878''))"

text \<open>What \<open>run\<close> and \<open>replay\<close> do first: import the SDK, load the module, take its two attributes.\<close>

definition load_parts ::
    "bool \<Rightarrow> 'w scenario_file \<Rightarrow> 'w registry \<Rightarrow> 'w \<Rightarrow> (cli_end + 'w SdkScenario \<times> 'w scenario_body) \<times> 'w registry \<times> 'w" where
  "load_parts installed f reg w =
     (if \<not> installed then (Inl (CliExit 2), reg, w)
      else (case load_scenario_module f reg w of
              (Inl e, reg1, w1) \<Rightarrow> (Inl e, reg1, w1)
            | (Inr (), reg1, w1) \<Rightarrow>
                (sum_bind (scenario_from f) (\<lambda>sc. sum_bind (body_from f) (\<lambda>b. Inr (sc, b))), reg1, w1)))"

section \<open>Run and replay\<close>

text \<open>How a command ends; a session that cannot be entered lets its error through.\<close>

datatype chaos_end = ChaosEnd cli_end | ChaosRefused tape_error

text \<open>\<open>run\<close>, with the report it prints: what the body raises is caught inside the session.\<close>

definition chaos_cmd_run ::
    "'w chaos_env \<Rightarrow> (rat \<Rightarrow> string) \<Rightarrow> bool \<Rightarrow> environ \<Rightarrow> string option \<Rightarrow> 'w scenario_file \<Rightarrow> 'w registry \<Rightarrow> 'w
     \<Rightarrow> (chaos_end \<times> SdkChaosReport option) \<times> 'w registry \<times> 'w" where
  "chaos_cmd_run ce fmt_g installed environment url f reg w =
     (case load_parts installed f reg w of
        (Inl e, reg1, w1) \<Rightarrow> ((ChaosEnd e, None), reg1, w1)
      | (Inr (sc, b), reg1, w1) \<Rightarrow>
          (case enter_session ce fmt_g sc reg1 of
             Inl e \<Rightarrow> ((ChaosRefused e, None), reg1, w1)
           | Inr s \<Rightarrow>
               (case b (default_url url environment) (ss_registry s) w1 of ((outcome, set_id), w2) \<Rightarrow>
                  (case exit_session sc set_id None s w2 of (s', w3) \<Rightarrow>
                     ((ChaosEnd (if cr_passed (ss_report s') then CliDone else CliExit 1), Some (ss_report s')), ss_registry s', w3)))))"

text \<open>\<open>chaos.scenario(...)\<close> with the seed of the command line.\<close>

definition reseeded :: "int option \<Rightarrow> 'w SdkScenario \<Rightarrow> 'w SdkScenario" where
  "reseeded seed sc =
     (case seed of None \<Rightarrow> sc
      | Some n \<Rightarrow> \<lparr>sc_name = sc_name sc, sc_faults = sc_faults sc, sc_invariants = sc_invariants sc, sc_seed = n, sc_strict_faults = True\<rparr>)"

definition replay_exit :: "replay_end \<Rightarrow> chaos_end" where
  "replay_exit out =
     (case out of Reported rep \<Rightarrow> ChaosEnd (if rp_bit_identical rep then CliDone else CliExit 1)
      | ReplayRaised ex \<Rightarrow> ChaosEnd (CliRaised ex)
      | ReplayNotEntered e \<Rightarrow> ChaosRefused e)"

definition chaos_replay ::
    "'w chaos_env \<Rightarrow> (rat \<Rightarrow> string) \<Rightarrow> (string \<Rightarrow> string \<Rightarrow> 'w \<Rightarrow> (py_exn + JournalEntry list) \<times> 'w) \<Rightarrow> (tup \<Rightarrow> string)
     \<Rightarrow> bool \<Rightarrow> environ \<Rightarrow> string option \<Rightarrow> int option \<Rightarrow> 'w scenario_file \<Rightarrow> 'w registry \<Rightarrow> 'w \<Rightarrow> chaos_end \<times> 'w registry \<times> 'w" where
  "chaos_replay ce fmt_g stream sh installed environment url seed f reg w =
     (case load_parts installed f reg w of
        (Inl e, reg1, w1) \<Rightarrow> (ChaosEnd e, reg1, w1)
      | (Inr (sc, b), reg1, w1) \<Rightarrow>
          (let target = default_url url environment in
           case replay ce fmt_g (reseeded seed sc) \<lparr>rb_body = b target, rb_journal = stream target, rb_show = sh\<rparr> reg1 w1 of
             (out, reg2, w2) \<Rightarrow> (replay_exit out, reg2, w2)))"

text \<open>The lengths, the differences shown and how many more there are, for a report that drifted.\<close>

definition snap_len :: "Snapshot option \<Rightarrow> nat" where
  "snap_len s = (case s of None \<Rightarrow> 0 | Some a \<Rightarrow> length (sp_lines a))"

definition drift_lines :: "ReplayReport \<Rightarrow> nat \<times> nat \<times> string list \<times> nat option" where
  "drift_lines rep = (snap_len (rp_snap_a rep), snap_len (rp_snap_b rep), take 10 (rp_diff_summary rep),
     if length (rp_diff_summary rep) > 10 then Some (length (rp_diff_summary rep) - 10) else None)"

section \<open>Lineage, derivation and the check\<close>

definition EM_DASH_TEXT :: string where
  "EM_DASH_TEXT = [CHR 0xE2, CHR 0x80, CHR 0x94]"

definition lineage_row :: "LineageNode \<Rightarrow> string \<times> string \<times> string \<times> string" where
  "lineage_row n = (int_str (ln_seq n), ln_kind n, int_str (ln_parent_seq n), str_or (ln_breaking_failpoint n) EM_DASH_TEXT)"

definition fetch_graph ::
    "(string \<Rightarrow> string \<Rightarrow> 'w \<Rightarrow> (py_exn + JournalEntry list) \<times> 'w) \<Rightarrow> bool \<Rightarrow> string \<Rightarrow> string \<Rightarrow> 'w \<Rightarrow> (cli_end + LineageNode list) \<times> 'w" where
  "fetch_graph stream installed target run_id w =
     (if \<not> installed then (Inl (CliExit 2), w)
      else (case stream target run_id w of (r, w1) \<Rightarrow> (map_sum CliRaised id (sum_bind r from_run), w1)))"

definition chaos_lineage ::
    "(string \<Rightarrow> string \<Rightarrow> 'w \<Rightarrow> (py_exn + JournalEntry list) \<times> 'w) \<Rightarrow> bool \<Rightarrow> environ \<Rightarrow> string option \<Rightarrow> string \<Rightarrow> 'w
     \<Rightarrow> (cli_end \<times> (string \<times> string \<times> string \<times> string) list) \<times> 'w" where
  "chaos_lineage stream installed environment url run_id w =
     (case fetch_graph stream installed (default_url url environment) run_id w of
        (Inl e, w1) \<Rightarrow> ((e, []), w1)
      | (Inr nodes, w1) \<Rightarrow> ((CliDone, map lineage_row nodes), w1))"

definition derived_row :: "(rat \<Rightarrow> string) \<Rightarrow> 'w SdkScenario \<Rightarrow> string \<times> nat \<times> string" where
  "derived_row fmt_g sc = (sc_name sc, length (sc_faults sc), failpoints_env fmt_g (sc_faults sc))"

definition chaos_derive ::
    "(string \<Rightarrow> string \<Rightarrow> 'w \<Rightarrow> (py_exn + JournalEntry list) \<times> 'w) \<Rightarrow> (rat \<Rightarrow> string) \<Rightarrow> bool \<Rightarrow> environ \<Rightarrow> string option \<Rightarrow> string \<Rightarrow> int \<Rightarrow> 'w
     \<Rightarrow> (cli_end \<times> (string \<times> nat \<times> string) list) \<times> 'w" where
  "chaos_derive stream fmt_g installed environment url run_id max_cut_size w =
     (case fetch_graph stream installed (default_url url environment) run_id w of
        (Inl e, w1) \<Rightarrow> ((e, []), w1)
      | (Inr nodes, w1) \<Rightarrow> ((CliDone, map (derived_row fmt_g) (derive_scenarios ''ldfi'' ([] :: (string \<times> 'w invariant_check) list) max_cut_size nodes)), w1))"

text \<open>\<open>doctor\<close>: the marks it prints and how it ends.\<close>

definition chaos_doctor :: "bool \<Rightarrow> bool \<Rightarrow> bool \<Rightarrow> (string \<Rightarrow> 'w \<Rightarrow> (py_exn + unit) \<times> 'w) \<Rightarrow> environ \<Rightarrow> string option \<Rightarrow> 'w \<Rightarrow> (cli_end \<times> bool list) \<times> 'w" where
  "chaos_doctor importable built_debug built_release reach environment url w =
     (if \<not> importable then ((CliExit 2, [False]), w)
      else (case reach (default_url url environment) w of (r, w1) \<Rightarrow>
              ((CliDone, [True, built_debug \<or> built_release, case r of Inl ex \<Rightarrow> False | Inr x \<Rightarrow> True]), w1)))"

section \<open>Properties\<close>

text \<open>
  A run leaves the registry as the module left it, and its exit code is 0 exactly if no declared
  fault was left out under strict faults and every invariant of the scenario passed.
\<close>

lemma chaos_cmd_run_exact:
  assumes load: "load_parts installed f reg w = (Inr (sc, b), reg1, w1)" and named: "self_named reg1"
  shows "\<exists>s set_id w2 rs rep w'. enter_session ce fmt_g sc reg1 = Inr s \<and>
     chaos_cmd_run ce fmt_g installed environment url f reg w =
       ((ChaosEnd (if cr_passed (ss_report s) \<and> list_all check_held rs then CliDone else CliExit 1), Some rep), reg1, w') \<and>
     check_answers set_id (sc_invariants sc) w2 = (rs, w') \<and>
     cr_invariant_results rep = cr_invariant_results (ss_report s) @ map2 graded (map fst (sc_invariants sc)) rs"
proof -
  obtain s where s: "enter_session ce fmt_g sc reg1 = Inr s" "restored s = reg1" using enter_restores [OF named] by blast
  obtain out set_id w2 where b: "b (default_url url environment) (ss_registry s) w1 = ((out, set_id), w2)"
    by (metis prod.exhaust)
  obtain rs w3 where ans: "check_answers set_id (sc_invariants sc) w2 = (rs, w3)" by (metis prod.exhaust)
  from check_invariants_graded [OF ans] obtain rep where c: "check_invariants set_id (sc_invariants sc) (ss_report s) w2 = (rep, w3)"
    and rep: "cr_invariant_results rep = cr_invariant_results (ss_report s) @ map2 graded (map fst (sc_invariants sc)) rs"
      "cr_passed rep \<longleftrightarrow> cr_passed (ss_report s) \<and> list_all check_held rs" by blast
  have "exit_session sc set_id None s w2 = (s\<lparr>ss_report := rep, ss_registry := reg1\<rparr>, w3)"
    using c s(2) by (simp add: exit_session_def restored_def)
  then have "chaos_cmd_run ce fmt_g installed environment url f reg w =
      ((ChaosEnd (if cr_passed (ss_report s) \<and> list_all check_held rs then CliDone else CliExit 1), Some rep), reg1, w3)"
    using load s(1) b rep(2) by (auto simp: chaos_cmd_run_def)
  with s(1) ans rep(1) show ?thesis by blast
qed

text \<open>
  A replay leaves the registry as the module left it, is never refused by a session, and exits with
  0 exactly if both passes gave a snapshot and the two are equal.
\<close>

lemma replay_keeps:
  assumes "self_named reg" and "replay ce fmt_g sc d reg w = (out, reg', w')"
  shows "reg' = reg" and "out \<noteq> ReplayNotEntered e"
    and "out = Reported rep \<Longrightarrow> rp_bit_identical rep \<longleftrightarrow> (\<exists>a b. rp_snap_a rep = Some a \<and> rp_snap_b rep = Some b \<and> snapshot_eq a b)"
proof -
  obtain p1 reg1 w1 where p1: "replay_pass ce fmt_g sc d 1 reg w = (p1, reg1, w1)" by (metis prod.exhaust)
  obtain p2 reg2 w2 where p2: "replay_pass ce fmt_g sc d 2 reg w1 = (p2, reg2, w2)" by (metis prod.exhaust)
  note passes = first_pass_registry [OF assms(1) p1] first_pass_registry [OF assms(1) p2]
  show "reg' = reg" and "out \<noteq> ReplayNotEntered e"
    and "out = Reported rep \<Longrightarrow> rp_bit_identical rep \<longleftrightarrow> (\<exists>a b. rp_snap_a rep = Some a \<and> rp_snap_b rep = Some b \<and> snapshot_eq a b)"
    using assms(2) p1 p2 passes
    by (auto simp: replay_def first_report_def compared_verdict split: pass_end.splits)
qed

lemma chaos_replay_exact:
  assumes load: "load_parts installed f reg w = (Inr (sc, b), reg1, w1)" and named: "self_named reg1"
    and run: "chaos_replay ce fmt_g stream sh installed environment url seed f reg w = (out, reg', w')"
  shows "reg' = reg1 \<and> (\<forall>e. out \<noteq> ChaosRefused e) \<and>
     (out = ChaosEnd CliDone \<longleftrightarrow>
       (\<exists>rep a c w2. replay ce fmt_g (reseeded seed sc)
            \<lparr>rb_body = b (default_url url environment), rb_journal = stream (default_url url environment), rb_show = sh\<rparr> reg1 w1 = (Reported rep, reg1, w2) \<and>
          rp_snap_a rep = Some a \<and> rp_snap_b rep = Some c \<and> snapshot_eq a c))"
proof -
  let ?r = "replay ce fmt_g (reseeded seed sc)
            \<lparr>rb_body = b (default_url url environment), rb_journal = stream (default_url url environment), rb_show = sh\<rparr> reg1 w1"
  obtain o1 reg2 w2 where r: "?r = (o1, reg2, w2)" by (metis prod.exhaust)
  note keeps = replay_keeps [OF named r]
  have "out = replay_exit o1" "reg' = reg2" using run load r by (simp_all add: chaos_replay_def)
  then show ?thesis using keeps r by (cases o1) (auto simp: replay_exit_def)
qed

text \<open>Scenarios are derived for one entry each, or for pairs of entries with different failpoints.\<close>

lemma derived_sizes:
  assumes "sc \<in> set (derive_scenarios base invs n nodes)"
  shows "length (sc_faults sc) = 1 \<or> n \<ge> 2 \<and> length (sc_faults sc) = 2"
proof -
  have pairs: "c \<in> set (pair_cuts ns) \<Longrightarrow> length c = 2" for c ns
    by (induction ns rule: pair_cuts.induct) auto
  show ?thesis using assms
    by (auto simp: derive_scenarios_def minimal_cuts_def cut_scenario_def split: if_splits dest: pairs)
qed

lemma derived_none_iff: "derive_scenarios base invs n nodes = [] \<longleftrightarrow> list_all (\<lambda>x. ln_breaking_failpoint x = []) nodes"
proof -
  have none: "cut_candidates nodes = [] \<longleftrightarrow> list_all (\<lambda>x. ln_breaking_failpoint x = []) nodes"
    by (auto simp: cut_candidates_def filter_empty_conv list_all_iff)
  show ?thesis by (auto simp: derive_scenarios_def minimal_cuts_def none [symmetric])
qed

section \<open>Findings\<close>

text \<open>A scenario whose body raises passes at the command line, while \<open>run_scenario\<close> lets the exception through.\<close>

lemma raising_body_passes:
  assumes load: "load_parts installed f reg w = (Inr (sc, b), reg1, w1)"
    and calm: "sc_faults sc = []" "sc_invariants sc = []"
    and raises: "\<And>u r v. b u r v = ((Inl ex, None), v)"
  shows "fst (fst (chaos_cmd_run ce fmt_g installed environment url f reg w)) = ChaosEnd CliDone"
    and "fst (run_scenario ce fmt_g sc (\<lambda>r v. case b u r v of ((out, i), v') \<Rightarrow> ((case out of Inl x \<Rightarrow> Some x | Inr t \<Rightarrow> None, i), v')) reg1 w1) = BodyRaised ex"
proof -
  have "enter_session ce fmt_g sc reg1 = Inr (new_session fmt_g sc reg1)"
    by (simp add: enter_session_def apply_connector_faults_def calm unaimed_def targeted_def tool_scoped_def target_names_def Let_def)
  then show "fst (fst (chaos_cmd_run ce fmt_g installed environment url f reg w)) = ChaosEnd CliDone"
    and "fst (run_scenario ce fmt_g sc (\<lambda>r v. case b u r v of ((out, i), v') \<Rightarrow> ((case out of Inl x \<Rightarrow> Some x | Inr t \<Rightarrow> None, i), v')) reg1 w1) = BodyRaised ex"
    using load raises calm(2) by (simp_all add: chaos_cmd_run_def run_scenario_def exit_session_def new_session_def)
qed

text \<open>A seed on the command line turns strict faults on for a scenario that declared them off.\<close>

lemma seed_makes_strict: "sc_strict_faults (reseeded (Some n) sc)"
  by (simp add: reseeded_def)

end
