(* ===== verification/CliDoctor.thy ===== *)
theory CliDoctor
  imports ServiceSteps CliDeploy SdkSnapshot
begin

text \<open>
  The diagnosis commands of the CLI: \<open>commands/doctor.py\<close> with its checks and its live triage over a
  server or an embedded database, \<open>commands/status.py\<close>, \<open>commands/logs.py\<close> and \<open>commands/migrate.py\<close>.

  A check is a name, a verdict and a detail; hints, colours and table layout are left out. The triage
  over a server takes any client; the one over a database runs on the service model.
\<close>

section \<open>Triage\<close>

record ('r, 'e, 'o, 't) doctor_snapshot =
  ds_runs_to_recover :: "'r list"
  ds_effects_pending_stale :: "'e list"
  ds_effects_unknown :: "'e list"
  ds_obligations_stuck :: "'o list"
  ds_obligations_pending :: "'o list"
  ds_outbox_ready :: "'e list"
  ds_timers_due :: "'t list"
  ds_error :: string

record ('w, 'r, 'e, 'o, 't) doctor_client =
  dr_list_runs_to_recover :: "int \<Rightarrow> 'w \<Rightarrow> (py_exn + 'r list) \<times> 'w"
  dr_list_pending_effects :: "int \<Rightarrow> bool \<Rightarrow> bool \<Rightarrow> int \<Rightarrow> 'w \<Rightarrow> (py_exn + 'e list) \<times> 'w"
  dr_list_unresolved_obligations :: "int \<Rightarrow> bool \<Rightarrow> bool \<Rightarrow> bool \<Rightarrow> 'w \<Rightarrow> (py_exn + 'o list) \<times> 'w"
  dr_list_effects_to_dispatch :: "int \<Rightarrow> int \<Rightarrow> 'w \<Rightarrow> (py_exn + 'e list) \<times> 'w"
  dr_list_due_timers :: "int \<Rightarrow> int \<Rightarrow> bool \<Rightarrow> 'w \<Rightarrow> (py_exn + 't list) \<times> 'w"

text \<open>\<open>_safe\<close>: a call that raises gives no rows and one part of the error text.\<close>

definition safe_call :: "string \<Rightarrow> (py_exn + 'x list) \<times> 'w \<Rightarrow> string list \<Rightarrow> 'x list \<times> string list \<times> 'w" where
  "safe_call label rw errs = (case rw of
     (Inr xs, w) \<Rightarrow> (xs, errs, w)
   | (Inl ex, w) \<Rightarrow> ([], errs @ [label @ '': '' @ exn_msg ex], w))"

fun join_errors :: "string list \<Rightarrow> string" where
  "join_errors [] = []"
| "join_errors [e] = e"
| "join_errors (e # es) = e @ ''; '' @ join_errors es"

definition doctor_take_snapshot :: "('w, 'r, 'e, 'o, 't) doctor_client \<Rightarrow> int \<Rightarrow> int \<Rightarrow> 'w \<Rightarrow> ('r, 'e, 'o, 't) doctor_snapshot \<times> 'w" where
  "doctor_take_snapshot cl pending_threshold_ms now_ms w =
     (case safe_call ''list_runs_to_recover'' (dr_list_runs_to_recover cl 200 w) [] of (runs, e1, w1) \<Rightarrow>
      case safe_call ''list_pending_effects(pending)'' (dr_list_pending_effects cl (now_ms - pending_threshold_ms) True False 200 w1) e1 of (stale, e2, w2) \<Rightarrow>
      case safe_call ''list_pending_effects(unknown)'' (dr_list_pending_effects cl 0 False True 200 w2) e2 of (unknowns, e3, w3) \<Rightarrow>
      case safe_call ''list_unresolved_obligations(stuck)'' (dr_list_unresolved_obligations cl 200 False True False w3) e3 of (stuck, e4, w4) \<Rightarrow>
      case safe_call ''list_unresolved_obligations(pending)'' (dr_list_unresolved_obligations cl 200 True False True w4) e4 of (pend, e5, w5) \<Rightarrow>
      case safe_call ''list_effects_to_dispatch'' (dr_list_effects_to_dispatch cl now_ms 200 w5) e5 of (outbox, e6, w6) \<Rightarrow>
      case safe_call ''list_due_timers'' (dr_list_due_timers cl now_ms 200 False w6) e6 of (timers, e7, w7) \<Rightarrow>
        (\<lparr>ds_runs_to_recover = runs, ds_effects_pending_stale = stale, ds_effects_unknown = unknowns, ds_obligations_stuck = stuck,
          ds_obligations_pending = pend, ds_outbox_ready = outbox, ds_timers_due = timers, ds_error = join_errors e7\<rparr>, w7))"

definition exit_code_from_snapshot :: "('r, 'e, 'o, 't) doctor_snapshot \<Rightarrow> int" where
  "exit_code_from_snapshot s = (if ds_obligations_stuck s \<noteq> [] then 2 else if ds_effects_unknown s \<noteq> [] then 1 else 0)"

text \<open>The triage of an embedded database; the service reads the clock again where no time is passed.\<close>

definition adk_snapshot :: "int \<Rightarrow> int \<Rightarrow> int \<Rightarrow> db \<Rightarrow> (unit, EffectRecord, ObligationRecord, TimerRecord) doctor_snapshot \<times> db" where
  "adk_snapshot pending_threshold_ms now clk d =
     (case list_due_timers now 200 False clk d of (timers, d1) \<Rightarrow>
        (\<lparr>ds_runs_to_recover = [],
          ds_effects_pending_stale = list_pending_effects (now - pending_threshold_ms) True False 200 d,
          ds_effects_unknown = list_pending_effects 0 False True 200 d,
          ds_obligations_stuck = list_unresolved_obligations 0 200 False True False clk d1,
          ds_obligations_pending = list_unresolved_obligations 0 200 True False True clk d1,
          ds_outbox_ready = list_effects_to_dispatch now [] 200 clk d,
          ds_timers_due = timers, ds_error = []\<rparr>, d1))"

section \<open>The report\<close>

text \<open>An age, with its unit; the digits printed are left out.\<close>

datatype age = NoAge | Millis int | Seconds rat | Minutes rat | Hours rat

definition age_ms :: "int \<Rightarrow> int \<Rightarrow> age" where
  "age_ms ts_ms now_ms =
     (if ts_ms \<le> 0 then NoAge
      else (let d = max 0 (now_ms - ts_ms) in
            if d < 1000 then Millis d
            else if d < 60000 then Seconds (of_int d / 1000)
            else if d < 3600000 then Minutes (of_int d / 60000)
            else Hours (of_int d / 3600000)))"

definition row_good :: "nat \<Rightarrow> nat \<Rightarrow> bool" where
  "row_good danger_above n = (if danger_above = 0 then n = 0 else n \<le> danger_above)"

text \<open>The counts of the summary, each with its verdict.\<close>

definition summary_rows :: "('r, 'e, 'o, 't) doctor_snapshot \<Rightarrow> (string \<times> nat \<times> bool) list" where
  "summary_rows s =
     (let row = (\<lambda>label n danger. (label, n, row_good danger n)) in
      [row ''runs needing recovery'' (length (ds_runs_to_recover s)) 0,
       row ''effects UNKNOWN'' (length (ds_effects_unknown s)) 0,
       row ''effects PENDING'' (length (ds_effects_pending_stale s)) 0,
       row ''obligations STUCK'' (length (ds_obligations_stuck s)) 0,
       row ''obligations PENDING/expired'' (length (ds_obligations_pending s)) 10,
       row ''outbox dispatch-ready'' (length (ds_outbox_ready s)) 20,
       row ''timers overdue'' (length (ds_timers_due s)) 5])"

definition EFFECT_STATUS_RMAP :: "(string \<times> int) list" where
  "EFFECT_STATUS_RMAP = [(''unspecified'', 0), (''pending'', 1), (''confirmed'', 2), (''failed'', 3), (''unknown'', 4)]"

definition OBLIGATION_STATUS_RMAP :: "(string \<times> int) list" where
  "OBLIGATION_STATUS_RMAP = [(''unspecified'', 0), (''pending'', 1), (''committed'', 2), (''compensated'', 3), (''stuck'', 4)]"

definition EFFECT_STATUS :: "(int \<times> string) list" where
  "EFFECT_STATUS = [(0, ''UNSPECIFIED''), (1, ''PENDING''), (2, ''CONFIRMED''), (3, ''FAILED''), (4, ''UNKNOWN'')]"

definition OBLIGATION_STATUS :: "(int \<times> string) list" where
  "OBLIGATION_STATUS = [(0, ''UNSPECIFIED''), (1, ''PENDING''), (2, ''COMMITTED''), (3, ''COMPENSATED''), (4, ''STUCK'')]"

definition label_of :: "(int \<times> string) list \<Rightarrow> int \<Rightarrow> string" where
  "label_of labels n = (case map_of labels n of Some l \<Rightarrow> l | None \<Rightarrow> int_str n)"

definition code_of :: "(string \<times> int) list \<Rightarrow> string \<Rightarrow> int" where
  "code_of rmap s = (case map_of rmap s of Some n \<Rightarrow> n | None \<Rightarrow> 0)"

text \<open>The rows of an embedded report: key, status, tool, business key, age and invocation.\<close>

definition effect_row :: "int \<Rightarrow> EffectRecord \<Rightarrow> string \<times> string \<times> string \<times> string option \<times> age \<times> string" where
  "effect_row now_ms e = (e_idempotency_key e, label_of EFFECT_STATUS (code_of EFFECT_STATUS_RMAP (e_status e)), e_tool_name e,
     str_or_none (e_business_key e), age_ms (e_ts_ms e) now_ms, e_invocation_id e)"

definition effect_rows :: "int \<Rightarrow> (unit, EffectRecord, 'o, 't) doctor_snapshot \<Rightarrow> (string \<times> string \<times> string \<times> string option \<times> age \<times> string) list" where
  "effect_rows now_ms s = map (effect_row now_ms) (ds_effects_unknown s @ ds_effects_pending_stale s)"

definition obligation_row :: "int \<Rightarrow> ObligationRecord \<Rightarrow> string \<times> string \<times> string \<times> int \<times> int \<times> age \<times> string" where
  "obligation_row now_ms b = (o_kind b, label_of OBLIGATION_STATUS (code_of OBLIGATION_STATUS_RMAP (o_status b)), o_effect_key b,
     o_attempts b, o_max_attempts b, age_ms (o_ts_ms b) now_ms, o_invocation_id b)"

definition obligation_rows :: "int \<Rightarrow> (unit, 'e, ObligationRecord, 't) doctor_snapshot \<Rightarrow> (string \<times> string \<times> string \<times> int \<times> int \<times> age \<times> string) list" where
  "obligation_rows now_ms s = map (obligation_row now_ms) (ds_obligations_stuck s @ ds_obligations_pending s)"

definition timer_row :: "int \<Rightarrow> TimerRecord \<Rightarrow> string \<times> string \<times> age \<times> string" where
  "timer_row now_ms tm = (t_kind tm, t_timer_id tm, age_ms 0 (max 0 (now_ms - t_fire_at_ms tm)), t_session_id tm)"

text \<open>A refresh of the watch: the report pulled last, and when the next pull is due.\<close>

definition poll_server :: "(rat \<Rightarrow> 'w \<Rightarrow> 's \<times> 'w) \<Rightarrow> rat \<Rightarrow> rat \<Rightarrow> 's \<times> rat \<Rightarrow> 'w \<Rightarrow> ('s \<times> rat) \<times> 'w" where
  "poll_server pull interval now p w =
     (if now \<ge> snd p then (case pull now w of (s, w') \<Rightarrow> ((s, now + interval), w')) else (p, w))"

definition poll_db :: "(rat \<Rightarrow> 'w \<Rightarrow> (py_exn + 's) \<times> 'w) \<Rightarrow> rat \<Rightarrow> rat \<Rightarrow> 's \<times> rat \<Rightarrow> 'w \<Rightarrow> ('s \<times> rat) \<times> 'w" where
  "poll_db pull interval now p w =
     (if now \<ge> snd p then (case pull now w of (Inr s, w') \<Rightarrow> ((s, now + interval), w') | (Inl ex, w') \<Rightarrow> ((fst p, now + interval), w'))
      else (p, w))"

section \<open>Where to look\<close>

text \<open>The project is what loading the project file gave, if anything.\<close>

definition resolve_server_url :: "string option \<Rightarrow> environ \<Rightarrow> py_exn + TapeProject \<Rightarrow> string" where
  "resolve_server_url url_flag env project =
     (case str_or_none url_flag of
        Some u \<Rightarrow> u
      | None \<Rightarrow> (case str_or_none (env ''TAPE_URL'') of
                  Some u \<Rightarrow> u
                | None \<Rightarrow> (case project of Inr p \<Rightarrow> ts_url (tp_tape p) | Inl ex \<Rightarrow> ''tape://localhost:7878'')))"

datatype live_target = LiveDies | LiveDb string | LiveServer string

definition live_target_of :: "string option \<Rightarrow> string option \<Rightarrow> environ \<Rightarrow> py_exn + TapeProject \<Rightarrow> live_target" where
  "live_target_of url db_url env project =
     (case (case str_or_none db_url of Some u \<Rightarrow> Some u | None \<Rightarrow> str_or_none (env ''TAPE_ADK_DB_URL'')) of
        Some u \<Rightarrow> if str_or_none url \<noteq> None then LiveDies else LiveDb u
      | None \<Rightarrow> LiveServer (resolve_server_url url env project))"

section \<open>Checks\<close>

record CheckResult =
  ck_name :: string
  ck_ok :: bool
  ck_detail :: string

definition check_result :: "string \<Rightarrow> bool \<Rightarrow> string \<Rightarrow> CheckResult" where
  "check_result name good detail = \<lparr>ck_name = name, ck_ok = good, ck_detail = detail\<rparr>"

text \<open>What the checks find out about the machine.\<close>

record machine =
  mc_python :: "int \<times> int \<times> int"
  mc_import_adk :: "py_exn option"
  mc_import_tape :: "py_exn option"
  mc_which :: "string \<Rightarrow> string option"
  mc_connect :: "string \<Rightarrow> string \<Rightarrow> py_exn option"
  mc_environ :: environ
  mc_adc :: "py_exn + string"
  mc_service_usage :: "py_exn + (string \<Rightarrow> py_exn + string)"
  mc_agents_yaml :: bool

definition python_at_least :: "int \<times> int \<times> int \<Rightarrow> int \<times> int \<Rightarrow> bool" where
  "python_at_least v m = (case (v, m) of ((a, b, c), (x, y)) \<Rightarrow> a > x \<or> (a = x \<and> b \<ge> y))"

definition check_python :: "machine \<Rightarrow> CheckResult" where
  "check_python m = (case mc_python m of (a, b, c) \<Rightarrow>
     check_result ''Python'' (python_at_least (mc_python m) (3, 10)) (int_str a @ ''.'' @ int_str b @ ''.'' @ int_str c))"

definition check_import :: "string \<Rightarrow> py_exn option \<Rightarrow> CheckResult" where
  "check_import name r = (case r of None \<Rightarrow> check_result name True [] | Some ex \<Rightarrow> check_result name False (exn_msg ex))"

definition check_which :: "machine \<Rightarrow> string \<Rightarrow> string \<Rightarrow> CheckResult" where
  "check_which m name cmd = (case str_or_none (mc_which m cmd) of Some p \<Rightarrow> check_result name True p | None \<Rightarrow> check_result name False [])"

text \<open>The address that is tried: the host and the port as text.\<close>

definition server_endpoint :: "string \<Rightarrow> string \<times> string" where
  "server_endpoint url =
     (let u = replace_all ''grpc://'' [] (replace_all ''tapes://'' [] (replace_all ''tape://'' [] url)) in
      case py_partition (CHR '':'') u of (host, _, port) \<Rightarrow>
        (host, str_or (hd (split_on (CHR ''/'') port)) (if is_infix ''tapes://'' url then ''443'' else ''7878'')))"

definition check_tape_server :: "machine \<Rightarrow> TapeProject \<Rightarrow> CheckResult" where
  "check_tape_server m p =
     (case server_endpoint (ts_url (tp_tape p)) of (host, port) \<Rightarrow>
        (let name = ''Tape server '' @ ts_url (tp_tape p) in
         case mc_connect m host port of None \<Rightarrow> check_result name True [] | Some ex \<Rightarrow> check_result name False (exn_msg ex)))"

text \<open>A value is shown up to 20 characters, with an ellipsis (its bytes) when there are more.\<close>

definition check_env_var :: "machine \<Rightarrow> string \<Rightarrow> bool \<Rightarrow> CheckResult" where
  "check_env_var m name required =
     (case str_or_none (mc_environ m name) of
        Some v \<Rightarrow> check_result name True (''set to '' @ take 20 v @ (if length v > 20 then [CHR 0xE2, CHR 0x80, CHR 0xA6] else []))
      | None \<Rightarrow> check_result name (\<not> required) ''unset'')"

definition check_adc :: "machine \<Rightarrow> CheckResult" where
  "check_adc m = (case mc_adc m of Inr d \<Rightarrow> check_result ''Application Default Credentials'' True d
     | Inl ex \<Rightarrow> check_result ''Application Default Credentials'' False (exn_msg ex))"

definition check_gcp_apis :: "machine \<Rightarrow> string \<Rightarrow> string list \<Rightarrow> CheckResult list" where
  "check_gcp_apis m project_id apis =
     (if project_id = [] then [check_result ''GCP APIs'' False ''no project_id set'']
      else (case mc_service_usage m of
              Inl ex \<Rightarrow> [check_result ''GCP APIs'' False (exn_msg ex)]
            | Inr get_service \<Rightarrow>
                map (\<lambda>api. case get_service (''projects/'' @ project_id @ ''/services/'' @ api) of
                             Inr state \<Rightarrow> check_result (''API '' @ api) (state = ''State.ENABLED'' \<or> is_infix ''ENABLED'' state) []
                           | Inl ex \<Rightarrow> check_result (''API '' @ api) False (exn_msg ex)) apis))"

definition print_results :: "CheckResult list \<Rightarrow> nat" where
  "print_results rs = length (filter (\<lambda>r. \<not> ck_ok r) rs)"

definition local_results :: "machine \<Rightarrow> TapeProject option \<Rightarrow> CheckResult list" where
  "local_results m project =
     [check_python m, check_import ''ADK'' (mc_import_adk m), check_import ''Tape SDK'' (mc_import_tape m),
      check_which m ''Docker'' ''docker'', check_which m ''Cargo'' ''cargo'']
     @ (case project of
          None \<Rightarrow> []
        | Some p \<Rightarrow> [check_tape_server m p, check_env_var m ''TAPE_URL'' False]
            @ (if st_kind (ts_store (tp_tape p)) \<noteq> ''sqlite'' then [check_env_var m ''TAPE_STORE'' False] else []))"

definition gcp_apis :: "TapeProject option \<Rightarrow> string list" where
  "gcp_apis project =
     [''run.googleapis.com'', ''artifactregistry.googleapis.com'', ''secretmanager.googleapis.com'']
     @ (case project of
          None \<Rightarrow> []
        | Some p \<Rightarrow>
            (let store = st_kind (ts_store (tp_tape p)) in
             (if evs_kind (ts_events (tp_tape p)) = ''pubsub'' then [''pubsub.googleapis.com''] else [])
             @ (if store = ''alloydb'' then [''alloydb.googleapis.com''] else [])
             @ (if store = ''bigtable'' then [''bigtable.googleapis.com''] else [])
             @ (if store = ''spanner'' then [''spanner.googleapis.com''] else [])))"

definition gcp_results :: "machine \<Rightarrow> TapeProject option \<Rightarrow> CheckResult list" where
  "gcp_results m project =
     (let project_id = str_or (case project of Some p \<Rightarrow> gc_project_id (tp_gcp p) | None \<Rightarrow> [])
            (case mc_environ m ''GOOGLE_CLOUD_PROJECT'' of Some v \<Rightarrow> v | None \<Rightarrow> []) in
      check_which m ''gcloud installed'' ''gcloud'' # check_adc m # check_gcp_apis m project_id (gcp_apis project))"

definition EM_DASH :: string where
  "EM_DASH = [CHR 0xE2, CHR 0x80, CHR 0x94]"

definition agents_results :: "machine \<Rightarrow> CheckResult list" where
  "agents_results m = (if mc_agents_yaml m then [check_result ''agents.yaml present'' True ''Tape will live alongside your agents-cli scaffold.'']
     else [check_result ''agents.yaml present'' False (''this is not an agents-cli project '' @ EM_DASH @ '' that'' @ [CHR 39] @ ''s fine.'')])"

text \<open>
  The tenancy section. \<open>is_hard\<close> compares by identity with the member of the enumeration, and the mode
  of the project file is a plain string.
\<close>

datatype mode_value = ModeMember TenancyMode | ModeText string

definition tenancy_warnings :: "mode_value \<Rightarrow> string \<Rightarrow> string list" where
  "tenancy_warnings mode tenant_id = (case mode of
     ModeMember m \<Rightarrow> warn_if_hard_but_unenforced \<lparr>tn_mode = m, tn_tenant_id = tenant_id\<rparr>
   | ModeText s \<Rightarrow> [])"

text \<open>The run without \<open>--live\<close>: how many checks failed, the warnings and the exit code.\<close>

definition doctor_run :: "machine \<Rightarrow> TapeProject option \<Rightarrow> bool \<Rightarrow> bool \<Rightarrow> bool \<Rightarrow> nat \<times> string list \<times> int" where
  "doctor_run m project local gcp agents_cli_aware =
     (let fails = (if local then print_results (local_results m project) else 0)
                + (if gcp then print_results (gcp_results m project) else 0)
                + (if project \<noteq> None \<and> agents_cli_aware then print_results (agents_results m) else 0);
          warnings = (case project of
            Some p \<Rightarrow> if ty_mode (tp_tenancy p) = ''hard_multi_tenant''
                       then tenancy_warnings (ModeText (ty_mode (tp_tenancy p))) (ty_tenant_id (tp_tenancy p)) else []
          | None \<Rightarrow> [])
      in (fails, warnings, if fails \<noteq> 0 then 1 else 0))"

section \<open>Other commands\<close>

text \<open>\<open>die\<close> takes a message and an exit code; a keyword argument \<open>hint\<close> is a \<open>TypeError\<close>.\<close>

definition die_with_hint :: cli_end where
  "die_with_hint = CliRaised (PyExn ''TypeError'' (''die() got an unexpected keyword argument '' @ [CHR 39] @ ''hint'' @ [CHR 39]))"

definition migrate_run :: "'w tool_env \<Rightarrow> environ \<Rightarrow> string option \<Rightarrow> bool \<Rightarrow> string option \<Rightarrow> TapeProject \<Rightarrow> 'w \<Rightarrow> cli_end \<times> 'w" where
  "migrate_run env environment store dry_run server_binary p w =
     (let target_store = opt_or store (opt_or (st_url (ts_store (tp_tape p))) (opt_or (environment ''TAPE_STORE'') [])) in
      if target_store = [] then (CliExit 2, w)
      else (case (case str_or_none server_binary of Some b \<Rightarrow> Some b | None \<Rightarrow> str_or_none (tl_which env ''tape-server'')) of
              None \<Rightarrow> (die_with_hint, w)
            | Some binary \<Rightarrow>
                if dry_run then (CliExit 0, w)
                else (case exit_with (tl_run env [] [binary, ''--migrate'', ''--store'', target_store] w) of
                        (CliExit rc, w1) \<Rightarrow> (if rc \<noteq> 0 then CliExit rc else CliDone, w1)
                      | (e, w1) \<Rightarrow> (e, w1))))"

definition logs_cmd :: "bool \<Rightarrow> string option \<Rightarrow> int \<Rightarrow> string \<Rightarrow> string list" where
  "logs_cmd follow service limit project_id =
     (let name_filter = (case str_or_none service of
            Some s \<Rightarrow> ''resource.labels.service_name=\"'' @ s @ ''\"''
          | None \<Rightarrow> ''resource.labels.service_name=~\"^tape-\"'');
          log_filter = ''resource.type=\"cloud_run_revision\" AND '' @ name_filter;
          proj = ''--project='' @ project_id
      in if follow then [''gcloud'', ''alpha'', ''logging'', ''tail'', log_filter, proj]
         else [''gcloud'', ''logging'', ''read'', log_filter, proj, ''--limit='' @ int_str limit,
               ''--format=value(timestamp,resource.labels.service_name,textPayload,jsonPayload.msg)''])"

definition logs_run :: "'w tool_env \<Rightarrow> bool \<Rightarrow> string option \<Rightarrow> int \<Rightarrow> TapeProject \<Rightarrow> 'w \<Rightarrow> cli_end \<times> 'w" where
  "logs_run env follow service limit p w =
     (if tl_which env ''gcloud'' = None \<or> gc_project_id (tp_gcp p) = [] then (CliExit 2, w)
      else exit_with (tl_run env [] (logs_cmd follow service limit (gc_project_id (tp_gcp p))) w))"

definition status_run ::
    "(int \<Rightarrow> 'w \<Rightarrow> (py_exn + 'r list) \<times> 'w) \<Rightarrow> (int \<Rightarrow> bool \<Rightarrow> bool \<Rightarrow> int \<Rightarrow> 'w \<Rightarrow> (py_exn + 'e list) \<times> 'w) \<Rightarrow> bool \<Rightarrow> int \<Rightarrow> 'w \<Rightarrow>
     (cli_end + 'r list \<times> 'e list) \<times> 'w" where
  "status_run list_runs list_pending installed limit w =
     (if \<not> installed then (Inl die_with_hint, w)
      else (case list_runs limit w of
              (Inl ex, w1) \<Rightarrow> (Inl (CliExit 2), w1)
            | (Inr runs, w1) \<Rightarrow>
                (case list_pending 0 True True limit w1 of
                   (Inl ex, w2) \<Rightarrow> (Inl (CliExit 2), w2)
                 | (Inr effects, w2) \<Rightarrow> (Inr (runs, effects), w2))))"

section \<open>Properties\<close>

lemma order_limit_nil: "0 < n \<Longrightarrow> order_limit k n rs = [] \<longleftrightarrow> rs = []"
  using length_order_limit [of k n rs] by (cases rs) auto

lemma unknown_listed: "list_pending_effects 0 False True 200 d = [] \<longleftrightarrow> (\<forall>e \<in> set (db_effects d). e_status e \<noteq> EffectStatus_UNKNOWN)"
  by (simp add: list_pending_effects_def order_limit_nil filter_empty_conv pending_filter_def)

lemma stuck_listed:
  "list_unresolved_obligations now 200 False True False clk d = [] \<longleftrightarrow> (\<forall>b \<in> set (db_obligations d). o_status b \<noteq> ObligationStatus_STUCK)"
  by (simp add: list_unresolved_obligations_def Let_def order_limit_nil filter_empty_conv)

text \<open>
  The triage of an embedded database raises the right alarm and changes nothing: its exit code is
  2 exactly when some obligation of the database is stuck, otherwise 1 exactly when some effect is
  unknown, and otherwise 0, whatever the clock and the threshold are and however many rows there
  are; and the database it leaves is the one it found.
\<close>

lemma doctor_exit_exact:
  "case adk_snapshot pending_threshold_ms now clk d of (s, d') \<Rightarrow>
     exit_code_from_snapshot s =
       (if list_ex (\<lambda>b. o_status b = ObligationStatus_STUCK) (db_obligations d) then 2
        else if list_ex (\<lambda>e. e_status e = EffectStatus_UNKNOWN) (db_effects d) then 1 else 0) \<and> d' = d"
  by (auto simp: adk_snapshot_def list_due_timers_def Let_def exit_code_from_snapshot_def unknown_listed stuck_listed list_ex_iff)

text \<open>Without an error text every list of a server triage is what the server answered.\<close>

lemma safe_call_errs: "safe_call label rw errs = (xs, errs', w) \<Longrightarrow> errs' = [] \<Longrightarrow> errs = [] \<and> rw = (Inr xs, w)"
  by (auto simp: safe_call_def split: prod.splits sum.splits)

text \<open>The status shown for a row of the database is its status.\<close>

lemma effect_label_exact:
  assumes "e_status e \<in> {EffectStatus_PENDING, EffectStatus_CONFIRMED, EffectStatus_FAILED, EffectStatus_UNKNOWN}"
  shows "fst (snd (effect_row now e)) = ascii_upper (e_status e)"
proof -
  have "list_all (\<lambda>s. label_of EFFECT_STATUS (code_of EFFECT_STATUS_RMAP s) = ascii_upper s) [''pending'', ''confirmed'', ''failed'', ''unknown'']"
    by code_simp
  with assms show ?thesis
    by (auto simp: effect_row_def EffectStatus_PENDING_def EffectStatus_CONFIRMED_def EffectStatus_FAILED_def EffectStatus_UNKNOWN_def)
qed

text \<open>Pulls of a watch are at least an interval apart, and a refresh in between shows the last one.\<close>

lemma poll_spaced:
  assumes "poll_server pull interval now p w = (p', w')" and "later < now + interval" and "snd p \<le> now"
  shows "poll_server pull interval later p' w' = (p', w')"
  using assms by (auto simp: poll_server_def split: prod.splits)

section \<open>Findings\<close>

text \<open>A server that cannot be reached looks healthy: every call raises, every count is good, the exit code is 0.\<close>

lemma unreachable_server_healthy:
  assumes "\<And>n w. dr_list_runs_to_recover cl n w = (Inl ex, w)" and "\<And>a b c n w. dr_list_pending_effects cl a b c n w = (Inl ex, w)"
    and "\<And>n a b c w. dr_list_unresolved_obligations cl n a b c w = (Inl ex, w)" and "\<And>t n w. dr_list_effects_to_dispatch cl t n w = (Inl ex, w)"
    and "\<And>t n c w. dr_list_due_timers cl t n c w = (Inl ex, w)"
  shows "case doctor_take_snapshot cl threshold now w of (s, w') \<Rightarrow>
     exit_code_from_snapshot s = 0 \<and> list_all (\<lambda>(label, n, good). good) (summary_rows s) \<and> ds_error s \<noteq> []"
  using assms by (simp add: doctor_take_snapshot_def safe_call_def exit_code_from_snapshot_def summary_rows_def row_good_def)

text \<open>The overdue column of the timers is always empty.\<close>

lemma overdue_never_shown: "fst (snd (snd (timer_row now tm))) = NoAge"
  by (simp add: timer_row_def age_ms_def)

text \<open>A project that asks for hard tenancy gets no warning.\<close>

lemma hard_tenancy_not_warned: "fst (snd (doctor_run m project local gcp aware)) = []"
  by (simp add: doctor_run_def Let_def tenancy_warnings_def split: option.split)

text \<open>The optional Cargo, and the advisory check for another tool's file, make the command fail.\<close>

lemma optional_tool_fails_doctor:
  assumes "mc_which m ''cargo'' = None"
  shows "snd (snd (doctor_run m project True gcp aware)) = 1"
  using assms by (simp add: doctor_run_def Let_def local_results_def print_results_def check_which_def str_or_none_def check_result_def)

lemma advisory_check_fails_doctor:
  assumes "\<not> mc_agents_yaml m"
  shows "snd (snd (doctor_run m (Some p) False False True)) = 1"
  using assms by (simp add: doctor_run_def Let_def agents_results_def print_results_def check_result_def)

text \<open>A URL on the command line is refused when the environment names a database.\<close>

lemma url_flag_refused:
  assumes "environment ''TAPE_ADK_DB_URL'' = Some u" and "u \<noteq> []" and "url \<noteq> []"
  shows "live_target_of (Some url) None environment project = LiveDies"
  using assms by (simp add: live_target_of_def str_or_none_def)

text \<open>A failed refresh of the database triage keeps showing the old report.\<close>

lemma failed_refresh_hidden:
  assumes "pull now w = (Inl ex, w')" and "snd p \<le> now"
  shows "fst (fst (poll_db pull interval now p w)) = fst p"
  using assms by (simp add: poll_db_def)

text \<open>Without a server binary the migration ends in a type error instead of a message.\<close>

lemma migrate_without_binary:
  assumes "tl_which env ''tape-server'' = None" and "s \<noteq> []"
  shows "migrate_run env environment (Some s) dry None p w = (die_with_hint, w)"
  using assms by (simp add: migrate_run_def opt_or_def str_or_none_def Let_def)

end
