(* ===== verification/CliInspect.thy ===== *)
theory CliInspect
  imports CliDoctor
begin

text \<open>
  The inspection commands of the CLI: the decoder of journal entries (\<open>commands/_journal.py\<close>), the
  drained journal, the summary and the raw lines of \<open>commands/inspect.py\<close>, and the cross-run stream of
  \<open>commands/tail.py\<close>.

  A decoded entry has its type, status, style and summary; glyphs and table layout are left out. The
  texts of built-in exceptions are left out too. The formatting of a rational with one decimal is a
  parameter. A stream is the list of its entries and how it ended.
\<close>

section \<open>Times\<close>

definition fmt_pos_ms :: "(rat \<Rightarrow> string) \<Rightarrow> int \<Rightarrow> string" where
  "fmt_pos_ms one_decimal d =
     (if d < 1000 then ''+'' @ int_str d @ ''ms''
      else if d < 60000 then ''+'' @ one_decimal (of_int d / 1000) @ ''s''
      else if d < 3600000 then ''+'' @ one_decimal (of_int d / 60000) @ ''m''
      else ''+'' @ one_decimal (of_int d / 3600000) @ ''h'')"

definition fmt_rel_ms :: "(rat \<Rightarrow> string) \<Rightarrow> int \<Rightarrow> string" where
  "fmt_rel_ms one_decimal d = (if d < 0 then ''-'' @ fmt_pos_ms one_decimal (- d) else fmt_pos_ms one_decimal d)"

definition fmt_countdown_ms :: "(rat \<Rightarrow> string) \<Rightarrow> int \<Rightarrow> int \<Rightarrow> string" where
  "fmt_countdown_ms one_decimal expires_at_ms n =
     (if expires_at_ms \<le> 0 then EM_DASH
      else if expires_at_ms - n \<le> 0 then ''EXPIRED '' @ fmt_rel_ms one_decimal (- (expires_at_ms - n)) @ '' ago''
      else ''~'' @ dropWhile (\<lambda>c. c = CHR ''+'') (fmt_rel_ms one_decimal (expires_at_ms - n)))"

section \<open>Statuses\<close>

definition STATUS_STYLES :: "(string \<times> string) list" where
  "STATUS_STYLES = [(''pending'', ''yellow''), (''confirmed'', ''bold green''), (''failed'', ''bold red''), (''unknown'', ''bold red on yellow''),
     (''committed'', ''magenta''), (''compensated'', ''bold green''), (''stuck'', ''bold red on yellow''),
     (''waiting'', ''blue''), (''released'', ''bold green''),
     (''running'', ''bold cyan''), (''terminal'', ''bold green''), (''cancelled'', ''yellow''), (''compensating'', ''magenta''), (''ended'', ''dim''),
     (''recorded'', ''cyan''), (''ok'', ''green''), ([], ''dim'')]"

definition status_style :: "string \<Rightarrow> string" where
  "status_style s = (case map_of STATUS_STYLES (ascii_lower s) of Some st \<Rightarrow> st | None \<Rightarrow> ''white'')"

definition RUN_STATUS_LABELS :: "(int \<times> string) list" where
  "RUN_STATUS_LABELS = [(0, ''UNSPECIFIED''), (1, ''RUNNABLE''), (2, ''RUNNING''), (3, ''WAITING''), (4, ''TERMINAL''), (5, ''FAILED''),
     (6, ''COMPENSATING''), (7, ''STUCK''), (8, ''CANCELLED'')]"

definition run_status_label :: "int \<Rightarrow> string" where
  "run_status_label n = (case map_of RUN_STATUS_LABELS n of Some l \<Rightarrow> l | None \<Rightarrow> ''?'' @ int_str n)"

definition EFFECT_STATUS_LABELS :: "(int \<times> string) list" where
  "EFFECT_STATUS_LABELS = [(0, ''unspecified''), (1, ''pending''), (2, ''confirmed''), (3, ''failed''), (4, ''unknown'')]"

definition type_error :: py_exn where
  "type_error = PyExn ''TypeError'' []"

text \<open>\<open>int(v)\<close> of a JSON value.\<close>

definition entry_int :: "json \<Rightarrow> py_exn + int" where
  "entry_int v = (case v of
     JNum n \<Rightarrow> Inr n
   | JBool b \<Rightarrow> Inr (if b then 1 else 0)
   | JStr s \<Rightarrow> (case py_int s of Some n \<Rightarrow> Inr n | None \<Rightarrow> Inl (PyExn ''ValueError'' []))
   | _ \<Rightarrow> Inl type_error)"

definition effect_status_label :: "json \<Rightarrow> py_exn + string" where
  "effect_status_label v = (case v of
     JStr s \<Rightarrow> Inr (ascii_lower s)
   | _ \<Rightarrow> (case entry_int v of
             Inl ex \<Rightarrow> Inl ex
           | Inr n \<Rightarrow> Inr (case map_of EFFECT_STATUS_LABELS n of Some l \<Rightarrow> l | None \<Rightarrow> py_str v)))"

section \<open>Decoding an entry\<close>

record Decoded =
  dd_type :: string
  dd_status :: string
  dd_style :: string
  dd_summary :: json
  dd_trace_id :: string

definition safe_loads :: "wire_text \<Rightarrow> (string \<times> json) list" where
  "safe_loads t = (case t of JsonText (JObj kvs) \<Rightarrow> kvs | _ \<Rightarrow> [])"

definition field_of :: "(string \<times> json) list \<Rightarrow> string \<Rightarrow> json" where
  "field_of p k = (case map_of p k of Some v \<Rightarrow> v | None \<Rightarrow> JStr [])"

definition ELLIPSIS :: string where
  "ELLIPSIS = [CHR 0xE2, CHR 0x80, CHR 0xA6]"

text \<open>\<open>_short\<close>: a value without a length raises, and so does a long list or dict.\<close>

definition short :: "json \<Rightarrow> nat \<Rightarrow> py_exn + json" where
  "short v n = (case v of
     JStr s \<Rightarrow> Inr (if length s \<le> n then v else JStr (take (n - 1) s @ ELLIPSIS))
   | JArr xs \<Rightarrow> if length xs \<le> n then Inr v else Inl type_error
   | JObj kvs \<Rightarrow> if length kvs \<le> n then Inr v else Inl type_error
   | _ \<Rightarrow> Inl type_error)"

definition short_str :: "json \<Rightarrow> nat \<Rightarrow> py_exn + string" where
  "short_str v n = map_sum id py_str (short v n)"

fun join_strs :: "string \<Rightarrow> json list \<Rightarrow> py_exn + string" where
  "join_strs sep [] = Inr []"
| "join_strs sep [v] = (case v of JStr s \<Rightarrow> Inr s | _ \<Rightarrow> Inl type_error)"
| "join_strs sep (v # vs) = (case v of JStr s \<Rightarrow> map_sum id (\<lambda>r. s @ sep @ r) (join_strs sep vs) | _ \<Rightarrow> Inl type_error)"

definition run_location :: "(string \<times> json) list \<Rightarrow> py_exn + json" where
  "run_location p =
     (let app = field_of p ''app''; user = field_of p ''user''; sess = field_of p ''session'';
          front = (if truthy app then [app] else []) @ (if truthy user then [user] else []) in
      case (if truthy sess then map_sum id (\<lambda>s. [s]) (short sess 18) else Inr []) of
        Inl ex \<Rightarrow> Inl ex
      | Inr back \<Rightarrow> if front @ back = [] then short (field_of p ''run_id'') 16 else map_sum id JStr (join_strs '' / '' (front @ back)))"

definition decision_summary :: "(string \<times> json) list \<Rightarrow> py_exn + json" where
  "decision_summary p =
     (let model = field_of p ''model''; rationale = field_of p ''rationale'';
          idx = (case map_of p ''decision_index'' of Some v \<Rightarrow> py_str v | None \<Rightarrow> ''?'');
          base = (if truthy model then ''[bold]'' @ py_str model @ ''[/bold]'' else ''model=?'') @ ''  idx='' @ idx in
      if truthy rationale then map_sum id (\<lambda>r. JStr (base @ ''  [dim]'' @ r @ ''[/dim]'')) (short_str rationale 60) else Inr (JStr base))"

text \<open>The most telling identity of an effect: its reference, its business key or its own key.\<close>

definition effect_ident :: "(string \<times> json) list \<Rightarrow> py_exn + string" where
  "effect_ident p =
     (let xref = field_of p ''external_ref''; bk = field_of p ''business_key''; ek = field_of p ''idempotency_key'' in
      if truthy xref then map_sum id (\<lambda>s. '' '' @ [CHR 0xE2, CHR 0x86, CHR 0x92] @ '' [cyan]'' @ s @ ''[/cyan]'') (short_str xref 28)
      else if truthy bk then map_sum id (\<lambda>s. ''  [dim]('' @ s @ '')[/dim]'') (short_str bk 36)
      else if truthy ek then map_sum id (\<lambda>s. ''  [dim]'' @ s @ ''[/dim]'') (short_str ek 36)
      else Inr [])"

definition is_two :: "(string \<times> json) list \<Rightarrow> string \<Rightarrow> py_exn + bool" where
  "is_two p k = map_sum id (\<lambda>n. n = 2) (entry_int (json_or (case map_of p k of Some v \<Rightarrow> v | None \<Rightarrow> JNum 0) (JNum 0)))"

definition effect_tags :: "(string \<times> json) list \<Rightarrow> py_exn + string" where
  "effect_tags p =
     (case is_two p ''semantics'' of
        Inl ex \<Rightarrow> Inl ex
      | Inr ni \<Rightarrow>
          (case is_two p ''dispatch_mode'' of
             Inl ex \<Rightarrow> Inl ex
           | Inr out \<Rightarrow> Inr ((if ni then '' [red]NI[/red]'' else []) @ (if out then '' [yellow]OUT[/yellow]'' else []))))"

definition decoded :: "string \<Rightarrow> string \<Rightarrow> string \<Rightarrow> json \<Rightarrow> Decoded" where
  "decoded ty st trace_id v = \<lparr>dd_type = ty, dd_status = st, dd_style = status_style st, dd_summary = v, dd_trace_id = trace_id\<rparr>"

definition decode_effect :: "(string \<times> json) list \<Rightarrow> string \<Rightarrow> py_exn + Decoded" where
  "decode_effect p trace_id =
     (case effect_status_label (field_of p ''status'') of
        Inl ex \<Rightarrow> Inl ex
      | Inr st \<Rightarrow>
          (case effect_ident p of
             Inl ex \<Rightarrow> Inl ex
           | Inr ident \<Rightarrow>
               map_sum id (\<lambda>tags. decoded ''effect'' st trace_id
                   (JStr (''[bold]'' @ py_str (json_or (field_of p ''tool'') (field_of p ''tool_name'')) @ ''[/bold]'' @ tags @ ident)))
                 (effect_tags p)))"

definition decode_value :: "(string \<times> json) list \<Rightarrow> string \<Rightarrow> py_exn + Decoded" where
  "decode_value p trace_id =
     (case (case map_of p ''value'' of Some v \<Rightarrow> v | None \<Rightarrow> JObj p) of
        JObj v \<Rightarrow>
          (let ver = field_of v ''version'';
               deleted = (case map_of v ''deleted'' of Some b \<Rightarrow> truthy b | None \<Rightarrow> False) in
           Inr (decoded ''value'' (if deleted then ''deleted'' else []) trace_id
             (JStr (''[bold]'' @ py_str (field_of v ''namespace'') @ ''[/bold]/[cyan]'' @ py_str (field_of v ''key'') @ ''[/cyan]''
               @ (if ver \<noteq> JStr [] then ''  [dim]v'' @ py_str ver @ ''[/dim]'' else [])))))
      | _ \<Rightarrow> Inl (PyExn ''AttributeError'' []))"

definition lower_status :: "(string \<times> json) list \<Rightarrow> string" where
  "lower_status p = ascii_lower (py_str (field_of p ''status''))"

definition preview :: "(wire_text \<Rightarrow> string) \<Rightarrow> string \<Rightarrow> wire_text \<Rightarrow> string \<Rightarrow> py_exn + Decoded" where
  "preview raw ty payload trace_id =
     map_sum id (\<lambda>s. decoded ty [] trace_id (JStr (''[dim]'' @ s @ ''[/dim]''))) (short_str (JStr (raw payload)) 60)"

definition decode_entry :: "(wire_text \<Rightarrow> string) \<Rightarrow> string \<Rightarrow> wire_text \<Rightarrow> string \<Rightarrow> py_exn + Decoded" where
  "decode_entry raw kind payload trace_id =
     (let p = safe_loads payload in
      if kind = ''run'' then map_sum id (decoded ''run'' (lower_status p) trace_id) (run_location p)
      else if kind = ''decision'' then map_sum id (decoded ''decision'' ''recorded'' trace_id) (decision_summary p)
      else if kind = ''effect'' then decode_effect p trace_id
      else if kind = ''obligation'' then
        map_sum id (\<lambda>ek. decoded ''obligation'' (lower_status p) trace_id
          (JStr (''[bold]'' @ py_str (field_of p ''kind'') @ ''[/bold]  [dim]for '' @ ek @ ''[/dim]''))) (short_str (field_of p ''effect_key'') 32)
      else if kind = ''gate'' then
        Inr (decoded ''gate'' (lower_status p) trace_id (JStr (''[bold]'' @ py_str (json_or (field_of p ''gate'') (field_of p ''gate_name'')) @ ''[/bold]'')))
      else if kind = ''value'' then decode_value p trace_id
      else if kind = ''event'' then preview raw ''event'' payload trace_id
      else if kind = ''timer'' then
        Inr (decoded ''timer'' [] trace_id (JStr (''[bold]'' @ py_str (field_of p ''kind'') @ ''[/bold]  '' @ py_str (field_of p ''timer_id'')
          @ ''  [dim]fire@'' @ py_str (field_of p ''fire_at_ms'') @ ''[/dim]'')))
      else preview raw (str_or kind ''?'') payload trace_id)"

section \<open>Streams\<close>

record journal_entry =
  je_global_seq :: int
  je_run_id :: string
  je_seq :: int
  je_kind :: string
  je_ts_ms :: int
  je_subject :: string
  je_trace_id :: string
  je_span_id :: string
  je_parent_span_id :: string
  je_schema_version :: int
  je_payload :: wire_text

definition safe_inline_json :: "wire_text \<Rightarrow> json" where
  "safe_inline_json t = (case t of JsonText j \<Rightarrow> j | PlainText s \<Rightarrow> if s = [] then JNull else JStr s)"

definition inspect_line :: "journal_entry \<Rightarrow> json" where
  "inspect_line e = JObj [(''seq'', JNum (je_seq e)), (''global_seq'', JNum (je_global_seq e)), (''kind'', JStr (je_kind e)),
     (''ts_ms'', JNum (je_ts_ms e)), (''subject'', JStr (je_subject e)), (''trace_id'', JStr (je_trace_id e)), (''span_id'', JStr (je_span_id e)),
     (''parent_span_id'', JStr (je_parent_span_id e)), (''schema_version'', JNum (je_schema_version e)), (''payload'', safe_inline_json (je_payload e))]"

definition tail_line :: "journal_entry \<Rightarrow> json" where
  "tail_line e = JObj [(''global_seq'', JNum (je_global_seq e)), (''run_id'', JStr (je_run_id e)), (''seq'', JNum (je_seq e)), (''kind'', JStr (je_kind e)),
     (''ts_ms'', JNum (je_ts_ms e)), (''subject'', JStr (je_subject e)), (''trace_id'', JStr (je_trace_id e)), (''span_id'', JStr (je_span_id e)),
     (''parent_span_id'', JStr (je_parent_span_id e)), (''schema_version'', JNum (je_schema_version e)), (''payload'', safe_inline_json (je_payload e))]"

text \<open>The entries taken from a stream, with whether the limit stopped it.\<close>

fun take_entries :: "(journal_entry \<Rightarrow> bool) \<Rightarrow> int option \<Rightarrow> journal_entry list \<Rightarrow> int \<Rightarrow> journal_entry list \<times> bool" where
  "take_entries keep limit [] seen = ([], False)"
| "take_entries keep limit (e # es) seen =
     (if \<not> keep e then take_entries keep limit es seen
      else if (case limit of Some n \<Rightarrow> seen + 1 \<ge> n | None \<Rightarrow> False) then ([e], True)
      else (case take_entries keep limit es (seen + 1) of (out, stopped) \<Rightarrow> (e # out, stopped)))"

text \<open>\<open>_drain\<close>: a deadline ends it normally, another status of the stream is raised.\<close>

definition drain :: "int option \<Rightarrow> journal_entry list \<Rightarrow> grpc_exn option \<Rightarrow> grpc_exn + journal_entry list" where
  "drain limit es ending =
     (case take_entries (\<lambda>_. True) limit es 0 of (out, stopped) \<Rightarrow>
        if stopped then Inr out
        else (case ending of
                None \<Rightarrow> Inr out
              | Some (GrpcError code s) \<Rightarrow> if code = Some ''DEADLINE_EXCEEDED'' then Inr out else Inl (GrpcError code s)
              | Some ex \<Rightarrow> Inl ex))"

datatype subscription = BySubject string string int | ByEvents int string string int

definition tail_subscription :: "string \<Rightarrow> string \<Rightarrow> string \<Rightarrow> string \<Rightarrow> int \<Rightarrow> int \<Rightarrow> subscription" where
  "tail_subscription subject kind run_id predicate from_global_seq from_ts_ms =
     (if subject \<noteq> [] \<or> predicate \<noteq> [] then BySubject (str_or subject ''/tape/**'') predicate from_global_seq
      else ByEvents from_ts_ms run_id kind from_global_seq)"

text \<open>\<open>tail.run\<close>: the entries printed; how the stream ended decides only what is warned.\<close>

definition tail_run :: "(subscription \<Rightarrow> journal_entry list) \<Rightarrow> string \<Rightarrow> string \<Rightarrow> string \<Rightarrow> string \<Rightarrow> int \<Rightarrow> int \<Rightarrow> int option \<Rightarrow> journal_entry list" where
  "tail_run stream subject kind run_id predicate from_global_seq from_ts_ms limit =
     (let bus = (subject \<noteq> [] \<or> predicate \<noteq> []) in
      fst (take_entries (\<lambda>e. \<not> (run_id \<noteq> [] \<and> bus \<and> je_run_id e \<noteq> run_id)) limit
        (stream (tail_subscription subject kind run_id predicate from_global_seq from_ts_ms)) 0))"

section \<open>The summary\<close>

fun decode_all :: "(wire_text \<Rightarrow> string) \<Rightarrow> journal_entry list \<Rightarrow> py_exn + (string \<times> string) list" where
  "decode_all raw [] = Inr []"
| "decode_all raw (e # es) =
     (case decode_entry raw (je_kind e) (je_payload e) [] of
        Inl ex \<Rightarrow> Inl ex
      | Inr d \<Rightarrow> map_sum id (\<lambda>ds. (je_kind e, dd_status d) # ds) (decode_all raw es))"

definition count_status :: "string \<Rightarrow> string \<Rightarrow> (string \<times> string) list \<Rightarrow> nat" where
  "count_status kind status ds = length (filter (\<lambda>d. d = (kind, status)) ds)"

definition do_summary :: "(wire_text \<Rightarrow> string) \<Rightarrow> journal_entry list \<Rightarrow> cli_end" where
  "do_summary raw es =
     (case decode_all raw es of
        Inl ex \<Rightarrow> CliRaised ex
      | Inr ds \<Rightarrow>
          if count_status ''effect'' ''unknown'' ds + count_status ''effect'' ''failed'' ds \<noteq> 0 \<or> count_status ''obligation'' ''stuck'' ds \<noteq> 0
          then CliExit 1 else CliDone)"

datatype inspect_mode = ListRuns int | RawLines | SummaryOnly | PrintSnapshot | Interactive bool

definition inspect_mode_of :: "string option \<Rightarrow> bool \<Rightarrow> bool \<Rightarrow> bool \<Rightarrow> bool \<Rightarrow> bool \<Rightarrow> bool \<Rightarrow> int option \<Rightarrow> inspect_mode" where
  "inspect_mode_of run_id print_mode raw summary list_runs in_replay isatty limit =
     (if run_id = None \<or> list_runs then ListRuns (case limit of Some n \<Rightarrow> int_or n 50 | None \<Rightarrow> 50)
      else if raw then RawLines
      else if summary then SummaryOnly
      else if print_mode \<or> \<not> isatty then PrintSnapshot
      else Interactive in_replay)"

section \<open>Properties\<close>

lemma take_entries_exact:
  "seen \<ge> 0 \<Longrightarrow> fst (take_entries keep limit es seen) =
     (case limit of None \<Rightarrow> filter keep es | Some n \<Rightarrow> take (nat (max 1 (n - seen))) (filter keep es))"
proof (induction keep limit es seen rule: take_entries.induct)
  case (2 keep limit e es seen)
  show ?case
  proof (cases limit)
    case None
    with 2 show ?thesis by (auto split: prod.splits)
  next
    case (Some n)
    show ?thesis
    proof (cases "keep e \<and> seen + 1 < n")
      case True
      then have "nat (max 1 (n - seen)) = Suc (nat (max 1 (n - (seen + 1))))" by auto
      moreover have "fst (take_entries keep limit es (seen + 1)) = take (nat (max 1 (n - (seen + 1)))) (filter keep es)"
        using 2 True Some by auto
      ultimately show ?thesis using True Some by (auto split: prod.splits)
    next
      case False
      then consider "\<not> keep e" | "keep e" "seen + 1 \<ge> n" by force
      then show ?thesis
      proof cases
        case 1
        with 2 Some show ?thesis by simp
      next
        case 2
        then have "nat (max 1 (n - seen)) = 1" by auto
        with 2 Some show ?thesis by simp
      qed
    qed
  qed
qed (simp split: option.split)

text \<open>
  A tail prints what matches, in order and from the front: all matching entries, or the first ones up
  to the limit (one at least, also for a limit of zero or less).
\<close>

lemma tail_prints_prefix:
  fixes subject predicate :: string
  defines "bus \<equiv> subject \<noteq> [] \<or> predicate \<noteq> []"
  shows "tail_run stream subject kind run_id predicate g ts limit =
     (let shown = filter (\<lambda>e. \<not> (run_id \<noteq> [] \<and> bus \<and> je_run_id e \<noteq> run_id)) (stream (tail_subscription subject kind run_id predicate g ts)) in
      case limit of None \<Rightarrow> shown | Some n \<Rightarrow> take (nat (max 1 n)) shown)"
  unfolding tail_run_def Let_def bus_def
  by (cases limit) (simp_all only: take_entries_exact [OF order_refl] option.case diff_zero)

text \<open>The entries of the journal that the summary objects to.\<close>

definition bad_status :: "string \<times> string \<Rightarrow> bool" where
  "bad_status ks \<longleftrightarrow> ks = (''effect'', ''unknown'') \<or> ks = (''effect'', ''failed'') \<or> ks = (''obligation'', ''stuck'')"

definition bad_entry :: "(wire_text \<Rightarrow> string) \<Rightarrow> journal_entry \<Rightarrow> bool" where
  "bad_entry raw e = (case decode_entry raw (je_kind e) (je_payload e) [] of Inl ex \<Rightarrow> False | Inr d \<Rightarrow> bad_status (je_kind e, dd_status d))"

lemma bad_listed: "decode_all raw es = Inr ds \<Longrightarrow> list_ex bad_status ds = list_ex (bad_entry raw) es"
proof (induction es arbitrary: ds)
  case (Cons e es)
  then show ?case
    by (cases "decode_entry raw (je_kind e) (je_payload e) []"; cases "decode_all raw es") (auto simp: bad_entry_def)
qed simp

lemma count_status_zero: "count_status k s ds = 0 \<longleftrightarrow> \<not> list_ex (\<lambda>d. d = (k, s)) ds"
  by (auto simp: count_status_def filter_empty_conv list_ex_iff)

lemma summary_verdict:
  assumes "decode_all raw es = Inr ds"
  shows "do_summary raw es = (if list_ex (bad_entry raw) es then CliExit 1 else CliDone)"
proof -
  have "(count_status ''effect'' ''unknown'' ds + count_status ''effect'' ''failed'' ds \<noteq> 0 \<or> count_status ''obligation'' ''stuck'' ds \<noteq> 0) \<longleftrightarrow>
      list_ex bad_status ds"
    by (simp only: add_is_0 count_status_zero list_ex_iff Bex_def bad_status_def) blast
  with assms bad_listed [OF assms] show ?thesis by (simp add: do_summary_def)
qed

section \<open>Findings\<close>

text \<open>An effect that failed once and was confirmed later still makes the summary fail.\<close>

lemma settled_effect_still_flagged:
  assumes "e \<in> set es" and "bad_entry raw e" and "decode_all raw (es @ later) = Inr ds"
  shows "do_summary raw (es @ later) = CliExit 1"
  using assms summary_verdict [OF assms(3)] by (auto simp: list_ex_iff)

text \<open>A null status stops the decoder with a type error, although it is meant to degrade gracefully.\<close>

lemma null_status_raises: "decode_entry raw ''effect'' (JsonText (JObj [(''status'', JNull)])) t = Inl type_error"
  by (simp add: decode_entry_def safe_loads_def decode_effect_def field_of_def effect_status_label_def entry_int_def Let_def)

lemma scalar_value_raises: "decode_entry raw ''value'' (JsonText (JObj [(''value'', JNum 1)])) t = Inl (PyExn ''AttributeError'' [])"
  by (simp add: decode_entry_def safe_loads_def decode_value_def Let_def)

text \<open>With a subject or a predicate the kind filter of a tail is ignored.\<close>

lemma kind_filter_ignored:
  assumes "subject \<noteq> [] \<or> predicate \<noteq> []"
  shows "tail_run stream subject kind run_id predicate g ts limit = tail_run stream subject kind' run_id predicate g ts limit"
  using assms by (simp add: tail_run_def tail_subscription_def)

text \<open>A negative delta is printed with two signs.\<close>

lemma negative_delta_signs: "fmt_rel_ms f (- 5) = ''-+5ms''"
  by code_simp

end
