(* ===== verification/CliInspectAdk.thy ===== *)
theory CliInspectAdk
  imports CliInspect "HOL-Library.Multiset"
begin

text \<open>
  The inspection of the embedded journal (\<open>commands/inspect_adk.py\<close>): the snapshot of one session with
  its tables, its JSON form and its exit code, and the live view over all sessions.

  The tables are the lists of their rows, over the database of the service model; an age is a number
  with its unit, as in \<open>CliDoctor\<close>. What ADK stores of a session, its state and its events, is a
  parameter and the table of events is left out.
\<close>

section \<open>The snapshot\<close>

definition resolve_db_url :: "string option \<Rightarrow> environ \<Rightarrow> string option" where
  "resolve_db_url flag environment =
     (case str_or_none flag of Some u \<Rightarrow> Some u | None \<Rightarrow> str_or_none (environment ''TAPE_ADK_DB_URL''))"

record session_snapshot =
  ia_session :: "(json \<times> json list) option"
  ia_effects :: "StorageEffect list"
  ia_obligations :: "StorageObligation list"
  ia_timers :: "StorageTimer list"

text \<open>\<open>adk\<close> gives the row of a session and its events in the order of their timestamps.\<close>

definition inspect_snapshot :: "(session_key \<Rightarrow> json \<times> json list) \<Rightarrow> session_key \<Rightarrow> db \<Rightarrow> session_snapshot" where
  "inspect_snapshot adk s d =
     (if \<not> List.member (db_sessions d) s then \<lparr>ia_session = None, ia_effects = [], ia_obligations = [], ia_timers = []\<rparr>
      else \<lparr>ia_session = Some (adk s),
            ia_effects = sort_key e_ts_ms (filter (\<lambda>e. effect_session e = s) (db_effects d)),
            ia_obligations = sort_key (\<lambda>b. - o_seq b) (filter (\<lambda>b. obligation_session b = s) (db_obligations d)),
            ia_timers = sort_key t_fire_at_ms (filter (\<lambda>t. timer_session t = s) (db_timers d))\<rparr>)"

text \<open>The dicts of the rows, as the JSON form prints them.\<close>

definition effect_dict :: "StorageEffect \<Rightarrow> json" where
  "effect_dict e = JObj
     [(''idempotency_key'', JStr (e_idempotency_key e)), (''invocation_id'', JStr (e_invocation_id e)),
      (''tool_name'', JStr (e_tool_name e)), (''decision_index'', JNum (e_decision_index e)), (''call_index'', JNum (e_call_index e)),
      (''status'', JStr (e_status e)), (''semantics'', JStr (e_semantics e)), (''dispatch_mode'', JStr (e_dispatch_mode e)),
      (''business_key'', opt_json (e_business_key e)), (''connector'', opt_json (e_connector e)),
      (''external_ref'', opt_json (e_external_ref e)), (''dispatch_attempts'', JNum (e_dispatch_attempts e)),
      (''dispatch_claimed_by'', opt_json (e_dispatch_claimed_by e)), (''request_json'', e_request_json e),
      (''response_json'', e_response_json e), (''error_json'', e_error_json e), (''ts_ms'', JNum (e_ts_ms e))]"

definition obligation_dict :: "StorageObligation \<Rightarrow> json" where
  "obligation_dict b = JObj
     [(''seq'', JNum (o_seq b)), (''kind'', JStr (o_kind b)), (''effect_key'', JStr (o_effect_key b)), (''status'', JStr (o_status b)),
      (''attempts'', JNum (o_attempts b)), (''max_attempts'', JNum (o_max_attempts b)), (''claimed_by'', opt_json (o_claimed_by b)),
      (''last_error'', opt_json (o_last_error b)), (''ts_ms'', JNum (o_ts_ms b)), (''payload_json'', o_payload_json b),
      (''result_json'', o_result_json b)]"

definition timer_dict :: "StorageTimer \<Rightarrow> json" where
  "timer_dict t = JObj
     [(''timer_id'', JStr (t_timer_id t)), (''fire_at_ms'', JNum (t_fire_at_ms t)), (''kind'', JStr (t_kind t)),
      (''fired'', JBool (t_fired t)), (''payload_json'', t_payload_json t)]"

definition snapshot_json :: "session_snapshot \<Rightarrow> json" where
  "snapshot_json sn = JObj
     [(''session'', case ia_session sn of None \<Rightarrow> JNull | Some (row, evs) \<Rightarrow> row),
      (''events'', JArr (case ia_session sn of None \<Rightarrow> [] | Some (row, evs) \<Rightarrow> evs)),
      (''effects'', JArr (map effect_dict (ia_effects sn))), (''obligations'', JArr (map obligation_dict (ia_obligations sn))),
      (''timers'', JArr (map timer_dict (ia_timers sn)))]"

section \<open>Tables\<close>

definition fmt_age_ms :: "int \<Rightarrow> int \<Rightarrow> age" where
  "fmt_age_ms ts_ms now_ms =
     (if ts_ms = 0 then NoAge
      else (let d = max 0 (now_ms - ts_ms) in
            if d < 1000 then Millis d
            else if d < 60000 then Seconds (of_int d / 1000)
            else if d < 3600000 then Minutes (of_int d / 60000)
            else Hours (of_int d / 3600000)))"

definition ADK_STATUS_STYLES :: "(string \<times> string) list" where
  "ADK_STATUS_STYLES = [(''pending'', ''yellow''), (''confirmed'', ''bold green''), (''failed'', ''bold red''),
     (''unknown'', ''bold red on yellow''), (''committed'', ''magenta''), (''compensated'', ''bold green''), (''stuck'', ''bold red on yellow'')]"

definition adk_status_style :: "string \<Rightarrow> string" where
  "adk_status_style s = (case map_of ADK_STATUS_STYLES (ascii_lower s) of None \<Rightarrow> ''white'' | Some st \<Rightarrow> st)"

definition mode_text :: "StorageEffect \<Rightarrow> string" where
  "mode_text e = take 3 (e_semantics e) @ ''/'' @ take 3 (e_dispatch_mode e)"

definition adk_effect_row :: "int \<Rightarrow> StorageEffect \<Rightarrow> string \<times> (string \<times> string) \<times> string \<times> string \<times> string option \<times> string option \<times> age" where
  "adk_effect_row now e = (e_idempotency_key e, (e_status e, adk_status_style (e_status e)), e_tool_name e, mode_text e,
     str_or_none (e_business_key e), str_or_none (e_external_ref e), fmt_age_ms (e_ts_ms e) now)"

definition adk_obligation_row :: "int \<Rightarrow> StorageObligation \<Rightarrow> string \<times> string \<times> (string \<times> string) \<times> string \<times> string \<times> age" where
  "adk_obligation_row now b = (int_str (o_seq b), o_kind b, (o_status b, adk_status_style (o_status b)), o_effect_key b,
     int_str (o_attempts b) @ ''/'' @ int_str (o_max_attempts b), fmt_age_ms (o_ts_ms b) now)"

datatype timer_when = Ago age | InFuture age

definition adk_timer_row :: "int \<Rightarrow> StorageTimer \<Rightarrow> string \<times> string \<times> bool \<times> timer_when" where
  "adk_timer_row now t = (t_timer_id t, t_kind t, t_fired t,
     if t_fire_at_ms t \<le> now then Ago (fmt_age_ms 0 (max 0 (now - t_fire_at_ms t)))
     else InFuture (fmt_age_ms 0 (max 0 (t_fire_at_ms t - now))))"

section \<open>The live view\<close>

record journal_view =
  jv_effects :: "StorageEffect list"
  jv_obligations :: "StorageObligation list"
  jv_timers :: "StorageTimer list"

definition empty_view :: journal_view where
  "empty_view = \<lparr>jv_effects = [], jv_obligations = [], jv_timers = []\<rparr>"

definition global_snapshot :: "db \<Rightarrow> journal_view" where
  "global_snapshot d = \<lparr>jv_effects = order_limit (\<lambda>e. - e_ts_ms e) 40 (db_effects d),
     jv_obligations = order_limit (\<lambda>b. - o_seq b) 20 (db_obligations d),
     jv_timers = order_limit (\<lambda>t. - t_fire_at_ms t) 20 (db_timers d)\<rparr>"

text \<open>The counters of the head: effects by status, open and stuck obligations.\<close>

definition view_statuses :: "journal_view \<Rightarrow> (string \<times> nat) list" where
  "view_statuses v = map (\<lambda>s. (s, length (filter (\<lambda>e. e_status e = s) (jv_effects v)))) (sort (remdups (map e_status (jv_effects v))))"

definition view_open :: "journal_view \<Rightarrow> nat" where
  "view_open v = length (filter (\<lambda>b. o_status b \<in> set [''pending'', ''committed'']) (jv_obligations v))"

definition view_stuck :: "journal_view \<Rightarrow> nat" where
  "view_stuck v = length (filter (\<lambda>b. o_status b = ''stuck'') (jv_obligations v))"

definition live_effect_row :: "int \<Rightarrow> StorageEffect \<Rightarrow> age \<times> string \<times> string \<times> string \<times> string" where
  "live_effect_row now e = (fmt_age_ms (e_ts_ms e) now, e_tool_name e, e_status e, mode_text e,
     (case str_or_none (e_external_ref e) of Some x \<Rightarrow> x
      | None \<Rightarrow> (case str_or_none (e_business_key e) of Some k \<Rightarrow> k | None \<Rightarrow> EM_DASH)))"

text \<open>The refreshes of \<open>live_journal\<close> at the given times, each over the database of its moment, which may not answer.\<close>

fun live_views :: "rat \<Rightarrow> (rat \<times> (py_exn + db)) list \<Rightarrow> journal_view \<times> rat \<Rightarrow> journal_view list" where
  "live_views interval [] p = []"
| "live_views interval ((now, r) # rest) p =
     (case poll_db (\<lambda>t w. (map_sum id global_snapshot r, w)) interval now p () of (p', _) \<Rightarrow> fst p' # live_views interval rest p')"

definition live_journal :: "(rat \<times> (py_exn + db)) list \<Rightarrow> journal_view list" where
  "live_journal rounds = live_views (6 / 10) rounds (empty_view, 0)"

section \<open>The command\<close>

datatype inspect_end = InspectEnd cli_end | InspectJson json | InspectLive string

definition inspect_exit :: "session_snapshot \<Rightarrow> cli_end" where
  "inspect_exit sn =
     (if list_ex (\<lambda>b. o_status b = ''stuck'') (ia_obligations sn) then CliExit 2
      else if list_ex (\<lambda>e. e_status e = ''unknown'') (ia_effects sn) then CliExit 1 else CliDone)"

definition inspect_adk_run ::
    "(session_key \<Rightarrow> json \<times> json list) \<Rightarrow> environ \<Rightarrow> bool \<Rightarrow> string option \<Rightarrow> string option \<Rightarrow> string option \<Rightarrow> string option \<Rightarrow> bool \<Rightarrow> bool \<Rightarrow> db \<Rightarrow> inspect_end" where
  "inspect_adk_run adk environment installed session_id app_name user_id db_url follow raw d =
     (case resolve_db_url db_url environment of
        None \<Rightarrow> InspectEnd (CliExit 2)
      | Some u \<Rightarrow>
          if follow then (if installed then InspectLive u else InspectEnd (CliExit 2))
          else (case (str_or_none session_id, str_or_none app_name, str_or_none user_id) of
             (Some s, Some a, Some usr) \<Rightarrow>
               if \<not> installed then InspectEnd (CliExit 2)
               else (let sn = inspect_snapshot adk (a, usr, s) d in
                     if ia_session sn = None then InspectEnd (CliExit 2)
                     else if raw then InspectJson (snapshot_json sn)
                     else InspectEnd (inspect_exit sn))
           | _ \<Rightarrow> InspectEnd (CliExit 2)))"

section \<open>Properties\<close>

text \<open>The snapshot of a session holds exactly its rows, once each and in order.\<close>

lemma inspect_snapshot_complete:
  assumes "s \<in> set (db_sessions d)"
  shows "mset (ia_effects (inspect_snapshot adk s d)) = filter_mset (\<lambda>e. effect_session e = s) (mset (db_effects d))"
    and "sorted (map e_ts_ms (ia_effects (inspect_snapshot adk s d)))"
    and "mset (ia_obligations (inspect_snapshot adk s d)) = filter_mset (\<lambda>b. obligation_session b = s) (mset (db_obligations d))"
    and "mset (ia_timers (inspect_snapshot adk s d)) = filter_mset (\<lambda>t. timer_session t = s) (mset (db_timers d))"
    and "sorted (map t_fire_at_ms (ia_timers (inspect_snapshot adk s d)))"
  using assms by (simp_all add: inspect_snapshot_def)

lemma inspect_exit_exact:
  assumes "s \<in> set (db_sessions d)"
  shows "inspect_exit (inspect_snapshot adk s d) =
     (if \<exists>b \<in> set (db_obligations d). obligation_session b = s \<and> o_status b = ObligationStatus_STUCK then CliExit 2
      else if \<exists>e \<in> set (db_effects d). effect_session e = s \<and> e_status e = EffectStatus_UNKNOWN then CliExit 1 else CliDone)"
  using assms
  by (auto simp: inspect_exit_def inspect_snapshot_def list_ex_iff ObligationStatus_STUCK_def EffectStatus_UNKNOWN_def)

text \<open>
  The two views of one journal agree: where every row belongs to a session, the triage of the whole
  database is clean exactly if the inspection of every session is, and it raises the alarm for
  obligations exactly if the inspection of some session does.
\<close>

lemma triage_agrees_with_inspection:
  assumes "\<forall>e \<in> set (db_effects d). effect_session e \<in> set (db_sessions d)"
    and "\<forall>b \<in> set (db_obligations d). obligation_session b \<in> set (db_sessions d)"
  shows "exit_code_from_snapshot (fst (adk_snapshot threshold now clk d)) = 0 \<longleftrightarrow>
       (\<forall>s \<in> set (db_sessions d). inspect_exit (inspect_snapshot adk s d) = CliDone)"
    and "exit_code_from_snapshot (fst (adk_snapshot threshold now clk d)) = 2 \<longleftrightarrow>
       (\<exists>s \<in> set (db_sessions d). inspect_exit (inspect_snapshot adk s d) = CliExit 2)"
proof -
  have code: "exit_code_from_snapshot (fst (adk_snapshot threshold now clk d)) =
      (if list_ex (\<lambda>b. o_status b = ObligationStatus_STUCK) (db_obligations d) then 2
       else if list_ex (\<lambda>e. e_status e = EffectStatus_UNKNOWN) (db_effects d) then 1 else 0)"
    using doctor_exit_exact [where pending_threshold_ms = threshold and now = now and clk = clk and d = d] by (simp add: split_beta)
  have one: "\<And>s. s \<in> set (db_sessions d) \<Longrightarrow> (inspect_exit (inspect_snapshot adk s d) = CliDone) =
      (\<not> (\<exists>b \<in> set (db_obligations d). obligation_session b = s \<and> o_status b = ObligationStatus_STUCK) \<and>
       \<not> (\<exists>e \<in> set (db_effects d). effect_session e = s \<and> e_status e = EffectStatus_UNKNOWN))"
    and two: "\<And>s. s \<in> set (db_sessions d) \<Longrightarrow> (inspect_exit (inspect_snapshot adk s d) = CliExit 2) =
      (\<exists>b \<in> set (db_obligations d). obligation_session b = s \<and> o_status b = ObligationStatus_STUCK)"
    by (simp_all add: inspect_exit_exact)
  show "exit_code_from_snapshot (fst (adk_snapshot threshold now clk d)) = 0 \<longleftrightarrow>
       (\<forall>s \<in> set (db_sessions d). inspect_exit (inspect_snapshot adk s d) = CliDone)"
    using assms by (simp add: code one list_ex_iff) blast
  show "exit_code_from_snapshot (fst (adk_snapshot threshold now clk d)) = 2 \<longleftrightarrow>
       (\<exists>s \<in> set (db_sessions d). inspect_exit (inspect_snapshot adk s d) = CliExit 2)"
    using assms by (simp add: code two list_ex_iff cong: bex_cong) blast
qed

section \<open>Findings\<close>

text \<open>The JSON form is printed without the exit code that is meant to fail loudly.\<close>

lemma raw_hides_alarm:
  assumes "s \<noteq> []" "a \<noteq> []" "usr \<noteq> []" "u \<noteq> []" and "(a, usr, s) \<in> set (db_sessions d)"
  shows "inspect_adk_run adk environment True (Some s) (Some a) (Some usr) (Some u) False True d = InspectJson (snapshot_json (inspect_snapshot adk (a, usr, s) d))"
  using assms by (simp add: inspect_adk_run_def resolve_db_url_def str_or_none_def inspect_snapshot_def)

text \<open>When a timer is due is never shown, whether it is overdue or not.\<close>

lemma due_time_never_shown: "snd (snd (snd (adk_timer_row now t))) \<in> {Ago NoAge, InFuture NoAge}"
  by (simp add: adk_timer_row_def fmt_age_ms_def)

text \<open>The live view counts the stuck obligations among the newest twenty only.\<close>

lemma late_in_order:
  assumes "x \<in> set (take n (sort_key k xs))"
  shows "length (filter (\<lambda>y. k y < k x) xs) < n"
proof -
  let ?L = "sort_key k xs"
  obtain i where i: "i < n" "i < length ?L" "?L ! i = x" using assms by (auto simp: in_set_conv_nth)
  have "\<not> k y < k x" if "y \<in> set (drop i ?L)" for y
  proof -
    obtain j where "j < length ?L - i" "y = ?L ! (i + j)" using \<open>y \<in> set (drop i ?L)\<close> by (auto simp: in_set_conv_nth)
    then have "k (?L ! i) \<le> k y" using sorted_nth_mono [OF sorted_sort_key, of i "i + j" k xs] i by simp
    with i show ?thesis by simp
  qed
  then have none: "filter (\<lambda>y. k y < k x) (drop i ?L) = []" by (simp add: filter_empty_conv)
  have "filter (\<lambda>y. k y < k x) ?L = filter (\<lambda>y. k y < k x) (take i ?L) @ filter (\<lambda>y. k y < k x) (drop i ?L)"
    by (simp flip: filter_append)
  then have "length (filter (\<lambda>y. k y < k x) ?L) \<le> i" using none length_filter_le [of _ "take i ?L"]
    by (simp add: order_trans [OF length_filter_le])
  moreover have "length (filter (\<lambda>y. k y < k x) ?L) = length (filter (\<lambda>y. k y < k x) xs)"
    by (simp flip: size_mset add: mset_filter)
  ultimately show ?thesis using i by simp
qed

lemma old_stuck_not_counted:
  assumes "\<And>b. b \<in> set (db_obligations d) \<Longrightarrow> o_status b = ''stuck'' \<Longrightarrow> length (filter (\<lambda>c. o_seq b < o_seq c) (db_obligations d)) \<ge> 20"
  shows "view_stuck (global_snapshot d) = 0"
proof -
  have "o_status b \<noteq> ''stuck''" if "b \<in> set (jv_obligations (global_snapshot d))" for b
  proof
    assume stuck: "o_status b = ''stuck''"
    have "b \<in> set (db_obligations d)" using that by (auto simp: global_snapshot_def dest: set_order_limit)
    moreover have "length (filter (\<lambda>c. - o_seq c < - o_seq b) (db_obligations d)) < 20"
      using that by (intro late_in_order) (simp add: global_snapshot_def order_limit_def)
    ultimately show False using assms [OF _ stuck] by simp
  qed
  then show ?thesis by (simp add: view_stuck_def filter_empty_conv)
qed

end
