(* ===== verification/Spec2Isabelle.thy ===== *)
theory Spec2Isabelle
  imports EmbeddedDaemon Plugin EmbeddedChaos SdkSession SdkSnapshot SdkStdio SdkProcesses SdkDispatch SdkClient CliChaos CliInspectAdk
begin

text \<open>
  A verification development for Tape, a journal that makes agent side effects durable.

  The program. An agent's tool calls are journaled as \<^emph>\<open>effects\<close> before they act. Inline tools
  run in the agent process and a re-driven invocation is answered from the journal. Tools
  whose upstream does not dedupe are journaled as \<^emph>\<open>outbox\<close> effects: a reactor later calls the
  counterparty through a \<^emph>\<open>connector\<close>, under a lease, and an outcome nobody knows goes to a
  reconciler instead of being retried. Confirmed effects may register \<^emph>\<open>obligations\<close> that a
  drainer compensates in reverse order. Timers, versioned values, per-session snapshots and
  a compactor complete the journal. The repository has two Python tiers: the embedded tier
  (\<open>src/tape/sdk/python-adk/tape_adk\<close>), which keeps the journal in five SQL tables of the
  agent's own database, and the gRPC SDK (\<open>src/tape/sdk/python/tape\<close>), a client of a server.
  The command line (\<open>src/tape/cli/tape_cli\<close>) scaffolds, deploys and inspects projects of either.

  The shared theories.

  \<^item> \<open>TapePrelude\<close>: JSON values and the Python operations used on them, errors as values,
    table primitives (select, update, delete, order by with limit) and their lemmas.
  \<^item> \<open>TapeInterfaces\<close>: the locales \<open>row_store\<close> (a table by primary key), \<open>lease\<close> (an expiring
    claim is exclusive), \<open>guarded_system\<close> (a step relation with an invariant) and
    \<open>capped_backoff\<close>. They are interpreted on the tables (\<open>TapeSchemas\<close>), the dispatch and
    obligation claims (\<open>EffectLedger\<close>, \<open>ObligationLedger\<close>), the service's step relation
    (\<open>ServiceSteps\<close>) and the backoff schedules (\<open>Reactors\<close>, \<open>SdkOutbox\<close>, \<open>SdkDrainer\<close>).
  \<^item> Three more locales stand with their clients. \<open>traced_step\<close> (\<open>SdkCalls\<close>): a loop over steps
    that each leave a trace leaves the concatenation of the traces; interpreted on the
    reconciler and the compactor. \<open>durable_sink\<close> (\<open>SdkSinks\<close>): a sink that reports success only for
    what it delivered makes the relay deliver at least once; interpreted on the webhook and the
    log file. \<open>line_pump\<close> (\<open>SdkStdio\<close>): a pump that handles one line at a time keeps the order;
    interpreted on both directions of the proxy.

  The embedded tier.

  \<^item> \<open>TapeSchemas\<close>: \<open>schemas.py\<close> and the records and enum classes of \<open>service.py\<close>. The
    database is one record \<open>db\<close> of the five tables with ADK's session keys; \<open>db_ok\<close> is the
    invariant: primary keys, the unique constraints, the contract of \<open>begin_effect\<close> on every
    row and the ranges of counters; a foreign-key violation is an error of the operation. \<open>Samples\<close> holds a small
    database for concrete instances.
  \<^item> \<open>EffectLedger\<close>, \<open>ObligationLedger\<close>, \<open>TimersValues\<close>, \<open>Snapshots\<close>: one function per method of
    \<open>TapeSessionService\<close>, with its branches, refusals and constraint violations. An
    operation maps the database to an error or to a result and the next database; a method
    runs in one transaction under the write lock, so it is one step. The clock readings it
    takes are arguments.
  \<^item> \<open>Compaction\<close>: \<open>compact.py\<close>. \<open>Reactors\<close>: \<open>reactors.py\<close> and \<open>connectors.py\<close>, the four ticks
    over arbitrary connectors that may raise and change a world.
  \<^item> \<open>ServiceSteps\<close>: the service as an inductive step relation over all operations, deletion
    of sessions included, with the invariant over every reachable database.
  \<^item> \<open>Plugin\<close>: \<open>plugin.py\<close> and \<open>decorators.py\<close>. \<open>EmbeddedChaos\<close>: \<open>chaos.py\<close>. \<open>EmbeddedDaemon\<close>:
    \<open>__main__.py\<close>, the reactor process over the service's steps.

  The gRPC SDK. The server's calls are fields of client records, functions of a world that
  reply or raise (\<open>SdkCalls\<close>).

  \<^item> \<open>SdkEffect\<close>: \<open>effect.py\<close> and \<open>retry.py\<close>. \<open>SdkIdentity\<close>: \<open>adk/identity.py\<close>, \<open>adk/durable.py\<close>,
    \<open>budget.py\<close>, \<open>tenancy.py\<close>. \<open>SdkPlugin\<close>: \<open>adk/plugin.py\<close>. \<open>SdkSession\<close>: \<open>det.py\<close>, \<open>gates.py\<close> and
    \<open>adk/session.py\<close>. \<open>SdkClient\<close>: \<open>client.py\<close>'s connection, \<open>__init__.py\<close>, \<open>obs.py\<close>, \<open>_launcher.py\<close>.
  \<^item> \<open>SdkOutbox\<close>: \<open>reactors/outbox.py\<close> and the registry of \<open>connectors/base.py\<close>. \<open>SdkReconciler\<close>,
    \<open>SdkDrainer\<close>, \<open>SdkRelay\<close>, \<open>SdkLoops\<close>: the reconciler, the timers, the obligation drainer, the
    relay, the compaction driver and the loops of \<open>reactors/__init__.py\<close> and \<open>_recover.py\<close>.
    \<open>SdkReactions\<close> and \<open>SdkDispatch\<close>: \<open>reactions.py\<close>. \<open>SdkSinks\<close>: \<open>sinks.py\<close>. \<open>SdkUpstream\<close>:
    \<open>connectors/http.py\<close> and \<open>connectors/pubsub.py\<close>. \<open>SdkProcesses\<close>: the processes around them.
  \<^item> The package \<open>chaos/\<close>. \<open>SdkChaos\<close>: \<open>scenarios.py\<close>, \<open>connectors.py\<close>, \<open>invariants.py\<close>,
    \<open>reliability.py\<close>. \<open>SdkLineage\<close>: \<open>lineage.py\<close>. \<open>SdkSnapshot\<close>: \<open>snapshot.py\<close>, \<open>replay.py\<close>.
    \<open>SdkProxies\<close>: \<open>proxies.py\<close>. \<open>SdkStdio\<close>: \<open>mcp_stdio.py\<close>.

  The command line. \<open>CliConfig\<close>: \<open>config.py\<close>. \<open>CliTerraform\<close>: \<open>iac.py\<close>, \<open>provision.py\<close>,
  \<open>destroy.py\<close>. \<open>CliDeploy\<close>: \<open>deploy.py\<close>, \<open>init.py\<close>, \<open>enhance.py\<close>, \<open>dev.py\<close> and \<open>util.py\<close>'s templates.
  \<open>CliDoctor\<close>: \<open>doctor.py\<close>, \<open>status.py\<close>, \<open>logs.py\<close>, \<open>migrate.py\<close>. \<open>CliInspect\<close>: \<open>_journal.py\<close>,
  \<open>inspect.py\<close>, \<open>tail.py\<close>. \<open>CliInspectAdk\<close>: \<open>inspect_adk.py\<close>. \<open>CliChaos\<close>: \<open>chaos.py\<close>.

  What the lemmas show.

  \<^item> Safety of the journal: every reachable database satisfies \<open>db_ok\<close>, whatever the
    interleaving of operations, and the reactor process stays within it whatever its connectors
    do; a business key is journaled at most once per connector; two claims of one effect or
    obligation are a lease apart unless it was released.
  \<^item> Replay: a settled call is answered with its recorded result and nothing is written;
    this survives snapshots and compaction (\<open>replay_survives_compaction\<close> below); a
    decorated inline tool runs once and an outbox tool never runs inline. In the SDK a body runs
    only for the call that began its effect, a resumed run continues after its last decision,
    and samples are played back in order.
  \<^item> Reactors: an outbox tick calls exactly the ready effects, once each, in order, and
    leaves them out of the queue; ticks refine an abstract dispatch and compensation step
    and are runs of service operations; draining is last-in first-out; the reconciler only
    observes; timers reach the dispatcher once.
  \<^item> Compaction deletes only expired, unpinned, terminal work and counts it correctly.
  \<^item> The SDK: decoration accepts exactly complete contracts; the retry wrapper is bounded;
    the outbox reactor makes one call per claim, never retries blindly and registers the
    rollback of a confirmed effect; the reconciler never guesses that a non-idempotent call
    failed; an obligation's inverse runs once per claim; the relay loses nothing and behind a
    webhook delivers at least once; the rate limit and the debounce window hold; the dispatcher
    answers every claimed task under every schedule of its threads; the connectors read an
    answer as documented; user names cannot break the subject grammar.
  \<^item> Chaos: a session restores the registry, also when its body raises; lineage is acyclic;
    equal histories give equal snapshots and a replay's verdict is exact; the proxies are
    transparent where no rule applies and forward events and lines in order.
  \<^item> The command line: interpolation replaces exactly the references; the rendered Terraform
    uses only what it declares, and its values have the declared types; doctor over a journal
    that answers fails exactly on unknown effects and stuck obligations, and agrees with the
    inspection of the single sessions; a tail prints the matching entries in order up to its
    limit; the chaos command's exit codes are those of its reports and it restores the registry.
  \<^item> Lemmas under \<^emph>\<open>Findings\<close> show where the code departs from what it documents.

  Parameters and bounds. Connectors, handlers, tool bodies, key functions, the gRPC client, ADK,
  YAML and pydantic, the template engine, HTTP and Pub/Sub are arguments; what little is assumed of
  one is a named hypothesis with an instance. Integers are unbounded as in Python. Recursion is
  structural or has a termination proof (the retry loop, interpolation and replacement in text,
  the splitting of event streams, the comparison of nested values). Two loops are bounded by the
  code itself: the counting of decisions on resume runs at most its
  \<open>hard_cap\<close> rounds and the decisions of a deep snapshot at most \<open>max_decisions\<close>. An endless polling
  loop is a function of the list of its rounds (their clocks, and what other processes did in
  between), so its theorems hold for every finite piece of a run; threads are a schedule over
  which the theorems quantify. The token bucket's loop runs over the clock readings it takes, and
  five are shown to be enough. Strings are byte strings (UTF-8). Floating-point seconds are
  rationals: rounding is not modelled, except the overflow in the outbox backoff and where a
  rendered score depends on it.

  Not modelled: schema creation, the parsing of command-line options, logging and OpenTelemetry
  spans, generated protobuf code and network transports. The terminal screens
  (\<open>_inspector_app.py\<close>, \<open>_replay.py\<close>), the scripted demonstration (\<open>demo.py\<close>) and the prose of the
  generated README only present what is modelled here.
\<close>

section \<open>Replay survives pruning\<close>

lemma lookup_after_filter:
  assumes "db_ok d" and "r \<in> set (db_effects d)" and "db_effects d' = filter p (db_effects d)"
  shows "tbl_lookup effect_pk (db_effects d') (effect_pk r) = (if p r then Some r else None)"
proof -
  have tbl: "tbl_ok effect_pk (db_effects d)" using assms(1) by (simp add: db_ok_def)
  show ?thesis
    using tbl_lookup_mem [OF tbl assms(2)] by (simp add: assms(3) tbl_lookup_filter [OF tbl])
qed

lemma forget_twice: "forget_dispatch (forget_dispatch r) = forget_dispatch r"
  by (simp add: forget_dispatch_def)

lemma replay_after_prune:
  assumes ok: "db_ok d" and snap: "take_snapshot s up clk1 clk2 d = Inr (x, d1)"
    and mem: "r \<in> set (db_effects d)" and sel: "snapshot_selects s (int_or up clk1) r"
    and id: "begin_id a = effect_pk r" and acc: "\<not> begin_refused a"
    and ok2: "db_ok d2" and snaps: "db_snapshots d2 = db_snapshots d1"
    and es: "db_effects d2 = filter p (db_effects d1)"
  shows "\<exists>r'. begin_effect a clk d2 = Inr (r', d2) \<and> forget_dispatch r' = forget_dispatch r"
proof -
  have d1: "db_effects d1 = db_effects d" using snapshot_dict [OF ok snap] by auto
  have look: "tbl_lookup effect_pk (db_effects d2) (effect_pk r) = (if p r then Some r else None)"
    by (rule lookup_after_filter [OF ok mem]) (simp add: es d1)
  show ?thesis
  proof (cases "p r")
    case True
    with look ok2 acc id show ?thesis by (auto simp: begin_effect_cases)
  next
    case False
    with look id have "tbl_lookup effect_pk (db_effects d2) (begin_id a) = None" by simp
    from snapshot_answers [OF ok snap mem sel id acc ok2 snaps this] show ?thesis
      by (auto simp: forget_twice)
  qed
qed

text \<open>
  C3. Compaction never breaks replay: once a session's terminal effects are in its
  snapshot, a compaction tick under any policy and at any time leaves every captured tool
  call answered as before (up to the bookkeeping of the dispatch protocol), with nothing
  written; in particular the tool does not run again.
\<close>

theorem replay_survives_compaction:
  assumes "db_ok d" and "take_snapshot s up clk1 clk2 d = Inr (x, d1)"
    and "r \<in> set (db_effects d)" and "snapshot_selects s (int_or up clk1) r"
    and "begin_id a = effect_pk r" and "\<not> begin_refused a"
  shows "let d2 = snd (compact_once policy now clk d1) in
    \<exists>r'. begin_effect a clk' d2 = Inr (r', d2) \<and> forget_dispatch r' = forget_dispatch r"
  unfolding Let_def
  by (rule replay_after_prune [OF assms compact_once_ok [OF take_snapshot_ok [OF assms(1,2)]]
        compact_keeps_snapshots(1)]) (simp add: compact_once_db)

theorem replay_survives_compaction_witness:
  "let d1 = snd (projr (take_snapshot sample_session 250 0 260 sample_db));
       d2 = snd (compact_once default_policy 900000000000 0 d1)
   in \<exists>r'. begin_effect (begin_defaults ''app'' ''user'' ''s1'' ''inv'' 1 ''mail'') 300 d2 = Inr (r', d2) \<and>
        forget_dispatch r' = forget_dispatch sample_done"
proof -
  let ?a = "begin_defaults ''app'' ''user'' ''s1'' ''inv'' 1 ''mail''"
  obtain x d1 where snap: "take_snapshot sample_session 250 0 260 sample_db = Inr (x, d1)"
    by (simp add: take_snapshot_def snapshot_insert_violation_def fk_violated_def Let_def
        sample_session_def snapshot_pk_def) (simp add: sample_db_def sample_session_def)
  have sel: "snapshot_selects sample_session (int_or 250 0) sample_done"
    by (simp add: snapshot_selects_def int_or_def) (simp add: sample_done_def)
  have id: "begin_id ?a = effect_pk sample_done" by code_simp
  have "\<not> begin_refused ?a" by (simp add: begin_refused_def begin_defaults_def)
  from replay_survives_compaction [OF sample_db_ok snap _ sel id this, of default_policy 900000000000 0 300] snap
  show ?thesis by (simp add: Let_def)
qed

text \<open>
  What pruning does forget is the business key: once compaction has deleted a confirmed
  outbox effect, another session can journal the same operation of the same connector
  again, although the snapshot of the first session still holds it. The uniqueness of
  \<open>(connector, business_key)\<close> lives in the effect rows only.
\<close>

lemma compaction_forgets_business_key:
  "let paid = sample_pending\<lparr>e_status := EffectStatus_CONFIRMED\<rparr>;
       d = sample_db\<lparr>db_effects := [paid], db_obligations := [], db_timers := [], db_fk_on := False\<rparr>;
       again = (begin_defaults ''app'' ''user'' ''s2'' ''inv9'' 0 ''pay'')
                 \<lparr>b_semantics := EffectSemantics_NON_IDEMPOTENT, b_dispatch_mode := EffectDispatchMode_OUTBOX,
                  b_connector := Some ''bank'', b_business_key := Some ''invoice-7''\<rparr>;
       d1 = snd (projr (take_snapshot sample_session 0 900000000000 900000000000 d));
       d2 = snd (compact_once default_policy 900000000000 0 d1)
   in begin_effect again 900000000001 d1 =
        Inl (BusinessKeyExists (Some ''bank'') (Unique ''uq_tape_effects_connector_business_key'')) \<and>
      map_option e_status (case begin_effect again 900000000001 d2 of Inr (r, d3) \<Rightarrow> Some r | Inl e \<Rightarrow> None) =
        Some EffectStatus_PENDING"
  by code_simp

end
